(* ===== verification/Prelude.thy ===== *)
theory Prelude
  imports Main "HOL-Library.Word"
begin

section \<open>Prelude: machine types, errors, and the error/state monad\<close>

text \<open>
  Shared by every component theory:
  \<^item> the Go types that occur in the sources (\<open>uint64\<close>, \<open>uint32\<close>, \<open>byte\<close>, byte arrays and
    slices) as machine words and lists;
  \<^item> one datatype of errors; an error value of the sources built by \<open>errors.Wrapf\<close> is
    identified with the sentinel it wraps, since callers only compare with \<open>errors.Is\<close>. A Go
    run-time panic is the error \<open>Panic\<close>: nothing in the modelled code recovers from one, so
    it leaves every enclosing call just as an error that is returned at once does;
  \<^item> a monad of state-passing functions that may fail. A failed call keeps the state it
    reached: Go code that returns an error has already made the writes before it;
  \<^item> checked 64-bit division and remainder (Go panics on a zero divisor);
  \<^item> two proof principles for such programs: success Hoare triples (\<open>on_success\<close>) and
    the simulation of a program over one state type by the same program over another
    (\<open>simulates\<close>), with rules collected in \<open>success_rules\<close> and \<open>simulation\<close>.
\<close>

named_theorems monad_defs \<open>the definitions of the monad operations\<close>
named_theorems success_rules \<open>rules for success Hoare triples\<close>
named_theorems simulation \<open>rules for simulations between state types\<close>

subsection \<open>Types\<close>

type_synonym u8 = "8 word"
type_synonym u32 = "32 word"
type_synonym u64 = "64 word"
type_synonym bytes = "u8 list"
type_synonym b32 = bytes

definition zero32 :: b32 where
  "zero32 = replicate 32 0"

lemma length_zero32 [simp]: "length zero32 = 32"
  by (simp add: zero32_def)

subsection \<open>Errors\<close>

text \<open>
  The sentinels of the execution layer: \<open>mod/engine-primitives\<close>, \<open>mod/execution\<close>,
  \<open>mod/payload\<close>, and the JSON-RPC and HTTP errors of \<open>mod/primitives/pkg/net\<close>.
\<close>

datatype engine_err =
    ErrParse | ErrInvalidRequest | ErrMethodNotFound | ErrInvalidParams | ErrInternal
  | ErrServer | ErrServerParse | ErrTimeout | ErrUnauthorized
  | ErrPreDefinedJSONRPC | ErrUnknownPayload | ErrInvalidForkchoiceState
  | ErrInvalidPayloadAttributes | ErrRequestTooLarge | ErrUnknownPayloadStatus
  | ErrAcceptedPayloadStatus | ErrSyncingPayloadStatus | ErrInvalidPayloadStatus
  | ErrInvalidBlockHashPayloadStatus | ErrNilForkchoiceResponse | ErrNilBlobsBundle
  | ErrNilExecutionPayloadEnvelope | ErrNilPayloadStatus | ErrInvalidVersion | ErrNilResponse
  | ErrInvalidTimestamp | ErrEmptyPrevRandao | ErrNilWithdrawals | ErrInvalidVersionedHash
  | ErrMismatchedNumVersionedHashes | ErrPayloadBlockHashMismatch
  | ErrBadBlockProduced | ErrNilPayloadOnValidResponse
  | ErrPayloadBuilderDisabled | ErrNilPayloadID | ErrPayloadIDNotFound | ErrNilPayloadEnvelope

datatype err =
    ErrNotFound | ErrConflict | ErrEncoding
  | ErrBlockSlotTooLow | ErrSlotMismatch | ErrParentRootMismatch
  | ErrParentPayloadHashMismatch | ErrRandaoMixMismatch | ErrExceedsBlockDepositLimit
  | ErrRewardsLengthMismatch | ErrPenaltiesLengthMismatch | ErrExceedsBlockBlobLimit
  | ErrSlashedProposer | ErrStateRootMismatch | ErrXorInvalid
  | ErrDepositMessage | ErrInvalidWithdrawalCredentials | ErrForkVersionNotSupported
  | ErrNegativeIndex | ErrEmptyLeaves | ErrInsufficientDepthForLeaves | ErrZeroDepth
  | ErrExceededDepth | ErrOddLengthTreeRoots | ErrUnexpectedInputLength
  | ErrEmptyString | ErrMissingPrefix | ErrOddLength | ErrNonQuotedString | ErrInvalidString
  | ErrLeadingZero | ErrEmptyNumber | ErrUint64Range | ErrBig256Range | ErrInvalidBigWordSize
  | ErrNilBigInt | ErrNegativeBigInt
  | EL engine_err
  | UnmarshalTypeError err
  | Newf string
  | Ext string
  | Panic string
  | Join err err

text \<open>Go's integer division and remainder on \<open>uint64\<close>: a zero divisor panics.\<close>

definition div_u64 :: "u64 \<Rightarrow> u64 \<Rightarrow> err + u64" where
  "div_u64 a b = (if b = 0 then Inl (Panic ''integer divide by zero'') else Inr (a div b))"

definition mod_u64 :: "u64 \<Rightarrow> u64 \<Rightarrow> err + u64" where
  "mod_u64 a b = (if b = 0 then Inl (Panic ''integer divide by zero'') else Inr (a mod b))"

text \<open>
  Converting a slice to an array of \<open>n\<close> bytes panics when the slice is shorter and drops
  the bytes past \<open>n\<close> otherwise. Reading \<open>xs[i]\<close> out of range panics.
\<close>

definition to_array :: "nat \<Rightarrow> bytes \<Rightarrow> err + bytes" where
  "to_array n bz =
     (if length bz < n then Inl (Panic ''slice to array conversion'') else Inr (take n bz))"

definition index_or_panic :: "'a list \<Rightarrow> nat \<Rightarrow> err + 'a" where
  "index_or_panic xs i = (if i < length xs then Inr (xs ! i) else Inl (Panic ''index out of range''))"

lemma to_array_length [simp]: "length bz = n \<Longrightarrow> to_array n bz = Inr bz"
  by (simp add: to_array_def)

text \<open>The values of \<open>for i := range n\<close> with \<open>n\<close> of type \<open>uint64\<close>.\<close>

definition range_u64 :: "u64 \<Rightarrow> u64 list" where
  "range_u64 n = map of_nat [0..<unat n]"

lemma unat_plus_one: "x < y \<Longrightarrow> unat (x + 1 :: u64) = unat x + 1"
proof -
  assume "x < y"
  then have "unat x + 1 < 2 ^ 64"
    using unsigned_less [of y, where ?'a = nat] by (simp add: word_less_nat_alt)
  then show ?thesis using unat_add_lem [of x 1] by simp
qed

lemma div_u64_nonzero [simp]: "b \<noteq> 0 \<Longrightarrow> div_u64 a b = Inr (a div b)"
  by (simp add: div_u64_def)

lemma mod_u64_nonzero [simp]: "b \<noteq> 0 \<Longrightarrow> mod_u64 a b = Inr (a mod b)"
  by (simp add: mod_u64_def)

lemma mod_u64_InrD: "mod_u64 a b = Inr r \<Longrightarrow> b \<noteq> 0 \<and> r = a mod b \<and> r < b"
  by (auto simp: mod_u64_def word_mod_less_divisor word_gt_0 split: if_splits)

lemma div_u64_InrD: "div_u64 a b = Inr r \<Longrightarrow> b \<noteq> 0 \<and> r = a div b"
  by (auto simp: div_u64_def split: if_splits)

lemma length_range_u64 [simp]: "length (range_u64 n) = unat n"
  by (simp add: range_u64_def)

lemma set_range_u64: "set (range_u64 n) = {i. i < n}"
proof -
  have "i \<in> of_nat ` {0..<unat n}" if "i < n" for i :: u64
    using that by (intro image_eqI [of _ _ "unat i"]) (auto simp: word_less_nat_alt)
  moreover have "(of_nat k :: u64) < n" if "k < unat n" for k
    using that by (metis le_unat_uoi nat_less_le unat_mono word_less_nat_alt)
  ultimately show ?thesis
    by (auto simp: range_u64_def)
qed

subsection \<open>Lookups in a result\<close>

definition from_option :: "err \<Rightarrow> 'a option \<Rightarrow> err + 'a" where
  "from_option e r = (case r of None \<Rightarrow> Inl e | Some a \<Rightarrow> Inr a)"

lemma from_option_simps [simp]:
  "from_option e None = Inl e"
  "from_option e (Some a) = Inr a"
  by (simp_all add: from_option_def)

lemma from_option_Inr [simp]: "from_option e r = Inr a \<longleftrightarrow> r = Some a"
  by (cases r) simp_all

definition bindE :: "err + 'a \<Rightarrow> ('a \<Rightarrow> err + 'b) \<Rightarrow> err + 'b" where
  "bindE r f = (case r of Inl e \<Rightarrow> Inl e | Inr a \<Rightarrow> f a)"

lemma bindE_simps [simp]:
  "bindE (Inl e) f = Inl e"
  "bindE (Inr a) f = f a"
  by (simp_all add: bindE_def)

lemma bindE_Inr: "bindE r f = Inr b \<longleftrightarrow> (\<exists>a. r = Inr a \<and> f a = Inr b)"
  by (cases r) simp_all

fun mapE :: "('a \<Rightarrow> err + 'b) \<Rightarrow> 'a list \<Rightarrow> err + 'b list" where
  "mapE f [] = Inr []"
| "mapE f (x # xs) = bindE (f x) (\<lambda>y. bindE (mapE f xs) (\<lambda>ys. Inr (y # ys)))"

lemma mapE_Inr_map: "(\<And>x. x \<in> set xs \<Longrightarrow> f x = Inr (g x)) \<Longrightarrow> mapE f xs = Inr (map g xs)"
  by (induction xs) auto

lemma mapE_InrD: "mapE f xs = Inr ys \<Longrightarrow> list_all2 (\<lambda>x y. f x = Inr y) xs ys"
  by (induction xs arbitrary: ys) (auto simp: bindE_Inr)

text \<open>
  \<open>errgroup\<close> with two goroutines: \<open>Wait\<close> returns the error of the one that failed first. The flag
  is the schedule: whether the first goroutine is the first to fail when both do.
\<close>

definition errgroup2 :: "bool \<Rightarrow> err + 'a \<Rightarrow> err + 'b \<Rightarrow> err + 'a \<times> 'b" where
  "errgroup2 first r1 r2 =
     (case (r1, r2) of
        (Inr a, Inr b) \<Rightarrow> Inr (a, b)
      | (Inl e, Inr _) \<Rightarrow> Inl e
      | (Inr _, Inl e) \<Rightarrow> Inl e
      | (Inl e1, Inl e2) \<Rightarrow> Inl (if first then e1 else e2))"

lemma errgroup2_Inr [simp]: "errgroup2 first r1 r2 = Inr p \<longleftrightarrow> r1 = Inr (fst p) \<and> r2 = Inr (snd p)"
  by (cases r1; cases r2; cases p) (auto simp: errgroup2_def)

lemma errgroup2_both [simp]: "errgroup2 first (Inr a) (Inr b) = Inr (a, b)"
  by simp

subsection \<open>The monad\<close>

type_synonym ('s, 'a) M = "'s \<Rightarrow> (err + 'a) \<times> 's"

definition ret :: "'a \<Rightarrow> ('s, 'a) M" where
  [monad_defs]: "ret a = (\<lambda>s. (Inr a, s))"

definition throw :: "err \<Rightarrow> ('s, 'a) M" where
  [monad_defs]: "throw e = (\<lambda>s. (Inl e, s))"

definition bindM :: "('s, 'a) M \<Rightarrow> ('a \<Rightarrow> ('s, 'b) M) \<Rightarrow> ('s, 'b) M" where
  [monad_defs]: "bindM m f =
     (\<lambda>s. case m s of (Inl e, s') \<Rightarrow> (Inl e, s') | (Inr a, s') \<Rightarrow> f a s')"

definition liftE :: "err + 'a \<Rightarrow> ('s, 'a) M" where
  [monad_defs]: "liftE r = (\<lambda>s. (r, s))"

text \<open>A call that only reads the state.\<close>

definition reads :: "('s \<Rightarrow> err + 'a) \<Rightarrow> ('s, 'a) M" where
  [monad_defs]: "reads f = (\<lambda>s. (f s, s))"

definition assertM :: "bool \<Rightarrow> err \<Rightarrow> ('s, unit) M" where
  [monad_defs]: "assertM c e = (if c then ret () else throw e)"

fun forM :: "'a list \<Rightarrow> ('a \<Rightarrow> ('s, unit) M) \<Rightarrow> ('s, unit) M" where
  "forM [] f = ret ()"
| "forM (x # xs) f = bindM (f x) (\<lambda>_. forM xs f)"

fun mapM :: "('a \<Rightarrow> ('s, 'b) M) \<Rightarrow> 'a list \<Rightarrow> ('s, 'b list) M" where
  "mapM f [] = ret []"
| "mapM f (x # xs) = bindM (f x) (\<lambda>y. bindM (mapM f xs) (\<lambda>ys. ret (y # ys)))"

lemma ret_apply [simp]: "ret a s = (Inr a, s)"
  by (simp add: ret_def)

lemma throw_apply [simp]: "throw e s = (Inl e, s)"
  by (simp add: throw_def)

lemma liftE_apply [simp]: "liftE r s = (r, s)"
  by (simp add: liftE_def)

lemma reads_apply [simp]: "reads f s = (f s, s)"
  by (simp add: reads_def)

lemma assertM_apply [simp]: "assertM c e s = (if c then Inr () else Inl e, s)"
  by (simp add: assertM_def)

lemma bindM_Inl [simp]: "m s = (Inl e, s') \<Longrightarrow> bindM m f s = (Inl e, s')"
  by (simp add: bindM_def)

lemma bindM_Inr [simp]: "m s = (Inr a, s') \<Longrightarrow> bindM m f s = f a s'"
  by (simp add: bindM_def)

lemma bindM_throw [simp]: "bindM (throw e) f = throw e"
  by (simp add: fun_eq_iff)

lemma bindM_ret [simp]: "bindM (ret a) f = f a"
  by (simp add: fun_eq_iff)

lemma bindM_ret_right: "bindM m ret = m"
proof
  show "bindM m ret s = m s" for s
    by (cases "m s"; cases "fst (m s)") (auto simp: bindM_def)
qed

lemma bindM_assoc: "bindM (bindM m f) g = bindM m (\<lambda>x. bindM (f x) g)"
proof
  show "bindM (bindM m f) g s = bindM m (\<lambda>x. bindM (f x) g) s" for s
    by (cases "m s"; cases "fst (m s)") (auto simp: bindM_def)
qed

lemma bindM_success:
  "bindM m f s = (Inr b, s'') \<longleftrightarrow> (\<exists>a s'. m s = (Inr a, s') \<and> f a s' = (Inr b, s''))"
  by (auto simp: bindM_def split: prod.splits sum.splits)

lemma bindM_reads: "bindM (reads g) f s = (case g s of Inl e \<Rightarrow> (Inl e, s) | Inr a \<Rightarrow> f a s)"
  by (simp add: bindM_def reads_def split: sum.splits)

lemma bindM_liftE: "bindM (liftE r) f s = (case r of Inl e \<Rightarrow> (Inl e, s) | Inr a \<Rightarrow> f a s)"
  by (simp add: bindM_def split: sum.splits)

lemma bindM_assertM: "bindM (assertM c e) f s = (if c then f () s else (Inl e, s))"
  by (simp add: bindM_def)

lemmas bindM_steps = bindM_reads bindM_liftE bindM_assertM

lemma bindM_cong [fundef_cong]:
  assumes "m = m'" and "\<And>s a s'. m' s = (Inr a, s') \<Longrightarrow> f a s' = f' a s'"
  shows "bindM m f = bindM m' f'"
  using assms by (auto simp: bindM_def fun_eq_iff split: prod.splits sum.splits)

lemma forM_append: "forM (xs @ ys) f = bindM (forM xs f) (\<lambda>_. forM ys f)"
  by (induction xs) (simp_all add: bindM_assoc)

lemma mapM_reads: "mapM (\<lambda>x. reads (f x)) xs s = (mapE (\<lambda>x. f x s) xs, s)"
proof (induction xs)
  case (Cons x xs)
  then show ?case by (cases "f x s"; cases "mapE (\<lambda>x. f x s) xs") (simp_all add: bindM_def)
qed simp

subsection \<open>Success Hoare triples\<close>

text \<open>
  \<open>on_success P m Q\<close>: from a state with \<open>P\<close>, whenever \<open>m\<close> returns without an error, its
  value and the state reached satisfy \<open>Q\<close>.
\<close>

definition on_success :: "('s \<Rightarrow> bool) \<Rightarrow> ('s, 'a) M \<Rightarrow> ('a \<Rightarrow> 's \<Rightarrow> bool) \<Rightarrow> bool" where
  "on_success P m Q \<longleftrightarrow> (\<forall>s a s'. P s \<longrightarrow> m s = (Inr a, s') \<longrightarrow> Q a s')"

lemma on_successI: "(\<And>s a s'. P s \<Longrightarrow> m s = (Inr a, s') \<Longrightarrow> Q a s') \<Longrightarrow> on_success P m Q"
  by (simp add: on_success_def)

lemma on_successD: "on_success P m Q \<Longrightarrow> P s \<Longrightarrow> m s = (Inr a, s') \<Longrightarrow> Q a s'"
  by (simp add: on_success_def)

lemma on_success_bindM [success_rules]:
  "on_success P m R \<Longrightarrow> (\<And>a. on_success (R a) (f a) Q) \<Longrightarrow> on_success P (bindM m f) Q"
  by (fastforce simp: on_success_def bindM_success)

text \<open>
  The rule for preserving one predicate through a sequence of calls; unlike the rule above
  it leaves no unknown intermediate assertion, so the automation can apply it blindly.
\<close>

lemma on_success_bindM_inv:
  "on_success I m (\<lambda>_. I) \<Longrightarrow> (\<And>a. on_success I (f a) (\<lambda>_. I)) \<Longrightarrow> on_success I (bindM m f) (\<lambda>_. I)"
  by (rule on_success_bindM)

lemma on_success_ret [success_rules]: "(\<And>s. P s \<Longrightarrow> Q a s) \<Longrightarrow> on_success P (ret a) Q"
  by (simp add: on_success_def)

lemma on_success_throw [success_rules]: "on_success P (throw e) Q"
  by (simp add: on_success_def)

lemma on_success_reads: "(\<And>s a. P s \<Longrightarrow> f s = Inr a \<Longrightarrow> Q a s) \<Longrightarrow> on_success P (reads f) Q"
  by (simp add: on_success_def)

lemma on_success_liftE: "(\<And>s a. P s \<Longrightarrow> r = Inr a \<Longrightarrow> Q a s) \<Longrightarrow> on_success P (liftE r) Q"
  by (simp add: on_success_def)

lemma on_success_assertM: "(\<And>s. P s \<Longrightarrow> c \<Longrightarrow> Q () s) \<Longrightarrow> on_success P (assertM c e) Q"
  by (simp add: on_success_def)

lemma on_success_if:
  "(b \<Longrightarrow> on_success P m Q) \<Longrightarrow> (\<not> b \<Longrightarrow> on_success P m' Q) \<Longrightarrow>
   on_success P (if b then m else m') Q"
  by simp

lemma on_success_forM:
  assumes "\<And>x. x \<in> set xs \<Longrightarrow> on_success I (f x) (\<lambda>_. I)"
  shows "on_success I (forM xs f) (\<lambda>_. I)"
  using assms by (induction xs) (auto intro!: success_rules)

lemma on_success_mapM:
  assumes "\<And>x. x \<in> set xs \<Longrightarrow> on_success I (f x) (\<lambda>_. I)"
  shows "on_success I (mapM f xs) (\<lambda>_. I)"
  using assms by (induction xs) (auto intro!: on_success_bindM on_success_ret)

lemma on_success_weaken:
  "on_success P' m Q' \<Longrightarrow> (\<And>s. P s \<Longrightarrow> P' s) \<Longrightarrow> (\<And>a s. Q' a s \<Longrightarrow> Q a s) \<Longrightarrow> on_success P m Q"
  by (simp add: on_success_def) blast

lemma on_success_conj:
  "on_success P m Q \<Longrightarrow> on_success P' m Q' \<Longrightarrow>
   on_success (\<lambda>s. P s \<and> P' s) m (\<lambda>a s. Q a s \<and> Q' a s)"
  by (auto simp: on_success_def)

text \<open>Every call that only inspects the state keeps any predicate of it.\<close>

lemma keeps_reads [success_rules]: "on_success I (reads f) (\<lambda>_. I)"
  and keeps_liftE [success_rules]: "on_success I (liftE r) (\<lambda>_. I)"
  and keeps_assertM [success_rules]: "on_success I (assertM c e) (\<lambda>_. I)"
  by (simp_all add: on_success_def)

subsection \<open>Simulation between two state types\<close>

text \<open>
  \<open>simulates v m m'\<close>: the program \<open>m\<close> over states \<open>'c\<close> and the program \<open>m'\<close> over the
  views \<open>v c\<close> fail with the same error, or succeed with the same value in corresponding
  states. After an error nothing is promised of the state: the code drops it.
\<close>

definition simulates :: "('c \<Rightarrow> 'v) \<Rightarrow> ('c, 'a) M \<Rightarrow> ('v, 'a) M \<Rightarrow> bool" where
  "simulates v m m' \<longleftrightarrow>
     (\<forall>c. case m' (v c) of
        (Inl e, _) \<Rightarrow> \<exists>c'. m c = (Inl e, c')
      | (Inr a, w) \<Rightarrow> \<exists>c'. m c = (Inr a, c') \<and> v c' = w)"

lemma simulatesI:
  assumes "\<And>c e w. m' (v c) = (Inl e, w) \<Longrightarrow> \<exists>c'. m c = (Inl e, c')"
    and "\<And>c a w. m' (v c) = (Inr a, w) \<Longrightarrow> \<exists>c'. m c = (Inr a, c') \<and> v c' = w"
  shows "simulates v m m'"
  using assms by (auto simp: simulates_def split: prod.splits sum.splits)

lemma simulates_cases:
  assumes "simulates v m m'"
  obtains (error) e w c' where "m' (v c) = (Inl e, w)" "m c = (Inl e, c')"
  | (success) a c' where "m' (v c) = (Inr a, v c')" "m c = (Inr a, c')"
proof (cases "m' (v c)")
  case (Pair r w)
  from assms have "case m' (v c) of (Inl e, _) \<Rightarrow> \<exists>c'. m c = (Inl e, c')
      | (Inr a, w) \<Rightarrow> \<exists>c'. m c = (Inr a, c') \<and> v c' = w"
    by (simp add: simulates_def)
  with Pair that show thesis by (cases r) auto
qed

lemma simulates_fst: "simulates v m m' \<Longrightarrow> fst (m c) = fst (m' (v c))"
  by (erule simulates_cases [of v m m' c]) simp_all

lemma simulates_success:
  "simulates v m m' \<Longrightarrow> m c = (Inr a, c') \<Longrightarrow> m' (v c) = (Inr a, v c')"
  by (erule simulates_cases [of v m m' c]) simp_all

lemma simulates_success':
  "simulates v m m' \<Longrightarrow> m' (v c) = (Inr a, w) \<Longrightarrow> \<exists>c'. m c = (Inr a, c') \<and> v c' = w"
  by (auto simp: simulates_def dest!: spec [of _ c])

lemma simulates_error:
  "simulates v m m' \<Longrightarrow> m' (v c) = (Inl e, w) \<Longrightarrow> \<exists>c'. m c = (Inl e, c')"
  by (auto simp: simulates_def dest!: spec [of _ c])

lemma simulates_ret [simulation]: "simulates v (ret a) (ret a)"
  and simulates_throw [simulation]: "simulates v (throw e) (throw e)"
  and simulates_liftE [simulation]: "simulates v (liftE r) (liftE r)"
  and simulates_assertM [simulation]: "simulates v (assertM b e) (assertM b e)"
  by (auto simp: simulates_def split: sum.splits)

lemma simulates_reads [simulation]:
  "(\<And>c. f c = f' (v c)) \<Longrightarrow> simulates v (reads f) (reads f')"
  by (auto simp: simulates_def split: sum.splits)

lemma simulates_bindM [simulation]:
  assumes m: "simulates v m m'" and f: "\<And>a. simulates v (f a) (f' a)"
  shows "simulates v (bindM m f) (bindM m' f')"
proof (rule simulatesI)
  fix c e w assume "bindM m' f' (v c) = (Inl e, w)"
  then consider "m' (v c) = (Inl e, w)"
    | a w' where "m' (v c) = (Inr a, w')" "f' a w' = (Inl e, w)"
    by (auto simp: bindM_def split: prod.splits sum.splits)
  then show "\<exists>c'. bindM m f c = (Inl e, c')"
  proof cases
    case 1
    with simulates_error [OF m] show ?thesis by fastforce
  next
    case 2
    then obtain c1 where "m c = (Inr a, c1)" "v c1 = w'"
      using simulates_success' [OF m] by blast
    with 2 simulates_error [OF f] show ?thesis by fastforce
  qed
next
  fix c b w assume "bindM m' f' (v c) = (Inr b, w)"
  then obtain a w' where "m' (v c) = (Inr a, w')" "f' a w' = (Inr b, w)"
    by (auto simp: bindM_success)
  moreover from this(1) obtain c1 where "m c = (Inr a, c1)" "v c1 = w'"
    using simulates_success' [OF m] by blast
  ultimately show "\<exists>c'. bindM m f c = (Inr b, c') \<and> v c' = w"
    using simulates_success' [OF f] by fastforce
qed

lemma simulates_if [simulation]:
  "simulates v m m' \<Longrightarrow> simulates v n n' \<Longrightarrow> simulates v (if b then m else n) (if b then m' else n')"
  by simp

lemma simulates_forM [simulation]:
  "(\<And>x. simulates v (f x) (f' x)) \<Longrightarrow> simulates v (forM xs f) (forM xs f')"
  by (induction xs) (auto intro!: simulation)

lemma simulates_mapM [simulation]:
  "(\<And>x. simulates v (f x) (f' x)) \<Longrightarrow> simulates v (mapM f xs) (mapM f' xs)"
  by (induction xs) (auto intro!: simulation)

end
