(* ===== verification/U64.thy ===== *)
theory U64
  imports Prelude
begin

unbundle bit_operations_syntax

section \<open>64-bit arithmetic: \<open>mod/primitives/pkg/math/u64.go\<close>\<close>

text \<open>
  The power-of-two and logarithm methods of \<open>math.U64\<close>, with the bit smearing written as in
  the sources, and the little-endian encoding of \<open>U64\<close>. The lemmas state what the bit tricks
  compute: \<open>NextPowerOfTwo\<close> is the least power of two that is not below its argument, and the
  two logarithms are the ceiling and the floor of the base 2 logarithm.
\<close>

subsection \<open>Definitions\<close>

text \<open>The five lines \<open>u |= u >> 1\<close> to \<open>u |= u >> 32\<close>, shared by the two methods.\<close>

definition smear_step :: "nat \<Rightarrow> u64 \<Rightarrow> u64" where
  "smear_step k u = u OR drop_bit k u"

definition smear :: "u64 \<Rightarrow> u64" where
  "smear u =
     (let u = smear_step 1 u; u = smear_step 2 u; u = smear_step 4 u;
          u = smear_step 8 u; u = smear_step 16 u
      in smear_step 32 u)"

definition NextPowerOfTwo :: "u64 \<Rightarrow> err + u64" where
  "NextPowerOfTwo u =
     (if u = 0 then Inr 1
      else if u > push_bit 63 1 then Inl (Panic ''Next power of 2 is 1 << 64.'')
      else Inr (smear (u - 1) + 1))"

definition PrevPowerOfTwo :: "u64 \<Rightarrow> u64" where
  "PrevPowerOfTwo u =
     (if u = 0 then 1 else let u = smear u in u - drop_bit 1 u)"

text \<open>The standard library's \<open>bits.Len64\<close>: the number of bits needed for a value, 0 for 0.\<close>

fun bit_length :: "nat \<Rightarrow> nat" where
  "bit_length n = (if n = 0 then 0 else Suc (bit_length (n div 2)))"

declare bit_length.simps [simp del]

definition Len64 :: "u64 \<Rightarrow> nat" where
  "Len64 u = bit_length (unat u)"

definition ILog2Ceil :: "u64 \<Rightarrow> u8" where
  "ILog2Ceil u = (if u = 0 then 0 else of_nat (Len64 (u - 1)))"

definition ILog2Floor :: "u64 \<Rightarrow> u8" where
  "ILog2Floor u = (if u = 0 then 0 else of_nat (Len64 u) - 1)"

text \<open>\<open>binary.LittleEndian.PutUint64\<close> and \<open>Uint64\<close> on eight bytes.\<close>

definition le_bytes :: "u64 \<Rightarrow> bytes" where
  "le_bytes u = map (\<lambda>i. ucast (drop_bit (8 * i) u)) [0..<8]"

fun le_value :: "bytes \<Rightarrow> u64" where
  "le_value [] = 0"
| "le_value (b # bs) = ucast b OR push_bit 8 (le_value bs)"

definition U64_MarshalSSZ :: "u64 \<Rightarrow> bytes" where
  "U64_MarshalSSZ u = le_bytes u"

definition U64_UnmarshalSSZ :: "bytes \<Rightarrow> err + u64" where
  "U64_UnmarshalSSZ buf =
     (if length buf \<noteq> 8 then Inl ErrUnexpectedInputLength else Inr (le_value buf))"

definition U64_HashTreeRoot :: "u64 \<Rightarrow> b32" where
  "U64_HashTreeRoot u = le_bytes u @ replicate 24 0"

subsection \<open>The length of a number in bits\<close>

lemma bit_length_0 [simp]: "bit_length 0 = 0"
  by (simp add: bit_length.simps)

lemma bit_length_upper: "n < 2 ^ bit_length n"
proof (induction n rule: bit_length.induct)
  case (1 n)
  then show ?case by (cases "n = 0") (auto simp: bit_length.simps [of n])
qed

lemma bit_length_lower: "n \<noteq> 0 \<Longrightarrow> 2 ^ (bit_length n - 1) \<le> n"
proof (induction n rule: bit_length.induct)
  case (1 n)
  show ?case
  proof (cases "n div 2 = 0")
    case True
    with 1 show ?thesis by (simp add: bit_length.simps [of n])
  next
    case False
    with 1 have "2 ^ (bit_length (n div 2) - 1) \<le> n div 2" by simp
    moreover from False have "bit_length (n div 2) \<noteq> 0"
      by (simp add: bit_length.simps [of "n div 2"])
    ultimately have "2 * 2 ^ (bit_length (n div 2) - 1) \<le> n" "0 < bit_length (n div 2)" by simp_all
    then have "2 ^ bit_length (n div 2) \<le> n"
      by (metis One_nat_def Suc_pred power_Suc)
    with False show ?thesis by (simp add: bit_length.simps [of n])
  qed
qed

lemma bit_length_le: "n < 2 ^ k \<Longrightarrow> bit_length n \<le> k"
proof (cases "n = 0")
  case False
  assume "n < 2 ^ k"
  with bit_length_lower [OF False] have "(2::nat) ^ (bit_length n - 1) < 2 ^ k" by linarith
  then show ?thesis by (simp add: power_strict_increasing_iff)
qed simp

lemma bit_length_eq: "2 ^ k \<le> n \<Longrightarrow> n < 2 ^ Suc k \<Longrightarrow> bit_length n = Suc k"
proof (rule antisym)
  assume a: "2 ^ k \<le> n"
  have "(2::nat) ^ k < 2 ^ bit_length n"
    using bit_length_upper [of n] a by linarith
  then show "Suc k \<le> bit_length n" by (simp add: power_strict_increasing_iff)
qed (rule bit_length_le)

lemma Len64_le_64: "Len64 u \<le> 64"
  using unsigned_less [of u, where ?'a = nat] by (auto simp: Len64_def intro: bit_length_le)

subsection \<open>Smearing\<close>

text \<open>Smearing fills every bit below the highest one.\<close>

lemma smear_step_window:
  assumes "\<And>i. bit y i \<longleftrightarrow> (\<exists>j. i \<le> j \<and> j < i + k \<and> bit x j)"
  shows "bit (smear_step k y) i \<longleftrightarrow> (\<exists>j. i \<le> j \<and> j < i + 2 * k \<and> bit x j)"
proof -
  have "bit (smear_step k y) i \<longleftrightarrow> bit y i \<or> bit y (i + k)"
    by (simp add: smear_step_def bit_or_iff bit_drop_bit_eq add.commute)
  also have "\<dots> \<longleftrightarrow> (\<exists>j. i \<le> j \<and> j < i + 2 * k \<and> bit x j)"
    unfolding assms
  proof (intro iffI)
    assume "\<exists>j. i \<le> j \<and> j < i + 2 * k \<and> bit x j"
    then obtain j where "i \<le> j" "j < i + 2 * k" "bit x j" by blast
    then show "(\<exists>j. i \<le> j \<and> j < i + k \<and> bit x j) \<or> (\<exists>j. i + k \<le> j \<and> j < i + k + k \<and> bit x j)"
      by (cases "j < i + k") auto
  qed (auto, use add_leD1 in \<open>fastforce simp: mult_2 add.assoc\<close>)
  finally show ?thesis .
qed

lemma bit_smear: "bit (smear x) i \<longleftrightarrow> (\<exists>j. i \<le> j \<and> j < i + 64 \<and> bit x j)"
proof -
  have "bit x i \<longleftrightarrow> (\<exists>j. i \<le> j \<and> j < i + 1 \<and> bit x j)" for i
    by (metis Suc_eq_plus1 le_antisym less_Suc_eq_le order_refl)
  note smear_step_window [OF this]
  note smear_step_window [OF this]
  note smear_step_window [OF this]
  note smear_step_window [OF this]
  note smear_step_window [OF this]
  note smear_step_window [OF this]
  then show ?thesis by (simp add: smear_def Let_def)
qed

lemma bit_unat: "bit (unat (x :: u64)) i \<longleftrightarrow> bit x i"
  by (simp add: bit_unsigned_iff)

lemma bit_nat_ge: "bit (m :: nat) j \<Longrightarrow> 2 ^ j \<le> m"
  by (metis bit_iff_odd div_less even_zero not_le)

lemma bit_top: "m \<noteq> 0 \<Longrightarrow> bit m (bit_length m - 1)"
proof -
  assume "m \<noteq> 0"
  define k where "k = bit_length m - 1"
  have "bit_length m = Suc k" using \<open>m \<noteq> 0\<close> by (simp add: k_def bit_length.simps [of m])
  then have "m < 2 * 2 ^ k" "2 ^ k \<le> m"
    using bit_length_upper [of m] bit_length_lower [OF \<open>m \<noteq> 0\<close>] by simp_all
  then have "m div 2 ^ k = 1" by (simp add: div_nat_eqI)
  then show ?thesis unfolding k_def [symmetric] by (simp add: bit_iff_odd)
qed

lemma smear_mask: "smear x = mask (Len64 x)"
proof (rule bit_word_eqI)
  fix i assume "i < LENGTH(64)"
  have "(\<exists>j. i \<le> j \<and> j < i + 64 \<and> bit x j) \<longleftrightarrow> i < Len64 x"
  proof
    assume "\<exists>j. i \<le> j \<and> j < i + 64 \<and> bit x j"
    then obtain j where "i \<le> j" "bit (unat x) j" by (auto simp: bit_unat)
    moreover have "(2::nat) ^ j < 2 ^ Len64 x"
      using le_less_trans [OF bit_nat_ge [OF \<open>bit (unat x) j\<close>] bit_length_upper]
      unfolding Len64_def .
    ultimately show "i < Len64 x" by (simp add: power_strict_increasing_iff)
  next
    assume *: "i < Len64 x"
    then have "unat x \<noteq> 0" unfolding Len64_def by (intro notI) simp
    then have "bit x (Len64 x - 1)"
      using bit_top [of "unat x"] by (simp add: Len64_def bit_unat)
    with * Len64_le_64 [of x] show "\<exists>j. i \<le> j \<and> j < i + 64 \<and> bit x j"
      by (intro exI [of _ "Len64 x - 1"]) auto
  qed
  with \<open>i < LENGTH(64)\<close> show "bit (smear x) i \<longleftrightarrow> bit (mask (Len64 x) :: u64) i"
    by (simp add: bit_smear bit_mask_iff)
qed

subsection \<open>Powers of two and logarithms\<close>

lemma push_bit_63: "push_bit 63 (1 :: u64) = 2 ^ 63"
  by (simp add: push_bit_eq_mult)

lemma unat_power_two:
  assumes "k < 64"
  shows "unat (2 ^ k :: u64) = 2 ^ k"
proof -
  have "(2::nat) ^ k < 2 ^ 64" using assms by (rule power_strict_increasing) simp
  then have "unat (of_nat (2 ^ k) :: u64) = 2 ^ k" by (simp only: unat_of_nat) simp
  then show ?thesis by simp
qed

lemma mask_plus_one: "(mask k :: u64) + 1 = 2 ^ k"
  by (simp add: mask_eq_exp_minus_1)

text \<open>The exponent that both \<open>NextPowerOfTwo\<close> and \<open>ILog2Ceil\<close> compute.\<close>

lemma Len64_minus_one:
  assumes "u \<noteq> 0"
  shows "unat u \<le> 2 ^ Len64 (u - 1)" and "\<And>k. unat u \<le> 2 ^ k \<Longrightarrow> Len64 (u - 1) \<le> k"
proof -
  have u: "0 < unat u" "unat (u - 1) = unat u - 1"
    using assms by (simp_all add: unat_minus_one unat_gt_0)
  show "unat u \<le> 2 ^ Len64 (u - 1)"
    using bit_length_upper [of "unat u - 1"] u by (simp add: Len64_def)
  show "Len64 (u - 1) \<le> k" if "unat u \<le> 2 ^ k" for k
    using that u by (auto simp: Len64_def intro!: bit_length_le)
qed

lemma Len64_minus_one_63: "u \<noteq> 0 \<Longrightarrow> unat u \<le> 2 ^ 63 \<Longrightarrow> Len64 (u - 1) \<le> 63"
  by (rule Len64_minus_one)

lemma NextPowerOfTwo_exp:
  assumes "u \<noteq> 0" and "unat u \<le> 2 ^ 63"
  shows "NextPowerOfTwo u = Inr (2 ^ Len64 (u - 1))"
proof -
  have "\<not> u > push_bit 63 1"
    using assms(2) by (simp add: push_bit_63 word_less_nat_alt unat_power_two)
  with assms(1) show ?thesis
    by (simp add: NextPowerOfTwo_def smear_mask mask_plus_one)
qed

lemma ILog2Ceil_nat: "u \<noteq> 0 \<Longrightarrow> unat (ILog2Ceil u) = Len64 (u - 1)"
  using Len64_le_64 [of "u - 1"]
  by (simp add: ILog2Ceil_def unat_of_nat)

lemma ILog2Ceil_power:
  assumes "k < 64"
  shows "unat (ILog2Ceil (2 ^ k)) = k"
proof -
  have nz: "(2 ^ k :: u64) \<noteq> 0" using assms by (metis unat_0 unat_power_two power_not_zero zero_neq_numeral)
  have "Len64 (2 ^ k - 1) = k"
  proof (rule antisym)
    show "Len64 (2 ^ k - 1) \<le> k"
      using assms by (intro Len64_minus_one(2) [OF nz]) (simp add: unat_power_two)
    have "(2::nat) ^ k \<le> 2 ^ Len64 (2 ^ k - 1)"
      using Len64_minus_one(1) [OF nz] assms by (simp add: unat_power_two)
    then show "k \<le> Len64 (2 ^ k - 1)" by (simp add: power_increasing_iff)
  qed
  with nz show ?thesis by (simp add: ILog2Ceil_nat)
qed

lemma PrevPowerOfTwo_exp:
  assumes "u \<noteq> 0"
  shows "PrevPowerOfTwo u = 2 ^ (Len64 u - 1)"
proof -
  have "Len64 u \<noteq> 0" using assms by (simp add: Len64_def bit_length.simps [of "unat u"] unat_eq_0)
  then obtain k where k: "Len64 u = Suc k" by (cases "Len64 u") auto
  have "k < 64" using Len64_le_64 [of u] k by simp
  have "drop_bit 1 (mask (Suc k) :: u64) = mask k"
    using \<open>k < 64\<close> by (intro bit_word_eqI) (auto simp: bit_drop_bit_eq bit_mask_iff)
  then have "PrevPowerOfTwo u = (2 ^ Suc k - 1) - (2 ^ k - 1)"
    using assms by (simp add: PrevPowerOfTwo_def smear_mask k mask_eq_exp_minus_1 Let_def)
  then show ?thesis by (simp add: k)
qed

lemma Len64_bounds:
  assumes "u \<noteq> 0"
  shows "2 ^ (Len64 u - 1) \<le> unat u" and "unat u < 2 ^ Len64 u" and "0 < Len64 u"
  using assms bit_length_lower [of "unat u"] bit_length_upper [of "unat u"]
  by (simp_all add: Len64_def unat_eq_0 bit_length.simps [of "unat u"])

subsection \<open>Little-endian bytes\<close>

lemma length_le_bytes [simp]: "length (le_bytes u) = 8"
  by (simp add: le_bytes_def)

lemma bit_le_value:
  "bit (le_value bs) i \<longleftrightarrow> i < 64 \<and> i div 8 < length bs \<and> bit (bs ! (i div 8)) (i mod 8)"
proof (induction bs arbitrary: i)
  case (Cons b bs)
  show ?case
  proof (cases "i < 8")
    case True
    then show ?thesis
      by (auto simp: bit_or_iff bit_push_bit_iff bit_unsigned_iff)
  next
    case False
    then have "i div 8 = Suc ((i - 8) div 8)" "i mod 8 = (i - 8) mod 8"
      by (simp_all add: le_div_geq le_mod_geq)
    moreover from False have "\<not> bit (ucast b :: u64) i"
      by (auto simp: bit_unsigned_iff dest: bit_imp_le_length)
    ultimately show ?thesis
      using False by (auto simp: bit_or_iff bit_push_bit_iff Cons.IH)
  qed
qed simp

lemma le_bytes_nth: "k < 8 \<Longrightarrow> le_bytes u ! k = ucast (drop_bit (8 * k) u)"
  by (simp add: le_bytes_def)

lemma le_value_le_bytes: "le_value (le_bytes u) = u"
proof (rule bit_word_eqI)
  fix i assume "i < LENGTH(64)"
  then have "i div 8 < 8" "8 * (i div 8) + i mod 8 = i" by (simp_all add: less_mult_imp_div_less)
  moreover have "bit (le_value (le_bytes u)) i \<longleftrightarrow> i div 8 < 8 \<and> bit u (8 * (i div 8) + i mod 8)"
    using \<open>i < LENGTH(64)\<close>
    by (auto simp: bit_le_value le_bytes_nth bit_unsigned_iff bit_drop_bit_eq)
  ultimately show "bit (le_value (le_bytes u)) i \<longleftrightarrow> bit u i" by (simp only: simp_thms)
qed

lemma le_bytes_le_value:
  assumes "length bs = 8"
  shows "le_bytes (le_value bs) = bs"
proof (rule nth_equalityI)
  fix k assume "k < length (le_bytes (le_value bs))"
  then have k: "k < 8" by simp
  show "le_bytes (le_value bs) ! k = bs ! k"
  proof (rule bit_word_eqI)
    fix i assume "i < LENGTH(8)"
    then have "i < 8" by simp
    then have "(8 * k + i) div 8 = k" "(8 * k + i) mod 8 = i" "8 * k + i < 64"
      using k by simp_all
    with k \<open>i < 8\<close> assms show "bit (le_bytes (le_value bs) ! k) i \<longleftrightarrow> bit (bs ! k) i"
      by (simp add: le_bytes_nth bit_unsigned_iff bit_drop_bit_eq bit_le_value)
  qed
qed (simp add: assms)

subsection \<open>Properties\<close>

text \<open>
  \<open>NextPowerOfTwo\<close> returns the least power of two that is not below its argument whenever
  that power fits in 64 bits, and panics on every larger argument.
\<close>

theorem NextPowerOfTwo_least:
  "if unat u \<le> 2 ^ 63
   then \<exists>k < 64. NextPowerOfTwo u = Inr (2 ^ k) \<and> (\<forall>m. k \<le> m \<longleftrightarrow> unat u \<le> 2 ^ m)
   else \<exists>msg. NextPowerOfTwo u = Inl (Panic msg)"
proof (cases "u = 0")
  case True
  then show ?thesis
    by (auto simp: NextPowerOfTwo_def intro!: exI [of _ 0])
next
  case u: False
  show ?thesis
  proof (cases "unat u \<le> 2 ^ 63")
    case True
    have "Len64 (u - 1) \<le> m \<longleftrightarrow> unat u \<le> 2 ^ m" for m
    proof
      assume "Len64 (u - 1) \<le> m"
      then have "(2::nat) ^ Len64 (u - 1) \<le> 2 ^ m" by (rule power_increasing) simp
      with Len64_minus_one(1) [OF u] show "unat u \<le> 2 ^ m" by linarith
    qed (rule Len64_minus_one(2) [OF u])
    moreover have "Len64 (u - 1) < 64" using Len64_minus_one_63 [OF u True] by simp
    ultimately show ?thesis using True NextPowerOfTwo_exp [OF u True] by auto
  next
    case False
    then have "u > push_bit 63 1"
      by (simp add: push_bit_63 word_less_nat_alt unat_power_two)
    with u False show ?thesis by (simp add: NextPowerOfTwo_def)
  qed
qed

text \<open>
  For a non-zero argument \<open>PrevPowerOfTwo\<close> is the greatest power of two that is not above
  it, and \<open>ILog2Floor\<close> is its exponent.
\<close>

theorem PrevPowerOfTwo_greatest:
  assumes "u \<noteq> 0"
  shows "unat (PrevPowerOfTwo u) = 2 ^ unat (ILog2Floor u) \<and>
    unat (PrevPowerOfTwo u) \<le> unat u \<and> unat u < 2 * unat (PrevPowerOfTwo u)"
proof -
  note b = Len64_bounds [OF assms]
  have lt: "Len64 u - 1 < 64" using Len64_le_64 [of u] b(3) by linarith
  have "unat (ILog2Floor u) = Len64 u - 1"
  proof -
    have "ILog2Floor u = of_nat (Len64 u - 1)" using assms b(3) by (simp add: ILog2Floor_def)
    with lt show ?thesis by (simp add: unat_of_nat)
  qed
  moreover have "unat (PrevPowerOfTwo u) = 2 ^ (Len64 u - 1)"
    using lt by (simp add: PrevPowerOfTwo_exp [OF assms] unat_power_two)
  moreover have "2 * (2::nat) ^ (Len64 u - 1) = 2 ^ Len64 u"
    using b(3) by (metis One_nat_def Suc_pred power_Suc)
  ultimately show ?thesis using b by simp
qed

theorem PrevPowerOfTwo_greatest_witness:
  "unat (PrevPowerOfTwo 1000) = 2 ^ unat (ILog2Floor 1000) \<and>
   unat (PrevPowerOfTwo 1000) \<le> 1000 \<and> 1000 < 2 * unat (PrevPowerOfTwo 1000)"
  using PrevPowerOfTwo_greatest [of 1000] by simp

text \<open>
  The SSZ form of a \<open>U64\<close> is its eight little-endian bytes: decoding what was encoded gives
  the value back, a decoded buffer encodes to itself, every other length is refused, and the
  hash tree root is the encoding padded to one chunk.
\<close>

theorem U64_SSZ_roundtrip:
  "U64_UnmarshalSSZ (U64_MarshalSSZ u) = Inr u \<and>
   (case U64_UnmarshalSSZ buf of Inl e \<Rightarrow> e = ErrUnexpectedInputLength \<and> length buf \<noteq> 8
      | Inr v \<Rightarrow> length buf = 8 \<and> U64_MarshalSSZ v = buf) \<and>
   take 8 (U64_HashTreeRoot u) = U64_MarshalSSZ u \<and> length (U64_HashTreeRoot u) = 32"
  by (auto simp: U64_UnmarshalSSZ_def U64_MarshalSSZ_def U64_HashTreeRoot_def le_value_le_bytes
      le_bytes_le_value)

end
