(* ===== verification/Merkle.thy ===== *)
theory Merkle
  imports U64
begin

unbundle bit_operations_syntax

section \<open>Merkle trees: \<open>mod/primitives/pkg/merkle\<close>\<close>

text \<open>
  Zero hashes (\<open>zero/zero.go\<close>), layer hashing and roots (\<open>root.go\<close>), the insertable tree with
  its proofs (\<open>tree.go\<close>, \<open>utils.go\<close>) and proof verification (\<open>proof.go\<close>).

  SHA-256 (\<open>minio/sha256-simd\<close>) and the vectorised pair hasher (\<open>prysmaticlabs/gohashtree\<close>) are
  not part of the repository. They are the fields of the record \<open>merkle_env\<close>, an argument of every
  definition here, together with the number of goroutines \<open>runtime.GOMAXPROCS(0)-1\<close>. What the
  code relies on is the locale \<open>pair_hasher\<close>: \<open>gohashtree.Hash\<close> fills its output with the
  SHA-256 of each pair of chunks.

  The specification is \<open>node E leaves d i\<close>, the value of node \<open>i\<close> at height \<open>d\<close> of the infinite
  binary tree over the leaves followed by zero chunks. Every algorithm of the package is shown to
  compute nodes of that tree.
\<close>

subsection \<open>Environment\<close>

record merkle_env =
  Sum256 :: "bytes \<Rightarrow> b32"
  gohashtree_Hash :: "b32 list \<Rightarrow> err + b32 list"
  goroutines :: nat

fun hash_pairs :: "(bytes \<Rightarrow> b32) \<Rightarrow> b32 list \<Rightarrow> b32 list" where
  "hash_pairs sha (x # y # zs) = sha (x @ y) # hash_pairs sha zs"
| "hash_pairs sha _ = []"

locale pair_hasher =
  fixes E :: merkle_env
  assumes gohashtree: "even (length chunks) \<Longrightarrow>
    gohashtree_Hash E chunks = Inr (hash_pairs (Sum256 E) chunks)"

subsection \<open>Zero hashes\<close>

definition NumZeroHashes :: nat where
  "NumZeroHashes = 64"

fun InitZeroHashes :: "merkle_env \<Rightarrow> nat \<Rightarrow> b32 list \<Rightarrow> b32 list" where
  "InitZeroHashes E 0 hs = hs"
| "InitZeroHashes E (Suc k) hs = InitZeroHashes E k (hs @ [Sum256 E (last hs @ last hs)])"

definition Hashes :: "merkle_env \<Rightarrow> b32 list" where
  "Hashes E = InitZeroHashes E NumZeroHashes [zero32]"

text \<open>Indexing the array of \<open>NumZeroHashes + 1\<close> entries panics out of range.\<close>

definition zero_hash_at :: "merkle_env \<Rightarrow> nat \<Rightarrow> err + b32" where
  "zero_hash_at E i =
     (if i < length (Hashes E) then Inr (Hashes E ! i) else Inl (Panic ''index out of range''))"

subsection \<open>Layers and roots\<close>

definition MinParallelizationSize :: nat where
  "MinParallelizationSize = 5000"

text \<open>\<open>copy\<close> of the digests of one segment into the shared output slice.\<close>

definition write_at :: "'a list \<Rightarrow> nat \<Rightarrow> 'a list \<Rightarrow> 'a list" where
  "write_at out pos ds = take pos out @ ds @ drop (pos + length ds) out"

text \<open>
  One iteration \<open>j\<close> of the parallel loop hashes
  \<open>inputList[j*2*groupSize : min((j+1)*2*groupSize, inputLength)]\<close> into the output from position
  \<open>j*groupSize\<close>. The segments are disjoint, so the order in which the goroutines run does not
  matter; the model runs them in the order they are started.
\<close>

fun hash_segments ::
  "merkle_env \<Rightarrow> b32 list \<Rightarrow> nat \<Rightarrow> nat list \<Rightarrow> b32 list \<Rightarrow> err + b32 list" where
  "hash_segments E inputList groupSize [] outputList = Inr outputList"
| "hash_segments E inputList groupSize (j # js) outputList =
     (let twiceGroupSize = 2 * groupSize;
          segmentStart = j * twiceGroupSize;
          segmentEnd = min ((j + 1) * twiceGroupSize) (length inputList)
      in bindE (gohashtree_Hash E (take (segmentEnd - segmentStart) (drop segmentStart inputList)))
           (\<lambda>ds. hash_segments E inputList groupSize js (write_at outputList (j * groupSize) ds)))"

definition BuildParentTreeRootsWithNRoutines ::
  "merkle_env \<Rightarrow> b32 list \<Rightarrow> nat \<Rightarrow> err + b32 list" where
  "BuildParentTreeRootsWithNRoutines E inputList n =
     (let inputLength = length inputList; outputLength = inputLength div 2 in
      if inputLength mod 2 \<noteq> 0 then Inl ErrOddLengthTreeRoots
      else if inputLength < MinParallelizationSize then gohashtree_Hash E inputList
      else let groupSize = inputLength div (2 * max n 1)
           in hash_segments E inputList groupSize [0..<n + 1] (replicate outputLength zero32))"

definition BuildParentTreeRoots :: "merkle_env \<Rightarrow> b32 list \<Rightarrow> err + b32 list" where
  "BuildParentTreeRoots E inputList =
     BuildParentTreeRootsWithNRoutines E inputList (goroutines E)"

text \<open>The loop of \<open>NewRootWithDepth\<close> from layer \<open>i\<close> with \<open>k\<close> layers to go.\<close>

fun root_layers :: "merkle_env \<Rightarrow> nat \<Rightarrow> nat \<Rightarrow> b32 list \<Rightarrow> err + b32 list" where
  "root_layers E i 0 leaves = Inr leaves"
| "root_layers E i (Suc k) leaves =
     bindE (if length leaves mod 2 = 1
            then bindE (zero_hash_at E i) (\<lambda>zerohash. Inr (leaves @ [zerohash]))
            else Inr leaves)
       (\<lambda>leaves. bindE (BuildParentTreeRoots E leaves) (\<lambda>parents. root_layers E (Suc i) k parents))"

definition NewRootWithDepth :: "merkle_env \<Rightarrow> b32 list \<Rightarrow> u8 \<Rightarrow> err + b32" where
  "NewRootWithDepth E leaves depth =
     (if length leaves = 0 then zero_hash_at E (unat depth)
      else bindE (root_layers E 0 (unat depth) leaves)
             (\<lambda>leaves. if length leaves \<noteq> 1 then zero_hash_at E (unat depth) else Inr (leaves ! 0)))"

definition NewRootWithMaxLeaves :: "merkle_env \<Rightarrow> b32 list \<Rightarrow> u64 \<Rightarrow> err + b32" where
  "NewRootWithMaxLeaves E leaves len =
     bindE (NextPowerOfTwo len) (\<lambda>p. NewRootWithDepth E leaves (ILog2Ceil p))"

subsection \<open>The tree\<close>

record Tree =
  depth :: u8
  branches :: "b32 list list"
  tree_leaves :: "b32 list"

definition MaxTreeDepth :: u8 where
  "MaxTreeDepth = 62"

definition verifySufficientDepth :: "nat \<Rightarrow> u8 \<Rightarrow> err + unit" where
  "verifySufficientDepth numLeaves d =
     (if numLeaves = 0 then Inl ErrEmptyLeaves
      else if d = 0 then Inl ErrZeroDepth
      else if d > MaxTreeDepth then Inl ErrExceededDepth
      else if numLeaves > 2 ^ unat d then Inl ErrInsufficientDepthForLeaves
      else Inr ())"

text \<open>The layers above \<open>layer\<close>, which is layer \<open>d\<close>, for \<open>k\<close> more steps.\<close>

fun build_layers :: "merkle_env \<Rightarrow> nat \<Rightarrow> nat \<Rightarrow> b32 list \<Rightarrow> err + b32 list list" where
  "build_layers E d 0 layer = Inr [layer]"
| "build_layers E d (Suc k) layer =
     bindE (if length layer mod 2 = 1
            then bindE (zero_hash_at E d) (\<lambda>z. Inr (layer @ [z])) else Inr layer)
       (\<lambda>currentLayer. bindE (BuildParentTreeRoots E currentLayer)
         (\<lambda>parents. bindE (build_layers E (Suc d) k parents) (\<lambda>ls. Inr (layer # ls))))"

definition NewTreeFromLeavesWithDepth :: "merkle_env \<Rightarrow> b32 list \<Rightarrow> u8 \<Rightarrow> err + Tree" where
  "NewTreeFromLeavesWithDepth E leaves d =
     bindE (verifySufficientDepth (length leaves) d) (\<lambda>_.
     bindE (build_layers E 0 (unat d) leaves) (\<lambda>layers.
     Inr \<lparr>depth = d, branches = layers, tree_leaves = leaves\<rparr>))"

definition NewTreeFromLeaves :: "merkle_env \<Rightarrow> b32 list \<Rightarrow> err + Tree" where
  "NewTreeFromLeaves E leaves =
     bindE (NextPowerOfTwo (of_nat (length leaves)))
       (\<lambda>p. NewTreeFromLeavesWithDepth E leaves (ILog2Ceil p))"

definition NewTreeWithMaxLeaves :: "merkle_env \<Rightarrow> b32 list \<Rightarrow> u64 \<Rightarrow> err + Tree" where
  "NewTreeWithMaxLeaves E leaves maxLeaves =
     bindE (NextPowerOfTwo maxLeaves)
       (\<lambda>p. NewTreeFromLeavesWithDepth E leaves (ILog2Ceil p))"

text \<open>
  The loop of \<open>Insert\<close> over layers \<open>i\<close> to \<open>i + k - 1\<close>: the value \<open>root\<close> has just been written at
  \<open>currentIndex\<close> of layer \<open>i\<close>.
\<close>

fun insert_path ::
  "merkle_env \<Rightarrow> nat \<Rightarrow> nat \<Rightarrow> nat \<Rightarrow> b32 \<Rightarrow> b32 list list \<Rightarrow> err + b32 list list" where
  "insert_path E i 0 currentIndex root bs = Inr bs"
| "insert_path E i (Suc k) currentIndex root bs =
     bindE (index_or_panic bs i) (\<lambda>layer.
     bindE (let neighborIdx = currentIndex XOR 1 in
            if neighborIdx \<ge> length layer then zero_hash_at E i else Inr (layer ! neighborIdx))
       (\<lambda>neighbor.
     let input = (if currentIndex mod 2 = 0 then root @ neighbor else neighbor @ root);
         root = Sum256 E input;
         parentIdx = currentIndex div 2
     in bindE (index_or_panic bs (i + 1)) (\<lambda>parents.
        insert_path E (i + 1) k parentIdx root
          (bs[i + 1 := (if length parents = 0 \<or> parentIdx \<ge> length parents
                        then parents @ [root] else parents[parentIdx := root])]))))"

definition Insert :: "merkle_env \<Rightarrow> Tree \<Rightarrow> b32 \<Rightarrow> int \<Rightarrow> err + Tree" where
  "Insert E m item index =
     (if index < 0 then Inl ErrNegativeIndex
      else let ix = nat index in
        bindE (index_or_panic (branches m) 0) (\<lambda>b0.
        let b0 = b0 @ replicate (ix + 1 - length b0) zero32;
            b0 = b0[ix := item];
            ls = (if ix \<ge> length (tree_leaves m) then tree_leaves m @ [item]
                  else (tree_leaves m)[ix := item])
        in bindE (insert_path E 0 (unat (depth m)) ix item ((branches m)[0 := b0]))
             (\<lambda>bs. Inr (m\<lparr>branches := bs, tree_leaves := ls\<rparr>))))"

definition Root :: "Tree \<Rightarrow> err + b32" where
  "Root m =
     (if branches m = [] then Inl (Panic ''index out of range'')
      else index_or_panic (branches m ! (length (branches m) - 1)) 0)"

definition MixinLength :: "merkle_env \<Rightarrow> b32 \<Rightarrow> u64 \<Rightarrow> b32" where
  "MixinLength E element len =
     (case gohashtree_Hash E [element, le_bytes len @ replicate 24 0] of
        Inl _ \<Rightarrow> zero32 | Inr chunks \<Rightarrow> chunks ! 0)"

definition Tree_HashTreeRoot :: "merkle_env \<Rightarrow> Tree \<Rightarrow> err + b32" where
  "Tree_HashTreeRoot E m =
     (let numItems = (if length (tree_leaves m) = 1 \<and> tree_leaves m ! 0 = Hashes E ! 0
                      then 0 else of_nat (length (tree_leaves m)))
      in bindE (Root m) (\<lambda>r. Inr (MixinLength E r numItems)))"

definition MerkleProof :: "merkle_env \<Rightarrow> Tree \<Rightarrow> u64 \<Rightarrow> err + b32 list" where
  "MerkleProof E m leafIndex =
     bindE (index_or_panic (branches m) 0) (\<lambda>b0.
     if leafIndex \<ge> of_nat (length b0) then Inl (Newf ''merkle index out of range in tree'')
     else mapE (\<lambda>i. bindE (index_or_panic (branches m) i) (\<lambda>layer.
            let subIndex = drop_bit i leafIndex XOR 1
            in if subIndex < of_nat (length layer) then Inr (layer ! unat subIndex)
               else zero_hash_at E i))
          [0..<unat (depth m)])"

definition MerkleProofWithMixin :: "merkle_env \<Rightarrow> Tree \<Rightarrow> u64 \<Rightarrow> err + b32 list" where
  "MerkleProofWithMixin E m index =
     bindE (MerkleProof E m index)
       (\<lambda>proof. Inr (proof @ [le_bytes (of_nat (length (tree_leaves m))) @ replicate 24 0]))"

subsection \<open>Proof verification\<close>

text \<open>
  The loop of \<open>RootFromBranch\<close> from bit \<open>i\<close> of the index. It indexes \<open>branch\<close> up to \<open>depth\<close>;
  \<open>IsValidMerkleBranch\<close>, its only caller, has checked that this is the length of the branch.
\<close>

fun RootFromBranch :: "merkle_env \<Rightarrow> b32 \<Rightarrow> b32 list \<Rightarrow> nat \<Rightarrow> u64 \<Rightarrow> b32" where
  "RootFromBranch E merkleRoot [] i index = merkleRoot"
| "RootFromBranch E merkleRoot (b # branch) i index =
     RootFromBranch E
       (Sum256 E (if drop_bit i index AND 1 = 1 then b @ merkleRoot else merkleRoot @ b))
       branch (i + 1) index"

definition IsValidMerkleBranch ::
  "merkle_env \<Rightarrow> b32 \<Rightarrow> b32 list \<Rightarrow> u8 \<Rightarrow> u64 \<Rightarrow> b32 \<Rightarrow> bool" where
  "IsValidMerkleBranch E leaf branch d index root =
     (if length branch \<noteq> unat d then False
      else RootFromBranch E leaf branch 0 index = root)"

definition VerifyProof :: "merkle_env \<Rightarrow> b32 \<Rightarrow> b32 \<Rightarrow> u64 \<Rightarrow> b32 list \<Rightarrow> bool" where
  "VerifyProof E root leaf merkleIndex proof =
     (if length proof > 255 then False
      else IsValidMerkleBranch E leaf proof (of_nat (length proof)) merkleIndex root)"

subsection \<open>The specification: the tree padded with zero chunks\<close>

fun node :: "merkle_env \<Rightarrow> b32 list \<Rightarrow> nat \<Rightarrow> nat \<Rightarrow> b32" where
  "node E ls 0 i = (if i < length ls then ls ! i else zero32)"
| "node E ls (Suc d) i = Sum256 E (node E ls d (2 * i) @ node E ls d (2 * i + 1))"

fun zero_node :: "merkle_env \<Rightarrow> nat \<Rightarrow> b32" where
  "zero_node E 0 = zero32"
| "zero_node E (Suc d) = Sum256 E (zero_node E d @ zero_node E d)"

text \<open>The number of nodes at height \<open>d\<close> above \<open>n\<close> leaves that are not all padding.\<close>

fun layer_len :: "nat \<Rightarrow> nat \<Rightarrow> nat" where
  "layer_len n 0 = n"
| "layer_len n (Suc d) = (layer_len n d + 1) div 2"

definition layer :: "merkle_env \<Rightarrow> b32 list \<Rightarrow> nat \<Rightarrow> b32 list" where
  "layer E ls d = map (node E ls d) [0..<layer_len (length ls) d]"

lemma length_layer [simp]: "length (layer E ls d) = layer_len (length ls) d"
  by (simp add: layer_def)

lemma layer_0: "layer E ls 0 = ls"
  by (rule nth_equalityI) (simp_all add: layer_def)

lemma layer_nth: "i < layer_len (length ls) d \<Longrightarrow> layer E ls d ! i = node E ls d i"
  by (simp add: layer_def)

lemma node_beyond: "layer_len (length ls) d \<le> i \<Longrightarrow> node E ls d i = zero_node E d"
proof (induction d arbitrary: i)
  case (Suc d)
  then have "layer_len (length ls) d \<le> 2 * i" by simp
  then show ?case using Suc.IH by simp
qed simp

lemma layer_len_pos: "0 < n \<Longrightarrow> 0 < layer_len n d"
  by (induction d) auto

lemma layer_len_le: "n \<le> 2 ^ (d + k) \<Longrightarrow> layer_len n d \<le> 2 ^ k"
proof (induction d arbitrary: k)
  case (Suc d)
  then have "layer_len n d \<le> 2 ^ Suc k" by (intro Suc.IH) simp
  then show ?case by simp
qed simp

lemma layer_len_top: "0 < n \<Longrightarrow> n \<le> 2 ^ d \<Longrightarrow> layer_len n d = 1"
  using layer_len_le [of n d 0] layer_len_pos [of n d] by simp

lemma layer_len_upper: "n \<le> layer_len n d * 2 ^ d"
proof (induction d)
  case (Suc d)
  have "layer_len n d \<le> 2 * ((layer_len n d + 1) div 2)" by linarith
  then have "layer_len n d * 2 ^ d \<le> 2 * ((layer_len n d + 1) div 2) * 2 ^ d" by (rule mult_right_mono) simp
  with Suc have "n \<le> 2 * ((layer_len n d + 1) div 2) * 2 ^ d" by linarith
  then show ?case by (simp add: mult.assoc mult.left_commute)
qed simp

lemma layer_len_top_iff: "0 < n \<Longrightarrow> layer_len n d = 1 \<longleftrightarrow> n \<le> 2 ^ d"
  using layer_len_top layer_len_upper [of n d] by fastforce

subsection \<open>Zero hashes are the padding nodes\<close>

lemma InitZeroHashes_spec:
  "hs = map (zero_node E) [0..<Suc n] \<Longrightarrow>
   InitZeroHashes E k hs = map (zero_node E) [0..<Suc n + k]"
proof (induction k arbitrary: n hs)
  case (Suc k)
  then have "hs @ [Sum256 E (last hs @ last hs)] = map (zero_node E) [0..<Suc (Suc n)]" by simp
  from Suc.IH [OF this] show ?case by simp
qed simp

lemma Hashes_spec: "Hashes E = map (zero_node E) [0..<65]"
  using InitZeroHashes_spec [of "[zero32]" E 0 64] by (simp add: Hashes_def NumZeroHashes_def)

lemma zero_hash_at_spec [simp]: "i \<le> 64 \<Longrightarrow> zero_hash_at E i = Inr (zero_node E i)"
  by (simp add: zero_hash_at_def Hashes_spec)

subsection \<open>Hashing one layer\<close>

lemma length_hash_pairs [simp]: "length (hash_pairs sha xs) = length xs div 2"
  by (induction sha xs rule: hash_pairs.induct) auto

lemma hash_pairs_append:
  "even (length xs) \<Longrightarrow> hash_pairs sha (xs @ ys) = hash_pairs sha xs @ hash_pairs sha ys"
  by (induction sha xs rule: hash_pairs.induct) auto

lemma hash_pairs_map:
  "hash_pairs sha (map f [0..<2 * k]) = map (\<lambda>i. sha (f (2 * i) @ f (2 * i + 1))) [0..<k]"
proof (induction k)
  case (Suc k)
  have "map f [0..<2 * Suc k] = map f [0..<2 * k] @ [f (2 * k), f (2 * k + 1)]" by simp
  then show ?case by (simp only: hash_pairs_append) (simp add: Suc.IH hash_pairs_append)
qed simp

text \<open>
  The padded layer \<open>d\<close> hashes to layer \<open>d + 1\<close>: the induction step of every construction.
\<close>

definition padded_layer :: "merkle_env \<Rightarrow> b32 list \<Rightarrow> nat \<Rightarrow> b32 list" where
  "padded_layer E ls d =
     (if length (layer E ls d) mod 2 = 1 then layer E ls d @ [zero_node E d] else layer E ls d)"

lemma padded_layer_nodes:
  "padded_layer E ls d = map (node E ls d) [0..<2 * layer_len (length ls) (Suc d)]"
proof (cases "length (layer E ls d) mod 2 = 1")
  case True
  define n where "n = layer_len (length ls) d"
  from True have "2 * ((n + 1) div 2) = Suc n" by (simp add: n_def) presburger
  then show ?thesis
    using True by (simp add: padded_layer_def n_def layer_def node_beyond)
next
  case False
  then have "2 * ((layer_len (length ls) d + 1) div 2) = layer_len (length ls) d" by simp presburger
  with False show ?thesis by (simp add: padded_layer_def layer_def)
qed

lemma hash_padded_layer: "hash_pairs (Sum256 E) (padded_layer E ls d) = layer E ls (Suc d)"
  by (simp only: padded_layer_nodes hash_pairs_map) (simp add: layer_def)

lemma even_padded_layer: "even (length (padded_layer E ls d))"
  by (simp add: padded_layer_nodes)

lemma hash_segments_append:
  "hash_segments E inp g (js @ ks) out =
     bindE (hash_segments E inp g js out) (hash_segments E inp g ks)"
proof (induction js arbitrary: out)
  case (Cons j js)
  then show ?case
    by (cases "gohashtree_Hash E
          (take (min ((j + 1) * (2 * g)) (length inp) - j * (2 * g)) (drop (j * (2 * g)) inp))")
      (simp_all add: Let_def)
qed simp

context pair_hasher
begin

lemma hash_segments_upto:
  assumes even: "even (length inp)" and m: "m * (2 * g) \<le> length inp + 2 * g"
  shows "hash_segments E inp g [0..<m] (replicate (length inp div 2) zero32) =
    Inr (hash_pairs (Sum256 E) (take (m * (2 * g)) inp) @ replicate (length inp div 2 - m * g) zero32)"
  using m
proof (induction m)
  case (Suc m)
  let ?L = "length inp" and ?hp = "hash_pairs (Sum256 E)"
  from Suc.prems have fit: "m * (2 * g) \<le> ?L" by simp
  define seg where "seg = take (2 * g) (drop (m * (2 * g)) inp)"
  have seg: "take (min ((m + 1) * (2 * g)) ?L - m * (2 * g)) (drop (m * (2 * g)) inp) = seg"
    by (simp add: seg_def min_def)
  have even_seg: "even (length seg)" using even by (simp add: seg_def min_def)
  have split: "take (Suc m * (2 * g)) inp = take (m * (2 * g)) inp @ seg"
    by (simp add: seg_def take_add [symmetric] add.commute)
  have lseg: "length seg div 2 = min g (?L div 2 - m * g)"
    using even fit by (auto simp: seg_def min_def elim!: evenE)
  have pre: "length (?hp (take (m * (2 * g)) inp)) = m * g"
    using fit by (simp add: min_absorb2)
  have "hash_segments E inp g [0..<Suc m] (replicate (?L div 2) zero32) =
      hash_segments E inp g [m] (?hp (take (m * (2 * g)) inp) @ replicate (?L div 2 - m * g) zero32)"
    using Suc by (simp add: hash_segments_append)
  also have "\<dots> = Inr (write_at (?hp (take (m * (2 * g)) inp) @ replicate (?L div 2 - m * g) zero32)
      (m * g) (?hp seg))"
    using even_seg by (simp add: Let_def seg [simplified] gohashtree)
  also have "write_at (?hp (take (m * (2 * g)) inp) @ replicate (?L div 2 - m * g) zero32)
      (m * g) (?hp seg) = ?hp (take (Suc m * (2 * g)) inp) @ replicate (?L div 2 - Suc m * g) zero32"
  proof -
    have "?hp (take (Suc m * (2 * g)) inp) = ?hp (take (m * (2 * g)) inp) @ ?hp seg"
      unfolding split by (rule hash_pairs_append) (simp add: fit min_absorb2)
    moreover have "replicate (?L div 2 - m * g) zero32 = xs \<Longrightarrow>
        drop (length seg div 2) xs = replicate (?L div 2 - Suc m * g) zero32" for xs
      by (auto simp: lseg min_def)
    ultimately show ?thesis
      using pre by (simp add: write_at_def del: mult_Suc)
  qed
  finally show ?case .
qed simp

lemma parallel_exact:
  fixes n :: nat
  assumes "even (length inp)" and "MinParallelizationSize \<le> length inp"
  defines "g \<equiv> length inp div (2 * max n 1)"
  shows "BuildParentTreeRootsWithNRoutines E inp n =
    Inr (hash_pairs (Sum256 E) (take ((n + 1) * (2 * g)) inp) @
         replicate (length inp div 2 - (n + 1) * g) zero32)"
proof -
  have "n * (2 * g) \<le> length inp"
  proof (cases n)
    case (Suc k)
    then have "g = length inp div (2 * n)" by (simp add: g_def)
    then show ?thesis by (simp add: mult.assoc [symmetric] mult.commute [of _ 2] times_div_less_eq_dividend)
  qed simp
  then have "(n + 1) * (2 * g) \<le> length inp + 2 * g" by simp
  from hash_segments_upto [OF assms(1) this] assms(1,2) show ?thesis
    by (simp add: BuildParentTreeRootsWithNRoutines_def Let_def g_def even_iff_mod_2_eq_zero)
qed

lemma sequential_exact:
  "even (length inp) \<Longrightarrow> length inp < MinParallelizationSize \<Longrightarrow>
   BuildParentTreeRootsWithNRoutines E inp n = Inr (hash_pairs (Sum256 E) inp)"
  by (simp add: BuildParentTreeRootsWithNRoutines_def gohashtree Let_def even_iff_mod_2_eq_zero)

lemma parallel_covered:
  assumes "even (length inp)"
    and "length inp \<le> (n + 1) * (2 * (length inp div (2 * max n 1)))"
  shows "BuildParentTreeRootsWithNRoutines E inp n = Inr (hash_pairs (Sum256 E) inp)"
proof (cases "length inp < MinParallelizationSize")
  case False
  then show ?thesis using assms parallel_exact [of inp n] by simp
qed (simp add: assms sequential_exact)

end

text \<open>The segments cover the whole input whenever there are at most 50 goroutines.\<close>

lemma segments_cover:
  assumes "even L" and "5000 \<le> L" and "n \<le> (50 :: nat)"
  shows "L \<le> (n + 1) * (2 * (L div (2 * max n 1)))"
proof (cases "n = 0")
  case False
  define q r where "q = L div (2 * n)" and "r = L mod (2 * n)"
  have L: "L = 2 * n * q + r" by (simp add: q_def r_def)
  have "r < 2 * n" using False by (simp add: r_def)
  moreover have "even r" using assms(1) L by (metis dvd_add_right_iff dvd_mult2 dvd_triv_left)
  ultimately have "r \<le> 2 * n - 2" by presburger
  moreover have "50 \<le> q"
  proof -
    have "50 * (2 * n) \<le> L" using assms(2,3) by linarith
    then show ?thesis using False by (simp add: q_def less_eq_div_iff_mult_less_eq)
  qed
  ultimately have "r \<le> 2 * q" using assms(3) by linarith
  then have "L \<le> (n + 1) * (2 * q)" unfolding L by (simp add: algebra_simps)
  moreover have "max n 1 = n" using False by simp
  ultimately show ?thesis unfolding q_def by simp
qed (use assms(1) in auto)

subsection \<open>Roots and trees\<close>

text \<open>
  What the constructions need of layer hashing. With at most 50 goroutines the parallel loop
  hashes the whole layer, so the contract follows from that of the pair hasher alone.
\<close>

locale layer_hasher = pair_hasher +
  assumes build_parents: "even (length chunks) \<Longrightarrow>
    BuildParentTreeRoots E chunks = Inr (hash_pairs (Sum256 E) chunks)"

locale few_goroutines = pair_hasher +
  assumes few: "goroutines E \<le> 50"

sublocale few_goroutines \<subseteq> layer_hasher
proof (rule layer_hasher.intro [OF pair_hasher_axioms], rule layer_hasher_axioms.intro)
  fix chunks :: "b32 list" assume even: "even (length chunks)"
  show "BuildParentTreeRoots E chunks = Inr (hash_pairs (Sum256 E) chunks)"
  proof (cases "length chunks < MinParallelizationSize")
    case True
    with even show ?thesis by (simp add: BuildParentTreeRoots_def sequential_exact)
  next
    case False
    with segments_cover [OF even _ few] show ?thesis
      by (simp add: BuildParentTreeRoots_def MinParallelizationSize_def parallel_covered even)
  qed
qed

context few_goroutines
begin

lemma is_layer_hasher: "layer_hasher E"
  by unfold_locales

end

definition tree_of :: "merkle_env \<Rightarrow> u8 \<Rightarrow> b32 list \<Rightarrow> Tree" where
  "tree_of E d ls =
     \<lparr>depth = d, branches = map (layer E ls) [0..<unat d + 1], tree_leaves = ls\<rparr>"

lemma layer_len_galois: "layer_len n d \<le> j \<longleftrightarrow> n \<le> j * 2 ^ d"
proof (induction d arbitrary: j)
  case (Suc d)
  have "layer_len n (Suc d) \<le> j \<longleftrightarrow> layer_len n d \<le> 2 * j" by auto
  then show ?case by (simp add: Suc.IH mult.assoc mult.left_commute)
qed simp

lemma layer_len_zero [simp]: "layer_len 0 d = 0"
  using layer_len_galois [of 0 d 0] by simp

lemma layer_len_le_n: "layer_len n d \<le> n"
  by (simp add: layer_len_galois)

lemma verifySufficientDepth_Inr:
  "verifySufficientDepth n d = Inr () \<longleftrightarrow>
     0 < n \<and> 0 < unat d \<and> unat d \<le> 62 \<and> n \<le> 2 ^ unat d"
  by (auto simp: verifySufficientDepth_def MaxTreeDepth_def word_less_nat_alt unat_gt_0 not_less
      unat_eq_0)

lemma unat_xor_one: "unat (x XOR 1 :: u64) = unat x XOR 1"
  by (simp add: unsigned_xor_eq)

lemma node_sibling:
  "Sum256 E (if odd c then node E ls i (c XOR 1) @ node E ls i c
             else node E ls i c @ node E ls i (c XOR 1)) = node E ls (Suc i) (c div 2)"
  by (cases "even c") (auto simp: xor_Suc_0_eq elim!: evenE oddE)

lemma node_sibling_mod:
  "Sum256 E (if c mod 2 = 0 then node E ls i c @ node E ls i (c XOR 1)
             else node E ls i (c XOR 1) @ node E ls i c) = node E ls (Suc i) (c div 2)"
  by (rule trans [OF _ node_sibling], rule arg_cong [of _ _ "Sum256 E"])
    (simp add: odd_iff_mod_2_eq_one)

context layer_hasher
begin

lemma build_padded: "BuildParentTreeRoots E (padded_layer E ls d) = Inr (layer E ls (Suc d))"
  by (simp only: build_parents even_padded_layer hash_padded_layer)

lemma pad_step:
  "d \<le> 64 \<Longrightarrow>
   (if length (layer E ls d) mod 2 = 1
    then bindE (zero_hash_at E d) (\<lambda>z. Inr (layer E ls d @ [z])) else Inr (layer E ls d))
   = Inr (padded_layer E ls d)"
  by (simp add: padded_layer_def)

lemma root_layers_spec:
  "i + k \<le> 64 \<Longrightarrow> root_layers E i k (layer E ls i) = Inr (layer E ls (i + k))"
proof (induction k arbitrary: i)
  case (Suc k)
  then have "root_layers E (Suc i) k (layer E ls (Suc i)) = Inr (layer E ls (Suc i + k))"
    by (intro Suc.IH) simp
  moreover have "i \<le> 64" using Suc.prems by simp
  ultimately show ?case
    unfolding root_layers.simps by (simp only: pad_step bindE_simps build_padded) simp
qed simp

lemma NewRootWithDepth_spec:
  assumes "unat d \<le> 64"
  shows "NewRootWithDepth E ls d =
    Inr (if length ls \<le> 2 ^ unat d then node E ls (unat d) 0 else zero_node E (unat d))"
proof (cases "ls = []")
  case True
  then have "node E ls (unat d) 0 = zero_node E (unat d)"
    by (simp add: node_beyond)
  with True assms show ?thesis by (simp add: NewRootWithDepth_def)
next
  case False
  then have "length (layer E ls (unat d)) = 1 \<longleftrightarrow> length ls \<le> 2 ^ unat d"
    using layer_len_top_iff [of "length ls"] by simp
  with False assms root_layers_spec [of 0 "unat d" ls] show ?thesis
    by (auto simp: NewRootWithDepth_def layer_0 layer_nth)
qed

lemma build_layers_spec:
  "d + k \<le> 64 \<Longrightarrow> build_layers E d k (layer E ls d) = Inr (map (layer E ls) [d..<d + k + 1])"
proof (induction k arbitrary: d)
  case (Suc k)
  then have "build_layers E (Suc d) k (layer E ls (Suc d)) =
      Inr (map (layer E ls) [Suc d..<Suc d + k + 1])"
    by (intro Suc.IH) simp
  moreover have "d \<le> 64" using Suc.prems by simp
  ultimately show ?case
    unfolding build_layers.simps
    by (simp only: pad_step bindE_simps build_padded) (simp add: upt_rec [of d])
qed simp

lemma NewTree_spec:
  "verifySufficientDepth (length ls) d = Inr () \<Longrightarrow>
   NewTreeFromLeavesWithDepth E ls d = Inr (tree_of E d ls)"
  using build_layers_spec [of 0 "unat d" ls] verifySufficientDepth_Inr [of "length ls" d]
  by (simp add: NewTreeFromLeavesWithDepth_def layer_0 tree_of_def)

lemma Root_spec: "ls \<noteq> [] \<Longrightarrow> Root (tree_of E d ls) = Inr (node E ls (unat d) 0)"
  by (simp add: Root_def tree_of_def index_or_panic_def layer_len_pos layer_nth nth_append)

lemma MerkleProof_spec:
  assumes "unat d \<le> 62" and "length ls \<le> 2 ^ unat d" and "unat ix < length ls"
  shows "MerkleProof E (tree_of E d ls) ix =
    Inr (map (\<lambda>i. node E ls i (unat (drop_bit i ix XOR 1))) [0..<unat d])"
proof -
  have "(2::nat) ^ unat d \<le> 2 ^ 62" using assms(1) by (rule power_increasing) simp
  then have small: "layer_len (length ls) i < 2 ^ 64" for i
    using assms(2) layer_len_le_n [of "length ls" i] by simp
  have lt: "x < of_nat (layer_len (length ls) i) \<longleftrightarrow> unat x < layer_len (length ls) i"
    for x :: u64 and i
    using small [of i] by (simp add: word_less_nat_alt unat_of_nat)
  have "mapE (\<lambda>i. bindE (index_or_panic (branches (tree_of E d ls)) i) (\<lambda>layer.
            let subIndex = drop_bit i ix XOR 1
            in if subIndex < of_nat (length layer) then Inr (layer ! unat subIndex)
               else zero_hash_at E i)) [0..<unat d] =
      Inr (map (\<lambda>i. node E ls i (unat (drop_bit i ix XOR 1))) [0..<unat d])"
    using assms(1)
    by (intro mapE_Inr_map)
      (auto simp: tree_of_def index_or_panic_def lt layer_nth node_beyond Let_def nth_append)
  moreover have "\<not> ix \<ge> of_nat (length ls)" using assms(3) lt [of ix 0] by simp
  ultimately show ?thesis
    by (simp add: MerkleProof_def tree_of_def index_or_panic_def layer_0 nth_append)
qed

end

text \<open>Folding a branch of siblings up from a node gives the node above it.\<close>

lemma RootFromBranch_node:
  "RootFromBranch E (node E ls i (unat (drop_bit i ix)))
     (map (\<lambda>j. node E ls j (unat (drop_bit j ix XOR 1))) [i..<i + k]) i ix =
   node E ls (i + k) (unat (drop_bit (i + k) ix))"
proof (induction k arbitrary: i)
  case (Suc k)
  define x where "x = drop_bit i ix"
  have half: "unat (drop_bit (Suc i) ix) = unat x div 2"
  proof -
    have "drop_bit (Suc i) ix = drop_bit 1 x" by (simp add: x_def)
    then show ?thesis by (simp add: drop_bit_eq_div unat_div_distrib)
  qed
  have odd: "x AND 1 = 1 \<longleftrightarrow> odd (unat x)"
    using bit_unat [of x 0] by (simp add: and_one_eq mod2_eq_if bit_0)
  have "Sum256 E (if x AND 1 = 1
        then node E ls i (unat (x XOR 1)) @ node E ls i (unat x)
        else node E ls i (unat x) @ node E ls i (unat (x XOR 1))) =
      node E ls (Suc i) (unat x div 2)"
    unfolding odd unat_xor_one by (rule node_sibling)
  then have "RootFromBranch E (node E ls i (unat (drop_bit i ix)))
     (map (\<lambda>j. node E ls j (unat (drop_bit j ix XOR 1))) [i..<i + Suc k]) i ix =
     RootFromBranch E (node E ls (Suc i) (unat (drop_bit (Suc i) ix)))
     (map (\<lambda>j. node E ls j (unat (drop_bit j ix XOR 1))) [Suc i..<Suc i + k]) (Suc i) ix"
  proof -
    have "[i..<i + Suc k] = i # [Suc i..<Suc i + k]" by (simp add: upt_conv_Cons)
    with \<open>Sum256 E _ = _\<close> show ?thesis
      by (simp add: x_def [symmetric] half del: node.simps upt_Suc)
  qed
  with Suc.IH [of "Suc i"] show ?case by simp
qed simp

lemma VerifyProof_iff:
  "VerifyProof E root leaf ix p \<longleftrightarrow> length p \<le> 255 \<and> RootFromBranch E leaf p 0 ix = root"
  by (auto simp: VerifyProof_def IsValidMerkleBranch_def unat_of_nat)

lemma RootFromBranch_append:
  "RootFromBranch E r (p @ q) i ix = RootFromBranch E (RootFromBranch E r p i ix) q (i + length p) ix"
  by (induction p arbitrary: r i) simp_all

text \<open>
  The inputs hashed along a branch, and the position where two branches with the same root
  collide.
\<close>

fun branch_inputs :: "merkle_env \<Rightarrow> b32 \<Rightarrow> b32 list \<Rightarrow> nat \<Rightarrow> u64 \<Rightarrow> bytes list" where
  "branch_inputs E r [] i ix = []"
| "branch_inputs E r (b # bs) i ix =
     (let x = (if drop_bit i ix AND 1 = 1 then b @ r else r @ b)
      in x # branch_inputs E (Sum256 E x) bs (i + 1) ix)"

lemma RootFromBranch_collision:
  assumes "length p = length q" and "r \<noteq> r'" and "length r = 32" and "length r' = 32"
    and "\<And>b. b \<in> set p \<union> set q \<Longrightarrow> length b = 32" and "\<And>x. length (Sum256 E x) = 32"
    and "RootFromBranch E r p i ix = RootFromBranch E r' q i ix"
  shows "\<exists>k < length p. branch_inputs E r p i ix ! k \<noteq> branch_inputs E r' q i ix ! k \<and>
    Sum256 E (branch_inputs E r p i ix ! k) = Sum256 E (branch_inputs E r' q i ix ! k)"
  using assms
proof (induction p q arbitrary: r r' i rule: list_induct2)
  case (Cons b p c q)
  define x y where "x = (if drop_bit i ix AND 1 = 1 then b @ r else r @ b)"
    and "y = (if drop_bit i ix AND 1 = 1 then c @ r' else r' @ c)"
  have "x \<noteq> y" using Cons.prems(1-4) by (auto simp: x_def y_def)
  show ?case
  proof (cases "Sum256 E x = Sum256 E y")
    case True
    with \<open>x \<noteq> y\<close> show ?thesis by (intro exI [of _ 0]) (simp add: x_def y_def Let_def)
  next
    case False
    have "RootFromBranch E (Sum256 E x) p (i + 1) ix = RootFromBranch E (Sum256 E y) q (i + 1) ix"
      using Cons.prems(6) by (simp add: x_def y_def)
    from Cons.IH [OF False _ _ _ _ this] Cons.prems(4,5) obtain k where
      "k < length p" "branch_inputs E (Sum256 E x) p (i + 1) ix ! k \<noteq>
         branch_inputs E (Sum256 E y) q (i + 1) ix ! k"
      "Sum256 E (branch_inputs E (Sum256 E x) p (i + 1) ix ! k) =
         Sum256 E (branch_inputs E (Sum256 E y) q (i + 1) ix ! k)" by auto
    then show ?thesis by (intro exI [of _ "Suc k"]) (simp add: x_def y_def Let_def)
  qed
qed simp

subsection \<open>Insertion\<close>

lemma node_cong:
  assumes "\<And>j. j \<noteq> ix \<Longrightarrow> node E ls' 0 j = node E ls 0 j" and "j \<noteq> ix div 2 ^ d"
  shows "node E ls' d j = node E ls d j"
  using assms(2)
proof (induction d arbitrary: j)
  case 0
  then show ?case using assms(1) [of j] by simp
next
  case (Suc d)
  have "ix div 2 ^ Suc d = ix div 2 ^ d div 2" by (simp add: div_mult2_eq mult.commute [of 2])
  with Suc.prems have "2 * j \<noteq> ix div 2 ^ d" "2 * j + 1 \<noteq> ix div 2 ^ d" by auto
  with Suc.IH show ?case by simp
qed

definition put_leaf :: "'a list \<Rightarrow> nat \<Rightarrow> 'a \<Rightarrow> 'a list" where
  "put_leaf ls ix v = (if ix \<ge> length ls then ls @ [v] else ls[ix := v])"

lemma layer_put_leaf:
  assumes "ix \<le> length ls"
  shows "layer E (put_leaf ls ix v) d =
    put_leaf (layer E ls d) (ix div 2 ^ d) (node E (put_leaf ls ix v) d (ix div 2 ^ d))"
proof -
  let ?ls = "put_leaf ls ix v" and ?c = "ix div 2 ^ d"
  let ?m = "layer_len (length ls) d" and ?m' = "layer_len (length ?ls) d"
  have same: "node E ?ls 0 j = node E ls 0 j" if "j \<noteq> ix" for j
    using that assms by (auto simp: put_leaf_def nth_append nth_list_update)
  note other = node_cong [OF same]
  have c: "?c \<le> ?m"
  proof (rule ccontr)
    assume "\<not> ?c \<le> ?m"
    then have "layer_len (length ls) d \<le> ?c - 1" "0 < ?c" by simp_all
    then have "length ls \<le> (?c - 1) * 2 ^ d" by (simp only: layer_len_galois)
    also have "\<dots> < ?c * 2 ^ d" using \<open>0 < ?c\<close> by simp
    also have "\<dots> \<le> ix" by (simp add: div_times_less_eq_dividend)
    finally show False using assms by simp
  qed
  have len: "?m' = (if ?m \<le> ?c then ?c + 1 else ?m)"
  proof (cases "ix < length ls")
    case True
    have "?c * 2 ^ d \<le> ix" by (simp add: div_times_less_eq_dividend)
    with True have "\<not> length ls \<le> ?c * 2 ^ d" by linarith
    then have "\<not> ?m \<le> ?c" by (simp only: layer_len_galois simp_thms)
    with True show ?thesis by (simp add: put_leaf_def)
  next
    case False
    with assms have ix: "ix = length ls" by simp
    have le: "ix + 1 \<le> (?c + 1) * 2 ^ d"
      using dividend_less_times_div [of "2 ^ d" ix] by (simp add: mult.commute)
    show ?thesis
    proof (cases "?m \<le> ?c")
      case True
      have "\<not> ix + 1 \<le> ?c * 2 ^ d" by (simp add: not_le div_times_less_eq_dividend le_imp_less_Suc)
      then have "?c < layer_len (ix + 1) d" by (simp add: layer_len_galois flip: not_le)
      moreover have "layer_len (ix + 1) d \<le> ?c + 1" using le by (simp only: layer_len_galois)
      ultimately show ?thesis using True ix by (simp add: put_leaf_def)
    next
      case False
      then have "?c + 1 \<le> ?m" by linarith
      moreover have "?m \<le> layer_len (ix + 1) d"
        using layer_len_upper [of "ix + 1" d] by (simp add: ix layer_len_galois)
      moreover have "layer_len (ix + 1) d \<le> ?c + 1" using le by (simp only: layer_len_galois)
      ultimately show ?thesis using False ix by (simp add: put_leaf_def)
    qed
  qed
  show ?thesis
    by (rule nth_equalityI)
      (use c len other in \<open>auto simp: layer_nth nth_append nth_list_update put_leaf_def
        [of "layer E ls d"]\<close>)
qed

lemma insert_path_spec:
  assumes d: "i + k \<le> 64" and ix: "ix \<le> length ls"
    and ls': "ls' = put_leaf ls ix v"
    and bs: "bs = map (\<lambda>j. layer E (if j \<le> i then ls' else ls) j) [0..<i + k + 1]"
  shows "insert_path E i k (ix div 2 ^ i) (node E ls' i (ix div 2 ^ i)) bs =
    Inr (map (layer E ls') [0..<i + k + 1])"
  using d bs
proof (induction k arbitrary: i bs)
  case 0
  then show ?case by simp
next
  case (Suc k)
  let ?c = "ix div 2 ^ i" and ?r = "node E ls' (Suc i) (ix div 2 ^ Suc i)"
  have half: "ix div 2 ^ Suc i = ?c div 2" by (simp add: div_mult2_eq mult.commute [of 2])
  have here: "index_or_panic bs i = Inr (layer E ls' i)"
    and above: "index_or_panic bs (Suc i) = Inr (layer E ls (Suc i))"
    using Suc.prems(2) by (simp_all add: index_or_panic_def nth_append del: upt_Suc)
  have neighbor: "(if ?c XOR 1 \<ge> length (layer E ls' i) then zero_hash_at E i
      else Inr (layer E ls' i ! (?c XOR 1))) = Inr (node E ls' i (?c XOR 1))"
    using Suc.prems(1) by (simp add: layer_nth node_beyond)
  have hash: "Sum256 E (if ?c mod 2 = 0 then node E ls' i ?c @ node E ls' i (?c XOR 1)
      else node E ls' i (?c XOR 1) @ node E ls' i ?c) = ?r"
    unfolding half by (rule node_sibling_mod)
  have upd: "bs[Suc i := put_leaf (layer E ls (Suc i)) (ix div 2 ^ Suc i) ?r] =
      map (\<lambda>j. layer E (if j \<le> Suc i then ls' else ls) j) [0..<Suc (Suc i + k)]"
  proof -
    have "put_leaf (layer E ls (Suc i)) (ix div 2 ^ Suc i) ?r = layer E ls' (Suc i)"
      using layer_put_leaf [OF ix, of E v "Suc i"] unfolding ls' by (rule sym)
    with Suc.prems(2) show ?thesis
      by (intro nth_equalityI) (simp_all add: nth_list_update le_Suc_eq del: upt_Suc node.simps power_Suc)
  qed
  have put: "(if length (layer E ls (Suc i)) = 0 \<or> ix div 2 ^ Suc i \<ge> length (layer E ls (Suc i))
      then layer E ls (Suc i) @ [?r] else (layer E ls (Suc i))[ix div 2 ^ Suc i := ?r]) =
      put_leaf (layer E ls (Suc i)) (ix div 2 ^ Suc i) ?r"
    unfolding put_leaf_def by auto
  have "insert_path E i (Suc k) ?c (node E ls' i ?c) bs =
      insert_path E (Suc i) k (ix div 2 ^ Suc i) ?r
        (map (\<lambda>j. layer E (if j \<le> Suc i then ls' else ls) j) [0..<Suc i + k + 1])"
    unfolding insert_path.simps here bindE_simps neighbor Let_def hash Suc_eq_plus1 [symmetric]
      above half [symmetric]
    unfolding put upd ..
  with Suc.IH [of "Suc i", OF _ refl] Suc.prems(1) show ?case by (simp del: upt_Suc)
qed

lemma Insert_spec:
  assumes "unat d \<le> 62" and "ix \<le> length ls"
  shows "Insert E (tree_of E d ls) v (int ix) = Inr (tree_of E d (put_leaf ls ix v))"
proof -
  let ?ls = "put_leaf ls ix v"
  have "(ls @ replicate (ix + 1 - length ls) zero32)[ix := v] = ?ls"
    using assms(2) by (auto simp: put_leaf_def list_update_append)
  moreover have "(map (layer E ls) [0..<unat d + 1])[0 := ?ls] =
      map (\<lambda>j. layer E (if j \<le> 0 then ?ls else ls) j) [0..<0 + unat d + 1]"
    by (intro nth_equalityI) (auto simp: nth_list_update layer_0 simp del: upt_Suc)
  moreover have "insert_path E 0 (unat d) ix v
      (map (\<lambda>j. layer E (if j \<le> 0 then ?ls else ls) j) [0..<0 + unat d + 1]) =
      Inr (map (layer E ?ls) [0..<unat d + 1])"
    using insert_path_spec [of 0 "unat d" ix ls ?ls v] assms
    by (auto simp: put_leaf_def nth_append)
  moreover have "index_or_panic (branches (tree_of E d ls)) 0 = Inr ls"
    by (simp add: tree_of_def index_or_panic_def layer_0 nth_append)
  ultimately show ?thesis
    by (simp add: Insert_def Let_def tree_of_def put_leaf_def del: upt_Suc)
qed

subsection \<open>Reference hashers\<close>

text \<open>
  The portable behaviour of \<open>gohashtree.Hash\<close> over any digest function, with \<open>n\<close> goroutines:
  odd inputs are refused, even ones are hashed pair by pair.
\<close>

definition reference_env :: "(bytes \<Rightarrow> b32) \<Rightarrow> nat \<Rightarrow> merkle_env" where
  "reference_env sha n = \<lparr>Sum256 = sha,
     gohashtree_Hash = (\<lambda>cs. if odd (length cs) then Inl (Ext ''odd number of chunks'')
                              else Inr (hash_pairs sha cs)),
     goroutines = n\<rparr>"

interpretation reference: pair_hasher "reference_env sha n" for sha n
  by unfold_locales (simp add: reference_env_def)

interpretation reference_few: few_goroutines "reference_env sha 15" for sha
  by unfold_locales (simp add: reference_env_def)

lemma reference_sel [simp]:
  "Sum256 (reference_env sha n) = sha" "goroutines (reference_env sha n) = n"
  by (simp_all add: reference_env_def)

text \<open>A digest function for concrete runs: the bytewise sum of the two 32-byte halves.\<close>

definition fold_digest :: "bytes \<Rightarrow> b32" where
  "fold_digest bs = map2 (+) (take 32 (bs @ zero32)) (take 32 (drop 32 bs @ zero32))"

lemma length_fold_digest [simp]: "length (fold_digest bs) = 32"
  by (simp add: fold_digest_def)

subsection \<open>Properties\<close>

text \<open>
  Layer hashing, sequential or parallel: an odd layer is refused; an even one below the
  parallelization threshold is hashed in full; above it the first \<open>(n + 1) * groupSize\<close> digests
  are right and any remaining ones stay zero, so the result is the whole layer exactly when the
  \<open>n + 1\<close> segments cover the input, which they do for at most 50 goroutines.
\<close>

theorem BuildParentTreeRoots_result:
  assumes "pair_hasher E"
  shows "(odd (length chunks) \<longrightarrow>
       BuildParentTreeRootsWithNRoutines E chunks n = Inl ErrOddLengthTreeRoots) \<and>
    (even (length chunks) \<and> length chunks < MinParallelizationSize \<longrightarrow>
       BuildParentTreeRootsWithNRoutines E chunks n = Inr (hash_pairs (Sum256 E) chunks)) \<and>
    (even (length chunks) \<and> MinParallelizationSize \<le> length chunks \<longrightarrow>
       (let groupSize = length chunks div (2 * max n 1) in
        BuildParentTreeRootsWithNRoutines E chunks n =
          Inr (hash_pairs (Sum256 E) (take ((n + 1) * (2 * groupSize)) chunks) @
               replicate (length chunks div 2 - (n + 1) * groupSize) zero32))) \<and>
    (even (length chunks) \<and> n \<le> 50 \<longrightarrow>
       BuildParentTreeRootsWithNRoutines E chunks n = Inr (hash_pairs (Sum256 E) chunks))"
proof -
  note exact = pair_hasher.parallel_exact [OF assms] and seq = pair_hasher.sequential_exact [OF assms]
    and covered = pair_hasher.parallel_covered [OF assms]
  have "BuildParentTreeRootsWithNRoutines E chunks n = Inl ErrOddLengthTreeRoots"
    if "odd (length chunks)"
    using that by (simp add: BuildParentTreeRootsWithNRoutines_def odd_iff_mod_2_eq_one)
  moreover have "BuildParentTreeRootsWithNRoutines E chunks n = Inr (hash_pairs (Sum256 E) chunks)"
    if "even (length chunks)" "n \<le> 50"
    using that seq covered segments_cover [of "length chunks" n]
    by (cases "length chunks < 5000") (simp_all add: MinParallelizationSize_def)
  ultimately show ?thesis using exact seq by (simp add: Let_def)
qed

theorem BuildParentTreeRoots_result_witness:
  "BuildParentTreeRootsWithNRoutines (reference_env fold_digest 1) [zero32, zero32] 1 =
     Inr [fold_digest (zero32 @ zero32)]"
  using BuildParentTreeRoots_result [OF reference.pair_hasher_axioms,
      where chunks = "[zero32, zero32]" and n = 1]
  by (simp add: MinParallelizationSize_def)

text \<open>
  With at most 50 goroutines \<open>NewRootWithDepth\<close> is the root of the padded tree of the given
  depth, and the zero hash of that depth when there are more leaves than it can hold;
  \<open>NewTreeFromLeavesWithDepth\<close> accepts exactly 1 to \<open>2 ^ d\<close> leaves at depths 1 to 62 and the
  \<open>Root\<close> of the tree it builds is that same root.
\<close>

theorem merkle_root_correct:
  assumes "few_goroutines E" and "unat d \<le> 64"
  shows "NewRootWithDepth E ls d =
      Inr (if length ls \<le> 2 ^ unat d then node E ls (unat d) 0 else zero_node E (unat d)) \<and>
    (case NewTreeFromLeavesWithDepth E ls d of
       Inl _ \<Rightarrow> \<not> (0 < length ls \<and> 0 < unat d \<and> unat d \<le> 62 \<and> length ls \<le> 2 ^ unat d)
     | Inr t \<Rightarrow> (0 < length ls \<and> 0 < unat d \<and> unat d \<le> 62 \<and> length ls \<le> 2 ^ unat d) \<and>
                Root t = Inr (node E ls (unat d) 0))"
proof -
  have L: "layer_hasher E"
    using assms(1) by (rule few_goroutines.is_layer_hasher)
  show ?thesis
  proof (cases "verifySufficientDepth (length ls) d")
    case (Inl e)
    then have "\<not> (0 < length ls \<and> 0 < unat d \<and> unat d \<le> 62 \<and> length ls \<le> 2 ^ unat d)"
      using verifySufficientDepth_Inr [of "length ls" d] by simp
    with Inl layer_hasher.NewRootWithDepth_spec [OF L assms(2)] show ?thesis
      by (simp add: NewTreeFromLeavesWithDepth_def)
  next
    case (Inr u)
    then have ok: "verifySufficientDepth (length ls) d = Inr ()" by simp
    then have "0 < length ls \<and> 0 < unat d \<and> unat d \<le> 62 \<and> length ls \<le> 2 ^ unat d"
      by (simp only: verifySufficientDepth_Inr)
    with layer_hasher.NewTree_spec [OF L ok] layer_hasher.NewRootWithDepth_spec [OF L assms(2)]
      layer_hasher.Root_spec [OF L, of ls d]
    show ?thesis by simp
  qed
qed

theorem merkle_root_correct_witness:
  "NewRootWithDepth (reference_env fold_digest 15) [zero32, zero32, zero32] 2 =
     Inr (node (reference_env fold_digest 15) [zero32, zero32, zero32] 2 0)"
  using merkle_root_correct [OF reference_few.few_goroutines_axioms,
      where d = 2 and ls = "[zero32, zero32, zero32]"] by simp

text \<open>
  C36. Proofs are complete: for every leaf of a tree built by \<open>NewTreeFromLeavesWithDepth\<close>,
  \<open>MerkleProof\<close> succeeds and \<open>VerifyProof\<close> accepts its result against the root, and
  \<open>MerkleProofWithMixin\<close> succeeds and is accepted against \<open>HashTreeRoot\<close>, except that
  \<open>HashTreeRoot\<close> counts a tree whose only leaf is the zero chunk as empty.
\<close>

theorem merkle_proof_complete:
  assumes "few_goroutines E" and "NewTreeFromLeavesWithDepth E ls d = Inr t"
    and "unat ix < length ls"
  shows "(\<exists>p r. MerkleProof E t ix = Inr p \<and> Root t = Inr r \<and> VerifyProof E r (ls ! unat ix) ix p) \<and>
    (ls \<noteq> [zero32] \<longrightarrow>
      (\<exists>p r. MerkleProofWithMixin E t ix = Inr p \<and> Tree_HashTreeRoot E t = Inr r \<and>
             VerifyProof E r (ls ! unat ix) ix p))"
proof -
  have L: "layer_hasher E" and P: "pair_hasher E"
    using assms(1) by (simp_all add: few_goroutines.is_layer_hasher few_goroutines_def)
  have ok: "verifySufficientDepth (length ls) d = Inr ()"
    using assms(2) by (auto simp: NewTreeFromLeavesWithDepth_def bindE_Inr)
  then have d: "0 < length ls" "unat d \<le> 62" "length ls \<le> 2 ^ unat d"
    by (simp_all only: verifySufficientDepth_Inr)
  have t: "t = tree_of E d ls"
    using assms(2) layer_hasher.NewTree_spec [OF L ok] by simp
  define p where "p = map (\<lambda>i. node E ls i (unat (drop_bit i ix XOR 1))) [0..<unat d]"
  have pf: "MerkleProof E t ix = Inr p" and rt: "Root t = Inr (node E ls (unat d) 0)"
    using layer_hasher.MerkleProof_spec [OF L d(2,3) assms(3)] layer_hasher.Root_spec [OF L] d(1)
    by (simp_all add: t p_def)
  have top: "drop_bit (unat d) ix = 0"
  proof -
    have "unat (2 ^ unat d :: u64) = 2 ^ unat d" using d(2) by (intro unat_power_two) simp
    with assms(3) d(3) have "unat (drop_bit (unat d) ix) = 0"
      by (simp add: drop_bit_eq_div unat_div_distrib)
    then show ?thesis by (simp only: unat_eq_0)
  qed
  have fold: "RootFromBranch E (ls ! unat ix) p 0 ix = node E ls (unat d) 0"
    using RootFromBranch_node [of E ls 0 ix "unat d"] assms(3) by (simp add: p_def top)
  have "length p = unat d" by (simp add: p_def)
  have "VerifyProof E (node E ls (unat d) 0) (ls ! unat ix) ix p"
    using fold d(2) \<open>length p = _\<close> by (simp add: VerifyProof_iff)
  moreover have "\<exists>p r. MerkleProofWithMixin E t ix = Inr p \<and> Tree_HashTreeRoot E t = Inr r \<and>
      VerifyProof E r (ls ! unat ix) ix p" if "ls \<noteq> [zero32]"
  proof -
    let ?len = "le_bytes (of_nat (length ls)) @ replicate 24 0"
    have mix: "MixinLength E r (of_nat (length ls)) = Sum256 E (r @ ?len)" for r
      using pair_hasher.gohashtree [OF P, of "[r, ?len]"] by (simp add: MixinLength_def)
    have "Hashes E ! 0 = zero32" by (simp add: Hashes_spec)
    with that have "Tree_HashTreeRoot E t = Inr (Sum256 E (node E ls (unat d) 0 @ ?len))"
      using rt mix by (cases ls) (auto simp: Tree_HashTreeRoot_def t tree_of_def)
    moreover have "RootFromBranch E (ls ! unat ix) (p @ [?len]) 0 ix =
        Sum256 E (node E ls (unat d) 0 @ ?len)"
      using fold top \<open>length p = _\<close> by (simp add: RootFromBranch_append)
    ultimately show ?thesis
      using pf d(2) \<open>length p = _\<close> unfolding MerkleProofWithMixin_def
      by (simp add: VerifyProof_iff t tree_of_def)
  qed
  ultimately show ?thesis using pf rt by blast
qed

theorem merkle_proof_complete_witness:
  "\<exists>t p r. NewTreeFromLeavesWithDepth (reference_env fold_digest 15) [zero32, zero32] 3 = Inr t \<and>
     MerkleProof (reference_env fold_digest 15) t 1 = Inr p \<and> Root t = Inr r \<and>
     VerifyProof (reference_env fold_digest 15) r zero32 1 p"
proof -
  let ?E = "reference_env fold_digest 15" and ?ls = "[zero32, zero32]"
  have t: "NewTreeFromLeavesWithDepth ?E ?ls 3 = Inr (tree_of ?E 3 ?ls)"
    by (rule layer_hasher.NewTree_spec [OF reference_few.is_layer_hasher])
      (simp add: verifySufficientDepth_Inr)
  from merkle_proof_complete [OF reference_few.few_goroutines_axioms t, of 1] t show ?thesis
    by auto
qed

text \<open>
  C37. Proofs bind: if \<open>VerifyProof\<close> accepts two different 32-byte leaves at the same index
  against the same root, with proofs of the same length made of 32-byte hashes, then the two
  verifications hash two different inputs at the same step to the same digest, a collision of
  SHA-256.
\<close>

theorem merkle_proof_binding:
  assumes "VerifyProof E root a ix p" and "VerifyProof E root b ix q"
    and "length p = length q" and "a \<noteq> b" and "length a = 32" and "length b = 32"
    and "\<And>h. h \<in> set p \<union> set q \<Longrightarrow> length h = 32" and "\<And>x. length (Sum256 E x) = 32"
  shows "\<exists>k < length p. branch_inputs E a p 0 ix ! k \<noteq> branch_inputs E b q 0 ix ! k \<and>
    Sum256 E (branch_inputs E a p 0 ix ! k) = Sum256 E (branch_inputs E b q 0 ix ! k)"
proof -
  have "RootFromBranch E a p 0 ix = RootFromBranch E b q 0 ix"
    using assms(1,2) by (simp add: VerifyProof_iff)
  then show ?thesis using RootFromBranch_collision [OF assms(3,4,5,6,7,8)] by blast
qed

theorem merkle_proof_binding_witness:
  "\<exists>k < length [zero32].
     branch_inputs (reference_env (\<lambda>_. zero32) 1) zero32 [zero32] 0 0 ! k \<noteq>
     branch_inputs (reference_env (\<lambda>_. zero32) 1) (replicate 32 1) [zero32] 0 0 ! k \<and>
     Sum256 (reference_env (\<lambda>_. zero32) 1)
       (branch_inputs (reference_env (\<lambda>_. zero32) 1) zero32 [zero32] 0 0 ! k) =
     Sum256 (reference_env (\<lambda>_. zero32) 1)
       (branch_inputs (reference_env (\<lambda>_. zero32) 1) (replicate 32 1) [zero32] 0 0 ! k)"
  by (rule merkle_proof_binding [where root = zero32])
    (auto simp: VerifyProof_iff zero32_def replicate_eq_replicate)

text \<open>
  \<open>Insert\<close> is incremental construction: replacing a leaf, or adding one right after the
  last, in a tree built by \<open>NewTreeFromLeavesWithDepth\<close> that still has room gives exactly the tree
  built from the changed leaves.
\<close>

theorem Insert_rebuilds:
  assumes "few_goroutines E" and "NewTreeFromLeavesWithDepth E ls d = Inr t"
    and "ix \<le> length ls" and "ix < 2 ^ unat d"
  shows "Insert E t item (int ix) = NewTreeFromLeavesWithDepth E (put_leaf ls ix item) d"
proof -
  have L: "layer_hasher E"
    using assms(1) by (rule few_goroutines.is_layer_hasher)
  have ok: "verifySufficientDepth (length ls) d = Inr ()"
    using assms(2) by (auto simp: NewTreeFromLeavesWithDepth_def bindE_Inr)
  then have d: "0 < length ls" "0 < unat d" "unat d \<le> 62" "length ls \<le> 2 ^ unat d"
    by (simp_all only: verifySufficientDepth_Inr)
  have "verifySufficientDepth (length (put_leaf ls ix item)) d = Inr ()"
    using d assms(3,4) unfolding verifySufficientDepth_Inr by (auto simp: put_leaf_def)
  note this [THEN layer_hasher.NewTree_spec [OF L]]
  moreover have "t = tree_of E d ls"
    using assms(2) layer_hasher.NewTree_spec [OF L ok] by simp
  ultimately show ?thesis using Insert_spec [OF d(3) assms(3)] by simp
qed

theorem Insert_rebuilds_witness:
  "\<exists>t. NewTreeFromLeavesWithDepth (reference_env fold_digest 15) [zero32] 2 = Inr t \<and>
     Insert (reference_env fold_digest 15) t (replicate 32 1) 1 =
     NewTreeFromLeavesWithDepth (reference_env fold_digest 15) [zero32, replicate 32 1] 2"
proof -
  let ?E = "reference_env fold_digest 15"
  have t: "NewTreeFromLeavesWithDepth ?E [zero32] 2 = Inr (tree_of ?E 2 [zero32])"
    by (rule layer_hasher.NewTree_spec [OF reference_few.is_layer_hasher])
      (simp add: verifySufficientDepth_Inr)
  from Insert_rebuilds [OF reference_few.few_goroutines_axioms t, of 1] t show ?thesis
    by (simp add: put_leaf_def)
qed

end
