(* ===== verification/Ssz.thy ===== *)
theory Ssz
  imports Merkle
begin

unbundle bit_operations_syntax

section \<open>SSZ merkleization and bit lists: \<open>mod/primitives/pkg/ssz\<close>\<close>

text \<open>
  Chunking and merkleization (\<open>helpers.go\<close>, \<open>merkleize.go\<close>) on top of the Merkle package, and
  the bit vector and bit list codecs of \<open>serialization.go\<close>. The hash tree root method of the
  elements of a composite list is an argument, since Go dispatches it on the element type.

  The lemmas show that \<open>Merkleize\<close> is the root of the padded tree of the specification at the
  depth of its limit, and that bit lists survive their encoding.
\<close>

subsection \<open>Chunks\<close>

definition ChunkCountBitListVec :: "nat \<Rightarrow> u64" where
  "ChunkCountBitListVec len = (of_nat len + 255) div 256"

definition ChunkCountBasicList :: "u64 \<Rightarrow> 'a list \<Rightarrow> u64 \<Rightarrow> u64" where
  "ChunkCountBasicList sizeOf b maxCapacity =
     (let numItems = of_nat (length b) in
      if numItems = 0 then 1
      else let limit = (maxCapacity * sizeOf + 31) div 32
           in if limit \<noteq> 0 then limit else numItems)"

definition ChunkCountCompositeList :: "'a list \<Rightarrow> u64 \<Rightarrow> u64" where
  "ChunkCountCompositeList c limit = max (of_nat (length c)) limit"

definition PadTo :: "b32 list \<Rightarrow> u64 \<Rightarrow> b32 list" where
  "PadTo chunks effectiveLimit =
     take (unat effectiveLimit) chunks @ replicate (unat effectiveLimit - length chunks) zero32"

text \<open>\<open>copy\<close> of at most 32 bytes into a zeroed chunk.\<close>

definition chunk_at :: "bytes \<Rightarrow> nat \<Rightarrow> b32" where
  "chunk_at input i = (let bz = take 32 (drop (32 * i) input) in bz @ replicate (32 - length bz) 0)"

definition PartitionBytes :: "bytes \<Rightarrow> b32 list \<times> u64" where
  "PartitionBytes input =
     (let numChunks = max ((of_nat (length input) + 31) div 32) 1
      in (map (chunk_at input) [0..<unat numChunks], numChunks))"

subsection \<open>Merkleization\<close>

definition Merkleize :: "merkle_env \<Rightarrow> b32 list \<Rightarrow> u64 option \<Rightarrow> err + b32" where
  "Merkleize E chunks limit =
     (let lenChunks = of_nat (length chunks) in
      bindE (case limit of
          None \<Rightarrow> NextPowerOfTwo lenChunks
        | Some l \<Rightarrow> if l \<ge> lenChunks then NextPowerOfTwo l
                    else Inl (Newf ''input exceeds limit''))
        (\<lambda>effectiveLimit.
          let effectiveChunks = PadTo chunks effectiveLimit in
          if length effectiveChunks = 1 then Inr (effectiveChunks ! 0)
          else NewRootWithMaxLeaves E effectiveChunks effectiveLimit))"

definition MerkleizeByteSlice :: "merkle_env \<Rightarrow> bytes \<Rightarrow> err + b32" where
  "MerkleizeByteSlice E input =
     (let (chunks, numChunks) = PartitionBytes input in Merkleize E chunks (Some numChunks))"

definition MerkleizeVecComposite ::
  "merkle_env \<Rightarrow> ('a \<Rightarrow> err + b32) \<Rightarrow> 'a list \<Rightarrow> err + b32" where
  "MerkleizeVecComposite E htr value =
     bindE (mapE htr value) (\<lambda>htrs. Merkleize E htrs None)"

definition MerkleizeListComposite ::
  "merkle_env \<Rightarrow> ('a \<Rightarrow> err + b32) \<Rightarrow> 'a list \<Rightarrow> u64 \<Rightarrow> err + b32" where
  "MerkleizeListComposite E htr value limit =
     bindE (mapE htr value) (\<lambda>htrs.
     bindE (Merkleize E htrs (Some (ChunkCountCompositeList value limit))) (\<lambda>root.
     Inr (MixinLength E root (of_nat (length value)))))"

subsection \<open>Bit vectors and bit lists\<close>

definition set_bit_at :: "bytes \<Rightarrow> nat \<Rightarrow> bytes" where
  "set_bit_at arr i = arr[i div 8 := (arr ! (i div 8)) OR push_bit (i mod 8) 1]"

fun mark_bits :: "nat \<Rightarrow> bool list \<Rightarrow> bytes \<Rightarrow> bytes" where
  "mark_bits i [] arr = arr"
| "mark_bits i (val # bv) arr = mark_bits (i + 1) bv (if val then set_bit_at arr i else arr)"

definition MarshalBitVector :: "bool list \<Rightarrow> bytes" where
  "MarshalBitVector bv = mark_bits 0 bv (replicate ((length bv + 7) div 8) 0)"

definition MarshalBitList :: "bool list \<Rightarrow> bytes" where
  "MarshalBitList bv =
     set_bit_at (mark_bits 0 bv (replicate (length bv div 8 + 1) 0)) (length bv)"

definition MostSignificantBitIndex :: "u8 \<Rightarrow> int" where
  "MostSignificantBitIndex x = int (bit_length (unat x)) - 1"

definition UnmarshalBitList :: "bytes \<Rightarrow> bool list" where
  "UnmarshalBitList bv =
     (if length bv = 0 then []
      else let lastByte = bv ! (length bv - 1); msbi = MostSignificantBitIndex lastByte in
        if msbi = -1 then []
        else concat (map (\<lambda>j. map (\<lambda>i. bv ! j AND push_bit i 1 > 0) [0..<8]) [0..<length bv - 1]) @
             map (\<lambda>i. lastByte AND push_bit i 1 > 0) [0..<nat msbi])"

subsection \<open>Merkleization computes the padded tree\<close>

lemma node_pad: "node E (ls @ replicate k zero32) d i = node E ls d i"
  by (induction d arbitrary: i) (auto simp: nth_append)

lemma PadTo_fits:
  "length chunks \<le> unat l \<Longrightarrow> PadTo chunks l = chunks @ replicate (unat l - length chunks) zero32"
  by (simp add: PadTo_def)

lemma length_PadTo [simp]: "length (PadTo chunks l) = unat l"
  by (simp add: PadTo_def)

text \<open>The depth at which a limit of chunks is merkleized.\<close>

definition limit_depth :: "u64 \<Rightarrow> nat" where
  "limit_depth l = (if l = 0 then 0 else Len64 (l - 1))"

lemma NextPowerOfTwo_limit:
  "unat l \<le> 2 ^ 63 \<Longrightarrow> NextPowerOfTwo l = Inr (2 ^ limit_depth l) \<and> limit_depth l \<le> 63 \<and>
     unat l \<le> 2 ^ limit_depth l"
proof (cases "l = 0")
  case True
  then show ?thesis by (simp add: NextPowerOfTwo_def limit_depth_def)
next
  case False
  assume "unat l \<le> 2 ^ 63"
  with False show ?thesis
    using NextPowerOfTwo_exp [OF False] Len64_minus_one_63 [OF False] Len64_minus_one(1) [OF False]
    by (simp add: limit_depth_def)
qed

context layer_hasher
begin

lemma root_of_power:
  assumes "k \<le> 63" and "length ls \<le> 2 ^ k"
  shows "(let eff = PadTo ls (2 ^ k) in
      if length eff = 1 then Inr (eff ! 0) else NewRootWithMaxLeaves E eff (2 ^ k)) =
    Inr (node E ls k 0)"
proof -
  have k: "unat (2 ^ k :: u64) = 2 ^ k" using assms(1) by (intro unat_power_two) simp
  have pad: "PadTo ls (2 ^ k) = ls @ replicate (2 ^ k - length ls) zero32"
    using assms(2) k PadTo_fits [of ls "2 ^ k"] by simp
  show ?thesis
  proof (cases k)
    case 0
    with assms(2) pad show ?thesis by (cases ls) (auto simp: Let_def)
  next
    case (Suc j)
    have lim: "NextPowerOfTwo (2 ^ k) = Inr (2 ^ k)" "unat (ILog2Ceil (2 ^ k)) = k"
    proof -
      have "unat (2 ^ k :: u64) \<le> 2 ^ 63" using power_increasing [OF assms(1), of "2 :: nat"] unfolding k by simp
      from NextPowerOfTwo_limit [OF this] obtain m where
        m: "NextPowerOfTwo (2 ^ k) = Inr (2 ^ m)" "m = limit_depth (2 ^ k)" by blast
      moreover have "(2 ^ k :: u64) \<noteq> 0" using k by (metis unat_0 power_not_zero zero_neq_numeral)
      moreover from this have "limit_depth (2 ^ k) = k"
        using ILog2Ceil_power [of k] ILog2Ceil_nat [of "2 ^ k"] assms(1) by (simp add: limit_depth_def)
      ultimately show "NextPowerOfTwo (2 ^ k) = Inr (2 ^ k)" by simp
      show "unat (ILog2Ceil (2 ^ k)) = k" using assms(1) by (intro ILog2Ceil_power) simp
    qed
    have "NewRootWithMaxLeaves E (PadTo ls (2 ^ k)) (2 ^ k) = Inr (node E (PadTo ls (2 ^ k)) k 0)"
      using NewRootWithDepth_spec [of "ILog2Ceil (2 ^ k)" "PadTo ls (2 ^ k)"] lim assms(1) k
      by (simp add: NewRootWithMaxLeaves_def)
    moreover have "length (PadTo ls (2 ^ k)) \<noteq> 1" using Suc k by simp
    ultimately show ?thesis by (simp add: Let_def pad node_pad)
  qed
qed

lemma Merkleize_spec:
  assumes "length ls < 2 ^ 63" and "\<And>l. limit = Some l \<Longrightarrow> unat l \<le> 2 ^ 63"
  shows "Merkleize E ls limit =
    (case limit of
       None \<Rightarrow> Inr (node E ls (limit_depth (of_nat (length ls))) 0)
     | Some l \<Rightarrow> if unat l < length ls then Inl (Newf ''input exceeds limit'')
                 else Inr (node E ls (limit_depth l) 0))"
proof -
  have len: "unat (of_nat (length ls) :: u64) = length ls"
    using assms(1) by (simp add: unat_of_nat)
  show ?thesis
  proof (cases limit)
    case None
    have "unat (of_nat (length ls) :: u64) \<le> 2 ^ 63" using assms(1) by (simp add: len)
    from NextPowerOfTwo_limit [OF this] root_of_power [of "limit_depth (of_nat (length ls))" ls]
    show ?thesis by (simp add: Merkleize_def None len)
  next
    case (Some l)
    from NextPowerOfTwo_limit [OF assms(2) [OF this]] root_of_power [of "limit_depth l" ls]
    show ?thesis by (auto simp: Merkleize_def Some word_le_nat_alt len not_less)
  qed
qed

lemma MerkleizeListComposite_spec:
  assumes "mapE htr xs = Inr hs" and "length xs < 2 ^ 63" and "unat limit \<le> 2 ^ 63"
  shows "MerkleizeListComposite E htr xs limit =
    Inr (Sum256 E (node E hs (limit_depth (max (of_nat (length xs)) limit)) 0 @
                   le_bytes (of_nat (length xs)) @ replicate 24 0))"
proof -
  have hs: "length hs = length xs"
    using mapE_InrD [OF assms(1)] by (simp add: list_all2_lengthD)
  have len: "unat (of_nat (length xs) :: u64) = length xs"
    using assms(2) by (simp add: unat_of_nat)
  have "unat (max (of_nat (length xs)) limit) \<le> 2 ^ 63"
      "\<not> unat (max (of_nat (length xs)) limit) < length xs"
    using assms(2,3) len by (auto simp: max_def word_le_nat_alt)
  with Merkleize_spec [of hs "Some (max (of_nat (length xs)) limit)"] assms hs
  have "Merkleize E hs (Some (ChunkCountCompositeList xs limit)) =
      Inr (node E hs (limit_depth (max (of_nat (length xs)) limit)) 0)"
    by (simp add: ChunkCountCompositeList_def)
  moreover have "MixinLength E r n = Sum256 E (r @ le_bytes n @ replicate 24 0)" for r n
    using gohashtree [of "[r, le_bytes n @ replicate 24 0]"] by (simp add: MixinLength_def)
  ultimately show ?thesis
    using assms(1) by (simp add: MerkleizeListComposite_def)
qed

end

subsection \<open>Bit lists\<close>

lemma length_set_bit_at [simp]: "length (set_bit_at arr i) = length arr"
  by (simp add: set_bit_at_def)

lemma length_mark_bits [simp]: "length (mark_bits i bv arr) = length arr"
  by (induction i bv arr rule: mark_bits.induct) auto

lemma bit_set_bit_at:
  assumes "j < length arr" and "i < 8"
  shows "bit (set_bit_at arr n ! j) i \<longleftrightarrow> bit (arr ! j) i \<or> n = 8 * j + i"
proof (cases "n div 8 = j")
  case True
  then have "8 * j + n mod 8 = n" by auto
  then have "n = 8 * j + i \<longleftrightarrow> i = n mod 8" by (metis add_left_cancel)
  with True assms show ?thesis
    by (simp add: set_bit_at_def bit_or_iff bit_exp_iff)
next
  case False
  then have "n \<noteq> 8 * j + i" using assms(2) by auto
  with False assms show ?thesis by (simp add: set_bit_at_def)
qed

lemma bit_mark_bits:
  assumes "j < length arr" and "i < 8"
  shows "bit (mark_bits n bv arr ! j) i \<longleftrightarrow>
    bit (arr ! j) i \<or> (n \<le> 8 * j + i \<and> 8 * j + i < n + length bv \<and> bv ! (8 * j + i - n))"
  using assms
proof (induction n bv arr rule: mark_bits.induct)
  case (2 n val bv arr)
  let ?k = "8 * j + i"
  have "bit (mark_bits n (val # bv) arr ! j) i \<longleftrightarrow>
      bit ((if val then set_bit_at arr n else arr) ! j) i \<or>
      (n + 1 \<le> ?k \<and> ?k < n + 1 + length bv \<and> bv ! (?k - (n + 1)))"
    using 2 by simp
  moreover have "bit ((if val then set_bit_at arr n else arr) ! j) i \<longleftrightarrow>
      bit (arr ! j) i \<or> val \<and> n = ?k"
    using 2(2,3) by (auto simp: bit_set_bit_at)
  ultimately show ?case
    by (cases "n = ?k") (auto simp: nth_Cons' Suc_le_eq)
qed auto

lemma and_single_bit: "(x :: u8) AND 2 ^ i > 0 \<longleftrightarrow> bit x i"
  by (simp add: word_gt_0 and_exp_eq_0_iff_not_bit)

lemma bit_MarshalBitList:
  assumes "j \<le> length bv div 8" and "i < 8"
  shows "bit (MarshalBitList bv ! j) i \<longleftrightarrow>
    8 * j + i = length bv \<or> 8 * j + i < length bv \<and> bv ! (8 * j + i)"
  using assms
  by (auto simp: MarshalBitList_def bit_set_bit_at bit_mark_bits simp del: replicate_Suc)

lemma length_MarshalBitList [simp]: "length (MarshalBitList bv) = length bv div 8 + 1"
  by (simp add: MarshalBitList_def)

text \<open>The sentinel is the highest bit of the last byte.\<close>

lemma bit_length_top:
  assumes "bit (x :: u8) k" and "\<And>i. k < i \<Longrightarrow> i < 8 \<Longrightarrow> \<not> bit x i"
  shows "bit_length (unat x) = Suc k"
proof (rule bit_length_eq)
  have "bit (unat x) k" using assms(1) by (simp add: bit_unsigned_iff)
  then show "2 ^ k \<le> unat x" by (rule bit_nat_ge)
  have "\<not> bit (unat x) i" if "Suc k \<le> i" for i
    using that assms(2) [of i] bit_imp_le_length [of x i] by (auto simp: bit_unsigned_iff)
  then have "take_bit (Suc k) (unat x) = unat x"
    by (intro bit_eqI) (metis bit_take_bit_iff not_less)
  then show "unat x < 2 ^ Suc k" by (metis take_bit_nat_less_exp)
qed

lemma concat_bytes:
  "concat (map (\<lambda>j. map (\<lambda>i. f (8 * j + i)) [0..<8]) [0..<m]) = map f [0..<8 * m]"
proof (induction m)
  case (Suc m)
  have "[0..<8 * Suc m] = [0..<8 * m] @ map (\<lambda>i. 8 * m + i) [0..<8]"
    by (simp add: eval_nat_numeral)
  with Suc show ?case by simp
qed simp

subsection \<open>Properties\<close>

text \<open>
  Bit lists round-trip: decoding the encoding of a list of booleans of any length gives the
  list back, and the encoding has one byte more than the full bytes of the list.
\<close>

theorem bitlist_roundtrip:
  "UnmarshalBitList (MarshalBitList bv) = bv \<and> length (MarshalBitList bv) = length bv div 8 + 1"
proof
  let ?e = "MarshalBitList bv" and ?n = "length bv"
  have last: "bit (?e ! (?n div 8)) i \<longleftrightarrow> i = ?n mod 8 \<or> i < ?n mod 8 \<and> bv ! (8 * (?n div 8) + i)"
    if "i < 8" for i
  proof -
    have "?n = 8 * (?n div 8) + ?n mod 8" by simp
    then have "8 * (?n div 8) + i = ?n \<longleftrightarrow> i = ?n mod 8" "8 * (?n div 8) + i < ?n \<longleftrightarrow> i < ?n mod 8"
      by presburger+
    with that bit_MarshalBitList [of "?n div 8" bv i] show ?thesis by simp
  qed
  have msb: "MostSignificantBitIndex (?e ! (?n div 8)) = int (?n mod 8)"
    using bit_length_top [of "?e ! (?n div 8)" "?n mod 8"] last
    by (simp add: MostSignificantBitIndex_def)
  have "concat (map (\<lambda>j. map (\<lambda>i. ?e ! j AND push_bit i 1 > 0) [0..<8]) [0..<?n div 8]) =
      concat (map (\<lambda>j. map (\<lambda>i. bv ! (8 * j + i)) [0..<8]) [0..<?n div 8])"
  proof (rule arg_cong [of _ _ concat], rule map_cong [OF refl], rule map_cong [OF refl])
    fix j i assume "j \<in> set [0..<?n div 8]" and "i \<in> set [0..<8]"
    then show "(?e ! j AND push_bit i 1 > 0) = bv ! (8 * j + i)"
      using bit_MarshalBitList [of j bv i] by (auto simp: and_single_bit)
  qed
  also have "\<dots> = map ((!) bv) [0..<8 * (?n div 8)]" by (rule concat_bytes)
  finally have front: "concat (map (\<lambda>j. map (\<lambda>i. ?e ! j AND push_bit i 1 > 0) [0..<8])
      [0..<?n div 8]) = map ((!) bv) [0..<8 * (?n div 8)]" .
  have rear: "map (\<lambda>i. ?e ! (?n div 8) AND push_bit i 1 > 0) [0..<?n mod 8] =
      map ((!) bv) [8 * (?n div 8)..<?n]"
  proof -
    have len: "?n mod 8 = ?n - 8 * (?n div 8)" by (simp add: minus_mult_div_eq_mod)
    then have "i < ?n mod 8 \<Longrightarrow> 8 * (?n div 8) + i < ?n" for i by linarith
    with len last show ?thesis by (intro nth_equalityI) (simp_all add: and_single_bit)
  qed
  have "UnmarshalBitList ?e = map ((!) bv) ([0..<8 * (?n div 8)] @ [8 * (?n div 8)..<?n])"
    using front rear msb by (simp add: UnmarshalBitList_def Let_def)
  also have "[0..<8 * (?n div 8)] @ [8 * (?n div 8)..<?n] = [0..<?n]"
    using upt_add_eq_append [of 0 "8 * (?n div 8)" "?n - 8 * (?n div 8)"] by simp
  finally show "UnmarshalBitList ?e = bv" by (simp add: map_nth)
qed simp

text \<open>
  \<open>Merkleize\<close> with a limit is the root of the zero-padded tree whose depth is the logarithm
  of the next power of two of the limit, or the error \<open>input exceeds limit\<close> when there are more
  chunks than that; \<open>MerkleizeListComposite\<close> is the digest of that root over the element roots
  and the length of the list.
\<close>

theorem Merkleize_correct:
  assumes "few_goroutines E" and "length chunks < 2 ^ 63" and "unat limit \<le> 2 ^ 63"
  shows "Merkleize E chunks (Some limit) =
      (if unat limit < length chunks then Inl (Newf ''input exceeds limit'')
       else Inr (node E chunks (limit_depth limit) 0)) \<and>
    MerkleizeListComposite E Inr chunks limit =
      Inr (Sum256 E (node E chunks (limit_depth (max (of_nat (length chunks)) limit)) 0 @
                     le_bytes (of_nat (length chunks)) @ replicate 24 0))"
proof -
  have L: "layer_hasher E" using assms(1) by (rule few_goroutines.is_layer_hasher)
  have "mapE Inr chunks = Inr chunks" using mapE_Inr_map [of chunks Inr id] by simp
  with layer_hasher.Merkleize_spec [OF L assms(2), of "Some limit"]
    layer_hasher.MerkleizeListComposite_spec [OF L _ assms(2,3), of Inr]
    assms(3) show ?thesis by simp
qed

theorem Merkleize_correct_witness:
  "Merkleize (reference_env fold_digest 15) [zero32, zero32, zero32] (Some 5) =
     Inr (node (reference_env fold_digest 15) [zero32, zero32, zero32] (limit_depth 5) 0)"
  using Merkleize_correct [OF reference_few.few_goroutines_axioms,
      where chunks = "[zero32, zero32, zero32]" and limit = 5] by simp

end
