(* ===== verification/ChainSpec.thy ===== *)
theory ChainSpec
  imports Prelude
begin

unbundle bit_operations_syntax

section \<open>The chain specification: \<open>mod/primitives/pkg/chain\<close>, \<open>version\<close>\<close>

text \<open>
  The record \<open>SpecData\<close> is the struct of \<open>data.go\<close>; the getters of \<open>chain_spec.go\<close> return
  its fields, so each field stands for its getter. \<open>CometValues\<close>, a value of the CometBFT library
  that is handed through unread, is left out. The helpers of \<open>helpers.go\<close> follow; converting
  a slot to an epoch divides by \<open>SlotsPerEpoch\<close>, which panics when that is zero.

  The lemmas show how epochs partition the slots, that the active fork version changes once,
  when the Electra epoch is reached, and the round trip of \<open>version.go\<close>.
\<close>

subsection \<open>Data\<close>

record SpecData =
  MinDepositAmount :: u64
  MaxEffectiveBalance :: u64
  EjectionBalance :: u64
  EffectiveBalanceIncrement :: u64
  SlotsPerEpoch :: u64
  SlotsPerHistoricalRoot :: u64
  MinEpochsToInactivityPenalty :: u64
  DomainTypeProposer :: bytes
  DomainTypeAttester :: bytes
  DomainTypeRandao :: bytes
  DomainTypeDeposit :: bytes
  DomainTypeVoluntaryExit :: bytes
  DomainTypeSelectionProof :: bytes
  DomainTypeAggregateAndProof :: bytes
  DomainTypeApplicationMask :: bytes
  DepositContractAddress :: bytes
  MaxDepositsPerBlock :: u64
  DepositEth1ChainID :: u64
  Eth1FollowDistance :: u64
  TargetSecondsPerEth1Block :: u64
  ElectraForkEpoch :: u64
  EpochsPerHistoricalVector :: u64
  EpochsPerSlashingsVector :: u64
  HistoricalRootsLimit :: u64
  ValidatorRegistryLimit :: u64
  InactivityPenaltyQuotient :: u64
  ProportionalSlashingMultiplier :: u64
  MaxWithdrawalsPerPayload :: u64
  MaxValidatorsPerWithdrawalsSweep :: u64
  MinEpochsForBlobsSidecarsRequest :: u64
  MaxBlobCommitmentsPerBlock :: u64
  MaxBlobsPerBlock :: u64
  FieldElementsPerBlob :: u64
  BytesPerBlob :: u64
  KZGCommitmentInclusionProofDepth :: u64

text \<open>The values of \<open>mod/node-core/pkg/config/spec/testnet.go\<close>.\<close>

definition BaseSpec :: SpecData where
  "BaseSpec = \<lparr>
     MinDepositAmount = 1000000000,
     MaxEffectiveBalance = 32000000000,
     EjectionBalance = 16000000000,
     EffectiveBalanceIncrement = 1000000000,
     SlotsPerEpoch = 32,
     SlotsPerHistoricalRoot = 8,
     MinEpochsToInactivityPenalty = 4,
     DomainTypeProposer = [0, 0, 0, 0],
     DomainTypeAttester = [1, 0, 0, 0],
     DomainTypeRandao = [2, 0, 0, 0],
     DomainTypeDeposit = [3, 0, 0, 0],
     DomainTypeVoluntaryExit = [4, 0, 0, 0],
     DomainTypeSelectionProof = [5, 0, 0, 0],
     DomainTypeAggregateAndProof = [6, 0, 0, 0],
     DomainTypeApplicationMask = [0, 0, 0, 1],
     DepositContractAddress = replicate 20 0x42,
     MaxDepositsPerBlock = 16,
     DepositEth1ChainID = 80084,
     Eth1FollowDistance = 1,
     TargetSecondsPerEth1Block = 3,
     ElectraForkEpoch = 9999999999999999,
     EpochsPerHistoricalVector = 8,
     EpochsPerSlashingsVector = 8,
     HistoricalRootsLimit = 8,
     ValidatorRegistryLimit = 1099511627776,
     InactivityPenaltyQuotient = 0,
     ProportionalSlashingMultiplier = 1,
     MaxWithdrawalsPerPayload = 16,
     MaxValidatorsPerWithdrawalsSweep = push_bit 14 1,
     MinEpochsForBlobsSidecarsRequest = 4096,
     MaxBlobCommitmentsPerBlock = 16,
     MaxBlobsPerBlock = 6,
     FieldElementsPerBlob = 4096,
     BytesPerBlob = 131072,
     KZGCommitmentInclusionProofDepth = 17\<rparr>"

definition TestnetChainSpec :: SpecData where
  "TestnetChainSpec = BaseSpec\<lparr>DepositEth1ChainID := 80084\<rparr>"

text \<open>The fork versions.\<close>

definition Phase0 :: u32 where "Phase0 = 0"
definition Altair :: u32 where "Altair = 1"
definition Bellatrix :: u32 where "Bellatrix = 2"
definition Capella :: u32 where "Capella = 3"
definition Deneb :: u32 where "Deneb = 4"
definition Electra :: u32 where "Electra = 5"

text \<open>\<open>binary.LittleEndian.PutUint32\<close> and \<open>Uint32\<close> on four bytes.\<close>

definition FromUint32 :: "u32 \<Rightarrow> bytes" where
  "FromUint32 version = map (\<lambda>i. ucast (drop_bit (8 * i) version)) [0..<4]"

definition ToUint32 :: "bytes \<Rightarrow> u32" where
  "ToUint32 version =
     ucast (version ! 0) OR push_bit 8 (ucast (version ! 1)) OR
     push_bit 16 (ucast (version ! 2)) OR push_bit 24 (ucast (version ! 3))"

subsection \<open>Helpers\<close>

definition SlotToEpoch :: "SpecData \<Rightarrow> u64 \<Rightarrow> err + u64" where
  "SlotToEpoch c slot = div_u64 slot (SlotsPerEpoch c)"

definition ActiveForkVersionForEpoch :: "SpecData \<Rightarrow> u64 \<Rightarrow> u32" where
  "ActiveForkVersionForEpoch c epoch = (if epoch \<ge> ElectraForkEpoch c then Electra else Deneb)"

definition ActiveForkVersionForSlot :: "SpecData \<Rightarrow> u64 \<Rightarrow> err + u32" where
  "ActiveForkVersionForSlot c slot =
     bindE (SlotToEpoch c slot) (\<lambda>epoch. Inr (ActiveForkVersionForEpoch c epoch))"

definition WithinDAPeriod :: "SpecData \<Rightarrow> u64 \<Rightarrow> u64 \<Rightarrow> err + bool" where
  "WithinDAPeriod c block current =
     bindE (SlotToEpoch c block) (\<lambda>b. bindE (SlotToEpoch c current) (\<lambda>e.
     Inr (b + MinEpochsForBlobsSidecarsRequest c \<ge> e)))"

subsection \<open>Epochs\<close>

lemma SlotToEpoch_Inr:
  "SlotToEpoch c slot = Inr e \<longleftrightarrow> SlotsPerEpoch c \<noteq> 0 \<and> e = slot div SlotsPerEpoch c"
  by (auto simp: SlotToEpoch_def div_u64_def split: if_splits)

lemma SlotToEpoch_nat:
  "SlotToEpoch c slot = Inr e \<Longrightarrow> unat e = unat slot div unat (SlotsPerEpoch c)"
  by (simp add: SlotToEpoch_Inr unat_div_distrib)

lemma SlotToEpoch_mono:
  "SlotToEpoch c s = Inr e \<Longrightarrow> SlotToEpoch c s' = Inr e' \<Longrightarrow> s \<le> s' \<Longrightarrow> e \<le> e'"
  by (simp add: word_le_nat_alt SlotToEpoch_nat div_le_mono)

subsection \<open>Properties\<close>

text \<open>
  Epochs: with a zero \<open>SlotsPerEpoch\<close> the conversion panics; otherwise epoch \<open>e\<close> holds
  exactly the slots from \<open>e * SlotsPerEpoch\<close> to before \<open>(e + 1) * SlotsPerEpoch\<close>, the active
  fork version of a slot is Electra from the Electra epoch on and Deneb before, and, when the sum
  of epochs does not overflow, a block is within the data availability period exactly when its
  epoch is at most \<open>MinEpochsForBlobsSidecarsRequest\<close> behind.
\<close>

theorem chain_spec_epochs:
  "if SlotsPerEpoch c = 0
   then (\<exists>msg. SlotToEpoch c slot = Inl (Panic msg)) \<and>
        (\<exists>msg. ActiveForkVersionForSlot c slot = Inl (Panic msg)) \<and>
        (\<exists>msg. WithinDAPeriod c slot cur = Inl (Panic msg))
   else \<exists>e e'. SlotToEpoch c slot = Inr e \<and> SlotToEpoch c cur = Inr e' \<and>
     unat e * unat (SlotsPerEpoch c) \<le> unat slot \<and>
     unat slot < (unat e + 1) * unat (SlotsPerEpoch c) \<and>
     ActiveForkVersionForSlot c slot = Inr (if ElectraForkEpoch c \<le> e then Electra else Deneb) \<and>
     (unat e + unat (MinEpochsForBlobsSidecarsRequest c) \<ge> 2 ^ 64 \<or>
      WithinDAPeriod c slot cur =
        Inr (unat e' \<le> unat e + unat (MinEpochsForBlobsSidecarsRequest c)))"
proof (cases "SlotsPerEpoch c = 0")
  case True
  then show ?thesis
    by (simp add: SlotToEpoch_def ActiveForkVersionForSlot_def WithinDAPeriod_def div_u64_def)
next
  case False
  define n where "n = unat (SlotsPerEpoch c)"
  have n: "0 < n" using False by (simp add: n_def unat_gt_0)
  have e: "SlotToEpoch c s = Inr (s div SlotsPerEpoch c)"
      "unat (s div SlotsPerEpoch c) = unat s div n" for s
    using False by (simp_all add: SlotToEpoch_Inr unat_div_distrib n_def)
  have "unat slot div n * n \<le> unat slot" "unat slot < (unat slot div n + 1) * n"
    using n dividend_less_times_div [of n "unat slot"] by (simp_all add: mult.commute)
  moreover have "unat (a + b) = unat a + unat b" if "\<not> unat a + unat b \<ge> 2 ^ 64" for a b :: u64
    using that by (simp add: unat_add_lem [THEN iffD1])
  ultimately show ?thesis
    using False
    by (auto simp: e ActiveForkVersionForSlot_def ActiveForkVersionForEpoch_def WithinDAPeriod_def
        word_le_nat_alt n_def [symmetric])
qed

text \<open>
  \<open>FromUint32\<close> and \<open>ToUint32\<close> are inverse to each other on versions of four bytes, so the
  fork version of a chain survives its byte form.
\<close>

theorem version_roundtrip:
  assumes "length bz = 4"
  shows "ToUint32 (FromUint32 v) = v \<and> FromUint32 (ToUint32 bz) = bz"
proof
  show "ToUint32 (FromUint32 v) = v"
  proof (rule bit_word_eqI)
    fix i assume "i < LENGTH(32)"
    then show "bit (ToUint32 (FromUint32 v)) i = bit v i"
      by (cases "i < 8"; cases "i < 16"; cases "i < 24")
        (auto simp: ToUint32_def FromUint32_def bit_simps)
  qed
  obtain a b c d where bz: "bz = [a, b, c, d]"
    using assms by (auto simp: length_Suc_conv eval_nat_numeral)
  have "ucast (drop_bit 0 (ToUint32 bz)) = a" "ucast (drop_bit 8 (ToUint32 bz)) = b"
      "ucast (drop_bit 16 (ToUint32 bz)) = c" "ucast (drop_bit 24 (ToUint32 bz)) = d"
    by (rule bit_word_eqI; use bit_imp_le_length in \<open>force simp: bz ToUint32_def bit_simps\<close>)+
  then show "FromUint32 (ToUint32 bz) = bz"
    by (simp add: FromUint32_def bz eval_nat_numeral)
qed

theorem version_roundtrip_witness:
  "ToUint32 (FromUint32 Deneb) = Deneb \<and> FromUint32 (ToUint32 [4, 0, 0, 0]) = [4, 0, 0, 0]"
  using version_roundtrip [of "[4, 0, 0, 0]" Deneb] by simp

end
