(* ===== verification/Types.thy ===== *)
theory Types
  imports ChainSpec Ssz
begin

unbundle bit_operations_syntax

section \<open>Consensus types: \<open>mod/consensus-types\<close>, \<open>mod/engine-primitives\<close>\<close>

text \<open>
  The containers of the beacon chain and their methods. Getters are the record fields; fields
  carry a prefix per container (\<open>val_\<close> validator, \<open>dep_\<close> deposit, \<open>hdr_\<close> block header, \<open>wd_\<close>
  withdrawal, \<open>pl_\<close> payload, \<open>ph_\<close> payload header, \<open>bd_\<close> body, \<open>blk_\<close> block). Byte arrays of
  a fixed length are byte lists; a value that comes from Go has its declared length.
  A block is an option, \<open>None\<close> being every block for which \<open>IsNil\<close> holds; the body of a block
  and the payload of a body are present, as they are after decoding.

  The hash tree roots of the containers are computed by generated code over the \<open>fastssz\<close> hasher,
  which is not part of the repository; they are the fields of \<open>ssz_env\<close>.
\<close>

subsection \<open>Validators and deposits\<close>

record Validator =
  val_Pubkey :: bytes
  val_WithdrawalCredentials :: bytes
  val_EffectiveBalance :: u64
  val_Slashed :: bool
  val_ActivationEligibilityEpoch :: u64
  val_ActivationEpoch :: u64
  val_ExitEpoch :: u64
  val_WithdrawableEpoch :: u64

definition GenesisEpoch :: u64 where
  "GenesisEpoch = 0"

definition FarFutureEpoch :: u64 where
  "FarFutureEpoch = NOT 0"

definition EthSecp256k1CredentialPrefix :: u8 where
  "EthSecp256k1CredentialPrefix = 1"

definition NewValidatorFromDeposit :: "bytes \<Rightarrow> bytes \<Rightarrow> u64 \<Rightarrow> u64 \<Rightarrow> u64 \<Rightarrow> err + Validator" where
  "NewValidatorFromDeposit pubkey withdrawalCredentials amount effectiveBalanceIncrement
       maxEffectiveBalance =
     bindE (mod_u64 amount effectiveBalanceIncrement) (\<lambda>r. Inr \<lparr>
       val_Pubkey = pubkey,
       val_WithdrawalCredentials = withdrawalCredentials,
       val_EffectiveBalance = min (amount - r) maxEffectiveBalance,
       val_Slashed = False,
       val_ActivationEligibilityEpoch = FarFutureEpoch,
       val_ActivationEpoch = FarFutureEpoch,
       val_ExitEpoch = FarFutureEpoch,
       val_WithdrawableEpoch = FarFutureEpoch\<rparr>)"

definition IsActive :: "Validator \<Rightarrow> u64 \<Rightarrow> bool" where
  "IsActive v epoch \<longleftrightarrow> val_ActivationEpoch v \<le> epoch \<and> epoch < val_ExitEpoch v"

definition IsEligibleForActivation :: "Validator \<Rightarrow> u64 \<Rightarrow> bool" where
  "IsEligibleForActivation v finalizedEpoch \<longleftrightarrow>
     val_ActivationEligibilityEpoch v \<le> finalizedEpoch \<and> val_ActivationEpoch v = FarFutureEpoch"

definition IsEligibleForActivationQueue :: "Validator \<Rightarrow> u64 \<Rightarrow> bool" where
  "IsEligibleForActivationQueue v maxEffectiveBalance \<longleftrightarrow>
     val_ActivationEligibilityEpoch v = FarFutureEpoch \<and>
     val_EffectiveBalance v = maxEffectiveBalance"

definition IsSlashable :: "Validator \<Rightarrow> u64 \<Rightarrow> bool" where
  "IsSlashable v epoch \<longleftrightarrow>
     \<not> val_Slashed v \<and> val_ActivationEpoch v \<le> epoch \<and> epoch < val_WithdrawableEpoch v"

definition HasEth1WithdrawalCredentials :: "Validator \<Rightarrow> bool" where
  "HasEth1WithdrawalCredentials v \<longleftrightarrow>
     val_WithdrawalCredentials v ! 0 = EthSecp256k1CredentialPrefix"

definition HasMaxEffectiveBalance :: "Validator \<Rightarrow> u64 \<Rightarrow> bool" where
  "HasMaxEffectiveBalance v maxEffectiveBalance \<longleftrightarrow> val_EffectiveBalance v = maxEffectiveBalance"

definition IsFullyWithdrawable :: "Validator \<Rightarrow> u64 \<Rightarrow> u64 \<Rightarrow> bool" where
  "IsFullyWithdrawable v balance epoch \<longleftrightarrow>
     HasEth1WithdrawalCredentials v \<and> val_WithdrawableEpoch v \<le> epoch \<and> balance > 0"

definition IsPartiallyWithdrawable :: "Validator \<Rightarrow> u64 \<Rightarrow> u64 \<Rightarrow> bool" where
  "IsPartiallyWithdrawable v balance maxEffectiveBalance \<longleftrightarrow>
     (let hasExcessBalance = balance > maxEffectiveBalance in
      HasEth1WithdrawalCredentials v \<and> HasMaxEffectiveBalance v maxEffectiveBalance \<and>
      hasExcessBalance)"

definition SetEffectiveBalance :: "Validator \<Rightarrow> u64 \<Rightarrow> Validator" where
  "SetEffectiveBalance v balance = v\<lparr>val_EffectiveBalance := balance\<rparr>"

text \<open>Withdrawal credentials (\<open>withdrawal_credentials.go\<close>).\<close>

definition NewCredentialsFromExecutionAddress :: "bytes \<Rightarrow> bytes" where
  "NewCredentialsFromExecutionAddress address =
     [0x01] @ replicate 11 0 @ take 20 address @ replicate (20 - length address) 0"

definition ToExecutionAddress :: "bytes \<Rightarrow> err + bytes" where
  "ToExecutionAddress wc =
     (if wc ! 0 \<noteq> EthSecp256k1CredentialPrefix then Inl ErrInvalidWithdrawalCredentials
      else to_array 20 (drop 12 wc))"

record Deposit =
  dep_Pubkey :: bytes
  dep_Credentials :: bytes
  dep_Amount :: u64
  dep_Signature :: bytes
  dep_Index :: u64

record DepositMessage =
  dm_Pubkey :: bytes
  dm_Credentials :: bytes
  dm_Amount :: u64

subsection \<open>Forks, headers, blocks\<close>

record ForkData =
  fd_CurrentVersion :: bytes
  fd_GenesisValidatorsRoot :: b32

record SigningData =
  sd_ObjectRoot :: b32
  sd_Domain :: b32

record Fork =
  fork_PreviousVersion :: bytes
  fork_CurrentVersion :: bytes
  fork_Epoch :: u64

record Eth1Data =
  eth1_DepositRoot :: b32
  eth1_DepositCount :: u64
  eth1_BlockHash :: b32

record BeaconBlockHeader =
  hdr_Slot :: u64
  hdr_ProposerIndex :: u64
  hdr_ParentBlockRoot :: b32
  hdr_StateRoot :: b32
  hdr_BodyRoot :: b32

record Withdrawal =
  wd_Index :: u64
  wd_Validator :: u64
  wd_Address :: bytes
  wd_Amount :: u64

record ExecutableDataDeneb =
  pl_ParentHash :: b32
  pl_FeeRecipient :: bytes
  pl_StateRoot :: b32
  pl_ReceiptsRoot :: b32
  pl_LogsBloom :: bytes
  pl_Random :: b32
  pl_Number :: u64
  pl_GasLimit :: u64
  pl_GasUsed :: u64
  pl_Timestamp :: u64
  pl_ExtraData :: bytes
  pl_BaseFeePerGas :: b32
  pl_BlockHash :: b32
  pl_Transactions :: "bytes list"
  pl_Withdrawals :: "Withdrawal list"
  pl_BlobGasUsed :: u64
  pl_ExcessBlobGas :: u64

record ExecutionPayloadHeaderDeneb =
  ph_ParentHash :: b32
  ph_FeeRecipient :: bytes
  ph_StateRoot :: b32
  ph_ReceiptsRoot :: b32
  ph_LogsBloom :: bytes
  ph_Random :: b32
  ph_Number :: u64
  ph_GasLimit :: u64
  ph_GasUsed :: u64
  ph_Timestamp :: u64
  ph_ExtraData :: bytes
  ph_BaseFeePerGas :: b32
  ph_BlockHash :: b32
  ph_TransactionsRoot :: b32
  ph_WithdrawalsRoot :: b32
  ph_BlobGasUsed :: u64
  ph_ExcessBlobGas :: u64

record BeaconBlockBodyDeneb =
  bd_RandaoReveal :: bytes
  bd_Eth1Data :: "Eth1Data option"
  bd_Graffiti :: b32
  bd_Deposits :: "Deposit list"
  bd_ExecutionPayload :: ExecutableDataDeneb
  bd_BlobKzgCommitments :: "bytes list"

record BeaconBlockDeneb =
  blk_Slot :: u64
  blk_ProposerIndex :: u64
  blk_ParentBlockRoot :: b32
  blk_StateRoot :: b32
  blk_Body :: BeaconBlockBodyDeneb

type_synonym BeaconBlock = "BeaconBlockDeneb option"

definition IsNil :: "BeaconBlock \<Rightarrow> bool" where
  "IsNil w \<longleftrightarrow> w = None"

record BeaconState =
  st_GenesisValidatorsRoot :: b32
  st_Slot :: u64
  st_Fork :: Fork
  st_LatestBlockHeader :: BeaconBlockHeader
  st_BlockRoots :: "b32 list"
  st_StateRoots :: "b32 list"
  st_Eth1Data :: Eth1Data
  st_Eth1DepositIndex :: u64
  st_LatestExecutionPayloadHeader :: ExecutionPayloadHeaderDeneb
  st_Validators :: "Validator list"
  st_Balances :: "u64 list"
  st_RandaoMixes :: "b32 list"
  st_NextWithdrawalIndex :: u64
  st_NextWithdrawalValidatorIndex :: u64
  st_Slashings :: "u64 list"
  st_TotalSlashing :: u64

record NewPayloadRequest =
  req_ExecutionPayload :: ExecutableDataDeneb
  req_VersionedHashes :: "b32 list"
  req_ParentBeaconBlockRoot :: b32
  req_Optimistic :: bool

record ValidatorUpdate =
  upd_Pubkey :: bytes
  upd_EffectiveBalance :: u64

record TransitionContext =
  OptimisticEngine :: bool
  SkipPayloadVerification :: bool
  SkipValidateRandao :: bool
  SkipValidateResult :: bool

text \<open>
  Hash tree roots of the generated containers, over the hashers of the Merkle package.
\<close>

record ssz_env =
  merkle :: merkle_env
  htr_ForkData :: "ForkData \<Rightarrow> err + b32"
  htr_SigningData :: "SigningData \<Rightarrow> err + b32"
  htr_DepositMessage :: "DepositMessage \<Rightarrow> err + b32"
  htr_Validator :: "Validator \<Rightarrow> err + b32"
  htr_Deposit :: "Deposit \<Rightarrow> err + b32"
  htr_Withdrawal :: "Withdrawal \<Rightarrow> err + b32"
  htr_Eth1Data :: "Eth1Data \<Rightarrow> err + b32"
  htr_BeaconBlockHeader :: "BeaconBlockHeader \<Rightarrow> err + b32"
  htr_ExecutionPayloadHeader :: "ExecutionPayloadHeaderDeneb \<Rightarrow> err + b32"
  htr_BeaconBlockBody :: "BeaconBlockBodyDeneb \<Rightarrow> err + b32"
  htr_BeaconState :: "BeaconState \<Rightarrow> err + b32"

subsection \<open>Constructors and methods\<close>

definition NewForkData :: "bytes \<Rightarrow> b32 \<Rightarrow> ForkData" where
  "NewForkData currentVersion genesisValidatorsRoot =
     \<lparr>fd_CurrentVersion = currentVersion, fd_GenesisValidatorsRoot = genesisValidatorsRoot\<rparr>"

definition NewFork :: "bytes \<Rightarrow> bytes \<Rightarrow> u64 \<Rightarrow> Fork" where
  "NewFork previousVersion currentVersion epoch =
     \<lparr>fork_PreviousVersion = previousVersion, fork_CurrentVersion = currentVersion,
      fork_Epoch = epoch\<rparr>"

definition NewEth1Data :: "b32 \<Rightarrow> u64 \<Rightarrow> b32 \<Rightarrow> Eth1Data" where
  "NewEth1Data depositRoot depositCount blockHash =
     \<lparr>eth1_DepositRoot = depositRoot, eth1_DepositCount = depositCount,
      eth1_BlockHash = blockHash\<rparr>"

definition NewBeaconBlockHeader ::
  "u64 \<Rightarrow> u64 \<Rightarrow> b32 \<Rightarrow> b32 \<Rightarrow> b32 \<Rightarrow> BeaconBlockHeader" where
  "NewBeaconBlockHeader slot proposerIndex parentBlockRoot stateRoot bodyRoot =
     \<lparr>hdr_Slot = slot, hdr_ProposerIndex = proposerIndex, hdr_ParentBlockRoot = parentBlockRoot,
      hdr_StateRoot = stateRoot, hdr_BodyRoot = bodyRoot\<rparr>"

definition SetStateRoot :: "BeaconBlockHeader \<Rightarrow> b32 \<Rightarrow> BeaconBlockHeader" where
  "SetStateRoot b stateRoot = b\<lparr>hdr_StateRoot := stateRoot\<rparr>"

definition NewDeposit :: "bytes \<Rightarrow> bytes \<Rightarrow> u64 \<Rightarrow> bytes \<Rightarrow> u64 \<Rightarrow> Deposit" where
  "NewDeposit pubkey credentials amount signature index =
     \<lparr>dep_Pubkey = pubkey, dep_Credentials = credentials, dep_Amount = amount,
      dep_Signature = signature, dep_Index = index\<rparr>"

definition GetHeader :: "ssz_env \<Rightarrow> BeaconBlockDeneb \<Rightarrow> BeaconBlockHeader option" where
  "GetHeader H b =
     (case htr_BeaconBlockBody H (blk_Body b) of
        Inl _ \<Rightarrow> None
      | Inr bodyRoot \<Rightarrow> Some \<lparr>hdr_Slot = blk_Slot b, hdr_ProposerIndex = blk_ProposerIndex b,
          hdr_ParentBlockRoot = blk_ParentBlockRoot b, hdr_StateRoot = blk_StateRoot b,
          hdr_BodyRoot = bodyRoot\<rparr>)"

text \<open>Signing domains and roots (\<open>fork_data.go\<close>, \<open>signing_data.go\<close>).\<close>

definition ComputeDomain :: "ssz_env \<Rightarrow> ForkData \<Rightarrow> bytes \<Rightarrow> err + b32" where
  "ComputeDomain H fd domainType =
     bindE (htr_ForkData H fd) (\<lambda>forkDataRoot.
     to_array 32 (domainType @ take 28 forkDataRoot))"

definition ComputeSigningRoot :: "ssz_env \<Rightarrow> err + b32 \<Rightarrow> b32 \<Rightarrow> err + b32" where
  "ComputeSigningRoot H objectHTR domain =
     bindE objectHTR (\<lambda>objectRoot.
     htr_SigningData H \<lparr>sd_ObjectRoot = objectRoot, sd_Domain = domain\<rparr>)"

definition ComputeSigningRootUInt64 :: "ssz_env \<Rightarrow> u64 \<Rightarrow> b32 \<Rightarrow> err + b32" where
  "ComputeSigningRootUInt64 H v domain =
     htr_SigningData H \<lparr>sd_ObjectRoot = le_bytes v @ replicate 24 0, sd_Domain = domain\<rparr>"

definition ComputeRandaoSigningRoot :: "ssz_env \<Rightarrow> ForkData \<Rightarrow> bytes \<Rightarrow> u64 \<Rightarrow> err + b32" where
  "ComputeRandaoSigningRoot H fd domainType epoch =
     bindE (ComputeDomain H fd domainType) (\<lambda>signingDomain.
     ComputeSigningRootUInt64 H epoch signingDomain)"

type_synonym verify_fn = "bytes \<Rightarrow> bytes \<Rightarrow> bytes \<Rightarrow> err + unit"

definition VerifyCreateValidator ::
  "ssz_env \<Rightarrow> DepositMessage \<Rightarrow> ForkData \<Rightarrow> bytes \<Rightarrow> bytes \<Rightarrow> verify_fn \<Rightarrow> err + unit" where
  "VerifyCreateValidator H d forkData signature domainType signatureVerificationFn =
     bindE (ComputeDomain H forkData domainType) (\<lambda>domain.
     bindE (ComputeSigningRoot H (htr_DepositMessage H d) domain) (\<lambda>signingRoot.
     case signatureVerificationFn (dm_Pubkey d) signingRoot signature of
       Inl e \<Rightarrow> Inl (Join e ErrDepositMessage)
     | Inr _ \<Rightarrow> Inr ()))"

definition Deposit_VerifySignature ::
  "ssz_env \<Rightarrow> Deposit \<Rightarrow> ForkData \<Rightarrow> bytes \<Rightarrow> verify_fn \<Rightarrow> err + unit" where
  "Deposit_VerifySignature H d forkData domainType signatureVerificationFn =
     VerifyCreateValidator H
       \<lparr>dm_Pubkey = dep_Pubkey d, dm_Credentials = dep_Credentials d, dm_Amount = dep_Amount d\<rparr>
       forkData (dep_Signature d) domainType signatureVerificationFn"

record BLSSigner =
  PublicKey :: bytes
  Sign :: "bytes \<Rightarrow> err + bytes"
  VerifySignature :: verify_fn

definition CreateAndSignDepositMessage ::
  "ssz_env \<Rightarrow> ForkData \<Rightarrow> bytes \<Rightarrow> BLSSigner \<Rightarrow> bytes \<Rightarrow> u64 \<Rightarrow> err + DepositMessage \<times> bytes" where
  "CreateAndSignDepositMessage H forkData domainType signer credentials amount =
     bindE (ComputeDomain H forkData domainType) (\<lambda>domain.
     let depositMessage = \<lparr>dm_Pubkey = PublicKey signer, dm_Credentials = credentials,
                           dm_Amount = amount\<rparr> in
     bindE (ComputeSigningRoot H (htr_DepositMessage H depositMessage) domain) (\<lambda>signingRoot.
     bindE (Sign signer signingRoot) (\<lambda>signature. Inr (depositMessage, signature))))"

text \<open>Withdrawals, transactions and deposits as lists (\<open>withdrawal.go\<close>, \<open>transactions.go\<close>).\<close>

definition Withdrawal_Equals :: "Withdrawal \<Rightarrow> Withdrawal \<Rightarrow> bool" where
  "Withdrawal_Equals w other \<longleftrightarrow>
     wd_Index w = wd_Index other \<and> wd_Validator w = wd_Validator other \<and>
     wd_Address w = wd_Address other \<and> wd_Amount w = wd_Amount other"

definition MaxTxsPerPayload :: u64 where "MaxTxsPerPayload = 1048576"
definition constants_MaxDepositsPerBlock :: u64 where "constants_MaxDepositsPerBlock = 16"
definition constants_MaxWithdrawalsPerPayload :: u64 where "constants_MaxWithdrawalsPerPayload = 16"

definition Transactions_HashTreeRoot :: "ssz_env \<Rightarrow> bytes list \<Rightarrow> err + b32" where
  "Transactions_HashTreeRoot H txs =
     bindE (mapE (MerkleizeByteSlice (merkle H)) txs) (\<lambda>roots.
     MerkleizeListComposite (merkle H) Inr roots MaxTxsPerPayload)"

definition Withdrawals_HashTreeRoot :: "ssz_env \<Rightarrow> Withdrawal list \<Rightarrow> err + b32" where
  "Withdrawals_HashTreeRoot H w =
     MerkleizeListComposite (merkle H) (htr_Withdrawal H) w constants_MaxWithdrawalsPerPayload"

definition Deposits_HashTreeRoot :: "ssz_env \<Rightarrow> Deposit list \<Rightarrow> err + b32" where
  "Deposits_HashTreeRoot H d =
     MerkleizeListComposite (merkle H) (htr_Deposit H) d constants_MaxDepositsPerBlock"

text \<open>Blob commitments (\<open>eip4844/kzg_commitment.go\<close>).\<close>

definition BlobCommitmentVersion :: u8 where
  "BlobCommitmentVersion = 0x01"

definition ToVersionedHash :: "ssz_env \<Rightarrow> bytes \<Rightarrow> b32" where
  "ToVersionedHash H c = (Sum256 (merkle H) c)[0 := BlobCommitmentVersion]"

definition ToVersionedHashes :: "ssz_env \<Rightarrow> bytes list \<Rightarrow> b32 list" where
  "ToVersionedHashes H cs = map (ToVersionedHash H) cs"

definition BuildNewPayloadRequest ::
  "ExecutableDataDeneb \<Rightarrow> b32 list \<Rightarrow> b32 \<Rightarrow> bool \<Rightarrow> NewPayloadRequest" where
  "BuildNewPayloadRequest executionPayload versionedHashes parentBeaconBlockRoot optimistic =
     \<lparr>req_ExecutionPayload = executionPayload, req_VersionedHashes = versionedHashes,
      req_ParentBeaconBlockRoot = parentBeaconBlockRoot, req_Optimistic = optimistic\<rparr>"

subsection \<open>The payload wrapper and its caches\<close>

text \<open>
  \<open>ExecutionPayload\<close> keeps its header and its root once they are computed. A wrapper made by
  \<open>GetExecutionPayload\<close> starts with empty caches. The flag is the schedule of the two goroutines.
\<close>

record ExecutionPayload =
  ep_inner :: ExecutableDataDeneb
  ep_header :: "ExecutionPayloadHeaderDeneb option"
  ep_root :: "b32 option"

definition GetExecutionPayload :: "BeaconBlockBodyDeneb \<Rightarrow> ExecutionPayload" where
  "GetExecutionPayload b = \<lparr>ep_inner = bd_ExecutionPayload b, ep_header = None, ep_root = None\<rparr>"

definition header_with_roots ::
  "ExecutableDataDeneb \<Rightarrow> b32 \<Rightarrow> b32 \<Rightarrow> ExecutionPayloadHeaderDeneb" where
  "header_with_roots e txsRoot withdrawalsRoot = \<lparr>
     ph_ParentHash = pl_ParentHash e,
     ph_FeeRecipient = pl_FeeRecipient e,
     ph_StateRoot = pl_StateRoot e,
     ph_ReceiptsRoot = pl_ReceiptsRoot e,
     ph_LogsBloom = pl_LogsBloom e,
     ph_Random = pl_Random e,
     ph_Number = pl_Number e,
     ph_GasLimit = pl_GasLimit e,
     ph_GasUsed = pl_GasUsed e,
     ph_Timestamp = pl_Timestamp e,
     ph_ExtraData = pl_ExtraData e,
     ph_BaseFeePerGas = pl_BaseFeePerGas e,
     ph_BlockHash = pl_BlockHash e,
     ph_TransactionsRoot = txsRoot,
     ph_WithdrawalsRoot = withdrawalsRoot,
     ph_BlobGasUsed = pl_BlobGasUsed e,
     ph_ExcessBlobGas = pl_ExcessBlobGas e\<rparr>"

definition ToHeader :: "ssz_env \<Rightarrow> bool \<Rightarrow> (ExecutionPayload, ExecutionPayloadHeaderDeneb) M" where
  "ToHeader H first e =
     (case ep_header e of
        Some header \<Rightarrow> (Inr header, e)
      | None \<Rightarrow>
          (case errgroup2 first (Transactions_HashTreeRoot H (pl_Transactions (ep_inner e)))
                                (Withdrawals_HashTreeRoot H (pl_Withdrawals (ep_inner e))) of
             Inl er \<Rightarrow> (Inl er, e)
           | Inr (txsRoot, withdrawalsRoot) \<Rightarrow>
               (let header = header_with_roots (ep_inner e) txsRoot withdrawalsRoot
                in (Inr header, e\<lparr>ep_header := Some header\<rparr>))))"

definition ExecutionPayload_HashTreeRoot :: "ssz_env \<Rightarrow> bool \<Rightarrow> (ExecutionPayload, b32) M" where
  "ExecutionPayload_HashTreeRoot H first e =
     (case ep_root e of
        Some root \<Rightarrow> (Inr root, e)
      | None \<Rightarrow>
          (case ep_header e of
             Some header \<Rightarrow> (htr_ExecutionPayloadHeader H header, e)
           | None \<Rightarrow>
               bindM (ToHeader H first) (\<lambda>header e.
                 let e = e\<lparr>ep_header := Some header\<rparr> in
                 case htr_ExecutionPayloadHeader H header of
                   Inl er \<Rightarrow> (Inl er, e)
                 | Inr root \<Rightarrow> (Inr root, e\<lparr>ep_root := Some root\<rparr>)) e))"

definition GetTopLevelRoots :: "ssz_env \<Rightarrow> bool \<Rightarrow> BeaconBlockBodyDeneb \<Rightarrow> err + b32 list" where
  "GetTopLevelRoots H first b =
     bindE (MerkleizeByteSlice (merkle H) (bd_RandaoReveal b)) (\<lambda>l0.
     bindE (case bd_Eth1Data b of None \<Rightarrow> Inl (Panic ''nil pointer dereference'')
                                | Some d \<Rightarrow> htr_Eth1Data H d) (\<lambda>l1.
     bindE (Deposits_HashTreeRoot H (bd_Deposits b)) (\<lambda>l3.
     bindE (fst (ExecutionPayload_HashTreeRoot H first (GetExecutionPayload b))) (\<lambda>l4.
     Inr [l0, l1, bd_Graffiti b, l3, l4, zero32]))))"

definition KZGMerkleIndexDeneb :: u64 where
  "KZGMerkleIndexDeneb = 26"

definition BlockBodyKZGOffset :: "u64 \<Rightarrow> SpecData \<Rightarrow> err + u64" where
  "BlockBodyKZGOffset slot c =
     bindE (ActiveForkVersionForSlot c slot) (\<lambda>v.
     if v = Deneb then Inr (KZGMerkleIndexDeneb * MaxBlobCommitmentsPerBlock c)
     else Inl (Panic ''unsupported fork version''))"

text \<open>Empty containers of a fork (\<open>body.go\<close>, \<open>payload_header.go\<close>): only Deneb exists.\<close>

definition LogsBloomSize :: nat where "LogsBloomSize = 256"
definition ExtraDataSize :: nat where "ExtraDataSize = 32"

definition BeaconBlockBody_Empty :: "u32 \<Rightarrow> err + BeaconBlockBodyDeneb" where
  "BeaconBlockBody_Empty forkVersion =
     (if forkVersion = Deneb
      then Inr \<lparr>bd_RandaoReveal = replicate 96 0, bd_Eth1Data = None, bd_Graffiti = zero32,
        bd_Deposits = [],
        bd_ExecutionPayload = \<lparr>pl_ParentHash = zero32, pl_FeeRecipient = replicate 20 0,
          pl_StateRoot = zero32, pl_ReceiptsRoot = zero32,
          pl_LogsBloom = replicate LogsBloomSize 0, pl_Random = zero32, pl_Number = 0,
          pl_GasLimit = 0, pl_GasUsed = 0, pl_Timestamp = 0,
          pl_ExtraData = replicate ExtraDataSize 0, pl_BaseFeePerGas = zero32,
          pl_BlockHash = zero32, pl_Transactions = [], pl_Withdrawals = [], pl_BlobGasUsed = 0,
          pl_ExcessBlobGas = 0\<rparr>,
        bd_BlobKzgCommitments = []\<rparr>
      else Inl (Panic ''unsupported fork version''))"

definition ExecutionPayloadHeader_Empty :: "u32 \<Rightarrow> err + ExecutionPayloadHeaderDeneb" where
  "ExecutionPayloadHeader_Empty forkVersion =
     (if forkVersion = Deneb
      then Inr \<lparr>ph_ParentHash = zero32, ph_FeeRecipient = replicate 20 0, ph_StateRoot = zero32,
        ph_ReceiptsRoot = zero32, ph_LogsBloom = [], ph_Random = zero32, ph_Number = 0,
        ph_GasLimit = 0, ph_GasUsed = 0, ph_Timestamp = 0, ph_ExtraData = [],
        ph_BaseFeePerGas = zero32, ph_BlockHash = zero32, ph_TransactionsRoot = zero32,
        ph_WithdrawalsRoot = zero32, ph_BlobGasUsed = 0, ph_ExcessBlobGas = 0\<rparr>
      else Inl (Panic ''unknown fork version, cannot create empty ExecutionPayloadHeader''))"

definition ExecutionPayloadHeader_Version :: "ExecutionPayloadHeaderDeneb \<Rightarrow> u32" where
  "ExecutionPayloadHeader_Version d = Deneb"

text \<open>The two length checks of the generated encoder of the payload header.\<close>

definition payload_header_encodable :: "ExecutionPayloadHeaderDeneb \<Rightarrow> bool" where
  "payload_header_encodable e \<longleftrightarrow> length (ph_LogsBloom e) = 256 \<and> \<not> length (ph_ExtraData e) > 32"

definition BeaconState_New ::
  "u32 \<Rightarrow> b32 \<Rightarrow> u64 \<Rightarrow> Fork \<Rightarrow> BeaconBlockHeader \<Rightarrow> b32 list \<Rightarrow> b32 list \<Rightarrow> Eth1Data \<Rightarrow> u64 \<Rightarrow>
   ExecutionPayloadHeaderDeneb \<Rightarrow> Validator list \<Rightarrow> u64 list \<Rightarrow> b32 list \<Rightarrow> u64 \<Rightarrow> u64 \<Rightarrow> u64 list \<Rightarrow>
   u64 \<Rightarrow> err + BeaconState" where
  "BeaconState_New forkVersion genesisValidatorsRoot slot fork latestBlockHeader blockRoots
       stateRoots eth1Data eth1DepositIndex latestExecutionPayloadHeader validators balances
       randaoMixes nextWithdrawalIndex nextWithdrawalValidatorIndex slashings totalSlashing =
     (if forkVersion = Deneb
      then Inr \<lparr>st_GenesisValidatorsRoot = genesisValidatorsRoot, st_Slot = slot, st_Fork = fork,
        st_LatestBlockHeader = latestBlockHeader, st_BlockRoots = blockRoots,
        st_StateRoots = stateRoots, st_Eth1Data = eth1Data, st_Eth1DepositIndex = eth1DepositIndex,
        st_LatestExecutionPayloadHeader = latestExecutionPayloadHeader,
        st_Validators = validators, st_Balances = balances, st_RandaoMixes = randaoMixes,
        st_NextWithdrawalIndex = nextWithdrawalIndex,
        st_NextWithdrawalValidatorIndex = nextWithdrawalValidatorIndex,
        st_Slashings = slashings, st_TotalSlashing = totalSlashing\<rparr>
      else Inl (Newf ''unsupported version''))"

end
