(* ===== verification/BeaconDB.thy ===== *)
theory BeaconDB
  imports Types
begin

section \<open>The beacon store: \<open>mod/storage/pkg/beacondb\<close>\<close>

text \<open>
  \<open>KVStore\<close> is a struct of collections of \<open>cosmossdk.io/collections\<close>, all read and written through
  the context it holds. That library is not part of the repository, so a \<open>KVStore\<close> here is a
  record of collection objects, each a record of the methods the code calls; the type \<open>'c\<close> stands
  for the contents behind the context. The operations of the package follow, file by file.

  What the code relies on is the locale \<open>kv_laws\<close>. It names the contents that a context denotes
  (\<open>kv_view\<close>) and states the documented behaviour of the collections on it: \<open>Get\<close> returns the value
  last set or \<open>ErrNotFound\<close>; iteration runs in the order of the keys; an \<open>IndexedMap\<close> refuses a
  value whose unique index entry belongs to another key; a \<open>Sequence\<close> counts from zero.

  The store \<open>mem_kv\<close> keeps a \<open>kv_view\<close> itself and satisfies the laws. Every operation over a lawful
  store is simulated by the same operation over \<open>mem_kv\<close>, which carries properties over to every
  lawful store.
\<close>

named_theorems mem_ops \<open>the store operations on the store that keeps its view\<close>

subsection \<open>Collections\<close>

record ('c, 'v) Item =
  item_Get :: "'c \<Rightarrow> err + 'v"
  item_Set :: "'v \<Rightarrow> ('c, unit) M"

record ('c, 'v) Map =
  map_Get :: "u64 \<Rightarrow> 'c \<Rightarrow> err + 'v"
  map_Set :: "u64 \<Rightarrow> 'v \<Rightarrow> ('c, unit) M"
  map_Iterate :: "'c \<Rightarrow> err + (u64 \<times> 'v) list"

record 'c Sequence =
  seq_Next :: "('c, u64) M"

text \<open>The payload header item decodes with the fork version that its codec was last given.\<close>

record ('c, 'v) VersionedItem =
  vitem_Get :: "u32 \<Rightarrow> 'c \<Rightarrow> err + 'v"
  vitem_Set :: "'v \<Rightarrow> ('c, unit) M"

text \<open>The indexed map of validators with the indexes of \<open>index/validator.go\<close>.\<close>

record 'c ValidatorsMap =
  vals_Get :: "u64 \<Rightarrow> 'c \<Rightarrow> err + Validator"
  vals_Set :: "u64 \<Rightarrow> Validator \<Rightarrow> ('c, unit) M"
  vals_Remove :: "u64 \<Rightarrow> ('c, unit) M"
  vals_Iterate :: "'c \<Rightarrow> err + (u64 \<times> Validator) list"
  Pubkey_MatchExact :: "bytes \<Rightarrow> 'c \<Rightarrow> err + u64"
  CometBFTAddress_MatchExact :: "bytes \<Rightarrow> 'c \<Rightarrow> err + u64"
  EffectiveBalance_Iterate :: "'c \<Rightarrow> err + u64 list"

record 'c KVStore =
  kv_genesisValidatorsRoot :: "('c, bytes) Item"
  kv_slot :: "('c, u64) Item"
  kv_fork :: "('c, Fork) Item"
  kv_latestBlockHeader :: "('c, BeaconBlockHeader) Item"
  kv_blockRoots :: "('c, bytes) Map"
  kv_stateRoots :: "('c, bytes) Map"
  kv_eth1Data :: "('c, Eth1Data) Item"
  kv_eth1DepositIndex :: "('c, u64) Item"
  kv_latestExecutionPayloadVersion :: "('c, u32) Item"
  kv_latestExecutionPayloadHeader :: "('c, ExecutionPayloadHeaderDeneb) VersionedItem"
  kv_validatorIndex :: "'c Sequence"
  kv_validators :: "'c ValidatorsMap"
  kv_balances :: "('c, u64) Map"
  kv_nextWithdrawalIndex :: "('c, u64) Item"
  kv_nextWithdrawalValidatorIndex :: "('c, u64) Item"
  kv_randaoMix :: "('c, bytes) Map"
  kv_slashings :: "('c, u64) Map"
  kv_totalSlashing :: "('c, u64) Item"

subsection \<open>Operations\<close>

text \<open>\<open>versioning.go\<close> and \<open>fork.go\<close>.\<close>

definition SetGenesisValidatorsRoot :: "'c KVStore \<Rightarrow> b32 \<Rightarrow> ('c, unit) M" where
  "SetGenesisValidatorsRoot kv root = item_Set (kv_genesisValidatorsRoot kv) root"

definition GetGenesisValidatorsRoot :: "'c KVStore \<Rightarrow> ('c, b32) M" where
  "GetGenesisValidatorsRoot kv =
     bindM (reads (item_Get (kv_genesisValidatorsRoot kv))) (\<lambda>bz. liftE (to_array 32 bz))"

definition GetSlot :: "'c KVStore \<Rightarrow> ('c, u64) M" where
  "GetSlot kv = reads (item_Get (kv_slot kv))"

definition SetSlot :: "'c KVStore \<Rightarrow> u64 \<Rightarrow> ('c, unit) M" where
  "SetSlot kv slot = item_Set (kv_slot kv) slot"

definition SetFork :: "'c KVStore \<Rightarrow> Fork \<Rightarrow> ('c, unit) M" where
  "SetFork kv fork = item_Set (kv_fork kv) fork"

definition GetFork :: "'c KVStore \<Rightarrow> ('c, Fork) M" where
  "GetFork kv = reads (item_Get (kv_fork kv))"

text \<open>\<open>history.go\<close>.\<close>

definition UpdateBlockRootAtIndex :: "'c KVStore \<Rightarrow> u64 \<Rightarrow> b32 \<Rightarrow> ('c, unit) M" where
  "UpdateBlockRootAtIndex kv index root = map_Set (kv_blockRoots kv) index root"

definition GetBlockRootAtIndex :: "'c KVStore \<Rightarrow> u64 \<Rightarrow> ('c, b32) M" where
  "GetBlockRootAtIndex kv index =
     bindM (reads (map_Get (kv_blockRoots kv) index)) (\<lambda>bz. liftE (to_array 32 bz))"

definition SetLatestBlockHeader :: "'c KVStore \<Rightarrow> BeaconBlockHeader \<Rightarrow> ('c, unit) M" where
  "SetLatestBlockHeader kv header = item_Set (kv_latestBlockHeader kv) header"

definition GetLatestBlockHeader :: "'c KVStore \<Rightarrow> ('c, BeaconBlockHeader) M" where
  "GetLatestBlockHeader kv = reads (item_Get (kv_latestBlockHeader kv))"

definition UpdateStateRootAtIndex :: "'c KVStore \<Rightarrow> u64 \<Rightarrow> b32 \<Rightarrow> ('c, unit) M" where
  "UpdateStateRootAtIndex kv idx stateRoot = map_Set (kv_stateRoots kv) idx stateRoot"

definition StateRootAtIndex :: "'c KVStore \<Rightarrow> u64 \<Rightarrow> ('c, b32) M" where
  "StateRootAtIndex kv idx =
     bindM (reads (map_Get (kv_stateRoots kv) idx)) (\<lambda>bz. liftE (to_array 32 bz))"

text \<open>\<open>eth1.go\<close>. Both accessors of the payload header give the codec its version first.\<close>

definition GetLatestExecutionPayloadHeader :: "'c KVStore \<Rightarrow> ('c, ExecutionPayloadHeaderDeneb) M" where
  "GetLatestExecutionPayloadHeader kv =
     bindM (reads (item_Get (kv_latestExecutionPayloadVersion kv))) (\<lambda>forkVersion.
     reads (vitem_Get (kv_latestExecutionPayloadHeader kv) forkVersion))"

definition SetLatestExecutionPayloadHeader ::
  "'c KVStore \<Rightarrow> ExecutionPayloadHeaderDeneb \<Rightarrow> ('c, unit) M" where
  "SetLatestExecutionPayloadHeader kv payloadHeader =
     bindM (item_Set (kv_latestExecutionPayloadVersion kv)
              (ExecutionPayloadHeader_Version payloadHeader)) (\<lambda>_.
     vitem_Set (kv_latestExecutionPayloadHeader kv) payloadHeader)"

definition GetEth1DepositIndex :: "'c KVStore \<Rightarrow> ('c, u64) M" where
  "GetEth1DepositIndex kv = reads (item_Get (kv_eth1DepositIndex kv))"

definition SetEth1DepositIndex :: "'c KVStore \<Rightarrow> u64 \<Rightarrow> ('c, unit) M" where
  "SetEth1DepositIndex kv index = item_Set (kv_eth1DepositIndex kv) index"

definition GetEth1Data :: "'c KVStore \<Rightarrow> ('c, Eth1Data) M" where
  "GetEth1Data kv = reads (item_Get (kv_eth1Data kv))"

definition SetEth1Data :: "'c KVStore \<Rightarrow> Eth1Data \<Rightarrow> ('c, unit) M" where
  "SetEth1Data kv data = item_Set (kv_eth1Data kv) data"

text \<open>\<open>randao.go\<close> and \<open>withdrawals.go\<close>.\<close>

definition UpdateRandaoMixAtIndex :: "'c KVStore \<Rightarrow> u64 \<Rightarrow> b32 \<Rightarrow> ('c, unit) M" where
  "UpdateRandaoMixAtIndex kv index mix = map_Set (kv_randaoMix kv) index mix"

definition GetRandaoMixAtIndex :: "'c KVStore \<Rightarrow> u64 \<Rightarrow> ('c, b32) M" where
  "GetRandaoMixAtIndex kv index =
     bindM (reads (map_Get (kv_randaoMix kv) index)) (\<lambda>bz. liftE (to_array 32 bz))"

definition GetNextWithdrawalIndex :: "'c KVStore \<Rightarrow> ('c, u64) M" where
  "GetNextWithdrawalIndex kv = reads (item_Get (kv_nextWithdrawalIndex kv))"

definition SetNextWithdrawalIndex :: "'c KVStore \<Rightarrow> u64 \<Rightarrow> ('c, unit) M" where
  "SetNextWithdrawalIndex kv index = item_Set (kv_nextWithdrawalIndex kv) index"

definition GetNextWithdrawalValidatorIndex :: "'c KVStore \<Rightarrow> ('c, u64) M" where
  "GetNextWithdrawalValidatorIndex kv = reads (item_Get (kv_nextWithdrawalValidatorIndex kv))"

definition SetNextWithdrawalValidatorIndex :: "'c KVStore \<Rightarrow> u64 \<Rightarrow> ('c, unit) M" where
  "SetNextWithdrawalValidatorIndex kv index = item_Set (kv_nextWithdrawalValidatorIndex kv) index"

text \<open>\<open>registry.go\<close>.\<close>

definition AddValidator :: "'c KVStore \<Rightarrow> Validator \<Rightarrow> ('c, unit) M" where
  "AddValidator kv val =
     bindM (seq_Next (kv_validatorIndex kv)) (\<lambda>idx.
     bindM (vals_Set (kv_validators kv) idx val) (\<lambda>_.
     map_Set (kv_balances kv) idx (val_EffectiveBalance val)))"

definition UpdateValidatorAtIndex :: "'c KVStore \<Rightarrow> u64 \<Rightarrow> Validator \<Rightarrow> ('c, unit) M" where
  "UpdateValidatorAtIndex kv index val = vals_Set (kv_validators kv) index val"

definition RemoveValidatorAtIndex :: "'c KVStore \<Rightarrow> u64 \<Rightarrow> ('c, unit) M" where
  "RemoveValidatorAtIndex kv idx = vals_Remove (kv_validators kv) idx"

definition ValidatorIndexByPubkey :: "'c KVStore \<Rightarrow> bytes \<Rightarrow> ('c, u64) M" where
  "ValidatorIndexByPubkey kv pubkey = reads (Pubkey_MatchExact (kv_validators kv) pubkey)"

definition ValidatorIndexByCometBFTAddress :: "'c KVStore \<Rightarrow> bytes \<Rightarrow> ('c, u64) M" where
  "ValidatorIndexByCometBFTAddress kv cometBFTAddress =
     reads (CometBFTAddress_MatchExact (kv_validators kv) cometBFTAddress)"

definition ValidatorByIndex :: "'c KVStore \<Rightarrow> u64 \<Rightarrow> ('c, Validator) M" where
  "ValidatorByIndex kv index = reads (vals_Get (kv_validators kv) index)"

definition GetValidators :: "'c KVStore \<Rightarrow> ('c, Validator list) M" where
  "GetValidators kv =
     bindM (reads (vals_Iterate (kv_validators kv))) (\<lambda>iter. ret (map snd iter))"

definition GetTotalValidators :: "'c KVStore \<Rightarrow> ('c, u64) M" where
  "GetTotalValidators kv =
     bindM (GetValidators kv) (\<lambda>validators. ret (of_nat (length validators)))"

definition GetValidatorsByEffectiveBalance :: "'c KVStore \<Rightarrow> ('c, Validator list) M" where
  "GetValidatorsByEffectiveBalance kv =
     bindM (reads (EffectiveBalance_Iterate (kv_validators kv))) (\<lambda>iter.
     mapM (\<lambda>idx. reads (vals_Get (kv_validators kv) idx)) iter)"

definition GetBalance :: "'c KVStore \<Rightarrow> u64 \<Rightarrow> ('c, u64) M" where
  "GetBalance kv idx = reads (map_Get (kv_balances kv) idx)"

definition SetBalance :: "'c KVStore \<Rightarrow> u64 \<Rightarrow> u64 \<Rightarrow> ('c, unit) M" where
  "SetBalance kv idx balance = map_Set (kv_balances kv) idx balance"

definition GetBalances :: "'c KVStore \<Rightarrow> ('c, u64 list) M" where
  "GetBalances kv = bindM (reads (map_Iterate (kv_balances kv))) (\<lambda>iter. ret (map snd iter))"

text \<open>
  The return statement of \<open>GetTotalActiveBalances\<close> lists the captured variable before the call of
  \<open>indexes.ScanValues\<close> that adds to it, and Go does not fix which of the two is evaluated first;
  \<open>early\<close> tells whether the variable is read before the call.
\<close>

definition GetTotalActiveBalances :: "'c KVStore \<Rightarrow> bool \<Rightarrow> u64 \<Rightarrow> ('c, u64) M" where
  "GetTotalActiveBalances kv early slotsPerEpoch =
     bindM (reads (EffectiveBalance_Iterate (kv_validators kv))) (\<lambda>iter.
     bindM (reads (item_Get (kv_slot kv))) (\<lambda>slot.
     bindM (liftE (div_u64 slot slotsPerEpoch)) (\<lambda>epoch.
     bindM (mapM (\<lambda>idx. reads (vals_Get (kv_validators kv) idx)) iter) (\<lambda>vals.
     ret (if early then 0
          else sum_list (map val_EffectiveBalance (filter (\<lambda>v. IsActive v epoch) vals)))))))"

text \<open>\<open>slashing.go\<close>.\<close>

definition GetSlashings :: "'c KVStore \<Rightarrow> ('c, u64 list) M" where
  "GetSlashings kv = bindM (reads (map_Iterate (kv_slashings kv))) (\<lambda>iter. ret (map snd iter))"

definition zero_if_not_found :: "err + u64 \<Rightarrow> err + u64" where
  "zero_if_not_found r = (case r of Inl ErrNotFound \<Rightarrow> Inr 0 | _ \<Rightarrow> r)"

definition GetSlashingAtIndex :: "'c KVStore \<Rightarrow> u64 \<Rightarrow> ('c, u64) M" where
  "GetSlashingAtIndex kv index =
     reads (\<lambda>c. zero_if_not_found (map_Get (kv_slashings kv) index c))"

definition SetSlashingAtIndex :: "'c KVStore \<Rightarrow> u64 \<Rightarrow> u64 \<Rightarrow> ('c, unit) M" where
  "SetSlashingAtIndex kv index amount = map_Set (kv_slashings kv) index amount"

definition GetTotalSlashing :: "'c KVStore \<Rightarrow> ('c, u64) M" where
  "GetTotalSlashing kv = reads (\<lambda>c. zero_if_not_found (item_Get (kv_totalSlashing kv) c))"

definition SetTotalSlashing :: "'c KVStore \<Rightarrow> u64 \<Rightarrow> ('c, unit) M" where
  "SetTotalSlashing kv amount = item_Set (kv_totalSlashing kv) amount"

subsection \<open>What a context denotes\<close>

text \<open>The entries of a map, in the order of their keys, and the insertion that keeps it.\<close>

type_synonym 'v entries = "(u64 \<times> 'v) list"

fun put :: "u64 \<Rightarrow> 'v \<Rightarrow> 'v entries \<Rightarrow> 'v entries" where
  "put k v [] = [(k, v)]"
| "put k v ((k', v') # m) =
     (if k < k' then (k, v) # (k', v') # m
      else if k = k' then (k, v) # m
      else (k', v') # put k v m)"

definition ordered :: "'v entries \<Rightarrow> bool" where
  "ordered m \<longleftrightarrow> sorted_wrt (<) (map fst m)"

lemma map_of_put [simp]: "map_of (put k v m) = (map_of m)(k \<mapsto> v)"
  by (induction k v m rule: put.induct) (auto simp: fun_eq_iff)

lemma keys_put [simp]: "fst ` set (put k v m) = insert k (fst ` set m)"
  by (induction k v m rule: put.induct) auto

lemma ordered_put [intro]: "ordered m \<Longrightarrow> ordered (put k v m)"
proof (induction k v m rule: put.induct)
  case (2 k v k' v' m)
  show ?case
  proof (cases "k' < k")
    case True
    with 2 have "ordered (put k v m)" by (auto simp: ordered_def)
    moreover have "\<forall>x \<in> fst ` set (put k v m). k' < x"
      using True 2(2) by (auto simp: ordered_def)
    ultimately show ?thesis using True by (auto simp: ordered_def)
  next
    case False
    with 2(2) show ?thesis by (auto simp: ordered_def)
  qed
qed (simp add: ordered_def)

lemma ordered_distinct: "ordered m \<Longrightarrow> distinct (map fst m)"
  by (simp add: ordered_def strict_sorted_iff)

record kv_view =
  v_genesisValidatorsRoot :: "bytes option"
  v_slot :: "u64 option"
  v_fork :: "Fork option"
  v_latestBlockHeader :: "BeaconBlockHeader option"
  v_blockRoots :: "bytes entries"
  v_stateRoots :: "bytes entries"
  v_eth1Data :: "Eth1Data option"
  v_eth1DepositIndex :: "u64 option"
  v_latestExecutionPayloadVersion :: "u32 option"
  v_latestExecutionPayloadHeader :: "ExecutionPayloadHeaderDeneb option"
  v_validatorIndex :: u64
  v_validators :: "Validator entries"
  v_balances :: "u64 entries"
  v_nextWithdrawalIndex :: "u64 option"
  v_nextWithdrawalValidatorIndex :: "u64 option"
  v_randaoMix :: "bytes entries"
  v_slashings :: "u64 entries"
  v_totalSlashing :: "u64 option"

text \<open>The contents of a fresh context.\<close>

definition empty_view :: kv_view where
  "empty_view = \<lparr>v_genesisValidatorsRoot = None,
     v_slot = None,
     v_fork = None,
     v_latestBlockHeader = None,
     v_blockRoots = [],
     v_stateRoots = [],
     v_eth1Data = None,
     v_eth1DepositIndex = None,
     v_latestExecutionPayloadVersion = None,
     v_latestExecutionPayloadHeader = None,
     v_validatorIndex = 0,
     v_validators = [],
     v_balances = [],
     v_nextWithdrawalIndex = None,
     v_nextWithdrawalValidatorIndex = None,
     v_randaoMix = [],
     v_slashings = [],
     v_totalSlashing = None\<rparr>"

definition conflicts :: "(bytes \<Rightarrow> bytes) \<Rightarrow> Validator entries \<Rightarrow> u64 \<Rightarrow> Validator \<Rightarrow> bool" where
  "conflicts addr vs idx val \<longleftrightarrow>
     list_ex (\<lambda>(k, v). k \<noteq> idx \<and>
       (val_Pubkey v = val_Pubkey val \<or> addr (val_Pubkey v) = addr (val_Pubkey val))) vs"

definition by_pubkey :: "Validator entries \<Rightarrow> bytes \<Rightarrow> u64 option" where
  "by_pubkey vs = map_of (map (\<lambda>(k, v). (val_Pubkey v, k)) vs)"

definition by_address :: "(bytes \<Rightarrow> bytes) \<Rightarrow> Validator entries \<Rightarrow> bytes \<Rightarrow> u64 option" where
  "by_address addr vs = map_of (map (\<lambda>(k, v). (addr (val_Pubkey v), k)) vs)"

definition by_effective_balance :: "Validator entries \<Rightarrow> Validator entries" where
  "by_effective_balance vs = sort_key (\<lambda>(k, v). val_EffectiveBalance v) vs"

subsection \<open>The store that keeps its view\<close>

definition mem_item ::
  "('w \<Rightarrow> 'v option) \<Rightarrow> (('v option \<Rightarrow> 'v option) \<Rightarrow> 'w \<Rightarrow> 'w) \<Rightarrow> ('w, 'v) Item" where
  "mem_item sel upd = \<lparr>
     item_Get = (\<lambda>w. from_option ErrNotFound (sel w)),
     item_Set = (\<lambda>v w. (Inr (), upd (\<lambda>_. Some v) w))\<rparr>"

definition mem_map ::
  "('w \<Rightarrow> 'v entries) \<Rightarrow> (('v entries \<Rightarrow> 'v entries) \<Rightarrow> 'w \<Rightarrow> 'w) \<Rightarrow> ('w, 'v) Map" where
  "mem_map sel upd = \<lparr>
     map_Get = (\<lambda>k w. from_option ErrNotFound (map_of (sel w) k)),
     map_Set = (\<lambda>k v w. (Inr (), upd (put k v) w)),
     map_Iterate = (\<lambda>w. Inr (sel w))\<rparr>"

definition mem_sequence :: "kv_view Sequence" where
  "mem_sequence = \<lparr>
     seq_Next = (\<lambda>w. (Inr (v_validatorIndex w), w\<lparr>v_validatorIndex := v_validatorIndex w + 1\<rparr>))\<rparr>"

definition mem_payload_header :: "(kv_view, ExecutionPayloadHeaderDeneb) VersionedItem" where
  "mem_payload_header = \<lparr>
     vitem_Get = (\<lambda>version w.
       bindE (from_option ErrNotFound (v_latestExecutionPayloadHeader w)) (\<lambda>h.
       bindE (ExecutionPayloadHeader_Empty version) (\<lambda>_. Inr h))),
     vitem_Set = (\<lambda>h w.
       if payload_header_encodable h
       then (Inr (), w\<lparr>v_latestExecutionPayloadHeader := Some h\<rparr>) else (Inl ErrEncoding, w))\<rparr>"

definition mem_validators :: "(bytes \<Rightarrow> bytes) \<Rightarrow> kv_view ValidatorsMap" where
  "mem_validators addr = \<lparr>
     vals_Get = (\<lambda>k w. from_option ErrNotFound (map_of (v_validators w) k)),
     vals_Set = (\<lambda>k v w.
       if conflicts addr (v_validators w) k v then (Inl ErrConflict, w)
       else (Inr (), w\<lparr>v_validators := put k v (v_validators w)\<rparr>)),
     vals_Remove = (\<lambda>k w.
       if map_of (v_validators w) k = None then (Inl ErrNotFound, w)
       else (Inr (), w\<lparr>v_validators := filter (\<lambda>e. fst e \<noteq> k) (v_validators w)\<rparr>)),
     vals_Iterate = (\<lambda>w. Inr (v_validators w)),
     Pubkey_MatchExact = (\<lambda>p w. from_option ErrNotFound (by_pubkey (v_validators w) p)),
     CometBFTAddress_MatchExact = (\<lambda>a w. from_option ErrNotFound (by_address addr (v_validators w) a)),
     EffectiveBalance_Iterate = (\<lambda>w. Inr (map fst (by_effective_balance (v_validators w))))\<rparr>"

definition mem_kv :: "(bytes \<Rightarrow> bytes) \<Rightarrow> kv_view KVStore" where
  "mem_kv addr = \<lparr>
     kv_genesisValidatorsRoot = mem_item v_genesisValidatorsRoot v_genesisValidatorsRoot_update,
     kv_slot = mem_item v_slot v_slot_update,
     kv_fork = mem_item v_fork v_fork_update,
     kv_latestBlockHeader = mem_item v_latestBlockHeader v_latestBlockHeader_update,
     kv_blockRoots = mem_map v_blockRoots v_blockRoots_update,
     kv_stateRoots = mem_map v_stateRoots v_stateRoots_update,
     kv_eth1Data = mem_item v_eth1Data v_eth1Data_update,
     kv_eth1DepositIndex = mem_item v_eth1DepositIndex v_eth1DepositIndex_update,
     kv_latestExecutionPayloadVersion = mem_item v_latestExecutionPayloadVersion v_latestExecutionPayloadVersion_update,
     kv_latestExecutionPayloadHeader = mem_payload_header,
     kv_validatorIndex = mem_sequence,
     kv_validators = mem_validators addr,
     kv_balances = mem_map v_balances v_balances_update,
     kv_nextWithdrawalIndex = mem_item v_nextWithdrawalIndex v_nextWithdrawalIndex_update,
     kv_nextWithdrawalValidatorIndex = mem_item v_nextWithdrawalValidatorIndex v_nextWithdrawalValidatorIndex_update,
     kv_randaoMix = mem_map v_randaoMix v_randaoMix_update,
     kv_slashings = mem_map v_slashings v_slashings_update,
     kv_totalSlashing = mem_item v_totalSlashing v_totalSlashing_update\<rparr>"

subsection \<open>The laws\<close>

definition item_laws where
  "item_laws view sel upd it \<longleftrightarrow>
     (\<forall>c. item_Get it c = from_option ErrNotFound (sel (view c))) \<and>
     (\<forall>v c. \<exists>c'. item_Set it v c = (Inr (), c') \<and> view c' = upd (\<lambda>_. Some v) (view c))"

definition map_laws where
  "map_laws view sel upd m \<longleftrightarrow>
     (\<forall>k c. map_Get m k c = from_option ErrNotFound (map_of (sel (view c)) k)) \<and>
     (\<forall>k v c. \<exists>c'. map_Set m k v c = (Inr (), c') \<and> view c' = upd (put k v) (view c)) \<and>
     (\<forall>c. map_Iterate m c = Inr (sel (view c)))"

definition sequence_laws where
  "sequence_laws view sq \<longleftrightarrow>
     (\<forall>c. \<exists>c'. seq_Next sq c = (Inr (v_validatorIndex (view c)), c') \<and>
        view c' = (view c)\<lparr>v_validatorIndex := v_validatorIndex (view c) + 1\<rparr>)"

definition payload_header_laws where
  "payload_header_laws view it \<longleftrightarrow>
     (\<forall>n c. vitem_Get it n c =
        bindE (from_option ErrNotFound (v_latestExecutionPayloadHeader (view c))) (\<lambda>h.
        bindE (ExecutionPayloadHeader_Empty n) (\<lambda>_. Inr h))) \<and>
     (\<forall>h c. \<exists>c'. if payload_header_encodable h
        then vitem_Set it h c = (Inr (), c') \<and>
             view c' = (view c)\<lparr>v_latestExecutionPayloadHeader := Some h\<rparr>
        else vitem_Set it h c = (Inl ErrEncoding, c'))"

definition validators_laws where
  "validators_laws view addr vm \<longleftrightarrow>
     (\<forall>k c. vals_Get vm k c = from_option ErrNotFound (map_of (v_validators (view c)) k)) \<and>
     (\<forall>k v c. \<exists>c'. if conflicts addr (v_validators (view c)) k v
        then vals_Set vm k v c = (Inl ErrConflict, c')
        else vals_Set vm k v c = (Inr (), c') \<and>
             view c' = (view c)\<lparr>v_validators := put k v (v_validators (view c))\<rparr>) \<and>
     (\<forall>k c. \<exists>c'. if map_of (v_validators (view c)) k = None
        then vals_Remove vm k c = (Inl ErrNotFound, c')
        else vals_Remove vm k c = (Inr (), c') \<and>
             view c' = (view c)\<lparr>v_validators := filter (\<lambda>e. fst e \<noteq> k) (v_validators (view c))\<rparr>) \<and>
     (\<forall>c. vals_Iterate vm c = Inr (v_validators (view c))) \<and>
     (\<forall>p c. Pubkey_MatchExact vm p c = from_option ErrNotFound (by_pubkey (v_validators (view c)) p)) \<and>
     (\<forall>a c. CometBFTAddress_MatchExact vm a c =
        from_option ErrNotFound (by_address addr (v_validators (view c)) a)) \<and>
     (\<forall>c. EffectiveBalance_Iterate vm c =
        Inr (map fst (by_effective_balance (v_validators (view c)))))"

locale kv_laws =
  fixes kv :: "'c KVStore" and view :: "'c \<Rightarrow> kv_view" and addr :: "bytes \<Rightarrow> bytes"
  assumes genesisValidatorsRoot_law: "item_laws view v_genesisValidatorsRoot v_genesisValidatorsRoot_update (kv_genesisValidatorsRoot kv)"
    and slot_law: "item_laws view v_slot v_slot_update (kv_slot kv)"
    and fork_law: "item_laws view v_fork v_fork_update (kv_fork kv)"
    and latestBlockHeader_law: "item_laws view v_latestBlockHeader v_latestBlockHeader_update (kv_latestBlockHeader kv)"
    and blockRoots_law: "map_laws view v_blockRoots v_blockRoots_update (kv_blockRoots kv)"
    and stateRoots_law: "map_laws view v_stateRoots v_stateRoots_update (kv_stateRoots kv)"
    and eth1Data_law: "item_laws view v_eth1Data v_eth1Data_update (kv_eth1Data kv)"
    and eth1DepositIndex_law: "item_laws view v_eth1DepositIndex v_eth1DepositIndex_update (kv_eth1DepositIndex kv)"
    and latestExecutionPayloadVersion_law: "item_laws view v_latestExecutionPayloadVersion v_latestExecutionPayloadVersion_update (kv_latestExecutionPayloadVersion kv)"
    and latestExecutionPayloadHeader_law: "payload_header_laws view (kv_latestExecutionPayloadHeader kv)"
    and validatorIndex_law: "sequence_laws view (kv_validatorIndex kv)"
    and validators_law: "validators_laws view addr (kv_validators kv)"
    and balances_law: "map_laws view v_balances v_balances_update (kv_balances kv)"
    and nextWithdrawalIndex_law: "item_laws view v_nextWithdrawalIndex v_nextWithdrawalIndex_update (kv_nextWithdrawalIndex kv)"
    and nextWithdrawalValidatorIndex_law: "item_laws view v_nextWithdrawalValidatorIndex v_nextWithdrawalValidatorIndex_update (kv_nextWithdrawalValidatorIndex kv)"
    and randaoMix_law: "map_laws view v_randaoMix v_randaoMix_update (kv_randaoMix kv)"
    and slashings_law: "map_laws view v_slashings v_slashings_update (kv_slashings kv)"
    and totalSlashing_law: "item_laws view v_totalSlashing v_totalSlashing_update (kv_totalSlashing kv)"

lemma mem_item_laws: "item_laws (\<lambda>w. w) sel upd (mem_item sel upd)"
  by (simp add: item_laws_def mem_item_def)

lemma mem_map_laws: "map_laws (\<lambda>w. w) sel upd (mem_map sel upd)"
  by (simp add: map_laws_def mem_map_def)

lemma mem_sequence_laws: "sequence_laws (\<lambda>w. w) mem_sequence"
  by (simp add: sequence_laws_def mem_sequence_def)

lemma mem_payload_header_laws: "payload_header_laws (\<lambda>w. w) mem_payload_header"
  by (auto simp: payload_header_laws_def mem_payload_header_def)

lemma mem_validators_laws: "validators_laws (\<lambda>w. w) addr (mem_validators addr)"
  by (auto simp: validators_laws_def mem_validators_def)

lemmas mem_laws = mem_item_laws mem_map_laws mem_sequence_laws mem_payload_header_laws
  mem_validators_laws

interpretation mem: kv_laws "mem_kv addr" "\<lambda>w. w" addr for addr
  by unfold_locales (simp_all add: mem_kv_def mem_laws)

subsection \<open>Simulation by the store that keeps its view\<close>

lemma item_sim:
  assumes "item_laws view sel upd it"
  shows "simulates view (reads (item_Get it)) (reads (item_Get (mem_item sel upd)))"
    and "simulates view (item_Set it v) (item_Set (mem_item sel upd) v)"
  using assms by (force simp: item_laws_def mem_item_def simulates_def split: sum.splits)+

lemma map_sim:
  assumes "map_laws view sel upd m"
  shows "simulates view (reads (map_Get m k)) (reads (map_Get (mem_map sel upd) k))"
    and "simulates view (map_Set m k v) (map_Set (mem_map sel upd) k v)"
    and "simulates view (reads (map_Iterate m)) (reads (map_Iterate (mem_map sel upd)))"
  using assms by (force simp: map_laws_def mem_map_def simulates_def split: sum.splits)+

lemma sequence_sim:
  "sequence_laws view sq \<Longrightarrow> simulates view (seq_Next sq) (seq_Next mem_sequence)"
  by (auto simp: sequence_laws_def mem_sequence_def simulates_def)

lemma payload_header_sim:
  assumes "payload_header_laws view it"
  shows "simulates view (reads (vitem_Get it n)) (reads (vitem_Get mem_payload_header n))"
    and "simulates view (vitem_Set it h) (vitem_Set mem_payload_header h)"
proof -
  show "simulates view (reads (vitem_Get it n)) (reads (vitem_Get mem_payload_header n))"
    using assms by (intro simulates_reads) (simp add: payload_header_laws_def mem_payload_header_def)
  have "\<forall>c. \<exists>c'. if payload_header_encodable h
      then vitem_Set it h c = (Inr (), c') \<and>
           view c' = (view c)\<lparr>v_latestExecutionPayloadHeader := Some h\<rparr>
      else vitem_Set it h c = (Inl ErrEncoding, c')"
    using assms by (simp add: payload_header_laws_def)
  then show "simulates view (vitem_Set it h) (vitem_Set mem_payload_header h)"
    by (cases "payload_header_encodable h") (simp_all add: mem_payload_header_def simulates_def)
qed

lemma validators_sim:
  assumes "validators_laws view addr vm"
  shows "simulates view (reads (vals_Get vm k)) (reads (vals_Get (mem_validators addr) k))"
    and "simulates view (vals_Set vm k v) (vals_Set (mem_validators addr) k v)"
    and "simulates view (vals_Remove vm k) (vals_Remove (mem_validators addr) k)"
    and "simulates view (reads (vals_Iterate vm)) (reads (vals_Iterate (mem_validators addr)))"
    and "simulates view (reads (Pubkey_MatchExact vm p)) (reads (Pubkey_MatchExact (mem_validators addr) p))"
    and "simulates view (reads (CometBFTAddress_MatchExact vm p))
      (reads (CometBFTAddress_MatchExact (mem_validators addr) p))"
    and "simulates view (reads (EffectiveBalance_Iterate vm))
      (reads (EffectiveBalance_Iterate (mem_validators addr)))"
proof -
  note L = assms [unfolded validators_laws_def]
  show "simulates view (vals_Set vm k v) (vals_Set (mem_validators addr) k v)"
  proof (rule simulatesI)
    fix c e w assume "vals_Set (mem_validators addr) k v (view c) = (Inl e, w)"
    with L [THEN conjunct2, THEN conjunct1, rule_format, of c k v]
    show "\<exists>c'. vals_Set vm k v c = (Inl e, c')"
      by (auto simp: mem_validators_def split: if_splits)
  next
    fix c a w assume "vals_Set (mem_validators addr) k v (view c) = (Inr a, w)"
    with L [THEN conjunct2, THEN conjunct1, rule_format, of c k v]
    show "\<exists>c'. vals_Set vm k v c = (Inr a, c') \<and> view c' = w"
      by (auto simp: mem_validators_def split: if_splits)
  qed
  show "simulates view (vals_Remove vm k) (vals_Remove (mem_validators addr) k)"
  proof (rule simulatesI)
    fix c e w assume "vals_Remove (mem_validators addr) k (view c) = (Inl e, w)"
    with L [THEN conjunct2, THEN conjunct2, THEN conjunct1, rule_format, of c k]
    show "\<exists>c'. vals_Remove vm k c = (Inl e, c')"
      by (auto simp: mem_validators_def split: if_splits)
  next
    fix c a w assume "vals_Remove (mem_validators addr) k (view c) = (Inr a, w)"
    with L [THEN conjunct2, THEN conjunct2, THEN conjunct1, rule_format, of c k]
    show "\<exists>c'. vals_Remove vm k c = (Inr a, c') \<and> view c' = w"
      by (auto simp: mem_validators_def split: if_splits)
  qed
qed (intro simulates_reads; simp add: mem_validators_def assms [unfolded validators_laws_def])+

context kv_laws
begin

lemmas collection_sims =
  item_sim [OF genesisValidatorsRoot_law]
  item_sim [OF slot_law]
  item_sim [OF fork_law]
  item_sim [OF latestBlockHeader_law]
  item_sim [OF eth1Data_law]
  item_sim [OF eth1DepositIndex_law]
  item_sim [OF latestExecutionPayloadVersion_law]
  item_sim [OF nextWithdrawalIndex_law]
  item_sim [OF nextWithdrawalValidatorIndex_law]
  item_sim [OF totalSlashing_law]
  map_sim [OF blockRoots_law]
  map_sim [OF stateRoots_law]
  map_sim [OF balances_law]
  map_sim [OF randaoMix_law]
  map_sim [OF slashings_law]
  sequence_sim [OF validatorIndex_law]
  payload_header_sim [OF latestExecutionPayloadHeader_law]
  validators_sim [OF validators_law]

lemma zero_if_not_found_sim:
  "simulates view (reads f) (reads f') \<Longrightarrow>
   simulates view (reads (\<lambda>c. zero_if_not_found (f c))) (reads (\<lambda>c. zero_if_not_found (f' c)))"
proof (rule simulates_reads)
  assume "simulates view (reads f) (reads f')"
  then show "zero_if_not_found (f c) = zero_if_not_found (f' (view c))" for c
    using simulates_fst [of view "reads f" "reads f'" c] by simp
qed

lemma store_sims:
  shows "simulates view (SetGenesisValidatorsRoot kv root) (SetGenesisValidatorsRoot (mem_kv addr) root)"
    and "simulates view (GetGenesisValidatorsRoot kv) (GetGenesisValidatorsRoot (mem_kv addr))"
    and "simulates view (GetSlot kv) (GetSlot (mem_kv addr))"
    and "simulates view (SetSlot kv slot) (SetSlot (mem_kv addr) slot)"
    and "simulates view (SetFork kv fork) (SetFork (mem_kv addr) fork)"
    and "simulates view (GetFork kv) (GetFork (mem_kv addr))"
    and "simulates view (UpdateBlockRootAtIndex kv index root) (UpdateBlockRootAtIndex (mem_kv addr) index root)"
    and "simulates view (GetBlockRootAtIndex kv index) (GetBlockRootAtIndex (mem_kv addr) index)"
    and "simulates view (SetLatestBlockHeader kv header) (SetLatestBlockHeader (mem_kv addr) header)"
    and "simulates view (GetLatestBlockHeader kv) (GetLatestBlockHeader (mem_kv addr))"
    and "simulates view (UpdateStateRootAtIndex kv idx stateRoot) (UpdateStateRootAtIndex (mem_kv addr) idx stateRoot)"
    and "simulates view (StateRootAtIndex kv idx) (StateRootAtIndex (mem_kv addr) idx)"
    and "simulates view (GetLatestExecutionPayloadHeader kv) (GetLatestExecutionPayloadHeader (mem_kv addr))"
    and "simulates view (SetLatestExecutionPayloadHeader kv payloadHeader) (SetLatestExecutionPayloadHeader (mem_kv addr) payloadHeader)"
    and "simulates view (GetEth1DepositIndex kv) (GetEth1DepositIndex (mem_kv addr))"
    and "simulates view (SetEth1DepositIndex kv index) (SetEth1DepositIndex (mem_kv addr) index)"
    and "simulates view (GetEth1Data kv) (GetEth1Data (mem_kv addr))"
    and "simulates view (SetEth1Data kv data) (SetEth1Data (mem_kv addr) data)"
    and "simulates view (UpdateRandaoMixAtIndex kv index mix) (UpdateRandaoMixAtIndex (mem_kv addr) index mix)"
    and "simulates view (GetRandaoMixAtIndex kv index) (GetRandaoMixAtIndex (mem_kv addr) index)"
    and "simulates view (GetNextWithdrawalIndex kv) (GetNextWithdrawalIndex (mem_kv addr))"
    and "simulates view (SetNextWithdrawalIndex kv index) (SetNextWithdrawalIndex (mem_kv addr) index)"
    and "simulates view (GetNextWithdrawalValidatorIndex kv) (GetNextWithdrawalValidatorIndex (mem_kv addr))"
    and "simulates view (SetNextWithdrawalValidatorIndex kv index) (SetNextWithdrawalValidatorIndex (mem_kv addr) index)"
    and "simulates view (AddValidator kv val) (AddValidator (mem_kv addr) val)"
    and "simulates view (UpdateValidatorAtIndex kv index val) (UpdateValidatorAtIndex (mem_kv addr) index val)"
    and "simulates view (RemoveValidatorAtIndex kv idx) (RemoveValidatorAtIndex (mem_kv addr) idx)"
    and "simulates view (ValidatorIndexByPubkey kv pubkey) (ValidatorIndexByPubkey (mem_kv addr) pubkey)"
    and "simulates view (ValidatorIndexByCometBFTAddress kv cometBFTAddress) (ValidatorIndexByCometBFTAddress (mem_kv addr) cometBFTAddress)"
    and "simulates view (ValidatorByIndex kv index) (ValidatorByIndex (mem_kv addr) index)"
    and "simulates view (GetValidators kv) (GetValidators (mem_kv addr))"
    and "simulates view (GetTotalValidators kv) (GetTotalValidators (mem_kv addr))"
    and "simulates view (GetValidatorsByEffectiveBalance kv) (GetValidatorsByEffectiveBalance (mem_kv addr))"
    and "simulates view (GetBalance kv idx) (GetBalance (mem_kv addr) idx)"
    and "simulates view (SetBalance kv idx balance) (SetBalance (mem_kv addr) idx balance)"
    and "simulates view (GetBalances kv) (GetBalances (mem_kv addr))"
    and "simulates view (GetTotalActiveBalances kv early slotsPerEpoch) (GetTotalActiveBalances (mem_kv addr) early slotsPerEpoch)"
    and "simulates view (GetSlashings kv) (GetSlashings (mem_kv addr))"
    and "simulates view (GetSlashingAtIndex kv index) (GetSlashingAtIndex (mem_kv addr) index)"
    and "simulates view (SetSlashingAtIndex kv index amount) (SetSlashingAtIndex (mem_kv addr) index amount)"
    and "simulates view (GetTotalSlashing kv) (GetTotalSlashing (mem_kv addr))"
    and "simulates view (SetTotalSlashing kv amount) (SetTotalSlashing (mem_kv addr) amount)"
  unfolding SetGenesisValidatorsRoot_def GetGenesisValidatorsRoot_def GetSlot_def SetSlot_def SetFork_def GetFork_def UpdateBlockRootAtIndex_def GetBlockRootAtIndex_def SetLatestBlockHeader_def GetLatestBlockHeader_def UpdateStateRootAtIndex_def StateRootAtIndex_def GetLatestExecutionPayloadHeader_def SetLatestExecutionPayloadHeader_def GetEth1DepositIndex_def SetEth1DepositIndex_def GetEth1Data_def SetEth1Data_def UpdateRandaoMixAtIndex_def GetRandaoMixAtIndex_def GetNextWithdrawalIndex_def SetNextWithdrawalIndex_def GetNextWithdrawalValidatorIndex_def SetNextWithdrawalValidatorIndex_def AddValidator_def UpdateValidatorAtIndex_def RemoveValidatorAtIndex_def ValidatorIndexByPubkey_def ValidatorIndexByCometBFTAddress_def ValidatorByIndex_def GetValidators_def GetTotalValidators_def GetValidatorsByEffectiveBalance_def GetBalance_def SetBalance_def GetBalances_def GetTotalActiveBalances_def GetSlashings_def GetSlashingAtIndex_def SetSlashingAtIndex_def GetTotalSlashing_def SetTotalSlashing_def mem_kv_def KVStore.simps
  by (intro collection_sims simulation zero_if_not_found_sim)+

end

subsection \<open>The operations on the store that keeps its view\<close>

lemma mem_simps [simp]:
  "item_Get (mem_item sel upd) = (\<lambda>w. from_option ErrNotFound (sel w))"
  "item_Set (mem_item sel upd) v = (\<lambda>w. (Inr (), upd (\<lambda>_. Some v) w))"
  "map_Get (mem_map msel mupd) k = (\<lambda>w. from_option ErrNotFound (map_of (msel w) k))"
  "map_Set (mem_map msel mupd) k x = (\<lambda>w. (Inr (), mupd (put k x) w))"
  "map_Iterate (mem_map msel mupd) = (\<lambda>w. Inr (msel w))"
  by (simp_all add: mem_item_def mem_map_def)

lemma zero_if_not_found_option [simp]:
  "zero_if_not_found (from_option ErrNotFound r) = Inr (case r of None \<Rightarrow> 0 | Some x \<Rightarrow> x)"
  by (cases r) (simp_all add: zero_if_not_found_def)

lemma mem_store_ops [mem_ops]:
  "SetGenesisValidatorsRoot (mem_kv addr) root w = (Inr (), w\<lparr>v_genesisValidatorsRoot := Some root\<rparr>)"
  "GetGenesisValidatorsRoot (mem_kv addr) w = (bindE (from_option ErrNotFound (v_genesisValidatorsRoot w)) (to_array 32), w)"
  "GetSlot (mem_kv addr) w = (from_option ErrNotFound (v_slot w), w)"
  "SetSlot (mem_kv addr) s w = (Inr (), w\<lparr>v_slot := Some s\<rparr>)"
  "SetFork (mem_kv addr) f w = (Inr (), w\<lparr>v_fork := Some f\<rparr>)"
  "GetFork (mem_kv addr) w = (from_option ErrNotFound (v_fork w), w)"
  "UpdateBlockRootAtIndex (mem_kv addr) i x w = (Inr (), w\<lparr>v_blockRoots := put i x (v_blockRoots w)\<rparr>)"
  "GetBlockRootAtIndex (mem_kv addr) i w = (bindE (from_option ErrNotFound (map_of (v_blockRoots w) i)) (to_array 32), w)"
  "SetLatestBlockHeader (mem_kv addr) h w = (Inr (), w\<lparr>v_latestBlockHeader := Some h\<rparr>)"
  "GetLatestBlockHeader (mem_kv addr) w = (from_option ErrNotFound (v_latestBlockHeader w), w)"
  "UpdateStateRootAtIndex (mem_kv addr) i x w = (Inr (), w\<lparr>v_stateRoots := put i x (v_stateRoots w)\<rparr>)"
  "StateRootAtIndex (mem_kv addr) i w = (bindE (from_option ErrNotFound (map_of (v_stateRoots w) i)) (to_array 32), w)"
  "GetEth1DepositIndex (mem_kv addr) w = (from_option ErrNotFound (v_eth1DepositIndex w), w)"
  "SetEth1DepositIndex (mem_kv addr) i w = (Inr (), w\<lparr>v_eth1DepositIndex := Some i\<rparr>)"
  "GetEth1Data (mem_kv addr) w = (from_option ErrNotFound (v_eth1Data w), w)"
  "SetEth1Data (mem_kv addr) d w = (Inr (), w\<lparr>v_eth1Data := Some d\<rparr>)"
  "UpdateRandaoMixAtIndex (mem_kv addr) i x w = (Inr (), w\<lparr>v_randaoMix := put i x (v_randaoMix w)\<rparr>)"
  "GetRandaoMixAtIndex (mem_kv addr) i w = (bindE (from_option ErrNotFound (map_of (v_randaoMix w) i)) (to_array 32), w)"
  "GetNextWithdrawalIndex (mem_kv addr) w = (from_option ErrNotFound (v_nextWithdrawalIndex w), w)"
  "SetNextWithdrawalIndex (mem_kv addr) i w = (Inr (), w\<lparr>v_nextWithdrawalIndex := Some i\<rparr>)"
  "GetNextWithdrawalValidatorIndex (mem_kv addr) w = (from_option ErrNotFound (v_nextWithdrawalValidatorIndex w), w)"
  "SetNextWithdrawalValidatorIndex (mem_kv addr) i w = (Inr (), w\<lparr>v_nextWithdrawalValidatorIndex := Some i\<rparr>)"
  "UpdateValidatorAtIndex (mem_kv addr) i v w = (if conflicts addr (v_validators w) i v then (Inl ErrConflict, w) else (Inr (), w\<lparr>v_validators := put i v (v_validators w)\<rparr>))"
  "ValidatorIndexByPubkey (mem_kv addr) p w = (from_option ErrNotFound (by_pubkey (v_validators w) p), w)"
  "ValidatorIndexByCometBFTAddress (mem_kv addr) a w = (from_option ErrNotFound (by_address addr (v_validators w) a), w)"
  "ValidatorByIndex (mem_kv addr) i w = (from_option ErrNotFound (map_of (v_validators w) i), w)"
  "GetValidators (mem_kv addr) w = (Inr (map snd (v_validators w)), w)"
  "GetTotalValidators (mem_kv addr) w = (Inr (of_nat (length (v_validators w))), w)"
  "GetBalance (mem_kv addr) i w = (from_option ErrNotFound (map_of (v_balances w) i), w)"
  "SetBalance (mem_kv addr) i n w = (Inr (), w\<lparr>v_balances := put i n (v_balances w)\<rparr>)"
  "GetBalances (mem_kv addr) w = (Inr (map snd (v_balances w)), w)"
  "GetSlashings (mem_kv addr) w = (Inr (map snd (v_slashings w)), w)"
  "GetSlashingAtIndex (mem_kv addr) i w = (Inr (case map_of (v_slashings w) i of None \<Rightarrow> 0 | Some x \<Rightarrow> x), w)"
  "SetSlashingAtIndex (mem_kv addr) i n w = (Inr (), w\<lparr>v_slashings := put i n (v_slashings w)\<rparr>)"
  "GetTotalSlashing (mem_kv addr) w = (Inr (case v_totalSlashing w of None \<Rightarrow> 0 | Some x \<Rightarrow> x), w)"
  "SetTotalSlashing (mem_kv addr) n w = (Inr (), w\<lparr>v_totalSlashing := Some n\<rparr>)"
  by (simp_all add: mem_kv_def bindM_reads bindM_def mem_validators_def SetGenesisValidatorsRoot_def GetGenesisValidatorsRoot_def GetSlot_def SetSlot_def SetFork_def GetFork_def UpdateBlockRootAtIndex_def GetBlockRootAtIndex_def SetLatestBlockHeader_def GetLatestBlockHeader_def UpdateStateRootAtIndex_def StateRootAtIndex_def GetEth1DepositIndex_def SetEth1DepositIndex_def GetEth1Data_def SetEth1Data_def UpdateRandaoMixAtIndex_def GetRandaoMixAtIndex_def GetNextWithdrawalIndex_def SetNextWithdrawalIndex_def GetNextWithdrawalValidatorIndex_def SetNextWithdrawalValidatorIndex_def UpdateValidatorAtIndex_def ValidatorIndexByPubkey_def ValidatorIndexByCometBFTAddress_def ValidatorByIndex_def GetValidators_def GetTotalValidators_def GetBalance_def SetBalance_def GetBalances_def GetSlashings_def GetSlashingAtIndex_def SetSlashingAtIndex_def GetTotalSlashing_def SetTotalSlashing_def
      split: sum.splits)

lemma mem_SetLatestExecutionPayloadHeader [mem_ops]:
  "SetLatestExecutionPayloadHeader (mem_kv addr) h w =
     (if payload_header_encodable h
      then (Inr (), w\<lparr>v_latestExecutionPayloadVersion := Some Deneb,
                       v_latestExecutionPayloadHeader := Some h\<rparr>)
      else (Inl ErrEncoding, w\<lparr>v_latestExecutionPayloadVersion := Some Deneb\<rparr>))"
  by (simp add: SetLatestExecutionPayloadHeader_def mem_kv_def mem_payload_header_def bindM_def
      ExecutionPayloadHeader_Version_def)

lemma mem_GetLatestExecutionPayloadHeader [mem_ops]:
  "GetLatestExecutionPayloadHeader (mem_kv addr) w =
     (bindE (from_option ErrNotFound (v_latestExecutionPayloadVersion w)) (\<lambda>n.
      bindE (from_option ErrNotFound (v_latestExecutionPayloadHeader w)) (\<lambda>h.
      bindE (ExecutionPayloadHeader_Empty n) (\<lambda>_. Inr h))), w)"
  by (cases "v_latestExecutionPayloadVersion w")
    (simp_all add: GetLatestExecutionPayloadHeader_def mem_kv_def mem_payload_header_def bindM_def)

lemma mem_AddValidator [mem_ops]:
  "AddValidator (mem_kv addr) v w =
     (let i = v_validatorIndex w in
      if conflicts addr (v_validators w) i v
      then (Inl ErrConflict, w\<lparr>v_validatorIndex := i + 1\<rparr>)
      else (Inr (), w\<lparr>v_validatorIndex := i + 1, v_validators := put i v (v_validators w),
                      v_balances := put i (val_EffectiveBalance v) (v_balances w)\<rparr>))"
  by (simp add: AddValidator_def mem_kv_def mem_sequence_def mem_validators_def bindM_def Let_def)

lemma mem_GetValidatorsByEffectiveBalance [mem_ops]:
  "GetValidatorsByEffectiveBalance (mem_kv addr) w =
     (mapE (\<lambda>k. from_option ErrNotFound (map_of (v_validators w) k))
        (map fst (by_effective_balance (v_validators w))), w)"
  by (simp add: GetValidatorsByEffectiveBalance_def mem_kv_def mem_validators_def bindM_reads
      mapM_reads)

lemma mapE_from_option:
  "(\<And>k. k \<in> set ks \<Longrightarrow> m k = Some (f k)) \<Longrightarrow> mapE (\<lambda>k. from_option e (m k)) ks = Inr (map f ks)"
  by (rule mapE_Inr_map) simp

lemma validators_by_balance:
  assumes "distinct (map fst vs)"
  shows "mapE (\<lambda>k. from_option ErrNotFound (map_of vs k)) (map fst (by_effective_balance vs)) =
    Inr (map snd (by_effective_balance vs))"
proof -
  have "mapE (\<lambda>e. from_option ErrNotFound (map_of vs (fst e))) (by_effective_balance vs) =
      Inr (map snd (by_effective_balance vs))"
    using assms by (intro mapE_from_option) (auto simp: by_effective_balance_def)
  moreover have "mapE f (map g xs) = mapE (f \<circ> g) xs" for f :: "u64 \<Rightarrow> err + Validator" and g and xs :: "Validator entries"
    by (induction xs) simp_all
  ultimately show ?thesis by (simp add: comp_def)
qed

end
