(* ===== verification/Registry.thy ===== *)
theory Registry
  imports StateDB
begin

section \<open>The validator registry and the slashing vector\<close>

text \<open>
  Invariants of the store's contents: the registry is dense (validators and balances have the
  indices below the next one, each public key occurs once) and the running total of slashings is
  the sum of the vector. The lemmas on entries kept in key order carry them; the properties give the
  effect of the balance and slashing operations of \<open>statedb.go\<close> for every lawful store.
\<close>

subsection \<open>Entries in key order\<close>

lemma range_u64_nth: "i < unat n \<Longrightarrow> range_u64 n ! i = of_nat i"
  by (simp add: range_u64_def)

lemma range_u64_Suc: "unat (n + 1) = unat n + 1 \<Longrightarrow> range_u64 (n + 1) = range_u64 n @ [n]"
  by (simp add: range_u64_def)

lemma sorted_range_u64: "sorted_wrt (<) (range_u64 n)"
proof -
  have "(of_nat i :: u64) < of_nat j" if "i < j" "j < unat n" for i j
    using that unsigned_less [of n, where ?'a = nat]
    by (simp add: word_less_nat_alt unat_of_nat)
  then show ?thesis
    by (auto simp: range_u64_def sorted_wrt_iff_nth_less)
qed

lemma ordered_range: "map fst m = range_u64 n \<Longrightarrow> ordered m"
  by (simp add: ordered_def sorted_range_u64)

lemma map_of_range:
  assumes "map fst m = range_u64 n"
  shows "map_of m k = None \<longleftrightarrow> \<not> k < n"
  using arg_cong [OF assms, of set] by (simp add: map_of_eq_None_iff set_range_u64)

lemma range_keys_less: "map fst m = range_u64 n \<Longrightarrow> k \<in> fst ` set m \<Longrightarrow> k < n"
  by (metis mem_Collect_eq set_map set_range_u64)

lemma put_put [simp]: "put k v (put k u m) = put k v m"
  by (induction k u m rule: put.induct) auto

lemma put_append: "(\<And>k'. k' \<in> fst ` set m \<Longrightarrow> k' < k) \<Longrightarrow> put k v m = m @ [(k, v)]"
proof (induction k v m rule: put.induct)
  case (2 k v k' v' m)
  from 2(2) [of k'] have "k' < k" by simp
  then have "\<not> k < k'" "k \<noteq> k'" by auto
  with 2 show ?case by simp
qed simp

lemma put_same: "ordered m \<Longrightarrow> map_of m k = Some v \<Longrightarrow> put k v m = m"
proof (induction k v m rule: put.induct)
  case (2 k v k' v' m)
  then show ?case
    by (auto simp: ordered_def dest: map_of_SomeD split: if_splits) (force dest!: map_of_SomeD)+
qed simp

lemma keys_put_existing: "ordered m \<Longrightarrow> k \<in> fst ` set m \<Longrightarrow> map fst (put k v m) = map fst m"
proof (induction k v m rule: put.induct)
  case (2 k v k' v' m)
  then show ?case by (auto simp: ordered_def)
qed simp

lemma set_put: "ordered m \<Longrightarrow> set (put k v m) = insert (k, v) {e \<in> set m. fst e \<noteq> k}"
proof (induction k v m rule: put.induct)
  case (2 k v k' v' m)
  then show ?case by (auto simp: ordered_def)
qed simp

text \<open>How one update changes the sum of a measure of the values.\<close>

lemma sum_put:
  fixes f :: "'v \<Rightarrow> nat"
  assumes "ordered m"
  shows "(\<Sum>e\<leftarrow>put k v m. f (snd e)) + (case map_of m k of None \<Rightarrow> 0 | Some x \<Rightarrow> f x) =
    (\<Sum>e\<leftarrow>m. f (snd e)) + f v"
  using assms
proof (induction k v m rule: put.induct)
  case (2 k v k' v' m)
  then have "k < k' \<Longrightarrow> map_of m k = None"
    by (auto simp: ordered_def map_of_eq_None_iff)
  with 2 show ?case by (auto simp: ordered_def)
qed simp

lemma lookup_le_sum:
  fixes f :: "'v \<Rightarrow> nat"
  shows "(case map_of m k of None \<Rightarrow> 0 | Some x \<Rightarrow> f x) \<le> (\<Sum>e\<leftarrow>m. f (snd e))"
  by (induction m) (auto split: option.splits)

subsection \<open>Slashings\<close>

definition total_slashing :: "kv_view \<Rightarrow> u64" where
  "total_slashing w = (case v_totalSlashing w of None \<Rightarrow> 0 | Some t \<Rightarrow> t)"

definition slashing_at :: "kv_view \<Rightarrow> u64 \<Rightarrow> u64" where
  "slashing_at w i = (case map_of (v_slashings w) i of None \<Rightarrow> 0 | Some x \<Rightarrow> x)"

definition slashings_ok :: "kv_view \<Rightarrow> bool" where
  "slashings_ok w \<longleftrightarrow> ordered (v_slashings w) \<and>
     unat (total_slashing w) = (\<Sum>e\<leftarrow>v_slashings w. unat (snd e))"

lemma slashing_at_le_total: "slashings_ok w \<Longrightarrow> slashing_at w i \<le> total_slashing w"
  using lookup_le_sum [where m = "v_slashings w" and k = i and f = unat]
  by (auto simp: slashings_ok_def slashing_at_def word_le_nat_alt split: option.splits)

lemma mem_UpdateSlashingAtIndex:
  "UpdateSlashingAtIndex (mem_kv addr) i amount w =
     (if slashing_at w i > total_slashing w
      then (Inl (Newf ''count of total slashing is not up to date''), w)
      else (Inr (), w\<lparr>v_totalSlashing := Some (total_slashing w - slashing_at w i + amount),
                      v_slashings := put i amount (v_slashings w)\<rparr>))"
  by (simp add: UpdateSlashingAtIndex_def bindM_def mem_ops total_slashing_def slashing_at_def)

lemma slashings_ok_update:
  assumes "slashings_ok w"
    and "unat (total_slashing w) - unat (slashing_at w i) + unat amount < 2 ^ 64"
    and "v_slashings w' = put i amount (v_slashings w)"
    and "v_totalSlashing w' = Some (total_slashing w - slashing_at w i + amount)"
  shows "slashings_ok w'"
proof -
  have le: "slashing_at w i \<le> total_slashing w" by (rule slashing_at_le_total [OF assms(1)])
  have "unat (total_slashing w - slashing_at w i + amount) =
      unat (total_slashing w) - unat (slashing_at w i) + unat amount"
    using assms(2) unat_add_lem [of "total_slashing w - slashing_at w i" amount]
    by (simp add: unat_sub [OF le])
  moreover have "(\<Sum>e\<leftarrow>put i amount (v_slashings w). unat (snd e)) + unat (slashing_at w i) =
      unat (total_slashing w) + unat amount"
    using sum_put [where m = "v_slashings w" and k = i and v = amount and f = unat] assms(1)
    by (auto simp: slashings_ok_def slashing_at_def split: option.splits)
  moreover have "unat (slashing_at w i) \<le> unat (total_slashing w)"
    using le by (simp add: word_le_nat_alt)
  ultimately show ?thesis
    using assms(1,3,4) by (auto simp: slashings_ok_def total_slashing_def)
qed

subsection \<open>The registry\<close>

definition registry_ok :: "kv_view \<Rightarrow> bool" where
  "registry_ok w \<longleftrightarrow>
     map fst (v_validators w) = range_u64 (v_validatorIndex w) \<and>
     map fst (v_balances w) = range_u64 (v_validatorIndex w) \<and>
     distinct (map (\<lambda>e. val_Pubkey (snd e)) (v_validators w))"

lemma registry_ordered:
  "registry_ok w \<Longrightarrow> ordered (v_validators w)" "registry_ok w \<Longrightarrow> ordered (v_balances w)"
  by (auto simp: registry_ok_def intro: ordered_range)

lemma registry_length:
  "registry_ok w \<Longrightarrow> length (v_validators w) = unat (v_validatorIndex w)"
  "registry_ok w \<Longrightarrow> length (v_balances w) = unat (v_validatorIndex w)"
  by (metis registry_ok_def length_map length_range_u64)+

lemma registry_total:
  "registry_ok w \<Longrightarrow> of_nat (length (v_validators w)) = v_validatorIndex w"
  by (simp add: registry_length)

lemma registry_lookup:
  assumes "registry_ok w"
  shows "i < v_validatorIndex w \<Longrightarrow> \<exists>v. map_of (v_validators w) i = Some v"
    and "i < v_validatorIndex w \<Longrightarrow> \<exists>b. map_of (v_balances w) i = Some b"
    and "map_of (v_validators w) i = Some v \<Longrightarrow> i < v_validatorIndex w"
    and "map_of (v_balances w) i = Some b \<Longrightarrow> i < v_validatorIndex w"
  using assms map_of_range [of "v_validators w" "v_validatorIndex w" i]
    map_of_range [of "v_balances w" "v_validatorIndex w" i]
  by (auto simp: registry_ok_def)

lemma by_pubkey_Some:
  assumes "registry_ok w" and "by_pubkey (v_validators w) p = Some i"
  obtains v where "map_of (v_validators w) i = Some v" and "val_Pubkey v = p"
proof -
  from assms(2) obtain v where "(i, v) \<in> set (v_validators w)" "val_Pubkey v = p"
    by (auto simp: by_pubkey_def dest!: map_of_SomeD)
  moreover have "distinct (map fst (v_validators w))"
    using ordered_distinct [OF registry_ordered(1) [OF assms(1)]] .
  ultimately show thesis using that by simp
qed

lemma by_pubkey_None:
  "by_pubkey vs p = None \<longleftrightarrow> p \<notin> (\<lambda>e. val_Pubkey (snd e)) ` set vs"
  by (auto simp: by_pubkey_def map_of_eq_None_iff image_iff split_def)

subsection \<open>Balances\<close>

lemma mem_IncreaseBalance:
  "IncreaseBalance (mem_kv addr) i d w =
     (case map_of (v_balances w) i of None \<Rightarrow> (Inl ErrNotFound, w)
      | Some b \<Rightarrow> (Inr (), w\<lparr>v_balances := put i (b + d) (v_balances w)\<rparr>))"
  by (simp add: IncreaseBalance_def bindM_def mem_ops split: option.splits)

lemma mem_DecreaseBalance:
  "DecreaseBalance (mem_kv addr) i d w =
     (case map_of (v_balances w) i of None \<Rightarrow> (Inl ErrNotFound, w)
      | Some b \<Rightarrow> (Inr (), w\<lparr>v_balances := put i (b - min b d) (v_balances w)\<rparr>))"
  by (simp add: DecreaseBalance_def bindM_def mem_ops split: option.splits)

lemma registry_ok_balances:
  assumes "registry_ok w" and "map_of (v_balances w) i = Some b"
  shows "registry_ok (w\<lparr>v_balances := put i x (v_balances w)\<rparr>)"
proof -
  have "i \<in> fst ` set (v_balances w)" using assms(2) by (force dest: map_of_SomeD)
  with assms(1) show ?thesis
    using keys_put_existing [OF registry_ordered(2) [OF assms(1)]] by (simp add: registry_ok_def)
qed

subsection \<open>Properties\<close>

text \<open>
  The slashing vector: when the running total is the sum of the vector and the new sum fits
  in 64 bits, \<open>UpdateSlashingAtIndex\<close> succeeds, sets that entry alone and keeps the total equal to
  the sum; the defensive check against an underflow never fires.
\<close>

theorem UpdateSlashing_keeps_total:
  assumes "kv_laws kv view addr" and "slashings_ok (view c)"
    and "unat (total_slashing (view c)) - unat (slashing_at (view c) i) + unat amount < 2 ^ 64"
  shows "\<exists>c'. UpdateSlashingAtIndex kv i amount c = (Inr (), c') \<and> slashings_ok (view c') \<and>
    (\<forall>j. slashing_at (view c') j = (if j = i then amount else slashing_at (view c) j)) \<and>
    unat (total_slashing (view c')) =
      unat (total_slashing (view c)) - unat (slashing_at (view c) i) + unat amount"
proof -
  let ?w = "view c"
  let ?w' = "?w\<lparr>v_totalSlashing := Some (total_slashing ?w - slashing_at ?w i + amount),
                v_slashings := put i amount (v_slashings ?w)\<rparr>"
  have le: "slashing_at ?w i \<le> total_slashing ?w"
    by (rule slashing_at_le_total [OF assms(2)])
  then have "UpdateSlashingAtIndex (mem_kv addr) i amount ?w = (Inr (), ?w')"
    by (simp add: mem_UpdateSlashingAtIndex)
  then obtain c' where c': "UpdateSlashingAtIndex kv i amount c = (Inr (), c')" "view c' = ?w'"
    using simulates_success' [OF kv_laws.balance_sims(3) [OF assms(1)]] by blast
  moreover have "slashings_ok ?w'"
    by (rule slashings_ok_update [OF assms(2,3)]) simp_all
  moreover have "unat (total_slashing ?w') =
      unat (total_slashing ?w) - unat (slashing_at ?w i) + unat amount"
    using assms(3) unat_add_lem [of "total_slashing ?w - slashing_at ?w i" amount]
    by (simp add: total_slashing_def [of ?w'] unat_sub [OF le])
  ultimately show ?thesis by (auto simp: slashing_at_def)
qed

theorem UpdateSlashing_keeps_total_witness:
  "\<exists>c'. UpdateSlashingAtIndex (mem_kv id) 3 7 (empty_view\<lparr>v_totalSlashing := Some 5,
       v_slashings := [(1, 2), (3, 3)]\<rparr>) = (Inr (), c') \<and> unat (total_slashing c') = 9"
  using UpdateSlashing_keeps_total [OF mem.kv_laws_axioms, where c = "empty_view\<lparr>v_totalSlashing := Some 5,
       v_slashings := [(1, 2), (3, 3)]\<rparr>" and i = 3 and amount = 7 and addr = id]
  by (auto simp: slashings_ok_def ordered_def total_slashing_def slashing_at_def)

end
