(* ===== verification/Processor.thy ===== *)
theory Processor
  imports StateDB
begin

unbundle bit_operations_syntax

section \<open>The state processor: \<open>mod/state-transition/pkg/core\<close>\<close>

text \<open>
  The struct \<open>StateProcessor\<close> and its operations, in the order of its files: deposits and
  withdrawals (\<open>state_processor_staking.go\<close>), randao, slashings, committee updates, the execution
  payload, slots, epochs and blocks (\<open>state_processor.go\<close>), genesis. The processor holds the chain
  specification, the signer and the execution engine; the model adds what the code imports: the
  hash tree roots and \<open>xor.Bytes\<close> of \<open>go-faster/xor\<close>.

  Every operation takes the processor and the store and is a program over the store's contents.
  The last part of the theory simulates each of them by its run over \<open>mem_kv\<close>.
\<close>

text \<open>
  \<open>xor.Bytes\<close> of \<open>go-faster/xor\<close> writes the exclusive or of the common prefix of its sources and
  returns its length.
\<close>

locale xor_library =
  fixes xorBytes :: "bytes \<Rightarrow> bytes \<Rightarrow> bytes \<Rightarrow> nat \<times> bytes"
  assumes xor_law: "xorBytes dst x y =
    (min (length x) (length y), map2 (XOR) x y @ drop (min (length x) (length y)) dst)"

definition reference_xor :: "bytes \<Rightarrow> bytes \<Rightarrow> bytes \<Rightarrow> nat \<times> bytes" where
  "reference_xor dst x y =
     (let n = min (length x) (length y) in (n, map2 (XOR) x y @ drop n dst))"

interpretation reference_xor: xor_library reference_xor
  by unfold_locales (simp add: reference_xor_def Let_def)

record StateProcessor =
  cs :: SpecData
  signer :: BLSSigner
  executionEngine :: "NewPayloadRequest \<Rightarrow> err + unit"
  sszEnv :: ssz_env
  xor_Bytes :: "bytes \<Rightarrow> bytes \<Rightarrow> bytes \<Rightarrow> nat \<times> bytes"

definition NewStateProcessor ::
  "SpecData \<Rightarrow> (NewPayloadRequest \<Rightarrow> err + unit) \<Rightarrow> BLSSigner \<Rightarrow> ssz_env \<Rightarrow>
   (bytes \<Rightarrow> bytes \<Rightarrow> bytes \<Rightarrow> nat \<times> bytes) \<Rightarrow> StateProcessor" where
  "NewStateProcessor c e s H x =
     \<lparr>cs = c, signer = s, executionEngine = e, sszEnv = H, xor_Bytes = x\<rparr>"

subsection \<open>Deposits\<close>

definition addValidatorToRegistry :: "StateProcessor \<Rightarrow> 'c KVStore \<Rightarrow> Deposit \<Rightarrow> ('c, unit) M" where
  "addValidatorToRegistry sp st dep =
     bindM (liftE (NewValidatorFromDeposit (dep_Pubkey dep) (dep_Credentials dep) (dep_Amount dep)
              (EffectiveBalanceIncrement (cs sp)) (MaxEffectiveBalance (cs sp)))) (\<lambda>val.
     bindM (AddValidator st val) (\<lambda>_.
     bindM (ValidatorIndexByPubkey st (val_Pubkey val)) (\<lambda>idx.
     IncreaseBalance st idx (dep_Amount dep))))"

definition createValidator :: "StateProcessor \<Rightarrow> 'c KVStore \<Rightarrow> Deposit \<Rightarrow> ('c, unit) M" where
  "createValidator sp st dep =
     bindM (GetGenesisValidatorsRoot st) (\<lambda>genesisValidatorsRoot.
     bindM (GetSlot st) (\<lambda>slot.
     bindM (liftE (SlotToEpoch (cs sp) slot)) (\<lambda>epoch.
     bindM (liftE (Deposit_VerifySignature (sszEnv sp) dep
              (NewForkData (FromUint32 (ActiveForkVersionForEpoch (cs sp) epoch))
                 genesisValidatorsRoot)
              (DomainTypeDeposit (cs sp))
              (VerifySignature (signer sp)))) (\<lambda>_.
     addValidatorToRegistry sp st dep))))"

text \<open>Any error of the lookup, not only a missing key, leads to the creation of a validator.\<close>

definition applyDeposit :: "StateProcessor \<Rightarrow> 'c KVStore \<Rightarrow> Deposit \<Rightarrow> ('c, unit) M" where
  "applyDeposit sp st dep s =
     (case ValidatorIndexByPubkey st (dep_Pubkey dep) s of
        (Inr idx, s) \<Rightarrow>
          bindM (ValidatorByIndex st idx) (\<lambda>val.
            UpdateValidatorAtIndex st idx
              (SetEffectiveBalance val
                 (min (val_EffectiveBalance val + dep_Amount dep) (MaxEffectiveBalance (cs sp))))) s
      | (Inl _, s) \<Rightarrow> createValidator sp st dep s)"

definition processDeposit :: "StateProcessor \<Rightarrow> 'c KVStore \<Rightarrow> Deposit \<Rightarrow> ('c, unit) M" where
  "processDeposit sp st dep =
     bindM (GetEth1DepositIndex st) (\<lambda>depositIndex.
     bindM (SetEth1DepositIndex st (depositIndex + 1)) (\<lambda>_.
     applyDeposit sp st dep))"

definition processDeposits :: "StateProcessor \<Rightarrow> 'c KVStore \<Rightarrow> Deposit list \<Rightarrow> ('c, unit) M" where
  "processDeposits sp st deposits = forM deposits (processDeposit sp st)"

definition processOperations :: "StateProcessor \<Rightarrow> 'c KVStore \<Rightarrow> BeaconBlockDeneb \<Rightarrow> ('c, unit) M" where
  "processOperations sp st blk =
     (let deposits = bd_Deposits (blk_Body blk) in
      bindM (GetEth1DepositIndex st) (\<lambda>index.
      bindM (GetEth1Data st) (\<lambda>eth1Data.
      let depositCount = min (MaxDepositsPerBlock (cs sp)) (eth1_DepositCount eth1Data - index)
      in processDeposits sp st deposits)))"

subsection \<open>Withdrawals\<close>

fun apply_withdrawals ::
  "'c KVStore \<Rightarrow> (Withdrawal \<times> Withdrawal) list \<Rightarrow> ('c, unit) M" where
  "apply_withdrawals st [] = ret ()"
| "apply_withdrawals st ((wd, payloadWd) # rest) =
     (if \<not> Withdrawal_Equals wd payloadWd then throw (Newf ''withdrawals do not match expected'')
      else bindM (DecreaseBalance st (wd_Validator wd) (wd_Amount wd)) (\<lambda>_.
           apply_withdrawals st rest))"

definition processWithdrawals ::
  "StateProcessor \<Rightarrow> 'c KVStore \<Rightarrow> BeaconBlockBodyDeneb \<Rightarrow> ('c, unit) M" where
  "processWithdrawals sp st body =
     (let payloadWithdrawals = pl_Withdrawals (bd_ExecutionPayload body) in
      bindM (ExpectedWithdrawals st (cs sp)) (\<lambda>expectedWithdrawals.
      let numWithdrawals = length expectedWithdrawals in
      if numWithdrawals \<noteq> length payloadWithdrawals
      then throw (Newf ''withdrawals do not match expected length'')
      else
      bindM (apply_withdrawals st (zip expectedWithdrawals payloadWithdrawals)) (\<lambda>_.
      bindM (if numWithdrawals \<noteq> 0
             then SetNextWithdrawalIndex st
                    (wd_Index (expectedWithdrawals ! (numWithdrawals - 1)) + 1)
             else ret ()) (\<lambda>_.
      bindM (GetTotalValidators st) (\<lambda>totalValidators.
      bindM (if int numWithdrawals = sint (MaxWithdrawalsPerPayload (cs sp))
             then if numWithdrawals = 0 then throw (Panic ''index out of range'')
                  else liftE (mod_u64 (wd_Index (expectedWithdrawals ! (numWithdrawals - 1)) + 1)
                                totalValidators)
             else bindM (GetNextWithdrawalValidatorIndex st) (\<lambda>nextValidatorIndex.
                  liftE (mod_u64 (nextValidatorIndex + MaxValidatorsPerWithdrawalsSweep (cs sp))
                           totalValidators)))
        (\<lambda>nextValidatorIndex.
      SetNextWithdrawalValidatorIndex st nextValidatorIndex))))))"

subsection \<open>Randao\<close>

definition RootLength :: nat where
  "RootLength = 32"

definition buildRandaoMix :: "StateProcessor \<Rightarrow> b32 \<Rightarrow> bytes \<Rightarrow> err + b32" where
  "buildRandaoMix sp mix reveal =
     (let newMix = replicate RootLength 0;
          revealHash = Sum256 (merkle (sszEnv sp)) reveal;
          (numXor, newMix) = xor_Bytes sp newMix mix revealHash
      in if numXor \<noteq> RootLength then Inl ErrXorInvalid else to_array 32 newMix)"

definition processRandaoReveal ::
  "StateProcessor \<Rightarrow> 'c KVStore \<Rightarrow> BeaconBlockDeneb \<Rightarrow> bool \<Rightarrow> ('c, unit) M" where
  "processRandaoReveal sp st blk skipVerification =
     bindM (GetSlot st) (\<lambda>slot.
     bindM (ValidatorByIndex st (blk_ProposerIndex blk)) (\<lambda>proposer.
     bindM (GetGenesisValidatorsRoot st) (\<lambda>genesisValidatorsRoot.
     bindM (liftE (SlotToEpoch (cs sp) slot)) (\<lambda>epoch.
     let body = blk_Body blk;
         fd = NewForkData (FromUint32 (ActiveForkVersionForEpoch (cs sp) epoch))
                genesisValidatorsRoot
     in
     bindM (if \<not> skipVerification
            then liftE (bindE (ComputeRandaoSigningRoot (sszEnv sp) fd (DomainTypeRandao (cs sp)) epoch)
                   (\<lambda>signingRoot. VerifySignature (signer sp) (val_Pubkey proposer) signingRoot
                      (bd_RandaoReveal body)))
            else ret ()) (\<lambda>_.
     bindM (liftE (mod_u64 epoch (EpochsPerHistoricalVector (cs sp)))) (\<lambda>i.
     bindM (GetRandaoMixAtIndex st i) (\<lambda>prevMix.
     bindM (liftE (buildRandaoMix sp prevMix (bd_RandaoReveal body))) (\<lambda>mix.
     UpdateRandaoMixAtIndex st i mix))))))))"

definition processRandaoMixesReset :: "StateProcessor \<Rightarrow> 'c KVStore \<Rightarrow> ('c, unit) M" where
  "processRandaoMixesReset sp st =
     bindM (GetSlot st) (\<lambda>slot.
     bindM (liftE (SlotToEpoch (cs sp) slot)) (\<lambda>epoch.
     bindM (liftE (mod_u64 epoch (EpochsPerHistoricalVector (cs sp)))) (\<lambda>i.
     bindM (GetRandaoMixAtIndex st i) (\<lambda>mix.
     bindM (liftE (mod_u64 (epoch + 1) (EpochsPerHistoricalVector (cs sp)))) (\<lambda>j.
     UpdateRandaoMixAtIndex st j mix)))))"

subsection \<open>Slashings\<close>

definition processSlashingsReset :: "StateProcessor \<Rightarrow> 'c KVStore \<Rightarrow> ('c, unit) M" where
  "processSlashingsReset sp st =
     bindM (GetSlot st) (\<lambda>slot.
     bindM (liftE (SlotToEpoch (cs sp) slot)) (\<lambda>epoch.
     bindM (liftE (mod_u64 (epoch + 1) (EpochsPerSlashingsVector (cs sp)))) (\<lambda>index.
     UpdateSlashingAtIndex st index 0)))"

definition processProposerSlashing :: "'c KVStore \<Rightarrow> ('c, unit) M" where
  "processProposerSlashing st = ret ()"

definition processAttesterSlashing :: "'c KVStore \<Rightarrow> ('c, unit) M" where
  "processAttesterSlashing st = ret ()"

definition processSlash ::
  "StateProcessor \<Rightarrow> 'c KVStore \<Rightarrow> Validator \<Rightarrow> u64 \<Rightarrow> u64 \<Rightarrow> ('c, unit) M" where
  "processSlash sp st val adjustedTotalSlashingBalance totalBalance =
     (let increment = EffectiveBalanceIncrement (cs sp) in
      bindM (liftE (div_u64 (val_EffectiveBalance val) increment)) (\<lambda>balDivIncrement.
      let penaltyNumerator = balDivIncrement * adjustedTotalSlashingBalance in
      bindM (liftE (div_u64 penaltyNumerator totalBalance)) (\<lambda>q.
      let penalty = q * increment in
      bindM (ValidatorIndexByPubkey st (val_Pubkey val)) (\<lambda>idx.
      DecreaseBalance st idx penalty))))"

definition processSlashings :: "StateProcessor \<Rightarrow> 'c KVStore \<Rightarrow> bool \<Rightarrow> ('c, unit) M" where
  "processSlashings sp st early =
     bindM (GetTotalActiveBalances st early (SlotsPerEpoch (cs sp))) (\<lambda>totalBalance.
     bindM (GetTotalSlashing st) (\<lambda>totalSlashings.
     let adjustedTotalSlashingBalance =
           min (totalSlashings * ProportionalSlashingMultiplier (cs sp)) totalBalance in
     bindM (GetValidators st) (\<lambda>vals.
     bindM (GetSlot st) (\<lambda>slot.
     bindM (liftE (SlotToEpoch (cs sp) slot)) (\<lambda>epoch.
     let slashableEpoch = (epoch + EpochsPerSlashingsVector (cs sp)) div 2 in
     forM vals (\<lambda>val.
       if val_Slashed val \<and> slashableEpoch = val_WithdrawableEpoch val
       then processSlash sp st val adjustedTotalSlashingBalance totalBalance
       else ret ()))))))"

subsection \<open>Committee updates, rewards, epochs\<close>

definition processSyncCommitteeUpdates :: "'c KVStore \<Rightarrow> ('c, ValidatorUpdate list) M" where
  "processSyncCommitteeUpdates st =
     bindM (GetValidatorsByEffectiveBalance st) (\<lambda>vals.
     ret (map (\<lambda>v. \<lparr>upd_Pubkey = val_Pubkey v, upd_EffectiveBalance = val_EffectiveBalance v\<rparr>) vals))"

definition getAttestationDeltas :: "'c KVStore \<Rightarrow> ('c, u64 list \<times> u64 list) M" where
  "getAttestationDeltas st =
     bindM (GetValidators st) (\<lambda>validators.
     let placeholder = replicate (length validators) 0 in ret (placeholder, placeholder))"

definition processRewardsAndPenalties :: "StateProcessor \<Rightarrow> 'c KVStore \<Rightarrow> ('c, unit) M" where
  "processRewardsAndPenalties sp st =
     bindM (GetSlot st) (\<lambda>slot.
     bindM (liftE (SlotToEpoch (cs sp) slot)) (\<lambda>epoch.
     if epoch = GenesisEpoch then ret ()
     else
     bindM (getAttestationDeltas st) (\<lambda>(rewards, penalties).
     bindM (GetValidators st) (\<lambda>validators.
     if length validators \<noteq> length rewards then throw ErrRewardsLengthMismatch
     else if length validators \<noteq> length penalties then throw ErrPenaltiesLengthMismatch
     else forM [0..<length validators] (\<lambda>i.
       bindM (IncreaseBalance st (of_nat i) (rewards ! i)) (\<lambda>_.
       DecreaseBalance st (of_nat i) (penalties ! i)))))))"

definition processEpoch :: "StateProcessor \<Rightarrow> 'c KVStore \<Rightarrow> ('c, ValidatorUpdate list) M" where
  "processEpoch sp st =
     bindM (processRewardsAndPenalties sp st) (\<lambda>_.
     bindM (processSlashingsReset sp st) (\<lambda>_.
     bindM (processRandaoMixesReset sp st) (\<lambda>_.
     processSyncCommitteeUpdates st)))"

subsection \<open>Slots\<close>

definition processSlot :: "StateProcessor \<Rightarrow> 'c KVStore \<Rightarrow> ('c, unit) M" where
  "processSlot sp st =
     bindM (GetSlot st) (\<lambda>stateSlot.
     bindM (StateDB_HashTreeRoot st (cs sp) (sszEnv sp)) (\<lambda>prevStateRoot.
     bindM (liftE (mod_u64 stateSlot (SlotsPerHistoricalRoot (cs sp)))) (\<lambda>i.
     bindM (UpdateStateRootAtIndex st i prevStateRoot) (\<lambda>_.
     bindM (GetLatestBlockHeader st) (\<lambda>latestHeader.
     bindM (if hdr_StateRoot latestHeader = zero32
            then let latestHeader = SetStateRoot latestHeader prevStateRoot in
                 bindM (SetLatestBlockHeader st latestHeader) (\<lambda>_. ret latestHeader)
            else ret latestHeader) (\<lambda>latestHeader.
     bindM (liftE (htr_BeaconBlockHeader (sszEnv sp) latestHeader)) (\<lambda>prevBlockRoot.
     UpdateBlockRootAtIndex st i prevBlockRoot)))))))"

text \<open>The loop of \<open>ProcessSlots\<close>, with the slot of the state and the updates so far.\<close>

function slots_loop :: "StateProcessor \<Rightarrow> 'c KVStore \<Rightarrow> u64 \<Rightarrow> u64 \<Rightarrow> ValidatorUpdate list \<Rightarrow>
    ('c, ValidatorUpdate list) M" where
  "slots_loop sp st slot stateSlot validatorUpdates =
     (if stateSlot < slot
      then bindM (processSlot sp st) (\<lambda>_.
           bindM (liftE (mod_u64 (stateSlot + 1) (SlotsPerEpoch (cs sp)))) (\<lambda>r.
           bindM (if r = 0
                  then bindM (processEpoch sp st) (\<lambda>epochValidatorUpdates.
                       ret (validatorUpdates @ epochValidatorUpdates))
                  else ret validatorUpdates) (\<lambda>validatorUpdates.
           bindM (SetSlot st (stateSlot + 1)) (\<lambda>_.
           slots_loop sp st slot (stateSlot + 1) validatorUpdates))))
      else ret validatorUpdates)"
  by pat_completeness auto

termination
  by (relation "measure (\<lambda>(sp, st, slot, stateSlot, us). unat slot - unat stateSlot)")
    (auto simp: unat_plus_one word_less_nat_alt)

declare slots_loop.simps [simp del]

definition ProcessSlots ::
  "StateProcessor \<Rightarrow> 'c KVStore \<Rightarrow> u64 \<Rightarrow> ('c, ValidatorUpdate list) M" where
  "ProcessSlots sp st slot = bindM (GetSlot st) (\<lambda>stateSlot. slots_loop sp st slot stateSlot [])"

subsection \<open>Blocks\<close>

definition processBlockHeader :: "StateProcessor \<Rightarrow> 'c KVStore \<Rightarrow> BeaconBlockDeneb \<Rightarrow> ('c, unit) M" where
  "processBlockHeader sp st blk =
     bindM (GetSlot st) (\<lambda>slot.
     if blk_Slot blk \<noteq> slot then throw ErrSlotMismatch
     else
     bindM (GetLatestBlockHeader st) (\<lambda>latestBlockHeader.
     if blk_Slot blk \<le> hdr_Slot latestBlockHeader then throw ErrBlockSlotTooLow
     else
     bindM (liftE (htr_BeaconBlockHeader (sszEnv sp) latestBlockHeader)) (\<lambda>parentBlockRoot.
     if parentBlockRoot \<noteq> blk_ParentBlockRoot blk then throw ErrParentRootMismatch
     else
     if of_nat (length (bd_Deposits (blk_Body blk))) > MaxDepositsPerBlock (cs sp)
     then throw ErrExceedsBlockDepositLimit
     else
     bindM (liftE (htr_BeaconBlockBody (sszEnv sp) (blk_Body blk))) (\<lambda>bodyRoot.
     bindM (SetLatestBlockHeader st (NewBeaconBlockHeader (blk_Slot blk) (blk_ProposerIndex blk)
              (blk_ParentBlockRoot blk) zero32 bodyRoot)) (\<lambda>_.
     bindM (ValidatorByIndex st (blk_ProposerIndex blk)) (\<lambda>proposer.
     if val_Slashed proposer then throw ErrSlashedProposer else ret ()))))))"

text \<open>
  \<open>validateExecutionPayload\<close> only reads the state. The call of the engine is the only effect
  outside the state; its answer is a function of the request.
\<close>

definition validateExecutionPayload ::
  "StateProcessor \<Rightarrow> 'c KVStore \<Rightarrow> BeaconBlockDeneb \<Rightarrow> bool \<Rightarrow> ('c, unit) M" where
  "validateExecutionPayload sp st blk optimisticEngine =
     (let body = blk_Body blk; payload = bd_ExecutionPayload body in
      bindM (GetLatestExecutionPayloadHeader st) (\<lambda>lph.
      if ph_BlockHash lph \<noteq> pl_ParentHash payload then throw ErrParentPayloadHashMismatch
      else
      bindM (liftE (executionEngine sp (BuildNewPayloadRequest payload
               (ToVersionedHashes (sszEnv sp) (bd_BlobKzgCommitments body))
               (blk_ParentBlockRoot blk) optimisticEngine))) (\<lambda>_.
      bindM (GetSlot st) (\<lambda>slot.
      bindM (liftE (SlotToEpoch (cs sp) slot)) (\<lambda>epoch.
      bindM (liftE (mod_u64 epoch (EpochsPerHistoricalVector (cs sp)))) (\<lambda>i.
      bindM (GetRandaoMixAtIndex st i) (\<lambda>expectedMix.
      if pl_Random payload \<noteq> expectedMix then throw ErrRandaoMixMismatch
      else if of_nat (length (bd_BlobKzgCommitments body)) > MaxBlobsPerBlock (cs sp)
      then throw ErrExceedsBlockBlobLimit
      else if of_nat (length (pl_Withdrawals payload)) > MaxWithdrawalsPerPayload (cs sp)
      then throw (Newf ''too many withdrawals'')
      else ret ())))))))"

text \<open>
  The two goroutines of \<open>processExecutionPayload\<close>: verification, unless it is skipped, and
  the conversion of the payload to its header. The flags are the schedules of this error group and
  of the one inside \<open>ToHeader\<close>.
\<close>

record Schedule =
  verify_first :: bool
  txs_first :: bool

definition processExecutionPayload ::
  "StateProcessor \<Rightarrow> Schedule \<Rightarrow> TransitionContext \<Rightarrow> 'c KVStore \<Rightarrow> BeaconBlockDeneb \<Rightarrow> ('c, unit) M" where
  "processExecutionPayload sp sch ctx st blk =
     bindM (reads (\<lambda>s. errgroup2 (verify_first sch)
              (if \<not> SkipPayloadVerification ctx
               then fst (validateExecutionPayload sp st blk (OptimisticEngine ctx) s) else Inr ())
              (fst (ToHeader (sszEnv sp) (txs_first sch) (GetExecutionPayload (blk_Body blk)))))) (\<lambda>p.
     SetLatestExecutionPayloadHeader st (snd p))"

definition ProcessBlock ::
  "StateProcessor \<Rightarrow> Schedule \<Rightarrow> TransitionContext \<Rightarrow> 'c KVStore \<Rightarrow> BeaconBlockDeneb \<Rightarrow> ('c, unit) M" where
  "ProcessBlock sp sch ctx st blk =
     bindM (processBlockHeader sp st blk) (\<lambda>_.
     bindM (processExecutionPayload sp sch ctx st blk) (\<lambda>_.
     bindM (processWithdrawals sp st (blk_Body blk)) (\<lambda>_.
     bindM (processRandaoReveal sp st blk (SkipValidateRandao ctx)) (\<lambda>_.
     bindM (processOperations sp st blk) (\<lambda>_.
     if SkipValidateResult ctx then ret ()
     else bindM (StateDB_HashTreeRoot st (cs sp) (sszEnv sp)) (\<lambda>stateRoot.
          if blk_StateRoot blk \<noteq> stateRoot then throw ErrStateRootMismatch else ret ()))))))"

definition Transition ::
  "StateProcessor \<Rightarrow> Schedule \<Rightarrow> 'c Branching \<Rightarrow> TransitionContext \<Rightarrow> 'c KVStore \<Rightarrow> BeaconBlock \<Rightarrow>
   ('c Handle, ValidatorUpdate list) M" where
  "Transition sp sch B ctx st blk =
     (case blk of
        None \<Rightarrow> ret []
      | Some blk \<Rightarrow>
          bindM (on_handle (ProcessSlots sp st (blk_Slot blk))) (\<lambda>validatorUpdates.
          bindM (on_handle (ProcessBlock sp sch ctx st blk)) (\<lambda>_.
          (\<lambda>h. (Inr validatorUpdates, Save B h)))))"

subsection \<open>Genesis\<close>

definition InitializePreminedBeaconStateFromEth1 ::
  "StateProcessor \<Rightarrow> 'c Branching \<Rightarrow> 'c KVStore \<Rightarrow> Deposit list \<Rightarrow> ExecutionPayloadHeaderDeneb \<Rightarrow>
   bytes \<Rightarrow> ('c Handle, ValidatorUpdate list) M" where
  "InitializePreminedBeaconStateFromEth1 sp B st deposits executionPayloadHeader genesisVersion =
     bindM (on_handle (
       let fork = NewFork genesisVersion genesisVersion GenesisEpoch in
       bindM (SetSlot st 0) (\<lambda>_.
       bindM (SetFork st fork) (\<lambda>_.
       bindM (SetEth1DepositIndex st 0) (\<lambda>_.
       bindM (SetEth1Data st (NewEth1Data zero32 0 (ph_BlockHash executionPayloadHeader))) (\<lambda>_.
       bindM (liftE (bindE (BeaconBlockBody_Empty (ToUint32 genesisVersion))
                (htr_BeaconBlockBody (sszEnv sp)))) (\<lambda>bodyRoot.
       bindM (SetLatestBlockHeader st (NewBeaconBlockHeader 0 0 zero32 zero32 bodyRoot)) (\<lambda>_.
       bindM (forM (range_u64 (EpochsPerHistoricalVector (cs sp))) (\<lambda>i.
                UpdateRandaoMixAtIndex st i (ph_BlockHash executionPayloadHeader))) (\<lambda>_.
       bindM (SetGenesisValidatorsRoot st zero32) (\<lambda>_.
       bindM (forM deposits (processDeposit sp st)) (\<lambda>_.
       bindM (GetValidators st) (\<lambda>validators.
       bindM (liftE (MerkleizeListComposite (merkle (sszEnv sp)) (htr_Validator (sszEnv sp)) validators
                (of_nat (length validators)))) (\<lambda>validatorsRoot.
       bindM (SetGenesisValidatorsRoot st validatorsRoot) (\<lambda>_.
       bindM (SetLatestExecutionPayloadHeader st executionPayloadHeader) (\<lambda>_.
       bindM (forM (range_u64 (HistoricalRootsLimit (cs sp))) (\<lambda>i.
                bindM (UpdateBlockRootAtIndex st i zero32) (\<lambda>_.
                UpdateStateRootAtIndex st i zero32))) (\<lambda>_.
       bindM (SetNextWithdrawalIndex st 0) (\<lambda>_.
       bindM (SetNextWithdrawalValidatorIndex st 0) (\<lambda>_.
       bindM (SetTotalSlashing st 0) (\<lambda>_.
       processSyncCommitteeUpdates st)))))))))))))))))))
     (\<lambda>updates h. (Inr updates, Save B h))"

subsection \<open>Simulation\<close>

lemma simulates_case_reads:
  assumes "simulates v (reads f) (reads f')"
    and "\<And>a. simulates v (h a) (h' a)" and "simulates v g g'"
  shows "simulates v (\<lambda>s. case reads f s of (Inl _, s) \<Rightarrow> g s | (Inr a, s) \<Rightarrow> h a s)
    (\<lambda>s. case reads f' s of (Inl _, s) \<Rightarrow> g' s | (Inr a, s) \<Rightarrow> h' a s)"
proof -
  have "f c = f' (v c)" for c using simulates_fst [OF assms(1), of c] by simp
  then show ?thesis
    using simulates_error [OF assms(3)] simulates_success' [OF assms(3)]
      simulates_error [OF assms(2)] simulates_success' [OF assms(2)]
    by (intro simulatesI) (simp_all split: sum.splits)
qed

lemma simulates_reads_fst:
  "simulates v m m' \<Longrightarrow> simulates v (reads (\<lambda>s. g (fst (m s)))) (reads (\<lambda>s. g (fst (m' s))))"
  by (rule simulates_reads) (simp add: simulates_fst)

definition handle_view :: "('c \<Rightarrow> kv_view) \<Rightarrow> 'c Handle \<Rightarrow> kv_view Handle" where
  "handle_view view h = \<lparr>h_ctx = view (h_ctx h), h_parent = map_option view (h_parent h)\<rparr>"

lemma on_handle_eq: "on_handle m h = (fst (m (h_ctx h)), h\<lparr>h_ctx := snd (m (h_ctx h))\<rparr>)"
  by (simp add: on_handle_def split: prod.splits)

lemma simulates_on_handle:
  assumes "simulates view m m'"
  shows "simulates (handle_view view) (on_handle m) (on_handle m')"
proof (rule simulatesI)
  fix h e w assume "on_handle m' (handle_view view h) = (Inl e, w)"
  then show "\<exists>h'. on_handle m h = (Inl e, h')"
    using simulates_fst [OF assms, of "h_ctx h"] by (simp add: on_handle_eq handle_view_def)
next
  fix h a w assume *: "on_handle m' (handle_view view h) = (Inr a, w)"
  then have "m' (view (h_ctx h)) = (Inr a, h_ctx w)" "h_parent w = map_option view (h_parent h)"
    by (auto simp: on_handle_eq handle_view_def prod_eq_iff)
  moreover from simulates_success' [OF assms this(1)] obtain c' where
    "m (h_ctx h) = (Inr a, c')" "view c' = h_ctx w" by blast
  ultimately show "\<exists>h'. on_handle m h = (Inr a, h') \<and> handle_view view h' = w"
    by (simp add: on_handle_eq handle_view_def)
qed

context branching
begin

lemma handle_view_Save: "handle_view view (Save B h) = Save mem_branching (handle_view view h)"
  by (simp add: Save_def handle_view_def mem_branching_def write_view split: option.splits)

lemma handle_view_Copy: "handle_view view (Copy B h) = Copy mem_branching (handle_view view h)"
  by (simp add: Copy_def WithContext_def handle_view_def mem_branching_def branch_view)

lemma simulates_Save:
  "simulates (handle_view view) (\<lambda>h. (Inr a, Save B h)) (\<lambda>h. (Inr a, Save mem_branching h))"
  by (simp add: simulates_def handle_view_Save)

end

context kv_laws
begin

lemma deposit_sims:
  shows "simulates view (addValidatorToRegistry sp kv dep) (addValidatorToRegistry sp (mem_kv addr) dep)"
    and "simulates view (createValidator sp kv dep) (createValidator sp (mem_kv addr) dep)"
  unfolding addValidatorToRegistry_def createValidator_def
  by (intro simulation store_sims balance_sims)+

lemma applyDeposit_sim: "simulates view (applyDeposit sp kv dep) (applyDeposit sp (mem_kv addr) dep)"
  unfolding applyDeposit_def [abs_def] ValidatorIndexByPubkey_def
  by (intro simulates_case_reads simulation store_sims deposit_sims
      store_sims(28) [unfolded ValidatorIndexByPubkey_def])

lemma processDeposit_sim: "simulates view (processDeposit sp kv dep) (processDeposit sp (mem_kv addr) dep)"
  unfolding processDeposit_def by (intro simulation store_sims applyDeposit_sim)

lemma apply_withdrawals_sim:
  "simulates view (apply_withdrawals kv ws) (apply_withdrawals (mem_kv addr) ws)"
proof (induction ws)
  case (Cons p ws)
  then show ?case
    by (cases p) (simp only: apply_withdrawals.simps, intro simulation balance_sims)
qed (simp only: apply_withdrawals.simps simulates_ret)

lemma staking_sims:
  shows "simulates view (processDeposits sp kv ds) (processDeposits sp (mem_kv addr) ds)"
    and "simulates view (processOperations sp kv blk) (processOperations sp (mem_kv addr) blk)"
    and "simulates view (processWithdrawals sp kv body) (processWithdrawals sp (mem_kv addr) body)"
  unfolding processDeposits_def processOperations_def processWithdrawals_def Let_def
  by (intro simulation store_sims state_sims processDeposit_sim apply_withdrawals_sim)+

lemma epoch_sims:
  shows "simulates view (processRandaoReveal sp kv blk skip) (processRandaoReveal sp (mem_kv addr) blk skip)"
    and "simulates view (processRandaoMixesReset sp kv) (processRandaoMixesReset sp (mem_kv addr))"
    and "simulates view (processSlashingsReset sp kv) (processSlashingsReset sp (mem_kv addr))"
    and "simulates view (processSyncCommitteeUpdates kv) (processSyncCommitteeUpdates (mem_kv addr))"
    and "simulates view (getAttestationDeltas kv) (getAttestationDeltas (mem_kv addr))"
  unfolding processRandaoReveal_def processRandaoMixesReset_def processSlashingsReset_def
    processSyncCommitteeUpdates_def getAttestationDeltas_def Let_def
  by (intro simulation store_sims balance_sims)+

lemma rewards_sim:
  "simulates view (processRewardsAndPenalties sp kv) (processRewardsAndPenalties sp (mem_kv addr))"
  unfolding processRewardsAndPenalties_def
  by (auto simp: split_def intro!: simulation store_sims balance_sims epoch_sims)

lemma processEpoch_sim: "simulates view (processEpoch sp kv) (processEpoch sp (mem_kv addr))"
  unfolding processEpoch_def by (intro simulation epoch_sims rewards_sim)

lemma processSlot_sim: "simulates view (processSlot sp kv) (processSlot sp (mem_kv addr))"
  unfolding processSlot_def Let_def by (intro simulation store_sims state_sims)

lemma slots_loop_sim:
  "simulates view (slots_loop sp kv slot s us) (slots_loop sp (mem_kv addr) slot s us)"
proof (induction "unat slot - unat s" arbitrary: s us rule: less_induct)
  case less
  have "simulates view (slots_loop sp kv slot (s + 1) us) (slots_loop sp (mem_kv addr) slot (s + 1) us)"
    if "s < slot" for us
    using that by (intro less) (simp add: unat_plus_one word_less_nat_alt)
  then show ?case
    unfolding slots_loop.simps [of sp _ slot s us]
    by (cases "s < slot") (auto intro!: simulation store_sims processSlot_sim processEpoch_sim)
qed

lemma ProcessSlots_sim: "simulates view (ProcessSlots sp kv slot) (ProcessSlots sp (mem_kv addr) slot)"
  unfolding ProcessSlots_def by (intro simulation store_sims slots_loop_sim)

lemma processBlockHeader_sim:
  "simulates view (processBlockHeader sp kv blk) (processBlockHeader sp (mem_kv addr) blk)"
  unfolding processBlockHeader_def by (intro simulation store_sims)

lemma validateExecutionPayload_sim:
  "simulates view (validateExecutionPayload sp kv blk opt) (validateExecutionPayload sp (mem_kv addr) blk opt)"
  unfolding validateExecutionPayload_def Let_def by (intro simulation store_sims)

lemma processExecutionPayload_sim:
  "simulates view (processExecutionPayload sp sch ctx kv blk)
     (processExecutionPayload sp sch ctx (mem_kv addr) blk)"
  unfolding processExecutionPayload_def
  by (intro simulation store_sims) (simp add: simulates_fst [OF validateExecutionPayload_sim])

lemma ProcessBlock_sim:
  "simulates view (ProcessBlock sp sch ctx kv blk) (ProcessBlock sp sch ctx (mem_kv addr) blk)"
  unfolding ProcessBlock_def
  by (intro simulation state_sims staking_sims epoch_sims processBlockHeader_sim
      processExecutionPayload_sim)

end

text \<open>A store and its branches, both lawful for the same view.\<close>

locale beacon_store = kv_laws kv view addr + branching B view
  for kv :: "'c KVStore" and view :: "'c \<Rightarrow> kv_view" and addr :: "bytes \<Rightarrow> bytes"
    and B :: "'c Branching"
begin

lemma Transition_sim:
  "simulates (handle_view view) (Transition sp sch B ctx kv blk)
     (Transition sp sch mem_branching ctx (mem_kv addr) blk)"
  unfolding Transition_def
  by (cases blk) (auto intro!: simulation simulates_on_handle simulates_Save ProcessSlots_sim
      ProcessBlock_sim)

lemma Initialize_sim:
  "simulates (handle_view view)
     (InitializePreminedBeaconStateFromEth1 sp B kv deposits header version)
     (InitializePreminedBeaconStateFromEth1 sp mem_branching (mem_kv addr) deposits header version)"
  unfolding InitializePreminedBeaconStateFromEth1_def Let_def
  by (intro simulates_bindM simulates_on_handle simulates_Save)
    (intro simulation store_sims processDeposit_sim epoch_sims)+

end

interpretation mem_store: beacon_store "mem_kv addr" "\<lambda>w. w" addr mem_branching for addr
  by unfold_locales

end
