(* ===== verification/Demo.thy ===== *)
theory Demo
  imports Registry Processor
begin

unbundle bit_operations_syntax

section \<open>A concrete instance of the parameters\<close>

text \<open>
  What the code takes from outside the repository, instantiated by functions that can be evaluated:
  hash tree roots, a signer, an execution engine and the exclusive or of byte slices, together with
  a chain state of two validators and a block on top of it. The witnesses of the properties evaluate
  the operations here.
\<close>

definition word_root :: "u64 \<Rightarrow> err + b32" where
  "word_root x = Inr (replicate 32 (ucast x))"

definition demo_env :: ssz_env where
  "demo_env = \<lparr>
     merkle = reference_env (\<lambda>_. zero32) 15,
     htr_ForkData = (\<lambda>_. word_root 1),
     htr_SigningData = (\<lambda>d. Inr (sd_ObjectRoot d)),
     htr_DepositMessage = (\<lambda>d. word_root (dm_Amount d)),
     htr_Validator = (\<lambda>v. word_root (val_EffectiveBalance v)),
     htr_Deposit = (\<lambda>d. word_root (dep_Index d)),
     htr_Withdrawal = (\<lambda>x. word_root (wd_Index x)),
     htr_Eth1Data = (\<lambda>d. word_root (eth1_DepositCount d)),
     htr_BeaconBlockHeader = (\<lambda>h. word_root (hdr_Slot h + 100)),
     htr_ExecutionPayloadHeader = (\<lambda>h. word_root (ph_Number h)),
     htr_BeaconBlockBody = (\<lambda>b. word_root 2),
     htr_BeaconState = (\<lambda>s. word_root (st_Slot s + 50))\<rparr>"

definition demo_signer :: BLSSigner where
  "demo_signer = \<lparr>
     PublicKey = replicate 48 7,
     Sign = (\<lambda>m. Inr (m @ replicate 48 7 @ replicate 16 0)),
     VerifySignature = (\<lambda>p m s. if s = m @ p @ replicate 16 0 then Inr () else Inl (Ext ''bad signature''))\<rparr>"

definition demo_processor :: StateProcessor where
  "demo_processor = NewStateProcessor BaseSpec (\<lambda>_. Inr ()) demo_signer demo_env reference_xor"

definition demo_validator :: "u8 \<Rightarrow> Validator" where
  "demo_validator k = \<lparr>
     val_Pubkey = replicate 48 k,
     val_WithdrawalCredentials = NewCredentialsFromExecutionAddress (replicate 20 k),
     val_EffectiveBalance = 32000000000,
     val_Slashed = False,
     val_ActivationEligibilityEpoch = FarFutureEpoch,
     val_ActivationEpoch = FarFutureEpoch,
     val_ExitEpoch = FarFutureEpoch,
     val_WithdrawableEpoch = FarFutureEpoch\<rparr>"

definition demo_payload_header :: ExecutionPayloadHeaderDeneb where
  "demo_payload_header = \<lparr>
     ph_ParentHash = zero32, ph_FeeRecipient = replicate 20 0, ph_StateRoot = zero32,
     ph_ReceiptsRoot = zero32, ph_LogsBloom = replicate 256 0, ph_Random = zero32, ph_Number = 0,
     ph_GasLimit = 0, ph_GasUsed = 0, ph_Timestamp = 0, ph_ExtraData = [],
     ph_BaseFeePerGas = zero32, ph_BlockHash = replicate 32 9, ph_TransactionsRoot = zero32,
     ph_WithdrawalsRoot = zero32, ph_BlobGasUsed = 0, ph_ExcessBlobGas = 0\<rparr>"

definition demo_roots :: "bytes entries" where
  "demo_roots = map (\<lambda>i. (i, zero32)) (range_u64 8)"

definition demo_view :: kv_view where
  "demo_view = \<lparr>
     v_genesisValidatorsRoot = Some zero32,
     v_slot = Some 3,
     v_fork = Some (NewFork [4, 0, 0, 0] [4, 0, 0, 0] 0),
     v_latestBlockHeader = Some (NewBeaconBlockHeader 3 0 zero32 zero32 zero32),
     v_blockRoots = demo_roots,
     v_stateRoots = demo_roots,
     v_eth1Data = Some (NewEth1Data zero32 0 zero32),
     v_eth1DepositIndex = Some 0,
     v_latestExecutionPayloadVersion = Some Deneb,
     v_latestExecutionPayloadHeader = Some demo_payload_header,
     v_validatorIndex = 2,
     v_validators = [(0, demo_validator 7), (1, demo_validator 8)],
     v_balances = [(0, 32000000005), (1, 31000000000)],
     v_nextWithdrawalIndex = Some 40,
     v_nextWithdrawalValidatorIndex = Some 1,
     v_randaoMix = demo_roots,
     v_slashings = [],
     v_totalSlashing = Some 0\<rparr>"

text \<open>The withdrawals this state expects, a block body that pays them and a block on top.\<close>

definition demo_withdrawals :: "Withdrawal list" where
  "demo_withdrawals = [
     \<lparr>wd_Index = 40, wd_Validator = 1, wd_Address = replicate 20 8, wd_Amount = 0\<rparr>,
     \<lparr>wd_Index = 41, wd_Validator = 0, wd_Address = replicate 20 7, wd_Amount = 5\<rparr>]"

definition demo_body :: BeaconBlockBodyDeneb where
  "demo_body = \<lparr>bd_RandaoReveal = zero32 @ replicate 48 7 @ replicate 16 0, bd_Eth1Data = None, bd_Graffiti = zero32,
     bd_Deposits = [],
     bd_ExecutionPayload = \<lparr>pl_ParentHash = replicate 32 9, pl_FeeRecipient = replicate 20 0,
       pl_StateRoot = zero32, pl_ReceiptsRoot = zero32, pl_LogsBloom = replicate 256 0,
       pl_Random = zero32, pl_Number = 1, pl_GasLimit = 0, pl_GasUsed = 0, pl_Timestamp = 0,
       pl_ExtraData = [], pl_BaseFeePerGas = zero32, pl_BlockHash = replicate 32 10,
       pl_Transactions = [], pl_Withdrawals = demo_withdrawals, pl_BlobGasUsed = 0,
       pl_ExcessBlobGas = 0\<rparr>,
     bd_BlobKzgCommitments = []\<rparr>"

definition demo_block :: BeaconBlockDeneb where
  "demo_block = \<lparr>blk_Slot = 4, blk_ProposerIndex = 0, blk_ParentBlockRoot = replicate 32 103,
     blk_StateRoot = replicate 32 54, blk_Body = demo_body\<rparr>"

text \<open>The fields of the instance, for the simplifier.\<close>

lemma demo_view_simps [simp]:
  "v_genesisValidatorsRoot demo_view = Some zero32"
  "v_slot demo_view = Some 3"
  "v_fork demo_view = Some (NewFork [4, 0, 0, 0] [4, 0, 0, 0] 0)"
  "v_latestBlockHeader demo_view = Some (NewBeaconBlockHeader 3 0 zero32 zero32 zero32)"
  "v_blockRoots demo_view = demo_roots"
  "v_stateRoots demo_view = demo_roots"
  "v_eth1Data demo_view = Some (NewEth1Data zero32 0 zero32)"
  "v_eth1DepositIndex demo_view = Some 0"
  "v_latestExecutionPayloadVersion demo_view = Some Deneb"
  "v_latestExecutionPayloadHeader demo_view = Some demo_payload_header"
  "v_validatorIndex demo_view = 2"
  "v_validators demo_view = [(0, demo_validator 7), (1, demo_validator 8)]"
  "v_balances demo_view = [(0, 32000000005), (1, 31000000000)]"
  "v_nextWithdrawalIndex demo_view = Some 40"
  "v_nextWithdrawalValidatorIndex demo_view = Some 1"
  "v_randaoMix demo_view = demo_roots"
  "v_slashings demo_view = []"
  "v_totalSlashing demo_view = Some 0"
  by (simp_all add: demo_view_def)

lemma BaseSpec_simps [simp]:
  "MinDepositAmount BaseSpec = 1000000000"
  "MaxEffectiveBalance BaseSpec = 32000000000"
  "EjectionBalance BaseSpec = 16000000000"
  "EffectiveBalanceIncrement BaseSpec = 1000000000"
  "SlotsPerEpoch BaseSpec = 32"
  "SlotsPerHistoricalRoot BaseSpec = 8"
  "MinEpochsToInactivityPenalty BaseSpec = 4"
  "DomainTypeProposer BaseSpec = [0, 0, 0, 0]"
  "DomainTypeAttester BaseSpec = [1, 0, 0, 0]"
  "DomainTypeRandao BaseSpec = [2, 0, 0, 0]"
  "DomainTypeDeposit BaseSpec = [3, 0, 0, 0]"
  "DomainTypeVoluntaryExit BaseSpec = [4, 0, 0, 0]"
  "DomainTypeSelectionProof BaseSpec = [5, 0, 0, 0]"
  "DomainTypeAggregateAndProof BaseSpec = [6, 0, 0, 0]"
  "DomainTypeApplicationMask BaseSpec = [0, 0, 0, 1]"
  "DepositContractAddress BaseSpec = replicate 20 0x42"
  "MaxDepositsPerBlock BaseSpec = 16"
  "DepositEth1ChainID BaseSpec = 80084"
  "Eth1FollowDistance BaseSpec = 1"
  "TargetSecondsPerEth1Block BaseSpec = 3"
  "ElectraForkEpoch BaseSpec = 9999999999999999"
  "EpochsPerHistoricalVector BaseSpec = 8"
  "EpochsPerSlashingsVector BaseSpec = 8"
  "HistoricalRootsLimit BaseSpec = 8"
  "ValidatorRegistryLimit BaseSpec = 1099511627776"
  "InactivityPenaltyQuotient BaseSpec = 0"
  "ProportionalSlashingMultiplier BaseSpec = 1"
  "MaxWithdrawalsPerPayload BaseSpec = 16"
  "MaxValidatorsPerWithdrawalsSweep BaseSpec = push_bit 14 1"
  "MinEpochsForBlobsSidecarsRequest BaseSpec = 4096"
  "MaxBlobCommitmentsPerBlock BaseSpec = 16"
  "MaxBlobsPerBlock BaseSpec = 6"
  "FieldElementsPerBlob BaseSpec = 4096"
  "BytesPerBlob BaseSpec = 131072"
  "KZGCommitmentInclusionProofDepth BaseSpec = 17"
  by (simp_all add: BaseSpec_def)

lemma demo_processor_simps [simp]:
  "cs demo_processor = BaseSpec" "signer demo_processor = demo_signer"
  "executionEngine demo_processor = (\<lambda>_. Inr ())" "sszEnv demo_processor = demo_env"
  "xor_Bytes demo_processor = reference_xor"
  by (simp_all add: demo_processor_def NewStateProcessor_def)

lemma demo_body_simps [simp]:
  "bd_Deposits demo_body = []" "bd_RandaoReveal demo_body = zero32 @ replicate 48 7 @ replicate 16 0"
  "pl_Withdrawals (bd_ExecutionPayload demo_body) = demo_withdrawals"
  "pl_ParentHash (bd_ExecutionPayload demo_body) = replicate 32 9"
  "pl_Random (bd_ExecutionPayload demo_body) = zero32"
  "pl_Transactions (bd_ExecutionPayload demo_body) = []"
  "bd_BlobKzgCommitments demo_body = []"
  by (simp_all add: demo_body_def)

lemma demo_block_simps [simp]:
  "blk_Slot demo_block = 4" "blk_ProposerIndex demo_block = 0"
  "blk_ParentBlockRoot demo_block = replicate 32 103" "blk_StateRoot demo_block = replicate 32 54"
  "blk_Body demo_block = demo_body"
  by (simp_all add: demo_block_def)

lemma demo_env_simps [simp]:
  "merkle demo_env = reference_env (\<lambda>_. zero32) 15"
  "htr_BeaconBlockHeader demo_env h = word_root (hdr_Slot h + 100)"
  "htr_BeaconBlockBody demo_env b = word_root 2"
  "htr_BeaconState demo_env st = word_root (st_Slot st + 50)"
  "htr_ForkData demo_env fd = word_root 1"
  "htr_SigningData demo_env d = Inr (sd_ObjectRoot d)"
  "htr_DepositMessage demo_env dm = word_root (dm_Amount dm)"
  "htr_Withdrawal demo_env x = word_root (wd_Index x)"
  "htr_Validator demo_env v = word_root (val_EffectiveBalance v)"
  by (simp_all add: demo_env_def)

lemma demo_registry_ok: "registry_ok demo_view"
  by (simp add: registry_ok_def demo_view_def range_u64_def demo_validator_def upt_rec)

lemma demo_slashings_ok: "slashings_ok demo_view"
  by (simp add: slashings_ok_def demo_view_def ordered_def total_slashing_def)

end
