(* ===== verification/Withdrawals.thy ===== *)
theory Withdrawals
  imports Demo
begin

section \<open>The withdrawal sweep\<close>

text \<open>
  A closed form of \<open>ExpectedWithdrawals\<close>: the withdrawals of consecutive validators, cyclically from
  the stored position, numbered consecutively. It gives the exact effect of \<open>processWithdrawals\<close>
  and the conservation of the balances. The lemmas are on the store that keeps its view; the
  properties carry them to every lawful store.
\<close>

subsection \<open>The reference definition\<close>

definition withdrawal_at :: "SpecData \<Rightarrow> kv_view \<Rightarrow> u64 \<Rightarrow> u64 \<Rightarrow> u64 \<Rightarrow> err + Withdrawal" where
  "withdrawal_at spec w epoch index i =
     bindE (from_option ErrNotFound (map_of (v_validators w) i)) (\<lambda>v.
     bindE (from_option ErrNotFound (map_of (v_balances w) i)) (\<lambda>b.
     bindE (ToExecutionAddress (val_WithdrawalCredentials v)) (\<lambda>a.
     Inr \<lparr>wd_Index = index, wd_Validator = i, wd_Address = a,
          wd_Amount = (if IsFullyWithdrawable v b epoch then b
                       else if IsPartiallyWithdrawable v b (MaxEffectiveBalance spec)
                       then b - MaxEffectiveBalance spec else 0)\<rparr>)))"

definition sweep_index :: "u64 \<Rightarrow> u64 \<Rightarrow> nat \<Rightarrow> u64" where
  "sweep_index tot start k = of_nat ((unat start + k) mod unat tot)"

definition sweep_count :: "int \<Rightarrow> nat \<Rightarrow> nat \<Rightarrow> nat" where
  "sweep_count limit found n =
     (if int found < limit \<and> limit \<le> int (found + n) then nat limit - found else n)"

lemma sweep_index_0: "start < tot \<Longrightarrow> sweep_index tot start 0 = start"
  by (simp add: sweep_index_def word_less_nat_alt)

lemma unat_sweep_index:
  "0 < tot \<Longrightarrow> unat (sweep_index tot start k) = (unat start + k) mod unat tot"
proof -
  assume "0 < tot"
  then have "(unat start + k) mod unat tot < unat tot" by (simp add: word_less_nat_alt)
  also have "\<dots> < 2 ^ 64" using unsigned_less [of tot, where ?'a = nat] by simp
  finally show ?thesis by (simp add: sweep_index_def unat_of_nat)
qed

lemma sweep_index_less: "0 < tot \<Longrightarrow> sweep_index tot start k < tot"
  by (simp add: word_less_nat_alt unat_sweep_index)

lemma sweep_index_Suc:
  assumes "start < tot"
  shows "sweep_index tot ((start + 1) mod tot) k = sweep_index tot start (Suc k)"
proof -
  have "unat ((start + 1) mod tot) = (unat start + 1) mod unat tot"
    by (simp add: unat_mod unat_plus_one [OF assms])
  then show ?thesis by (simp add: sweep_index_def mod_add_left_eq)
qed

lemma sweep_index_inj:
  assumes "0 < tot" and "n \<le> unat tot"
  shows "distinct (map (sweep_index tot start) [0..<n])"
proof -
  have "inj_on (sweep_index tot start) {0..<n}"
  proof (rule inj_onI)
    fix j k assume jk: "j \<in> {0..<n}" "k \<in> {0..<n}" "sweep_index tot start j = sweep_index tot start k"
    then have "(unat start + j) mod unat tot = (unat start + k) mod unat tot"
      using unat_sweep_index [OF assms(1)] by metis
    then have "int (unat start + j) mod int (unat tot) = int (unat start + k) mod int (unat tot)"
      by (metis of_nat_mod)
    then have "int j mod int (unat tot) = int k mod int (unat tot)"
      by (simp add: mod_eq_dvd_iff)
    moreover have "j < unat tot" "k < unat tot" using jk assms(2) by simp_all
    ultimately show "j = k" by (metis mod_less of_nat_eq_iff of_nat_mod)
  qed
  then show ?thesis by (simp add: distinct_map)
qed

subsection \<open>The loop\<close>

lemma mem_sweep_withdrawal:
  "sweep_withdrawal (mem_kv addr) spec epoch index i w = (withdrawal_at spec w epoch index i, w)"
  by (simp add: sweep_withdrawal_def withdrawal_at_def mem_ops bindM_def bindE_def
      split: option.splits sum.splits)

lemma mapE_map: "mapE f (map g xs) = mapE (\<lambda>x. f (g x)) xs"
  by (induction xs) simp_all

lemma mapE_upt_Suc:
  "mapE f [0..<Suc n] = bindE (f 0) (\<lambda>y. bindE (mapE (\<lambda>k. f (Suc k)) [0..<n]) (\<lambda>ys. Inr (y # ys)))"
proof -
  have "[0..<Suc n] = 0 # map Suc [0..<n]" by (simp add: upt_conv_Cons map_Suc_upt)
  then show ?thesis by (simp only: mapE.simps mapE_map)
qed

lemma mem_sweep:
  assumes "start < tot"
  shows "sweep (mem_kv addr) spec epoch tot n index start ws w =
    (bindE (mapE (\<lambda>k. withdrawal_at spec w epoch (index + of_nat k) (sweep_index tot start k))
        [0..<sweep_count (sint (MaxWithdrawalsPerPayload spec)) (length ws) n]) (\<lambda>xs. Inr (ws @ xs)), w)"
  using assms
proof (induction n arbitrary: index start ws)
  case 0
  then show ?case by (auto simp: sweep_count_def)
next
  case (Suc n)
  let ?M = "sint (MaxWithdrawalsPerPayload spec)"
  let ?next = "(start + 1) mod tot"
  have "tot \<noteq> 0" using Suc.prems by auto
  then have next_less: "?next < tot" by (simp add: word_mod_less_divisor word_gt_0)
  have one: "sweep_count ?M (length ws) (Suc n) = 1" if "int (length ws) + 1 = ?M"
    using that by (auto simp: sweep_count_def)
  have more: "sweep_count ?M (length ws) (Suc n) = Suc (sweep_count ?M (Suc (length ws)) n)"
    if "int (length ws) + 1 \<noteq> ?M"
    using that by (auto simp: sweep_count_def)
  show ?case
  proof (cases "withdrawal_at spec w epoch index start")
    case (Inl e)
    then show ?thesis
      using one more Suc.prems
      by (cases "int (length ws) + 1 = ?M")
        (simp_all add: mem_sweep_withdrawal sweep_index_0 mapE_upt_Suc del: upt_Suc)
  next
    case (Inr x)
    then have "sweep (mem_kv addr) spec epoch tot (Suc n) index start ws w =
        (if int (length ws) + 1 = ?M then (Inr (ws @ [x]), w)
         else sweep (mem_kv addr) spec epoch tot n (index + 1) ?next (ws @ [x]) w)"
      using \<open>tot \<noteq> 0\<close> by (simp add: mem_sweep_withdrawal add.commute)
    then show ?thesis
      using one more Suc.prems Inr Suc.IH [OF next_less, of "index + 1" "ws @ [x]"]
      by (cases "int (length ws) + 1 = ?M")
        (simp_all add: sweep_index_0 mapE_upt_Suc sweep_index_Suc add.assoc bindE_def
          split: sum.splits del: upt_Suc)
  qed
qed

text \<open>The withdrawals a state expects, as a function of its contents.\<close>

definition expected_withdrawals :: "SpecData \<Rightarrow> kv_view \<Rightarrow> u64 \<Rightarrow> u64 \<Rightarrow> u64 \<Rightarrow> err + Withdrawal list" where
  "expected_withdrawals spec w slot index start =
     (let tot = v_validatorIndex w in
      mapE (\<lambda>k. withdrawal_at spec w (slot div SlotsPerEpoch spec) (index + of_nat k) (sweep_index tot start k))
        [0..<sweep_count (sint (MaxWithdrawalsPerPayload spec)) 0
           (unat (min (MaxValidatorsPerWithdrawalsSweep spec) tot))])"

lemma mem_ExpectedWithdrawals:
  assumes "registry_ok w" and "start < v_validatorIndex w" and "SlotsPerEpoch spec \<noteq> 0"
    and "v_slot w = Some slot" and "v_nextWithdrawalIndex w = Some index"
    and "v_nextWithdrawalValidatorIndex w = Some start"
  shows "ExpectedWithdrawals (mem_kv addr) spec w = (expected_withdrawals spec w slot index start, w)"
  using assms registry_total [OF assms(1)]
  by (simp add: ExpectedWithdrawals_def bindM_def mem_ops mem_sweep expected_withdrawals_def
      bindE_def Let_def split: sum.splits)

subsection \<open>The expected withdrawals\<close>

lemma withdrawal_at_Inr:
  assumes "withdrawal_at spec w epoch index i = Inr x"
  shows "wd_Index x = index" and "wd_Validator x = i"
    and "\<exists>b. map_of (v_balances w) i = Some b \<and> wd_Amount x \<le> b"
  using assms by (auto simp: withdrawal_at_def bindE_Inr IsPartiallyWithdrawable_def Let_def
      word_le_nat_alt unat_sub word_less_nat_alt)

lemma sweep_count_le: "sweep_count limit 0 n \<le> n"
  by (auto simp: sweep_count_def)

lemma expected_withdrawals_Inr:
  assumes "expected_withdrawals spec w slot index start = Inr ws"
  shows "length ws = sweep_count (sint (MaxWithdrawalsPerPayload spec)) 0
      (unat (min (MaxValidatorsPerWithdrawalsSweep spec) (v_validatorIndex w)))"
    and "k < length ws \<Longrightarrow> withdrawal_at spec w (slot div SlotsPerEpoch spec) (index + of_nat k)
      (sweep_index (v_validatorIndex w) start k) = Inr (ws ! k)"
  using mapE_InrD [OF assms [unfolded expected_withdrawals_def Let_def]]
  by (auto simp: list_all2_conv_all_nth)

lemma expected_withdrawals_validators:
  assumes "expected_withdrawals spec w slot index start = Inr ws"
  shows "map wd_Validator ws = map (sweep_index (v_validatorIndex w) start) [0..<length ws]"
  using withdrawal_at_Inr(2) [OF expected_withdrawals_Inr(2) [OF assms]]
  by (auto intro: nth_equalityI)

lemma expected_withdrawals_distinct:
  assumes "expected_withdrawals spec w slot index start = Inr ws"
  shows "distinct (map wd_Validator ws)"
proof (cases "v_validatorIndex w = 0")
  case True
  then show ?thesis
    using expected_withdrawals_Inr(1) [OF assms] sweep_count_le [of _ 0]
    by (simp add: min_def split: if_splits)
next
  case False
  have "length ws \<le> unat (min (MaxValidatorsPerWithdrawalsSweep spec) (v_validatorIndex w))"
    using expected_withdrawals_Inr(1) [OF assms] sweep_count_le by metis
  also have "\<dots> \<le> unat (v_validatorIndex w)" by (simp add: min_def word_le_nat_alt)
  finally show ?thesis
    using False expected_withdrawals_validators [OF assms]
    by (simp add: sweep_index_inj word_gt_0)
qed

lemma expected_withdrawals_covered:
  assumes "expected_withdrawals spec w slot index start = Inr ws" and "x \<in> set ws"
  shows "\<exists>b. map_of (v_balances w) (wd_Validator x) = Some b \<and> wd_Amount x \<le> b"
proof -
  from assms(2) obtain k where "k < length ws" "x = ws ! k" by (auto simp: in_set_conv_nth)
  with withdrawal_at_Inr(2,3) [OF expected_withdrawals_Inr(2) [OF assms(1)]] show ?thesis by metis
qed

subsection \<open>Paying them out\<close>

definition withdrawn :: "Withdrawal list \<Rightarrow> u64 \<Rightarrow> u64" where
  "withdrawn ws i = (case map_of (map (\<lambda>x. (wd_Validator x, wd_Amount x)) ws) i of
     None \<Rightarrow> 0 | Some a \<Rightarrow> a)"

fun debit :: "Withdrawal list \<Rightarrow> u64 entries \<Rightarrow> u64 entries" where
  "debit [] m = m"
| "debit (x # ws) m =
     debit ws (put (wd_Validator x) (the (map_of m (wd_Validator x)) - wd_Amount x) m)"

text \<open>Each withdrawal is covered by the balance it is taken from, and no validator pays twice.\<close>

definition covered :: "Withdrawal list \<Rightarrow> u64 entries \<Rightarrow> bool" where
  "covered ws m \<longleftrightarrow> ordered m \<and> distinct (map wd_Validator ws) \<and>
     (\<forall>x \<in> set ws. \<exists>b. map_of m (wd_Validator x) = Some b \<and> wd_Amount x \<le> b)"

lemma covered_step:
  "covered (x # ws) m \<Longrightarrow> covered ws (put (wd_Validator x) b m)"
  by (auto simp: covered_def) (metis image_eqI)

lemma debit_keys: "covered ws m \<Longrightarrow> map fst (debit ws m) = map fst m"
proof (induction ws m rule: debit.induct)
  case (2 x ws m)
  then have "wd_Validator x \<in> fst ` set m" by (auto simp: covered_def dest!: map_of_SomeD) force
  with 2 show ?case
    using keys_put_existing [of m "wd_Validator x"] covered_step [OF 2(2)]
    by (simp add: covered_def)
qed simp

lemma debit_lookup:
  "covered ws m \<Longrightarrow> map_of (debit ws m) i = map_option (\<lambda>b. b - withdrawn ws i) (map_of m i)"
proof (induction ws m rule: debit.induct)
  case (1 m)
  then show ?case by (simp add: withdrawn_def option.map_ident)
next
  case (2 x ws m)
  have "withdrawn ws (wd_Validator x) = 0"
    using 2(2) by (auto simp: covered_def withdrawn_def map_of_eq_None_iff split: option.splits
        dest!: map_of_SomeD)
  moreover have "\<exists>b. map_of m (wd_Validator x) = Some b" using 2(2) by (auto simp: covered_def)
  ultimately show ?case
    using 2(1) [OF covered_step [OF 2(2)]] by (auto simp: withdrawn_def)
qed

lemma debit_sum:
  "covered ws m \<Longrightarrow>
   (\<Sum>e\<leftarrow>debit ws m. unat (snd e)) + (\<Sum>x\<leftarrow>ws. unat (wd_Amount x)) = (\<Sum>e\<leftarrow>m. unat (snd e))"
proof (induction ws m rule: debit.induct)
  case (2 x ws m)
  then obtain b where b: "map_of m (wd_Validator x) = Some b" "wd_Amount x \<le> b"
    by (auto simp: covered_def)
  have "(\<Sum>e\<leftarrow>put (wd_Validator x) (b - wd_Amount x) m. unat (snd e)) + unat b =
      (\<Sum>e\<leftarrow>m. unat (snd e)) + unat (b - wd_Amount x)"
    using sum_put [where m = m and k = "wd_Validator x" and v = "b - wd_Amount x" and f = unat] 2(2) b
    by (simp add: covered_def)
  moreover have "unat (b - wd_Amount x) = unat b - unat (wd_Amount x)" "unat (wd_Amount x) \<le> unat b"
    using b(2) by (simp_all add: unat_sub word_le_nat_alt)
  ultimately show ?case
    using 2(1) [OF covered_step [OF 2(2)]] b by simp
qed simp

lemma Withdrawal_Equals_iff: "Withdrawal_Equals x y \<longleftrightarrow> x = y"
  by (cases x; cases y) (simp add: Withdrawal_Equals_def)

lemma mem_apply_withdrawals:
  assumes "covered ws (v_balances w)" and "length ps = length ws"
  shows "apply_withdrawals (mem_kv addr) (zip ws ps) w =
    (if ps = ws then (Inr (), w\<lparr>v_balances := debit ws (v_balances w)\<rparr>)
     else (Inl (Newf ''withdrawals do not match expected''),
           snd (apply_withdrawals (mem_kv addr) (zip ws ps) w)))"
  using assms
proof (induction ws arbitrary: ps w)
  case (Cons x ws)
  then obtain y ps' where ps: "ps = y # ps'" by (cases ps) auto
  obtain b where "map_of (v_balances w) (wd_Validator x) = Some b" "wd_Amount x \<le> b"
    using Cons.prems(1) by (auto simp: covered_def)
  then have step: "DecreaseBalance (mem_kv addr) (wd_Validator x) (wd_Amount x) w =
      (Inr (), w\<lparr>v_balances := put (wd_Validator x) (the (map_of (v_balances w) (wd_Validator x)) - wd_Amount x)
         (v_balances w)\<rparr>)"
    by (simp add: mem_DecreaseBalance min_def)
  show ?case
    using Cons.IH [of _ ps'] covered_step [OF Cons.prems(1)] Cons.prems(2) step ps
    by (auto simp: Withdrawal_Equals_iff)
qed simp

subsection \<open>The effect of \<open>processWithdrawals\<close>\<close>

definition next_sweep_start :: "SpecData \<Rightarrow> u64 \<Rightarrow> u64 \<Rightarrow> u64 \<Rightarrow> nat \<Rightarrow> u64" where
  "next_sweep_start spec tot index start n =
     (if int n = sint (MaxWithdrawalsPerPayload spec) then (index + of_nat n) mod tot
      else (start + MaxValidatorsPerWithdrawalsSweep spec) mod tot)"

lemma last_index:
  assumes "expected_withdrawals spec w slot index start = Inr ws" and "ws \<noteq> []"
  shows "wd_Index (ws ! (length ws - 1)) + 1 = index + of_nat (length ws)"
proof -
  have "wd_Index (ws ! (length ws - 1)) = index + of_nat (length ws - 1)"
    using withdrawal_at_Inr(1) [OF expected_withdrawals_Inr(2) [OF assms(1)]] assms(2) by simp
  moreover have "of_nat (length ws) = of_nat (length ws - 1) + (1 :: u64)"
    using assms(2) by (metis Suc_pred' add.commute length_greater_0_conv of_nat_Suc)
  ultimately show ?thesis by (simp add: add.assoc)
qed

lemma ExpectedWithdrawals_success:
  assumes "ExpectedWithdrawals (mem_kv addr) spec w = (Inr ws, w')"
  obtains slot index where "v_slot w = Some slot" and "SlotsPerEpoch spec \<noteq> 0"
    and "v_nextWithdrawalIndex w = Some index"
  using assms
  by (auto simp: ExpectedWithdrawals_def bindM_success mem_ops dest: div_u64_InrD)

lemma mem_processWithdrawals:
  assumes reg: "registry_ok w" and start: "v_nextWithdrawalValidatorIndex w = Some start"
    "start < v_validatorIndex w"
    and run: "processWithdrawals sp (mem_kv addr) body w = (Inr (), w')"
  obtains slot index ws where "v_slot w = Some slot" and "SlotsPerEpoch (cs sp) \<noteq> 0"
    and "v_nextWithdrawalIndex w = Some index"
    and "expected_withdrawals (cs sp) w slot index start = Inr ws"
    and "pl_Withdrawals (bd_ExecutionPayload body) = ws"
    and "covered ws (v_balances w)"
    and "w' = w\<lparr>v_balances := debit ws (v_balances w),
      v_nextWithdrawalIndex := Some (index + of_nat (length ws)),
      v_nextWithdrawalValidatorIndex :=
        Some (next_sweep_start (cs sp) (v_validatorIndex w) index start (length ws))\<rparr>"
proof -
  from run obtain ws0 w0 where "ExpectedWithdrawals (mem_kv addr) (cs sp) w = (Inr ws0, w0)"
    by (auto simp: processWithdrawals_def Let_def bindM_success)
  then obtain slot index where si: "v_slot w = Some slot" "SlotsPerEpoch (cs sp) \<noteq> 0"
      "v_nextWithdrawalIndex w = Some index"
    by (rule ExpectedWithdrawals_success)
  note expected = mem_ExpectedWithdrawals [OF reg start(2) si(2,1,3) start(1), of addr]
  with run obtain ws where ws: "expected_withdrawals (cs sp) w slot index start = Inr ws"
    by (auto simp: processWithdrawals_def Let_def bindM_success)
  have cov: "covered ws (v_balances w)"
    using registry_ordered(2) [OF reg] expected_withdrawals_distinct [OF ws]
      expected_withdrawals_covered [OF ws] by (simp add: covered_def)
  let ?ps = "pl_Withdrawals (bd_ExecutionPayload body)"
  from run expected ws have len: "length ?ps = length ws"
    by (auto simp: processWithdrawals_def Let_def split: if_splits)
  have eq: "?ps = ws"
  proof (rule ccontr)
    assume "?ps \<noteq> ws"
    then have "fst (apply_withdrawals (mem_kv addr) (zip ws ?ps) w) =
        Inl (Newf ''withdrawals do not match expected'')"
      using mem_apply_withdrawals [OF cov len, of addr] by (metis fst_conv)
    with run expected ws len show False
      by (auto simp: processWithdrawals_def Let_def bindM_success)
  qed
  have "apply_withdrawals (mem_kv addr) (zip ws ws) w =
      (Inr (), w\<lparr>v_balances := debit ws (v_balances w)\<rparr>)"
    using mem_apply_withdrawals [OF cov, of ws addr] by simp
  moreover have "v_validatorIndex w \<noteq> 0" using start(2) by auto
  ultimately have "w' = w\<lparr>v_balances := debit ws (v_balances w),
      v_nextWithdrawalIndex := Some (index + of_nat (length ws)),
      v_nextWithdrawalValidatorIndex :=
        Some (next_sweep_start (cs sp) (v_validatorIndex w) index start (length ws))\<rparr>"
    using run expected ws eq last_index [OF ws] si start registry_total [OF reg]
    by (cases "ws = []")
      (auto simp: processWithdrawals_def Let_def next_sweep_start_def bindM_def mem_ops
        split: if_splits)
  with si ws eq cov that show thesis by blast
qed

subsection \<open>Properties\<close>

text \<open>
  C12. For every lawful store whose registry is dense and whose sweep position is in range,
  \<open>ExpectedWithdrawals\<close> returns the reference list: the withdrawals of the validators from the
  stored position on, cyclically, as many as the sweep and payload limits allow, numbered from the
  stored index on; it fails exactly when one of these validators has no execution address. In the
  list no validator occurs twice and no amount exceeds the validator's balance, so that no
  withdrawal is cut short when it is paid.
\<close>

theorem ExpectedWithdrawals_sweep:
  assumes "kv_laws kv view addr" and "registry_ok (view c)" and "start < v_validatorIndex (view c)"
    and "SlotsPerEpoch spec \<noteq> 0" and "v_slot (view c) = Some slot"
    and "v_nextWithdrawalIndex (view c) = Some index"
    and "v_nextWithdrawalValidatorIndex (view c) = Some start"
  shows "fst (ExpectedWithdrawals kv spec c) = expected_withdrawals spec (view c) slot index start \<and>
    (\<forall>ws. expected_withdrawals spec (view c) slot index start = Inr ws \<longrightarrow>
      length ws = sweep_count (sint (MaxWithdrawalsPerPayload spec)) 0
        (unat (min (MaxValidatorsPerWithdrawalsSweep spec) (v_validatorIndex (view c)))) \<and>
      (\<forall>k < length ws. wd_Index (ws ! k) = index + of_nat k \<and>
        wd_Validator (ws ! k) = of_nat ((unat start + k) mod unat (v_validatorIndex (view c)))) \<and>
      covered ws (v_balances (view c)))"
proof (intro conjI allI impI)
  show "fst (ExpectedWithdrawals kv spec c) = expected_withdrawals spec (view c) slot index start"
    using simulates_fst [OF kv_laws.state_sims(1) [OF assms(1)], of spec c]
      mem_ExpectedWithdrawals [OF assms(2-7), of addr] by simp
next
  fix ws assume ws: "expected_withdrawals spec (view c) slot index start = Inr ws"
  show "length ws = sweep_count (sint (MaxWithdrawalsPerPayload spec)) 0
      (unat (min (MaxValidatorsPerWithdrawalsSweep spec) (v_validatorIndex (view c))))"
    by (rule expected_withdrawals_Inr(1) [OF ws])
  show "covered ws (v_balances (view c))"
    using registry_ordered(2) [OF assms(2)] expected_withdrawals_distinct [OF ws]
      expected_withdrawals_covered [OF ws] by (simp add: covered_def)
  fix k assume "k < length ws"
  note at = withdrawal_at_Inr(1,2) [OF expected_withdrawals_Inr(2) [OF ws this]]
  show "wd_Index (ws ! k) = index + of_nat k" by (rule at(1))
  show "wd_Validator (ws ! k) = of_nat ((unat start + k) mod unat (v_validatorIndex (view c)))"
    using at(2) by (simp add: sweep_index_def)
qed

text \<open>The demo state: validator 1 has nothing to withdraw, validator 0 its excess of 5 gwei.\<close>

definition demo_accounts :: "kv_view \<Rightarrow> bool" where
  "demo_accounts w \<longleftrightarrow> v_validatorIndex w = 2 \<and> v_validators w = v_validators demo_view \<and>
     v_balances w = v_balances demo_view \<and> v_nextWithdrawalIndex w = Some 40 \<and>
     v_nextWithdrawalValidatorIndex w = Some 1"

lemma demo_accounts_registry: "demo_accounts w \<Longrightarrow> registry_ok w"
  using demo_registry_ok by (simp add: demo_accounts_def registry_ok_def)

lemma demo_expected:
  assumes "demo_accounts w" and "slot div 32 = 0"
  shows "expected_withdrawals BaseSpec w slot 40 1 = Inr demo_withdrawals"
  using assms
  by (simp add: demo_accounts_def expected_withdrawals_def sweep_count_def sweep_index_def
      min_def upt_rec withdrawal_at_def demo_validator_def ToExecutionAddress_def
      NewCredentialsFromExecutionAddress_def EthSecp256k1CredentialPrefix_def to_array_def
      IsFullyWithdrawable_def IsPartiallyWithdrawable_def HasEth1WithdrawalCredentials_def
      HasMaxEffectiveBalance_def FarFutureEpoch_def demo_withdrawals_def)

lemma demo_view_accounts: "demo_accounts demo_view"
  by (simp add: demo_accounts_def)

theorem ExpectedWithdrawals_sweep_witness:
  "fst (ExpectedWithdrawals (mem_kv id) BaseSpec demo_view) = Inr demo_withdrawals"
  using ExpectedWithdrawals_sweep [OF mem.kv_laws_axioms demo_registry_ok, where start = 1 and
      slot = 3 and index = 40 and spec = BaseSpec and addr = id] demo_expected [OF demo_view_accounts]
  by simp

text \<open>
  C13. When \<open>processWithdrawals\<close> accepts a block body, for every lawful store with a dense registry
  and a sweep position in range: the withdrawals of the payload are exactly the expected ones; each
  validator's balance falls by its withdrawal and no other balance changes; what leaves the balances
  is the sum of the withdrawals of the payload; the next withdrawal index advances by their number,
  the sweep position stays in range, the registry stays dense and no other part of the state
  changes.
\<close>

theorem processWithdrawals_effect:
  assumes "kv_laws kv view addr" and "registry_ok (view c)"
    and "v_nextWithdrawalValidatorIndex (view c) = Some start"
    and "start < v_validatorIndex (view c)"
    and "processWithdrawals sp kv body c = (Inr (), c')"
    and "ws = pl_Withdrawals (bd_ExecutionPayload body)"
  shows "fst (ExpectedWithdrawals kv (cs sp) c) = Inr ws \<and>
    (\<forall>i. map_of (v_balances (view c')) i =
       map_option (\<lambda>b. b - withdrawn ws i) (map_of (v_balances (view c)) i)) \<and>
    (\<Sum>e\<leftarrow>v_balances (view c'). unat (snd e)) + (\<Sum>x\<leftarrow>ws. unat (wd_Amount x)) =
      (\<Sum>e\<leftarrow>v_balances (view c). unat (snd e)) \<and>
    (\<exists>index start'. v_nextWithdrawalIndex (view c) = Some index \<and> start' < v_validatorIndex (view c) \<and>
       view c' = (view c)\<lparr>v_balances := v_balances (view c'),
         v_nextWithdrawalIndex := Some (index + of_nat (length ws)),
         v_nextWithdrawalValidatorIndex := Some start'\<rparr>) \<and>
    registry_ok (view c')"
proof -
  have "processWithdrawals sp (mem_kv addr) body (view c) = (Inr (), view c')"
    by (rule simulates_success [OF kv_laws.staking_sims(3) [OF assms(1)] assms(5)])
  then obtain slot index ws' where run: "v_slot (view c) = Some slot" "SlotsPerEpoch (cs sp) \<noteq> 0"
      "v_nextWithdrawalIndex (view c) = Some index"
      "expected_withdrawals (cs sp) (view c) slot index start = Inr ws'"
      "pl_Withdrawals (bd_ExecutionPayload body) = ws'" and cov: "covered ws' (v_balances (view c))"
    and eff: "view c' = (view c)\<lparr>v_balances := debit ws' (v_balances (view c)),
        v_nextWithdrawalIndex := Some (index + of_nat (length ws')),
        v_nextWithdrawalValidatorIndex :=
          Some (next_sweep_start (cs sp) (v_validatorIndex (view c)) index start (length ws'))\<rparr>"
    by (rule mem_processWithdrawals [OF assms(2-4)])
  have ws: "ws = ws'" using assms(6) run(5) by simp
  have "fst (ExpectedWithdrawals kv (cs sp) c) = Inr ws"
    using simulates_fst [OF kv_laws.state_sims(1) [OF assms(1)], of "cs sp" c]
      mem_ExpectedWithdrawals [OF assms(2,4) run(2,1,3) assms(3), of addr] run(4) ws by simp
  moreover have "next_sweep_start (cs sp) (v_validatorIndex (view c)) index start (length ws) <
      v_validatorIndex (view c)"
    using assms(4) by (auto simp: next_sweep_start_def word_gt_0 intro!: word_mod_less_divisor)
  moreover have "registry_ok (view c')"
    using assms(2) debit_keys [OF cov] eff by (simp add: registry_ok_def)
  ultimately show ?thesis
    using eff run(3) ws debit_lookup [OF cov] debit_sum [OF cov]
    by (intro conjI allI exI [of _ index] exI
        [of _ "next_sweep_start (cs sp) (v_validatorIndex (view c)) index start (length ws)"]) simp_all
qed

lemma demo_covered: "demo_accounts w \<Longrightarrow> covered demo_withdrawals (v_balances w)"
  using expected_withdrawals_distinct [OF demo_expected, of w 3]
    expected_withdrawals_covered [OF demo_expected, of w 3]
    registry_ordered(2) [OF demo_accounts_registry, of w] by (simp add: covered_def)

lemma demo_processWithdrawals:
  assumes acc: "demo_accounts w" and slot: "v_slot w = Some slot" "slot div 32 = 0"
  shows "processWithdrawals demo_processor (mem_kv id) demo_body w =
     (Inr (), w\<lparr>v_balances := debit demo_withdrawals (v_balances demo_view),
        v_nextWithdrawalIndex := Some 42, v_nextWithdrawalValidatorIndex := Some 1\<rparr>)"
proof -
  have fields: "v_validatorIndex w = 2" "v_validators w = v_validators demo_view"
    "v_balances w = v_balances demo_view" "v_nextWithdrawalIndex w = Some 40"
    "v_nextWithdrawalValidatorIndex w = Some 1"
    using acc by (simp_all add: demo_accounts_def)
  have "ExpectedWithdrawals (mem_kv id) (cs demo_processor) w = (Inr demo_withdrawals, w)"
    using mem_ExpectedWithdrawals [OF demo_accounts_registry [OF acc], where start = 1 and slot = slot
        and index = 40 and spec = BaseSpec and addr = id] demo_expected [OF acc slot(2)] fields slot(1)
    by simp
  moreover have "length demo_withdrawals = 2" "wd_Index (demo_withdrawals ! 1) = 41"
    by (simp_all add: demo_withdrawals_def)
  ultimately show ?thesis
    using mem_apply_withdrawals [OF demo_covered [OF acc], of demo_withdrawals id] fields
    by (simp add: processWithdrawals_def mem_ops)
qed

theorem processWithdrawals_effect_witness:
  "\<exists>w'. processWithdrawals demo_processor (mem_kv id) demo_body demo_view = (Inr (), w') \<and>
     (\<Sum>e\<leftarrow>v_balances w'. unat (snd e)) + 5 = (\<Sum>e\<leftarrow>v_balances demo_view. unat (snd e))"
proof -
  note run = demo_processWithdrawals [OF demo_view_accounts, of 3]
  have paid: "(\<Sum>x\<leftarrow>demo_withdrawals. unat (wd_Amount x)) = 5" by (simp add: demo_withdrawals_def)
  show ?thesis
    using processWithdrawals_effect [OF mem.kv_laws_axioms demo_registry_ok _ _ run refl, of 1, THEN conjunct2, THEN conjunct2, THEN conjunct1] paid
    by (simp add: run del: debit.simps)
qed

end
