(* ===== verification/Deposits.thy ===== *)
theory Deposits
  imports Demo
begin

section \<open>Deposits and the growth of the registry\<close>

text \<open>
  The exact effect of \<open>processDeposit\<close>, for a known public key and for a new one, and what a whole
  list of deposits keeps: a dense registry in which every public key and every address occurs once
  and no effective balance exceeds the maximum.
\<close>

subsection \<open>Registry invariants\<close>

definition addresses_ok :: "(bytes \<Rightarrow> bytes) \<Rightarrow> kv_view \<Rightarrow> bool" where
  "addresses_ok addr w \<longleftrightarrow> distinct (map (\<lambda>e. addr (val_Pubkey (snd e))) (v_validators w))"

definition effective_ok :: "SpecData \<Rightarrow> kv_view \<Rightarrow> bool" where
  "effective_ok spec w \<longleftrightarrow>
     (\<forall>e \<in> set (v_validators w). val_EffectiveBalance (snd e) \<le> MaxEffectiveBalance spec)"

definition pubkeys :: "kv_view \<Rightarrow> bytes set" where
  "pubkeys w = (\<lambda>e. val_Pubkey (snd e)) ` set (v_validators w)"

lemma registry_keys_less: "registry_ok w \<Longrightarrow> k \<in> fst ` set (v_validators w) \<Longrightarrow> k < v_validatorIndex w"
  and balance_keys_less: "registry_ok w \<Longrightarrow> k \<in> fst ` set (v_balances w) \<Longrightarrow> k < v_validatorIndex w"
  by (auto simp: registry_ok_def intro: range_keys_less)

lemma map_put_existing:
  assumes "ordered m" and "map_of m k = Some v" and "f v' = f v"
  shows "map (\<lambda>e. f (snd e)) (put k v' m) = map (\<lambda>e. f (snd e)) m"
  using assms
proof (induction k v' m rule: put.induct)
  case (2 k v' k' x m)
  have "k' < k" if "k \<noteq> k'"
    using 2 that by (auto simp: ordered_def dest!: map_of_SomeD)
  with 2 show ?case by (auto simp: ordered_def)
qed simp

lemma registry_ok_put:
  assumes "registry_ok w" and "map_of (v_validators w) i = Some v" and "val_Pubkey v' = val_Pubkey v"
  shows "registry_ok (w\<lparr>v_validators := put i v' (v_validators w)\<rparr>)"
proof -
  have "i \<in> fst ` set (v_validators w)" using assms(2) by (force dest: map_of_SomeD)
  then show ?thesis
    using assms registry_ordered(1) [OF assms(1)]
    by (simp add: registry_ok_def keys_put_existing map_put_existing [where f = val_Pubkey])
qed

lemma registry_ok_append:
  assumes "registry_ok w" and "val_Pubkey val \<notin> pubkeys w"
    and "unat (v_validatorIndex w) + 1 < 2 ^ 64"
  shows "registry_ok (w\<lparr>v_validatorIndex := v_validatorIndex w + 1,
    v_validators := v_validators w @ [(v_validatorIndex w, val)],
    v_balances := v_balances w @ [(v_validatorIndex w, b)]\<rparr>)"
proof -
  have "unat (v_validatorIndex w + 1) = unat (v_validatorIndex w) + 1"
    using unat_add_lem [of "v_validatorIndex w" 1] assms(3) by simp
  then show ?thesis
    using assms(1,2) by (simp add: registry_ok_def pubkeys_def range_u64_Suc)
qed

subsection \<open>One deposit\<close>

definition deposit_fork :: "StateProcessor \<Rightarrow> kv_view \<Rightarrow> ForkData \<Rightarrow> bool" where
  "deposit_fork sp w fd \<longleftrightarrow>
     (case (v_slot w, v_genesisValidatorsRoot w) of
        (Some slot, Some root) \<Rightarrow>
          SlotsPerEpoch (cs sp) \<noteq> 0 \<and> 32 \<le> length root \<and>
          fd = NewForkData (FromUint32 (ActiveForkVersionForEpoch (cs sp)
                 (slot div SlotsPerEpoch (cs sp)))) (take 32 root)
      | _ \<Rightarrow> False)"

definition with_new_validator :: "kv_view \<Rightarrow> Validator \<Rightarrow> u64 \<Rightarrow> kv_view" where
  "with_new_validator w val balance =
     (let i = v_validatorIndex w in
      w\<lparr>v_validatorIndex := i + 1, v_validators := v_validators w @ [(i, val)],
        v_balances := v_balances w @ [(i, balance)]\<rparr>)"

lemma mem_addValidatorToRegistry:
  assumes reg: "registry_ok w" and new: "dep_Pubkey dep \<notin> pubkeys w"
    and run: "addValidatorToRegistry sp (mem_kv addr) dep w = (Inr (), w')"
  obtains val where "NewValidatorFromDeposit (dep_Pubkey dep) (dep_Credentials dep) (dep_Amount dep)
      (EffectiveBalanceIncrement (cs sp)) (MaxEffectiveBalance (cs sp)) = Inr val"
    and "\<not> conflicts addr (v_validators w) (v_validatorIndex w) val"
    and "w' = with_new_validator w val (val_EffectiveBalance val + dep_Amount dep)"
proof -
  from run obtain val where val: "NewValidatorFromDeposit (dep_Pubkey dep) (dep_Credentials dep)
      (dep_Amount dep) (EffectiveBalanceIncrement (cs sp)) (MaxEffectiveBalance (cs sp)) = Inr val"
    by (auto simp: addValidatorToRegistry_def bindM_success)
  then have pk: "val_Pubkey val = dep_Pubkey dep"
    by (auto simp: NewValidatorFromDeposit_def bindE_Inr)
  let ?i = "v_validatorIndex w"
  from run val have nc: "\<not> conflicts addr (v_validators w) ?i val"
    by (auto simp: addValidatorToRegistry_def bindM_success mem_ops Let_def split: if_splits)
  have app: "put ?i x (v_balances w) = v_balances w @ [(?i, x)]" for x
    by (rule put_append) (rule balance_keys_less [OF reg])
  have app': "put ?i x (v_validators w) = v_validators w @ [(?i, x)]" for x
    by (rule put_append) (rule registry_keys_less [OF reg])
  have keys: "?i \<notin> fst ` set (v_balances w)" using balance_keys_less [OF reg, of ?i] by auto
  have put2: "put ?i x (v_balances w @ [(?i, y)]) = v_balances w @ [(?i, x)]" for x y
    by (simp flip: app)
  have "by_pubkey (v_validators w @ [(?i, val)]) (dep_Pubkey dep) = Some ?i"
    using new pk by_pubkey_None [of "v_validators w" "dep_Pubkey dep"]
    by (simp add: by_pubkey_def pubkeys_def map_add_def)
  moreover have "map_of (v_balances w @ [(?i, y)]) ?i = Some y" for y
    using keys by (simp add: map_add_def map_of_eq_None_iff [THEN iffD2])
  ultimately show thesis
    using that [OF val nc] run val nc pk
    by (auto simp: addValidatorToRegistry_def bindM_success mem_ops Let_def app app' put2
        mem_IncreaseBalance with_new_validator_def)
qed

lemma mem_createValidator:
  assumes "createValidator sp (mem_kv addr) dep w = (Inr (), w')"
  obtains fd where "deposit_fork sp w fd"
    and "Deposit_VerifySignature (sszEnv sp) dep fd (DomainTypeDeposit (cs sp))
      (VerifySignature (signer sp)) = Inr ()"
    and "addValidatorToRegistry sp (mem_kv addr) dep w = (Inr (), w')"
  using assms
  by (auto simp: createValidator_def bindM_success mem_ops bindE_Inr SlotToEpoch_def deposit_fork_def
      to_array_def dest!: div_u64_InrD split: if_splits)

lemma mem_processDeposit:
  assumes reg: "registry_ok w"
    and run: "processDeposit sp (mem_kv addr) dep w = (Inr (), w')"
  obtains (existing) n i v where "v_eth1DepositIndex w = Some n"
    and "map_of (v_validators w) i = Some v" and "val_Pubkey v = dep_Pubkey dep"
    and "w' = w\<lparr>v_eth1DepositIndex := Some (n + 1), v_validators := put i
        (v\<lparr>val_EffectiveBalance := min (val_EffectiveBalance v + dep_Amount dep) (MaxEffectiveBalance (cs sp))\<rparr>)
        (v_validators w)\<rparr>"
  | (created) n fd val where "v_eth1DepositIndex w = Some n"
    and "dep_Pubkey dep \<notin> pubkeys w" and "deposit_fork sp w fd"
    and "Deposit_VerifySignature (sszEnv sp) dep fd (DomainTypeDeposit (cs sp))
      (VerifySignature (signer sp)) = Inr ()"
    and "NewValidatorFromDeposit (dep_Pubkey dep) (dep_Credentials dep) (dep_Amount dep)
      (EffectiveBalanceIncrement (cs sp)) (MaxEffectiveBalance (cs sp)) = Inr val"
    and "\<not> conflicts addr (v_validators w) (v_validatorIndex w) val"
    and "w' = with_new_validator (w\<lparr>v_eth1DepositIndex := Some (n + 1)\<rparr>) val
      (val_EffectiveBalance val + dep_Amount dep)"
proof -
  from run obtain n where n: "v_eth1DepositIndex w = Some n"
    and run': "applyDeposit sp (mem_kv addr) dep (w\<lparr>v_eth1DepositIndex := Some (n + 1)\<rparr>) = (Inr (), w')"
    (is "applyDeposit sp _ dep ?w = _")
    by (auto simp: processDeposit_def bindM_success mem_ops)
  have reg': "registry_ok ?w" using reg by (simp add: registry_ok_def)
  show thesis
  proof (cases "by_pubkey (v_validators w) (dep_Pubkey dep)")
    case None
    then have new: "dep_Pubkey dep \<notin> pubkeys ?w" by (simp add: by_pubkey_None pubkeys_def)
    from None run' have "createValidator sp (mem_kv addr) dep ?w = (Inr (), w')"
      by (simp add: applyDeposit_def mem_ops)
    then obtain fd where fd: "deposit_fork sp ?w fd"
        "Deposit_VerifySignature (sszEnv sp) dep fd (DomainTypeDeposit (cs sp))
          (VerifySignature (signer sp)) = Inr ()"
        "addValidatorToRegistry sp (mem_kv addr) dep ?w = (Inr (), w')"
      by (rule mem_createValidator)
    from mem_addValidatorToRegistry [OF reg' new fd(3)] created [OF n _ _ fd(2)] fd(1) new
    show thesis by (auto simp: deposit_fork_def pubkeys_def cong: option.case_cong)
  next
    case (Some i)
    then obtain v where v: "map_of (v_validators w) i = Some v" "val_Pubkey v = dep_Pubkey dep"
      by (rule by_pubkey_Some [OF reg])
    with Some run' existing [OF n v] show thesis
      by (auto simp: applyDeposit_def mem_ops bindM_success SetEffectiveBalance_def split: if_splits)
  qed
qed

subsection \<open>A list of deposits\<close>

definition deposits_inv :: "SpecData \<Rightarrow> (bytes \<Rightarrow> bytes) \<Rightarrow> kv_view \<Rightarrow> bool" where
  "deposits_inv spec addr w \<longleftrightarrow> registry_ok w \<and> addresses_ok addr w \<and> effective_ok spec w"

lemma NewValidatorFromDeposit_Inr:
  assumes "NewValidatorFromDeposit pk cred amount inc mx = Inr val"
  shows "val_Pubkey val = pk" "val_WithdrawalCredentials val = cred" "inc \<noteq> 0"
    "val_EffectiveBalance val = min (amount - amount mod inc) mx"
    "val_EffectiveBalance val \<le> mx" "val_EffectiveBalance val \<le> amount" "\<not> val_Slashed val"
proof -
  have le: "amount mod inc \<le> amount" by (simp add: word_le_nat_alt unat_mod)
  show "val_Pubkey val = pk" "val_WithdrawalCredentials val = cred" "inc \<noteq> 0"
    "val_EffectiveBalance val = min (amount - amount mod inc) mx"
    "val_EffectiveBalance val \<le> mx" "\<not> val_Slashed val"
    using assms by (auto simp: NewValidatorFromDeposit_def bindE_Inr dest!: mod_u64_InrD)
  then show "val_EffectiveBalance val \<le> amount"
    using le by (auto simp: min_def word_le_nat_alt unat_sub [OF le])
qed

lemma deposits_inv_existing:
  assumes "deposits_inv spec addr w" and "map_of (v_validators w) i = Some v"
    and "val_Pubkey v' = val_Pubkey v" and "val_EffectiveBalance v' \<le> MaxEffectiveBalance spec"
  shows "deposits_inv spec addr (w\<lparr>v_eth1DepositIndex := n, v_validators := put i v' (v_validators w)\<rparr>)"
    and "pubkeys (w\<lparr>v_eth1DepositIndex := n, v_validators := put i v' (v_validators w)\<rparr>) = pubkeys w"
proof -
  have ord: "ordered (v_validators w)" and reg: "registry_ok w"
    using assms(1) registry_ordered by (auto simp: deposits_inv_def)
  note same = map_put_existing [OF ord assms(2)]
  have "registry_ok (w\<lparr>v_eth1DepositIndex := n, v_validators := put i v' (v_validators w)\<rparr>)"
    using registry_ok_put [OF reg assms(2,3)] by (simp add: registry_ok_def)
  then show "deposits_inv spec addr (w\<lparr>v_eth1DepositIndex := n, v_validators := put i v' (v_validators w)\<rparr>)"
    using assms same [where f = "\<lambda>v. addr (val_Pubkey v)"] set_put [OF ord, of i v']
    by (auto simp: deposits_inv_def addresses_ok_def effective_ok_def)
  show "pubkeys (w\<lparr>v_eth1DepositIndex := n, v_validators := put i v' (v_validators w)\<rparr>) = pubkeys w"
    using arg_cong [OF same [where f = val_Pubkey, OF assms(3)], of set] by (simp add: pubkeys_def)
qed

lemma deposits_inv_created:
  assumes "deposits_inv spec addr w" and "unat (v_validatorIndex w) + 1 < 2 ^ 64"
    and "val_Pubkey val \<notin> pubkeys w" and "val_EffectiveBalance val \<le> MaxEffectiveBalance spec"
    and "\<not> conflicts addr (v_validators w) (v_validatorIndex w) val"
  shows "deposits_inv spec addr (with_new_validator (w\<lparr>v_eth1DepositIndex := n\<rparr>) val b)"
    and "pubkeys (with_new_validator (w\<lparr>v_eth1DepositIndex := n\<rparr>) val b) = insert (val_Pubkey val) (pubkeys w)"
proof -
  have reg: "registry_ok w" using assms(1) by (simp add: deposits_inv_def)
  have "k \<noteq> v_validatorIndex w" if "(k, v) \<in> set (v_validators w)" for k v
    using registry_keys_less [OF reg, of k] that by force
  then have "addr (val_Pubkey val) \<notin> (\<lambda>e. addr (val_Pubkey (snd e))) ` set (v_validators w)"
    using assms(5) by (fastforce simp: conflicts_def list_ex_iff)
  moreover have "registry_ok (with_new_validator (w\<lparr>v_eth1DepositIndex := n\<rparr>) val b)"
    using registry_ok_append [OF reg assms(3,2)]
    by (simp add: registry_ok_def with_new_validator_def Let_def)
  ultimately show "deposits_inv spec addr (with_new_validator (w\<lparr>v_eth1DepositIndex := n\<rparr>) val b)"
    using assms(1,4) by (auto simp: deposits_inv_def addresses_ok_def effective_ok_def
        with_new_validator_def Let_def)
  show "pubkeys (with_new_validator (w\<lparr>v_eth1DepositIndex := n\<rparr>) val b) = insert (val_Pubkey val) (pubkeys w)"
    by (simp add: pubkeys_def with_new_validator_def Let_def)
qed

lemma deposit_step:
  assumes inv: "deposits_inv (cs sp) addr w" and room: "unat (v_validatorIndex w) + 1 < 2 ^ 64"
    and run: "processDeposit sp (mem_kv addr) dep w = (Inr (), w')"
  shows "deposits_inv (cs sp) addr w' \<and> pubkeys w' = insert (dep_Pubkey dep) (pubkeys w) \<and>
    v_eth1DepositIndex w' = map_option (\<lambda>n. n + 1) (v_eth1DepositIndex w) \<and>
    unat (v_validatorIndex w') \<le> unat (v_validatorIndex w) + 1"
proof -
  have reg: "registry_ok w" using inv by (simp add: deposits_inv_def)
  show ?thesis
    using reg run
  proof (cases rule: mem_processDeposit)
    case (existing n i v)
    have "dep_Pubkey dep \<in> pubkeys w"
      using existing(2,3) by (force simp: pubkeys_def dest: map_of_SomeD)
    with existing deposits_inv_existing [OF inv existing(2)] show ?thesis
      by (auto simp: insert_absorb)
  next
    case (created n fd val)
    note new = NewValidatorFromDeposit_Inr [OF created(5)]
    have "unat (v_validatorIndex w + 1) = unat (v_validatorIndex w) + 1"
      using unat_add_lem [of "v_validatorIndex w" 1] room by simp
    with created deposits_inv_created [OF inv room _ _ created(6)] new show ?thesis
      by (auto simp: with_new_validator_def Let_def)
  qed
qed

lemma deposits_steps:
  assumes "deposits_inv (cs sp) addr w" and "unat (v_validatorIndex w) + length deps < 2 ^ 64"
    and "forM deps (processDeposit sp (mem_kv addr)) w = (Inr (), w')"
  shows "deposits_inv (cs sp) addr w' \<and> pubkeys w' = pubkeys w \<union> dep_Pubkey ` set deps \<and>
    v_eth1DepositIndex w' = map_option (\<lambda>n. n + of_nat (length deps)) (v_eth1DepositIndex w)"
  using assms
proof (induction deps arbitrary: w)
  case Nil
  then show ?case by (simp add: option.map_ident)
next
  case (Cons d deps)
  from Cons.prems(3) obtain w1 where w1: "processDeposit sp (mem_kv addr) d w = (Inr (), w1)"
      "forM deps (processDeposit sp (mem_kv addr)) w1 = (Inr (), w')"
    by (auto simp: bindM_success)
  note step = deposit_step [OF Cons.prems(1) _ w1(1)]
  with Cons.prems(2) have "deposits_inv (cs sp) addr w1"
      "unat (v_validatorIndex w1) + length deps < 2 ^ 64" by auto
  from Cons.IH [OF this w1(2)] step Cons.prems(2) show ?case
    by (cases "v_eth1DepositIndex w") (auto simp: add.assoc)
qed

subsection \<open>Properties\<close>

text \<open>
  A deposit for a registered public key always succeeds: it advances the deposit index, raises
  the effective balance of that validator by the amount, capped at the maximum, and changes nothing
  else. In particular the signature is not checked and the balance itself does not change.
\<close>

theorem processDeposit_existing:
  assumes "kv_laws kv view addr" and "registry_ok (view c)" and "addresses_ok addr (view c)"
    and "v_eth1DepositIndex (view c) = Some n" and "map_of (v_validators (view c)) i = Some v"
    and "dep_Pubkey dep = val_Pubkey v"
  shows "\<exists>c'. processDeposit sp kv dep c = (Inr (), c') \<and>
    view c' = (view c)\<lparr>v_eth1DepositIndex := Some (n + 1),
      v_validators := put i (v\<lparr>val_EffectiveBalance :=
        min (val_EffectiveBalance v + dep_Amount dep) (MaxEffectiveBalance (cs sp))\<rparr>)
        (v_validators (view c))\<rparr> \<and> registry_ok (view c')"
proof -
  let ?w = "view c"
  let ?v = "v\<lparr>val_EffectiveBalance :=
    min (val_EffectiveBalance v + dep_Amount dep) (MaxEffectiveBalance (cs sp))\<rparr>"
  let ?w' = "?w\<lparr>v_eth1DepositIndex := Some (n + 1), v_validators := put i ?v (v_validators ?w)\<rparr>"
  have mem: "(i, v) \<in> set (v_validators ?w)" using assms(5) by (rule map_of_SomeD)
  have inj: "e = (i, v)" if "e \<in> set (v_validators ?w)" "addr (val_Pubkey (snd e)) = addr (val_Pubkey v)" for e
    using inj_onD [OF conjunct2 [OF assms(3) [unfolded addresses_ok_def distinct_map]] _ that(1) mem] that(2)
    by simp
  have "by_pubkey (v_validators ?w) (dep_Pubkey dep) = Some i"
  proof (cases "by_pubkey (v_validators ?w) (dep_Pubkey dep)")
    case None
    with mem assms(6) show ?thesis by (force simp: by_pubkey_None)
  next
    case (Some j)
    then obtain u where "(j, u) \<in> set (v_validators ?w)" "val_Pubkey u = dep_Pubkey dep"
      by (rule by_pubkey_Some [OF assms(2)]) (auto dest: map_of_SomeD)
    with inj [of "(j, u)"] assms(6) Some show ?thesis by simp
  qed
  moreover have "\<not> conflicts addr (v_validators ?w) i ?v"
    using inj by (fastforce simp: conflicts_def list_ex_iff)
  ultimately have "processDeposit sp (mem_kv addr) dep ?w = (Inr (), ?w')"
    using assms(4,5)
    by (simp add: processDeposit_def applyDeposit_def bindM_def mem_ops SetEffectiveBalance_def)
  then obtain c' where "processDeposit sp kv dep c = (Inr (), c')" "view c' = ?w'"
    using simulates_success' [OF kv_laws.processDeposit_sim [OF assms(1)]] by blast
  moreover have "registry_ok ?w'"
    using registry_ok_put [OF assms(2,5)] by (simp add: registry_ok_def)
  ultimately show ?thesis by simp
qed

theorem processDeposit_existing_witness:
  "\<exists>w'. processDeposit demo_processor (mem_kv id) (NewDeposit (replicate 48 8) [] 1000 [] 0) demo_view =
     (Inr (), w') \<and> v_balances w' = v_balances demo_view \<and> v_eth1DepositIndex w' = Some 1"
  using processDeposit_existing [OF mem.kv_laws_axioms demo_registry_ok, where addr = id and n = 0 and
      i = 1 and v = "demo_validator 8" and dep = "NewDeposit (replicate 48 8) [] 1000 [] 0"
      and sp = demo_processor]
  by (auto simp: addresses_ok_def demo_validator_def NewDeposit_def)

text \<open>
  C23. A deposit for a new public key that succeeds carried a signature that verifies for the fork of
  the state's epoch and the genesis validators root. It adds one validator at the next index, with
  an effective balance rounded down to the increment and capped, and changes nothing else but the
  deposit index. The balance that is stored is the effective balance plus the amount: the
  effective part of the deposit is credited twice.
\<close>

theorem processDeposit_new:
  assumes "kv_laws kv view addr" and "registry_ok (view c)" and "dep_Pubkey dep \<notin> pubkeys (view c)"
    and "processDeposit sp kv dep c = (Inr (), c')"
  shows "\<exists>n fd val. v_eth1DepositIndex (view c) = Some n \<and> deposit_fork sp (view c) fd \<and>
    Deposit_VerifySignature (sszEnv sp) dep fd (DomainTypeDeposit (cs sp))
      (VerifySignature (signer sp)) = Inr () \<and>
    val_Pubkey val = dep_Pubkey dep \<and> val_WithdrawalCredentials val = dep_Credentials dep \<and>
    val_EffectiveBalance val = min (dep_Amount dep - dep_Amount dep mod EffectiveBalanceIncrement (cs sp))
      (MaxEffectiveBalance (cs sp)) \<and>
    view c' = with_new_validator ((view c)\<lparr>v_eth1DepositIndex := Some (n + 1)\<rparr>) val
      (val_EffectiveBalance val + dep_Amount dep)"
  using assms(2) simulates_success [OF kv_laws.processDeposit_sim [OF assms(1)] assms(4)]
proof (cases rule: mem_processDeposit)
  case (existing n i v)
  then have "dep_Pubkey dep \<in> pubkeys (view c)" by (force simp: pubkeys_def dest: map_of_SomeD)
  with assms(3) show ?thesis by simp
next
  case (created n fd val)
  with NewValidatorFromDeposit_Inr [OF created(5)] show ?thesis by blast
qed

lemma demo_new_deposit:
  "processDeposit demo_processor (mem_kv id)
     (NewDeposit (replicate 48 9) [] 5000000001 (replicate 32 1 @ replicate 48 9 @ replicate 16 0) 0) demo_view =
   (Inr (), snd (processDeposit demo_processor (mem_kv id)
     (NewDeposit (replicate 48 9) [] 5000000001 (replicate 32 1 @ replicate 48 9 @ replicate 16 0) 0) demo_view))"
  by (simp add: processDeposit_def applyDeposit_def createValidator_def addValidatorToRegistry_def
      mem_ops mem_IncreaseBalance by_pubkey_def conflicts_def NewDeposit_def SlotToEpoch_def
      Deposit_VerifySignature_def VerifyCreateValidator_def ComputeDomain_def ComputeSigningRoot_def
      word_root_def demo_signer_def demo_validator_def NewValidatorFromDeposit_def bindM_def)

theorem processDeposit_new_witness:
  "\<exists>w' val. processDeposit demo_processor (mem_kv id)
     (NewDeposit (replicate 48 9) [] 5000000001 (replicate 32 1 @ replicate 48 9 @ replicate 16 0) 0) demo_view = (Inr (), w') \<and>
     val_EffectiveBalance val = 5000000000 \<and>
     w' = with_new_validator (demo_view\<lparr>v_eth1DepositIndex := Some 1\<rparr>) val 10000000001"
  using processDeposit_new [OF mem.kv_laws_axioms demo_registry_ok _ demo_new_deposit]
  by (subst demo_new_deposit) (fastforce simp: pubkeys_def demo_validator_def NewDeposit_def)

text \<open>
  C22. A whole list of deposits that succeeds keeps the registry dense, with every public key and
  every address once and no effective balance above the maximum, as long as indices fit in 64 bits;
  the registered public keys afterwards are those of before and those of the deposits, and the
  deposit index has advanced by their number.
\<close>

theorem processDeposits_keeps_registry:
  assumes "kv_laws kv view addr" and "deposits_inv (cs sp) addr (view c)"
    and "unat (v_validatorIndex (view c)) + length deps < 2 ^ 64"
    and "processDeposits sp kv deps c = (Inr (), c')"
  shows "deposits_inv (cs sp) addr (view c') \<and>
    pubkeys (view c') = pubkeys (view c) \<union> dep_Pubkey ` set deps \<and>
    v_eth1DepositIndex (view c') =
      map_option (\<lambda>n. n + of_nat (length deps)) (v_eth1DepositIndex (view c))"
proof -
  have "forM deps (processDeposit sp (mem_kv addr)) (view c) = (Inr (), view c')"
    using simulates_success [OF kv_laws.staking_sims(1) [OF assms(1)] assms(4)]
    by (simp add: processDeposits_def)
  from deposits_steps [OF assms(2,3) this] show ?thesis .
qed

theorem processDeposits_keeps_registry_witness:
  "\<exists>w'. processDeposits demo_processor (mem_kv id)
     [NewDeposit (replicate 48 9) [] 5000000001 (replicate 32 1 @ replicate 48 9 @ replicate 16 0) 0] demo_view =
     (Inr (), w') \<and> deposits_inv BaseSpec id w' \<and> v_eth1DepositIndex w' = Some 1"
proof -
  let ?d = "NewDeposit (replicate 48 9) [] 5000000001 (replicate 32 1 @ replicate 48 9 @ replicate 16 0) 0"
  let ?w = "snd (processDeposit demo_processor (mem_kv id) ?d demo_view)"
  have run: "processDeposits demo_processor (mem_kv id) [?d] demo_view = (Inr (), ?w)"
    by (simp add: processDeposits_def bindM_success) (rule demo_new_deposit)
  have "deposits_inv BaseSpec id demo_view"
    using demo_registry_ok
    by (simp add: deposits_inv_def addresses_ok_def effective_ok_def demo_validator_def)
  with processDeposits_keeps_registry [OF mem.kv_laws_axioms _ _ run] run show ?thesis by simp
qed

end
