(* ===== verification/Epochs.thy ===== *)
theory Epochs
  imports Demo "HOL-Library.Multiset"
begin

unbundle bit_operations_syntax

section \<open>Epoch processing, randao and the validator updates\<close>

text \<open>
  The steps of \<open>processEpoch\<close> on a well-formed state: rewards and penalties are placeholders and
  leave every balance as it is, the slashing slot of the next epoch is cleared, the randao mix is
  carried to the next epoch, and the validator updates list the registry by effective balance.
  The processing of a randao reveal mixes its hash into the mix of the current epoch.
\<close>

subsection \<open>Rewards and penalties\<close>

lemma zero_deltas:
  assumes "registry_ok w" and "i < length (v_validators w)"
  shows "IncreaseBalance (mem_kv addr) (of_nat i) 0 w = (Inr (), w)"
    and "DecreaseBalance (mem_kv addr) (of_nat i) 0 w = (Inr (), w)"
proof -
  have "(of_nat i :: u64) < v_validatorIndex w"
    using assms registry_length(1) [OF assms(1)] unsigned_less [of "v_validatorIndex w", where ?'a = nat]
    by (simp add: word_less_nat_alt unat_of_nat)
  then obtain b where "map_of (v_balances w) (of_nat i) = Some b"
    using registry_lookup(2) [OF assms(1)] by blast
  then show "IncreaseBalance (mem_kv addr) (of_nat i) 0 w = (Inr (), w)"
    and "DecreaseBalance (mem_kv addr) (of_nat i) 0 w = (Inr (), w)"
    using registry_ordered(2) [OF assms(1)]
    by (simp_all add: mem_IncreaseBalance mem_DecreaseBalance put_same)
qed

lemma forM_noop: "(\<And>x. x \<in> set xs \<Longrightarrow> f x s = (Inr (), s)) \<Longrightarrow> forM xs f s = (Inr (), s)"
  by (induction xs) simp_all

lemma mem_processRewardsAndPenalties:
  assumes "registry_ok w" and "v_slot w = Some slot" and "SlotsPerEpoch (cs sp) \<noteq> 0"
  shows "processRewardsAndPenalties sp (mem_kv addr) w = (Inr (), w)"
proof -
  have "forM [0..<length (v_validators w)] (\<lambda>i.
      bindM (IncreaseBalance (mem_kv addr) (of_nat i) (replicate (length (v_validators w)) 0 ! i)) (\<lambda>_.
      DecreaseBalance (mem_kv addr) (of_nat i) (replicate (length (v_validators w)) 0 ! i))) w = (Inr (), w)"
    using zero_deltas [OF assms(1)] by (intro forM_noop) (simp add: bindM_def)
  then show ?thesis
    using assms(2,3)
    by (simp add: processRewardsAndPenalties_def getAttestationDeltas_def mem_ops SlotToEpoch_def
        Let_def)
qed

subsection \<open>Resets\<close>

lemma mem_processSlashingsReset:
  assumes "slashings_ok w" and "v_slot w = Some slot" and "SlotsPerEpoch (cs sp) \<noteq> 0"
    and "EpochsPerSlashingsVector (cs sp) \<noteq> 0"
    and "i = (slot div SlotsPerEpoch (cs sp) + 1) mod EpochsPerSlashingsVector (cs sp)"
  shows "processSlashingsReset sp (mem_kv addr) w =
    (Inr (), w\<lparr>v_totalSlashing := Some (total_slashing w - slashing_at w i),
               v_slashings := put i 0 (v_slashings w)\<rparr>)"
  using assms slashing_at_le_total [OF assms(1), of i]
  by (simp add: processSlashingsReset_def bindM_def mem_ops SlotToEpoch_def mem_UpdateSlashingAtIndex)

lemma slashings_ok_reset:
  assumes "slashings_ok w"
  shows "slashings_ok (w\<lparr>v_totalSlashing := Some (total_slashing w - slashing_at w i),
    v_slashings := put i 0 (v_slashings w)\<rparr>)"
proof -
  have "unat (total_slashing w) < 2 ^ 64"
    using unsigned_less [of "total_slashing w", where ?'a = nat] by simp
  then show ?thesis
    by (intro slashings_ok_update [OF assms, where i = i and amount = 0]) simp_all
qed

lemma mem_processRandaoMixesReset:
  assumes "v_slot w = Some slot" and "SlotsPerEpoch (cs sp) \<noteq> 0"
    and "EpochsPerHistoricalVector (cs sp) \<noteq> 0"
    and "map_of (v_randaoMix w) (slot div SlotsPerEpoch (cs sp) mod EpochsPerHistoricalVector (cs sp)) = Some mix"
    and "32 \<le> length mix"
  shows "processRandaoMixesReset sp (mem_kv addr) w =
    (Inr (), w\<lparr>v_randaoMix := put ((slot div SlotsPerEpoch (cs sp) + 1) mod EpochsPerHistoricalVector (cs sp))
       (take 32 mix) (v_randaoMix w)\<rparr>)"
  using assms by (simp add: processRandaoMixesReset_def bindM_def mem_ops SlotToEpoch_def to_array_def)

subsection \<open>Validator updates\<close>

definition committee :: "Validator entries \<Rightarrow> ValidatorUpdate list" where
  "committee vs = map (\<lambda>v. \<lparr>upd_Pubkey = val_Pubkey v, upd_EffectiveBalance = val_EffectiveBalance v\<rparr>)
     (map snd (by_effective_balance vs))"

lemma mem_processSyncCommitteeUpdates:
  assumes "registry_ok w"
  shows "processSyncCommitteeUpdates (mem_kv addr) w = (Inr (committee (v_validators w)), w)"
  using validators_by_balance [OF ordered_distinct [OF registry_ordered(1) [OF assms]]]
  by (simp add: processSyncCommitteeUpdates_def bindM_def mem_ops committee_def)

lemma committee_sorted: "sorted (map upd_EffectiveBalance (committee vs))"
proof -
  have "map upd_EffectiveBalance (committee vs) =
      map (\<lambda>e. val_EffectiveBalance (snd e)) (by_effective_balance vs)"
    by (simp add: committee_def)
  then show ?thesis
    using sorted_sort_key [of "\<lambda>(k, v). val_EffectiveBalance v" vs]
    by (simp add: by_effective_balance_def split_def)
qed

lemma committee_members:
  "mset (committee vs) = image_mset (\<lambda>e. \<lparr>upd_Pubkey = val_Pubkey (snd e),
     upd_EffectiveBalance = val_EffectiveBalance (snd e)\<rparr>) (mset vs)"
  by (simp add: committee_def by_effective_balance_def multiset.map_comp comp_def)

subsection \<open>The whole epoch\<close>

definition after_epoch :: "SpecData \<Rightarrow> u64 \<Rightarrow> bytes \<Rightarrow> kv_view \<Rightarrow> kv_view" where
  "after_epoch spec epoch mix w =
     (let i = (epoch + 1) mod EpochsPerSlashingsVector spec;
          j = (epoch + 1) mod EpochsPerHistoricalVector spec
      in w\<lparr>v_totalSlashing := Some (total_slashing w - slashing_at w i),
           v_slashings := put i 0 (v_slashings w),
           v_randaoMix := put j (take 32 mix) (v_randaoMix w)\<rparr>)"

lemma mem_processEpoch:
  assumes "registry_ok w" and "slashings_ok w" and "v_slot w = Some slot"
    and "SlotsPerEpoch (cs sp) \<noteq> 0" and "EpochsPerSlashingsVector (cs sp) \<noteq> 0"
    and "EpochsPerHistoricalVector (cs sp) \<noteq> 0" and "epoch = slot div SlotsPerEpoch (cs sp)"
    and "map_of (v_randaoMix w) (epoch mod EpochsPerHistoricalVector (cs sp)) = Some mix"
    and "32 \<le> length mix"
  shows "processEpoch sp (mem_kv addr) w =
    (Inr (committee (v_validators w)), after_epoch (cs sp) epoch mix w)"
proof -
  let ?i = "(epoch + 1) mod EpochsPerSlashingsVector (cs sp)"
  let ?w = "w\<lparr>v_totalSlashing := Some (total_slashing w - slashing_at w ?i),
      v_slashings := put ?i 0 (v_slashings w)\<rparr>"
  have "processSlashingsReset sp (mem_kv addr) w = (Inr (), ?w)"
    by (rule mem_processSlashingsReset [OF assms(2-5)]) (simp add: assms(7))
  moreover have "processRandaoMixesReset sp (mem_kv addr) ?w =
      (Inr (), after_epoch (cs sp) epoch mix w)"
    using mem_processRandaoMixesReset [of ?w slot sp mix addr] assms
    by (simp add: after_epoch_def Let_def)
  moreover have "processSyncCommitteeUpdates (mem_kv addr) (after_epoch (cs sp) epoch mix w) =
      (Inr (committee (v_validators w)), after_epoch (cs sp) epoch mix w)"
    using mem_processSyncCommitteeUpdates [of "after_epoch (cs sp) epoch mix w" addr] assms(1)
    by (simp add: after_epoch_def Let_def registry_ok_def)
  ultimately show ?thesis
    using mem_processRewardsAndPenalties [OF assms(1,3,4), of addr]
    by (simp add: processEpoch_def)
qed

lemma after_epoch_ok:
  assumes "slashings_ok w"
  shows "slashings_ok (after_epoch spec epoch mix w)"
    and "registry_ok (after_epoch spec epoch mix w) \<longleftrightarrow> registry_ok w"
  using slashings_ok_reset [OF assms]
  by (simp_all add: after_epoch_def Let_def registry_ok_def slashings_ok_def total_slashing_def)

text \<open>
  C24. On a state with a dense registry and a consistent slashing vector \<open>processEpoch\<close> succeeds: no
  balance and no validator changes, the slashing slot of the next epoch is cleared and the total
  falls by what was in it, the mix of the current epoch is copied to the next one, and the updates
  returned are the registry ordered by effective balance, each validator once.
\<close>

theorem processEpoch_effect:
  assumes "kv_laws kv view addr" and "registry_ok (view c)" and "slashings_ok (view c)"
    and "v_slot (view c) = Some slot" and "SlotsPerEpoch (cs sp) \<noteq> 0"
    and "EpochsPerSlashingsVector (cs sp) \<noteq> 0" and "EpochsPerHistoricalVector (cs sp) \<noteq> 0"
    and "epoch = slot div SlotsPerEpoch (cs sp)"
    and "map_of (v_randaoMix (view c)) (epoch mod EpochsPerHistoricalVector (cs sp)) = Some mix"
    and "32 \<le> length mix"
  shows "\<exists>us c'. processEpoch sp kv c = (Inr us, c') \<and> view c' = after_epoch (cs sp) epoch mix (view c) \<and>
    slashings_ok (view c') \<and> registry_ok (view c') \<and>
    sorted (map upd_EffectiveBalance us) \<and>
    mset us = image_mset (\<lambda>e. \<lparr>upd_Pubkey = val_Pubkey (snd e),
      upd_EffectiveBalance = val_EffectiveBalance (snd e)\<rparr>) (mset (v_validators (view c)))"
proof -
  from simulates_success' [OF kv_laws.processEpoch_sim [OF assms(1)] mem_processEpoch [OF assms(2-10)]]
  obtain c' where "processEpoch sp kv c = (Inr (committee (v_validators (view c))), c')"
      "view c' = after_epoch (cs sp) epoch mix (view c)" by blast
  then show ?thesis
    using after_epoch_ok [OF assms(3)] assms(2) committee_sorted committee_members by fastforce
qed

theorem processEpoch_effect_witness:
  "\<exists>us w'. processEpoch demo_processor (mem_kv id) demo_view = (Inr us, w') \<and>
     v_balances w' = v_balances demo_view \<and> sorted (map upd_EffectiveBalance us)"
  using processEpoch_effect [OF mem.kv_laws_axioms demo_registry_ok demo_slashings_ok, where slot = 3
      and epoch = 0 and mix = zero32 and sp = demo_processor and addr = id]
  by (auto simp: after_epoch_def Let_def demo_roots_def range_u64_def upt_rec)

subsection \<open>Randao reveals\<close>

lemma buildRandaoMix_xor:
  assumes "xor_library (xor_Bytes sp)" and "length mix = 32" and "length (Sum256 (merkle (sszEnv sp)) reveal) = 32"
  shows "buildRandaoMix sp mix reveal = Inr (map2 (XOR) mix (Sum256 (merkle (sszEnv sp)) reveal))"
  using assms(2,3)
  by (simp add: buildRandaoMix_def xor_library.xor_law [OF assms(1)] RootLength_def)

text \<open>
  C25. A randao reveal that is accepted replaces the mix of the current epoch, and nothing else, by
  its exclusive or with the digest of the reveal; unless verification is skipped, the reveal is the
  proposer's signature over the epoch under the fork of the epoch.
\<close>

theorem processRandaoReveal_effect:
  assumes "kv_laws kv view addr" and "xor_library (xor_Bytes sp)"
    and "\<forall>bz. length (Sum256 (merkle (sszEnv sp)) bz) = 32"
    and "processRandaoReveal sp kv blk skip c = (Inr (), c')"
  shows "\<exists>slot epoch i proposer root mix. v_slot (view c) = Some slot \<and> epoch = slot div SlotsPerEpoch (cs sp) \<and>
    i = epoch mod EpochsPerHistoricalVector (cs sp) \<and>
    map_of (v_validators (view c)) (blk_ProposerIndex blk) = Some proposer \<and>
    v_genesisValidatorsRoot (view c) = Some root \<and> map_of (v_randaoMix (view c)) i = Some mix \<and>
    (skip \<or> (\<exists>signingRoot. ComputeRandaoSigningRoot (sszEnv sp)
        (NewForkData (FromUint32 (ActiveForkVersionForEpoch (cs sp) epoch)) (take 32 root))
        (DomainTypeRandao (cs sp)) epoch = Inr signingRoot \<and>
      VerifySignature (signer sp) (val_Pubkey proposer) signingRoot (bd_RandaoReveal (blk_Body blk)) = Inr ())) \<and>
    view c' = (view c)\<lparr>v_randaoMix := put i
      (map2 (XOR) (take 32 mix) (Sum256 (merkle (sszEnv sp)) (bd_RandaoReveal (blk_Body blk))))
      (v_randaoMix (view c))\<rparr>"
proof -
  have "processRandaoReveal sp (mem_kv addr) blk skip (view c) = (Inr (), view c')"
    by (rule simulates_success [OF kv_laws.epoch_sims(1) [OF assms(1)] assms(4)])
  then show ?thesis
    using assms(3)
    by (auto simp: processRandaoReveal_def Let_def bindM_success mem_ops bindE_Inr SlotToEpoch_def
        to_array_def buildRandaoMix_xor [OF assms(2)]
        dest!: div_u64_InrD mod_u64_InrD split: if_splits)
qed

lemma epoch_root_0: "le_bytes 0 @ replicate 24 0 = zero32"
  by (simp add: le_bytes_def zero32_def) (simp add: numeral_eq_Suc)

lemma demo_randao:
  "processRandaoReveal demo_processor (mem_kv id) demo_block False demo_view =
     (Inr (), snd (processRandaoReveal demo_processor (mem_kv id) demo_block False demo_view))"
  by (simp add: processRandaoReveal_def mem_ops SlotToEpoch_def ComputeRandaoSigningRoot_def
      ComputeDomain_def ComputeSigningRootUInt64_def word_root_def demo_signer_def demo_validator_def
      demo_roots_def range_u64_def upt_rec buildRandaoMix_def reference_xor_def RootLength_def
      epoch_root_0)

theorem processRandaoReveal_effect_witness:
  "\<exists>w'. processRandaoReveal demo_processor (mem_kv id) demo_block False demo_view = (Inr (), w') \<and>
     map_of (v_randaoMix w') 0 = Some zero32 \<and> v_balances w' = v_balances demo_view"
proof -
  have "map2 (XOR) zero32 zero32 = zero32" by (simp add: zero32_def)
  then show ?thesis
    using processRandaoReveal_effect [OF mem.kv_laws_axioms _ _ demo_randao] demo_randao
    by (auto simp: reference_xor.xor_library_axioms demo_roots_def range_u64_def upt_rec)
qed

end
