(* ===== verification/Slots.thy ===== *)
theory Slots
  imports Epochs
begin

section \<open>State roots and slot processing\<close>

text \<open>
  The hash tree root of a state is a function of its contents and exists for every state that has
  been set up (\<open>primed\<close>). On such states \<open>processSlot\<close> has an exact effect and \<open>ProcessSlots\<close>
  reaches the target slot, with one round of validator updates per epoch boundary it crosses.
\<close>

subsection \<open>The root of a state\<close>

definition array_at :: "bytes entries \<Rightarrow> u64 \<Rightarrow> err + b32" where
  "array_at m i = bindE (from_option ErrNotFound (map_of m i)) (to_array 32)"

definition view_state :: "SpecData \<Rightarrow> kv_view \<Rightarrow> err + BeaconState" where
  "view_state spec w =
     bindE (from_option ErrNotFound (v_slot w)) (\<lambda>slot.
     bindE (from_option ErrNotFound (v_fork w)) (\<lambda>fork.
     bindE (bindE (from_option ErrNotFound (v_genesisValidatorsRoot w)) (to_array 32)) (\<lambda>genesisRoot.
     bindE (from_option ErrNotFound (v_latestBlockHeader w)) (\<lambda>header.
     bindE (mapE (array_at (v_blockRoots w)) (range_u64 (SlotsPerHistoricalRoot spec))) (\<lambda>blockRoots.
     bindE (mapE (array_at (v_stateRoots w)) (range_u64 (SlotsPerHistoricalRoot spec))) (\<lambda>stateRoots.
     bindE (bindE (from_option ErrNotFound (v_latestExecutionPayloadVersion w)) (\<lambda>n.
            bindE (from_option ErrNotFound (v_latestExecutionPayloadHeader w)) (\<lambda>h.
            bindE (ExecutionPayloadHeader_Empty n) (\<lambda>_. Inr h)))) (\<lambda>payloadHeader.
     bindE (from_option ErrNotFound (v_eth1Data w)) (\<lambda>eth1Data.
     bindE (from_option ErrNotFound (v_eth1DepositIndex w)) (\<lambda>depositIndex.
     bindE (mapE (array_at (v_randaoMix w)) (range_u64 (EpochsPerHistoricalVector spec))) (\<lambda>mixes.
     bindE (from_option ErrNotFound (v_nextWithdrawalIndex w)) (\<lambda>nextIndex.
     bindE (from_option ErrNotFound (v_nextWithdrawalValidatorIndex w)) (\<lambda>nextValidator.
     bindE (ActiveForkVersionForSlot spec slot) (\<lambda>version.
     BeaconState_New version genesisRoot slot fork header blockRoots stateRoots eth1Data depositIndex
       payloadHeader (map snd (v_validators w)) (map snd (v_balances w)) mixes nextIndex nextValidator
       (map snd (v_slashings w)) (total_slashing w))))))))))))))"

definition state_root :: "SpecData \<Rightarrow> ssz_env \<Rightarrow> kv_view \<Rightarrow> err + b32" where
  "state_root spec H w = bindE (view_state spec w) (htr_BeaconState H)"

lemma bindM_pure: "m s = (r, s) \<Longrightarrow> bindM m f s = (case r of Inl e \<Rightarrow> (Inl e, s) | Inr a \<Rightarrow> f a s)"
  by (simp add: bindM_def split: sum.splits)

lemma mapM_pure: "(\<And>x. f x s = (g x, s)) \<Longrightarrow> mapM f xs s = (mapE g xs, s)"
  by (induction xs) (simp_all add: bindM_def bindE_def split: sum.splits)

lemma mem_arrays:
  "mapM (GetBlockRootAtIndex (mem_kv addr)) is w = (mapE (array_at (v_blockRoots w)) is, w)"
  "mapM (StateRootAtIndex (mem_kv addr)) is w = (mapE (array_at (v_stateRoots w)) is, w)"
  "mapM (GetRandaoMixAtIndex (mem_kv addr)) is w = (mapE (array_at (v_randaoMix w)) is, w)"
  by (rule mapM_pure; simp add: mem_ops array_at_def)+

lemma bindM_pure_eq:
  "m s = (r, s) \<Longrightarrow> (\<And>a. f a s = (bindE (g a) k, s)) \<Longrightarrow> bindM m f s = (bindE (bindE r g) k, s)"
  by (cases r) (simp_all add: bindM_pure)

lemma mem_StateDB_HashTreeRoot:
  "StateDB_HashTreeRoot (mem_kv addr) spec H w = (state_root spec H w, w)"
  unfolding StateDB_HashTreeRoot_def state_root_def view_state_def total_slashing_def
  by (rule bindM_Inr [THEN trans], rule mem_ops
      | rule bindM_pure_eq, rule mem_ops mem_arrays liftE_apply
      | simp add: bindM_liftE bindE_def split: sum.split)+

lemma state_root_success:
  "state_root spec H w = Inr r \<Longrightarrow> \<exists>slot. v_slot w = Some slot"
  by (auto simp: state_root_def view_state_def bindE_Inr)

subsection \<open>States that have been set up\<close>

definition filled :: "u64 \<Rightarrow> bytes entries \<Rightarrow> bool" where
  "filled n m \<longleftrightarrow>
     list_all (\<lambda>i. case map_of m i of None \<Rightarrow> False | Some bz \<Rightarrow> 32 \<le> length bz) (range_u64 n)"

definition primed :: "SpecData \<Rightarrow> kv_view \<Rightarrow> bool" where
  "primed spec w \<longleftrightarrow>
     v_slot w \<noteq> None \<and> v_fork w \<noteq> None \<and>
     (case v_genesisValidatorsRoot w of None \<Rightarrow> False | Some r \<Rightarrow> 32 \<le> length r) \<and>
     v_latestBlockHeader w \<noteq> None \<and>
     filled (SlotsPerHistoricalRoot spec) (v_blockRoots w) \<and>
     filled (SlotsPerHistoricalRoot spec) (v_stateRoots w) \<and>
     v_latestExecutionPayloadVersion w = Some Deneb \<and>
     (case v_latestExecutionPayloadHeader w of None \<Rightarrow> False | Some h \<Rightarrow> payload_header_encodable h) \<and>
     v_eth1Data w \<noteq> None \<and> v_eth1DepositIndex w \<noteq> None \<and>
     filled (EpochsPerHistoricalVector spec) (v_randaoMix w) \<and>
     v_nextWithdrawalIndex w \<noteq> None \<and> v_nextWithdrawalValidatorIndex w \<noteq> None \<and>
     list_all (\<lambda>e. fst e < EpochsPerSlashingsVector spec) (v_slashings w) \<and>
     length (v_validators w) \<le> 2 ^ 40"

definition ready :: "SpecData \<Rightarrow> kv_view \<Rightarrow> bool" where
  "ready spec w \<longleftrightarrow> primed spec w \<and> registry_ok w \<and> slashings_ok w"

text \<open>The values of the chain specification the state container can hold.\<close>

definition spec_ok :: "SpecData \<Rightarrow> bool" where
  "spec_ok spec \<longleftrightarrow> SlotsPerEpoch spec \<noteq> 0 \<and>
     SlotsPerHistoricalRoot spec \<noteq> 0 \<and> SlotsPerHistoricalRoot spec \<le> 8192 \<and>
     EpochsPerHistoricalVector spec \<noteq> 0 \<and> EpochsPerHistoricalVector spec \<le> 65536 \<and>
     EpochsPerSlashingsVector spec \<noteq> 0 \<and> EpochsPerSlashingsVector spec \<le> 2 ^ 40"

text \<open>The length checks of the generated code that hashes a state (\<open>deneb.ssz.go\<close>).\<close>

definition state_encodable :: "BeaconState \<Rightarrow> bool" where
  "state_encodable st \<longleftrightarrow>
     length (st_BlockRoots st) \<le> 8192 \<and> length (st_StateRoots st) \<le> 8192 \<and>
     payload_header_encodable (st_LatestExecutionPayloadHeader st) \<and>
     length (st_Validators st) \<le> 1099511627776 \<and> length (st_Balances st) \<le> 1099511627776 \<and>
     length (st_RandaoMixes st) \<le> 65536 \<and> length (st_Slashings st) \<le> 1099511627776"

text \<open>What slot processing needs of the hasher: it fails on nothing but these checks.\<close>

locale hash_roots =
  fixes H :: ssz_env
  assumes header_root: "\<exists>r. htr_BeaconBlockHeader H h = Inr r \<and> length r = 32"
    and beacon_state_root: "state_encodable st \<Longrightarrow> \<exists>r. htr_BeaconState H st = Inr r \<and> length r = 32"

interpretation demo_hashes: hash_roots demo_env
  by unfold_locales (simp_all add: word_root_def)

lemma filled_lookup: "filled n m \<Longrightarrow> i < n \<Longrightarrow> \<exists>bz. map_of m i = Some bz \<and> 32 \<le> length bz"
  by (auto simp: filled_def list_all_iff set_range_u64 split: option.splits)

lemma filled_put: "filled n m \<Longrightarrow> 32 \<le> length bz \<Longrightarrow> filled n (put i bz m)"
  by (simp add: filled_def list_all_iff split: option.splits)

lemma filled_arrays: "filled n m \<Longrightarrow> \<exists>rs. mapE (array_at m) (range_u64 n) = Inr rs \<and> length rs = unat n"
proof -
  assume "filled n m"
  then have "mapE (array_at m) (range_u64 n) = Inr (map (\<lambda>i. take 32 (the (map_of m i))) (range_u64 n))"
    by (intro mapE_Inr_map)
      (auto simp: array_at_def to_array_def set_range_u64 dest: filled_lookup split: option.splits)
  then show ?thesis by simp
qed

lemma bounded_length:
  assumes "ordered m" and "list_all (\<lambda>e. fst e < n) m"
  shows "length m \<le> unat n"
proof -
  have "length m = card (set (map fst m))"
    using distinct_card [OF ordered_distinct [OF assms(1)]] by simp
  also have "\<dots> \<le> card (set (range_u64 n))"
    using assms(2) by (intro card_mono) (auto simp: set_range_u64 list_all_iff)
  also have "\<dots> \<le> unat n" using card_length [of "range_u64 n"] by simp
  finally show ?thesis .
qed

lemma primed_view_state:
  assumes "spec_ok spec" and "ready spec w" and "v_slot w = Some slot"
    and "slot div SlotsPerEpoch spec < ElectraForkEpoch spec"
  shows "\<exists>st. view_state spec w = Inr st \<and> state_encodable st"
proof -
  have p: "primed spec w" and reg: "registry_ok w" and sl: "slashings_ok w"
    using assms(2) by (auto simp: ready_def)
  from p obtain bs ss ms where
    arrays: "mapE (array_at (v_blockRoots w)) (range_u64 (SlotsPerHistoricalRoot spec)) = Inr bs"
      "mapE (array_at (v_stateRoots w)) (range_u64 (SlotsPerHistoricalRoot spec)) = Inr ss"
      "mapE (array_at (v_randaoMix w)) (range_u64 (EpochsPerHistoricalVector spec)) = Inr ms"
    and lens: "length bs = unat (SlotsPerHistoricalRoot spec)"
      "length ss = unat (SlotsPerHistoricalRoot spec)" "length ms = unat (EpochsPerHistoricalVector spec)"
    using filled_arrays unfolding primed_def by meson
  have version: "ActiveForkVersionForSlot spec slot = Inr Deneb"
    using assms(1,4)
    by (auto simp: ActiveForkVersionForSlot_def SlotToEpoch_def ActiveForkVersionForEpoch_def spec_ok_def
        dest: leD)
  have "length (v_slashings w) \<le> unat (EpochsPerSlashingsVector spec)"
    using p sl by (intro bounded_length) (auto simp: primed_def slashings_ok_def)
  then have "length (v_slashings w) \<le> 1099511627776"
    using assms(1) by (auto simp: spec_ok_def word_le_nat_alt)
  moreover have "length (v_balances w) \<le> 1099511627776"
    using p registry_length [OF reg] by (simp add: primed_def)
  moreover have "unat (SlotsPerHistoricalRoot spec) \<le> 8192" "unat (EpochsPerHistoricalVector spec) \<le> 65536"
    using assms(1) by (auto simp: spec_ok_def word_le_nat_alt)
  ultimately show ?thesis
    using p assms(3)
    by (auto simp: view_state_def arrays version lens primed_def BeaconState_New_def state_encodable_def
        ExecutionPayloadHeader_Empty_def to_array_def split: option.splits)
qed

subsection \<open>One slot\<close>

definition with_state_root :: "BeaconBlockHeader \<Rightarrow> b32 \<Rightarrow> BeaconBlockHeader" where
  "with_state_root h r = (if hdr_StateRoot h = zero32 then SetStateRoot h r else h)"

definition after_slot :: "SpecData \<Rightarrow> u64 \<Rightarrow> b32 \<Rightarrow> BeaconBlockHeader \<Rightarrow> b32 \<Rightarrow> kv_view \<Rightarrow> kv_view" where
  "after_slot spec slot stateRoot h blockRoot w =
     (let i = slot mod SlotsPerHistoricalRoot spec in
      w\<lparr>v_stateRoots := put i stateRoot (v_stateRoots w),
        v_latestBlockHeader := Some (with_state_root h stateRoot),
        v_blockRoots := put i blockRoot (v_blockRoots w)\<rparr>)"

lemma mem_processSlot:
  "processSlot sp (mem_kv addr) w = (Inr (), w') \<longleftrightarrow>
     (\<exists>slot r h br. v_slot w = Some slot \<and> state_root (cs sp) (sszEnv sp) w = Inr r \<and>
        SlotsPerHistoricalRoot (cs sp) \<noteq> 0 \<and> v_latestBlockHeader w = Some h \<and>
        htr_BeaconBlockHeader (sszEnv sp) (with_state_root h r) = Inr br \<and>
        w' = after_slot (cs sp) slot r h br w)" (is "?L \<longleftrightarrow> ?R")
proof
  assume ?L
  then show ?R
    by (auto simp: processSlot_def bindM_success mem_ops mem_StateDB_HashTreeRoot Let_def
        with_state_root_def after_slot_def dest!: mod_u64_InrD split: if_splits)
next
  assume ?R
  then obtain slot r h br where "v_slot w = Some slot" "state_root (cs sp) (sszEnv sp) w = Inr r"
      "SlotsPerHistoricalRoot (cs sp) \<noteq> 0" "v_latestBlockHeader w = Some h"
      "htr_BeaconBlockHeader (sszEnv sp) (with_state_root h r) = Inr br"
      "w' = after_slot (cs sp) slot r h br w" by blast
  then show ?L
    by (cases "hdr_StateRoot h = zero32")
      (simp_all add: processSlot_def bindM_def mem_ops mem_StateDB_HashTreeRoot Let_def
        with_state_root_def after_slot_def)
qed

lemma ready_after_slot:
  assumes "ready spec w" and "length r = 32" and "length br = 32"
  shows "ready spec (after_slot spec slot r h br w)"
  using assms
  by (auto simp: ready_def primed_def after_slot_def Let_def filled_put registry_ok_def slashings_ok_def
      total_slashing_def)

lemma ready_after_epoch:
  assumes "ready spec w" and "spec_ok spec" and "32 \<le> length mix"
  shows "ready spec (after_epoch spec epoch mix w)"
proof -
  have "(epoch + 1) mod EpochsPerSlashingsVector spec < EpochsPerSlashingsVector spec"
    using assms(2) by (intro word_mod_less_divisor) (simp add: spec_ok_def word_gt_0)
  moreover have "set (put k 0 (v_slashings w)) \<subseteq> insert (k, 0) (set (v_slashings w))" for k
    using assms(1) set_put [of "v_slashings w" k 0] by (auto simp: ready_def slashings_ok_def)
  ultimately have "list_all (\<lambda>e. fst e < EpochsPerSlashingsVector spec)
      (put ((epoch + 1) mod EpochsPerSlashingsVector spec) 0 (v_slashings w))"
    using assms(1) by (fastforce simp: ready_def primed_def list_all_iff)
  then show ?thesis
    using assms after_epoch_ok [of w spec epoch mix]
    by (auto simp: ready_def primed_def after_epoch_def Let_def filled_put)
qed

text \<open>What slot processing leaves alone.\<close>

definition same_accounts :: "kv_view \<Rightarrow> kv_view \<Rightarrow> bool" where
  "same_accounts w w' \<longleftrightarrow> w' = w\<lparr>v_slot := v_slot w', v_latestBlockHeader := v_latestBlockHeader w',
     v_blockRoots := v_blockRoots w', v_stateRoots := v_stateRoots w', v_randaoMix := v_randaoMix w',
     v_slashings := v_slashings w', v_totalSlashing := v_totalSlashing w'\<rparr>"

lemma same_accounts_trans: "same_accounts u v \<Longrightarrow> same_accounts v w \<Longrightarrow> same_accounts u w"
  by (cases u; cases v; cases w) (simp add: same_accounts_def)

lemma same_accounts_refl: "same_accounts w w"
  by (simp add: same_accounts_def)

lemma same_accounts_steps:
  "same_accounts w (after_slot spec slot r h br w)"
  "same_accounts w (after_epoch spec epoch mix w)"
  "same_accounts w (w\<lparr>v_slot := x\<rparr>)"
  by (simp_all add: same_accounts_def after_slot_def after_epoch_def Let_def)

lemma same_accounts_validators: "same_accounts w w' \<Longrightarrow> v_validators w' = v_validators w"
  by (cases w; cases w') (simp add: same_accounts_def)

lemma slot_step:
  assumes H: "hash_roots (sszEnv sp)" and spec: "spec_ok (cs sp)" and rdy: "ready (cs sp) w"
    and slot: "v_slot w = Some slot" and fork: "slot div SlotsPerEpoch (cs sp) < ElectraForkEpoch (cs sp)"
  shows "\<exists>w'. processSlot sp (mem_kv addr) w = (Inr (), w') \<and> ready (cs sp) w' \<and>
    same_accounts w w' \<and> v_slot w' = Some slot"
proof -
  from primed_view_state [OF spec rdy slot fork] obtain st where
    st: "view_state (cs sp) w = Inr st" "state_encodable st" by blast
  with hash_roots.beacon_state_root [OF H] obtain r where
    r: "state_root (cs sp) (sszEnv sp) w = Inr r" "length r = 32" by (auto simp: state_root_def)
  from rdy obtain h where h: "v_latestBlockHeader w = Some h" by (auto simp: ready_def primed_def)
  from hash_roots.header_root [OF H] obtain br where
    br: "htr_BeaconBlockHeader (sszEnv sp) (with_state_root h r) = Inr br" "length br = 32" by blast
  have "processSlot sp (mem_kv addr) w = (Inr (), after_slot (cs sp) slot r h br w)"
    using slot r h br spec by (auto simp: mem_processSlot spec_ok_def)
  then show ?thesis
    using ready_after_slot [OF rdy r(2) br(2)] same_accounts_steps(1) slot
    by (force simp: after_slot_def Let_def)
qed

subsection \<open>A run of slots\<close>

lemma epoch_step:
  assumes spec: "spec_ok (cs sp)" and rdy: "ready (cs sp) w" and slot: "v_slot w = Some slot"
  shows "\<exists>w'. processEpoch sp (mem_kv addr) w = (Inr (committee (v_validators w)), w') \<and>
    ready (cs sp) w' \<and> same_accounts w w' \<and> v_slot w' = Some slot"
proof -
  let ?e = "slot div SlotsPerEpoch (cs sp)"
  have "?e mod EpochsPerHistoricalVector (cs sp) < EpochsPerHistoricalVector (cs sp)"
    using spec by (intro word_mod_less_divisor) (simp add: spec_ok_def word_gt_0)
  then obtain mix where mix: "map_of (v_randaoMix w) (?e mod EpochsPerHistoricalVector (cs sp)) = Some mix"
      "32 \<le> length mix"
    using rdy filled_lookup unfolding ready_def primed_def by blast
  have "processEpoch sp (mem_kv addr) w = (Inr (committee (v_validators w)), after_epoch (cs sp) ?e mix w)"
    using rdy slot spec mix by (intro mem_processEpoch) (auto simp: ready_def spec_ok_def)
  then show ?thesis
    using ready_after_epoch [OF rdy spec mix(2)] same_accounts_steps(2) slot
    by (force simp: after_epoch_def Let_def)
qed

lemma ready_SetSlot: "ready spec w \<Longrightarrow> ready spec (w\<lparr>v_slot := Some x\<rparr>)"
  by (simp add: ready_def primed_def registry_ok_def slashings_ok_def total_slashing_def)

lemma word_mod_eq_0: "x mod y = (0 :: u64) \<longleftrightarrow> unat x mod unat y = 0"
  by (metis unat_eq_zero unat_mod)

lemma epoch_boundaries:
  assumes "s < t"
  shows "unat t div E - unat s div E =
    (if unat (s + 1) mod E = 0 then 1 else 0) + (unat t div E - unat (s + 1 :: u64) div E)"
proof -
  have "unat (s + 1) div E \<le> unat t div E"
    using assms by (intro div_le_mono) (simp add: unat_plus_one word_less_nat_alt)
  then show ?thesis
    using unat_plus_one [OF assms] by (auto simp: div_Suc)
qed

lemma one_slot:
  assumes H: "hash_roots (sszEnv sp)" and spec: "spec_ok (cs sp)" and rdy: "ready (cs sp) w"
    and slot: "v_slot w = Some s" and fork: "s div SlotsPerEpoch (cs sp) < ElectraForkEpoch (cs sp)"
    and less: "s < target"
  shows "\<exists>w'. slots_loop sp (mem_kv addr) target s us w =
      slots_loop sp (mem_kv addr) target (s + 1)
        (us @ (if (s + 1) mod SlotsPerEpoch (cs sp) = 0 then committee (v_validators w) else [])) w' \<and>
    ready (cs sp) w' \<and> same_accounts w w' \<and> v_slot w' = Some (s + 1)"
proof -
  from slot_step [OF H spec rdy slot fork] obtain w1 where
    w1: "processSlot sp (mem_kv addr) w = (Inr (), w1)" "ready (cs sp) w1" "same_accounts w w1"
      "v_slot w1 = Some s" by blast
  from epoch_step [OF spec w1(2,4)] obtain w2 where
    w2: "processEpoch sp (mem_kv addr) w1 = (Inr (committee (v_validators w)), w2)" "ready (cs sp) w2"
      "same_accounts w w2" "v_slot w2 = Some s"
    using same_accounts_validators [OF w1(3)] same_accounts_trans [OF w1(3)] by metis
  have nz: "SlotsPerEpoch (cs sp) \<noteq> 0" using spec by (simp add: spec_ok_def)
  let ?w = "if (s + 1) mod SlotsPerEpoch (cs sp) = 0 then w2 else w1"
  have "slots_loop sp (mem_kv addr) target s us w =
      slots_loop sp (mem_kv addr) target (s + 1)
        (us @ (if (s + 1) mod SlotsPerEpoch (cs sp) = 0 then committee (v_validators w) else []))
        (?w\<lparr>v_slot := Some (s + 1)\<rparr>)"
    using less nz w1(1) w2(1) by (subst slots_loop.simps) (simp add: mem_ops)
  moreover have "ready (cs sp) ?w" "same_accounts w ?w" using w1 w2 by auto
  ultimately show ?thesis
    using ready_SetSlot [of "cs sp" ?w] same_accounts_trans [OF _ same_accounts_steps(3), of w ?w]
    by (intro exI [of _ "?w\<lparr>v_slot := Some (s + 1)\<rparr>"]) (simp del: if_split)
qed

lemma mem_slots_loop:
  assumes H: "hash_roots (sszEnv sp)" and spec: "spec_ok (cs sp)" and rdy: "ready (cs sp) w"
    and slot: "v_slot w = Some s" and fork: "target div SlotsPerEpoch (cs sp) < ElectraForkEpoch (cs sp)"
  shows "\<exists>w'. slots_loop sp (mem_kv addr) target s us w =
      (Inr (us @ concat (replicate (unat target div unat (SlotsPerEpoch (cs sp)) -
         unat s div unat (SlotsPerEpoch (cs sp))) (committee (v_validators w)))), w') \<and>
    v_slot w' = Some (max s target) \<and> ready (cs sp) w' \<and> same_accounts w w'"
  using rdy slot
proof (induction "unat target - unat s" arbitrary: s us w rule: less_induct)
  case less
  let ?E = "unat (SlotsPerEpoch (cs sp))"
  show ?case
  proof (cases "s < target")
    case False
    then have "unat target div ?E - unat s div ?E = 0"
      by (simp add: div_le_mono word_less_nat_alt)
    with False less.prems show ?thesis
      by (subst slots_loop.simps) (simp add: same_accounts_refl max_def not_less)
  next
    case True
    have "s div SlotsPerEpoch (cs sp) \<le> target div SlotsPerEpoch (cs sp)"
      using True by (simp add: word_le_nat_alt unat_div div_le_mono word_less_nat_alt)
    then have "s div SlotsPerEpoch (cs sp) < ElectraForkEpoch (cs sp)" using fork by simp
    from one_slot [OF H spec less.prems this True, of addr us] obtain w1 where
      w1: "slots_loop sp (mem_kv addr) target s us w = slots_loop sp (mem_kv addr) target (s + 1)
          (us @ (if (s + 1) mod SlotsPerEpoch (cs sp) = 0 then committee (v_validators w) else [])) w1"
        "ready (cs sp) w1" "same_accounts w w1" "v_slot w1 = Some (s + 1)" by blast
    have "unat target - unat (s + 1) < unat target - unat s"
      using True unat_plus_one [OF True] by (simp add: word_less_nat_alt)
    note IH = less.hyps [OF this w1(2,4)]
    let ?n = "unat target div ?E - unat (s + 1) div ?E"
    let ?new = "if (s + 1) mod SlotsPerEpoch (cs sp) = 0 then committee (v_validators w) else []"
    from IH [of "us @ ?new"] obtain w' where
      w': "slots_loop sp (mem_kv addr) target s us w =
          (Inr ((us @ ?new) @ concat (replicate ?n (committee (v_validators w)))), w')"
        "v_slot w' = Some (max (s + 1) target)" "ready (cs sp) w'" "same_accounts w1 w'"
      unfolding w1(1) same_accounts_validators [OF w1(3)] by blast
    have "max (s + 1) target = max s target"
      using True unat_plus_one [OF True] by (simp add: max_def word_le_nat_alt word_less_nat_alt)
    moreover have "?new @ concat (replicate ?n (committee (v_validators w))) =
        concat (replicate (unat target div ?E - unat s div ?E) (committee (v_validators w)))"
      unfolding epoch_boundaries [OF True, of ?E] word_mod_eq_0 by simp
    ultimately show ?thesis
      using w' same_accounts_trans [OF w1(3) w'(4)] by simp
  qed
qed

subsection \<open>Properties\<close>

text \<open>
  The root of a state is a function of the contents of the store, and computing it changes
  nothing: it is the hash of the container assembled from them. On a state that has been set up, in
  an epoch before the next fork, the assembly passes every length check of the generated code, so
  the root exists.
\<close>

theorem HashTreeRoot_functional:
  assumes "kv_laws kv view addr"
  shows "fst (StateDB_HashTreeRoot kv spec H c) = bindE (view_state spec (view c)) (htr_BeaconState H) \<and>
    (\<forall>slot. hash_roots H \<longrightarrow> spec_ok spec \<longrightarrow> ready spec (view c) \<longrightarrow> v_slot (view c) = Some slot \<longrightarrow>
       slot div SlotsPerEpoch spec < ElectraForkEpoch spec \<longrightarrow>
       (\<exists>r c'. StateDB_HashTreeRoot kv spec H c = (Inr r, c') \<and> length r = 32 \<and> view c' = view c))"
proof (intro conjI allI impI)
  note sim = kv_laws.state_sims(2) [OF assms, of spec H]
  show "fst (StateDB_HashTreeRoot kv spec H c) = bindE (view_state spec (view c)) (htr_BeaconState H)"
    using simulates_fst [OF sim, of c] by (simp add: mem_StateDB_HashTreeRoot state_root_def)
  fix slot assume "hash_roots H" "spec_ok spec" "ready spec (view c)" "v_slot (view c) = Some slot"
    "slot div SlotsPerEpoch spec < ElectraForkEpoch spec"
  then obtain st r where "view_state spec (view c) = Inr st" "htr_BeaconState H st = Inr r" "length r = 32"
    using primed_view_state hash_roots.beacon_state_root by blast
  then have "StateDB_HashTreeRoot (mem_kv addr) spec H (view c) = (Inr r, view c)"
    by (simp add: mem_StateDB_HashTreeRoot state_root_def)
  with simulates_success' [OF sim] \<open>length r = 32\<close>
  show "\<exists>r c'. StateDB_HashTreeRoot kv spec H c = (Inr r, c') \<and> length r = 32 \<and> view c' = view c"
    by blast
qed

lemma demo_spec_ok: "spec_ok BaseSpec"
  by (simp add: spec_ok_def)

lemma demo_ready: "ready BaseSpec demo_view"
  using demo_registry_ok demo_slashings_ok
  by (simp add: ready_def primed_def filled_def demo_roots_def range_u64_def upt_rec
      payload_header_encodable_def demo_payload_header_def)

theorem HashTreeRoot_functional_witness:
  "\<exists>r w'. StateDB_HashTreeRoot (mem_kv id) BaseSpec demo_env demo_view = (Inr r, w') \<and> length r = 32"
  using HashTreeRoot_functional [OF mem.kv_laws_axioms, where spec = BaseSpec and H = demo_env
      and c = demo_view and addr = id] demo_hashes.hash_roots_axioms demo_spec_ok demo_ready
  by simp blast

text \<open>
  \<open>processSlot\<close> succeeds exactly when the slot, the state root, the latest header and its root
  are available. It then caches the state root for the slot, completes the latest header with that
  root when its state root is still zero, caches the root of the completed header, and changes
  nothing else.
\<close>

theorem processSlot_effect:
  assumes "kv_laws kv view addr"
  shows "(\<exists>c'. processSlot sp kv c = (Inr (), c') \<and> view c' = w') \<longleftrightarrow>
     (\<exists>slot r h br. v_slot (view c) = Some slot \<and> state_root (cs sp) (sszEnv sp) (view c) = Inr r \<and>
        SlotsPerHistoricalRoot (cs sp) \<noteq> 0 \<and> v_latestBlockHeader (view c) = Some h \<and>
        htr_BeaconBlockHeader (sszEnv sp) (with_state_root h r) = Inr br \<and>
        w' = after_slot (cs sp) slot r h br (view c))"
  unfolding mem_processSlot [where sp = sp and addr = addr and w = "view c" and w' = w', symmetric]
  using simulates_success [OF kv_laws.processSlot_sim [OF assms]]
    simulates_success' [OF kv_laws.processSlot_sim [OF assms]] by blast

theorem processSlot_effect_witness:
  "\<exists>w'. processSlot demo_processor (mem_kv id) demo_view = (Inr (), w') \<and>
     map_of (v_stateRoots w') 3 = Some (replicate 32 53) \<and> map_of (v_blockRoots w') 3 = Some (replicate 32 103)"
proof -
  from primed_view_state [OF demo_spec_ok demo_ready, of 3] obtain st where
    st: "view_state BaseSpec demo_view = Inr st" by auto
  then have "st_Slot st = 3" by (auto simp: view_state_def bindE_Inr BeaconState_New_def split: if_splits)
  with st have root: "state_root BaseSpec demo_env demo_view = Inr (replicate 32 53)"
    by (simp add: state_root_def word_root_def)
  show ?thesis
    using iffD2 [OF processSlot_effect [OF mem.kv_laws_axioms, where sp = demo_processor and c = demo_view
        and addr = id and w' = "after_slot BaseSpec 3 (replicate 32 53)
        (NewBeaconBlockHeader 3 0 zero32 zero32 zero32) (replicate 32 103) demo_view"]] root
    by (auto simp: word_root_def after_slot_def Let_def with_state_root_def NewBeaconBlockHeader_def
        SetStateRoot_def)
qed

text \<open>
  C9. \<open>ProcessSlots\<close> is total on states that have been set up: with hashes that fail only on
  their length checks and a target before the next fork, it returns without an error, at the target
  slot or where it was if that is later. It returns one list of validator updates for each
  epoch boundary it crosses, all equal to the registry by effective balance, and changes no
  validator, balance, deposit, withdrawal or payload data; the state stays set up.
\<close>

theorem ProcessSlots_total:
  assumes "kv_laws kv view addr" and "hash_roots (sszEnv sp)" and "spec_ok (cs sp)"
    and "ready (cs sp) (view c)" and "v_slot (view c) = Some s"
    and "target div SlotsPerEpoch (cs sp) < ElectraForkEpoch (cs sp)"
  shows "\<exists>c'. ProcessSlots sp kv target c =
      (Inr (concat (replicate (unat target div unat (SlotsPerEpoch (cs sp)) -
         unat s div unat (SlotsPerEpoch (cs sp))) (committee (v_validators (view c))))), c') \<and>
    v_slot (view c') = Some (max s target) \<and> ready (cs sp) (view c') \<and> same_accounts (view c) (view c')"
proof -
  from mem_slots_loop [OF assms(2-6), of addr "[]"] obtain w' where
    "ProcessSlots sp (mem_kv addr) target (view c) =
      (Inr (concat (replicate (unat target div unat (SlotsPerEpoch (cs sp)) -
         unat s div unat (SlotsPerEpoch (cs sp))) (committee (v_validators (view c))))), w')"
    and w': "v_slot w' = Some (max s target)" "ready (cs sp) w'" "same_accounts (view c) w'"
    using assms(5) by (auto simp: ProcessSlots_def mem_ops)
  with simulates_success' [OF kv_laws.ProcessSlots_sim [OF assms(1)]] show ?thesis by blast
qed

theorem ProcessSlots_total_witness:
  "\<exists>us w'. ProcessSlots demo_processor (mem_kv id) 70 demo_view = (Inr us, w') \<and>
     length us = 4 \<and> v_slot w' = Some 70"
  using ProcessSlots_total [OF mem.kv_laws_axioms, where sp = demo_processor and c = demo_view and s = 3
      and target = 70 and addr = id] demo_hashes.hash_roots_axioms demo_spec_ok demo_ready
  by (auto simp: length_concat sum_list_replicate committee_def by_effective_balance_def)

end
