(* ===== verification/Blocks.thy ===== *)
theory Blocks
  imports Slots Withdrawals Deposits
begin

unbundle bit_operations_syntax

section \<open>Block processing and the transition\<close>

text \<open>
  What a block must satisfy to be accepted, what accepting it does to the head of the chain, and
  that the invariants of the parts (a dense registry with capped effective balances, a
  consistent slashing vector, filled histories, a sweep position in range) survive a whole
  transition.
\<close>

subsection \<open>The header\<close>

lemma mem_processBlockHeader:
  "processBlockHeader sp (mem_kv addr) blk w = (Inr (), w') \<longleftrightarrow>
     (\<exists>h bodyRoot proposer. v_slot w = Some (blk_Slot blk) \<and> v_latestBlockHeader w = Some h \<and>
        hdr_Slot h < blk_Slot blk \<and>
        htr_BeaconBlockHeader (sszEnv sp) h = Inr (blk_ParentBlockRoot blk) \<and>
        of_nat (length (bd_Deposits (blk_Body blk))) \<le> MaxDepositsPerBlock (cs sp) \<and>
        htr_BeaconBlockBody (sszEnv sp) (blk_Body blk) = Inr bodyRoot \<and>
        map_of (v_validators w) (blk_ProposerIndex blk) = Some proposer \<and> \<not> val_Slashed proposer \<and>
        w' = w\<lparr>v_latestBlockHeader := Some (NewBeaconBlockHeader (blk_Slot blk) (blk_ProposerIndex blk)
          (blk_ParentBlockRoot blk) zero32 bodyRoot)\<rparr>)"
  by (auto simp: processBlockHeader_def bindM_success mem_ops not_less not_le split: if_splits)

subsection \<open>The payload\<close>

definition payload_valid :: "StateProcessor \<Rightarrow> kv_view \<Rightarrow> BeaconBlockDeneb \<Rightarrow> bool \<Rightarrow> bool" where
  "payload_valid sp w blk optimistic \<longleftrightarrow>
     (let body = blk_Body blk; payload = bd_ExecutionPayload body in
      (\<exists>lph. v_latestExecutionPayloadHeader w = Some lph \<and> ph_BlockHash lph = pl_ParentHash payload) \<and>
      executionEngine sp (BuildNewPayloadRequest payload
        (ToVersionedHashes (sszEnv sp) (bd_BlobKzgCommitments body)) (blk_ParentBlockRoot blk) optimistic) =
        Inr () \<and>
      (\<exists>slot mix. v_slot w = Some slot \<and>
         map_of (v_randaoMix w) (slot div SlotsPerEpoch (cs sp) mod EpochsPerHistoricalVector (cs sp)) = Some mix \<and>
         pl_Random payload = take 32 mix) \<and>
      of_nat (length (bd_BlobKzgCommitments body)) \<le> MaxBlobsPerBlock (cs sp) \<and>
      of_nat (length (pl_Withdrawals payload)) \<le> MaxWithdrawalsPerPayload (cs sp))"

lemma mem_validateExecutionPayload:
  "validateExecutionPayload sp (mem_kv addr) blk opt w = (Inr (), w') \<Longrightarrow> payload_valid sp w blk opt \<and> w' = w"
  by (auto simp: validateExecutionPayload_def payload_valid_def Let_def bindM_success mem_ops bindE_Inr
      SlotToEpoch_def to_array_def not_less split: if_splits dest!: div_u64_InrD mod_u64_InrD)

definition payload_header_of :: "ssz_env \<Rightarrow> ExecutableDataDeneb \<Rightarrow> ExecutionPayloadHeaderDeneb \<Rightarrow> bool" where
  "payload_header_of H payload header \<longleftrightarrow>
     (\<exists>txsRoot withdrawalsRoot. Transactions_HashTreeRoot H (pl_Transactions payload) = Inr txsRoot \<and>
        Withdrawals_HashTreeRoot H (pl_Withdrawals payload) = Inr withdrawalsRoot \<and>
        header = header_with_roots payload txsRoot withdrawalsRoot)"

lemma ToHeader_fresh:
  "fst (ToHeader H first (GetExecutionPayload body)) = Inr header \<longleftrightarrow>
     payload_header_of H (bd_ExecutionPayload body) header"
  by (auto simp: ToHeader_def GetExecutionPayload_def payload_header_of_def errgroup2_def Let_def
      split: sum.splits prod.splits)

lemma mem_processExecutionPayload:
  assumes "processExecutionPayload sp sch ctx (mem_kv addr) blk w = (Inr (), w')"
  obtains header where "SkipPayloadVerification ctx \<or> payload_valid sp w blk (OptimisticEngine ctx)"
    and "payload_header_of (sszEnv sp) (bd_ExecutionPayload (blk_Body blk)) header"
    and "payload_header_encodable header"
    and "w' = w\<lparr>v_latestExecutionPayloadVersion := Some Deneb,
      v_latestExecutionPayloadHeader := Some header\<rparr>"
proof -
  from assms obtain header where
    h: "if \<not> SkipPayloadVerification ctx
        then fst (validateExecutionPayload sp (mem_kv addr) blk (OptimisticEngine ctx) w) = Inr () else True"
      "fst (ToHeader (sszEnv sp) (txs_first sch) (GetExecutionPayload (blk_Body blk))) = Inr header"
      "payload_header_encodable header"
      "w' = w\<lparr>v_latestExecutionPayloadVersion := Some Deneb, v_latestExecutionPayloadHeader := Some header\<rparr>"
    by (auto simp: processExecutionPayload_def bindM_success mem_ops split: if_splits)
  have "SkipPayloadVerification ctx \<or> payload_valid sp w blk (OptimisticEngine ctx)"
    using h(1) mem_validateExecutionPayload [of sp addr blk "OptimisticEngine ctx" w]
    by (metis prod.collapse)
  with h that show thesis by (simp add: ToHeader_fresh)
qed

subsection \<open>What the steps leave alone\<close>

definition withdrawal_frame :: "kv_view \<Rightarrow> kv_view \<Rightarrow> bool" where
  "withdrawal_frame w w' \<longleftrightarrow> w' = w\<lparr>v_balances := v_balances w',
     v_nextWithdrawalIndex := v_nextWithdrawalIndex w',
     v_nextWithdrawalValidatorIndex := v_nextWithdrawalValidatorIndex w'\<rparr>"

definition deposit_frame :: "kv_view \<Rightarrow> kv_view \<Rightarrow> bool" where
  "deposit_frame w w' \<longleftrightarrow> w' = w\<lparr>v_eth1DepositIndex := v_eth1DepositIndex w',
     v_validatorIndex := v_validatorIndex w', v_validators := v_validators w', v_balances := v_balances w'\<rparr>"

lemma frame_trans:
  "withdrawal_frame u v \<Longrightarrow> withdrawal_frame v w \<Longrightarrow> withdrawal_frame u w"
  "deposit_frame u v \<Longrightarrow> deposit_frame v w \<Longrightarrow> deposit_frame u w"
  by (cases u; cases v; cases w; simp add: withdrawal_frame_def deposit_frame_def)+

lemma sweep_reads: "snd (sweep (mem_kv addr) spec e t n index i ws w) = w"
  by (induction n arbitrary: index i ws)
    (simp_all add: mem_sweep_withdrawal bindM_def Let_def split: sum.splits)

lemma ExpectedWithdrawals_reads: "ExpectedWithdrawals (mem_kv addr) spec w = (Inr ws, w') \<Longrightarrow> w' = w"
  using sweep_reads by (auto simp: ExpectedWithdrawals_def bindM_success mem_ops) (metis snd_conv)

lemma apply_withdrawals_frame:
  "apply_withdrawals (mem_kv addr) ps w = (Inr (), w') \<Longrightarrow> withdrawal_frame w w'"
proof (induction ps arbitrary: w)
  case Nil
  then show ?case by (simp add: withdrawal_frame_def)
next
  case (Cons p ps)
  then obtain w1 where "DecreaseBalance (mem_kv addr) (wd_Validator (fst p)) (wd_Amount (fst p)) w = (Inr (), w1)"
      "apply_withdrawals (mem_kv addr) ps w1 = (Inr (), w')"
    by (cases p) (auto simp: bindM_success split: if_splits)
  moreover from this(1) have "withdrawal_frame w w1"
    by (auto simp: mem_DecreaseBalance withdrawal_frame_def split: option.splits)
  ultimately show ?case using Cons.IH frame_trans(1) by blast
qed

lemma processWithdrawals_frame:
  assumes "processWithdrawals sp (mem_kv addr) body w = (Inr (), w')"
  shows "withdrawal_frame w w'"
proof -
  from assms obtain ws w1 w2 where
    w1: "ExpectedWithdrawals (mem_kv addr) (cs sp) w = (Inr ws, w1)"
    and w2: "apply_withdrawals (mem_kv addr) (zip ws (pl_Withdrawals (bd_ExecutionPayload body))) w1 = (Inr (), w2)"
    and rest: "\<exists>a b. w' = w2\<lparr>v_nextWithdrawalIndex := a, v_nextWithdrawalValidatorIndex := b\<rparr>"
  proof (cases "ExpectedWithdrawals (mem_kv addr) (cs sp) w")
    case (Pair r w1)
    with assms obtain ws w2 where "r = Inr ws"
      and w2: "apply_withdrawals (mem_kv addr) (zip ws (pl_Withdrawals (bd_ExecutionPayload body))) w1 = (Inr (), w2)"
      by (auto simp: processWithdrawals_def Let_def bindM_success split: if_splits)
    moreover from assms Pair this have "\<exists>a b. w' = w2\<lparr>v_nextWithdrawalIndex := a, v_nextWithdrawalValidatorIndex := b\<rparr>"
      by (auto simp: processWithdrawals_def Let_def bindM_success mem_ops split: if_splits)
        (metis kv_view.surjective kv_view.update_convs(14))+
    ultimately show thesis using Pair that by blast
  qed
  have "withdrawal_frame w2 w'" using rest by (auto simp: withdrawal_frame_def)
  then show ?thesis
    using ExpectedWithdrawals_reads [OF w1] apply_withdrawals_frame [OF w2] frame_trans(1) by blast
qed

lemma processDeposit_frame:
  assumes "processDeposit sp (mem_kv addr) dep w = (Inr (), w')"
  shows "deposit_frame w w'"
proof -
  from assms obtain n where
    "applyDeposit sp (mem_kv addr) dep (w\<lparr>v_eth1DepositIndex := Some n\<rparr>) = (Inr (), w')"
    (is "applyDeposit sp _ dep ?w = _")
    by (auto simp: processDeposit_def bindM_success mem_ops)
  moreover have "deposit_frame ?w w'" if "createValidator sp (mem_kv addr) dep ?w = (Inr (), w')"
    using that by (auto simp: createValidator_def addValidatorToRegistry_def bindM_success mem_ops
        Let_def mem_IncreaseBalance deposit_frame_def split: if_splits option.splits)
  ultimately have "deposit_frame ?w w'"
    by (cases "by_pubkey (v_validators w) (dep_Pubkey dep)")
      (auto simp: applyDeposit_def bindM_success mem_ops deposit_frame_def split: if_splits)
  moreover have "deposit_frame w ?w" by (simp add: deposit_frame_def)
  ultimately show ?thesis using frame_trans(2) by blast
qed

lemma deposits_frame:
  "forM deps (processDeposit sp (mem_kv addr)) w = (Inr (), w') \<Longrightarrow> deposit_frame w w'"
proof (induction deps arbitrary: w)
  case Nil
  then show ?case by (simp add: deposit_frame_def)
next
  case (Cons d deps)
  then obtain w1 where "processDeposit sp (mem_kv addr) d w = (Inr (), w1)"
      "forM deps (processDeposit sp (mem_kv addr)) w1 = (Inr (), w')"
    by (auto simp: bindM_success)
  then show ?case using processDeposit_frame Cons.IH frame_trans(2) by blast
qed

lemma mem_processOperations:
  "processOperations sp (mem_kv addr) blk w = (Inr (), w') \<Longrightarrow>
   forM (bd_Deposits (blk_Body blk)) (processDeposit sp (mem_kv addr)) w = (Inr (), w')"
  by (auto simp: processOperations_def processDeposits_def Let_def bindM_success mem_ops)

lemma buildRandaoMix_length: "buildRandaoMix sp mix reveal = Inr m \<Longrightarrow> length m = 32"
  by (auto simp: buildRandaoMix_def Let_def to_array_def split: if_splits prod.splits)

lemma mem_processRandaoReveal:
  assumes "processRandaoReveal sp (mem_kv addr) blk skip w = (Inr (), w')"
  obtains i m where "w' = w\<lparr>v_randaoMix := put i m (v_randaoMix w)\<rparr>" and "length m = 32"
  using assms
  by (auto simp: processRandaoReveal_def Let_def bindM_success mem_ops dest: buildRandaoMix_length
      split: if_splits)

subsection \<open>The whole block\<close>

lemma mem_ProcessBlock:
  assumes "ProcessBlock sp sch ctx (mem_kv addr) blk w = (Inr (), w')"
  obtains w1 w2 w3 w4 where "processBlockHeader sp (mem_kv addr) blk w = (Inr (), w1)"
    and "processExecutionPayload sp sch ctx (mem_kv addr) blk w1 = (Inr (), w2)"
    and "processWithdrawals sp (mem_kv addr) (blk_Body blk) w2 = (Inr (), w3)"
    and "processRandaoReveal sp (mem_kv addr) blk (SkipValidateRandao ctx) w3 = (Inr (), w4)"
    and "forM (bd_Deposits (blk_Body blk)) (processDeposit sp (mem_kv addr)) w4 = (Inr (), w')"
    and "SkipValidateResult ctx \<or> state_root (cs sp) (sszEnv sp) w' = Inr (blk_StateRoot blk)"
  using assms
  by (fastforce simp: ProcessBlock_def bindM_success mem_StateDB_HashTreeRoot dest!: mem_processOperations
      split: if_splits)

lemma ProcessBlock_head:
  assumes "ProcessBlock sp sch ctx (mem_kv addr) blk w = (Inr (), w')"
  obtains h bodyRoot proposer header where
    "v_slot w = Some (blk_Slot blk)" and "v_latestBlockHeader w = Some h" and "hdr_Slot h < blk_Slot blk"
    and "htr_BeaconBlockHeader (sszEnv sp) h = Inr (blk_ParentBlockRoot blk)"
    and "of_nat (length (bd_Deposits (blk_Body blk))) \<le> MaxDepositsPerBlock (cs sp)"
    and "htr_BeaconBlockBody (sszEnv sp) (blk_Body blk) = Inr bodyRoot"
    and "map_of (v_validators w) (blk_ProposerIndex blk) = Some proposer" and "\<not> val_Slashed proposer"
    and "SkipPayloadVerification ctx \<or> payload_valid sp w blk (OptimisticEngine ctx)"
    and "payload_header_of (sszEnv sp) (bd_ExecutionPayload (blk_Body blk)) header"
    and "SkipValidateResult ctx \<or> state_root (cs sp) (sszEnv sp) w' = Inr (blk_StateRoot blk)"
    and "v_slot w' = Some (blk_Slot blk)"
    and "v_latestBlockHeader w' = Some (NewBeaconBlockHeader (blk_Slot blk) (blk_ProposerIndex blk)
      (blk_ParentBlockRoot blk) zero32 bodyRoot)"
    and "v_latestExecutionPayloadHeader w' = Some header"
proof -
  from assms obtain w1 w2 w3 w4 where
    steps: "processBlockHeader sp (mem_kv addr) blk w = (Inr (), w1)"
      "processExecutionPayload sp sch ctx (mem_kv addr) blk w1 = (Inr (), w2)"
      "processWithdrawals sp (mem_kv addr) (blk_Body blk) w2 = (Inr (), w3)"
      "processRandaoReveal sp (mem_kv addr) blk (SkipValidateRandao ctx) w3 = (Inr (), w4)"
      "forM (bd_Deposits (blk_Body blk)) (processDeposit sp (mem_kv addr)) w4 = (Inr (), w')"
    and root: "SkipValidateResult ctx \<or> state_root (cs sp) (sszEnv sp) w' = Inr (blk_StateRoot blk)"
    by (rule mem_ProcessBlock)
  from steps(1) [unfolded mem_processBlockHeader] obtain h bodyRoot proposer where
    hd: "v_slot w = Some (blk_Slot blk)" "v_latestBlockHeader w = Some h" "hdr_Slot h < blk_Slot blk"
      "htr_BeaconBlockHeader (sszEnv sp) h = Inr (blk_ParentBlockRoot blk)"
      "of_nat (length (bd_Deposits (blk_Body blk))) \<le> MaxDepositsPerBlock (cs sp)"
      "htr_BeaconBlockBody (sszEnv sp) (blk_Body blk) = Inr bodyRoot"
      "map_of (v_validators w) (blk_ProposerIndex blk) = Some proposer" "\<not> val_Slashed proposer"
      "w1 = w\<lparr>v_latestBlockHeader := Some (NewBeaconBlockHeader (blk_Slot blk) (blk_ProposerIndex blk)
          (blk_ParentBlockRoot blk) zero32 bodyRoot)\<rparr>" by blast
  from steps(2) obtain header where
    pl: "SkipPayloadVerification ctx \<or> payload_valid sp w1 blk (OptimisticEngine ctx)"
      "payload_header_of (sszEnv sp) (bd_ExecutionPayload (blk_Body blk)) header"
      "w2 = w1\<lparr>v_latestExecutionPayloadVersion := Some Deneb, v_latestExecutionPayloadHeader := Some header\<rparr>"
    by (rule mem_processExecutionPayload)
  have valid: "payload_valid sp w1 blk opt = payload_valid sp w blk opt" for opt
    using hd(9) by (simp add: payload_valid_def)
  obtain i m where "w4 = w3\<lparr>v_randaoMix := put i m (v_randaoMix w3)\<rparr>"
    by (rule mem_processRandaoReveal [OF steps(4)])
  moreover note processWithdrawals_frame [OF steps(3)] deposits_frame [OF steps(5)]
  ultimately have "v_slot w' = v_slot w2" "v_latestBlockHeader w' = v_latestBlockHeader w2"
      "v_latestExecutionPayloadHeader w' = v_latestExecutionPayloadHeader w2"
    by (cases w2; cases w3; cases w'; simp add: withdrawal_frame_def deposit_frame_def)+
  with hd pl root valid that show thesis by simp
qed

subsection \<open>The checks of withdrawals, reveal and deposits\<close>

text \<open>The randao reveal, checked on the state \<open>w\<close>: the proposer's signature over the epoch, and a digest as long as the mix.\<close>

definition reveal_valid :: "StateProcessor \<Rightarrow> kv_view \<Rightarrow> BeaconBlockDeneb \<Rightarrow> bool \<Rightarrow> bool" where
  "reveal_valid sp w blk skip \<longleftrightarrow>
     (\<exists>slot epoch root proposer mix. v_slot w = Some slot \<and> epoch = slot div SlotsPerEpoch (cs sp) \<and>
        v_genesisValidatorsRoot w = Some root \<and> map_of (v_validators w) (blk_ProposerIndex blk) = Some proposer \<and>
        map_of (v_randaoMix w) (epoch mod EpochsPerHistoricalVector (cs sp)) = Some mix \<and>
        (skip \<or> (\<exists>signingRoot. ComputeRandaoSigningRoot (sszEnv sp)
             (NewForkData (FromUint32 (ActiveForkVersionForEpoch (cs sp) epoch)) (take 32 root))
             (DomainTypeRandao (cs sp)) epoch = Inr signingRoot \<and>
           VerifySignature (signer sp) (val_Pubkey proposer) signingRoot (bd_RandaoReveal (blk_Body blk)) = Inr ())) \<and>
        fst (xor_Bytes sp (replicate 32 0) (take 32 mix) (Sum256 (merkle (sszEnv sp)) (bd_RandaoReveal (blk_Body blk)))) = 32)"

lemma mem_reveal_valid:
  assumes "processRandaoReveal sp (mem_kv addr) blk skip w = (Inr (), w')"
  shows "reveal_valid sp w blk skip"
  using assms
  by (auto simp: processRandaoReveal_def reveal_valid_def Let_def bindM_success mem_ops bindE_Inr SlotToEpoch_def
      to_array_def buildRandaoMix_def RootLength_def dest!: div_u64_InrD mod_u64_InrD split: if_splits prod.splits)

text \<open>
  The deposits, checked on the state \<open>w\<close>: the first deposit of a public key that is not registered carries a
  signature that verifies for the fork of the state.
\<close>

definition deposit_verified :: "StateProcessor \<Rightarrow> kv_view \<Rightarrow> Deposit \<Rightarrow> bool" where
  "deposit_verified sp w dep \<longleftrightarrow> (\<exists>fd. deposit_fork sp w fd \<and>
     Deposit_VerifySignature (sszEnv sp) dep fd (DomainTypeDeposit (cs sp)) (VerifySignature (signer sp)) = Inr ())"

definition deposits_valid :: "StateProcessor \<Rightarrow> kv_view \<Rightarrow> Deposit list \<Rightarrow> bool" where
  "deposits_valid sp w deps \<longleftrightarrow>
     (\<forall>i < length deps. dep_Pubkey (deps ! i) \<in> pubkeys w \<union> dep_Pubkey ` set (take i deps) \<or>
        deposit_verified sp w (deps ! i))"

lemma set_put_subset: "set (put k v m) \<subseteq> insert (k, v) (set m)"
  by (induction k v m rule: put.induct) auto

lemma processDeposit_checks:
  assumes "processDeposit sp (mem_kv addr) dep w = (Inr (), w')"
  shows "dep_Pubkey dep \<in> pubkeys w \<or> deposit_verified sp w dep"
    and "pubkeys w' \<subseteq> insert (dep_Pubkey dep) (pubkeys w)"
proof -
  from assms obtain n where
    run: "applyDeposit sp (mem_kv addr) dep (w\<lparr>v_eth1DepositIndex := Some n\<rparr>) = (Inr (), w')"
    (is "applyDeposit sp _ dep ?w = _")
    by (auto simp: processDeposit_def bindM_success mem_ops)
  have "(dep_Pubkey dep \<in> pubkeys w \<or> deposit_verified sp w dep) \<and> pubkeys w' \<subseteq> insert (dep_Pubkey dep) (pubkeys w)"
  proof (cases "by_pubkey (v_validators w) (dep_Pubkey dep)")
    case None
    with run have "createValidator sp (mem_kv addr) dep ?w = (Inr (), w')"
      by (simp add: applyDeposit_def mem_ops)
    then obtain fd where fd: "deposit_fork sp ?w fd"
        "Deposit_VerifySignature (sszEnv sp) dep fd (DomainTypeDeposit (cs sp)) (VerifySignature (signer sp)) = Inr ()"
      and add: "addValidatorToRegistry sp (mem_kv addr) dep ?w = (Inr (), w')"
      by (rule mem_createValidator)
    from add obtain val where val: "NewValidatorFromDeposit (dep_Pubkey dep) (dep_Credentials dep)
        (dep_Amount dep) (EffectiveBalanceIncrement (cs sp)) (MaxEffectiveBalance (cs sp)) = Inr val"
      and w': "v_validators w' = put (v_validatorIndex w) val (v_validators w)"
      by (auto simp: addValidatorToRegistry_def bindM_success mem_ops Let_def mem_IncreaseBalance
          split: if_splits option.splits)
    have "val_Pubkey val = dep_Pubkey dep" using val by (auto simp: NewValidatorFromDeposit_def bindE_Inr)
    then have "pubkeys w' \<subseteq> insert (dep_Pubkey dep) (pubkeys w)"
      using set_put_subset [of "v_validatorIndex w" val "v_validators w"] w' by (force simp: pubkeys_def)
    moreover have "deposit_verified sp w dep" using fd by (auto simp: deposit_verified_def deposit_fork_def)
    ultimately show ?thesis by simp
  next
    case (Some i)
    then have known: "dep_Pubkey dep \<in> pubkeys w" by (metis by_pubkey_None option.distinct(1) pubkeys_def)
    from run Some obtain v where v: "map_of (v_validators w) i = Some v"
      "v_validators w' = put i (SetEffectiveBalance v
         (min (val_EffectiveBalance v + dep_Amount dep) (MaxEffectiveBalance (cs sp)))) (v_validators w)"
      (is "_ = put i ?v _")
      by (auto simp: applyDeposit_def bindM_success mem_ops split: if_splits)
    from v(1) have "val_Pubkey ?v \<in> pubkeys w" by (force simp: pubkeys_def SetEffectiveBalance_def dest: map_of_SomeD)
    then have "pubkeys w' \<subseteq> pubkeys w"
      using set_put_subset [of i ?v "v_validators w"] v(2) by (force simp: pubkeys_def)
    with known show ?thesis by blast
  qed
  then show "dep_Pubkey dep \<in> pubkeys w \<or> deposit_verified sp w dep"
    and "pubkeys w' \<subseteq> insert (dep_Pubkey dep) (pubkeys w)" by blast+
qed

lemma deposits_checks:
  "forM deps (processDeposit sp (mem_kv addr)) w = (Inr (), w') \<Longrightarrow> deposits_valid sp w deps"
proof (induction deps arbitrary: w)
  case (Cons d deps)
  then obtain w1 where one: "processDeposit sp (mem_kv addr) d w = (Inr (), w1)"
      and rest: "forM deps (processDeposit sp (mem_kv addr)) w1 = (Inr (), w')"
    by (auto simp: bindM_success)
  have same: "deposit_verified sp w1 x = deposit_verified sp w x" for x
    using processDeposit_frame [OF one]
    by (cases w; cases w1) (simp add: deposit_verified_def deposit_fork_def deposit_frame_def)
  note one = processDeposit_checks [OF one]
  have "dep_Pubkey ((d # deps) ! i) \<in> pubkeys w \<union> dep_Pubkey ` set (take i (d # deps)) \<or>
      deposit_verified sp w ((d # deps) ! i)" if "i < length (d # deps)" for i
  proof (cases i)
    case (Suc j)
    then show ?thesis using Cons.IH [OF rest] that one(2) same by (auto simp: deposits_valid_def)
  qed (use one(1) in simp)
  then show ?case by (simp add: deposits_valid_def)
qed (simp add: deposits_valid_def)

lemma apply_withdrawals_equal:
  "apply_withdrawals (mem_kv addr) ps w = (Inr (), w') \<Longrightarrow> \<forall>p \<in> set ps. fst p = snd p"
proof (induction ps arbitrary: w)
  case (Cons p ps)
  obtain a b where p: "p = (a, b)" by fastforce
  from Cons.prems obtain w1 where "Withdrawal_Equals a b" "apply_withdrawals (mem_kv addr) ps w1 = (Inr (), w')"
    by (auto simp: p bindM_success split: if_splits)
  then show ?case using Cons.IH by (auto simp: p Withdrawal_Equals_def)
qed simp

lemma zip_equal: "length xs = length ys \<Longrightarrow> \<forall>p \<in> set (zip xs ys). fst p = snd p \<Longrightarrow> xs = ys"
  by (induction xs ys rule: list_induct2) simp_all

lemma processWithdrawals_expected:
  assumes "processWithdrawals sp (mem_kv addr) body w = (Inr (), w')"
  shows "fst (ExpectedWithdrawals (mem_kv addr) (cs sp) w) = Inr (pl_Withdrawals (bd_ExecutionPayload body))"
proof (cases "ExpectedWithdrawals (mem_kv addr) (cs sp) w")
  case (Pair r w1)
  with assms obtain ws w2 where "r = Inr ws" "length ws = length (pl_Withdrawals (bd_ExecutionPayload body))"
    and w2: "apply_withdrawals (mem_kv addr) (zip ws (pl_Withdrawals (bd_ExecutionPayload body))) w1 = (Inr (), w2)"
    by (auto simp: processWithdrawals_def Let_def bindM_success split: if_splits)
  then show ?thesis using Pair zip_equal apply_withdrawals_equal [OF w2] by simp
qed


text \<open>The sweep reads the slot, the accounts and its own position.\<close>

lemma ExpectedWithdrawals_cong:
  assumes "v_slot w' = v_slot w" and "v_validatorIndex w' = v_validatorIndex w" and "v_validators w' = v_validators w"
    and "v_balances w' = v_balances w" and "v_nextWithdrawalIndex w' = v_nextWithdrawalIndex w"
    and "v_nextWithdrawalValidatorIndex w' = v_nextWithdrawalValidatorIndex w"
  shows "fst (ExpectedWithdrawals (mem_kv addr) spec w') = fst (ExpectedWithdrawals (mem_kv addr) spec w)"
proof -
  have "withdrawal_at spec w' e index i = withdrawal_at spec w e index i" for e index i
    using assms by (simp add: withdrawal_at_def)
  then have "fst (sweep (mem_kv addr) spec e t n index i ws w') = fst (sweep (mem_kv addr) spec e t n index i ws w)"
    for e t n index i ws
    by (induction n arbitrary: index i ws) (simp_all add: mem_sweep_withdrawal bindM_def Let_def split: sum.splits)
  then show ?thesis
    using assms by (simp add: ExpectedWithdrawals_def mem_ops bindM_def split: sum.splits option.splits)
qed

text \<open>The checks of the parts after the payload, on the state that the block was given.\<close>

lemma ProcessBlock_checks:
  assumes "ProcessBlock sp sch ctx (mem_kv addr) blk w = (Inr (), w')"
  shows "fst (ExpectedWithdrawals (mem_kv addr) (cs sp) w) = Inr (pl_Withdrawals (bd_ExecutionPayload (blk_Body blk)))"
    and "reveal_valid sp w blk (SkipValidateRandao ctx)"
    and "deposits_valid sp w (bd_Deposits (blk_Body blk))"
proof -
  from assms obtain w1 w2 w3 w4 where
    steps: "processBlockHeader sp (mem_kv addr) blk w = (Inr (), w1)"
      "processExecutionPayload sp sch ctx (mem_kv addr) blk w1 = (Inr (), w2)"
      "processWithdrawals sp (mem_kv addr) (blk_Body blk) w2 = (Inr (), w3)"
      "processRandaoReveal sp (mem_kv addr) blk (SkipValidateRandao ctx) w3 = (Inr (), w4)"
      "forM (bd_Deposits (blk_Body blk)) (processDeposit sp (mem_kv addr)) w4 = (Inr (), w')"
    by (rule mem_ProcessBlock)
  from steps(1) [unfolded mem_processBlockHeader] obtain bh where w1: "w1 = w\<lparr>v_latestBlockHeader := bh\<rparr>" by blast
  obtain ver ph where w2: "w2 = w1\<lparr>v_latestExecutionPayloadVersion := ver, v_latestExecutionPayloadHeader := ph\<rparr>"
    by (rule mem_processExecutionPayload [OF steps(2)]) blast
  show "fst (ExpectedWithdrawals (mem_kv addr) (cs sp) w) = Inr (pl_Withdrawals (bd_ExecutionPayload (blk_Body blk)))"
    using processWithdrawals_expected [OF steps(3)] ExpectedWithdrawals_cong [of w2 w addr "cs sp"] by (simp add: w1 w2)
  obtain i m where w4: "w4 = w3\<lparr>v_randaoMix := put i m (v_randaoMix w3)\<rparr>"
    by (rule mem_processRandaoReveal [OF steps(4)])
  note frame = processWithdrawals_frame [OF steps(3)]
  have "v_slot w3 = v_slot w" "v_genesisValidatorsRoot w3 = v_genesisValidatorsRoot w" "v_validators w3 = v_validators w"
      "v_randaoMix w3 = v_randaoMix w"
    using frame by (cases w; cases w3; simp add: w1 w2 withdrawal_frame_def)+
  then show "reveal_valid sp w blk (SkipValidateRandao ctx)" "deposits_valid sp w (bd_Deposits (blk_Body blk))"
    using mem_reveal_valid [OF steps(4)] deposits_checks [OF steps(5)]
    by (simp_all add: w4 reveal_valid_def deposits_valid_def deposit_verified_def deposit_fork_def pubkeys_def)
qed

subsection \<open>Slots between blocks\<close>

text \<open>Slot and epoch processing completes the latest header but keeps the payload header.\<close>

definition head :: "kv_view \<Rightarrow> u64 option \<times> BeaconBlockHeader option \<times> ExecutionPayloadHeaderDeneb option" where
  "head w = (v_slot w, v_latestBlockHeader w, v_latestExecutionPayloadHeader w)"

lemma head_ops:
  "on_success (\<lambda>w. head w = x) (GetSlot (mem_kv addr)) (\<lambda>_ w. head w = x)"
  "on_success (\<lambda>w. head w = x) (GetValidators (mem_kv addr)) (\<lambda>_ w. head w = x)"
  "on_success (\<lambda>w. head w = x) (IncreaseBalance (mem_kv addr) i d) (\<lambda>_ w. head w = x)"
  "on_success (\<lambda>w. head w = x) (DecreaseBalance (mem_kv addr) i d) (\<lambda>_ w. head w = x)"
  "on_success (\<lambda>w. head w = x) (UpdateSlashingAtIndex (mem_kv addr) i d) (\<lambda>_ w. head w = x)"
  "on_success (\<lambda>w. head w = x) (GetRandaoMixAtIndex (mem_kv addr) i) (\<lambda>_ w. head w = x)"
  "on_success (\<lambda>w. head w = x) (UpdateRandaoMixAtIndex (mem_kv addr) i m) (\<lambda>_ w. head w = x)"
  "on_success (\<lambda>w. head w = x) (GetValidatorsByEffectiveBalance (mem_kv addr)) (\<lambda>_ w. head w = x)"
  by (auto simp: on_success_def mem_ops mem_IncreaseBalance mem_DecreaseBalance
      mem_UpdateSlashingAtIndex head_def split: option.splits if_splits)

lemma processEpoch_head:
  "on_success (\<lambda>w. head w = x) (processEpoch sp (mem_kv addr)) (\<lambda>_ w. head w = x)"
proof -
  note rules = on_success_bindM_inv on_success_if on_success_forM keeps_liftE on_success_ret
    on_success_throw head_ops
  have "on_success (\<lambda>w. head w = x) (processRewardsAndPenalties sp (mem_kv addr)) (\<lambda>_ w. head w = x)"
    unfolding processRewardsAndPenalties_def getAttestationDeltas_def Let_def
    by (intro rules; (simp add: split_def, intro rules)?)
  moreover have "on_success (\<lambda>w. head w = x) (processSlashingsReset sp (mem_kv addr)) (\<lambda>_ w. head w = x)"
    unfolding processSlashingsReset_def by (intro rules)
  moreover have "on_success (\<lambda>w. head w = x) (processRandaoMixesReset sp (mem_kv addr)) (\<lambda>_ w. head w = x)"
    unfolding processRandaoMixesReset_def by (intro rules)
  moreover have "on_success (\<lambda>w. head w = x) (processSyncCommitteeUpdates (mem_kv addr)) (\<lambda>_ w. head w = x)"
    unfolding processSyncCommitteeUpdates_def by (intro rules)
  ultimately show ?thesis
    unfolding processEpoch_def by (intro on_success_bindM_inv)
qed

lemma with_state_root_done: "hdr_StateRoot h \<noteq> zero32 \<Longrightarrow> with_state_root h r = h"
  by (simp add: with_state_root_def)

lemma hdr_StateRoot_completed:
  "r \<noteq> zero32 \<or> hdr_StateRoot h \<noteq> zero32 \<Longrightarrow> hdr_StateRoot (with_state_root h r) \<noteq> zero32"
  by (auto simp: with_state_root_def SetStateRoot_def)

lemma slots_loop_step:
  assumes "slots_loop sp (mem_kv addr) target s us w = (Inr us', w')" and "s < target"
    and "v_slot w = Some s" and "v_latestBlockHeader w = Some h"
  obtains r w1 us1 where "state_root (cs sp) (sszEnv sp) w = Inr r"
    and "head w1 = (Some (s + 1), Some (with_state_root h r), v_latestExecutionPayloadHeader w)"
    and "slots_loop sp (mem_kv addr) target (s + 1) us1 w1 = (Inr us', w')"
proof -
  from assms(1,2) obtain w0 w1 us1 where
    w0: "processSlot sp (mem_kv addr) w = (Inr (), w0)"
    and w1: "w1 = w0 \<or> (\<exists>u. processEpoch sp (mem_kv addr) w0 = (Inr u, w1))"
    and rest: "slots_loop sp (mem_kv addr) target (s + 1) us1 (w1\<lparr>v_slot := Some (s + 1)\<rparr>) = (Inr us', w')"
    by (subst (asm) slots_loop.simps) (auto simp: bindM_success mem_ops split: if_splits)
  from w0 assms(3,4) obtain r br where r: "state_root (cs sp) (sszEnv sp) w = Inr r"
    and w0': "w0 = after_slot (cs sp) s r h br w"
    by (auto simp: mem_processSlot)
  have "head w1 = head w0"
    using w1 on_successD [OF processEpoch_head, where s = w0] by blast
  then have "head (w1\<lparr>v_slot := Some (s + 1)\<rparr>) =
      (Some (s + 1), Some (with_state_root h r), v_latestExecutionPayloadHeader w)"
    by (simp add: head_def w0' after_slot_def Let_def)
  from that [OF r this rest] show thesis .
qed

lemma slots_loop_head:
  assumes "slots_loop sp (mem_kv addr) target s us w = (Inr us', w')"
    and "v_slot w = Some s" and "v_latestBlockHeader w = Some h"
  shows "v_latestExecutionPayloadHeader w' = v_latestExecutionPayloadHeader w \<and>
    v_slot w' = Some (max s target) \<and>
    (if s < target
     then \<exists>r. state_root (cs sp) (sszEnv sp) w = Inr r \<and>
       (r \<noteq> zero32 \<or> hdr_StateRoot h \<noteq> zero32 \<longrightarrow> v_latestBlockHeader w' = Some (with_state_root h r))
     else w' = w)"
  using assms
proof (induction "unat target - unat s" arbitrary: s us w h rule: less_induct)
  case less
  show ?case
  proof (cases "s < target")
    case False
    with less.prems have "w' = w" by (subst (asm) slots_loop.simps) simp
    with False less.prems show ?thesis by (auto simp: max_def)
  next
    case True
    from less.prems(1) True less.prems(2,3) obtain r w1 us1 where
      r: "state_root (cs sp) (sszEnv sp) w = Inr r"
      and w1: "head w1 = (Some (s + 1), Some (with_state_root h r), v_latestExecutionPayloadHeader w)"
      and rest: "slots_loop sp (mem_kv addr) target (s + 1) us1 w1 = (Inr us', w')"
      by (rule slots_loop_step)
    have "unat target - unat (s + 1) < unat target - unat s"
      using True unat_plus_one [OF True] by (simp add: word_less_nat_alt)
    from less.hyps [OF this rest] w1 have IH:
      "v_latestExecutionPayloadHeader w' = v_latestExecutionPayloadHeader w"
      "v_slot w' = Some (max (s + 1) target)"
      "if s + 1 < target
       then \<exists>r'. state_root (cs sp) (sszEnv sp) w1 = Inr r' \<and>
         (r' \<noteq> zero32 \<or> hdr_StateRoot (with_state_root h r) \<noteq> zero32 \<longrightarrow>
          v_latestBlockHeader w' = Some (with_state_root (with_state_root h r) r'))
       else w' = w1"
      by (auto simp: head_def)
    have "max (s + 1) target = max s target"
      using True unat_plus_one [OF True] by (simp add: max_def word_le_nat_alt word_less_nat_alt)
    moreover have "v_latestBlockHeader w' = Some (with_state_root h r)"
      if "r \<noteq> zero32 \<or> hdr_StateRoot h \<noteq> zero32"
      using IH(3) w1 hdr_StateRoot_completed [OF that] by (auto simp: with_state_root_done head_def split: if_splits)
    ultimately show ?thesis using IH(1,2) True r by simp
  qed
qed

subsection \<open>The transition\<close>

lemma on_handle_success:
  "on_handle m h = (Inr a, h') \<longleftrightarrow> (\<exists>w. m (h_ctx h) = (Inr a, w) \<and> h' = h\<lparr>h_ctx := w\<rparr>)"
  by (cases "m (h_ctx h)") (auto simp: on_handle_eq)

lemma h_ctx_Save [simp]: "h_ctx (Save B h) = h_ctx h"
  by (simp add: Save_def split: option.splits)

lemma mem_Transition:
  assumes "Transition sp sch mem_branching ctx (mem_kv addr) (Some blk) h = (Inr us, h')"
  obtains w1 w2 where "ProcessSlots sp (mem_kv addr) (blk_Slot blk) (h_ctx h) = (Inr us, w1)"
    and "ProcessBlock sp sch ctx (mem_kv addr) blk w1 = (Inr (), w2)"
    and "h_ctx h' = w2"
  using assms
  by (auto simp: Transition_def bindM_success on_handle_success)

lemma Transition_cases:
  assumes "Transition sp sch mem_branching ctx (mem_kv addr) (Some blk) h = (Inr us, h')"
    and "v_slot (h_ctx h) = Some s" and "v_latestBlockHeader (h_ctx h) = Some bh"
  obtains w1 bh' bodyRoot header where
    "ProcessSlots sp (mem_kv addr) (blk_Slot blk) (h_ctx h) = (Inr us, w1)"
    and "ProcessBlock sp sch ctx (mem_kv addr) blk w1 = (Inr (), h_ctx h')"
    and "v_latestExecutionPayloadHeader w1 = v_latestExecutionPayloadHeader (h_ctx h)"
    and "s \<le> blk_Slot blk" and "v_latestBlockHeader w1 = Some bh'"
    and "if s < blk_Slot blk
      then \<exists>r. state_root (cs sp) (sszEnv sp) (h_ctx h) = Inr r \<and>
        (r \<noteq> zero32 \<or> hdr_StateRoot bh \<noteq> zero32 \<longrightarrow> bh' = with_state_root bh r)
      else bh' = bh"
    and "hdr_Slot bh' < blk_Slot blk"
    and "htr_BeaconBlockHeader (sszEnv sp) bh' = Inr (blk_ParentBlockRoot blk)"
    and "htr_BeaconBlockBody (sszEnv sp) (blk_Body blk) = Inr bodyRoot"
    and "SkipPayloadVerification ctx \<or> payload_valid sp w1 blk (OptimisticEngine ctx)"
    and "payload_header_of (sszEnv sp) (bd_ExecutionPayload (blk_Body blk)) header"
    and "SkipValidateResult ctx \<or> state_root (cs sp) (sszEnv sp) (h_ctx h') = Inr (blk_StateRoot blk)"
    and "v_slot (h_ctx h') = Some (blk_Slot blk)"
    and "v_latestBlockHeader (h_ctx h') = Some (NewBeaconBlockHeader (blk_Slot blk) (blk_ProposerIndex blk)
      (blk_ParentBlockRoot blk) zero32 bodyRoot)"
    and "v_latestExecutionPayloadHeader (h_ctx h') = Some header"
proof -
  from assms(1) obtain w1 where
    w1: "ProcessSlots sp (mem_kv addr) (blk_Slot blk) (h_ctx h) = (Inr us, w1)"
    and blk: "ProcessBlock sp sch ctx (mem_kv addr) blk w1 = (Inr (), h_ctx h')"
    by (auto elim: mem_Transition)
  have "slots_loop sp (mem_kv addr) (blk_Slot blk) s [] (h_ctx h) = (Inr us, w1)"
    using w1 assms(2) by (simp add: ProcessSlots_def mem_ops)
  note slots = slots_loop_head [OF this assms(2,3)]
  from blk show thesis
  proof (rule ProcessBlock_head)
    fix bh' bodyRoot proposer header
    assume slot: "v_slot w1 = Some (blk_Slot blk)" and bh': "v_latestBlockHeader w1 = Some bh'"
      and "hdr_Slot bh' < blk_Slot blk"
      "htr_BeaconBlockHeader (sszEnv sp) bh' = Inr (blk_ParentBlockRoot blk)"
      "htr_BeaconBlockBody (sszEnv sp) (blk_Body blk) = Inr bodyRoot"
      "SkipPayloadVerification ctx \<or> payload_valid sp w1 blk (OptimisticEngine ctx)"
      "payload_header_of (sszEnv sp) (bd_ExecutionPayload (blk_Body blk)) header"
      "SkipValidateResult ctx \<or> state_root (cs sp) (sszEnv sp) (h_ctx h') = Inr (blk_StateRoot blk)"
      "v_slot (h_ctx h') = Some (blk_Slot blk)"
      "v_latestBlockHeader (h_ctx h') = Some (NewBeaconBlockHeader (blk_Slot blk) (blk_ProposerIndex blk)
        (blk_ParentBlockRoot blk) zero32 bodyRoot)"
      "v_latestExecutionPayloadHeader (h_ctx h') = Some header"
    moreover have "s \<le> blk_Slot blk" using slots slot by (simp add: max_def split: if_splits)
    moreover have "if s < blk_Slot blk
      then \<exists>r. state_root (cs sp) (sszEnv sp) (h_ctx h) = Inr r \<and>
        (r \<noteq> zero32 \<or> hdr_StateRoot bh \<noteq> zero32 \<longrightarrow> bh' = with_state_root bh r)
      else bh' = bh"
      using slots bh' assms(3) by (auto split: if_splits)
    ultimately show thesis using slots by (intro that [OF w1 blk]) auto
  qed
qed

end
