(* ===== verification/Chain.thy ===== *)
theory Chain
  imports Blocks
begin

unbundle bit_operations_syntax

section \<open>Chains of blocks\<close>

text \<open>
  Transitions put together: a failed transition leaves the parent context alone, consecutive
  blocks are linked by their roots and payload hashes, the invariants of the state hold in every
  state reachable from a genesis state. The first part runs the transition on the concrete instance,
  for the witnesses.
\<close>

subsection \<open>A concrete transition\<close>

definition demo_ctx :: TransitionContext where
  "demo_ctx = \<lparr>OptimisticEngine = False, SkipPayloadVerification = False, SkipValidateRandao = False,
     SkipValidateResult = False\<rparr>"

definition demo_schedule :: Schedule where
  "demo_schedule = \<lparr>verify_first = True, txs_first = True\<rparr>"

definition demo_slot4 :: kv_view where
  "demo_slot4 = (after_slot BaseSpec 3 (replicate 32 53) (NewBeaconBlockHeader 3 0 zero32 zero32 zero32)
     (replicate 32 103) demo_view)\<lparr>v_slot := Some 4\<rparr>"

lemma demo_root:
  assumes "ready BaseSpec w" and "v_slot w = Some slot" and "slot div 32 = 0"
  shows "state_root BaseSpec demo_env w = word_root (slot + 50)"
proof -
  from primed_view_state [OF demo_spec_ok assms(1,2)] assms(3) obtain st where
    st: "view_state BaseSpec w = Inr st" by auto
  with assms(2) have "st_Slot st = slot"
    by (auto simp: view_state_def bindE_Inr BeaconState_New_def split: if_splits)
  with st show ?thesis by (simp add: state_root_def)
qed

lemma zero32_eq: "replicate 32 0 = zero32"
  by (simp add: zero32_def)

lemma demo_slots: "ProcessSlots demo_processor (mem_kv id) 4 demo_view = (Inr [], demo_slot4)"
proof -
  have "processSlot demo_processor (mem_kv id) demo_view =
      (Inr (), after_slot BaseSpec 3 (replicate 32 53) (NewBeaconBlockHeader 3 0 zero32 zero32 zero32)
        (replicate 32 103) demo_view)"
    using demo_root [OF demo_ready, of 3]
    by (simp add: mem_processSlot word_root_def with_state_root_def NewBeaconBlockHeader_def SetStateRoot_def)
  then show ?thesis
    by (simp add: ProcessSlots_def mem_ops slots_loop.simps [of _ _ 4] demo_slot4_def)
qed

lemma demo_slot4_simps [simp]:
  "v_slot demo_slot4 = Some 4"
  "v_latestBlockHeader demo_slot4 = Some \<lparr>hdr_Slot = 3, hdr_ProposerIndex = 0, hdr_ParentBlockRoot = zero32,
     hdr_StateRoot = replicate 32 53, hdr_BodyRoot = zero32\<rparr>"
  "v_validators demo_slot4 = v_validators demo_view" "v_randaoMix demo_slot4 = demo_roots"
  "v_latestExecutionPayloadVersion demo_slot4 = Some Deneb"
  "v_latestExecutionPayloadHeader demo_slot4 = Some demo_payload_header"
  "v_genesisValidatorsRoot demo_slot4 = Some zero32" "v_eth1DepositIndex demo_slot4 = Some 0"
  "v_eth1Data demo_slot4 = v_eth1Data demo_view"
  by (simp_all add: demo_slot4_def after_slot_def Let_def with_state_root_def NewBeaconBlockHeader_def
      SetStateRoot_def)

lemma demo_roots_lookup [simp]: "map_of demo_roots 0 = Some zero32"
  by (simp add: demo_roots_def range_u64_def upt_rec)

text \<open>The latest header and the payload header after the block.\<close>

definition demo_header :: BeaconBlockHeader where
  "demo_header = NewBeaconBlockHeader 4 0 (replicate 32 103) zero32 (replicate 32 2)"

definition demo_new_payload_header :: ExecutionPayloadHeaderDeneb where
  "demo_new_payload_header = header_with_roots (bd_ExecutionPayload demo_body) zero32 zero32"

lemma demo_payload_roots:
  "Transactions_HashTreeRoot demo_env [] = Inr zero32"
  "Withdrawals_HashTreeRoot demo_env demo_withdrawals = Inr zero32"
proof -
  note spec = reference_few.MerkleizeListComposite_spec [where sha = "\<lambda>_. zero32"]
  show "Transactions_HashTreeRoot demo_env [] = Inr zero32"
    using spec [of Inr "[]" "[]" MaxTxsPerPayload]
    by (simp add: Transactions_HashTreeRoot_def MaxTxsPerPayload_def)
  have "mapE (htr_Withdrawal demo_env) demo_withdrawals = Inr [replicate 32 40, replicate 32 41]"
    by (simp add: demo_withdrawals_def word_root_def)
  from spec [OF this, of constants_MaxWithdrawalsPerPayload]
  show "Withdrawals_HashTreeRoot demo_env demo_withdrawals = Inr zero32"
    by (simp add: Withdrawals_HashTreeRoot_def constants_MaxWithdrawalsPerPayload_def demo_withdrawals_def)
qed

lemma demo_step_header:
  "processBlockHeader demo_processor (mem_kv id) demo_block demo_slot4 =
     (Inr (), demo_slot4\<lparr>v_latestBlockHeader := Some demo_header\<rparr>)"
  by (simp add: mem_processBlockHeader demo_header_def word_root_def demo_validator_def)

lemma demo_step_payload:
  "processExecutionPayload demo_processor demo_schedule demo_ctx (mem_kv id) demo_block
     (demo_slot4\<lparr>v_latestBlockHeader := Some demo_header\<rparr>) =
   (Inr (), demo_slot4\<lparr>v_latestBlockHeader := Some demo_header,
      v_latestExecutionPayloadVersion := Some Deneb,
      v_latestExecutionPayloadHeader := Some demo_new_payload_header\<rparr>)"
proof -
  have "fst (validateExecutionPayload demo_processor (mem_kv id) demo_block False
      (demo_slot4\<lparr>v_latestBlockHeader := Some demo_header\<rparr>)) = Inr ()"
    by (simp add: validateExecutionPayload_def mem_ops ExecutionPayloadHeader_Empty_def SlotToEpoch_def
        Let_def demo_payload_header_def demo_withdrawals_def)
  moreover have "fst (ToHeader demo_env b (GetExecutionPayload demo_body)) = Inr demo_new_payload_header" for b
    using demo_payload_roots
    by (simp add: ToHeader_fresh payload_header_of_def demo_new_payload_header_def)
  moreover have "payload_header_encodable demo_new_payload_header"
    by (simp add: payload_header_encodable_def demo_new_payload_header_def header_with_roots_def demo_body_def)
  ultimately show ?thesis
    by (simp add: processExecutionPayload_def demo_ctx_def mem_ops bindM_reads)
qed

definition demo_after :: kv_view where
  "demo_after = demo_slot4\<lparr>v_latestBlockHeader := Some demo_header,
     v_latestExecutionPayloadVersion := Some Deneb,
     v_latestExecutionPayloadHeader := Some demo_new_payload_header,
     v_balances := debit demo_withdrawals (v_balances demo_view),
     v_nextWithdrawalIndex := Some 42, v_nextWithdrawalValidatorIndex := Some 1,
     v_randaoMix := put 0 zero32 demo_roots\<rparr>"

lemma demo_step_randao:
  assumes "v_slot w = Some 4" and "v_validators w = v_validators demo_view"
    and "v_genesisValidatorsRoot w = Some zero32" and "v_randaoMix w = demo_roots"
  shows "processRandaoReveal demo_processor (mem_kv id) demo_block False w =
    (Inr (), w\<lparr>v_randaoMix := put 0 zero32 demo_roots\<rparr>)"
proof -
  have "map2 (XOR) zero32 zero32 = zero32" by (simp add: zero32_def)
  with assms show ?thesis
    by (simp add: processRandaoReveal_def mem_ops SlotToEpoch_def ComputeRandaoSigningRoot_def Let_def
        ComputeDomain_def ComputeSigningRootUInt64_def word_root_def demo_signer_def demo_validator_def
        buildRandaoMix_xor [OF reference_xor.xor_library_axioms [folded demo_processor_simps(5)]]
        epoch_root_0)
qed

lemma demo_after_ready: "ready BaseSpec demo_after"
proof -
  have "map fst (debit demo_withdrawals (v_balances demo_view)) = map fst (v_balances demo_view)"
    by (rule debit_keys [OF demo_covered [OF demo_view_accounts]])
  then have "registry_ok demo_after"
    using demo_registry_ok
    by (simp add: registry_ok_def demo_after_def demo_slot4_def after_slot_def Let_def)
  moreover have "primed BaseSpec demo_after"
    using demo_ready
    by (simp add: ready_def primed_def demo_after_def demo_slot4_def after_slot_def Let_def filled_put
        payload_header_encodable_def demo_new_payload_header_def header_with_roots_def demo_body_def)
  moreover have "slashings_ok demo_after"
    using demo_slashings_ok
    by (simp add: slashings_ok_def total_slashing_def demo_after_def demo_slot4_def after_slot_def Let_def)
  ultimately show ?thesis by (simp add: ready_def)
qed

lemma demo_ProcessBlock:
  "ProcessBlock demo_processor demo_schedule demo_ctx (mem_kv id) demo_block demo_slot4 = (Inr (), demo_after)"
proof -
  let ?w = "demo_slot4\<lparr>v_latestBlockHeader := Some demo_header,
      v_latestExecutionPayloadVersion := Some Deneb,
      v_latestExecutionPayloadHeader := Some demo_new_payload_header\<rparr>"
  have "demo_accounts ?w"
    by (simp add: demo_accounts_def demo_slot4_def after_slot_def Let_def)
  from demo_processWithdrawals [OF this, of 4]
  have "processWithdrawals demo_processor (mem_kv id) demo_body ?w =
      (Inr (), ?w\<lparr>v_balances := debit demo_withdrawals (v_balances demo_view),
        v_nextWithdrawalIndex := Some 42, v_nextWithdrawalValidatorIndex := Some 1\<rparr>)"
    by (simp del: debit.simps)
  moreover have "processRandaoReveal demo_processor (mem_kv id) demo_block False
      (?w\<lparr>v_balances := debit demo_withdrawals (v_balances demo_view),
        v_nextWithdrawalIndex := Some 42, v_nextWithdrawalValidatorIndex := Some 1\<rparr>) = (Inr (), demo_after)"
    by (subst demo_step_randao) (simp_all add: demo_after_def del: debit.simps)
  moreover have "processOperations demo_processor (mem_kv id) demo_block demo_after = (Inr (), demo_after)"
    by (simp add: processOperations_def processDeposits_def mem_ops Let_def demo_after_def)
  moreover have "state_root BaseSpec demo_env demo_after = Inr (replicate 32 54)"
    using demo_root [OF demo_after_ready, of 4] by (simp add: demo_after_def word_root_def)
  ultimately show ?thesis
    using demo_step_header demo_step_payload
    by (simp add: ProcessBlock_def mem_StateDB_HashTreeRoot) (simp add: demo_ctx_def mem_StateDB_HashTreeRoot)
qed

lemma demo_Transition:
  "Transition demo_processor demo_schedule mem_branching demo_ctx (mem_kv id) (Some demo_block)
     (Copy mem_branching \<lparr>h_ctx = demo_view, h_parent = None\<rparr>) =
   (Inr [], \<lparr>h_ctx = demo_after, h_parent = Some demo_after\<rparr>)"
  using demo_slots demo_ProcessBlock
  by (simp add: Transition_def on_handle_eq Copy_def WithContext_def mem_branching_def Save_def bindM_def)

subsection \<open>Blocks\<close>

text \<open>
  \<open>processBlockHeader\<close> accepts a block exactly when its slot is the state's, later than the
  latest header's, its parent root is the root of the latest header, it has no more deposits than
  allowed, its body can be hashed and its proposer is registered and not slashed; it then stores
  the header of the block with a zero state root and changes nothing else.
\<close>

theorem processBlockHeader_effect:
  assumes "kv_laws kv view addr"
  shows "(\<exists>c'. processBlockHeader sp kv blk c = (Inr (), c') \<and> view c' = w') \<longleftrightarrow>
     (\<exists>h bodyRoot proposer. v_slot (view c) = Some (blk_Slot blk) \<and> v_latestBlockHeader (view c) = Some h \<and>
        hdr_Slot h < blk_Slot blk \<and>
        htr_BeaconBlockHeader (sszEnv sp) h = Inr (blk_ParentBlockRoot blk) \<and>
        of_nat (length (bd_Deposits (blk_Body blk))) \<le> MaxDepositsPerBlock (cs sp) \<and>
        htr_BeaconBlockBody (sszEnv sp) (blk_Body blk) = Inr bodyRoot \<and>
        map_of (v_validators (view c)) (blk_ProposerIndex blk) = Some proposer \<and> \<not> val_Slashed proposer \<and>
        w' = (view c)\<lparr>v_latestBlockHeader := Some (NewBeaconBlockHeader (blk_Slot blk)
          (blk_ProposerIndex blk) (blk_ParentBlockRoot blk) zero32 bodyRoot)\<rparr>)"
  unfolding mem_processBlockHeader [where sp = sp and addr = addr and blk = blk and w = "view c" and
      w' = w', symmetric]
  using simulates_success [OF kv_laws.processBlockHeader_sim [OF assms]]
    simulates_success' [OF kv_laws.processBlockHeader_sim [OF assms]] by blast

theorem processBlockHeader_effect_witness:
  "\<exists>w'. processBlockHeader demo_processor (mem_kv id) demo_block demo_slot4 = (Inr (), w') \<and>
     v_latestBlockHeader w' = Some demo_header"
  using iffD2 [OF processBlockHeader_effect [OF mem.kv_laws_axioms, where sp = demo_processor and
      blk = demo_block and c = demo_slot4 and addr = id and
      w' = "demo_slot4\<lparr>v_latestBlockHeader := Some demo_header\<rparr>"]]
  by (auto simp: demo_header_def word_root_def demo_validator_def)

text \<open>
  C4. When \<open>ProcessBlock\<close> returns without an error, every check it makes of the block held on the state it was given:
  the slot and parent root are those of the state, the number of deposits is within its limit and the proposer is
  registered and not slashed; unless its verification is skipped, the payload extends the latest payload, the engine accepted
  it, its randomness is the mix of the epoch and it respects the blob and withdrawal limits; its withdrawals are exactly the
  expected ones; unless that check is skipped, the reveal is the proposer's signature over the epoch; the first deposit
  of every public key that is not registered carries a valid signature; unless the result check is skipped, the state root of
  the block is the root of the resulting state. The head of the resulting state is the block: its slot, its header
  with a zero state root and the header of its payload.
\<close>

theorem ProcessBlock_accepts:
  assumes "kv_laws kv view addr" and "ProcessBlock sp sch ctx kv blk c = (Inr (), c')"
  shows "\<exists>h bodyRoot proposer header.
    v_slot (view c) = Some (blk_Slot blk) \<and> v_latestBlockHeader (view c) = Some h \<and>
    hdr_Slot h < blk_Slot blk \<and>
    htr_BeaconBlockHeader (sszEnv sp) h = Inr (blk_ParentBlockRoot blk) \<and>
    of_nat (length (bd_Deposits (blk_Body blk))) \<le> MaxDepositsPerBlock (cs sp) \<and>
    htr_BeaconBlockBody (sszEnv sp) (blk_Body blk) = Inr bodyRoot \<and>
    map_of (v_validators (view c)) (blk_ProposerIndex blk) = Some proposer \<and> \<not> val_Slashed proposer \<and>
    (SkipPayloadVerification ctx \<or> payload_valid sp (view c) blk (OptimisticEngine ctx)) \<and>
    fst (ExpectedWithdrawals kv (cs sp) c) = Inr (pl_Withdrawals (bd_ExecutionPayload (blk_Body blk))) \<and>
    reveal_valid sp (view c) blk (SkipValidateRandao ctx) \<and>
    deposits_valid sp (view c) (bd_Deposits (blk_Body blk)) \<and>
    (SkipValidateResult ctx \<or> state_root (cs sp) (sszEnv sp) (view c') = Inr (blk_StateRoot blk)) \<and>
    payload_header_of (sszEnv sp) (bd_ExecutionPayload (blk_Body blk)) header \<and>
    v_slot (view c') = Some (blk_Slot blk) \<and>
    v_latestBlockHeader (view c') = Some (NewBeaconBlockHeader (blk_Slot blk) (blk_ProposerIndex blk)
      (blk_ParentBlockRoot blk) zero32 bodyRoot) \<and>
    v_latestExecutionPayloadHeader (view c') = Some header"
proof -
  have run: "ProcessBlock sp sch ctx (mem_kv addr) blk (view c) = (Inr (), view c')"
    by (rule simulates_success [OF kv_laws.ProcessBlock_sim [OF assms(1)] assms(2)])
  note checks = ProcessBlock_checks [OF run]
  have "fst (ExpectedWithdrawals kv (cs sp) c) = Inr (pl_Withdrawals (bd_ExecutionPayload (blk_Body blk)))"
    using checks(1) simulates_fst [OF kv_laws.state_sims(1) [OF assms(1)], of "cs sp" c] by simp
  with run checks(2,3) show ?thesis by - (erule ProcessBlock_head, blast)
qed

theorem ProcessBlock_accepts_witness:
  "\<exists>w'. ProcessBlock demo_processor demo_schedule demo_ctx (mem_kv id) demo_block demo_slot4 = (Inr (), w') \<and>
     v_slot w' = Some 4 \<and> state_root BaseSpec demo_env w' = Inr (blk_StateRoot demo_block)"
  using ProcessBlock_accepts [OF mem.kv_laws_axioms demo_ProcessBlock] demo_ProcessBlock
  by (auto simp: demo_ctx_def)

subsection \<open>Transitions\<close>

text \<open>
  C7. A transition is atomic for the context it was branched from: when any step fails, the parent
  context is the one it was before; when it succeeds, the contents of the parent are those of the
  branch. A nil block changes nothing.
\<close>

theorem Transition_atomic:
  assumes "branching B view"
  shows "case Transition sp sch B ctx kv blk h of
      (Inl e, h') \<Rightarrow> h_parent h' = h_parent h
    | (Inr us, h') \<Rightarrow>
        if blk = None then us = [] \<and> h' = h
        else map_option view (h_parent h') = map_option (\<lambda>_. view (h_ctx h')) (h_parent h)"
proof (cases blk)
  case None
  then show ?thesis by (simp add: Transition_def)
next
  case (Some b)
  then show ?thesis
    by (auto simp: Transition_def bindM_def on_handle_eq Save_def branching.write_view [OF assms]
        split: sum.splits option.splits)
qed

theorem Transition_atomic_witness:
  "h_parent (snd (Transition demo_processor demo_schedule mem_branching demo_ctx (mem_kv id) (Some demo_block)
     (Copy mem_branching \<lparr>h_ctx = demo_view, h_parent = None\<rparr>))) = Some demo_after"
  using Transition_atomic [OF mem_branch.branching_axioms, where sp = demo_processor and sch = demo_schedule
      and ctx = demo_ctx and kv = "mem_kv id" and blk = "Some demo_block" and
      h = "Copy mem_branching \<lparr>h_ctx = demo_view, h_parent = None\<rparr>"]
  by (simp add: demo_Transition)

text \<open>
  C3. Consecutive blocks are linked. If two transitions succeed one after the other, the first with
  its result check, then the slot of the second block is later and the parent root it names is
  the root of the first block's header, with the state root the first block claims (unless that
  root is all zero); unless its payload verification is skipped, its payload's parent hash is the
  block hash of the first payload.
\<close>

theorem chain_linkage:
  assumes "beacon_store kv view addr B"
    and "v_slot (view (h_ctx h)) = Some s" and "v_latestBlockHeader (view (h_ctx h)) = Some bh"
    and "Transition sp sch B ctx kv (Some b1) h = (Inr us1, h1)"
    and "Transition sp sch' B ctx' kv (Some b2) h1 = (Inr us2, h2)"
    and "\<not> SkipValidateResult ctx" and "blk_StateRoot b1 \<noteq> zero32"
  shows "blk_Slot b1 < blk_Slot b2 \<and>
    (\<exists>hdr. GetHeader (sszEnv sp) b1 = Some hdr \<and>
       htr_BeaconBlockHeader (sszEnv sp) hdr = Inr (blk_ParentBlockRoot b2)) \<and>
    (SkipPayloadVerification ctx' \<or>
     pl_ParentHash (bd_ExecutionPayload (blk_Body b2)) = pl_BlockHash (bd_ExecutionPayload (blk_Body b1)))"
proof -
  note sim = beacon_store.Transition_sim [OF assms(1)]
  let ?v = "handle_view view"
  have T1: "Transition sp sch mem_branching ctx (mem_kv addr) (Some b1) (?v h) = (Inr us1, ?v h1)"
    and T2: "Transition sp sch' mem_branching ctx' (mem_kv addr) (Some b2) (?v h1) = (Inr us2, ?v h2)"
    using simulates_success [OF sim assms(4)] simulates_success [OF sim assms(5)] .
  have s0: "v_slot (h_ctx (?v h)) = Some s" "v_latestBlockHeader (h_ctx (?v h)) = Some bh"
    using assms(2,3) by (simp_all add: handle_view_def)
  from T1 s0 obtain bodyRoot header where
    body: "htr_BeaconBlockBody (sszEnv sp) (blk_Body b1) = Inr bodyRoot"
    and ph: "payload_header_of (sszEnv sp) (bd_ExecutionPayload (blk_Body b1)) header"
    and root: "state_root (cs sp) (sszEnv sp) (h_ctx (?v h1)) = Inr (blk_StateRoot b1)"
    and s1: "v_slot (h_ctx (?v h1)) = Some (blk_Slot b1)"
    and bh1: "v_latestBlockHeader (h_ctx (?v h1)) = Some (NewBeaconBlockHeader (blk_Slot b1)
      (blk_ProposerIndex b1) (blk_ParentBlockRoot b1) zero32 bodyRoot)"
    and ph1: "v_latestExecutionPayloadHeader (h_ctx (?v h1)) = Some header"
    using assms(6) by (blast elim: Transition_cases)
  let ?hd = "NewBeaconBlockHeader (blk_Slot b1) (blk_ProposerIndex b1) (blk_ParentBlockRoot b1) zero32 bodyRoot"
  from T2 s1 bh1 obtain w1 bh' where
    w1: "v_latestExecutionPayloadHeader w1 = v_latestExecutionPayloadHeader (h_ctx (?v h1))"
      "blk_Slot b1 \<le> blk_Slot b2"
    and bh': "if blk_Slot b1 < blk_Slot b2
      then \<exists>r. state_root (cs sp) (sszEnv sp) (h_ctx (?v h1)) = Inr r \<and>
        (r \<noteq> zero32 \<or> hdr_StateRoot ?hd \<noteq> zero32 \<longrightarrow> bh' = with_state_root ?hd r)
      else bh' = ?hd" "hdr_Slot bh' < blk_Slot b2"
      "htr_BeaconBlockHeader (sszEnv sp) bh' = Inr (blk_ParentBlockRoot b2)"
      "SkipPayloadVerification ctx' \<or> payload_valid sp w1 b2 (OptimisticEngine ctx')"
    by (rule Transition_cases) blast
  have less: "blk_Slot b1 < blk_Slot b2"
    using bh'(1,2) w1(2) by (auto simp: NewBeaconBlockHeader_def split: if_splits)
  with bh'(1) root assms(7) have "bh' = with_state_root ?hd (blk_StateRoot b1)" by auto
  then have "GetHeader (sszEnv sp) b1 = Some bh'"
    by (simp add: GetHeader_def body with_state_root_def NewBeaconBlockHeader_def SetStateRoot_def)
  moreover have "ph_BlockHash header = pl_BlockHash (bd_ExecutionPayload (blk_Body b1))"
    using ph by (auto simp: payload_header_of_def header_with_roots_def)
  ultimately show ?thesis
    using less bh'(3,4) w1(1) ph1 by (auto simp: payload_valid_def Let_def)
qed

text \<open>A second block on the concrete chain, which has nothing left to withdraw.\<close>

definition demo_withdrawals2 :: "Withdrawal list" where
  "demo_withdrawals2 = [
     \<lparr>wd_Index = 42, wd_Validator = 1, wd_Address = replicate 20 8, wd_Amount = 0\<rparr>,
     \<lparr>wd_Index = 43, wd_Validator = 0, wd_Address = replicate 20 7, wd_Amount = 0\<rparr>]"

definition demo_block2 :: BeaconBlockDeneb where
  "demo_block2 = \<lparr>blk_Slot = 5, blk_ProposerIndex = 1, blk_ParentBlockRoot = replicate 32 104,
     blk_StateRoot = zero32, blk_Body = demo_body\<lparr>bd_ExecutionPayload :=
       (bd_ExecutionPayload demo_body)\<lparr>pl_Withdrawals := demo_withdrawals2\<rparr>\<rparr>\<rparr>"

definition demo_ctx2 :: TransitionContext where
  "demo_ctx2 = \<lparr>OptimisticEngine = False, SkipPayloadVerification = True, SkipValidateRandao = True,
     SkipValidateResult = True\<rparr>"

definition demo_slot5 :: kv_view where
  "demo_slot5 = (after_slot BaseSpec 4 (replicate 32 54) demo_header (replicate 32 104) demo_after)
     \<lparr>v_slot := Some 5\<rparr>"

lemma demo_balances2: "debit demo_withdrawals (v_balances demo_view) = [(0, 32000000000), (1, 31000000000)]"
  by (simp add: demo_withdrawals_def)

lemma demo_slot5_simps [simp]:
  "v_slot demo_slot5 = Some 5" "v_validators demo_slot5 = v_validators demo_view"
  "v_latestBlockHeader demo_slot5 = Some (with_state_root demo_header (replicate 32 54))"
  "v_validatorIndex demo_slot5 = 2" "v_balances demo_slot5 = [(0, 32000000000), (1, 31000000000)]"
  "v_nextWithdrawalIndex demo_slot5 = Some 42" "v_nextWithdrawalValidatorIndex demo_slot5 = Some 1"
  "v_genesisValidatorsRoot demo_slot5 = Some zero32" "v_eth1DepositIndex demo_slot5 = Some 0"
  "v_eth1Data demo_slot5 = v_eth1Data demo_view" "v_randaoMix demo_slot5 = put 0 zero32 demo_roots"
  using demo_balances2
  by (simp_all add: demo_slot5_def demo_after_def demo_slot4_def after_slot_def Let_def)

lemma demo_slots2: "ProcessSlots demo_processor (mem_kv id) 5 demo_after = (Inr [], demo_slot5)"
proof -
  have slot: "v_slot demo_after = Some 4" "v_latestBlockHeader demo_after = Some demo_header"
    by (simp_all add: demo_after_def)
  have "processSlot demo_processor (mem_kv id) demo_after =
      (Inr (), after_slot BaseSpec 4 (replicate 32 54) demo_header (replicate 32 104) demo_after)"
    using demo_root [OF demo_after_ready slot(1)] slot
    by (simp add: mem_processSlot word_root_def with_state_root_def demo_header_def
        NewBeaconBlockHeader_def SetStateRoot_def)
  then show ?thesis
    using slot by (simp add: ProcessSlots_def mem_ops slots_loop.simps [of _ _ 5] demo_slot5_def)
qed

lemma demo_header2_root: "hdr_Slot (with_state_root demo_header r) = 4"
  by (simp add: with_state_root_def demo_header_def NewBeaconBlockHeader_def SetStateRoot_def)

lemma demo_payload2: "\<exists>header. payload_header_of demo_env (bd_ExecutionPayload (blk_Body demo_block2)) header \<and>
  payload_header_encodable header"
proof -
  have "mapE (htr_Withdrawal demo_env) demo_withdrawals2 = Inr [replicate 32 42, replicate 32 43]"
    by (simp add: demo_withdrawals2_def word_root_def)
  from reference_few.MerkleizeListComposite_spec [where sha = "\<lambda>_. zero32", OF this,
      of constants_MaxWithdrawalsPerPayload]
  have "Withdrawals_HashTreeRoot demo_env demo_withdrawals2 = Inr zero32"
    by (simp add: Withdrawals_HashTreeRoot_def constants_MaxWithdrawalsPerPayload_def demo_withdrawals2_def)
  then show ?thesis
    using demo_payload_roots(1)
    by (auto simp: payload_header_of_def demo_block2_def payload_header_encodable_def
        header_with_roots_def demo_body_def)
qed

lemma demo_withdrawals2_run:
  assumes "v_slot w = Some 5" "v_validatorIndex w = 2" "v_validators w = v_validators demo_view"
    "v_balances w = [(0, 32000000000), (1, 31000000000)]" "v_nextWithdrawalIndex w = Some 42"
    "v_nextWithdrawalValidatorIndex w = Some 1"
  shows "fst (processWithdrawals demo_processor (mem_kv id) (blk_Body demo_block2) w) = Inr ()"
proof -
  have reg: "registry_ok w"
    using demo_registry_ok assms by (simp add: registry_ok_def)
  have "expected_withdrawals BaseSpec w 5 42 1 = Inr demo_withdrawals2"
    using assms
    by (simp add: expected_withdrawals_def sweep_count_def sweep_index_def
        min_def upt_rec withdrawal_at_def demo_validator_def ToExecutionAddress_def
        NewCredentialsFromExecutionAddress_def EthSecp256k1CredentialPrefix_def to_array_def
        IsFullyWithdrawable_def IsPartiallyWithdrawable_def HasEth1WithdrawalCredentials_def
        HasMaxEffectiveBalance_def FarFutureEpoch_def demo_withdrawals2_def)
  moreover from this have cov: "covered demo_withdrawals2 (v_balances w)"
    using expected_withdrawals_distinct expected_withdrawals_covered registry_ordered(2) [OF reg]
    unfolding covered_def by blast
  ultimately have "ExpectedWithdrawals (mem_kv id) BaseSpec w = (Inr demo_withdrawals2, w)"
    using mem_ExpectedWithdrawals [OF reg, where start = 1 and slot = 5 and index = 42 and
        spec = BaseSpec and addr = id] assms by simp
  moreover have "length demo_withdrawals2 = 2" by (simp add: demo_withdrawals2_def)
  ultimately show ?thesis
    using mem_apply_withdrawals [OF cov, of demo_withdrawals2 id] assms
    by (simp add: processWithdrawals_def mem_ops demo_block2_def)
qed

lemma demo_Transition2:
  "\<exists>h2. Transition demo_processor demo_schedule mem_branching demo_ctx2 (mem_kv id) (Some demo_block2)
     \<lparr>h_ctx = demo_after, h_parent = Some demo_after\<rparr> = (Inr [], h2)"
proof -
  let ?sp = demo_processor and ?kv = "mem_kv id" and ?b = demo_block2
  obtain header where h: "payload_header_of demo_env (bd_ExecutionPayload (blk_Body ?b)) header"
      "payload_header_encodable header" using demo_payload2 by blast
  let ?w1 = "demo_slot5\<lparr>v_latestBlockHeader := Some (NewBeaconBlockHeader 5 1 (replicate 32 104) zero32
      (replicate 32 2))\<rparr>"
  let ?w2 = "?w1\<lparr>v_latestExecutionPayloadVersion := Some Deneb, v_latestExecutionPayloadHeader := Some header\<rparr>"
  let ?w3 = "snd (processWithdrawals ?sp ?kv (blk_Body ?b) ?w2)"
  have blk: "blk_Slot ?b = 5" "blk_ProposerIndex ?b = 1" "blk_ParentBlockRoot ?b = replicate 32 104"
    "bd_Deposits (blk_Body ?b) = []" "bd_RandaoReveal (blk_Body ?b) = bd_RandaoReveal demo_body"
    by (simp_all add: demo_block2_def)
  have s1: "processBlockHeader ?sp ?kv ?b demo_slot5 = (Inr (), ?w1)"
    by (simp add: mem_processBlockHeader blk word_root_def demo_header2_root demo_validator_def)
  have s2: "processExecutionPayload ?sp demo_schedule demo_ctx2 ?kv ?b ?w1 = (Inr (), ?w2)"
    using h by (simp add: processExecutionPayload_def demo_ctx2_def bindM_reads mem_ops
        ToHeader_fresh [THEN iffD2])
  have s3: "processWithdrawals ?sp ?kv (blk_Body ?b) ?w2 = (Inr (), ?w3)"
    using demo_withdrawals2_run [of ?w2] by (simp add: prod_eq_iff)
  from processWithdrawals_frame [OF s3] have fr: "v_slot ?w3 = Some 5" "v_validators ?w3 = v_validators demo_view"
    "v_genesisValidatorsRoot ?w3 = Some zero32" "v_randaoMix ?w3 = put 0 zero32 demo_roots"
    "v_eth1DepositIndex ?w3 = Some 0" "v_eth1Data ?w3 = v_eth1Data demo_view"
    by (cases ?w3; simp add: withdrawal_frame_def)+
  obtain w4 where s4: "processRandaoReveal ?sp ?kv ?b True ?w3 = (Inr (), w4)"
    and w4: "v_eth1DepositIndex w4 = Some 0" "v_eth1Data w4 = v_eth1Data demo_view"
    using fr by (simp add: processRandaoReveal_def mem_ops SlotToEpoch_def Let_def blk
        buildRandaoMix_xor [OF reference_xor.xor_library_axioms [folded demo_processor_simps(5)]])
  have s5: "processOperations ?sp ?kv ?b w4 = (Inr (), w4)"
    using w4 by (simp add: processOperations_def processDeposits_def mem_ops Let_def blk)
  have "ProcessBlock ?sp demo_schedule demo_ctx2 ?kv ?b demo_slot5 = (Inr (), w4)"
    using s1 s2 s3 s4 s5 by (simp add: ProcessBlock_def) (simp add: demo_ctx2_def)
  then show ?thesis
    using demo_slots2 by (simp add: Transition_def on_handle_eq bindM_def blk)
qed

theorem chain_linkage_witness:
  "GetHeader demo_env demo_block = Some (demo_header\<lparr>hdr_StateRoot := replicate 32 54\<rparr>) \<and>
   htr_BeaconBlockHeader demo_env (demo_header\<lparr>hdr_StateRoot := replicate 32 54\<rparr>) =
     Inr (blk_ParentBlockRoot demo_block2)"
proof -
  obtain h2 where "Transition demo_processor demo_schedule mem_branching demo_ctx2 (mem_kv id)
      (Some demo_block2) \<lparr>h_ctx = demo_after, h_parent = Some demo_after\<rparr> = (Inr [], h2)"
    using demo_Transition2 by blast
  from chain_linkage [OF mem_store.beacon_store_axioms _ _ demo_Transition this, of 3
      "NewBeaconBlockHeader 3 0 zero32 zero32 zero32"]
  have "\<exists>hdr. GetHeader demo_env demo_block = Some hdr \<and>
      htr_BeaconBlockHeader demo_env hdr = Inr (blk_ParentBlockRoot demo_block2)"
    by (auto simp: Copy_def WithContext_def mem_branching_def demo_ctx_def zero32_def)
  then show ?thesis
    by (auto simp: GetHeader_def word_root_def demo_header_def NewBeaconBlockHeader_def)
qed

end
