(* ===== verification/Invariants.thy ===== *)
theory Invariants
  imports Chain
begin

section \<open>Invariants of the chain\<close>

text \<open>
  The invariant of the beacon state: it has been set up, its registry is dense with unique keys
  and addresses, no effective balance exceeds the maximum, the slashing total is the sum of its
  vector and the withdrawal sweep points at a validator. Genesis establishes it, every transition
  keeps it, so it holds in every reachable state.
\<close>

definition chain_inv :: "SpecData \<Rightarrow> (bytes \<Rightarrow> bytes) \<Rightarrow> kv_view \<Rightarrow> bool" where
  "chain_inv spec addr w \<longleftrightarrow> ready spec w \<and> deposits_inv spec addr w \<and>
     (case v_nextWithdrawalValidatorIndex w of None \<Rightarrow> False | Some start \<Rightarrow> start < v_validatorIndex w)"

lemma pubkeys_card: "registry_ok w \<Longrightarrow> card (pubkeys w) = unat (v_validatorIndex w)"
  using registry_length(1) [of w] distinct_card [of "map (\<lambda>e. val_Pubkey (snd e)) (v_validators w)"]
  by (simp add: registry_ok_def pubkeys_def)

subsection \<open>Preservation\<close>

lemma chain_inv_slots:
  assumes "hash_roots (sszEnv sp)" and "spec_ok (cs sp)" and inv: "chain_inv (cs sp) addr w"
    and "target div SlotsPerEpoch (cs sp) < ElectraForkEpoch (cs sp)"
    and run: "ProcessSlots sp (mem_kv addr) target w = (Inr us, w')"
  shows "chain_inv (cs sp) addr w' \<and> v_validators w' = v_validators w"
proof -
  from inv obtain s where s: "v_slot w = Some s" and rdy: "ready (cs sp) w"
    by (auto simp: chain_inv_def ready_def primed_def)
  from mem_slots_loop [OF assms(1,2) rdy s assms(4), of addr "[]"] run s
  have "ready (cs sp) w'" "same_accounts w w'" by (auto simp: ProcessSlots_def mem_ops)
  moreover from this(2) have "v_validators w' = v_validators w" "v_validatorIndex w' = v_validatorIndex w"
      "v_nextWithdrawalValidatorIndex w' = v_nextWithdrawalValidatorIndex w"
    by (cases w; cases w'; simp add: same_accounts_def)+
  ultimately show ?thesis
    using inv by (simp add: chain_inv_def deposits_inv_def ready_def addresses_ok_def effective_ok_def
        cong: option.case_cong)
qed

lemma chain_inv_header:
  "chain_inv spec addr w \<Longrightarrow> chain_inv spec addr (w\<lparr>v_latestBlockHeader := Some h\<rparr>)"
  by (simp add: chain_inv_def ready_def primed_def deposits_inv_def registry_ok_def slashings_ok_def
      total_slashing_def addresses_ok_def effective_ok_def cong: option.case_cong)

lemma chain_inv_payload:
  "chain_inv spec addr w \<Longrightarrow> payload_header_encodable h \<Longrightarrow> chain_inv spec addr
     (w\<lparr>v_latestExecutionPayloadVersion := Some Deneb, v_latestExecutionPayloadHeader := Some h\<rparr>)"
  by (simp add: chain_inv_def ready_def primed_def deposits_inv_def registry_ok_def slashings_ok_def
      total_slashing_def addresses_ok_def effective_ok_def cong: option.case_cong)

lemma chain_inv_randao:
  "chain_inv spec addr w \<Longrightarrow> length m = 32 \<Longrightarrow>
   chain_inv spec addr (w\<lparr>v_randaoMix := put i m (v_randaoMix w)\<rparr>)"
  by (simp add: chain_inv_def ready_def primed_def deposits_inv_def registry_ok_def slashings_ok_def
      total_slashing_def addresses_ok_def effective_ok_def filled_put cong: option.case_cong)

lemma chain_inv_withdrawals:
  assumes inv: "chain_inv (cs sp) addr w"
    and run: "processWithdrawals sp (mem_kv addr) body w = (Inr (), w')"
  shows "chain_inv (cs sp) addr w'"
proof -
  from inv obtain start where start: "v_nextWithdrawalValidatorIndex w = Some start"
      "start < v_validatorIndex w" and reg: "registry_ok w"
    by (auto simp: chain_inv_def deposits_inv_def split: option.splits)
  from mem_processWithdrawals [OF reg start run] obtain index ws where
    cov: "covered ws (v_balances w)"
    and w': "w' = w\<lparr>v_balances := debit ws (v_balances w),
      v_nextWithdrawalIndex := Some (index + of_nat (length ws)),
      v_nextWithdrawalValidatorIndex :=
        Some (next_sweep_start (cs sp) (v_validatorIndex w) index start (length ws))\<rparr>" by metis
  have "next_sweep_start (cs sp) (v_validatorIndex w) index start (length ws) < v_validatorIndex w"
    using start(2) by (auto simp: next_sweep_start_def word_gt_0 intro!: word_mod_less_divisor)
  moreover have "registry_ok w'"
    using reg debit_keys [OF cov] w' by (simp add: registry_ok_def)
  ultimately show ?thesis
    using inv w' by (simp add: chain_inv_def ready_def primed_def deposits_inv_def slashings_ok_def
        total_slashing_def addresses_ok_def effective_ok_def cong: option.case_cong)
qed

lemma chain_inv_deposits:
  assumes inv: "chain_inv (cs sp) addr w" and room: "length (v_validators w) + length deps \<le> 2 ^ 40"
    and run: "forM deps (processDeposit sp (mem_kv addr)) w = (Inr (), w')"
  shows "chain_inv (cs sp) addr w'"
proof -
  have reg: "registry_ok w" and dinv: "deposits_inv (cs sp) addr w"
    using inv by (auto simp: chain_inv_def deposits_inv_def)
  have "unat (v_validatorIndex w) + length deps < 2 ^ 64"
    using room registry_length(1) [OF reg] by simp
  note steps = deposits_steps [OF dinv this run]
  then have reg': "registry_ok w'" by (simp add: deposits_inv_def)
  have fin: "finite (pubkeys w)" by (simp add: pubkeys_def)
  have "card (pubkeys w') \<le> card (pubkeys w) + card (dep_Pubkey ` set deps)"
    using steps by (simp add: card_Un_le)
  also have "\<dots> \<le> card (pubkeys w) + length deps"
    using card_image_le [of "set deps" dep_Pubkey] card_length [of deps] by simp
  finally have len: "length (v_validators w') \<le> 2 ^ 40"
    using room registry_length(1) [OF reg] registry_length(1) [OF reg'] pubkeys_card [OF reg]
      pubkeys_card [OF reg'] by simp
  have "card (pubkeys w) \<le> card (pubkeys w')"
    using steps fin by (intro card_mono) auto
  then have mono: "v_validatorIndex w \<le> v_validatorIndex w'"
    using pubkeys_card [OF reg] pubkeys_card [OF reg'] by (simp add: word_le_nat_alt)
  have "v_eth1DepositIndex w' \<noteq> None"
    using steps inv by (auto simp: chain_inv_def ready_def primed_def)
  moreover obtain a b d e where
    "w' = w\<lparr>v_eth1DepositIndex := a, v_validatorIndex := b, v_validators := d, v_balances := e\<rparr>"
    using deposits_frame [OF run] by (metis deposit_frame_def)
  ultimately show ?thesis
    using inv steps len mono
    by (auto simp: chain_inv_def ready_def primed_def deposits_inv_def slashings_ok_def
        total_slashing_def split: option.splits)
qed

lemma chain_inv_block:
  assumes inv: "chain_inv (cs sp) addr w"
    and room: "length (v_validators w) + length (bd_Deposits (blk_Body blk)) \<le> 2 ^ 40"
    and run: "ProcessBlock sp sch ctx (mem_kv addr) blk w = (Inr (), w')"
  shows "chain_inv (cs sp) addr w'"
proof -
  from run obtain w1 w2 w3 w4 where
    steps: "processBlockHeader sp (mem_kv addr) blk w = (Inr (), w1)"
      "processExecutionPayload sp sch ctx (mem_kv addr) blk w1 = (Inr (), w2)"
      "processWithdrawals sp (mem_kv addr) (blk_Body blk) w2 = (Inr (), w3)"
      "processRandaoReveal sp (mem_kv addr) blk (SkipValidateRandao ctx) w3 = (Inr (), w4)"
      "forM (bd_Deposits (blk_Body blk)) (processDeposit sp (mem_kv addr)) w4 = (Inr (), w')"
    by (rule mem_ProcessBlock)
  have w1: "chain_inv (cs sp) addr w1" "v_validators w1 = v_validators w"
    using steps(1) chain_inv_header [OF inv] by (auto simp: mem_processBlockHeader)
  have w2: "chain_inv (cs sp) addr w2" "v_validators w2 = v_validators w1"
    using steps(2) by (auto elim!: mem_processExecutionPayload intro: chain_inv_payload [OF w1(1)])
  have w3: "chain_inv (cs sp) addr w3" by (rule chain_inv_withdrawals [OF w2(1) steps(3)])
  have "v_validators w3 = v_validators w2"
    using processWithdrawals_frame [OF steps(3)] by (cases w2; cases w3) (simp add: withdrawal_frame_def)
  then have "chain_inv (cs sp) addr w4" "v_validators w4 = v_validators w"
    using steps(4) w1(2) w2(2) by (auto elim!: mem_processRandaoReveal intro: chain_inv_randao [OF w3])
  with chain_inv_deposits [OF _ _ steps(5)] room show ?thesis by simp
qed

subsection \<open>Genesis\<close>

text \<open>The loops of the genesis function that fill a history.\<close>

lemma fill_randao:
  "forM is (\<lambda>i. UpdateRandaoMixAtIndex (mem_kv addr) i x) w =
     (Inr (), w\<lparr>v_randaoMix := fold (\<lambda>i. put i x) is (v_randaoMix w)\<rparr>)"
  by (induction "is" arbitrary: w) (simp_all add: mem_ops)

lemma fill_roots:
  "forM is (\<lambda>i. bindM (UpdateBlockRootAtIndex (mem_kv addr) i x) (\<lambda>_. UpdateStateRootAtIndex (mem_kv addr) i x)) w =
     (Inr (), w\<lparr>v_blockRoots := fold (\<lambda>i. put i x) is (v_blockRoots w),
                v_stateRoots := fold (\<lambda>i. put i x) is (v_stateRoots w)\<rparr>)"
  by (induction "is" arbitrary: w) (simp_all add: mem_ops bindM_def)

lemma map_of_fold_put:
  "map_of (fold (\<lambda>i. put i x) is m) k = (if k \<in> set is then Some x else map_of m k)"
  by (induction "is" arbitrary: m) auto

lemma filled_fold: "32 \<le> length x \<Longrightarrow> n \<le> l \<Longrightarrow> filled n (fold (\<lambda>i. put i x) (range_u64 l) m)"
  by (auto simp: filled_def list_all_iff map_of_fold_put set_range_u64)

definition genesis_view :: "bytes \<Rightarrow> u64 \<Rightarrow> b32 \<Rightarrow> b32 \<Rightarrow> kv_view" where
  "genesis_view genesisVersion n blockHash bodyRoot = empty_view\<lparr>
     v_slot := Some 0, v_fork := Some (NewFork genesisVersion genesisVersion GenesisEpoch),
     v_eth1DepositIndex := Some 0, v_eth1Data := Some (NewEth1Data zero32 0 blockHash),
     v_latestBlockHeader := Some (NewBeaconBlockHeader 0 0 zero32 zero32 bodyRoot),
     v_randaoMix := fold (\<lambda>i. put i blockHash) (range_u64 n) [],
     v_genesisValidatorsRoot := Some zero32\<rparr>"

lemma mem_Initialize:
  assumes "InitializePreminedBeaconStateFromEth1 sp mem_branching (mem_kv addr) deposits header version h =
      (Inr us, h')" and "h_ctx h = empty_view"
  obtains bodyRoot w validatorsRoot where
    "forM deposits (processDeposit sp (mem_kv addr))
       (genesis_view version (EpochsPerHistoricalVector (cs sp)) (ph_BlockHash header) bodyRoot) = (Inr (), w)"
    and "MerkleizeListComposite (merkle (sszEnv sp)) (htr_Validator (sszEnv sp)) (map snd (v_validators w))
       (of_nat (length (v_validators w))) = Inr validatorsRoot"
    and "payload_header_encodable header"
    and "h_ctx h' = w\<lparr>v_genesisValidatorsRoot := Some validatorsRoot,
      v_latestExecutionPayloadVersion := Some Deneb, v_latestExecutionPayloadHeader := Some header,
      v_blockRoots := fold (\<lambda>i. put i zero32) (range_u64 (HistoricalRootsLimit (cs sp))) (v_blockRoots w),
      v_stateRoots := fold (\<lambda>i. put i zero32) (range_u64 (HistoricalRootsLimit (cs sp))) (v_stateRoots w),
      v_nextWithdrawalIndex := Some 0, v_nextWithdrawalValidatorIndex := Some 0, v_totalSlashing := Some 0\<rparr>"
    and "processSyncCommitteeUpdates (mem_kv addr) (h_ctx h') = (Inr us, h_ctx h')"
  using assms
  by (clarsimp simp: InitializePreminedBeaconStateFromEth1_def Let_def bindM_success on_handle_success
      mem_ops fill_randao fill_roots split: if_splits)
    (clarsimp simp: processSyncCommitteeUpdates_def bindM_success mem_ops genesis_view_def empty_view_def)

lemma validators_root_length:
  assumes "few_goroutines E" and "\<forall>bz. length (Sum256 E bz) = 32" and "length xs < 2 ^ 63"
    and "MerkleizeListComposite E htr xs (of_nat (length xs)) = Inr r"
  shows "length r = 32"
proof -
  from assms(4) obtain hs where "mapE htr xs = Inr hs"
    by (auto simp: MerkleizeListComposite_def bindE_Inr)
  from layer_hasher.MerkleizeListComposite_spec [OF few_goroutines.is_layer_hasher [OF assms(1)] this assms(3)]
  show ?thesis using assms(2-4) by (auto simp: unat_of_nat)
qed

text \<open>What genesis needs: limits that agree, a non-empty list of deposits and a 32-byte hash.\<close>

definition genesis_ok :: "StateProcessor \<Rightarrow> Deposit list \<Rightarrow> ExecutionPayloadHeaderDeneb \<Rightarrow> bool" where
  "genesis_ok sp deposits header \<longleftrightarrow> spec_ok (cs sp) \<and>
     SlotsPerHistoricalRoot (cs sp) \<le> HistoricalRootsLimit (cs sp) \<and>
     deposits \<noteq> [] \<and> length deposits \<le> 2 ^ 40 \<and> length (ph_BlockHash header) = 32"

lemma genesis_view_inv:
  "deposits_inv spec addr (genesis_view version n blockHash bodyRoot)"
  "slashings_ok (genesis_view version n blockHash bodyRoot)"
  "v_validatorIndex (genesis_view version n blockHash bodyRoot) = 0"
  "pubkeys (genesis_view version n blockHash bodyRoot) = {}"
  by (simp_all add: genesis_view_def empty_view_def deposits_inv_def registry_ok_def addresses_ok_def
      effective_ok_def slashings_ok_def ordered_def total_slashing_def pubkeys_def range_u64_def)

lemma chain_inv_genesis:
  assumes "few_goroutines (merkle (sszEnv sp))" and "\<forall>bz. length (Sum256 (merkle (sszEnv sp)) bz) = 32"
    and ok: "genesis_ok sp deposits header"
    and run: "InitializePreminedBeaconStateFromEth1 sp mem_branching (mem_kv addr) deposits header version h =
      (Inr us, h')" and empty: "h_ctx h = empty_view"
  shows "chain_inv (cs sp) addr (h_ctx h') \<and> pubkeys (h_ctx h') = dep_Pubkey ` set deposits \<and>
    us = committee (v_validators (h_ctx h'))"
proof -
  from run empty obtain bodyRoot w validatorsRoot where
    deps: "forM deposits (processDeposit sp (mem_kv addr))
       (genesis_view version (EpochsPerHistoricalVector (cs sp)) (ph_BlockHash header) bodyRoot) = (Inr (), w)"
    and root: "MerkleizeListComposite (merkle (sszEnv sp)) (htr_Validator (sszEnv sp)) (map snd (v_validators w))
       (of_nat (length (v_validators w))) = Inr validatorsRoot"
    and enc: "payload_header_encodable header"
    and fin: "h_ctx h' = w\<lparr>v_genesisValidatorsRoot := Some validatorsRoot,
      v_latestExecutionPayloadVersion := Some Deneb, v_latestExecutionPayloadHeader := Some header,
      v_blockRoots := fold (\<lambda>i. put i zero32) (range_u64 (HistoricalRootsLimit (cs sp))) (v_blockRoots w),
      v_stateRoots := fold (\<lambda>i. put i zero32) (range_u64 (HistoricalRootsLimit (cs sp))) (v_stateRoots w),
      v_nextWithdrawalIndex := Some 0, v_nextWithdrawalValidatorIndex := Some 0, v_totalSlashing := Some 0\<rparr>"
    and upd: "processSyncCommitteeUpdates (mem_kv addr) (h_ctx h') = (Inr us, h_ctx h')"
    by (rule mem_Initialize)
  let ?g = "genesis_view version (EpochsPerHistoricalVector (cs sp)) (ph_BlockHash header) bodyRoot"
  have steps: "deposits_inv (cs sp) addr w" "pubkeys w = dep_Pubkey ` set deposits" "v_eth1DepositIndex w \<noteq> None"
    using deposits_steps [OF genesis_view_inv(1) _ deps] ok
    by (auto simp: genesis_view_inv(3,4) genesis_ok_def) (simp add: genesis_view_def)
  then have reg: "registry_ok w" by (simp add: deposits_inv_def)
  have card: "unat (v_validatorIndex w) = card (dep_Pubkey ` set deposits)"
    using pubkeys_card [OF reg] steps(2) by simp
  also have "\<dots> \<le> length deposits"
    using card_image_le [of "set deposits" dep_Pubkey] card_length [of deposits] by simp
  finally have len: "length (v_validators w) \<le> 2 ^ 40"
    using ok registry_length(1) [OF reg] by (simp add: genesis_ok_def)
  have pos: "0 < v_validatorIndex w"
    using card ok by (simp add: word_less_nat_alt card_gt_0_iff genesis_ok_def)
  have vroot: "length validatorsRoot = 32"
    by (rule validators_root_length [OF assms(1,2), of "map snd (v_validators w)"]) (use root len in simp_all)
  obtain a b d e where
    w: "w = ?g\<lparr>v_eth1DepositIndex := a, v_validatorIndex := b, v_validators := d, v_balances := e\<rparr>"
    using deposits_frame [OF deps] by (metis deposit_frame_def)
  have "registry_ok (h_ctx h')" using reg fin by (simp add: registry_ok_def)
  moreover have "primed (cs sp) (h_ctx h')"
    using ok len enc vroot steps(3) unfolding fin
    by (auto simp: primed_def filled_fold genesis_ok_def w genesis_view_def empty_view_def)
  moreover have "slashings_ok (h_ctx h')"
    by (simp add: slashings_ok_def ordered_def total_slashing_def fin w genesis_view_def empty_view_def)
  moreover have "us = committee (v_validators (h_ctx h'))"
    using upd mem_processSyncCommitteeUpdates [OF calculation(1), of addr] by simp
  ultimately show ?thesis
    using steps pos fin
    by (auto simp: chain_inv_def ready_def deposits_inv_def addresses_ok_def effective_ok_def pubkeys_def)
qed

subsection \<open>Reachable states\<close>

text \<open>
  The handles a node works with: genesis on an empty context, branches, and accepted blocks before
  the next fork and within the registry limit.
\<close>

inductive reachable :: "StateProcessor \<Rightarrow> 'c KVStore \<Rightarrow> 'c Branching \<Rightarrow> ('c \<Rightarrow> kv_view) \<Rightarrow> 'c Handle \<Rightarrow> bool"
  for sp :: StateProcessor and kv :: "'c KVStore" and B :: "'c Branching" and view :: "'c \<Rightarrow> kv_view" where
  genesis: "view (h_ctx h) = empty_view \<Longrightarrow> genesis_ok sp deposits header \<Longrightarrow>
    InitializePreminedBeaconStateFromEth1 sp B kv deposits header version h = (Inr us, h') \<Longrightarrow>
    reachable sp kv B view h'"
| branch: "reachable sp kv B view h \<Longrightarrow> reachable sp kv B view (Copy B h)"
| block: "reachable sp kv B view h \<Longrightarrow>
    blk_Slot blk div SlotsPerEpoch (cs sp) < ElectraForkEpoch (cs sp) \<Longrightarrow>
    length (v_validators (view (h_ctx h))) + length (bd_Deposits (blk_Body blk)) \<le> 2 ^ 40 \<Longrightarrow>
    Transition sp sch B ctx kv (Some blk) h = (Inr us, h') \<Longrightarrow> reachable sp kv B view h'"

inductive_cases reachableE: "reachable sp kv B view h"

lemma chain_inv_Transition:
  assumes "hash_roots (sszEnv sp)" and "spec_ok (cs sp)" and inv: "chain_inv (cs sp) addr (h_ctx h)"
    and fork: "blk_Slot blk div SlotsPerEpoch (cs sp) < ElectraForkEpoch (cs sp)"
    and room: "length (v_validators (h_ctx h)) + length (bd_Deposits (blk_Body blk)) \<le> 2 ^ 40"
    and run: "Transition sp sch mem_branching ctx (mem_kv addr) (Some blk) h = (Inr us, h')"
  shows "chain_inv (cs sp) addr (h_ctx h')"
proof -
  from run obtain w1 where "ProcessSlots sp (mem_kv addr) (blk_Slot blk) (h_ctx h) = (Inr us, w1)"
      and blk: "ProcessBlock sp sch ctx (mem_kv addr) blk w1 = (Inr (), h_ctx h')"
    by (auto elim: mem_Transition)
  from chain_inv_slots [OF assms(1,2) inv fork this(1)]
  show ?thesis using chain_inv_block [OF _ _ blk] room by simp
qed

subsection \<open>Properties\<close>

text \<open>
  C10. Genesis establishes the invariant: on an empty context, with consistent limits and at least
  one deposit, \<open>InitializePreminedBeaconStateFromEth1\<close> leaves, when it succeeds, a state that is
  set up, whose registry holds exactly the keys of the deposits, and returns the registry by
  effective balance.
\<close>

theorem genesis_establishes:
  assumes "beacon_store kv view addr B" and "few_goroutines (merkle (sszEnv sp))"
    and "\<forall>bz. length (Sum256 (merkle (sszEnv sp)) bz) = 32" and "genesis_ok sp deposits header"
    and "view (h_ctx h) = empty_view"
    and "InitializePreminedBeaconStateFromEth1 sp B kv deposits header version h = (Inr us, h')"
  shows "chain_inv (cs sp) addr (view (h_ctx h')) \<and> pubkeys (view (h_ctx h')) = dep_Pubkey ` set deposits \<and>
    us = committee (v_validators (view (h_ctx h')))"
  using chain_inv_genesis [OF assms(2-4) simulates_success
      [OF beacon_store.Initialize_sim [OF assms(1)] assms(6)]] assms(5)
  by (simp add: handle_view_def)

text \<open>The concrete genesis: one deposit, signed for the genesis fork.\<close>

definition demo_deposit :: Deposit where
  "demo_deposit = NewDeposit (replicate 48 9) [] 5000000001
     (replicate 32 1 @ replicate 48 9 @ replicate 16 0) 0"

lemma demo_genesis_ok: "genesis_ok demo_processor [demo_deposit] demo_payload_header"
  using demo_spec_ok by (simp add: genesis_ok_def demo_payload_header_def)

lemma demo_genesis_deposit:
  "\<exists>w. processDeposit demo_processor (mem_kv id) demo_deposit
     (genesis_view [4, 0, 0, 0] 8 (replicate 32 9) (replicate 32 2)) = (Inr (), w)"
  by (simp add: processDeposit_def applyDeposit_def createValidator_def addValidatorToRegistry_def
      mem_ops mem_IncreaseBalance by_pubkey_def conflicts_def NewDeposit_def SlotToEpoch_def
      Deposit_VerifySignature_def VerifyCreateValidator_def ComputeDomain_def ComputeSigningRoot_def
      word_root_def demo_signer_def NewValidatorFromDeposit_def bindM_def demo_deposit_def
      genesis_view_def empty_view_def)

lemma demo_genesis:
  "\<exists>us h'. InitializePreminedBeaconStateFromEth1 demo_processor mem_branching (mem_kv id) [demo_deposit]
     demo_payload_header [4, 0, 0, 0] \<lparr>h_ctx = empty_view, h_parent = None\<rparr> = (Inr us, h')"
proof -
  obtain w where w: "processDeposit demo_processor (mem_kv id) demo_deposit
      (genesis_view [4, 0, 0, 0] 8 (replicate 32 9) (replicate 32 2)) = (Inr (), w)"
    using demo_genesis_deposit by blast
  have "deposits_inv BaseSpec id w \<and> unat (v_validatorIndex w) \<le> 1"
    using deposit_step [OF _ _ w] by (simp add: genesis_view_inv)
  then have reg: "registry_ok w" and len: "length (v_validators w) \<le> 1"
    using registry_length(1) by (auto simp: deposits_inv_def)
  have root: "MerkleizeListComposite (reference_env (\<lambda>_. zero32) 15) (htr_Validator demo_env)
      (map snd (v_validators w)) (of_nat (length (v_validators w))) = Inr zero32"
    using reference_few.MerkleizeListComposite_spec [where sha = "\<lambda>_. zero32", OF mapE_Inr_map
        [of "map snd (v_validators w)" "htr_Validator demo_env" "\<lambda>v. replicate 32 (ucast (val_EffectiveBalance v))"]]
      len by (simp add: word_root_def unat_of_nat)
  let ?fin = "w\<lparr>v_genesisValidatorsRoot := Some zero32,
      v_latestExecutionPayloadVersion := Some Deneb, v_latestExecutionPayloadHeader := Some demo_payload_header,
      v_blockRoots := fold (\<lambda>i. put i zero32) (range_u64 8) (v_blockRoots w),
      v_stateRoots := fold (\<lambda>i. put i zero32) (range_u64 8) (v_stateRoots w),
      v_nextWithdrawalIndex := Some 0, v_nextWithdrawalValidatorIndex := Some 0, v_totalSlashing := Some 0\<rparr>"
  have "registry_ok ?fin" using reg by (simp add: registry_ok_def)
  note fin = mem_processSyncCommitteeUpdates [OF this, of id]
  have enc: "payload_header_encodable demo_payload_header" "ph_BlockHash demo_payload_header = replicate 32 9"
    by (simp_all add: payload_header_encodable_def demo_payload_header_def)
  have empty: "\<exists>b. BeaconBlockBody_Empty (ToUint32 [4, 0, 0, 0]) = Inr b"
    by (simp add: BeaconBlockBody_Empty_def ToUint32_def Deneb_def)
  then have body: "bindE (BeaconBlockBody_Empty (ToUint32 [4, 0, 0, 0])) (htr_BeaconBlockBody demo_env) =
      Inr (replicate 32 2)"
    by (auto simp: word_root_def)
  show ?thesis
    unfolding InitializePreminedBeaconStateFromEth1_def on_handle_def [abs_def] Let_def
    using w fin enc
    by (simp add: mem_ops fill_randao fill_roots body root genesis_view_def empty_view_def)
qed

theorem genesis_establishes_witness:
  "\<exists>us h'. InitializePreminedBeaconStateFromEth1 demo_processor mem_branching (mem_kv id) [demo_deposit]
     demo_payload_header [4, 0, 0, 0] \<lparr>h_ctx = empty_view, h_parent = None\<rparr> = (Inr us, h') \<and>
     chain_inv BaseSpec id (h_ctx h') \<and> pubkeys (h_ctx h') = {replicate 48 9}"
proof -
  from demo_genesis obtain us h' where run: "InitializePreminedBeaconStateFromEth1 demo_processor mem_branching
      (mem_kv id) [demo_deposit] demo_payload_header [4, 0, 0, 0] \<lparr>h_ctx = empty_view, h_parent = None\<rparr> =
      (Inr us, h')" by blast
  from genesis_establishes [OF mem_store.beacon_store_axioms _ _ demo_genesis_ok _ run] run show ?thesis
    by (auto simp: reference_few.few_goroutines_axioms demo_deposit_def NewDeposit_def)
qed

text \<open>
  C1. The invariant holds in every reachable state, for every lawful store: genesis, any number
  of branches and any sequence of accepted blocks.
\<close>

theorem reachable_invariant:
  assumes "beacon_store kv view addr B" and "few_goroutines (merkle (sszEnv sp))"
    and "\<forall>bz. length (Sum256 (merkle (sszEnv sp)) bz) = 32" and "hash_roots (sszEnv sp)"
    and "reachable sp kv B view h"
  shows "chain_inv (cs sp) addr (view (h_ctx h)) \<and> spec_ok (cs sp)"
  using assms(5)
proof (induction rule: reachable.induct)
  case (genesis h deposits header version us h')
  then show ?case
    using chain_inv_genesis [OF assms(2,3) genesis(2) simulates_success
        [OF beacon_store.Initialize_sim [OF assms(1)] genesis(3)]]
    by (simp add: handle_view_def genesis_ok_def)
next
  case (branch h)
  have "branching B view" using assms(1) by (simp add: beacon_store_def)
  with branch show ?case by (simp add: Copy_def WithContext_def branching.branch_view)
next
  case (block h blk sch ctx us h')
  then show ?case
    using chain_inv_Transition [OF assms(4) _ _ block(2) _ simulates_success
        [OF beacon_store.Transition_sim [OF assms(1)] block(4)]]
    by (simp add: handle_view_def)
qed

theorem reachable_invariant_witness:
  "\<exists>h. reachable demo_processor (mem_kv id) mem_branching (\<lambda>w. w) h \<and> chain_inv BaseSpec id (h_ctx h)"
proof -
  from demo_genesis obtain us h' where run: "InitializePreminedBeaconStateFromEth1 demo_processor mem_branching
      (mem_kv id) [demo_deposit] demo_payload_header [4, 0, 0, 0] \<lparr>h_ctx = empty_view, h_parent = None\<rparr> =
      (Inr us, h')" by blast
  have "reachable demo_processor (mem_kv id) mem_branching (\<lambda>w. w) h'"
    by (rule reachable.genesis [OF _ demo_genesis_ok run]) simp
  with reachable_invariant [OF mem_store.beacon_store_axioms _ _ _ this] show ?thesis
    using demo_hashes.hash_roots_axioms by (auto simp: reference_few.few_goroutines_axioms)
qed

end
