(* ===== verification/Hex.thy ===== *)
theory Hex
  imports U64
begin

section \<open>Hexadecimal texts\<close>

text \<open>
  The package \<open>primitives/pkg/hex\<close>: the hexadecimal text forms of byte strings, 64-bit and 256-bit
  numbers, and the parts of Go's \<open>encoding/hex\<close>, \<open>strconv\<close> and \<open>math/big\<close> that it uses. A Go string
  and a byte slice are both lists of bytes. A decoder that writes into a buffer of its caller returns
  the buffer beside its result, so that what a failed call leaves there is visible.

  Shown: decoding inverts encoding, and whatever is decoded is the encoding of the result up to the
  case of its letters, for byte strings and for numbers; the hand-written 64-bit decoder agrees with
  \<open>strconv.ParseUint\<close>; the word-wise 256-bit decoder reads the number; a failed fixed-size decoder
  leaves its buffer alone.
\<close>

subsection \<open>The standard library\<close>

definition hex_digit :: "u8 \<Rightarrow> u8" where
  "hex_digit d = (if d < 10 then d + 48 else d + 87)"

definition hex_Encode :: "bytes \<Rightarrow> bytes" where
  "hex_Encode b = concat (map (\<lambda>v. [hex_digit (v div 16), hex_digit (v mod 16)]) b)"

text \<open>The inverse table of \<open>encoding/hex\<close>: the value of a digit, or 255.\<close>

definition reverseHexTable :: "u8 \<Rightarrow> u8" where
  "reverseHexTable c =
     (if 48 \<le> c \<and> c \<le> 57 then c - 48
      else if 97 \<le> c \<and> c \<le> 102 then c - 87
      else if 65 \<le> c \<and> c \<le> 70 then c - 55
      else 255)"

fun hex_Decode :: "bytes \<Rightarrow> bytes \<Rightarrow> (err + unit) \<times> bytes" where
  "hex_Decode dst [] = (Inr (), dst)"
| "hex_Decode dst [p] =
     (Inl (Ext (if reverseHexTable p > 15 then ''InvalidByteError'' else ''ErrLength'')), dst)"
| "hex_Decode dst (p # q # src) =
     (if reverseHexTable p > 15 \<or> reverseHexTable q > 15 then (Inl (Ext ''InvalidByteError''), dst)
      else case dst of
             [] \<Rightarrow> (Inl (Panic ''index out of range''), dst)
           | _ # dst' \<Rightarrow>
               (let (r, out) = hex_Decode dst' src
                in (r, (reverseHexTable p * 16 + reverseHexTable q) # out)))"

definition DecodeString :: "bytes \<Rightarrow> err + bytes" where
  "DecodeString s =
     (let (r, dst) = hex_Decode (replicate (length s div 2) 0) s in bindE r (\<lambda>_. Inr dst))"

text \<open>The digits of a number, most significant first, and the number of a list of digits.\<close>

fun base_digits :: "nat \<Rightarrow> nat \<Rightarrow> nat list" where
  "base_digits b n = (if b < 2 \<or> n < b then [n] else base_digits b (n div b) @ [n mod b])"

declare base_digits.simps [simp del]

definition digits_value :: "nat \<Rightarrow> nat list \<Rightarrow> nat" where
  "digits_value b ds = foldl (\<lambda>n d. n * b + d) 0 ds"

definition AppendUint :: "bytes \<Rightarrow> u64 \<Rightarrow> nat \<Rightarrow> bytes" where
  "AppendUint dst i base = dst @ map (\<lambda>d. hex_digit (of_nat d)) (base_digits base (unat i))"

definition FormatUint :: "u64 \<Rightarrow> nat \<Rightarrow> bytes" where
  "FormatUint i base = AppendUint [] i base"

text \<open>\<open>strconv.ParseUint\<close> for an explicit base of at most 16, where no underscores are allowed.\<close>

fun parse_digits :: "nat \<Rightarrow> nat \<Rightarrow> bytes \<Rightarrow> err + u64" where
  "parse_digits base n [] = Inr (of_nat n)"
| "parse_digits base n (c # s) =
     (if reverseHexTable c > 15 \<or> base \<le> unat (reverseHexTable c) then Inl (Ext ''ErrSyntax'')
      else if 2 ^ 64 \<le> n * base + unat (reverseHexTable c) then Inl (Ext ''ErrRange'')
      else parse_digits base (n * base + unat (reverseHexTable c)) s)"

definition ParseUint :: "bytes \<Rightarrow> nat \<Rightarrow> err + u64" where
  "ParseUint s base = (if s = [] then Inl (Ext ''ErrSyntax'') else parse_digits base 0 s)"

text \<open>
  \<open>big.Int\<close> is \<open>int\<close>. \<open>Bytes\<close> gives the big-endian bytes of the absolute value without leading
  zeros, \<open>Bits\<close> its 64-bit words, least significant first, without leading zeros.
\<close>

fun be_bytes :: "nat \<Rightarrow> bytes" where
  "be_bytes n = (if n = 0 then [] else be_bytes (n div 256) @ [of_nat (n mod 256)])"

declare be_bytes.simps [simp del]

definition big_Bytes :: "int \<Rightarrow> bytes" where
  "big_Bytes x = be_bytes (nat \<bar>x\<bar>)"

definition big_SetBytes :: "bytes \<Rightarrow> int" where
  "big_SetBytes b = int (digits_value 256 (map unat b))"

fun word_digits :: "nat \<Rightarrow> u64 list" where
  "word_digits n = (if n = 0 then [] else of_nat (n mod 2 ^ 64) # word_digits (n div 2 ^ 64))"

declare word_digits.simps [simp del]

definition big_Bits :: "int \<Rightarrow> u64 list" where
  "big_Bits x = word_digits (nat \<bar>x\<bar>)"

definition big_SetBits :: "u64 list \<Rightarrow> int" where
  "big_SetBits ws = int (digits_value (2 ^ 64) (map unat (rev ws)))"

definition big_Text :: "int \<Rightarrow> nat \<Rightarrow> bytes" where
  "big_Text x base =
     (if x < 0 then [45] else []) @ map (\<lambda>d. hex_digit (of_nat d)) (base_digits base (nat \<bar>x\<bar>))"

subsection \<open>Constants and format checks\<close>

definition prefix0x :: bytes where
  "prefix0x = [48, 120]"

definition badNibble :: u64 where
  "badNibble = -1"

definition has0xPrefix :: "bytes \<Rightarrow> bool" where
  "has0xPrefix s \<longleftrightarrow> length s \<ge> 2 \<and> s ! 0 = 48 \<and> (s ! 1 = 120 \<or> s ! 1 = 88)"

definition ensure0xPrefix :: "bytes \<Rightarrow> bytes" where
  "ensure0xPrefix s = (if has0xPrefix s then s else prefix0x @ s)"

definition ensureStringInvariants :: "bytes \<Rightarrow> bytes" where
  "ensureStringInvariants s = (let s = (if length s = 0 then [48] else s) in ensure0xPrefix s)"

definition isQuotedString :: "bytes \<Rightarrow> bool" where
  "isQuotedString input \<longleftrightarrow>
     length input \<ge> 2 \<and> input ! 0 = 34 \<and> input ! (length input - 1) = 34"

definition formatAndValidateText :: "bytes \<Rightarrow> err + bytes" where
  "formatAndValidateText input =
     (if length input = 0 then Inr []
      else if \<not> has0xPrefix input then Inl ErrMissingPrefix
      else let input = drop 2 input in
           if length input mod 2 \<noteq> 0 then Inl ErrOddLength else Inr input)"

definition formatAndValidateNumber :: "bytes \<Rightarrow> err + bytes" where
  "formatAndValidateNumber input =
     (if length input = 0 then Inl ErrEmptyString
      else if \<not> has0xPrefix input then Inl ErrMissingPrefix
      else let input = drop 2 input in
           if length input = 0 then Inl ErrEmptyNumber
           else if length input > 1 \<and> input ! 0 = 48 then Inl ErrLeadingZero
           else Inr input)"

definition decodeNibble :: "u8 \<Rightarrow> u64" where
  "decodeNibble c =
     (if c \<ge> 48 \<and> c \<le> 57 \<and> c \<ge> 48 then ucast (c - 48)
      else if c \<ge> 65 \<and> c \<le> 70 \<and> c \<ge> 55 then ucast (c - 55)
      else if c \<ge> 97 \<and> c \<le> 102 \<and> c \<ge> 87 then ucast (c - 87)
      else badNibble)"

definition getBigWordNibbles :: "err + nat" where
  "getBigWordNibbles =
     (case length (big_Bits 0xFFFFFFFFFF) of
        Suc 0 \<Rightarrow> Inr 16
      | Suc (Suc 0) \<Rightarrow> Inr 8
      | _ \<Rightarrow> Inl ErrInvalidBigWordSize)"

subsection \<open>The type String\<close>

definition NewString :: "bytes \<Rightarrow> bytes" where
  "NewString s = ensureStringInvariants s"

definition NewStringStrict :: "bytes \<Rightarrow> err + bytes" where
  "NewStringStrict str =
     (if length str = 0 then Inl ErrEmptyString
      else if \<not> has0xPrefix str then Inl ErrMissingPrefix
      else Inr str)"

definition FromBytes :: "bytes \<Rightarrow> bytes" where
  "FromBytes b = NewString (prefix0x @ hex_Encode b)"

definition FromUint64 :: "u64 \<Rightarrow> bytes" where
  "FromUint64 i = AppendUint prefix0x i 16"

definition FromBigInt :: "int \<Rightarrow> bytes" where
  "FromBigInt bigint =
     (if bigint = 0 then NewString (prefix0x @ [48])
      else if bigint > 0 then NewString (prefix0x @ big_Text bigint 16)
      else NewString (prefix0x @ drop 1 (big_Text bigint 16)))"

text \<open>\<open>bytes.Trim\<close> with the cutset of one double quote.\<close>

definition trim_quotes :: "bytes \<Rightarrow> bytes" where
  "trim_quotes b = rev (dropWhile (\<lambda>c. c = 34) (rev (dropWhile (\<lambda>c. c = 34) b)))"

definition FromJSONString :: "bytes \<Rightarrow> bytes" where
  "FromJSONString b = NewString (trim_quotes b)"

definition String_ToBytes :: "bytes \<Rightarrow> err + bytes" where
  "String_ToBytes s =
     (if length s < 2 then Inl (Panic ''slice bounds out of range'') else DecodeString (drop 2 s))"

definition MustToBytes :: "bytes \<Rightarrow> err + bytes" where
  "MustToBytes s = (case String_ToBytes s of Inl _ \<Rightarrow> Inl (Panic ''MustToBytes'') | Inr b \<Rightarrow> Inr b)"

definition ToUint64 :: "bytes \<Rightarrow> err + u64" where
  "ToUint64 s = bindE (formatAndValidateNumber s) (\<lambda>raw. ParseUint raw 16)"

definition MustToUInt64 :: "bytes \<Rightarrow> err + u64" where
  "MustToUInt64 s = (case ToUint64 s of Inl _ \<Rightarrow> Inl (Panic ''MustToUInt64'') | Inr i \<Rightarrow> Inr i)"

text \<open>One word of \<open>ToBigInt\<close>, from the digits between \<open>start\<close> and \<open>end\<close>, and the loop over the words.\<close>

fun nibble_word :: "u64 \<Rightarrow> bytes \<Rightarrow> err + u64" where
  "nibble_word w [] = Inr w"
| "nibble_word w (c # s) =
     (let nib = decodeNibble c in
      if nib = badNibble then Inl ErrInvalidString else nibble_word (w * 16 + nib) s)"

fun nibble_words :: "bytes \<Rightarrow> nat \<Rightarrow> nat \<Rightarrow> nat \<Rightarrow> err + u64 list" where
  "nibble_words raw bigWordNibbles 0 end' = Inr []"
| "nibble_words raw bigWordNibbles (Suc k) end' =
     (let start = end' - bigWordNibbles in
      bindE (nibble_word 0 (drop start (take end' raw))) (\<lambda>w.
      bindE (nibble_words raw bigWordNibbles k start) (\<lambda>ws. Inr (w # ws))))"

definition ToBigInt :: "bytes \<Rightarrow> err + int" where
  "ToBigInt s =
     bindE (formatAndValidateNumber s) (\<lambda>raw.
     if length raw > 64 then Inl ErrBig256Range
     else bindE getBigWordNibbles (\<lambda>bigWordNibbles.
          bindE (nibble_words raw bigWordNibbles (length raw div bigWordNibbles + 1) (length raw)) (\<lambda>words.
          Inr (big_SetBits words))))"

definition MustToBigInt :: "bytes \<Rightarrow> err + int" where
  "MustToBigInt s = (case ToBigInt s of Inl _ \<Rightarrow> Inl (Panic ''MustToBigInt'') | Inr i \<Rightarrow> Inr i)"

definition AddQuotes :: "bytes \<Rightarrow> bytes" where
  "AddQuotes s = [34] @ s @ [34]"

subsection \<open>Byte strings and 64-bit numbers\<close>

definition EncodeBytes :: "bytes \<Rightarrow> bytes" where
  "EncodeBytes b = prefix0x @ hex_Encode b"

definition UnmarshalByteText :: "bytes \<Rightarrow> err + bytes" where
  "UnmarshalByteText input =
     bindE (formatAndValidateText input) (\<lambda>raw.
     (let (r, dec) = hex_Decode (replicate (length raw div 2) 0) raw in bindE r (\<lambda>_. Inr dec)))"

definition DecodeFixedText :: "bytes \<Rightarrow> bytes \<Rightarrow> (err + unit) \<times> bytes" where
  "DecodeFixedText input out =
     (case formatAndValidateText input of
        Inl e \<Rightarrow> (Inl e, out)
      | Inr raw \<Rightarrow>
          if length raw div 2 \<noteq> length out then (Inl (Newf ''hex string has wrong length''), out)
          else if \<exists>b \<in> set raw. decodeNibble b = badNibble then (Inl ErrInvalidString, out)
          else hex_Decode out raw)"

definition WrapUnmarshalError :: "err + 'a \<Rightarrow> err + 'a" where
  "WrapUnmarshalError r = (case r of Inl e \<Rightarrow> Inl (UnmarshalTypeError e) | Inr a \<Rightarrow> Inr a)"

definition unquote :: "bytes \<Rightarrow> bytes" where
  "unquote input = drop 1 (take (length input - 1) input)"

definition DecodeFixedJSON :: "bytes \<Rightarrow> bytes \<Rightarrow> (err + unit) \<times> bytes" where
  "DecodeFixedJSON input out =
     (if \<not> isQuotedString input then (WrapUnmarshalError (Inl ErrNonQuotedString), out)
      else let (r, out) = DecodeFixedText (unquote input) out in (WrapUnmarshalError r, out))"

definition MarshalText :: "u64 \<Rightarrow> bytes" where
  "MarshalText b = AppendUint prefix0x b 16"

definition ValidateUnmarshalInput :: "bytes \<Rightarrow> err + unit" where
  "ValidateUnmarshalInput input =
     (if \<not> isQuotedString input then Inl ErrNonQuotedString else Inr ())"

definition UnmarshalUint64Text :: "bytes \<Rightarrow> err + u64" where
  "UnmarshalUint64Text input =
     bindE (formatAndValidateNumber input) (\<lambda>raw.
     if length raw > 16 then Inl ErrUint64Range else nibble_word 0 raw)"

text \<open>The unmarshaller of the target is an argument, as in the source.\<close>

definition UnmarshalJSONText :: "bytes \<Rightarrow> (bytes \<Rightarrow> err + 'a) \<Rightarrow> err + 'a" where
  "UnmarshalJSONText input unmarshalText =
     (case ValidateUnmarshalInput input of
        Inl e \<Rightarrow> WrapUnmarshalError (Inl e)
      | Inr _ \<Rightarrow> WrapUnmarshalError (unmarshalText (unquote input)))"

subsection \<open>Digits\<close>

text \<open>Letters of either case are accepted; \<open>to_lower\<close> is the form the encoders write.\<close>

definition to_lower :: "u8 \<Rightarrow> u8" where
  "to_lower c = (if 65 \<le> c \<and> c \<le> 70 then c + 32 else c)"

lemma reverseHexTable_unat:
  "unat (reverseHexTable c) =
     (if 48 \<le> unat c \<and> unat c \<le> 57 then unat c - 48
      else if 97 \<le> unat c \<and> unat c \<le> 102 then unat c - 87
      else if 65 \<le> unat c \<and> unat c \<le> 70 then unat c - 55
      else 255)"
  by (auto simp: reverseHexTable_def word_le_nat_alt unat_sub)


lemma unat_hex_digit: "d \<le> 15 \<Longrightarrow> unat (hex_digit d) = (if unat d < 10 then unat d + 48 else unat d + 87)"
  by (simp add: hex_digit_def word_le_nat_alt word_less_nat_alt unat_word_ariths)

lemma reverseHexTable_digit: "d \<le> 15 \<Longrightarrow> reverseHexTable (hex_digit d) = d"
  by (simp add: word_unat_eq_iff reverseHexTable_unat unat_hex_digit word_le_nat_alt)

lemma unat_to_lower: "unat (to_lower c) = (if 65 \<le> unat c \<and> unat c \<le> 70 then unat c + 32 else unat c)"
  by (simp add: to_lower_def word_le_nat_alt unat_word_ariths)

lemma hex_digit_table: "reverseHexTable c \<le> 15 \<Longrightarrow> hex_digit (reverseHexTable c) = to_lower c"
  by (auto simp: word_unat_eq_iff unat_hex_digit unat_to_lower reverseHexTable_unat word_le_nat_alt)

lemma table_cases:
  obtains "48 \<le> unat c" "unat c \<le> 57" "reverseHexTable c = c - 48" "unat (reverseHexTable c) = unat c - 48"
  | "97 \<le> unat c" "unat c \<le> 102" "reverseHexTable c = c - 87" "unat (reverseHexTable c) = unat c - 87"
  | "65 \<le> unat c" "unat c \<le> 70" "reverseHexTable c = c - 55" "unat (reverseHexTable c) = unat c - 55"
  | "\<not> (48 \<le> unat c \<and> unat c \<le> 57)" "\<not> (97 \<le> unat c \<and> unat c \<le> 102)"
    "\<not> (65 \<le> unat c \<and> unat c \<le> 70)" "reverseHexTable c = 255" "unat (reverseHexTable c) = 255"
  using reverseHexTable_unat [of c]
  by (auto simp: reverseHexTable_def word_le_nat_alt split: if_splits)

lemma decodeNibble_table:
  "decodeNibble c = (if reverseHexTable c \<le> 15 then ucast (reverseHexTable c) else badNibble)"
  by (cases c rule: table_cases) (auto simp: decodeNibble_def word_le_nat_alt)

lemma unat_nibbles: fixes a b :: u8 assumes "a \<le> 15" "b \<le> 15"
  shows "unat (a * 16 + b) = unat a * 16 + unat b"
  using assms by (simp add: word_le_nat_alt unat_word_ariths)

lemma nibbles: fixes a b :: u8 assumes "a \<le> 15" "b \<le> 15"
  shows "(a * 16 + b) div 16 = a" "(a * 16 + b) mod 16 = b"
  using assms unat_nibbles [OF assms]
  by (simp_all add: word_unat_eq_iff unat_div unat_mod word_le_nat_alt)

lemma split_byte: fixes v :: u8
  shows "v div 16 \<le> 15" "v mod 16 \<le> 15" "v div 16 * 16 + v mod 16 = v"
  using unsigned_less [of v, where ?'a = nat]
  by (simp_all add: word_le_nat_alt unat_div unat_mod word_unat_eq_iff unat_word_ariths div_mult_mod_eq)

lemma ucast_nibble: assumes "reverseHexTable c \<le> 15"
  shows "unat (ucast (reverseHexTable c) :: u64) = unat (reverseHexTable c)"
    and "(ucast (reverseHexTable c) :: u64) \<noteq> badNibble"
proof -
  show 1: "unat (ucast (reverseHexTable c) :: u64) = unat (reverseHexTable c)"
    using assms by (simp add: unsigned_ucast_eq take_bit_nat_eq_self word_le_nat_alt)
  have "unat (- 1 :: u64) = 2 ^ 64 - 1" by (simp add: unsigned_minus_1_eq_mask mask_eq_exp_minus_1)
  then show "(ucast (reverseHexTable c) :: u64) \<noteq> badNibble"
    using 1 assms unfolding badNibble_def word_le_nat_alt by (auto dest!: arg_cong [where f = unat])
qed

subsection \<open>Byte strings\<close>

definition hex_char :: "u8 \<Rightarrow> bool" where
  "hex_char c \<longleftrightarrow> reverseHexTable c \<le> 15"

lemma hex_char_to_lower [simp]: "hex_char (to_lower c) \<longleftrightarrow> hex_char c"
  by (auto simp: hex_char_def word_le_nat_alt reverseHexTable_unat unat_to_lower)

lemma table_to_lower [simp]: "reverseHexTable (to_lower c) = reverseHexTable c"
  by (auto simp: word_unat_eq_iff reverseHexTable_unat unat_to_lower)

lemma hex_char_digit [simp]: "d \<le> 15 \<Longrightarrow> hex_char (hex_digit d)"
  by (simp add: hex_char_def reverseHexTable_digit)

lemma length_hex_Encode [simp]: "length (hex_Encode b) = 2 * length b"
  by (induction b) (simp_all add: hex_Encode_def)

lemma hex_Encode_chars: "c \<in> set (hex_Encode b) \<Longrightarrow> hex_char c"
  by (auto simp: hex_Encode_def split_byte)

lemma hex_Encode_Cons [simp]:
  "hex_Encode [] = []"
  "hex_Encode (v # b) = hex_digit (v div 16) # hex_digit (v mod 16) # hex_Encode b"
  by (simp_all add: hex_Encode_def)

lemma hex_Decode_sound:
  "hex_Decode dst src = (Inr (), out) \<Longrightarrow> length dst = length src div 2 \<Longrightarrow>
   map to_lower src = hex_Encode out \<and> length out = length dst"
proof (induction dst src arbitrary: out rule: hex_Decode.induct)
  case (3 dst p q src)
  then show ?case
    by (auto simp: hex_digit_table nibbles not_less split: if_splits list.splits prod.splits)
qed auto

lemma hex_Decode_complete:
  "map to_lower src = hex_Encode out \<Longrightarrow> length dst = length out \<Longrightarrow> hex_Decode dst src = (Inr (), out)"
proof (induction dst src arbitrary: out rule: hex_Decode.induct)
  case (1 dst)
  then show ?case by (cases out) simp_all
next
  case (2 dst p)
  then show ?case by (cases out) simp_all
next
  case (3 dst p q src)
  then obtain v out' where out: "out = v # out'" by (cases out) auto
  then obtain d dst' where dst: "dst = d # dst'" using 3 by (cases dst) auto
  have p: "to_lower p = hex_digit (v div 16)" and q: "to_lower q = hex_digit (v mod 16)"
    and rest: "map to_lower src = hex_Encode out'"
    using 3 out by auto
  have tp: "reverseHexTable p = v div 16" and tq: "reverseHexTable q = v mod 16"
    using p q by (metis reverseHexTable_digit split_byte table_to_lower)+
  have "hex_Decode dst' src = (Inr (), out')"
    using 3 rest dst out tp tq split_byte by (auto simp: not_less)
  then show ?case
    using dst out tp tq split_byte [of v] by (simp add: not_less)
qed

lemma map_to_lower_Encode [simp]: "map to_lower (hex_Encode b) = hex_Encode b"
proof -
  have "to_lower (hex_digit d) = hex_digit d" if "d \<le> 15" for d
    using hex_digit_table [of "hex_digit d"] that by (simp add: reverseHexTable_digit)
  then show ?thesis by (induction b) (simp_all add: split_byte)
qed

lemma hex_Decode_iff:
  "length dst = length src div 2 \<Longrightarrow>
   hex_Decode dst src = (Inr (), out) \<longleftrightarrow> map to_lower src = hex_Encode out"
  using hex_Decode_sound hex_Decode_complete
  by (metis length_hex_Encode length_map nonzero_mult_div_cancel_left zero_neq_numeral)

lemma lower_Encode_length: "map to_lower s = hex_Encode b \<Longrightarrow> length s = 2 * length b"
  by (metis length_hex_Encode length_map)

lemma has0xPrefix_prefix [simp]: "has0xPrefix (prefix0x @ s)" "drop 2 (prefix0x @ s) = s"
  by (simp_all add: has0xPrefix_def prefix0x_def)

lemma prefix0x_simps [simp]: "length prefix0x = 2" "drop 2 prefix0x = []" "prefix0x \<noteq> []"
  by (simp_all add: prefix0x_def)

lemma NewString_prefix [simp]: "NewString (prefix0x @ s) = prefix0x @ s"
  by (simp add: NewString_def ensureStringInvariants_def ensure0xPrefix_def prefix0x_def has0xPrefix_def)

lemma hex_Encode_Nil_iff [simp]: "[] = hex_Encode b \<longleftrightarrow> b = []"
  by (cases b) simp_all

lemma UnmarshalByteText_iff:
  "UnmarshalByteText t = Inr b \<longleftrightarrow>
     t = [] \<and> b = [] \<or> has0xPrefix t \<and> map to_lower (drop 2 t) = hex_Encode b"
proof (cases "has0xPrefix t \<and> even (length t)")
  case True
  then have "formatAndValidateText t = Inr (drop 2 t)" "t \<noteq> []"
    by (auto simp: formatAndValidateText_def has0xPrefix_def)
  then show ?thesis
    using True hex_Decode_iff [of "replicate ((length t - 2) div 2) 0" "drop 2 t" b]
    by (auto simp: UnmarshalByteText_def bindE_Inr split: prod.splits)
next
  case False
  have "even (length t)" if "has0xPrefix t" "map to_lower (drop 2 t) = hex_Encode b"
  proof -
    have "length t - 2 = 2 * length b" "2 \<le> length t"
      using that lower_Encode_length [OF that(2)] by (auto simp: has0xPrefix_def)
    then show ?thesis by presburger
  qed
  then show ?thesis
    using False by (auto simp: UnmarshalByteText_def formatAndValidateText_def bindE_Inr has0xPrefix_def Let_def)
qed

text \<open>
  Byte strings survive their text form, by \<open>UnmarshalByteText\<close> after \<open>EncodeBytes\<close> and by
  \<open>ToBytes\<close> after \<open>FromBytes\<close>. A text is decoded to \<open>b\<close> exactly when it is the encoding of \<open>b\<close> up
  to the case of its letters and of the prefix, or both are empty: no other text is accepted.
\<close>

theorem hex_bytes_roundtrip:
  "UnmarshalByteText (EncodeBytes b) = Inr b \<and>
   FromBytes b = EncodeBytes b \<and> String_ToBytes (FromBytes b) = Inr b \<and>
   (UnmarshalByteText t = Inr b \<longleftrightarrow>
      t = [] \<and> b = [] \<or> has0xPrefix t \<and> map to_lower (drop 2 t) = drop 2 (EncodeBytes b))"
proof (intro conjI)
  show "UnmarshalByteText (EncodeBytes b) = Inr b"
    by (simp add: UnmarshalByteText_iff EncodeBytes_def)
  show f: "FromBytes b = EncodeBytes b"
    by (simp add: FromBytes_def EncodeBytes_def)
  show "String_ToBytes (FromBytes b) = Inr b"
    by (simp add: f EncodeBytes_def String_ToBytes_def DecodeString_def hex_Decode_complete)
  show "UnmarshalByteText t = Inr b \<longleftrightarrow>
      t = [] \<and> b = [] \<or> has0xPrefix t \<and> map to_lower (drop 2 t) = drop 2 (EncodeBytes b)"
    by (simp add: UnmarshalByteText_iff EncodeBytes_def)
qed


lemma hex_Decode_defined:
  "\<forall>c \<in> set src. hex_char c \<Longrightarrow> length src = 2 * length dst \<Longrightarrow> \<exists>out. hex_Decode dst src = (Inr (), out)"
proof (induction dst src rule: hex_Decode.induct)
  case (2 dst p)
  then have False using dvd_triv_left [of 2 "length dst"] by (metis One_nat_def length_Cons list.size(3) odd_one)
  then show ?case ..
next
  case (3 dst p q src)
  then obtain d dst' where dst: "dst = d # dst'" by (cases dst) auto
  have "\<exists>out. hex_Decode dst' src = (Inr (), out)"
    using 3 dst by (auto simp: hex_char_def not_less)
  then show ?case
    using 3 dst by (auto simp: hex_char_def not_less)
qed auto

lemma badNibble_iff: "decodeNibble c = badNibble \<longleftrightarrow> \<not> hex_char c"
  by (auto simp: decodeNibble_table hex_char_def ucast_nibble)

lemma UnmarshalByteText_raw:
  assumes "formatAndValidateText t = Inr raw"
  shows "UnmarshalByteText t = Inr b \<longleftrightarrow> map to_lower raw = hex_Encode b"
  using assms hex_Decode_iff [of "replicate (length raw div 2) 0" raw b]
  by (auto simp: UnmarshalByteText_def bindE_Inr split: prod.splits)

text \<open>
  \<open>DecodeFixedText\<close> succeeds exactly on the texts of byte strings of the length of the buffer.
  The buffer then holds the byte string; after an error of any kind it is what it was before.
\<close>

theorem DecodeFixedText_atomic:
  "(fst (DecodeFixedText t out) = Inr () \<longleftrightarrow>
      (\<exists>b. UnmarshalByteText t = Inr b \<and> length b = length out)) \<and>
   snd (DecodeFixedText t out) =
     (case UnmarshalByteText t of
        Inl _ \<Rightarrow> out
      | Inr b \<Rightarrow> if length b = length out then b else out)"
proof (cases "formatAndValidateText t")
  case (Inl e)
  then show ?thesis by (simp add: DecodeFixedText_def UnmarshalByteText_def)
next
  case raw: (Inr raw)
  note iff = UnmarshalByteText_raw [OF raw]
  have ev: "even (length raw)"
    using raw by (auto simp: formatAndValidateText_def Let_def split: if_splits)
  have len: "length b = length raw div 2" if "UnmarshalByteText t = Inr b" for b
    using that by (simp add: iff lower_Encode_length)
  consider (short) "length raw div 2 \<noteq> length out"
    | (bad) c where "length raw div 2 = length out" "c \<in> set raw" "\<not> hex_char c"
    | (good) "length raw div 2 = length out" "\<forall>c \<in> set raw. hex_char c"
    by blast
  then show ?thesis
  proof cases
    case short
    then show ?thesis
      using raw len by (auto simp: DecodeFixedText_def split: sum.splits)
  next
    case bad
    have "UnmarshalByteText t \<noteq> Inr b" for b
      using bad hex_Encode_chars [of "to_lower c" b] unfolding iff by (metis hex_char_to_lower image_eqI list.set_map)
    then show ?thesis
      using raw bad by (auto simp: DecodeFixedText_def badNibble_iff split: sum.splits)
  next
    case good
    then obtain b where b: "hex_Decode out raw = (Inr (), b)"
      using hex_Decode_defined [of raw out] even_two_times_div_two [OF ev] by auto
    then have "UnmarshalByteText t = Inr b" "length b = length out"
      using hex_Decode_sound [OF b] good by (simp_all add: iff)
    then show ?thesis
      using raw good b by (simp add: DecodeFixedText_def badNibble_iff)
  qed
qed

subsection \<open>Numbers\<close>

lemma unat_of_nat_small:
  "n < 2 ^ 64 \<Longrightarrow> unat (of_nat n :: u64) = n"
  "n < 2 ^ 8 \<Longrightarrow> unat (of_nat n :: u8) = n"
  by (simp_all add: unat_of_nat)

lemma digits_value_simps [simp]:
  "digits_value b [] = 0"
  "digits_value b [d] = d"
  "digits_value b (ds @ [d]) = digits_value b ds * b + d"
  by (simp_all add: digits_value_def)

lemma digits_value_append:
  "digits_value b (xs @ ys) = digits_value b xs * b ^ length ys + digits_value b ys"
proof (induction ys rule: rev_induct)
  case (snoc y ys)
  then show ?case
    using digits_value_simps(3) [of b "xs @ ys" y] by (simp add: algebra_simps)
qed simp

lemma digits_value_less: "\<forall>d \<in> set ds. d < b \<Longrightarrow> digits_value b ds < b ^ length ds"
proof (induction ds rule: rev_induct)
  case (snoc d ds)
  then have "digits_value b ds + 1 \<le> b ^ length ds" by simp
  then have "(digits_value b ds + 1) * b \<le> b ^ length ds * b" by (rule mult_le_mono1)
  then show ?case using snoc by (simp add: algebra_simps)
qed simp

lemma digits_value_ge: "ds \<noteq> [] \<Longrightarrow> ds ! 0 \<noteq> 0 \<Longrightarrow> b ^ (length ds - 1) \<le> digits_value b ds"
proof (induction ds rule: rev_induct)
  case (snoc d ds)
  show ?case
  proof (cases "ds = []")
    case False
    then have "b ^ (length ds - 1) \<le> digits_value b ds"
      using snoc by (simp add: nth_append)
    then have "b ^ (length ds - 1) * b \<le> digits_value b ds * b" by (rule mult_le_mono1)
    moreover have "b ^ length ds = b ^ (length ds - 1) * b"
      using False by (cases "length ds") simp_all
    ultimately have "b ^ length ds \<le> digits_value b ds * b + d" by linarith
    then show ?thesis by simp
  qed (use snoc in simp)
qed simp

definition canonical :: "nat \<Rightarrow> nat list \<Rightarrow> bool" where
  "canonical b ds \<longleftrightarrow> ds \<noteq> [] \<and> (\<forall>d \<in> set ds. d < b) \<and> \<not> (length ds > 1 \<and> ds ! 0 = 0)"

lemma base_digits_canonical: "b \<ge> 2 \<Longrightarrow> canonical b (base_digits b n) \<and> digits_value b (base_digits b n) = n"
proof (induction b n rule: base_digits.induct)
  case (1 b n)
  show ?case
  proof (cases "n < b")
    case True
    then show ?thesis
      using 1 digits_value_simps(3) [of b "[]" n]
      by (simp add: base_digits.simps [of b n] canonical_def)
  next
    case False
    let ?ds = "base_digits b (n div b)"
    have IH: "canonical b ?ds" "digits_value b ?ds = n div b"
      using 1 False by auto
    have "?ds ! 0 \<noteq> 0"
    proof (cases "length ?ds > 1")
      case False
      then obtain d where "?ds = [d]"
        using IH(1) by (cases ?ds) (auto simp: canonical_def)
      moreover have "n div b \<noteq> 0" using \<open>\<not> n < b\<close> 1 by (simp add: div_eq_0_iff)
      ultimately show ?thesis using IH(2) digits_value_simps(3) [of b "[]" d] by auto
    qed (use IH in \<open>auto simp: canonical_def\<close>)
    then show ?thesis
      using 1 False IH by (auto simp: base_digits.simps [of b n] canonical_def nth_append)
  qed
qed

lemma base_digits_unique: "b \<ge> 2 \<Longrightarrow> canonical b ds \<Longrightarrow> base_digits b (digits_value b ds) = ds"
proof (induction ds rule: rev_induct)
  case (snoc d ds)
  have d: "d < b" using snoc by (simp add: canonical_def)
  show ?case
  proof (cases "ds = []")
    case True
    then show ?thesis
      using d digits_value_simps(3) [of b "[]" d] by (simp add: base_digits.simps [of b d])
  next
    case False
    then have can: "canonical b ds" and hd0: "ds ! 0 \<noteq> 0"
      using snoc by (auto simp: canonical_def nth_append)
    then have "digits_value b ds \<ge> 1"
      using digits_value_ge [OF False hd0, of b] snoc(2) one_le_power [of b "length ds - 1"] by linarith
    then have "\<not> digits_value b ds * b + d < b" by (auto simp: not_less intro: trans_le_add1)
    then show ?thesis
      using snoc can d by (simp add: base_digits.simps [of b "digits_value b ds * b + d"])
  qed
qed (simp add: canonical_def)

lemma base_digits_iff: "b \<ge> 2 \<Longrightarrow> ds = base_digits b n \<longleftrightarrow> canonical b ds \<and> digits_value b ds = n"
  using base_digits_canonical base_digits_unique by metis

lemma canonical_length:
  "b \<ge> 2 \<Longrightarrow> canonical b ds \<Longrightarrow> 0 < k \<Longrightarrow> length ds \<le> k \<longleftrightarrow> digits_value b ds < b ^ k"
proof
  assume b: "b \<ge> 2" and c: "canonical b ds" and k: "0 < k"
  show "digits_value b ds < b ^ k" if "length ds \<le> k"
  proof -
    have "digits_value b ds < b ^ length ds"
      using c by (intro digits_value_less) (simp add: canonical_def)
    also have "\<dots> \<le> b ^ k" using that b by (simp add: power_increasing)
    finally show ?thesis .
  qed
  show "length ds \<le> k" if v: "digits_value b ds < b ^ k"
  proof (rule ccontr)
    assume "\<not> length ds \<le> k"
    then have "b ^ k \<le> b ^ (length ds - 1)" "length ds > 1" using b k by (auto intro: power_increasing)
    moreover have "b ^ (length ds - 1) \<le> digits_value b ds"
      using c \<open>length ds > 1\<close> by (intro digits_value_ge) (auto simp: canonical_def)
    ultimately show False using v by linarith
  qed
qed


definition digit_values :: "bytes \<Rightarrow> nat list" where
  "digit_values s = map (\<lambda>c. unat (reverseHexTable c)) s"

lemma hex_char_value: "hex_char c \<longleftrightarrow> unat (reverseHexTable c) < 16"
  by (auto simp: hex_char_def word_le_nat_alt)

lemma nibble_word_value:
  "nibble_word (of_nat n) s =
     (if \<forall>c \<in> set s. hex_char c
      then Inr (of_nat (foldl (\<lambda>n d. n * 16 + d) n (digit_values s)))
      else Inl ErrInvalidString)"
proof (induction s arbitrary: n)
  case (Cons c s)
  have "ucast (reverseHexTable c) = (of_nat (unat (reverseHexTable c)) :: u64)" if "hex_char c"
    using that by (simp add: ucast_nibble(1) hex_char_def word_unat_eq_iff unat_of_nat word_le_nat_alt)
  then show ?case
    using Cons [of "n * 16 + unat (reverseHexTable c)"]
    by (auto simp: badNibble_iff decodeNibble_table hex_char_def Let_def digit_values_def ucast_nibble(2))
qed (simp add: digit_values_def)

lemma foldl_digits_ge: "0 < b \<Longrightarrow> n \<le> foldl (\<lambda>n d. n * b + d) (n :: nat) ds"
proof (induction ds arbitrary: n)
  case (Cons d ds)
  have "n \<le> n * b + d" using Cons(2) by (cases b) auto
  then show ?case using Cons(1) [of "n * b + d"] Cons(2) by simp
qed simp

lemma parse_digits_value:
  assumes b: "0 < b" "b \<le> 16"
  shows "n < 2 ^ 64 \<Longrightarrow>
   parse_digits b n s = Inr x \<longleftrightarrow>
     (\<forall>c \<in> set s. unat (reverseHexTable c) < b) \<and> foldl (\<lambda>n d. n * b + d) n (digit_values s) = unat x"
proof (induction s arbitrary: n)
  case Nil
  then show ?case by (auto simp: digit_values_def unat_of_nat_small)
next
  case (Cons c s)
  let ?m = "n * b + unat (reverseHexTable c)"
  have "unat x < 2 ^ 64" using unsigned_less [of x, where ?'a = nat] by simp
  then have "?m < 2 ^ 64" if "foldl (\<lambda>n d. n * b + d) ?m (digit_values s) = unat x"
    using that foldl_digits_ge [of b ?m "digit_values s"] b by linarith
  then show ?case
    using Cons b by (auto simp: digit_values_def word_less_nat_alt not_le)
qed

lemma Number_raw:
  "formatAndValidateNumber t = Inr raw \<longleftrightarrow>
     has0xPrefix t \<and> raw = drop 2 t \<and> raw \<noteq> [] \<and> \<not> (length raw > 1 \<and> raw ! 0 = 48)"
  by (auto simp: formatAndValidateNumber_def has0xPrefix_def Let_def)

lemma table_zero_iff: "unat (reverseHexTable c) = 0 \<longleftrightarrow> c = 48"
  by (auto simp: word_unat_eq_iff reverseHexTable_unat)

lemma canonical_raw:
  assumes "\<forall>c \<in> set raw. hex_char c"
  shows "canonical 16 (digit_values raw) \<longleftrightarrow> raw \<noteq> [] \<and> \<not> (length raw > 1 \<and> raw ! 0 = 48)"
  using assms by (auto simp: canonical_def digit_values_def hex_char_value table_zero_iff [symmetric])

lemma lower_digits:
  assumes "\<forall>d \<in> set ds. d < 16"
  shows "map to_lower raw = map (\<lambda>d. hex_digit (of_nat d)) ds \<longleftrightarrow>
     (\<forall>c \<in> set raw. hex_char c) \<and> digit_values raw = ds"
  using assms
proof (induction raw arbitrary: ds)
  case (Cons c raw)
  show ?case
  proof (cases ds)
    case (Cons d ds')
    then have d: "d < 16" using Cons.prems by simp
    then have ud: "unat (of_nat d :: u8) = d" "(of_nat d :: u8) \<le> 15"
      by (simp_all add: unat_of_nat_small word_le_nat_alt)
    have "to_lower c = hex_digit (of_nat d) \<longleftrightarrow> hex_char c \<and> unat (reverseHexTable c) = d"
    proof
      assume l: "to_lower c = hex_digit (of_nat d)"
      then show "hex_char c \<and> unat (reverseHexTable c) = d"
        by (metis hex_char_digit hex_char_to_lower reverseHexTable_digit table_to_lower ud)
    next
      assume "hex_char c \<and> unat (reverseHexTable c) = d"
      then show "to_lower c = hex_digit (of_nat d)"
        using hex_digit_table [of c] by (auto simp: hex_char_def)
    qed
    then show ?thesis using Cons Cons.IH [of ds'] Cons.prems by (auto simp: digit_values_def)
  qed (simp add: digit_values_def)
qed (auto simp: digit_values_def)

lemma to_lower_digit [simp]: "d \<le> 15 \<Longrightarrow> to_lower (hex_digit d) = hex_digit d"
  using hex_digit_table [of "hex_digit d"] by (simp add: reverseHexTable_digit)

lemma to_lower_digits:
  "map (\<lambda>d. to_lower (hex_digit (of_nat d))) (base_digits 16 n) = map (\<lambda>d. hex_digit (of_nat d)) (base_digits 16 n)"
proof (rule map_cong [OF refl])
  fix d assume "d \<in> set (base_digits 16 n)"
  then have "d < 16" using base_digits_canonical [of 16 n] by (simp add: canonical_def)
  then show "to_lower (hex_digit (of_nat d)) = hex_digit (of_nat d)"
    by (simp add: unat_of_nat_small word_le_nat_alt)
qed

lemma base_digits_text:
  "map to_lower raw = map (\<lambda>d. hex_digit (of_nat d)) (base_digits 16 n) \<longleftrightarrow>
     (\<forall>c \<in> set raw. hex_char c) \<and> raw \<noteq> [] \<and> \<not> (length raw > 1 \<and> raw ! 0 = 48) \<and>
     digits_value 16 (digit_values raw) = n"
proof -
  have "\<forall>d \<in> set (base_digits 16 n). d < 16"
    using base_digits_canonical [of 16 n] by (simp add: canonical_def)
  then show ?thesis
    using lower_digits [of "base_digits 16 n" raw] base_digits_iff [of 16 "digit_values raw" n] canonical_raw [of raw]
    by auto
qed

lemma digit_values_length [simp]: "length (digit_values s) = length s"
  by (simp add: digit_values_def)

lemma raw_length:
  assumes "\<forall>c \<in> set raw. hex_char c" "raw \<noteq> []" "\<not> (length raw > 1 \<and> raw ! 0 = 48)" "0 < k"
  shows "length raw \<le> k \<longleftrightarrow> digits_value 16 (digit_values raw) < 16 ^ k"
  using canonical_length [of 16 "digit_values raw" k] canonical_raw assms by simp

lemma MarshalText_drop [simp]:
  "drop 2 (MarshalText x) = map (\<lambda>d. hex_digit (of_nat d)) (base_digits 16 (unat x))"
  by (simp add: MarshalText_def AppendUint_def)

text \<open>
  C38. Every 64-bit number survives its text form, and a text is decoded to \<open>x\<close> exactly when it is
  the text of \<open>x\<close> up to case: no leading zeros, no empty number, nothing above 64 bits. The
  hand-written decoder \<open>UnmarshalUint64Text\<close> and the decoder \<open>ToUint64\<close> over \<open>strconv.ParseUint\<close>
  accept the same texts with the same results.
\<close>

theorem hex_uint64_roundtrip:
  "UnmarshalUint64Text (MarshalText x) = Inr x \<and>
   (UnmarshalUint64Text t = Inr x \<longleftrightarrow>
      has0xPrefix t \<and> map to_lower (drop 2 t) = drop 2 (MarshalText x)) \<and>
   (ToUint64 t = Inr x \<longleftrightarrow> UnmarshalUint64Text t = Inr x)"
proof -
  have x: "unat x < 16 ^ 16" using unsigned_less [of x, where ?'a = nat] by simp
  have U: "UnmarshalUint64Text t = Inr x \<longleftrightarrow>
      has0xPrefix t \<and> map to_lower (drop 2 t) = drop 2 (MarshalText x)" for t
  proof -
    let ?raw = "drop 2 t"
    have of_nat: "of_nat v = x \<longleftrightarrow> v = unat x" if "v < 16 ^ 16" for v
      using that by (auto simp: unat_of_nat_small)
    have "nibble_word 0 ?raw = Inr x \<longleftrightarrow>
       (\<forall>c \<in> set ?raw. hex_char c) \<and> of_nat (digits_value 16 (digit_values ?raw)) = x"
      using nibble_word_value [of 0 ?raw] by (auto simp: digits_value_def)
    then show ?thesis
      unfolding UnmarshalUint64Text_def bindE_Inr Number_raw base_digits_text MarshalText_drop
      using raw_length [of ?raw 16] x of_nat [of "digits_value 16 (digit_values ?raw)"]
      by (auto simp del: drop_eq_Nil split: if_splits)
  qed
  have P: "ToUint64 t = Inr x \<longleftrightarrow> has0xPrefix t \<and> map to_lower (drop 2 t) = drop 2 (MarshalText x)"
    using parse_digits_value [of 16 0 "drop 2 t" x]
    by (auto simp: hex_char_value ToUint64_def bindE_Inr Number_raw base_digits_text ParseUint_def digits_value_def)
  have "map to_lower (drop 2 (MarshalText x)) = drop 2 (MarshalText x)"
    using to_lower_digits by (simp add: comp_def)
  then show ?thesis using U P by (simp add: MarshalText_def AppendUint_def)
qed

lemma getBigWordNibbles_eq [simp]: "getBigWordNibbles = Inr 16"
proof -
  have "word_digits 0xFFFFFFFFFF = [0xFFFFFFFFFF]"
    by (simp add: word_digits.simps)
  then show ?thesis by (simp add: getBigWordNibbles_def big_Bits_def)
qed

lemma digit_values_append [simp]: "digit_values (xs @ ys) = digit_values xs @ digit_values ys"
  by (simp add: digit_values_def)

lemma digit_values_less: "\<forall>c \<in> set s. hex_char c \<Longrightarrow> digits_value 16 (digit_values s) < 16 ^ length s"
  using digits_value_less [of "digit_values s" 16] by (simp add: digit_values_def hex_char_value)

lemma nibble_words_value:
  "e \<le> length raw \<Longrightarrow> e \<le> 16 * k \<Longrightarrow>
   (if \<forall>c \<in> set (take e raw). hex_char c
    then \<exists>ws. nibble_words raw 16 k e = Inr ws \<and>
           big_SetBits ws = int (digits_value 16 (digit_values (take e raw)))
    else nibble_words raw 16 k e = Inl ErrInvalidString)"
proof (induction k arbitrary: e)
  case 0
  then show ?case by (simp add: big_SetBits_def digit_values_def)
next
  case (Suc k)
  let ?s = "e - 16"
  let ?hi = "take ?s raw" let ?lo = "drop ?s (take e raw)"
  have split: "take e raw = ?hi @ ?lo"
    by (metis append_take_drop_id diff_le_self min.absorb1 take_take)
  have sets: "set (take e raw) = set ?hi \<union> set ?lo"
    using arg_cong [OF split, of set] by (simp only: set_append)
  have lo: "length ?lo \<le> 16" "?s = 0 \<or> length ?lo = 16"
    using Suc.prems by auto
  have w: "nibble_word 0 ?lo = (if \<forall>c \<in> set ?lo. hex_char c
      then Inr (of_nat (digits_value 16 (digit_values ?lo))) else Inl ErrInvalidString)"
    using nibble_word_value [of 0 ?lo] by (simp add: digits_value_def)
  have hi: "?s \<le> length raw" "?s \<le> 16 * k" using Suc.prems by auto
  note IH = Suc.IH [OF hi]
  show ?case
  proof (cases "\<forall>c \<in> set (take e raw). hex_char c")
    case True
    then have T: "\<forall>c \<in> set ?hi. hex_char c" "\<forall>c \<in> set ?lo. hex_char c"
      unfolding sets by blast+
    then obtain ws where ws: "nibble_words raw 16 k ?s = Inr ws"
      "big_SetBits ws = int (digits_value 16 (digit_values ?hi))"
      using IH by auto
    let ?v = "digits_value 16 (digit_values ?lo)"
    have "?v < 16 ^ 16"
      using digit_values_less [OF T(2)] power_increasing [OF lo(1), of "16 :: nat"] by linarith
    then have "unat (of_nat ?v :: u64) = ?v" by (intro unat_of_nat_small) simp
    moreover have "digits_value 16 (digit_values (take e raw)) =
        digits_value 16 (digit_values ?hi) * 2 ^ 64 + ?v"
      using arg_cong [OF split, of "\<lambda>s. digits_value 16 (digit_values s)"] lo(2)
      unfolding digit_values_append digits_value_append digit_values_length
      by (elim disjE) (simp_all add: digit_values_def)
    ultimately have "big_SetBits (of_nat ?v # ws) = int (digits_value 16 (digit_values (take e raw)))"
      using ws(2) by (simp add: big_SetBits_def)
    then show ?thesis using True T w ws(1) by (simp add: Let_def)
  next
    case False
    then consider "\<not> (\<forall>c \<in> set ?lo. hex_char c)" | "\<forall>c \<in> set ?lo. hex_char c" "\<not> (\<forall>c \<in> set ?hi. hex_char c)"
      unfolding sets by blast
    then show ?thesis
      using False w IH by cases (auto simp: Let_def)
  qed
qed

lemma FromBigInt_drop:
  "0 \<le> v \<Longrightarrow> drop 2 (FromBigInt v) = map (\<lambda>d. hex_digit (of_nat d)) (base_digits 16 (nat v))"
  by (auto simp: FromBigInt_def big_Text_def base_digits.simps [of 16 0] hex_digit_def)

lemma ToBigInt_iff:
  "ToBigInt t = Inr v \<longleftrightarrow>
     has0xPrefix t \<and> 0 \<le> v \<and> v < 2 ^ 256 \<and> map to_lower (drop 2 t) = drop 2 (FromBigInt v)"
proof (cases "\<exists>raw. formatAndValidateNumber t = Inr raw")
  case False
  then have "formatAndValidateNumber t \<noteq> Inr (drop 2 t)" by simp
  then have "\<not> (has0xPrefix t \<and> drop 2 t \<noteq> [] \<and> \<not> (length (drop 2 t) > 1 \<and> drop 2 t ! 0 = 48))"
    unfolding Number_raw by auto
  then show ?thesis using False
    by (auto simp: ToBigInt_def bindE_Inr FromBigInt_drop base_digits_text)
next
  case True
  then obtain raw where raw: "formatAndValidateNumber t = Inr raw" by auto
  then have R: "has0xPrefix t" "raw = drop 2 t" "raw \<noteq> []" "\<not> (length raw > 1 \<and> raw ! 0 = 48)"
    unfolding Number_raw by auto
  have words: "if \<forall>c \<in> set raw. hex_char c
    then \<exists>ws. nibble_words raw 16 (length raw div 16 + 1) (length raw) = Inr ws \<and>
           big_SetBits ws = int (digits_value 16 (digit_values raw))
    else nibble_words raw 16 (length raw div 16 + 1) (length raw) = Inl ErrInvalidString"
  proof -
    have "length raw \<le> 16 * (length raw div 16 + 1)" by presburger
    from nibble_words_value [OF le_refl this] show ?thesis unfolding take_all [OF le_refl] .
  qed
  show ?thesis
  proof (cases "\<forall>c \<in> set raw. hex_char c")
    case True
    then have len: "length raw \<le> 64 \<longleftrightarrow> digits_value 16 (digit_values raw) < 16 ^ 64"
      using raw_length [of raw 64] R by simp
    have "ToBigInt t = (if length raw \<le> 64 then Inr (int (digits_value 16 (digit_values raw))) else Inl ErrBig256Range)"
      using True words raw by (auto simp: ToBigInt_def simp del: nibble_words.simps)
    moreover have "map to_lower raw = drop 2 (FromBigInt v) \<longleftrightarrow> digits_value 16 (digit_values raw) = nat v" if "0 \<le> v"
      using True R that by (simp add: FromBigInt_drop base_digits_text)
    ultimately show ?thesis using len R by (auto simp: nat_less_iff) 
  next
    case False
    then have "\<not> (0 \<le> v \<and> map to_lower raw = drop 2 (FromBigInt v))"
      using base_digits_text [of raw] by (auto simp: FromBigInt_drop)
    moreover have "ToBigInt t \<noteq> Inr v" using False words raw by (auto simp: ToBigInt_def simp del: nibble_words.simps split: if_splits)
    ultimately show ?thesis using R by auto
  qed
qed

subsection \<open>The invariant of String\<close>

text \<open>
  The invariants that the type \<open>String\<close> documents: every constructor gives a non-empty text with
  the prefix, whatever its argument; \<open>NewString\<close> leaves such texts alone, so it is idempotent, and
  \<open>NewStringStrict\<close> accepts exactly the texts that satisfy the invariants.
\<close>

theorem String_invariant:
  "has0xPrefix (NewString s) \<and> NewString s \<noteq> [] \<and> NewString (NewString s) = NewString s \<and>
   has0xPrefix (FromBytes b) \<and> has0xPrefix (FromUint64 i) \<and> has0xPrefix (FromBigInt v) \<and>
   has0xPrefix (FromJSONString s) \<and>
   (NewStringStrict s = Inr t \<longleftrightarrow> t = s \<and> s \<noteq> [] \<and> has0xPrefix s)"
proof -
  have new: "has0xPrefix (NewString s)" for s
    by (auto simp: NewString_def ensureStringInvariants_def ensure0xPrefix_def Let_def)
  have "NewString s = s" if "has0xPrefix s" for s
    using that by (auto simp: NewString_def ensureStringInvariants_def ensure0xPrefix_def has0xPrefix_def)
  moreover have "s \<noteq> []" if "has0xPrefix s" for s
    using that by (auto simp: has0xPrefix_def)
  ultimately show ?thesis
    using new by (auto simp: FromBytes_def FromUint64_def AppendUint_def FromBigInt_def FromJSONString_def
        NewStringStrict_def)
qed

end
