(* ===== verification/Encodings.thy ===== *)
theory Encodings
  imports Hex
begin

section \<open>Byte arrays and numbers as text\<close>

text \<open>
  The package \<open>primitives/pkg/bytes\<close> and the text, JSON and big-integer forms of \<open>U64\<close> and \<open>U256L\<close>
  of \<open>primitives/pkg/math\<close>. A method with a pointer receiver returns the new value of the receiver
  beside its result.

  Shown: the in-place swap loop reverses; \<open>U256L\<close> represents exactly the integers below \<open>2^256\<close>, little-endian, and survives its
  JSON and SSZ forms.
\<close>

subsection \<open>Byte slices\<close>

definition FromHex :: "bytes \<Rightarrow> err + bytes" where
  "FromHex input = bindE (NewStringStrict input) String_ToBytes"

definition MustFromHex :: "bytes \<Rightarrow> err + bytes" where
  "MustFromHex input = (case FromHex input of Inl _ \<Rightarrow> Inl (Panic ''MustFromHex'') | Inr bz \<Rightarrow> Inr bz)"

text \<open>A slice may be nil; the branches of \<open>SafeCopy\<close> differ only in how the copy is allocated.\<close>

definition SafeCopy :: "bytes option \<Rightarrow> bytes option" where
  "SafeCopy src =
     (case src of
        None \<Rightarrow> None
      | Some src \<Rightarrow> if length src = 32 then Some (take 32 src) else Some src)"

definition SafeCopy2D :: "bytes option list option \<Rightarrow> bytes option list option" where
  "SafeCopy2D src = (case src of None \<Rightarrow> None | Some src \<Rightarrow> Some (map SafeCopy src))"

fun reverse_loop :: "bytes \<Rightarrow> nat \<Rightarrow> nat \<Rightarrow> bytes" where
  "reverse_loop copied i j =
     (if i < j then reverse_loop (copied[i := copied ! j, j := copied ! i]) (i + 1) (j - 1)
      else copied)"

declare reverse_loop.simps [simp del]

definition CopyAndReverseEndianess :: "bytes \<Rightarrow> bytes" where
  "CopyAndReverseEndianess input = reverse_loop input 0 (length input - 1)"

definition ExtendToSize :: "bytes \<Rightarrow> nat \<Rightarrow> bytes" where
  "ExtendToSize sl len =
     (if length sl \<ge> len then sl else sl @ replicate (len - length sl) 0)"

definition PrependExtendToSize :: "bytes \<Rightarrow> nat \<Rightarrow> bytes" where
  "PrependExtendToSize sl len =
     (if length sl \<ge> len then sl else replicate (len - length sl) 0 @ sl)"

definition Bytes_MarshalText :: "bytes \<Rightarrow> bytes" where
  "Bytes_MarshalText b = EncodeBytes b"

definition Bytes_UnmarshalText :: "bytes \<Rightarrow> err + bytes" where
  "Bytes_UnmarshalText input = UnmarshalByteText input"

definition Bytes_UnmarshalJSON :: "bytes \<Rightarrow> err + bytes" where
  "Bytes_UnmarshalJSON input = UnmarshalJSONText input Bytes_UnmarshalText"

definition Bytes_String :: "bytes \<Rightarrow> bytes" where
  "Bytes_String b = FromBytes b"

definition unmarshalJSONHelper :: "bytes \<Rightarrow> bytes \<Rightarrow> (err + unit) \<times> bytes" where
  "unmarshalJSONHelper target input =
     (case Bytes_UnmarshalJSON input of
        Inl e \<Rightarrow> (Inl e, target)
      | Inr bz \<Rightarrow> if length bz \<noteq> length target then (Inl (Newf ''incorrect length''), target)
                  else (Inr (), bz))"

definition UnmarshalTextHelper :: "bytes \<Rightarrow> bytes \<Rightarrow> (err + unit) \<times> bytes" where
  "UnmarshalTextHelper target txt =
     (case Bytes_UnmarshalText txt of
        Inl e \<Rightarrow> (Inl e, target)
      | Inr bz \<Rightarrow> if length bz \<noteq> length target then (Inl (Newf ''incorrect length''), target)
                  else (Inr (), bz))"

definition UnmarshalFixedJSON :: "bytes \<Rightarrow> bytes \<Rightarrow> (err + unit) \<times> bytes" where
  "UnmarshalFixedJSON input out = DecodeFixedJSON input out"

definition UnmarshalFixedText :: "bytes \<Rightarrow> bytes \<Rightarrow> (err + unit) \<times> bytes" where
  "UnmarshalFixedText input out = DecodeFixedText input out"

subsection \<open>Byte arrays\<close>

definition ToBytes4 :: "bytes \<Rightarrow> err + bytes" where
  "ToBytes4 input = to_array 4 (ExtendToSize input 4)"

definition ToBytes8 :: "bytes \<Rightarrow> err + bytes" where
  "ToBytes8 input = to_array 8 (ExtendToSize input 8)"

definition ToBytes32 :: "bytes \<Rightarrow> err + bytes" where
  "ToBytes32 input = to_array 32 (ExtendToSize input 32)"

definition ToBytes48 :: "bytes \<Rightarrow> err + bytes" where
  "ToBytes48 input = to_array 48 (ExtendToSize input 48)"

definition ToBytes96 :: "bytes \<Rightarrow> err + bytes" where
  "ToBytes96 input = to_array 96 (ExtendToSize input 96)"

definition B4_UnmarshalJSON :: "bytes \<Rightarrow> bytes \<Rightarrow> (err + unit) \<times> bytes" where
  "B4_UnmarshalJSON h input = unmarshalJSONHelper h input"

definition B8_UnmarshalJSON :: "bytes \<Rightarrow> bytes \<Rightarrow> (err + unit) \<times> bytes" where
  "B8_UnmarshalJSON h input = unmarshalJSONHelper h input"

definition B32_UnmarshalJSON :: "bytes \<Rightarrow> bytes \<Rightarrow> (err + unit) \<times> bytes" where
  "B32_UnmarshalJSON h input = unmarshalJSONHelper h input"

definition B48_UnmarshalJSON :: "bytes \<Rightarrow> bytes \<Rightarrow> (err + unit) \<times> bytes" where
  "B48_UnmarshalJSON h input = unmarshalJSONHelper h input"

definition B96_UnmarshalJSON :: "bytes \<Rightarrow> bytes \<Rightarrow> (err + unit) \<times> bytes" where
  "B96_UnmarshalJSON h input = unmarshalJSONHelper h input"

definition B4_String :: "bytes \<Rightarrow> bytes" where
  "B4_String h = FromBytes h"

definition B8_String :: "bytes \<Rightarrow> bytes" where
  "B8_String h = FromBytes h"

definition B32_String :: "bytes \<Rightarrow> bytes" where
  "B32_String h = FromBytes h"

definition B48_String :: "bytes \<Rightarrow> bytes" where
  "B48_String h = FromBytes h"

definition B96_String :: "bytes \<Rightarrow> bytes" where
  "B96_String h = FromBytes h"

definition B4_UnmarshalText :: "bytes \<Rightarrow> bytes \<Rightarrow> (err + unit) \<times> bytes" where
  "B4_UnmarshalText h txt = UnmarshalTextHelper h txt"

definition B8_UnmarshalText :: "bytes \<Rightarrow> bytes \<Rightarrow> (err + unit) \<times> bytes" where
  "B8_UnmarshalText h txt = UnmarshalTextHelper h txt"

definition B32_UnmarshalText :: "bytes \<Rightarrow> bytes \<Rightarrow> (err + unit) \<times> bytes" where
  "B32_UnmarshalText h txt = UnmarshalTextHelper h txt"

definition B48_UnmarshalText :: "bytes \<Rightarrow> bytes \<Rightarrow> (err + unit) \<times> bytes" where
  "B48_UnmarshalText h txt = UnmarshalTextHelper h txt"

definition B96_UnmarshalText :: "bytes \<Rightarrow> bytes \<Rightarrow> (err + unit) \<times> bytes" where
  "B96_UnmarshalText h txt = UnmarshalTextHelper h txt"

subsection \<open>64-bit numbers\<close>

definition U64_MarshalText :: "u64 \<Rightarrow> bytes" where
  "U64_MarshalText u = MarshalText u"

definition U64_UnmarshalText :: "bytes \<Rightarrow> err + u64" where
  "U64_UnmarshalText input = UnmarshalUint64Text input"

definition U64_UnmarshalJSON :: "bytes \<Rightarrow> err + u64" where
  "U64_UnmarshalJSON input = UnmarshalJSONText input U64_UnmarshalText"

definition Base10 :: "u64 \<Rightarrow> bytes" where
  "Base10 u = FormatUint u 10"

definition GweiPerWei :: u64 where
  "GweiPerWei = 1000000000"

text \<open>
  \<open>Div\<close> is Euclidean division and changes its receiver; \<open>Uint64\<close> returns the low 64 bits of the
  absolute value. The first component is the result, the second the integer afterwards.
\<close>

definition GweiFromWei :: "int \<Rightarrow> u64 \<times> int" where
  "GweiFromWei i = (let i = i div int (unat GweiPerWei) in (of_nat (nat \<bar>i\<bar>), i))"

definition ToWei :: "u64 \<Rightarrow> int" where
  "ToWei u = int (unat u) * int (unat GweiPerWei)"

subsection \<open>256-bit numbers\<close>

definition U256NumBytes :: nat where
  "U256NumBytes = 32"

definition NewU256L :: "bytes \<Rightarrow> err + bytes" where
  "NewU256L bz =
     (if length bz > U256NumBytes then Inl ErrUnexpectedInputLength
      else to_array 32 (ExtendToSize bz U256NumBytes))"

definition MustNewU256L :: "bytes \<Rightarrow> err + bytes" where
  "MustNewU256L bz = (case NewU256L bz of Inl _ \<Rightarrow> Inl (Panic ''MustNewU256L'') | Inr n \<Rightarrow> Inr n)"

definition NewU256LFromBigEndian :: "bytes \<Rightarrow> err + bytes" where
  "NewU256LFromBigEndian b = NewU256L (CopyAndReverseEndianess b)"

definition MustNewU256LFromBigEndian :: "bytes \<Rightarrow> err + bytes" where
  "MustNewU256LFromBigEndian b =
     (case NewU256L (CopyAndReverseEndianess b) of
        Inl _ \<Rightarrow> Inl (Panic ''MustNewU256LFromBigEndian'') | Inr n \<Rightarrow> Inr n)"

definition NewU256LFromBigInt :: "int option \<Rightarrow> err + bytes" where
  "NewU256LFromBigInt b =
     (case b of
        None \<Rightarrow> Inl ErrNilBigInt
      | Some b \<Rightarrow> if b < 0 then Inl ErrNegativeBigInt else NewU256LFromBigEndian (big_Bytes b))"

definition MustNewU256LFromBigInt :: "int option \<Rightarrow> err + bytes" where
  "MustNewU256LFromBigInt b =
     (case NewU256LFromBigInt b of Inl _ \<Rightarrow> Inl (Panic ''MustNewU256LFromBigInt'') | Inr n \<Rightarrow> Inr n)"

definition UnwrapBig :: "bytes \<Rightarrow> int" where
  "UnwrapBig s = big_SetBytes (CopyAndReverseEndianess s)"

definition U256L_MarshalJSON :: "bytes \<Rightarrow> bytes" where
  "U256L_MarshalJSON s = AddQuotes (FromBigInt (UnwrapBig s))"

definition U256L_UnmarshalJSON :: "bytes \<Rightarrow> err + bytes" where
  "U256L_UnmarshalJSON input =
     bindE (ToBigInt (FromJSONString input)) (\<lambda>baseFee.
     to_array 32 (ExtendToSize (CopyAndReverseEndianess (big_Bytes baseFee)) U256NumBytes))"

definition U256L_MarshalSSZ :: "bytes \<Rightarrow> bytes" where
  "U256L_MarshalSSZ s = s"

definition U256L_UnmarshalSSZ :: "bytes \<Rightarrow> err + bytes" where
  "U256L_UnmarshalSSZ buf =
     (if length buf \<noteq> U256NumBytes then Inl ErrUnexpectedInputLength else Inr buf)"

subsection \<open>Reversal\<close>

lemma reverse_loop_nth:
  "j < length xs \<Longrightarrow> length (reverse_loop xs i j) = length xs \<and>
   (\<forall>k < length xs. reverse_loop xs i j ! k = (if i \<le> k \<and> k \<le> j then xs ! (i + j - k) else xs ! k))"
proof (induction xs i j rule: reverse_loop.induct)
  case (1 xs i j)
  show ?case
  proof (cases "i < j")
    case True
    let ?ys = "xs[i := xs ! j, j := xs ! i]"
    have "j - 1 < length ?ys" using 1 by simp
    note IH = 1(1) [OF True this]
    have "reverse_loop xs i j = reverse_loop ?ys (i + 1) (j - 1)"
      using True by (subst reverse_loop.simps) simp
    moreover have "(if i + 1 \<le> k \<and> k \<le> j - 1 then ?ys ! (i + 1 + (j - 1) - k) else ?ys ! k) =
        (if i \<le> k \<and> k \<le> j then xs ! (i + j - k) else xs ! k)" if "k < length xs" for k
    proof -
      consider "k < i" | "k = i" | "k = j" | "i < k" "k < j" | "j < k" by linarith
      then show ?thesis
        using True 1(2) that by cases (auto simp: nth_list_update)
    qed
    ultimately show ?thesis using IH by simp
  next
    case False
    then have "reverse_loop xs i j = xs" by (subst reverse_loop.simps) simp
    moreover have "i + j - k = k" if "i \<le> k" "k \<le> j" for k using False that by linarith
    ultimately show ?thesis by auto
  qed
qed

lemma CopyAndReverse_rev [simp]: "CopyAndReverseEndianess b = rev b"
proof (cases b)
  case Nil
  then show ?thesis by (simp add: CopyAndReverseEndianess_def reverse_loop.simps)
next
  case (Cons c b')
  then have "length b - 1 < length b" by simp
  from reverse_loop_nth [OF this, of 0] show ?thesis
    by (intro nth_equalityI) (auto simp: CopyAndReverseEndianess_def rev_nth)
qed

lemma ExtendToSize_pad: "length b \<le> n \<Longrightarrow> ExtendToSize b n = b @ replicate (n - length b) 0"
  by (simp add: ExtendToSize_def)

subsection \<open>256-bit numbers\<close>

lemma digits_value_replicate_0: "digits_value b (replicate n 0 @ ds) = digits_value b ds"
proof -
  have "digits_value b (replicate n 0) = 0"
  proof (induction n)
    case (Suc n)
    then show ?case using digits_value_simps(3) [of b "replicate n 0" 0] by (simp add: replicate_append_same)
  qed simp
  then show ?thesis by (simp add: digits_value_append)
qed

lemma be_bytes_value [simp]: "digits_value 256 (map unat (be_bytes n)) = n"
proof (induction n rule: be_bytes.induct)
  case (1 n)
  then show ?case
    by (cases "n = 0") (simp_all add: be_bytes.simps [of n] be_bytes.simps [of 0] unat_of_nat_small)
qed

lemma be_bytes_length: "length (be_bytes n) \<le> k \<longleftrightarrow> n < 256 ^ k"
proof (induction n arbitrary: k rule: be_bytes.induct)
  case (1 n)
  show ?case
  proof (cases "n = 0")
    case True
    then show ?thesis by (simp add: be_bytes.simps)
  next
    case False
    then show ?thesis
      using 1 by (cases k) (simp_all add: be_bytes.simps [of n] div_less_iff_less_mult mult.commute)
  qed
qed

lemma digits_value_inj:
  "length xs = length ys \<Longrightarrow> \<forall>d \<in> set xs. d < b \<Longrightarrow> \<forall>d \<in> set ys. d < b \<Longrightarrow>
   digits_value b xs = digits_value b ys \<Longrightarrow> xs = ys"
proof (induction xs arbitrary: ys rule: rev_induct)
  case (snoc x xs)
  then obtain y ys' where ys: "ys = ys' @ [y]" by (cases ys rule: rev_cases) auto
  have eq: "digits_value b xs * b + x = digits_value b ys' * b + y" and xy: "x < b" "y < b"
    using snoc ys by auto
  have "x = y" using arg_cong [OF eq, of "\<lambda>n. n mod b"] xy by simp
  moreover have "digits_value b xs = digits_value b ys'"
    using arg_cong [OF eq, of "\<lambda>n. n div b"] xy by simp
  ultimately show ?case using snoc ys by auto
qed simp

lemma bytes_value_inj:
  assumes "length xs = length ys" "digits_value 256 (map unat xs) = digits_value 256 (map unat (ys :: bytes))"
  shows "xs = ys"
proof -
  have lt: "unat v < 256" for v :: u8 using unsigned_less [of v, where ?'a = nat] by simp
  have "map unat xs = map unat ys"
    using assms lt by (intro digits_value_inj [where b = 256]) auto
  then show ?thesis
    by (rule map_injective) (auto intro!: injI simp: word_unat_eq_iff)
qed

lemma UnwrapBig_value: "UnwrapBig s = int (digits_value 256 (map unat (rev s)))"
  by (simp add: UnwrapBig_def big_SetBytes_def)

lemma UnwrapBig_bounds: "length s = 32 \<Longrightarrow> 0 \<le> UnwrapBig s \<and> UnwrapBig s < 2 ^ 256"
proof -
  assume "length s = 32"
  then have "digits_value 256 (map unat (rev s)) < 256 ^ 32"
    using digits_value_less [of "map unat (rev s)" 256] unsigned_less [where ?'a = nat and ?'b = 8] by simp
  then have "int (digits_value 256 (map unat (rev s))) < int (256 ^ 32)" by (simp only: of_nat_less_iff)
  then show ?thesis by (simp add: UnwrapBig_value)
qed

definition u256_of :: "int \<Rightarrow> bytes" where
  "u256_of v = ExtendToSize (rev (be_bytes (nat v))) 32"

lemma u256_of_props:
  assumes "0 \<le> v" "v < 2 ^ 256"
  shows "length (u256_of v) = 32" "UnwrapBig (u256_of v) = v"
proof -
  have "nat v < 256 ^ 32" using assms by (simp add: nat_less_iff)
  then have len: "length (be_bytes (nat v)) \<le> 32" by (simp add: be_bytes_length)
  then show "length (u256_of v) = 32" by (simp add: u256_of_def ExtendToSize_pad)
  show "UnwrapBig (u256_of v) = v"
    using len assms by (simp add: u256_of_def ExtendToSize_pad UnwrapBig_value digits_value_replicate_0)
qed

lemma u256_of_UnwrapBig: "length s = 32 \<Longrightarrow> u256_of (UnwrapBig s) = s"
proof -
  assume s: "length s = 32"
  have "rev (u256_of (UnwrapBig s)) = rev s"
    using s u256_of_props [of "UnwrapBig s"] UnwrapBig_bounds [OF s]
    by (intro bytes_value_inj) (simp_all add: UnwrapBig_value)
  then show ?thesis by simp
qed

lemma NewU256LFromBigInt_eq:
  "NewU256LFromBigInt (Some v) =
     (if v < 0 then Inl ErrNegativeBigInt else if v < 2 ^ 256 then Inr (u256_of v)
      else Inl ErrUnexpectedInputLength)"
proof (cases "v < 0")
  case False
  then have "length (be_bytes (nat v)) \<le> 32 \<longleftrightarrow> v < 2 ^ 256"
    by (simp add: be_bytes_length nat_less_iff)
  then show ?thesis
    using False u256_of_props(1) [of v]
    by (auto simp: NewU256LFromBigInt_def NewU256LFromBigEndian_def NewU256L_def U256NumBytes_def big_Bytes_def u256_of_def)
qed (simp add: NewU256LFromBigInt_def)


lemma trim_quotes_AddQuotes:
  assumes "s \<noteq> []" "s ! 0 \<noteq> 34" "last s \<noteq> 34"
  shows "trim_quotes (AddQuotes s) = s"
proof -
  have "dropWhile (\<lambda>c. c = 34) (s @ [34]) = s @ [34]" "dropWhile (\<lambda>c. c = 34) (rev s) = rev s"
  proof -
    show "dropWhile (\<lambda>c. c = 34) (s @ [34]) = s @ [34]" using assms by (cases s) simp_all
    show "dropWhile (\<lambda>c. c = 34) (rev s) = rev s" using assms by (cases s rule: rev_cases) simp_all
  qed
  then show ?thesis
    using assms by (simp add: trim_quotes_def AddQuotes_def)
qed

lemma FromBigInt_prefix: "0 \<le> v \<Longrightarrow> FromBigInt v = prefix0x @ map (\<lambda>d. hex_digit (of_nat d)) (base_digits 16 (nat v))"
  by (auto simp: FromBigInt_def big_Text_def base_digits.simps [of 16 0] hex_digit_def)

lemma base_digits_less: "d \<in> set (base_digits 16 n) \<Longrightarrow> d < 16"
  using base_digits_canonical [of 16 n] by (simp add: canonical_def)

lemma FromJSONString_FromBigInt:
  assumes "0 \<le> v"
  shows "FromJSONString (AddQuotes (FromBigInt v)) = FromBigInt v"
proof -
  let ?ds = "base_digits 16 (nat v)"
  have ne: "?ds \<noteq> []" using base_digits_canonical [of 16 "nat v"] by (simp add: canonical_def)
  then have "last ?ds < 16" using base_digits_less [OF last_in_set] by blast
  then have "unat (hex_digit (of_nat (last ?ds))) \<noteq> 34"
    by (subst unat_hex_digit) (simp_all add: unat_of_nat_small word_le_nat_alt)
  then have "last (FromBigInt v) \<noteq> 34"
    using ne assms by (auto simp: FromBigInt_prefix last_map)
  moreover have "FromBigInt v ! 0 \<noteq> 34" "FromBigInt v \<noteq> []"
    using assms by (simp_all add: FromBigInt_prefix) (simp add: prefix0x_def)
  ultimately show ?thesis
    using assms by (simp add: FromJSONString_def trim_quotes_AddQuotes FromBigInt_prefix)
qed

lemma ToBigInt_FromBigInt: "0 \<le> v \<Longrightarrow> v < 2 ^ 256 \<Longrightarrow> ToBigInt (FromBigInt v) = Inr v"
  using to_lower_digits [of "nat v"]
  unfolding ToBigInt_iff by (simp add: FromBigInt_prefix comp_def del: map_eq_conv)

text \<open>
  C39. \<open>U256L\<close> holds exactly the integers from 0 to \<open>2^256 - 1\<close>: \<open>NewU256LFromBigInt\<close> gives an array
  of 32 bytes exactly when that array's little-endian value is the integer, and such an array exists
  exactly for the integers in that range; negative and larger integers are refused. Every array
  survives its JSON form, a quoted hexadecimal number, and its SSZ form.
\<close>

theorem U256L_represents:
  "(NewU256LFromBigInt (Some v) = Inr s \<longleftrightarrow> length s = 32 \<and> UnwrapBig s = v) \<and>
   ((\<exists>s. length s = 32 \<and> UnwrapBig s = v) \<longleftrightarrow> 0 \<le> v \<and> v < 2 ^ 256) \<and>
   (v < 0 \<longrightarrow> NewU256LFromBigInt (Some v) = Inl ErrNegativeBigInt) \<and>
   (2 ^ 256 \<le> v \<longrightarrow> NewU256LFromBigInt (Some v) = Inl ErrUnexpectedInputLength) \<and>
   (length s = 32 \<longrightarrow>
      U256L_UnmarshalJSON (U256L_MarshalJSON s) = Inr s \<and>
      U256L_UnmarshalSSZ (U256L_MarshalSSZ s) = Inr s)"
proof (intro conjI impI)
  show "NewU256LFromBigInt (Some v) = Inr s \<longleftrightarrow> length s = 32 \<and> UnwrapBig s = v"
    using UnwrapBig_bounds [of s] u256_of_UnwrapBig [of s] u256_of_props [of v]
    by (auto simp: NewU256LFromBigInt_eq)
  show "(\<exists>s. length s = 32 \<and> UnwrapBig s = v) \<longleftrightarrow> 0 \<le> v \<and> v < 2 ^ 256"
    using UnwrapBig_bounds u256_of_props [of v] by blast
  show "NewU256LFromBigInt (Some v) = Inl ErrNegativeBigInt" if "v < 0"
    using that by (simp add: NewU256LFromBigInt_eq)
  show "NewU256LFromBigInt (Some v) = Inl ErrUnexpectedInputLength" if "2 ^ 256 \<le> v"
    using that by (simp add: NewU256LFromBigInt_eq)
  assume s: "length s = 32"
  note b = UnwrapBig_bounds [OF s]
  show "U256L_UnmarshalJSON (U256L_MarshalJSON s) = Inr s"
    using b u256_of_UnwrapBig [OF s] s
    by (simp add: U256L_UnmarshalJSON_def U256L_MarshalJSON_def FromJSONString_FromBigInt
        ToBigInt_FromBigInt big_Bytes_def U256NumBytes_def u256_of_def [symmetric])
  show "U256L_UnmarshalSSZ (U256L_MarshalSSZ s) = Inr s"
    using s by (simp add: U256L_UnmarshalSSZ_def U256L_MarshalSSZ_def U256NumBytes_def)
qed

theorem U256L_represents_witness:
  "NewU256LFromBigInt (Some (- 1)) = Inl ErrNegativeBigInt \<and>
   NewU256LFromBigInt (Some (2 ^ 256)) = Inl ErrUnexpectedInputLength \<and>
   U256L_UnmarshalJSON (U256L_MarshalJSON (replicate 32 7)) = Inr (replicate 32 7)"
  using U256L_represents [of "- 1" "[]"] U256L_represents [of "2 ^ 256" "[]"]
    U256L_represents [of 0 "replicate 32 7"]
  by simp

end
