(* ===== verification/FileDB.thy ===== *)
theory FileDB
  imports Encodings
begin

section \<open>The file database and the range database\<close>

text \<open>
  \<open>storage/pkg/filedb\<close>: a key-value store with one file per key, and the range database over it that
  keeps the keys of each index in a directory of its own, so that a range of indices can be pruned.

  The file system (\<open>afero.Fs\<close>) is third-party code: a record of its operations over an arbitrary
  state, with the laws of the locale \<open>file_system\<close>. Its contents are a map from paths, as lists of
  names, to entries. An operation that writes may fail, and then leaves alone what lies outside the path it
  was called with; a read answers what is there, without faults of the medium. The laws are stated for paths that do not leave the root.

  Shown, in the locale and for every such file system: the range database implements a map from
  index and key to values; its documented invariant, that no index below \<open>firstNonNilIndex\<close> is
  populated, is kept by every operation, for \<open>Prune\<close> when it starts at or below that index; its loop
  ends; the index of a prefixed key can be extracted again.
\<close>

subsection \<open>Paths\<close>

text \<open>
  \<open>path/filepath\<close>, on a system whose separator is the slash (47). A path is split at the slashes;
  \<open>Clean\<close> drops empty parts and dots and resolves double dots lexically.
\<close>

fun split_slash :: "bytes \<Rightarrow> bytes list" where
  "split_slash [] = [[]]"
| "split_slash (c # s) =
     (if c = 47 then [] # split_slash s
      else case split_slash s of [] \<Rightarrow> [[c]] | p # ps \<Rightarrow> (c # p) # ps)"

definition dot :: bytes where "dot = [46]"
definition dotdot :: bytes where "dotdot = [46, 46]"

text \<open>The stack of \<open>Clean\<close>, innermost part first. A rooted path drops double dots at the root.\<close>

fun clean_stack :: "bool \<Rightarrow> bytes list \<Rightarrow> bytes list \<Rightarrow> bytes list" where
  "clean_stack rooted st [] = st"
| "clean_stack rooted st (p # ps) =
     (if p = [] \<or> p = dot then clean_stack rooted st ps
      else if p = dotdot
      then (case st of
              [] \<Rightarrow> clean_stack rooted (if rooted then [] else [dotdot]) ps
            | q # qs \<Rightarrow> if q = dotdot then clean_stack rooted (dotdot # st) ps
                        else clean_stack rooted qs ps)
      else clean_stack rooted (p # st) ps)"

definition path_parts :: "bytes \<Rightarrow> bytes list" where
  "path_parts p = rev (clean_stack (p \<noteq> [] \<and> p ! 0 = 47) [] (split_slash p))"

fun join_slash :: "bytes list \<Rightarrow> bytes" where
  "join_slash [] = []"
| "join_slash [p] = p"
| "join_slash (p # q # ps) = p @ [47] @ join_slash (q # ps)"

definition filepath_Clean :: "bytes \<Rightarrow> bytes" where
  "filepath_Clean p =
     (let q = (if p \<noteq> [] \<and> p ! 0 = 47 then [47] else []) @ join_slash (path_parts p)
      in if q = [] then dot else q)"

definition filepath_Dir :: "bytes \<Rightarrow> bytes" where
  "filepath_Dir p = filepath_Clean (rev (dropWhile (\<lambda>c. c \<noteq> 47) (rev p)))"

subsection \<open>The file system\<close>

record ('f, 'h) Fs =
  ReadFile :: "bytes \<Rightarrow> ('f, bytes) M"
  Exists :: "bytes \<Rightarrow> ('f, bool) M"
  MkdirAll :: "bytes \<Rightarrow> u32 \<Rightarrow> ('f, unit) M"
  Create :: "bytes \<Rightarrow> ('f, 'h) M"
  File_Write :: "'h \<Rightarrow> bytes \<Rightarrow> ('f, nat) M"
  File_Close :: "'h \<Rightarrow> ('f, unit) M"
  RemoveAll :: "bytes \<Rightarrow> ('f, unit) M"

subsection \<open>DB\<close>

text \<open>The logger is left out. \<open>rootDir\<close> is only read by \<open>NewDB\<close>.\<close>

record ('f, 'h) DB =
  db_fs :: "('f, 'h) Fs"
  rootDir :: bytes
  extension :: bytes
  dirPerms :: u32

text \<open>
  An option changes the database under construction. \<open>osFs\<close> stands for
  \<open>afero.NewBasePathFs(afero.NewOsFs(), rootDir)\<close>; \<open>noFs\<close> for the nil interface of the zero value.
\<close>

type_synonym ('f, 'h) Option = "('f, 'h) DB \<Rightarrow> err + ('f, 'h) DB"

definition WithAferoFS :: "('f, 'h) Fs \<Rightarrow> ('f, 'h) Option" where
  "WithAferoFS fs db = Inr (db\<lparr>db_fs := fs\<rparr>)"

definition WithDirectoryPermissions :: "u32 \<Rightarrow> ('f, 'h) Option" where
  "WithDirectoryPermissions permissions db = Inr (db\<lparr>dirPerms := permissions\<rparr>)"

definition WithFileExtension :: "bytes \<Rightarrow> ('f, 'h) Option" where
  "WithFileExtension ext db = Inr (db\<lparr>extension := ext\<rparr>)"

definition WithRootDirectory :: "bytes \<Rightarrow> ('f, 'h) Option" where
  "WithRootDirectory root db = Inr (db\<lparr>rootDir := root\<rparr>)"

fun apply_options :: "('f, 'h) Option list \<Rightarrow> ('f, 'h) Option" where
  "apply_options [] db = Inr db"
| "apply_options (opt # opts) db =
     (case opt db of
        Inl _ \<Rightarrow> Inl (Panic ''failed to apply option'')
      | Inr db \<Rightarrow> apply_options opts db)"

definition NewDB :: "(bytes \<Rightarrow> ('f, 'h) Fs) \<Rightarrow> ('f, 'h) Fs \<Rightarrow> ('f, 'h) Option list \<Rightarrow> err + ('f, 'h) DB" where
  "NewDB osFs noFs opts =
     bindE (apply_options opts \<lparr>db_fs = noFs, rootDir = [], extension = [], dirPerms = 0\<rparr>) (\<lambda>db.
     Inr (db\<lparr>db_fs := osFs (rootDir db)\<rparr>))"

definition pathForKey :: "('f, 'h) DB \<Rightarrow> bytes \<Rightarrow> bytes" where
  "pathForKey db key = key @ dot @ extension db"

definition DB_Get :: "('f, 'h) DB \<Rightarrow> bytes \<Rightarrow> ('f, bytes) M" where
  "DB_Get db key = ReadFile (db_fs db) (pathForKey db key)"

definition DB_Has :: "('f, 'h) DB \<Rightarrow> bytes \<Rightarrow> ('f, bool) M" where
  "DB_Has db key = Exists (db_fs db) (pathForKey db key)"

text \<open>
  The deferred \<open>Close\<close> runs after the write whatever its result; its own error is dropped. The
  existence check only decides about a warning.
\<close>

definition DB_Set :: "('f, 'h) DB \<Rightarrow> bytes \<Rightarrow> bytes \<Rightarrow> ('f, unit) M" where
  "DB_Set db key value =
     bindM (Exists (db_fs db) (pathForKey db key)) (\<lambda>_.
     bindM (MkdirAll (db_fs db) (filepath_Dir (pathForKey db key)) (dirPerms db)) (\<lambda>_.
     bindM (Create (db_fs db) (pathForKey db key)) (\<lambda>file.
     (\<lambda>f. let (r, f) = File_Write (db_fs db) file value f;
              (_, f) = File_Close (db_fs db) file f
          in (bindE r (\<lambda>_. Inr ()), f)))))"

definition DB_Delete :: "('f, 'h) DB \<Rightarrow> bytes \<Rightarrow> ('f, unit) M" where
  "DB_Delete db key = RemoveAll (db_fs db) (pathForKey db key)"

subsection \<open>RangeDB\<close>

text \<open>
  The interface \<open>db.DB\<close> (\<open>storage/pkg/interfaces\<close>), with the result of the type assertion to \<open>*DB\<close>
  that \<open>DeleteRange\<close> makes.
\<close>

record ('f, 'h) DB_interface =
  if_Get :: "bytes \<Rightarrow> ('f, bytes) M"
  if_Has :: "bytes \<Rightarrow> ('f, bool) M"
  if_Set :: "bytes \<Rightarrow> bytes \<Rightarrow> ('f, unit) M"
  if_Delete :: "bytes \<Rightarrow> ('f, unit) M"
  if_file :: "('f, 'h) DB option"

definition file_interface :: "('f, 'h) DB \<Rightarrow> ('f, 'h) DB_interface" where
  "file_interface db = \<lparr>if_Get = DB_Get db, if_Has = DB_Has db, if_Set = DB_Set db,
     if_Delete = DB_Delete db, if_file = Some db\<rparr>"

record 'f RangeDB =
  under :: 'f
  firstNonNilIndex :: u64

definition NewRangeDB :: "'f \<Rightarrow> 'f RangeDB" where
  "NewRangeDB f = \<lparr>under = f, firstNonNilIndex = 0\<rparr>"

definition on_under :: "('f, 'a) M \<Rightarrow> ('f RangeDB, 'a) M" where
  "on_under m r = (let (a, f) = m (under r) in (a, r\<lparr>under := f\<rparr>))"

definition key_prefix :: "u64 \<Rightarrow> bytes \<Rightarrow> bytes" where
  "key_prefix index key = FormatUint index 10 @ [47] @ FromBytes key"

definition RangeDB_Get :: "('f, 'h) DB_interface \<Rightarrow> u64 \<Rightarrow> bytes \<Rightarrow> ('f RangeDB, bytes) M" where
  "RangeDB_Get d index key = on_under (if_Get d (key_prefix index key))"

definition RangeDB_Has :: "('f, 'h) DB_interface \<Rightarrow> u64 \<Rightarrow> bytes \<Rightarrow> ('f RangeDB, bool) M" where
  "RangeDB_Has d index key = on_under (if_Has d (key_prefix index key))"

definition RangeDB_Set :: "('f, 'h) DB_interface \<Rightarrow> u64 \<Rightarrow> bytes \<Rightarrow> bytes \<Rightarrow> ('f RangeDB, unit) M" where
  "RangeDB_Set d index key value r =
     on_under (if_Set d (key_prefix index key) value)
       (if index < firstNonNilIndex r then r\<lparr>firstNonNilIndex := index\<rparr> else r)"

definition RangeDB_Delete :: "('f, 'h) DB_interface \<Rightarrow> u64 \<Rightarrow> bytes \<Rightarrow> ('f RangeDB, unit) M" where
  "RangeDB_Delete d index key = on_under (if_Delete d (key_prefix index key))"

function delete_loop :: "('f, 'h) DB \<Rightarrow> u64 \<Rightarrow> u64 \<Rightarrow> ('f, unit) M" where
  "delete_loop db from to =
     (if from < to
      then bindM (RemoveAll (db_fs db) (FormatUint from 10 @ [47])) (\<lambda>_. delete_loop db (from + 1) to)
      else ret ())"
  by pat_completeness auto

termination
  by (relation "measure (\<lambda>(db, from, to). unat to - unat from)")
    (auto simp: unat_plus_one word_less_nat_alt)

declare delete_loop.simps [simp del]

definition DeleteRange :: "('f, 'h) DB_interface \<Rightarrow> u64 \<Rightarrow> u64 \<Rightarrow> ('f RangeDB, unit) M" where
  "DeleteRange d from to =
     (case if_file d of
        None \<Rightarrow> throw (Newf ''rangedb: delete range not supported for this db'')
      | Some f \<Rightarrow> on_under (delete_loop f from to))"

definition RangeDB_Prune :: "('f, 'h) DB_interface \<Rightarrow> u64 \<Rightarrow> u64 \<Rightarrow> ('f RangeDB, unit) M" where
  "RangeDB_Prune d start end' r =
     (let start = max start (firstNonNilIndex r) in
      case DeleteRange d start end' r of
        (Inl e, r) \<Rightarrow> (Inl e, r\<lparr>firstNonNilIndex := 0\<rparr>)
      | (Inr _, r) \<Rightarrow> (Inr (), r\<lparr>firstNonNilIndex := end'\<rparr>))"

text \<open>\<open>bytes.SplitN\<close> with a limit of two, at the first slash.\<close>

definition ExtractIndex :: "bytes \<Rightarrow> err + u64" where
  "ExtractIndex prefixedKey =
     (if 47 \<notin> set prefixedKey then Inl (Newf ''invalid key format'')
      else case ParseUint (takeWhile (\<lambda>c. c \<noteq> 47) prefixedKey) 10 of
             Inl e \<Rightarrow> Inl (Newf ''invalid index'')
           | Inr index \<Rightarrow> Inr index)"

subsection \<open>Keys and paths\<close>

abbreviation dec :: "u64 \<Rightarrow> bytes" where
  "dec i \<equiv> FormatUint i 10"

lemma dec_digits: "dec i = map (\<lambda>d. hex_digit (of_nat d)) (base_digits 10 (unat i))"
  by (simp add: FormatUint_def AppendUint_def)

lemma base_digits_10:
  "base_digits 10 n \<noteq> []" "d \<in> set (base_digits 10 n) \<Longrightarrow> d < 10"
  using base_digits_canonical [of 10 n] by (auto simp: canonical_def)

lemma dec_chars: "c \<in> set (dec i) \<Longrightarrow> 48 \<le> unat c \<and> unat c \<le> 57"
proof -
  assume "c \<in> set (dec i)"
  then obtain d where "d < 10" "c = hex_digit (of_nat d)"
    by (auto simp: dec_digits dest: base_digits_10(2))
  then show ?thesis by (simp add: unat_hex_digit unat_of_nat_small word_le_nat_alt)
qed

lemma dec_nonempty [simp]: "dec i \<noteq> []"
  by (simp add: dec_digits base_digits_10)

lemma ParseUint_dec: "ParseUint (dec i) 10 = Inr i"
proof -
  have vals: "digit_values (dec i) = base_digits 10 (unat i)"
  proof -
    have "unat (reverseHexTable (hex_digit (of_nat d))) = d" if "d < 10" for d
      using that by (simp add: reverseHexTable_digit unat_of_nat_small word_le_nat_alt)
    then have "map (\<lambda>d. unat (reverseHexTable (hex_digit (of_nat d)))) (base_digits 10 (unat i)) =
        map (\<lambda>d. d) (base_digits 10 (unat i))"
      by (intro map_cong refl) (simp add: base_digits_10(2))
    then show ?thesis by (simp add: dec_digits digit_values_def comp_def)
  qed
  have "\<forall>c \<in> set (dec i). unat (reverseHexTable c) < 10"
    using dec_chars by (fastforce simp: reverseHexTable_unat)
  moreover have "foldl (\<lambda>n d. n * 10 + d) 0 (digit_values (dec i)) = unat i"
    using base_digits_canonical [of 10 "unat i"] by (simp add: vals digits_value_def)
  ultimately show ?thesis
    using parse_digits_value [of 10 0 "dec i" i] by (simp add: ParseUint_def)
qed

lemma dec_inj [simp]: "dec i = dec j \<longleftrightarrow> i = j"
  by (metis ParseUint_dec sum.inject(2))

lemma FromBytes_eq: "FromBytes k = 48 # 120 # hex_Encode k"
  using NewString_prefix [of "hex_Encode k"] by (simp add: FromBytes_def prefix0x_def)

lemma FromBytes_inj [simp]: "FromBytes k = FromBytes k' \<longleftrightarrow> k = k'"
proof
  assume "FromBytes k = FromBytes k'"
  then have "hex_Encode k = hex_Encode k'" by (simp add: FromBytes_def)
  then show "k = k'"
    using UnmarshalByteText_iff [of "prefix0x @ hex_Encode k" k] UnmarshalByteText_iff [of "prefix0x @ hex_Encode k" k']
    by simp
qed simp

lemma FromBytes_chars: "c \<in> set (FromBytes k) \<Longrightarrow> 48 \<le> unat c"
proof -
  assume "c \<in> set (FromBytes k)"
  then have "c = 48 \<or> c = 120 \<or> hex_char c"
    using hex_Encode_chars by (auto simp: FromBytes_eq)
  then show ?thesis by (auto simp: hex_char_value reverseHexTable_unat split: if_splits)
qed

lemma slash_free: "47 \<notin> set (dec i)" "47 \<notin> set (FromBytes k)"
  using dec_chars [of 47 i] FromBytes_chars [of 47 k] by auto

lemma split_slash_free: "47 \<notin> set p \<Longrightarrow> split_slash p = [p]"
  by (induction p) auto

lemma split_slash_append: "47 \<notin> set p \<Longrightarrow> split_slash (p @ 47 # q) = p # split_slash q"
  by (induction p) auto

definition plain_name :: "bytes \<Rightarrow> bool" where
  "plain_name p \<longleftrightarrow> 47 \<notin> set p \<and> p \<noteq> [] \<and> p \<noteq> dot \<and> p \<noteq> dotdot"

lemma plain_nameI: "47 \<notin> set p \<Longrightarrow> p \<noteq> [] \<Longrightarrow> p ! 0 \<noteq> 46 \<Longrightarrow> plain_name p"
  by (auto simp: plain_name_def dot_def dotdot_def)

lemma plain_name_first: "plain_name p \<Longrightarrow> p ! 0 \<noteq> 47"
  by (cases p) (auto simp: plain_name_def)

lemma plain_dec [simp]: "plain_name (dec i)"
proof (rule plain_nameI)
  have "dec i ! 0 \<in> set (dec i)" by simp
  then show "dec i ! 0 \<noteq> 46" using dec_chars by fastforce
qed (simp_all add: slash_free)

lemma plain_parts:
  assumes "plain_name p" "plain_name q"
  shows "path_parts p = [p]" "path_parts (p @ [47]) = [p]" "path_parts (p @ 47 # q) = [p, q]"
proof -
  have "p ! 0 \<noteq> 47" "q ! 0 \<noteq> 47" using assms plain_name_first by auto
  then show "path_parts p = [p]" "path_parts (p @ [47]) = [p]" "path_parts (p @ 47 # q) = [p, q]"
    using assms by (simp_all add: path_parts_def plain_name_def split_slash_free split_slash_append nth_append)
qed

lemma Dir_plain:
  assumes "plain_name p" "plain_name q"
  shows "filepath_Dir (p @ 47 # q) = p"
proof -
  have "dropWhile (\<lambda>c. c \<noteq> 47) (rev q @ 47 # rev p) = 47 # rev p"
    using assms by (subst dropWhile_append2) (auto simp: plain_name_def)
  moreover have "p ! 0 \<noteq> 47" using assms plain_name_first by auto
  ultimately show ?thesis
    using assms plain_parts(2) [OF assms]
    by (simp add: filepath_Dir_def filepath_Clean_def nth_append plain_name_def)
qed

text \<open>The name of the file of a key below the directory of its index.\<close>

definition key_name :: "('f, 'h) DB \<Rightarrow> bytes \<Rightarrow> bytes" where
  "key_name db key = FromBytes key @ dot @ extension db"

definition extension_ok :: "('f, 'h) DB \<Rightarrow> bool" where
  "extension_ok db \<longleftrightarrow> 47 \<notin> set (extension db)"

lemma key_name_inj [simp]: "key_name db k = key_name db k' \<longleftrightarrow> k = k'"
  by (simp add: key_name_def)

lemma plain_key_name: "extension_ok db \<Longrightarrow> plain_name (key_name db key)"
  using slash_free(2) [of key]
  by (intro plain_nameI) (auto simp: key_name_def extension_ok_def dot_def FromBytes_eq)

lemma key_path:
  assumes "extension_ok db"
  shows "path_parts (pathForKey db (key_prefix i k)) = [dec i, key_name db k]"
    and "path_parts (filepath_Dir (pathForKey db (key_prefix i k))) = [dec i]"
    and "path_parts (dec i @ [47]) = [dec i]"
proof -
  have path: "pathForKey db (key_prefix i k) = dec i @ 47 # key_name db k"
    by (simp add: pathForKey_def key_prefix_def key_name_def)
  note plain = plain_dec [of i] plain_key_name [OF assms, of k]
  show "path_parts (pathForKey db (key_prefix i k)) = [dec i, key_name db k]"
    unfolding path by (rule plain_parts(3) [OF plain])
  show "path_parts (filepath_Dir (pathForKey db (key_prefix i k))) = [dec i]"
    unfolding path Dir_plain [OF plain] by (rule plain_parts(1) [OF plain])
  show "path_parts (dec i @ [47]) = [dec i]" by (rule plain_parts(2) [OF plain])
qed

lemma ExtractIndex_key_prefix: "ExtractIndex (key_prefix i k) = Inr i"
proof -
  have "takeWhile (\<lambda>c. c \<noteq> 47) (dec i @ 47 # FromBytes k) = dec i"
    using slash_free(1) [of i] by (subst takeWhile_append2) auto
  then show ?thesis by (simp add: ExtractIndex_def key_prefix_def ParseUint_dec)
qed

subsection \<open>Laws of the file system\<close>

datatype entry = File bytes | Dir

definition below :: "bytes list \<Rightarrow> bytes list \<Rightarrow> bool" where
  "below ps qs \<longleftrightarrow> take (length ps) qs = ps"

text \<open>
  \<open>view\<close> gives the entries. Reading a file or asking whether an entry exists does not fail on what is
  there; the operations that write may fail. \<open>MkdirAll\<close> adds directories on the way to its path,
  \<open>Create\<close> truncates or makes one file and the write that follows determines its contents,
  \<open>RemoveAll\<close> removes an entry and all below it, or part of that when it fails.
\<close>

locale file_system =
  fixes fs :: "('f, 'h) Fs" and view :: "'f \<Rightarrow> bytes list \<Rightarrow> entry option"
  assumes ReadFile_law: "dotdot \<notin> set (path_parts p) \<Longrightarrow> ReadFile fs p f = (r, f') \<Longrightarrow>
      view f' = view f \<and> (\<forall>c. r = Inr c \<longleftrightarrow> view f (path_parts p) = Some (File c))"
    and Exists_law: "dotdot \<notin> set (path_parts p) \<Longrightarrow> Exists fs p f = (rb, f') \<Longrightarrow>
      view f' = view f \<and> rb = Inr (view f (path_parts p) \<noteq> None)"
    and MkdirAll_law: "dotdot \<notin> set (path_parts p) \<Longrightarrow> MkdirAll fs p perm f = (ru, f') \<Longrightarrow>
      view f' qs = view f qs \<or> below qs (path_parts p) \<and> view f qs = None \<and> view f' qs = Some Dir"
    and Create_error_law: "dotdot \<notin> set (path_parts p) \<Longrightarrow> Create fs p f = (Inl e, f') \<Longrightarrow> view f' = view f"
    and Write_law: "dotdot \<notin> set (path_parts p) \<Longrightarrow> Create fs p f = (Inr h, f1) \<Longrightarrow>
      File_Write fs h v f1 = (rn, f2) \<Longrightarrow> File_Close fs h f2 = (ru, f3) \<Longrightarrow>
      \<exists>c. view f3 = (view f)(path_parts p \<mapsto> File c) \<and> (\<forall>n. rn = Inr n \<longrightarrow> c = v)"
    and RemoveAll_law: "dotdot \<notin> set (path_parts p) \<Longrightarrow> RemoveAll fs p f = (ru, f') \<Longrightarrow>
      (view f' qs = view f qs \<or> below (path_parts p) qs \<and> view f' qs = None) \<and>
      (ru = Inr () \<longrightarrow> below (path_parts p) qs \<longrightarrow> view f' qs = None)"

text \<open>
  The contents of a range database are the files of its keys; a directory never stands where the
  file of a key would. \<open>lower_bound\<close> is the invariant that the source documents.
\<close>

definition range_contents ::
  "('f \<Rightarrow> bytes list \<Rightarrow> entry option) \<Rightarrow> ('f, 'h) DB \<Rightarrow> 'f RangeDB \<Rightarrow> u64 \<times> bytes \<rightharpoonup> bytes" where
  "range_contents view db r = (\<lambda>(i, k).
     case view (under r) [dec i, key_name db k] of Some (File c) \<Rightarrow> Some c | _ \<Rightarrow> None)"

definition range_no_dirs ::
  "('f \<Rightarrow> bytes list \<Rightarrow> entry option) \<Rightarrow> ('f, 'h) DB \<Rightarrow> 'f RangeDB \<Rightarrow> bool" where
  "range_no_dirs view db r \<longleftrightarrow> (\<forall>i k. view (under r) [dec i, key_name db k] \<noteq> Some Dir)"

definition lower_bound ::
  "('f \<Rightarrow> bytes list \<Rightarrow> entry option) \<Rightarrow> ('f, 'h) DB \<Rightarrow> 'f RangeDB \<Rightarrow> bool" where
  "lower_bound view db r \<longleftrightarrow>
     (\<forall>i k. i < firstNonNilIndex r \<longrightarrow> range_contents view db r (i, k) = None)"

locale range_files = file_system fs view
  for fs :: "('f, 'h) Fs" and view :: "'f \<Rightarrow> bytes list \<Rightarrow> entry option" +
  fixes db :: "('f, 'h) DB"
  assumes db_fs: "db_fs db = fs" and ext: "extension_ok db"
begin

abbreviation contents :: "'f RangeDB \<Rightarrow> u64 \<times> bytes \<rightharpoonup> bytes" where
  "contents \<equiv> range_contents view db"

abbreviation no_dirs :: "'f RangeDB \<Rightarrow> bool" where
  "no_dirs \<equiv> range_no_dirs view db"

lemmas contents_def = range_contents_def
lemmas no_dirs_def = range_no_dirs_def

lemma key_inside:
  "dotdot \<notin> set (path_parts (pathForKey db (key_prefix i k)))"
  "dotdot \<notin> set (path_parts (filepath_Dir (pathForKey db (key_prefix i k))))"
  "dotdot \<notin> set (path_parts (dec i @ [47]))"
  using key_path [OF ext] plain_dec [of i] plain_key_name [OF ext, of k]
  by (auto simp: plain_name_def)

lemmas paths = key_path [OF ext] key_inside

lemma contents_eqI: "view (under r') = view (under r) \<Longrightarrow> contents r' = contents r"
  by (simp add: contents_def)

lemma Get_contents:
  "RangeDB_Get (file_interface db) i k r = (a, r') \<Longrightarrow>
   contents r' = contents r \<and> no_dirs r' = no_dirs r \<and> firstNonNilIndex r' = firstNonNilIndex r \<and>
   (\<forall>v. a = Inr v \<longleftrightarrow> contents r (i, k) = Some v)"
  using ReadFile_law [OF paths(4), of i k "under r"]
  by (auto simp: RangeDB_Get_def file_interface_def DB_Get_def on_under_def db_fs paths contents_def no_dirs_def
      split: prod.splits option.splits entry.splits)

lemma Has_contents:
  "no_dirs r \<Longrightarrow> RangeDB_Has (file_interface db) i k r = (a, r') \<Longrightarrow>
   contents r' = contents r \<and> no_dirs r' \<and> firstNonNilIndex r' = firstNonNilIndex r \<and>
   a = Inr (contents r (i, k) \<noteq> None)"
  using Exists_law [OF paths(4), of i k "under r"]
  by (auto simp: RangeDB_Has_def file_interface_def DB_Has_def on_under_def db_fs paths contents_def no_dirs_def
      split: prod.splits option.splits entry.splits)

lemma below_simps:
  "below [p, q] [d] \<longleftrightarrow> False"
  "below [d] [p, q] \<longleftrightarrow> d = p"
  "below [p, q] [p', q'] \<longleftrightarrow> p = p' \<and> q = q'"
  by (auto simp: below_def)

lemma DB_Set_view:
  assumes "DB_Set db (key_prefix i k) v f = (a, f')"
  shows "(view f' [dec j, key_name db l] = view f [dec j, key_name db l] \<or>
      j = i \<and> l = k \<and> (\<exists>c. view f' [dec j, key_name db l] = Some (File c))) \<and>
    (a = Inr () \<longrightarrow> view f' [dec i, key_name db k] = Some (File v))"
proof -
  let ?p = "pathForKey db (key_prefix i k)"
  obtain r1 f1 where e: "Exists fs ?p f = (r1, f1)" by fastforce
  then have v1: "view f1 = view f" "\<exists>b. r1 = Inr b" using Exists_law [OF paths(4) e] by auto
  obtain r2 f2 where m: "MkdirAll fs (filepath_Dir ?p) (dirPerms db) f1 = (r2, f2)" by fastforce
  have v2: "view f2 [dec j, key_name db l] = view f [dec j, key_name db l]" for j l
    using MkdirAll_law [OF paths(5) m, of "[dec j, key_name db l]"] v1 by (auto simp: paths below_simps)
  show ?thesis
  proof (cases r2)
    case (Inl e2)
    then show ?thesis using assms e m v1 v2 by (auto simp: DB_Set_def db_fs)
  next
    case (Inr u)
    obtain r3 f3 where c: "Create fs ?p f2 = (r3, f3)" by fastforce
    show ?thesis
    proof (cases r3)
      case (Inl e3)
      then have "view f3 = view f2" using c Create_error_law [OF paths(4)] by blast
      then show ?thesis using assms e m v1 v2 c Inl Inr by (auto simp: DB_Set_def db_fs)
    next
      case (Inr h)
      obtain r4 f4 where w: "File_Write fs h v f3 = (r4, f4)" by fastforce
      obtain r5 f5 where cl: "File_Close fs h f4 = (r5, f5)" by fastforce
      obtain x where x: "view f5 = (view f2)([dec i, key_name db k] \<mapsto> File x)" "\<forall>n. r4 = Inr n \<longrightarrow> x = v"
        using Write_law [OF paths(4) c [unfolded Inr] w cl] by (auto simp: paths)
      have "a = bindE r4 (\<lambda>_. Inr ())" "f' = f5"
        using assms e m v1 c w cl Inr \<open>r2 = Inr u\<close> by (auto simp: DB_Set_def db_fs)
      then show ?thesis using x v2 by (cases r4) auto
    qed
  qed
qed

lemma Set_contents:
  assumes "RangeDB_Set (file_interface db) i k v r = (a, r')"
  shows "firstNonNilIndex r' = min i (firstNonNilIndex r)"
    and "no_dirs r \<Longrightarrow> no_dirs r'"
    and "p \<noteq> (i, k) \<Longrightarrow> contents r' p = contents r p"
    and "a = Inr () \<Longrightarrow> contents r' = (contents r)((i, k) \<mapsto> v)"
proof -
  obtain f' where s: "DB_Set db (key_prefix i k) v (under r) = (a, f')" and f': "under r' = f'"
    and first: "firstNonNilIndex r' = min i (firstNonNilIndex r)"
    using assms
    by (cases "i < firstNonNilIndex r")
      (auto simp: RangeDB_Set_def file_interface_def on_under_def min_absorb1 min_absorb2 not_less less_imp_le
        split: prod.splits)
  note V = DB_Set_view [OF s]
  show "firstNonNilIndex r' = min i (firstNonNilIndex r)" by fact
  show "no_dirs r'" if "no_dirs r"
    unfolding no_dirs_def f'
  proof (intro allI)
    fix j l show "view f' [dec j, key_name db l] \<noteq> Some Dir"
      using V [of j l] that by (auto simp: no_dirs_def)
  qed
  show other: "contents r' p = contents r p" if "p \<noteq> (i, k)" for p
    using V [of "fst p" "snd p"] that by (cases p) (auto simp: contents_def f')
  show "contents r' = (contents r)((i, k) \<mapsto> v)" if "a = Inr ()"
    using V [of i k] that other by (auto simp: contents_def f')
qed

lemma delete_loop_view:
  "delete_loop db i n f = (a, f') \<Longrightarrow>
   (view f' [dec j, key_name db l] = view f [dec j, key_name db l] \<or>
      i \<le> j \<and> j < n \<and> view f' [dec j, key_name db l] = None) \<and>
   (a = Inr () \<longrightarrow> i \<le> j \<longrightarrow> j < n \<longrightarrow> view f' [dec j, key_name db l] = None)"
proof (induction "unat n - unat i" arbitrary: i f rule: less_induct)
  case less
  show ?case
  proof (cases "i < n")
    case False
    then show ?thesis using less.prems by (auto simp: delete_loop.simps [of db i n])
  next
    case True
    obtain r1 f1 where rm: "RemoveAll fs (dec i @ [47]) f = (r1, f1)" by fastforce
    have V1: "(view f1 [dec j, key_name db l] = view f [dec j, key_name db l] \<or>
        i = j \<and> view f1 [dec j, key_name db l] = None) \<and>
      (r1 = Inr () \<longrightarrow> i = j \<longrightarrow> view f1 [dec j, key_name db l] = None)"
      using RemoveAll_law [OF paths(6) rm, of "[dec j, key_name db l]"] by (auto simp: paths below_simps)
    show ?thesis
    proof (cases r1)
      case (Inl e)
      then show ?thesis
        using less.prems V1 True rm by (auto simp: delete_loop.simps [of db i n] db_fs)
    next
      case (Inr u)
      then have rest: "delete_loop db (i + 1) n f1 = (a, f')"
        using less.prems True rm by (simp add: delete_loop.simps [of db i n] db_fs)
      have dec: "unat n - unat (i + 1) < unat n - unat i"
        using True by (simp add: unat_plus_one word_less_nat_alt)
      have le: "i + 1 \<le> j \<longleftrightarrow> i < j" for j
        using True unat_plus_one [OF True] by (simp add: word_le_nat_alt word_less_nat_alt Suc_le_eq)
      have "i \<le> j \<longleftrightarrow> i = j \<or> i < j" by auto
      then show ?thesis
        using less.hyps [OF dec rest] V1 Inr True unfolding le by auto
    qed
  qed
qed

lemma Prune_contents:
  assumes "RangeDB_Prune (file_interface db) start end' r = (a, r')"
  shows "no_dirs r \<Longrightarrow> no_dirs r'"
    and "contents r' (i, k) = contents r (i, k) \<or>
           max start (firstNonNilIndex r) \<le> i \<and> i < end' \<and> contents r' (i, k) = None"
    and "a = Inr () \<Longrightarrow> firstNonNilIndex r' = end' \<and>
           (max start (firstNonNilIndex r) \<le> i \<longrightarrow> i < end' \<longrightarrow> contents r' (i, k) = None)"
    and "a \<noteq> Inr () \<Longrightarrow> firstNonNilIndex r' = 0"
proof -
  let ?s = "max start (firstNonNilIndex r)"
  obtain f' where l: "delete_loop db ?s end' (under r) = (a, f')" and f': "under r' = f'"
    and first: "firstNonNilIndex r' = (if a = Inr () then end' else 0)"
    using assms
    by (auto simp: RangeDB_Prune_def DeleteRange_def file_interface_def on_under_def Let_def
        split: prod.splits sum.splits)
  note V = delete_loop_view [OF l]
  show "no_dirs r'" if "no_dirs r"
    unfolding no_dirs_def f'
  proof (intro allI)
    fix j m show "view f' [dec j, key_name db m] \<noteq> Some Dir"
      using V [of j m] that by (auto simp: no_dirs_def)
  qed
  show "contents r' (i, k) = contents r (i, k) \<or> ?s \<le> i \<and> i < end' \<and> contents r' (i, k) = None"
    using V [of i k] by (auto simp: contents_def f')
  show "firstNonNilIndex r' = end' \<and> (?s \<le> i \<longrightarrow> i < end' \<longrightarrow> contents r' (i, k) = None)" if "a = Inr ()"
    using V [of i k] that first by (auto simp: contents_def f')
  show "firstNonNilIndex r' = 0" if "a \<noteq> Inr ()" using that first by simp
qed

lemma Delete_contents:
  assumes "RangeDB_Delete (file_interface db) i k r = (a, r')"
  shows "firstNonNilIndex r' = firstNonNilIndex r"
    and "no_dirs r \<Longrightarrow> no_dirs r'"
    and "contents r' p = contents r p \<or> p = (i, k) \<and> contents r' p = None"
    and "a = Inr () \<Longrightarrow> contents r' = (contents r)((i, k) := None)"
proof -
  obtain f' where rm: "RemoveAll fs (pathForKey db (key_prefix i k)) (under r) = (a, f')"
    and r': "r' = r\<lparr>under := f'\<rparr>"
    using assms by (auto simp: RangeDB_Delete_def file_interface_def DB_Delete_def on_under_def db_fs split: prod.splits)
  have V: "(view f' [dec j, key_name db l] = view (under r) [dec j, key_name db l] \<or>
        j = i \<and> l = k \<and> view f' [dec j, key_name db l] = None) \<and>
      (a = Inr () \<longrightarrow> j = i \<longrightarrow> l = k \<longrightarrow> view f' [dec j, key_name db l] = None)" for j l
    using RemoveAll_law [OF paths(4) rm, of "[dec j, key_name db l]"] by (auto simp: paths below_simps)
  show "firstNonNilIndex r' = firstNonNilIndex r" by (simp add: r')
  show "no_dirs r'" if "no_dirs r"
    unfolding no_dirs_def r'
  proof (intro allI)
    fix j m show "view (under (r\<lparr>under := f'\<rparr>)) [dec j, key_name db m] \<noteq> Some Dir"
      using V [of j m] that by (auto simp: no_dirs_def)
  qed
  show other: "contents r' p = contents r p \<or> p = (i, k) \<and> contents r' p = None" for p
    using V [of "fst p" "snd p"] by (cases p) (auto simp: contents_def r')
  show "contents r' = (contents r)((i, k) := None)" if "a = Inr ()"
  proof
    fix p show "contents r' p = ((contents r)((i, k) := None)) p"
      using V [of "fst p" "snd p"] that other [of p] by (cases p) (auto simp: contents_def r')
  qed
qed

lemma lower_bound_Set: "lower_bound view db r \<Longrightarrow> RangeDB_Set (file_interface db) i k v r = (a, r') \<Longrightarrow> lower_bound view db r'"
  using Set_contents(1,3) [of i k v r a r'] unfolding lower_bound_def
  by (metis (no_types, lifting) min_less_iff_conj order_less_irrefl prod.inject)

lemma lower_bound_Delete: "lower_bound view db r \<Longrightarrow> RangeDB_Delete (file_interface db) i k r = (a, r') \<Longrightarrow> lower_bound view db r'"
  using Delete_contents(1,3) [of i k r a r'] unfolding lower_bound_def by metis

lemma lower_bound_Prune:
  assumes "lower_bound view db r" "start \<le> firstNonNilIndex r"
    and "RangeDB_Prune (file_interface db) start end' r = (a, r')"
  shows "lower_bound view db r'"
proof (cases "a = Inr ()")
  case True
  have "contents r' (i, k) = None" if "i < end'" for i k
    using Prune_contents(2,3) [OF assms(3), of i k] True assms(1,2) that
    by (cases "i < firstNonNilIndex r") (auto simp: lower_bound_def max_absorb2)
  then show ?thesis using Prune_contents(3) [OF assms(3) True] by (auto simp: lower_bound_def)
next
  case False
  then show ?thesis using Prune_contents(4) [OF assms(3)] by (simp add: lower_bound_def)
qed

end

subsection \<open>A file system in memory\<close>

definition mem_fs :: "(bytes list \<Rightarrow> entry option, bytes list) Fs" where
  "mem_fs = \<lparr>
     ReadFile = (\<lambda>p f. (case f (path_parts p) of Some (File c) \<Rightarrow> Inr c | _ \<Rightarrow> Inl ErrNotFound, f)),
     Exists = (\<lambda>p f. (Inr (f (path_parts p) \<noteq> None), f)),
     MkdirAll = (\<lambda>p perm f.
       if \<exists>n \<le> length (path_parts p). \<exists>c. f (take n (path_parts p)) = Some (File c)
       then (Inl (Ext ''not a directory''), f)
       else (Inr (), \<lambda>qs. if below qs (path_parts p) \<and> f qs = None then Some Dir else f qs)),
     Create = (\<lambda>p f.
       if f (path_parts p) = Some Dir \<or> f (butlast (path_parts p)) \<noteq> Some Dir
       then (Inl (Ext ''cannot create''), f)
       else (Inr (path_parts p), f(path_parts p \<mapsto> File []))),
     File_Write = (\<lambda>h v f. (Inr (length v), f(h \<mapsto> File v))),
     File_Close = (\<lambda>h f. (Inr (), f)),
     RemoveAll = (\<lambda>p f. (Inr (), \<lambda>qs. if below (path_parts p) qs then None else f qs))\<rparr>"

interpretation mem_files: file_system mem_fs "\<lambda>f. f"
  by unfold_locales (auto simp: mem_fs_def split: option.splits entry.splits if_splits)

definition mem_db :: "(bytes list \<Rightarrow> entry option, bytes list) DB" where
  "mem_db = \<lparr>db_fs = mem_fs, rootDir = [], extension = [115, 115, 122], dirPerms = 0\<rparr>"

interpretation mem_range: range_files mem_fs "\<lambda>f. f" mem_db
  by unfold_locales (simp_all add: mem_db_def extension_ok_def)

subsection \<open>Refinement and invariant\<close>

text \<open>
  C30. The range database implements a map from index and key to values, over a file system whose writes may fail
  and whose reads do not. A successful \<open>Set\<close> maps the
  key, a failed one touches no other key; \<open>Get\<close> and \<open>Has\<close> answer by the map and change nothing; a
  successful \<open>Delete\<close> removes the key; a successful \<open>Prune\<close> removes exactly the keys whose index lies
  between the larger of \<open>start\<close> and \<open>firstNonNilIndex\<close> and the end, which becomes the new bound, and a
  failed one removes nothing else.
\<close>

theorem RangeDB_refines:
  assumes "range_files fs view db" and "range_no_dirs view db r"
  shows "(case RangeDB_Set (file_interface db) i k v r of
            (Inr _, r') \<Rightarrow> range_contents view db r' = (range_contents view db r)((i, k) \<mapsto> v)
          | (Inl _, r') \<Rightarrow> \<forall>p. p \<noteq> (i, k) \<longrightarrow> range_contents view db r' p = range_contents view db r p) \<and>
    (case RangeDB_Get (file_interface db) i k r of
       (a, r') \<Rightarrow> range_contents view db r' = range_contents view db r \<and>
                 (\<forall>c. a = Inr c \<longleftrightarrow> range_contents view db r (i, k) = Some c)) \<and>
    (case RangeDB_Has (file_interface db) i k r of
       (a, r') \<Rightarrow> range_contents view db r' = range_contents view db r \<and>
                 a = Inr (range_contents view db r (i, k) \<noteq> None)) \<and>
    (case RangeDB_Delete (file_interface db) i k r of
       (Inr _, r') \<Rightarrow> range_contents view db r' = (range_contents view db r)((i, k) := None)
     | (Inl _, r') \<Rightarrow> \<forall>p. p \<noteq> (i, k) \<longrightarrow> range_contents view db r' p = range_contents view db r p) \<and>
    (case RangeDB_Prune (file_interface db) start end' r of
       (Inr _, r') \<Rightarrow> firstNonNilIndex r' = end' \<and>
         range_contents view db r' = (\<lambda>(j, l).
           if max start (firstNonNilIndex r) \<le> j \<and> j < end' then None else range_contents view db r (j, l))
     | (Inl _, r') \<Rightarrow> firstNonNilIndex r' = 0 \<and>
         (\<forall>j l. \<not> (max start (firstNonNilIndex r) \<le> j \<and> j < end') \<longrightarrow>
            range_contents view db r' (j, l) = range_contents view db r (j, l)))"
proof (intro conjI)
  note set = range_files.Set_contents [OF assms(1)] and get = range_files.Get_contents [OF assms(1)]
    and has = range_files.Has_contents [OF assms] and delete = range_files.Delete_contents [OF assms(1)]
    and prune = range_files.Prune_contents [OF assms(1)]
  show "case RangeDB_Set (file_interface db) i k v r of
            (Inr _, r') \<Rightarrow> range_contents view db r' = (range_contents view db r)((i, k) \<mapsto> v)
          | (Inl _, r') \<Rightarrow> \<forall>p. p \<noteq> (i, k) \<longrightarrow> range_contents view db r' p = range_contents view db r p"
    using set(3,4) by (auto split: prod.splits sum.splits)
  show "case RangeDB_Get (file_interface db) i k r of
       (a, r') \<Rightarrow> range_contents view db r' = range_contents view db r \<and>
                 (\<forall>c. a = Inr c \<longleftrightarrow> range_contents view db r (i, k) = Some c)"
    using get by (auto split: prod.splits)
  show "case RangeDB_Has (file_interface db) i k r of
       (a, r') \<Rightarrow> range_contents view db r' = range_contents view db r \<and>
                 a = Inr (range_contents view db r (i, k) \<noteq> None)"
    using has by (auto split: prod.splits)
  show "case RangeDB_Delete (file_interface db) i k r of
       (Inr _, r') \<Rightarrow> range_contents view db r' = (range_contents view db r)((i, k) := None)
     | (Inl _, r') \<Rightarrow> \<forall>p. p \<noteq> (i, k) \<longrightarrow> range_contents view db r' p = range_contents view db r p"
    using delete(3,4) by (fastforce split: prod.splits sum.splits)
  show "case RangeDB_Prune (file_interface db) start end' r of
       (Inr _, r') \<Rightarrow> firstNonNilIndex r' = end' \<and>
         range_contents view db r' = (\<lambda>(j, l).
           if max start (firstNonNilIndex r) \<le> j \<and> j < end' then None else range_contents view db r (j, l))
     | (Inl _, r') \<Rightarrow> firstNonNilIndex r' = 0 \<and>
         (\<forall>j l. \<not> (max start (firstNonNilIndex r) \<le> j \<and> j < end') \<longrightarrow>
            range_contents view db r' (j, l) = range_contents view db r (j, l))"
  proof (cases "RangeDB_Prune (file_interface db) start end' r")
    case (Pair a r')
    show ?thesis
    proof (cases a)
      case (Inl e)
      then show ?thesis using Pair prune(2,4) [OF Pair] by auto
    next
      case (Inr u)
      then have "a = Inr ()" by simp
      then show ?thesis using Pair prune(2,3) [OF Pair] by (auto simp: fun_eq_iff)
    qed
  qed
qed

lemma mem_db_simps [simp]:
  "db_fs mem_db = mem_fs"
  "RemoveAll mem_fs p f = (Inr (), \<lambda>qs. if below (path_parts p) qs then None else f qs)"
  by (simp_all add: mem_db_def mem_fs_def)

definition mem_root :: "bytes list \<Rightarrow> entry option" where
  "mem_root = [[] \<mapsto> Dir]"

lemma mem_root_no_dirs: "range_no_dirs (\<lambda>f. f) mem_db (NewRangeDB mem_root)"
  by (simp add: range_no_dirs_def NewRangeDB_def mem_root_def)

lemma mem_Set_succeeds:
  assumes "f [] = Some Dir" "f [dec i] \<in> {None, Some Dir}" "f [dec i, key_name mem_db k] \<noteq> Some Dir"
  shows "fst (RangeDB_Set (file_interface mem_db) i k v \<lparr>under = f, firstNonNilIndex = n\<rparr>) = Inr ()"
proof -
  let ?p = "pathForKey mem_db (key_prefix i k)"
  have ext: "extension_ok mem_db" by (simp add: mem_db_def extension_ok_def)
  have mk: "\<not> (\<exists>m \<le> length [dec i]. \<exists>c. f (take m [dec i]) = Some (File c))"
  proof -
    have "f (take m [dec i]) \<noteq> Some (File c)" for m c using assms by (cases m) auto
    then show ?thesis by blast
  qed
  show ?thesis
    using assms mk key_path [OF ext]
    by (auto simp: RangeDB_Set_def file_interface_def DB_Set_def on_under_def mem_fs_def below_def bindM_def)
qed

theorem RangeDB_refines_witness:
  "range_contents (\<lambda>f. f) mem_db
     (snd (RangeDB_Set (file_interface mem_db) 3 [1] [9] (NewRangeDB mem_root))) = [(3, [1]) \<mapsto> [9]]"
proof -
  obtain r' where r': "RangeDB_Set (file_interface mem_db) 3 [1] [9] (NewRangeDB mem_root) = (Inr (), r')"
    using mem_Set_succeeds [of mem_root 3 "[1]" "[9]" 0]
    by (cases "RangeDB_Set (file_interface mem_db) 3 [1] [9] (NewRangeDB mem_root)")
      (auto simp: mem_root_def NewRangeDB_def)
  have "range_contents (\<lambda>f. f) mem_db (NewRangeDB mem_root) = Map.empty"
    by (auto simp: range_contents_def NewRangeDB_def mem_root_def)
  then show ?thesis
    using RangeDB_refines [OF mem_range.range_files_axioms mem_root_no_dirs, of 3 "[1]" "[9]"] r'
    by (simp only: prod.case sum.case snd_conv)
qed

datatype range_op = SetOp u64 bytes bytes | DeleteOp u64 bytes | PruneOp u64 u64

definition range_step :: "('f, 'h) DB_interface \<Rightarrow> range_op \<Rightarrow> 'f RangeDB \<Rightarrow> 'f RangeDB" where
  "range_step d p r = (case p of
     SetOp i k v \<Rightarrow> snd (RangeDB_Set d i k v r)
   | DeleteOp i k \<Rightarrow> snd (RangeDB_Delete d i k r)
   | PruneOp start end' \<Rightarrow> snd (RangeDB_Prune d start end' r))"

lemma range_step_inv:
  assumes "range_files fs view db" "range_no_dirs view db r" "lower_bound view db r"
    and "\<And>s e. p = PruneOp s e \<Longrightarrow> s \<le> firstNonNilIndex r"
  shows "range_no_dirs view db (range_step (file_interface db) p r) \<and>
    lower_bound view db (range_step (file_interface db) p r)"
proof (cases p)
  case (SetOp i k v)
  then show ?thesis
    using range_files.Set_contents(2) [OF assms(1)] range_files.lower_bound_Set [OF assms(1)] assms
    by (cases "RangeDB_Set (file_interface db) i k v r") (auto simp: range_step_def)
next
  case (DeleteOp i k)
  then show ?thesis
    using range_files.Delete_contents(2) [OF assms(1)] range_files.lower_bound_Delete [OF assms(1)] assms
    by (cases "RangeDB_Delete (file_interface db) i k r") (auto simp: range_step_def)
next
  case (PruneOp s e)
  then show ?thesis
    using range_files.Prune_contents(1) [OF assms(1)] range_files.lower_bound_Prune [OF assms(1)] assms
    by (cases "RangeDB_Prune (file_interface db) s e r") (auto simp: range_step_def)
qed

text \<open>
  C31. The invariant that the source documents for \<open>RangeDB\<close>, that no index below \<open>firstNonNilIndex\<close>
  is populated, holds after any sequence of sets, deletions and prunings of a new database, failed
  ones included, as long as every pruning starts at index 0, as those of the node do.
\<close>

theorem RangeDB_invariant:
  assumes "range_files fs view db" and "range_no_dirs view db (NewRangeDB f)"
    and "\<And>start end'. PruneOp start end' \<in> set ops \<Longrightarrow> start = 0"
  shows "lower_bound view db (fold (range_step (file_interface db)) ops (NewRangeDB f)) \<and>
    range_no_dirs view db (fold (range_step (file_interface db)) ops (NewRangeDB f))"
proof -
  have "lower_bound view db (fold (range_step (file_interface db)) ops r) \<and>
      range_no_dirs view db (fold (range_step (file_interface db)) ops r)"
    if "range_no_dirs view db r" "lower_bound view db r" for r
    using that assms(3)
  proof (induction ops arbitrary: r)
    case (Cons p ops)
    have "range_no_dirs view db (range_step (file_interface db) p r) \<and>
        lower_bound view db (range_step (file_interface db) p r)"
    proof (rule range_step_inv [OF assms(1) Cons.prems(1,2)])
      show "s \<le> firstNonNilIndex r" if "p = PruneOp s e" for s e
        using Cons.prems(3) [of s e] that by simp
    qed
    then show ?case using Cons.IH Cons.prems(3) by (metis fold_simps(2) list.set_intros(2))
  qed simp
  moreover have "lower_bound view db (NewRangeDB f)"
    by (simp add: lower_bound_def NewRangeDB_def)
  ultimately show ?thesis using assms(2) by blast
qed

theorem RangeDB_invariant_witness:
  "lower_bound (\<lambda>f. f) mem_db
     (fold (range_step (file_interface mem_db)) [SetOp 3 [1] [9], PruneOp 0 2, SetOp 1 [] [7]] (NewRangeDB mem_root))"
  using RangeDB_invariant [OF mem_range.range_files_axioms mem_root_no_dirs, of "[SetOp 3 [1] [9], PruneOp 0 2, SetOp 1 [] [7]]"]
  by simp

text \<open>
  Without that restriction the invariant fails: pruning from 5 to 9 leaves the key at index 3 and
  moves the bound above it, so that no later pruning removes it.
\<close>

lemma RangeDB_Prune_gap:
  "\<not> lower_bound (\<lambda>f. f) mem_db
     (fold (range_step (file_interface mem_db)) [SetOp 3 [1] [9], PruneOp 5 9] (NewRangeDB mem_root))"
proof -
  obtain r1 where r1: "RangeDB_Set (file_interface mem_db) 3 [1] [9] (NewRangeDB mem_root) = (Inr (), r1)"
    using mem_Set_succeeds [of mem_root 3 "[1]" "[9]" 0]
    by (cases "RangeDB_Set (file_interface mem_db) 3 [1] [9] (NewRangeDB mem_root)")
      (auto simp: mem_root_def NewRangeDB_def)
  obtain a r2 where r2: "RangeDB_Prune (file_interface mem_db) 5 9 r1 = (a, r2)" by fastforce
  have c1: "range_contents (\<lambda>f. f) mem_db r1 (3, [1]) = Some [9]"
    using mem_range.Set_contents(4) [OF r1] by simp
  have f1: "firstNonNilIndex r1 = 0"
    using mem_range.Set_contents(1) [OF r1] by (simp add: NewRangeDB_def)
  have c2: "range_contents (\<lambda>f. f) mem_db r2 (3, [1]) = range_contents (\<lambda>f. f) mem_db r1 (3, [1])"
    using mem_range.Prune_contents(2) [OF r2, of 3 "[1]"] f1 by auto
  have loop: "fst (delete_loop mem_db i n f) = Inr ()" for i n f
  proof (induction "unat n - unat i" arbitrary: i f rule: less_induct)
    case less
    then show ?case
      by (cases "i < n") (simp_all add: delete_loop.simps [of mem_db i n] unat_plus_one word_less_nat_alt)
  qed
  have "a = Inr ()"
    using r2 loop [of 5 9 "under r1"] f1
    by (cases "delete_loop mem_db 5 9 (under r1)")
      (auto simp: RangeDB_Prune_def DeleteRange_def file_interface_def on_under_def)
  then have "firstNonNilIndex r2 = 9"
    using mem_range.Prune_contents(3) [OF r2] by simp
  then have "lower_bound (\<lambda>f. f) mem_db r2 \<Longrightarrow> range_contents (\<lambda>f. f) mem_db r2 (3, [1]) = None"
    unfolding lower_bound_def by auto
  then show ?thesis using r1 r2 c1 c2 by (auto simp: range_step_def)
qed

text \<open>
  The index of a prefixed key is recovered by \<open>ExtractIndex\<close>, and no two pairs of index and key
  share a prefixed key; a key without a slash is refused.
\<close>

lemma range_key_roundtrip:
  "ExtractIndex (key_prefix i k) = Inr i \<and>
   (key_prefix i k = key_prefix j l \<longleftrightarrow> i = j \<and> k = l) \<and>
   (47 \<notin> set s \<longrightarrow> ExtractIndex s = Inl (Newf ''invalid key format''))"
proof -
  have "i = j \<and> k = l" if eq: "key_prefix i k = key_prefix j l"
  proof -
    have "i = j" using ExtractIndex_key_prefix [of i k] ExtractIndex_key_prefix [of j l] eq by simp
    then show ?thesis using eq by (simp add: key_prefix_def)
  qed
  then show ?thesis by (auto simp: ExtractIndex_key_prefix) (simp add: ExtractIndex_def)
qed

text \<open>
  \<open>NewDB\<close> sets the file system after it has applied the options, so \<open>WithAferoFS\<close> has no effect.
\<close>

lemma WithAferoFS_ignored: "NewDB osFs noFs (opts @ [WithAferoFS fs]) = NewDB osFs noFs opts"
proof -
  have "apply_options (opts @ [WithAferoFS fs]) db =
      bindE (apply_options opts db) (\<lambda>db. Inr (db\<lparr>db_fs := fs\<rparr>))" for db
    by (induction opts arbitrary: db) (auto simp: WithAferoFS_def split: sum.splits)
  then show ?thesis by (auto simp: NewDB_def bindE_def split: sum.splits)
qed

end
