(* ===== verification/Blobs.thy ===== *)
theory Blobs
  imports Demo Encodings
begin

section \<open>Blob sidecars: construction and verification\<close>

text \<open>
  \<open>da/pkg/types\<close>, \<open>da/pkg/blob\<close>, \<open>da/pkg/kzg/proof.go\<close> and the commitment code of
  \<open>primitives/pkg/eip4844\<close>. A proposer builds, for every blob of a block, a sidecar with a Merkle
  proof that the blob's commitment is in the block body; every node checks these proofs, the KZG
  proofs and that the sidecars belong to one block.

  The KZG libraries are third-party: their verification of one blob and of a batch is an argument.
  An error group of several goroutines takes the order in which they end as an argument.

  Shown: every sidecar that the factory builds passes the check of its inclusion proof, for the body
  root that SSZ defines; sidecars are accepted exactly when each has a valid proof, the KZG library
  accepts the blobs and all belong to one block.
\<close>

subsection \<open>Error groups\<close>

text \<open>
  The goroutines of a group have results \<open>rs\<close>; \<open>sch\<close> is the order in which they end. The group
  returns the error of the first one that fails.
\<close>

definition errgroup :: "nat list \<Rightarrow> (err + 'a) list \<Rightarrow> err + unit" where
  "errgroup sch rs =
     (case filter (\<lambda>i. isl (rs ! i)) sch of [] \<Rightarrow> Inr () | i # _ \<Rightarrow> Inl (projl (rs ! i)))"

text \<open>\<open>errors.Join\<close>: nil when every error is nil.\<close>

fun join_errors :: "(err + 'a) list \<Rightarrow> err + unit" where
  "join_errors [] = Inr ()"
| "join_errors (Inr _ # rs) = join_errors rs"
| "join_errors (Inl e # rs) = Inl (case join_errors rs of Inl e' \<Rightarrow> Join e e' | Inr _ \<Rightarrow> e)"

lemma join_errors_ok: "join_errors rs = Inr () \<longleftrightarrow> (\<forall>r \<in> set rs. \<not> isl r)"
  by (induction rs rule: join_errors.induct) auto

lemma errgroup_ok:
  "set sch = {..<length rs} \<Longrightarrow> errgroup sch rs = Inr () \<longleftrightarrow> (\<forall>r \<in> set rs. \<not> isl r)"
proof -
  assume s: "set sch = {..<length rs}"
  have "errgroup sch rs = Inr () \<longleftrightarrow> filter (\<lambda>i. isl (rs ! i)) sch = []"
    by (simp add: errgroup_def split: list.splits)
  also have "\<dots> \<longleftrightarrow> (\<forall>i < length rs. \<not> isl (rs ! i))"
    using s by (auto simp: filter_empty_conv)
  finally show ?thesis by (simp add: all_set_conv_all_nth)
qed

subsection \<open>Commitments\<close>

text \<open>
  \<open>gohashtree.HashChunks\<close> is \<open>Hash\<close> without its checks of the lengths; it writes the digests over
  the first half of the chunks.
\<close>

definition HashChunks :: "merkle_env \<Rightarrow> b32 list \<Rightarrow> b32 list" where
  "HashChunks E chunks =
     (case gohashtree_Hash E chunks of
        Inl _ \<Rightarrow> chunks
      | Inr digests \<Rightarrow> digests @ drop (length digests) chunks)"

definition ToHashChunks :: "merkle_env \<Rightarrow> bytes \<Rightarrow> b32 list" where
  "ToHashChunks E c = HashChunks E [take 32 (c @ zero32), take 32 (drop RootLength c @ zero32)]"

definition KZGCommitment_HashTreeRoot :: "merkle_env \<Rightarrow> bytes \<Rightarrow> err + b32" where
  "KZGCommitment_HashTreeRoot E c = Inr (ToHashChunks E c ! 0)"

definition Leafify :: "merkle_env \<Rightarrow> bytes list \<Rightarrow> b32 list" where
  "Leafify E commitments = map (\<lambda>c. ToHashChunks E c ! 0) commitments"

definition KZGCommitment_UnmarshalJSON :: "bytes \<Rightarrow> bytes \<Rightarrow> (err + unit) \<times> bytes" where
  "KZGCommitment_UnmarshalJSON c input = UnmarshalFixedJSON input c"

definition KZGCommitment_MarshalText :: "bytes \<Rightarrow> bytes" where
  "KZGCommitment_MarshalText c = Bytes_MarshalText c"

definition Blob_UnmarshalJSON :: "bytes \<Rightarrow> bytes \<Rightarrow> (err + unit) \<times> bytes" where
  "Blob_UnmarshalJSON b input = UnmarshalFixedJSON input b"

definition Blob_MarshalText :: "bytes \<Rightarrow> bytes" where
  "Blob_MarshalText b = Bytes_MarshalText b"

subsection \<open>Sidecars\<close>

record BlobsBundle =
  bb_Commitments :: "bytes list"
  bb_Proofs :: "bytes list"
  bb_Blobs :: "bytes list"

record BlobSidecar =
  sc_Index :: u64
  sc_Blob :: bytes
  sc_KzgCommitment :: bytes
  sc_KzgProof :: bytes
  sc_BeaconBlockHeader :: "BeaconBlockHeader option"
  sc_InclusionProof :: "b32 list"

definition BuildBlobSidecar ::
  "u64 \<Rightarrow> BeaconBlockHeader option \<Rightarrow> bytes \<Rightarrow> bytes \<Rightarrow> bytes \<Rightarrow> b32 list \<Rightarrow> BlobSidecar" where
  "BuildBlobSidecar index header blob commitment kzgProof inclusionProof =
     \<lparr>sc_Index = index, sc_Blob = blob, sc_KzgCommitment = commitment, sc_KzgProof = kzgProof,
      sc_BeaconBlockHeader = header, sc_InclusionProof = inclusionProof\<rparr>"

text \<open>Reading the body root through a nil header panics; the depth is converted to \<open>uint8\<close>.\<close>

definition HasValidInclusionProof :: "merkle_env \<Rightarrow> u64 \<Rightarrow> BlobSidecar \<Rightarrow> err + bool" where
  "HasValidInclusionProof E kzgOffset b =
     (case KZGCommitment_HashTreeRoot E (sc_KzgCommitment b) of
        Inl _ \<Rightarrow> Inr False
      | Inr leaf \<Rightarrow>
          (case sc_BeaconBlockHeader b of
             None \<Rightarrow> Inl (Panic ''nil pointer dereference'')
           | Some header \<Rightarrow>
               Inr (IsValidMerkleBranch E leaf (sc_InclusionProof b)
                      (of_nat (length (sc_InclusionProof b))) (kzgOffset + sc_Index b)
                      (hdr_BodyRoot header))))"

text \<open>The slice of pointers to sidecars; both the slice and a pointer may be nil.\<close>

record BlobSidecars =
  Sidecars :: "BlobSidecar option list option"

definition sidecar_list :: "BlobSidecars \<Rightarrow> BlobSidecar option list" where
  "sidecar_list bs = (case Sidecars bs of None \<Rightarrow> [] | Some scs \<Rightarrow> scs)"

definition BlobSidecars_IsNil :: "BlobSidecars option \<Rightarrow> bool" where
  "BlobSidecars_IsNil bs = (case bs of None \<Rightarrow> True | Some bs \<Rightarrow> Sidecars bs = None)"

definition BlobSidecars_Len :: "BlobSidecars \<Rightarrow> nat" where
  "BlobSidecars_Len bs = length (sidecar_list bs)"

definition header_root :: "ssz_env \<Rightarrow> BlobSidecar option \<Rightarrow> err + b32" where
  "header_root H sc =
     (case sc of
        None \<Rightarrow> Inl (Panic ''nil pointer dereference'')
      | Some sc \<Rightarrow>
          (case sc_BeaconBlockHeader sc of
             None \<Rightarrow> Inl (Panic ''nil pointer dereference'')
           | Some header \<Rightarrow> htr_BeaconBlockHeader H header))"

fun same_roots :: "ssz_env \<Rightarrow> b32 \<Rightarrow> BlobSidecar option list \<Rightarrow> err + unit" where
  "same_roots H firstHtr [] = Inr ()"
| "same_roots H firstHtr (sc # scs) =
     bindE (header_root H sc) (\<lambda>nextHtr.
     if firstHtr \<noteq> nextHtr then Inl (Newf ''sidecar contains blobs from differing blocks'')
     else same_roots H firstHtr scs)"

definition ValidateBlockRoots :: "ssz_env \<Rightarrow> BlobSidecars \<Rightarrow> err + unit" where
  "ValidateBlockRoots H bs =
     (case sidecar_list bs of
        sc # sc' # scs \<Rightarrow> bindE (header_root H sc) (\<lambda>firstHtr. same_roots H firstHtr (sc' # scs))
      | _ \<Rightarrow> Inr ())"

definition check_inclusion :: "merkle_env \<Rightarrow> u64 \<Rightarrow> BlobSidecar option \<Rightarrow> err + unit" where
  "check_inclusion E kzgOffset sc =
     (case sc of
        None \<Rightarrow> Inl (Newf ''attempted to verify nil sidecar'')
      | Some sc \<Rightarrow>
          bindE (HasValidInclusionProof E kzgOffset sc) (\<lambda>ok.
          if \<not> ok then Inl (Newf ''invalid KZG commitment inclusion proof'') else Inr ()))"

definition VerifyInclusionProofs :: "merkle_env \<Rightarrow> u64 \<Rightarrow> BlobSidecars \<Rightarrow> err + unit" where
  "VerifyInclusionProofs E kzgOffset bs = join_errors (map (check_inclusion E kzgOffset) (sidecar_list bs))"

subsection \<open>The factory\<close>

record SidecarFactory =
  sf_chainSpec :: SpecData
  kzgPosition :: u64

definition NewSidecarFactory :: "SpecData \<Rightarrow> u64 \<Rightarrow> SidecarFactory" where
  "NewSidecarFactory chainSpec position = \<lparr>sf_chainSpec = chainSpec, kzgPosition = position\<rparr>"

definition BodyLengthDeneb :: u64 where
  "BodyLengthDeneb = 6"

definition KZGPositionDeneb :: u64 where
  "KZGPositionDeneb = BodyLengthDeneb - 1"

definition BuildCommitmentProof ::
  "ssz_env \<Rightarrow> SidecarFactory \<Rightarrow> BeaconBlockBodyDeneb \<Rightarrow> u64 \<Rightarrow> err + b32 list" where
  "BuildCommitmentProof H f body index =
     bindE (NewTreeWithMaxLeaves (merkle H) (Leafify (merkle H) (bd_BlobKzgCommitments body))
              (MaxBlobCommitmentsPerBlock (sf_chainSpec f))) (\<lambda>bodyTree.
     MerkleProofWithMixin (merkle H) bodyTree index)"

text \<open>\<open>first\<close> is the schedule of the error group in the payload's hash tree root.\<close>

definition BuildBlockBodyProof ::
  "ssz_env \<Rightarrow> bool \<Rightarrow> SidecarFactory \<Rightarrow> BeaconBlockBodyDeneb \<Rightarrow> err + b32 list" where
  "BuildBlockBodyProof H first f body =
     bindE (GetTopLevelRoots H first body) (\<lambda>membersRoots.
     bindE (NewTreeWithMaxLeaves (merkle H) membersRoots (BodyLengthDeneb - 1)) (\<lambda>tree.
     MerkleProof (merkle H) tree (kzgPosition f)))"

definition BuildKZGInclusionProof ::
  "ssz_env \<Rightarrow> bool \<Rightarrow> SidecarFactory \<Rightarrow> BeaconBlockBodyDeneb \<Rightarrow> u64 \<Rightarrow> err + b32 list" where
  "BuildKZGInclusionProof H first f body index =
     bindE (BuildCommitmentProof H f body index) (\<lambda>commitmentsProof.
     bindE (BuildBlockBodyProof H first f body) (\<lambda>bodyProof.
     Inr (commitmentsProof @ bodyProof)))"

definition build_sidecar ::
  "ssz_env \<Rightarrow> bool \<Rightarrow> SidecarFactory \<Rightarrow> BeaconBlockDeneb \<Rightarrow> BlobsBundle \<Rightarrow> nat \<Rightarrow> err + BlobSidecar" where
  "build_sidecar H first f blk bundle i =
     bindE (BuildKZGInclusionProof H first f (blk_Body blk) (of_nat i)) (\<lambda>inclusionProof.
     bindE (index_or_panic (bb_Blobs bundle) i) (\<lambda>blob.
     bindE (index_or_panic (bb_Commitments bundle) i) (\<lambda>commitment.
     bindE (index_or_panic (bb_Proofs bundle) i) (\<lambda>kzgProof.
     Inr (BuildBlobSidecar (of_nat i) (GetHeader H blk) blob commitment kzgProof inclusionProof)))))"

text \<open>The slots of the goroutines that failed stay nil; the sidecars are returned with the error.\<close>

definition BuildSidecars ::
  "ssz_env \<Rightarrow> nat list \<Rightarrow> bool \<Rightarrow> SidecarFactory \<Rightarrow> BeaconBlockDeneb \<Rightarrow> BlobsBundle \<Rightarrow>
   BlobSidecars \<times> (err + unit)" where
  "BuildSidecars H sch first f blk bundle =
     (let rs = map (build_sidecar H first f blk bundle) [0..<length (bb_Blobs bundle)] in
      (\<lparr>Sidecars = Some (map (\<lambda>r. case r of Inl _ \<Rightarrow> None | Inr sc \<Rightarrow> Some sc) rs)\<rparr>, errgroup sch rs))"

subsection \<open>The verifier and the processor\<close>

record BlobProofArgs =
  pa_Blobs :: "bytes list"
  pa_Proofs :: "bytes list"
  pa_Commitments :: "bytes list"

record BlobProofVerifier =
  VerifyBlobProof :: "bytes \<Rightarrow> bytes \<Rightarrow> bytes \<Rightarrow> err + unit"
  VerifyBlobProofBatch :: "BlobProofArgs \<Rightarrow> err + unit"

text \<open>A nil sidecar panics.\<close>

definition ArgsFromSidecars :: "BlobSidecars \<Rightarrow> err + BlobProofArgs" where
  "ArgsFromSidecars scs =
     bindE (mapE (from_option (Panic ''nil pointer dereference'')) (sidecar_list scs)) (\<lambda>ss.
     Inr \<lparr>pa_Blobs = map sc_Blob ss, pa_Proofs = map sc_KzgProof ss,
          pa_Commitments = map sc_KzgCommitment ss\<rparr>)"

definition VerifyKZGProofs :: "BlobProofVerifier \<Rightarrow> BlobSidecars \<Rightarrow> err + unit" where
  "VerifyKZGProofs bv scs =
     (case sidecar_list scs of
        [] \<Rightarrow> Inr ()
      | [sc] \<Rightarrow> bindE (from_option (Panic ''nil pointer dereference'') sc) (\<lambda>sc.
                VerifyBlobProof bv (sc_Blob sc) (sc_KzgProof sc) (sc_KzgCommitment sc))
      | _ \<Rightarrow> bindE (ArgsFromSidecars scs) (VerifyBlobProofBatch bv))"

definition Verifier_VerifyBlobs ::
  "ssz_env \<Rightarrow> nat list \<Rightarrow> BlobProofVerifier \<Rightarrow> BlobSidecars \<Rightarrow> u64 \<Rightarrow> err + unit" where
  "Verifier_VerifyBlobs H sch bv sidecars kzgOffset =
     errgroup sch [VerifyInclusionProofs (merkle H) kzgOffset sidecars, VerifyKZGProofs bv sidecars,
                   ValidateBlockRoots H sidecars]"

text \<open>
  The processor, with \<open>BlockBodyKZGOffset\<close> as its offset function. The deferred metric reads the
  length of the sidecars first, which panics on a nil pointer.
\<close>

definition Processor_VerifyBlobs ::
  "ssz_env \<Rightarrow> nat list \<Rightarrow> BlobProofVerifier \<Rightarrow> SpecData \<Rightarrow> u64 \<Rightarrow> BlobSidecars option \<Rightarrow> err + unit" where
  "Processor_VerifyBlobs H sch bv chainSpec slot sidecars =
     bindE (from_option (Panic ''nil pointer dereference'') sidecars) (\<lambda>sidecars.
     bindE (BlockBodyKZGOffset slot chainSpec) (\<lambda>kzgOffset.
     Verifier_VerifyBlobs H sch bv sidecars kzgOffset))"

subsection \<open>Inclusion proofs\<close>

lemma drop_bit_and_one: "drop_bit i (ix :: u64) AND 1 = 1 \<longleftrightarrow> bit ix i"
  by (auto simp: and_one_eq bit_iff_odd_drop_bit mod2_eq_if)

lemma RootFromBranch_bits:
  "(\<And>k. k < length p \<Longrightarrow> bit ix (i + k) = bit ix' (j + k)) \<Longrightarrow>
   RootFromBranch E r p i ix = RootFromBranch E r p j ix'"
proof (induction p arbitrary: r i j)
  case (Cons b p)
  have "bit ix i = bit ix' j" using Cons.prems [of 0] by simp
  moreover have "bit ix (i + 1 + k) = bit ix' (j + 1 + k)" if "k < length p" for k
    using Cons.prems [of "Suc k"] that by simp
  ultimately show ?case
    using Cons.IH [of "i + 1" "j + 1"] by (simp add: drop_bit_and_one)
qed simp

text \<open>The generalized index of the commitment at \<open>i\<close>: the low bits are those of \<open>i\<close>, the others of 26.\<close>

lemma gindex_bits:
  fixes i :: u64
  assumes "m \<le> 58" "unat i < 2 ^ m"
  shows "k < m \<Longrightarrow> bit (26 * 2 ^ m + i) k = bit i k"
    and "k \<le> 5 \<Longrightarrow> bit (26 * 2 ^ m + i) (m + k) = bit (26 :: nat) k"
proof -
  have "(2 :: nat) ^ m \<le> 2 ^ 58" using assms(1) by (intro power_increasing) auto
  then have "2 ^ m \<le> (288230376151711744 :: nat)" by simp
  then have "26 * 2 ^ m + unat i < 18446744073709551616" using assms(2) by linarith
  then have small: "26 * 2 ^ m + unat i < 2 ^ 64" by simp
  have "unat (26 * 2 ^ m :: u64) = 26 * 2 ^ m"
    using small assms(1) by (subst unat_mult_lem [THEN iffD1]) (simp_all add: unat_power_two)
  then have u: "unat (26 * 2 ^ m + i) = 26 * 2 ^ m + unat i"
    using small by (subst unat_add_lem [THEN iffD1]) simp_all
  have bit_div: "bit (26 * 2 ^ m + i) k \<longleftrightarrow> odd ((26 * 2 ^ m + unat i) div 2 ^ k)" for k
    using bit_unat [of "26 * 2 ^ m + i" k] by (simp add: u bit_iff_odd)
  show "bit (26 * 2 ^ m + i) k = bit i k" if "k < m"
  proof -
    have "(2 :: nat) ^ m = 2 ^ (m - k) * 2 ^ k" using that by (simp flip: power_add)
    then have "26 * 2 ^ m + unat i = unat i + (26 * 2 ^ (m - k)) * 2 ^ k" by simp
    then have "(26 * 2 ^ m + unat i) div 2 ^ k = unat i div 2 ^ k + 26 * 2 ^ (m - k)"
      by (simp only: div_mult_self1) simp
    then show ?thesis using bit_div [of k] bit_unat [of i k] by (simp add: bit_iff_odd)
  qed
  show "bit (26 * 2 ^ m + i) (m + k) = bit (26 :: nat) k"
  proof -
    have "(26 * 2 ^ m + unat i) div 2 ^ m = 26" using assms(2) by (simp add: div_add1_eq)
    then have "(26 * 2 ^ m + unat i) div 2 ^ (m + k) = 26 div 2 ^ k"
      by (simp add: power_add div_mult2_eq)
    then show ?thesis using bit_div [of "m + k"] by (simp add: bit_iff_odd)
  qed
qed

lemma NewTreeWithMaxLeaves_power:
  assumes "few_goroutines E" "1 \<le> m" "m \<le> 58" "0 < length ls" "length ls \<le> 2 ^ m"
  shows "NewTreeWithMaxLeaves E ls (2 ^ m) = Inr (tree_of E (of_nat m) ls)"
proof -
  note L = few_goroutines.is_layer_hasher [OF assms(1)]
  have u: "unat (2 ^ m :: u64) = 2 ^ m" using assms by (intro unat_power_two) simp
  then have nz: "(2 ^ m :: u64) \<noteq> 0" by (metis power_not_zero unat_0 zero_neq_numeral)
  have "unat (ILog2Ceil (2 ^ m)) = m" using assms by (intro ILog2Ceil_power) simp
  then have len: "Len64 (2 ^ m - 1) = m" and log: "ILog2Ceil (2 ^ m) = of_nat m"
    using ILog2Ceil_nat [OF nz] assms(3) by (auto simp: word_unat_eq_iff unat_of_nat)
  have p: "NextPowerOfTwo (2 ^ m) = Inr (2 ^ m)"
    using NextPowerOfTwo_exp [OF nz] u len power_increasing [of m 63 "2 :: nat"] assms by simp
  have um: "unat (of_nat m :: u8) = m" using assms by (simp add: unat_of_nat)
  have "verifySufficientDepth (length ls) (of_nat m) = Inr ()"
    using assms um by (simp add: verifySufficientDepth_def MaxTreeDepth_def word_less_nat_alt word_unat_eq_iff)
  then show ?thesis
    using layer_hasher.NewTree_spec [OF L] by (simp add: NewTreeWithMaxLeaves_def p log)
qed

definition list_root :: "merkle_env \<Rightarrow> nat \<Rightarrow> b32 list \<Rightarrow> b32" where
  "list_root E m ls = MixinLength E (node E ls m 0) (of_nat (length ls))"

lemma commitment_branch:
  assumes E: "few_goroutines E" and m: "1 \<le> m" "m \<le> 58" and i: "i < length ls" "length ls \<le> 2 ^ m"
  shows "\<exists>p. MerkleProofWithMixin E (tree_of E (of_nat m) ls) (of_nat i) = Inr p \<and> length p = m + 1 \<and>
    RootFromBranch E (ls ! i) p 0 (26 * 2 ^ m + of_nat i) = list_root E m ls"
proof -
  have L: "layer_hasher E" and P: "pair_hasher E"
    using E by (simp_all add: few_goroutines.is_layer_hasher few_goroutines_def)
  have um: "unat (of_nat m :: u8) = m" using m by (simp add: unat_of_nat)
  have "(2 :: nat) ^ m \<le> 2 ^ 58" using m by (intro power_increasing) auto
  then have ui: "unat (of_nat i :: u64) = i" using i by (intro unat_of_nat_small) simp
  let ?p = "map (\<lambda>k. node E ls k (unat (drop_bit k (of_nat i :: u64) XOR 1))) [0..<m]"
  let ?len = "le_bytes (of_nat (length ls)) @ replicate 24 0"
  have pf: "MerkleProof E (tree_of E (of_nat m) ls) (of_nat i) = Inr ?p"
    using layer_hasher.MerkleProof_spec [OF L, of "of_nat m" ls "of_nat i"] m i um ui by simp
  have top: "drop_bit m (of_nat i :: u64) = 0"
  proof -
    have "unat (drop_bit m (of_nat i :: u64)) = i div 2 ^ m"
      using m ui by (simp add: drop_bit_eq_div unat_div_distrib unat_power_two)
    then show ?thesis using i by (simp add: word_unat_eq_iff)
  qed
  have fold: "RootFromBranch E (ls ! i) ?p 0 (of_nat i) = node E ls m 0"
    using RootFromBranch_node [of E ls 0 "of_nat i" m] i ui by (simp add: top)
  have "RootFromBranch E (ls ! i) ?p 0 (26 * 2 ^ m + of_nat i) = RootFromBranch E (ls ! i) ?p 0 (of_nat i)"
    using gindex_bits(1) [OF m(2), of "of_nat i"] i ui by (intro RootFromBranch_bits) auto
  moreover have "\<not> bit (26 * 2 ^ m + of_nat i :: u64) m"
    using gindex_bits(2) [OF m(2), of "of_nat i" 0] i ui by (simp add: bit_0)
  moreover have "MixinLength E r (of_nat (length ls)) = Sum256 E (r @ ?len)" for r
    using pair_hasher.gohashtree [OF P, of "[r, ?len]"] by (simp add: MixinLength_def)
  ultimately show ?thesis
    using fold pf by (simp add: MerkleProofWithMixin_def RootFromBranch_append drop_bit_and_one list_root_def tree_of_def)
qed

lemma xor_one_neq: "n XOR 1 \<noteq> (n :: nat)"
  by (cases "even n") (auto simp: xor_Suc_0_eq elim: oddE)

lemma body_branch:
  assumes E: "few_goroutines E" and m: "m \<le> 58" and i: "unat i < 2 ^ m" and ls: "length ls = 5"
  shows "\<exists>p. NewTreeWithMaxLeaves E (ls @ [zero32]) 5 = Inr (tree_of E 3 (ls @ [zero32])) \<and>
    MerkleProof E (tree_of E 3 (ls @ [zero32])) 5 = Inr p \<and> length p = 3 \<and>
    RootFromBranch E r p (m + 1) (26 * 2 ^ m + i) = node E (ls @ [r]) 3 0"
proof -
  note L = few_goroutines.is_layer_hasher [OF E]
  let ?z = "ls @ [zero32]" let ?r = "ls @ [r]"
  let ?p = "map (\<lambda>k. node E ?r k (unat (drop_bit k (5 :: u64) XOR 1))) [0..<3]"
  have u3: "unat (3 :: u8) = 3" by simp
  have "NextPowerOfTwo 5 = Inr 8" "ILog2Ceil 8 = 3"
  proof -
    have "Len64 4 = 3" "Len64 7 = 3" by (simp_all add: Len64_def bit_length.simps)
    then show "NextPowerOfTwo 5 = Inr 8" "ILog2Ceil 8 = 3"
      using NextPowerOfTwo_exp [of 5] by (simp_all add: ILog2Ceil_def)
  qed
  moreover have "verifySufficientDepth (length ?z) 3 = Inr ()"
    using ls by (simp add: verifySufficientDepth_def MaxTreeDepth_def)
  ultimately have new: "NewTreeWithMaxLeaves E ?z 5 = Inr (tree_of E 3 ?z)"
    using layer_hasher.NewTree_spec [OF L] by (simp add: NewTreeWithMaxLeaves_def)
  have "MerkleProof E (tree_of E 3 ?z) 5 = Inr (map (\<lambda>k. node E ?z k (unat (drop_bit k (5 :: u64) XOR 1))) [0..<3])"
    using layer_hasher.MerkleProof_spec [OF L, of 3 ?z 5] ls by simp
  moreover have "map (\<lambda>k. node E ?z k (unat (drop_bit k (5 :: u64) XOR 1))) [0..<3] = ?p"
  proof (rule map_cong [OF refl])
    fix k assume "k \<in> set [0..<3]"
    then have "unat (drop_bit k (5 :: u64)) = 5 div 2 ^ k"
      by (simp add: drop_bit_eq_div unat_div_distrib unat_power_two)
    then have "unat (drop_bit k (5 :: u64) XOR 1) \<noteq> 5 div 2 ^ k"
      using xor_one_neq [of "5 div 2 ^ k"] by (simp only: unat_xor_one) simp
    then show "node E ?z k (unat (drop_bit k (5 :: u64) XOR 1)) = node E ?r k (unat (drop_bit k (5 :: u64) XOR 1))"
      by (rule node_cong [of 5, rotated]) (use ls in \<open>auto simp: nth_append\<close>)
  qed
  ultimately have pf: "MerkleProof E (tree_of E 3 ?z) 5 = Inr ?p" by simp
  have "RootFromBranch E r ?p 0 5 = node E ?r 3 0"
    using RootFromBranch_node [of E ?r 0 5 3] ls by (simp add: nth_append drop_bit_eq_div)
  moreover have "RootFromBranch E r ?p (m + 1) (26 * 2 ^ m + i) = RootFromBranch E r ?p 0 5"
  proof (rule RootFromBranch_bits)
    fix k assume "k < length ?p"
    then have k: "k = 0 \<or> k = 1 \<or> k = 2" by auto
    then have "bit (26 * 2 ^ m + i) (m + 1 + k) = bit (26 :: nat) (Suc k)"
      using gindex_bits(2) [OF m i, of "Suc k"] by auto
    also have "\<dots> = bit (5 :: u64) (0 + k)" using k by (auto simp: bit_Suc bit_0)
    finally show "bit (26 * 2 ^ m + i) (m + 1 + k) = bit (5 :: u64) (0 + k)" .
  qed
  ultimately show ?thesis using new pf by (intro exI [of _ ?p]) simp
qed

text \<open>
  What SSZ defines as the root of a block body: the tree over the roots of its six fields, of which
  the last is the list of commitments. \<open>GetTopLevelRoots\<close> gives the first five.
\<close>

definition ssz_body_root :: "ssz_env \<Rightarrow> bool \<Rightarrow> nat \<Rightarrow> BeaconBlockBodyDeneb \<Rightarrow> err + b32" where
  "ssz_body_root H first m body =
     bindE (GetTopLevelRoots H first body) (\<lambda>roots.
     Inr (node (merkle H)
            (butlast roots @ [list_root (merkle H) m (Leafify (merkle H) (bd_BlobKzgCommitments body))]) 3 0))"

lemma length_Leafify [simp]: "length (Leafify E ks) = length ks"
  by (simp add: Leafify_def)

lemma GetTopLevelRoots_shape:
  "GetTopLevelRoots H first body = Inr roots \<Longrightarrow> length (butlast roots) = 5 \<and> roots = butlast roots @ [zero32]"
  by (auto simp: GetTopLevelRoots_def bindE_Inr)

lemma inclusion_proof:
  assumes E: "few_goroutines (merkle H)" and m: "1 \<le> m" "m \<le> 58"
    and f: "MaxBlobCommitmentsPerBlock (sf_chainSpec f) = 2 ^ m" "kzgPosition f = KZGPositionDeneb"
    and i: "i < length (bd_BlobKzgCommitments body)" "length (bd_BlobKzgCommitments body) \<le> 2 ^ m"
    and root: "ssz_body_root H first m body = Inr bodyRoot"
  shows "\<exists>p. BuildKZGInclusionProof H first f body (of_nat i) = Inr p \<and> length p = m + 4 \<and>
    RootFromBranch (merkle H) (Leafify (merkle H) (bd_BlobKzgCommitments body) ! i) p 0
      (26 * 2 ^ m + of_nat i) = bodyRoot"
proof -
  let ?E = "merkle H" let ?ls = "Leafify ?E (bd_BlobKzgCommitments body)"
  obtain roots where r: "GetTopLevelRoots H first body = Inr roots"
    and br: "bodyRoot = node ?E (butlast roots @ [list_root ?E m ?ls]) 3 0"
    using root by (auto simp: ssz_body_root_def bindE_Inr)
  note shape = GetTopLevelRoots_shape [OF r]
  obtain p where p: "MerkleProofWithMixin ?E (tree_of ?E (of_nat m) ?ls) (of_nat i) = Inr p" "length p = m + 1"
    "RootFromBranch ?E (?ls ! i) p 0 (26 * 2 ^ m + of_nat i) = list_root ?E m ?ls"
    using commitment_branch [OF E m, of i ?ls] i by auto
  have "(2 :: nat) ^ m \<le> 2 ^ 58" using m by (intro power_increasing) auto
  then have "unat (of_nat i :: u64) < 2 ^ m" using i by (subst unat_of_nat_small) auto
  then obtain q where q: "NewTreeWithMaxLeaves ?E roots 5 = Inr (tree_of ?E 3 roots)"
    "MerkleProof ?E (tree_of ?E 3 roots) 5 = Inr q" "length q = 3"
    "RootFromBranch ?E (list_root ?E m ?ls) q (m + 1) (26 * 2 ^ m + of_nat i) = bodyRoot"
    using body_branch [OF E m(2), of "of_nat i" "butlast roots" "list_root ?E m ?ls"] shape br by auto
  have ne: "bd_BlobKzgCommitments body \<noteq> []" using i by auto
  have "BuildCommitmentProof H f body (of_nat i) = Inr p"
    using ne NewTreeWithMaxLeaves_power [OF E m, of ?ls] i p(1) f by (auto simp: BuildCommitmentProof_def)
  moreover have "BuildBlockBodyProof H first f body = Inr q"
    using r q(1,2) f by (simp add: BuildBlockBodyProof_def BodyLengthDeneb_def KZGPositionDeneb_def)
  ultimately show ?thesis
    using p(2,3) q(3,4) by (simp add: BuildKZGInclusionProof_def RootFromBranch_append)
qed

lemma Leafify_nth: "i < length ks \<Longrightarrow> Leafify E ks ! i = ToHashChunks E (ks ! i) ! 0"
  by (simp add: Leafify_def)

lemma same_roots_all:
  "(\<And>sc. sc \<in> set scs \<Longrightarrow> header_root H sc = Inr r) \<Longrightarrow> same_roots H r scs = Inr ()"
  by (induction scs) auto

lemma not_isl_unit: "\<not> isl (r :: err + unit) \<longleftrightarrow> r = Inr ()"
  by (cases r) auto

text \<open>
  The sidecars of a block in any schedule of the goroutines: one per blob, in order, whose proofs lead
  to the root that the factory computes for the body, so they are accepted exactly when the block
  commits to this root.
\<close>

lemma BuildSidecars_result:
  assumes E: "few_goroutines (merkle H)" and m: "1 \<le> m" "m \<le> 58"
    and spec: "MaxBlobCommitmentsPerBlock c = 2 ^ m" "BlockBodyKZGOffset slot c = Inr kzgOffset"
    and n: "length (bb_Blobs bnd) = n" "length (bb_Proofs bnd) = n" "length (bb_Commitments bnd) = n" "n \<le> 2 ^ m"
    and body: "bd_BlobKzgCommitments (blk_Body blk) = bb_Commitments bnd"
    and root: "htr_BeaconBlockBody H (blk_Body blk) = Inr bodyRoot" "ssz_body_root H first m (blk_Body blk) = Inr factoryRoot"
    and header: "GetHeader H blk = Some hdr" "htr_BeaconBlockHeader H hdr = Inr hdrRoot"
    and sch: "set sch = {..<n}"
  shows "\<exists>scs. BuildSidecars H sch first (NewSidecarFactory c KZGPositionDeneb) blk bnd =
      (\<lparr>Sidecars = Some (map Some scs)\<rparr>, Inr ()) \<and>
    map sc_Index scs = map of_nat [0..<n] \<and> map sc_Blob scs = bb_Blobs bnd \<and>
    map sc_KzgCommitment scs = bb_Commitments bnd \<and> map sc_KzgProof scs = bb_Proofs bnd \<and>
    (\<forall>sc \<in> set scs. length (sc_InclusionProof sc) = m + 4) \<and>
    (VerifyInclusionProofs (merkle H) kzgOffset \<lparr>Sidecars = Some (map Some scs)\<rparr> = Inr () \<longleftrightarrow>
       n = 0 \<or> factoryRoot = bodyRoot) \<and>
    ValidateBlockRoots H \<lparr>Sidecars = Some (map Some scs)\<rparr> = Inr ()"
proof -
  let ?f = "NewSidecarFactory c KZGPositionDeneb"
  have f: "MaxBlobCommitmentsPerBlock (sf_chainSpec ?f) = 2 ^ m" "kzgPosition ?f = KZGPositionDeneb"
    using spec by (simp_all add: NewSidecarFactory_def)
  have off: "kzgOffset = 26 * 2 ^ m"
    using spec by (auto simp: BlockBodyKZGOffset_def bindE_Inr KZGMerkleIndexDeneb_def split: if_splits)
  have hdr: "hdr_BodyRoot hdr = bodyRoot" using header(1) root(1) by (auto simp: GetHeader_def)
  define P where "P i = projr (BuildKZGInclusionProof H first ?f (blk_Body blk) (of_nat i))" for i
  define S where "S i = BuildBlobSidecar (of_nat i) (Some hdr) (bb_Blobs bnd ! i) (bb_Commitments bnd ! i)
      (bb_Proofs bnd ! i) (P i)" for i
  have pf: "BuildKZGInclusionProof H first ?f (blk_Body blk) (of_nat i) = Inr (P i) \<and> length (P i) = m + 4 \<and>
      RootFromBranch (merkle H) (ToHashChunks (merkle H) (bb_Commitments bnd ! i) ! 0) (P i) 0
        (26 * 2 ^ m + of_nat i) = factoryRoot" if "i < n" for i
    using inclusion_proof [OF E m f, of i "blk_Body blk" first factoryRoot] that n root(2) body
    by (auto simp: P_def Leafify_nth)
  have build: "build_sidecar H first ?f blk bnd i = Inr (S i)" if "i < n" for i
    using pf [OF that] that n header(1) by (simp add: build_sidecar_def index_or_panic_def S_def)
  let ?scs = "map S [0..<n]"
  have rs: "map (build_sidecar H first ?f blk bnd) [0..<n] = map (\<lambda>i. Inr (S i)) [0..<n]"
    using build by simp
  have "errgroup sch (map (\<lambda>i. Inr (S i) :: err + BlobSidecar) [0..<n]) = Inr ()"
    using sch by (subst errgroup_ok) auto
  then have B: "BuildSidecars H sch first ?f blk bnd = (\<lparr>Sidecars = Some (map Some ?scs)\<rparr>, Inr ())"
    using n(1) by (simp add: BuildSidecars_def rs comp_def)
  have incl: "check_inclusion (merkle H) kzgOffset (Some (S i)) = Inr () \<longleftrightarrow> factoryRoot = bodyRoot" if "i < n" for i
  proof -
    have "unat (of_nat (m + 4) :: u8) = m + 4" using m by (subst unat_of_nat_small) auto
    then show ?thesis
      using pf [OF that] hdr
      by (simp add: check_inclusion_def HasValidInclusionProof_def KZGCommitment_HashTreeRoot_def
          IsValidMerkleBranch_def S_def BuildBlobSidecar_def off)
  qed
  have "VerifyInclusionProofs (merkle H) kzgOffset \<lparr>Sidecars = Some (map Some ?scs)\<rparr> = Inr () \<longleftrightarrow>
      (\<forall>i < n. check_inclusion (merkle H) kzgOffset (Some (S i)) = Inr ())"
    by (auto simp: VerifyInclusionProofs_def sidecar_list_def join_errors_ok not_isl_unit)
  then have "VerifyInclusionProofs (merkle H) kzgOffset \<lparr>Sidecars = Some (map Some ?scs)\<rparr> = Inr () \<longleftrightarrow>
      n = 0 \<or> factoryRoot = bodyRoot"
    using incl by auto
  moreover have "ValidateBlockRoots H \<lparr>Sidecars = Some (map Some ?scs)\<rparr> = Inr ()"
  proof -
    have "header_root H sc = Inr hdrRoot" if "sc \<in> set (map Some ?scs)" for sc
      using that header(2) by (auto simp: header_root_def S_def BuildBlobSidecar_def)
    then show ?thesis
      using same_roots_all [of _ H hdrRoot]
      by (auto simp: ValidateBlockRoots_def sidecar_list_def simp del: list.map set_map map_map split: list.splits)
  qed
  moreover have "map sc_Index ?scs = map of_nat [0..<n]" "map sc_Blob ?scs = bb_Blobs bnd"
    "map sc_KzgCommitment ?scs = bb_Commitments bnd" "map sc_KzgProof ?scs = bb_Proofs bnd"
    using n by (auto simp: S_def BuildBlobSidecar_def comp_def intro!: nth_equalityI)
  moreover have "\<forall>sc \<in> set ?scs. length (sc_InclusionProof sc) = m + 4"
    using pf by (auto simp: S_def BuildBlobSidecar_def)
  ultimately show ?thesis using B by blast
qed

text \<open>
  The sidecars that a proposer builds are accepted. If the root that the block commits to is the
  one SSZ defines for the body, the list of commitments of the body is that of the bundle, of at most
  \<open>2^m\<close> commitments with \<open>2^m\<close> the maximum of the chain specification, then \<open>BuildSidecars\<close> succeeds
  with one sidecar per blob in order, in any schedule of its goroutines, and the sidecars pass
  \<open>VerifyInclusionProofs\<close> at the offset of \<open>BlockBodyKZGOffset\<close> and \<open>ValidateBlockRoots\<close>. Each inclusion
  proof has \<open>m + 4\<close> hashes: eight for the maximum of 16 of the specification.
\<close>

theorem BuildSidecars_verify:
  assumes E: "few_goroutines (merkle H)" and m: "1 \<le> m" "m \<le> 58"
    and spec: "MaxBlobCommitmentsPerBlock c = 2 ^ m" "BlockBodyKZGOffset slot c = Inr kzgOffset"
    and n: "length (bb_Blobs bnd) = n" "length (bb_Proofs bnd) = n" "length (bb_Commitments bnd) = n" "n \<le> 2 ^ m"
    and body: "bd_BlobKzgCommitments (blk_Body blk) = bb_Commitments bnd"
    and root: "htr_BeaconBlockBody H (blk_Body blk) = Inr bodyRoot" "ssz_body_root H first m (blk_Body blk) = Inr bodyRoot"
    and header: "GetHeader H blk = Some hdr" "htr_BeaconBlockHeader H hdr = Inr hdrRoot"
    and sch: "set sch = {..<n}"
  shows "\<exists>scs. BuildSidecars H sch first (NewSidecarFactory c KZGPositionDeneb) blk bnd =
      (\<lparr>Sidecars = Some (map Some scs)\<rparr>, Inr ()) \<and>
    map sc_Index scs = map of_nat [0..<n] \<and> map sc_Blob scs = bb_Blobs bnd \<and>
    map sc_KzgCommitment scs = bb_Commitments bnd \<and> map sc_KzgProof scs = bb_Proofs bnd \<and>
    (\<forall>sc \<in> set scs. length (sc_InclusionProof sc) = m + 4) \<and>
    VerifyInclusionProofs (merkle H) kzgOffset \<lparr>Sidecars = Some (map Some scs)\<rparr> = Inr () \<and>
    ValidateBlockRoots H \<lparr>Sidecars = Some (map Some scs)\<rparr> = Inr ()"
  using BuildSidecars_result [OF E m spec n body root header sch] by auto

subsection \<open>An instance\<close>

text \<open>A block with two blobs; the body root is computed as SSZ defines it.\<close>

definition blob_base_env :: ssz_env where
  "blob_base_env = demo_env\<lparr>merkle := reference_env fold_digest 15\<rparr>"

definition blob_env :: ssz_env where
  "blob_env = blob_base_env\<lparr>htr_BeaconBlockBody := ssz_body_root blob_base_env True 4\<rparr>"

definition blob_bundle :: BlobsBundle where
  "blob_bundle = \<lparr>bb_Commitments = [replicate 48 1, replicate 48 2],
     bb_Proofs = [replicate 48 3, replicate 48 4], bb_Blobs = [[5], [6]]\<rparr>"

definition blob_block :: BeaconBlockDeneb where
  "blob_block = demo_block\<lparr>blk_Body := demo_body\<lparr>bd_Eth1Data := Some (NewEth1Data zero32 0 zero32),
     bd_ExecutionPayload := (bd_ExecutionPayload demo_body)\<lparr>pl_Withdrawals := []\<rparr>,
     bd_BlobKzgCommitments := bb_Commitments blob_bundle\<rparr>\<rparr>"

lemma blob_env_simps [simp]:
  "merkle blob_env = reference_env fold_digest 15"
  "htr_BeaconBlockHeader blob_env h = word_root (hdr_Slot h + 100)"
  "htr_Eth1Data blob_env d = word_root (eth1_DepositCount d)"
  "htr_ExecutionPayloadHeader blob_env p = word_root (ph_Number p)"
  by (simp_all add: blob_env_def blob_base_env_def demo_env_def)

lemma ssz_body_root_env:
  "ssz_body_root (H\<lparr>htr_BeaconBlockBody := g\<rparr>) first m body = ssz_body_root H first m body"
  by (cases "bd_Eth1Data body") (simp_all add: GetExecutionPayload_def bindM_def ssz_body_root_def GetTopLevelRoots_def Deposits_HashTreeRoot_def
      ExecutionPayload_HashTreeRoot_def ToHeader_def Transactions_HashTreeRoot_def Withdrawals_HashTreeRoot_def)

lemma blob_body_root: "\<exists>r. ssz_body_root blob_env True 4 (blk_Body blob_block) = Inr r"
proof -
  note list_spec = reference_few.MerkleizeListComposite_spec [where sha = fold_digest]
  note spec = reference_few.Merkleize_spec [where sha = fold_digest]
  have "\<exists>r. Transactions_HashTreeRoot blob_env [] = Inr r"
    using list_spec [of Inr "[]" "[]" MaxTxsPerPayload]
    by (simp add: Transactions_HashTreeRoot_def MaxTxsPerPayload_def)
  moreover have "\<exists>r. Withdrawals_HashTreeRoot blob_env [] = Inr r"
    using list_spec [of "htr_Withdrawal blob_env" "[]" "[]" constants_MaxWithdrawalsPerPayload]
    by (simp add: Withdrawals_HashTreeRoot_def constants_MaxWithdrawalsPerPayload_def)
  moreover have "\<exists>r. Deposits_HashTreeRoot blob_env [] = Inr r"
    using list_spec [of "htr_Deposit blob_env" "[]" "[]" constants_MaxDepositsPerBlock]
    by (simp add: Deposits_HashTreeRoot_def constants_MaxDepositsPerBlock_def)
  moreover have "\<exists>r. MerkleizeByteSlice (reference_env fold_digest 15)
      (bd_RandaoReveal (blk_Body blob_block)) = Inr r"
    using spec [of "map (chunk_at (bd_RandaoReveal demo_body)) [0..<3]" "Some 3"]
    by (simp add: MerkleizeByteSlice_def PartitionBytes_def blob_block_def)
  ultimately show ?thesis
    by (auto simp: ssz_body_root_def GetTopLevelRoots_def ExecutionPayload_HashTreeRoot_def ToHeader_def
        GetExecutionPayload_def blob_block_def bindM_def word_root_def Let_def)
qed

lemma blob_sidecars:
  "\<exists>scs. BuildSidecars blob_env [1, 0] True (NewSidecarFactory BaseSpec KZGPositionDeneb) blob_block blob_bundle =
      (\<lparr>Sidecars = Some (map Some scs)\<rparr>, Inr ()) \<and>
    map sc_KzgCommitment scs = bb_Commitments blob_bundle \<and>
    (\<forall>sc \<in> set scs. length (sc_InclusionProof sc) = 8) \<and>
    VerifyInclusionProofs (merkle blob_env) 416 \<lparr>Sidecars = Some (map Some scs)\<rparr> = Inr () \<and>
    ValidateBlockRoots blob_env \<lparr>Sidecars = Some (map Some scs)\<rparr> = Inr ()"
proof -
  obtain r where r: "ssz_body_root blob_env True 4 (blk_Body blob_block) = Inr r"
    using blob_body_root by blast
  then have h: "htr_BeaconBlockBody blob_env (blk_Body blob_block) = Inr r"
    by (simp add: blob_env_def ssz_body_root_env)
  have off: "BlockBodyKZGOffset 4 BaseSpec = Inr 416"
    by (simp add: BlockBodyKZGOffset_def ActiveForkVersionForSlot_def SlotToEpoch_def KZGMerkleIndexDeneb_def
        ActiveForkVersionForEpoch_def)
  have "\<exists>hdr. GetHeader blob_env blob_block = Some hdr \<and> hdr_Slot hdr = blk_Slot blob_block"
    using h by (simp add: GetHeader_def)
  then obtain hdr where hdr: "GetHeader blob_env blob_block = Some hdr"
    "htr_BeaconBlockHeader blob_env hdr = Inr (replicate 32 104)"
    by (auto simp: word_root_def blob_block_def)
  have sch: "set [1, 0] = {..<2 :: nat}" by auto
  show ?thesis
    using BuildSidecars_verify [where H = blob_env and m = "4" and c = BaseSpec and slot = "4" and n = "2"
        and bnd = blob_bundle and blk = blob_block and first = True and sch = "[1, 0]", OF _ _ _ _ off _ _ _ _ _ h r hdr sch]
    by (auto simp: reference_few.few_goroutines_axioms blob_bundle_def blob_block_def)
qed

subsection \<open>Acceptance of sidecars\<close>

text \<open>The root that a branch gives a leaf at an index, from the lowest bit of the index upwards.\<close>

fun branch_root :: "(bytes \<Rightarrow> b32) \<Rightarrow> b32 \<Rightarrow> b32 list \<Rightarrow> nat \<Rightarrow> b32" where
  "branch_root sha r [] i = r"
| "branch_root sha r (b # p) i = branch_root sha (sha (if odd i then b @ r else r @ b)) p (i div 2)"

lemma RootFromBranch_branch_root: "RootFromBranch E r p k ix = branch_root (Sum256 E) r p (unat ix div 2 ^ k)"
proof (induction p arbitrary: r k)
  case (Cons b p)
  have "bit ix k \<longleftrightarrow> odd (unat ix div 2 ^ k)" by (simp add: bit_unat [symmetric] bit_iff_odd)
  moreover have "unat ix div 2 ^ (k + 1) = unat ix div 2 ^ k div 2" by (metis div_mult2_eq power_add power_one_right)
  ultimately show ?case using Cons.IH by (simp add: drop_bit_and_one)
qed simp

text \<open>
  A sidecar proves that its commitment, padded to two chunks, is under the body root of \<open>header\<close>: its branch has at most
  255 hashes and leads from the digest of the commitment to the root, at the index of the sidecar behind the offset.
\<close>

definition proves_inclusion :: "(bytes \<Rightarrow> b32) \<Rightarrow> u64 \<Rightarrow> BlobSidecar \<Rightarrow> BeaconBlockHeader \<Rightarrow> bool" where
  "proves_inclusion sha kzgOffset b header \<longleftrightarrow>
     length (sc_InclusionProof b) < 256 \<and>
     branch_root sha (sha (sc_KzgCommitment b @ replicate 16 0)) (sc_InclusionProof b) (unat (kzgOffset + sc_Index b)) =
       hdr_BodyRoot header"

lemma commitment_digest:
  assumes "pair_hasher E" and "length c = 48"
  shows "ToHashChunks E c ! 0 = Sum256 E (c @ replicate 16 0)"
proof -
  have "take 32 (c @ zero32) @ take 32 (drop RootLength c @ zero32) = c @ replicate 16 0"
    using assms(2) by (simp add: RootLength_def zero32_def)
  then show ?thesis by (simp add: ToHashChunks_def HashChunks_def pair_hasher.gohashtree [OF assms(1)])
qed

lemma HasValidInclusionProof_iff:
  assumes "pair_hasher E" and "length (sc_KzgCommitment b) = 48"
  shows "HasValidInclusionProof E kzgOffset b = Inr True \<longleftrightarrow>
    (\<exists>header. sc_BeaconBlockHeader b = Some header \<and> proves_inclusion (Sum256 E) kzgOffset b header)"
proof -
  have "n = unat (of_nat n :: u8) \<longleftrightarrow> n < 256" for n :: nat
    by (simp add: unat_of_nat take_bit_eq_mod) (metis mod_less mod_less_divisor zero_less_numeral)
  then show ?thesis
    by (auto simp: HasValidInclusionProof_def KZGCommitment_HashTreeRoot_def commitment_digest [OF assms] IsValidMerkleBranch_def
        proves_inclusion_def RootFromBranch_branch_root split: option.splits if_splits)
qed

lemma VerifyInclusionProofs_iff:
  "VerifyInclusionProofs E kzgOffset scs = Inr () \<longleftrightarrow>
    (\<forall>sc \<in> set (sidecar_list scs). \<exists>b. sc = Some b \<and> HasValidInclusionProof E kzgOffset b = Inr True)"
proof -
  have "\<not> isl (check_inclusion E kzgOffset sc) \<longleftrightarrow>
      (\<exists>b. sc = Some b \<and> HasValidInclusionProof E kzgOffset b = Inr True)" for sc
    by (cases sc; cases "HasValidInclusionProof E kzgOffset (the sc)") (auto simp: check_inclusion_def)
  then show ?thesis by (simp add: VerifyInclusionProofs_def join_errors_ok)
qed

lemma ValidateBlockRoots_iff:
  "ValidateBlockRoots H scs = Inr () \<longleftrightarrow>
    length (sidecar_list scs) \<le> 1 \<or> (\<exists>r. \<forall>sc \<in> set (sidecar_list scs). header_root H sc = Inr r)"
proof -
  have same: "same_roots H r l = Inr () \<longleftrightarrow> (\<forall>sc \<in> set l. header_root H sc = Inr r)" for r l
    by (induction l) (auto simp: bindE_Inr)
  show ?thesis
    by (cases "sidecar_list scs"; cases "tl (sidecar_list scs)")
      (auto simp: ValidateBlockRoots_def bindE_Inr same simp del: same_roots.simps)
qed

lemma VerifyKZGProofs_iff:
  assumes "sidecar_list scs = map Some bs"
  shows "VerifyKZGProofs bv scs = Inr () \<longleftrightarrow>
    (case bs of
       [] \<Rightarrow> True
     | [b] \<Rightarrow> VerifyBlobProof bv (sc_Blob b) (sc_KzgProof b) (sc_KzgCommitment b) = Inr ()
     | _ \<Rightarrow> VerifyBlobProofBatch bv \<lparr>pa_Blobs = map sc_Blob bs, pa_Proofs = map sc_KzgProof bs,
              pa_Commitments = map sc_KzgCommitment bs\<rparr> = Inr ())"
proof -
  have "mapE (from_option (Panic ''nil pointer dereference'')) (map Some bs) = Inr bs" for bs :: "BlobSidecar list"
    by (induction bs) simp_all
  then show ?thesis using assms by (auto simp: VerifyKZGProofs_def ArgsFromSidecars_def split: list.splits)
qed

lemma all_sidecars:
  assumes "pair_hasher E" and "\<forall>b. Some b \<in> set l \<longrightarrow> length (sc_KzgCommitment b) = 48"
  shows "(\<forall>sc \<in> set l. \<exists>b. sc = Some b \<and> HasValidInclusionProof E kzgOffset b = Inr True) \<longleftrightarrow>
    (\<exists>bs headers. l = map Some bs \<and> map sc_BeaconBlockHeader bs = map Some headers \<and>
       list_all2 (proves_inclusion (Sum256 E) kzgOffset) bs headers)"
proof
  have valid: "HasValidInclusionProof E kzgOffset b = Inr True \<longleftrightarrow>
      (\<exists>header. sc_BeaconBlockHeader b = Some header \<and> proves_inclusion (Sum256 E) kzgOffset b header)"
    if "Some b \<in> set l" for b using HasValidInclusionProof_iff [OF assms(1)] assms(2) that by blast
  {
    assume all: "\<forall>sc \<in> set l. \<exists>b. sc = Some b \<and> HasValidInclusionProof E kzgOffset b = Inr True"
    let ?bs = "map the l" and ?headers = "map (\<lambda>sc. the (sc_BeaconBlockHeader (the sc))) l"
    have one: "\<exists>header. sc_BeaconBlockHeader (the sc) = Some header \<and> proves_inclusion (Sum256 E) kzgOffset (the sc) header"
      "Some (the sc) = sc" if "sc \<in> set l" for sc
      using bspec [OF all that] valid that by auto
    then have "l = map Some ?bs" by (auto intro!: map_idI [symmetric])
    moreover have "map sc_BeaconBlockHeader ?bs = map Some ?headers" using one(1) by fastforce
    moreover have "proves_inclusion (Sum256 E) kzgOffset (the sc) (the (sc_BeaconBlockHeader (the sc)))" if "sc \<in> set l" for sc
      using one(1) [OF that] by auto
    then have "list_all2 (proves_inclusion (Sum256 E) kzgOffset) ?bs ?headers" by (simp add: list_all2_conv_all_nth)
    ultimately show "\<exists>bs headers. l = map Some bs \<and> map sc_BeaconBlockHeader bs = map Some headers \<and>
       list_all2 (proves_inclusion (Sum256 E) kzgOffset) bs headers" by blast
  }
  assume "\<exists>bs headers. l = map Some bs \<and> map sc_BeaconBlockHeader bs = map Some headers \<and>
       list_all2 (proves_inclusion (Sum256 E) kzgOffset) bs headers"
  then obtain bs headers where l: "l = map Some bs" and h: "map sc_BeaconBlockHeader bs = map Some headers"
    "list_all2 (proves_inclusion (Sum256 E) kzgOffset) bs headers" by blast
  have "\<exists>header. sc_BeaconBlockHeader b = Some header \<and> proves_inclusion (Sum256 E) kzgOffset b header"
    if "b \<in> set bs" for b
  proof -
    from that obtain i where i: "i < length bs" "b = bs ! i" by (metis in_set_conv_nth)
    then have "sc_BeaconBlockHeader b = Some (headers ! i)" using h by (metis length_map nth_map)
    then show ?thesis using i list_all2_nthD [OF h(2) i(1)] by blast
  qed
  then show "\<forall>sc \<in> set l. \<exists>b. sc = Some b \<and> HasValidInclusionProof E kzgOffset b = Inr True"
    using valid by (auto simp: l)
qed

text \<open>
  C19. \<open>VerifyBlobs\<close> accepts sidecars exactly when: no sidecar and no header is nil; each sidecar's branch, of at most
  255 hashes, leads from the digest of its commitment to the body root of its header, at its index behind the offset; the KZG
  library accepts the blob, proof and commitment of a single sidecar, or the lists of all blobs, proofs and commitments of
  several in one batch; and the headers of several sidecars have one hash tree root. The order in which the goroutines
  end does not matter. Commitments have 48 bytes, as their type says.
\<close>

theorem VerifyBlobs_accepts:
  assumes "pair_hasher (merkle H)" and "set sch = {0, 1, 2}"
    and "\<forall>b. Some b \<in> set (sidecar_list scs) \<longrightarrow> length (sc_KzgCommitment b) = 48"
  shows "Verifier_VerifyBlobs H sch bv scs kzgOffset = Inr () \<longleftrightarrow>
    (\<exists>bs headers. sidecar_list scs = map Some bs \<and> map sc_BeaconBlockHeader bs = map Some headers \<and>
       list_all2 (proves_inclusion (Sum256 (merkle H)) kzgOffset) bs headers \<and>
       (case bs of
          [] \<Rightarrow> True
        | [b] \<Rightarrow> VerifyBlobProof bv (sc_Blob b) (sc_KzgProof b) (sc_KzgCommitment b) = Inr ()
        | _ \<Rightarrow> VerifyBlobProofBatch bv \<lparr>pa_Blobs = map sc_Blob bs, pa_Proofs = map sc_KzgProof bs,
                 pa_Commitments = map sc_KzgCommitment bs\<rparr> = Inr ()) \<and>
       (length bs \<le> 1 \<or> (\<exists>r. \<forall>header \<in> set headers. htr_BeaconBlockHeader H header = Inr r)))"
proof -
  have "set sch = {..<length [VerifyInclusionProofs (merkle H) kzgOffset scs, VerifyKZGProofs bv scs, ValidateBlockRoots H scs]}"
    using assms(2) by auto
  then have "Verifier_VerifyBlobs H sch bv scs kzgOffset = Inr () \<longleftrightarrow>
      VerifyInclusionProofs (merkle H) kzgOffset scs = Inr () \<and> VerifyKZGProofs bv scs = Inr () \<and> ValidateBlockRoots H scs = Inr ()"
    unfolding Verifier_VerifyBlobs_def by (simp only: errgroup_ok) (simp add: not_isl_unit)
  moreover have "(\<forall>sc \<in> set (map Some bs). header_root H sc = Inr r) \<longleftrightarrow>
      (\<forall>header \<in> set headers. htr_BeaconBlockHeader H header = Inr r)"
    if "map sc_BeaconBlockHeader bs = map Some headers" for bs headers r
    using that by (induction bs arbitrary: headers) (auto simp: header_root_def Cons_eq_map_conv)
  ultimately show ?thesis
    unfolding VerifyInclusionProofs_iff all_sidecars [OF assms(1,3)] ValidateBlockRoots_iff
    using VerifyKZGProofs_iff [of scs _ bv] by (auto cong: conj_cong)
qed

theorem VerifyBlobs_accepts_witness:
  "\<exists>scs. BuildSidecars blob_env [1, 0] True (NewSidecarFactory BaseSpec KZGPositionDeneb) blob_block blob_bundle =
      (\<lparr>Sidecars = Some (map Some scs)\<rparr>, Inr ()) \<and> length scs = 2 \<and>
    Verifier_VerifyBlobs blob_env [2, 0, 1]
      \<lparr>VerifyBlobProof = (\<lambda>_ _ _. Inl ErrNotFound),
       VerifyBlobProofBatch = (\<lambda>args. if pa_Commitments args = bb_Commitments blob_bundle then Inr () else Inl ErrNotFound)\<rparr>
      \<lparr>Sidecars = Some (map Some scs)\<rparr> 416 = Inr ()"
proof -
  obtain scs where built: "BuildSidecars blob_env [1, 0] True (NewSidecarFactory BaseSpec KZGPositionDeneb) blob_block blob_bundle =
      (\<lparr>Sidecars = Some (map Some scs)\<rparr>, Inr ())"
    and comm: "map sc_KzgCommitment scs = bb_Commitments blob_bundle"
    and ok: "VerifyInclusionProofs (merkle blob_env) 416 \<lparr>Sidecars = Some (map Some scs)\<rparr> = Inr ()"
      "ValidateBlockRoots blob_env \<lparr>Sidecars = Some (map Some scs)\<rparr> = Inr ()"
    using blob_sidecars by blast
  obtain a b where scs: "scs = [a, b]" using comm by (auto simp: blob_bundle_def map_eq_Cons_conv)
  let ?S = "\<lparr>Sidecars = Some (map Some scs)\<rparr>"
  let ?bv = "\<lparr>VerifyBlobProof = (\<lambda>_ _ _. Inl ErrNotFound),
     VerifyBlobProofBatch = (\<lambda>args. if pa_Commitments args = bb_Commitments blob_bundle then Inr () else Inl ErrNotFound)\<rparr>"
  have list: "sidecar_list ?S = map Some scs" by (simp add: sidecar_list_def)
  have hash: "pair_hasher (merkle blob_env)" using reference.pair_hasher_axioms by simp
  have len: "\<forall>b. Some b \<in> set (sidecar_list ?S) \<longrightarrow> length (sc_KzgCommitment b) = 48"
    using comm unfolding list by (auto simp: scs blob_bundle_def)
  from ok(1) have "\<exists>bs headers. map Some scs = map Some bs \<and> map sc_BeaconBlockHeader bs = map Some headers \<and>
      list_all2 (proves_inclusion (Sum256 (merkle blob_env)) 416) bs headers"
    using all_sidecars [OF hash len, of 416] by (simp only: VerifyInclusionProofs_iff list)
  then obtain headers where h: "map sc_BeaconBlockHeader scs = map Some headers"
      "list_all2 (proves_inclusion (Sum256 (merkle blob_env)) 416) scs headers"
    by (auto simp: inj_map_eq_map)
  moreover from ok(2) h(1) have "\<exists>r. \<forall>header \<in> set headers. htr_BeaconBlockHeader blob_env header = Inr r"
    unfolding ValidateBlockRoots_iff list by (auto simp: scs header_root_def Cons_eq_map_conv)
  ultimately have "Verifier_VerifyBlobs blob_env [2, 0, 1] ?bv ?S 416 = Inr ()"
    using comm by (subst VerifyBlobs_accepts [OF hash _ len]) (auto simp: sidecar_list_def scs intro!: exI [of _ scs] exI [of _ headers])
  moreover have "length scs = 2" by (simp add: scs)
  ultimately show ?thesis using built by blast
qed

end
