(* ===== verification/Availability.thy ===== *)
theory Availability
  imports Blobs FileDB
begin

section \<open>The availability store, the deposit store and the pruners\<close>

text \<open>
  \<open>da/pkg/store\<close>, \<open>storage/pkg/deposit\<close>, \<open>storage/pkg/pruner\<close>, \<open>storage/pkg/manager\<close> and the two
  functions that compute what a finalized block lets a pruner remove (\<open>da/pkg/store/pruner.go\<close>,
  \<open>execution/pkg/deposit/pruner.go\<close>).

  The availability store relies on an index database; the interface is the locale \<open>index_db\<close>, which
  the range database of \<open>FileDB\<close> provides over any file system. The deposit store relies on a map of
  the Cosmos SDK, with the laws of the locale \<open>deposit_map\<close>.

  Shown: after a successful \<open>Persist\<close> the data of the block is available, and it stays so while the
  pruner handles finalized blocks of the retention window; the deposit queue returns the contiguous
  run of deposits from an index, and pruning never removes a deposit that is still to be processed.
\<close>

subsection \<open>The availability store\<close>

text \<open>
  The interface \<open>IndexDB\<close>: \<open>has\<close>, \<open>set\<close> and \<open>prune\<close>. A failed \<open>set\<close> may leave anything at its own key,
  a failed \<open>prune\<close> may have removed a part of its range.
\<close>

locale index_db =
  fixes has :: "u64 \<Rightarrow> bytes \<Rightarrow> ('s, bool) M"
    and set_key :: "u64 \<Rightarrow> bytes \<Rightarrow> bytes \<Rightarrow> ('s, unit) M"
    and prune :: "u64 \<Rightarrow> u64 \<Rightarrow> ('s, unit) M"
    and contents :: "'s \<Rightarrow> u64 \<times> bytes \<rightharpoonup> bytes" and good :: "'s \<Rightarrow> bool"
  assumes has_law: "good s \<Longrightarrow> has i k s = (b, s') \<Longrightarrow>
      good s' \<and> contents s' = contents s \<and> b = Inr (contents s (i, k) \<noteq> None)"
    and set_law: "good s \<Longrightarrow> set_key i k v s = (r, s') \<Longrightarrow>
      good s' \<and> (\<forall>p. p \<noteq> (i, k) \<longrightarrow> contents s' p = contents s p) \<and>
      (r = Inr () \<longrightarrow> contents s' (i, k) = Some v)"
    and prune_law: "good s \<Longrightarrow> prune i j s = (r, s') \<Longrightarrow>
      good s' \<and> (\<forall>p. contents s' p = contents s p \<or> i \<le> fst p \<and> fst p < j)"

record 's Store =
  IndexDB_Has :: "u64 \<Rightarrow> bytes \<Rightarrow> ('s, bool) M"
  IndexDB_Set :: "u64 \<Rightarrow> bytes \<Rightarrow> bytes \<Rightarrow> ('s, unit) M"
  store_chainSpec :: SpecData

definition NewStore ::
  "(u64 \<Rightarrow> bytes \<Rightarrow> ('s, bool) M) \<Rightarrow> (u64 \<Rightarrow> bytes \<Rightarrow> bytes \<Rightarrow> ('s, unit) M) \<Rightarrow> SpecData \<Rightarrow> 's Store" where
  "NewStore has set_key chainSpec =
     \<lparr>IndexDB_Has = has, IndexDB_Set = set_key, store_chainSpec = chainSpec\<rparr>"

fun all_present :: "'s Store \<Rightarrow> u64 \<Rightarrow> bytes list \<Rightarrow> 's \<Rightarrow> bool \<times> 's" where
  "all_present st slot [] s = (True, s)"
| "all_present st slot (commitment # commitments) s =
     (case IndexDB_Has st slot commitment s of
        (Inr True, s) \<Rightarrow> all_present st slot commitments s
      | (_, s) \<Rightarrow> (False, s))"

definition IsDataAvailable :: "'s Store \<Rightarrow> u64 \<Rightarrow> BeaconBlockBodyDeneb \<Rightarrow> 's \<Rightarrow> bool \<times> 's" where
  "IsDataAvailable st slot body s = all_present st slot (bd_BlobKzgCommitments body) s"

text \<open>\<open>marshal\<close> is the generated SSZ encoding of a sidecar.\<close>

definition store_sidecar ::
  "(BlobSidecar \<Rightarrow> err + bytes) \<Rightarrow> 's Store \<Rightarrow> u64 \<Rightarrow> BlobSidecar option \<Rightarrow> ('s, unit) M" where
  "store_sidecar marshal st slot sidecar =
     (case sidecar of
        None \<Rightarrow> throw (Newf ''attempted to store nil sidecar'')
      | Some sc \<Rightarrow> bindM (liftE (marshal sc)) (\<lambda>bz. IndexDB_Set st slot (sc_KzgCommitment sc) bz))"

text \<open>
  \<open>iter.Map\<close> runs all calls concurrently; \<open>sch\<close> is the order in which they take effect. Every call
  runs, whatever the others return, and the results are collected by index.
\<close>

fun run_all :: "nat list \<Rightarrow> (nat \<Rightarrow> ('s, unit) M) \<Rightarrow> 's \<Rightarrow> (nat \<times> (err + unit)) list \<times> 's" where
  "run_all [] f s = ([], s)"
| "run_all (i # sch) f s =
     (let (r, s) = f i s; (rs, s) = run_all sch f s in ((i, r) # rs, s))"

definition iter_Map :: "nat list \<Rightarrow> nat \<Rightarrow> (nat \<Rightarrow> ('s, unit) M) \<Rightarrow> 's \<Rightarrow> (err + unit) list \<times> 's" where
  "iter_Map sch n f s =
     (let (rs, s) = run_all sch f s
      in (map (\<lambda>i. case map_of rs i of None \<Rightarrow> Inr () | Some r \<Rightarrow> r) [0..<n], s))"

definition Persist ::
  "(BlobSidecar \<Rightarrow> err + bytes) \<Rightarrow> nat list \<Rightarrow> 's Store \<Rightarrow> u64 \<Rightarrow> BlobSidecars option \<Rightarrow> ('s, unit) M" where
  "Persist marshal sch st slot sidecars =
     (if BlobSidecars_IsNil sidecars then ret ()
      else
      let scs = sidecar_list (the sidecars) in
      if length scs = 0 then ret ()
      else
      bindM (liftE (case scs ! 0 of
          None \<Rightarrow> Inl (Panic ''nil pointer dereference'')
        | Some sc \<Rightarrow>
            (case sc_BeaconBlockHeader sc of
               None \<Rightarrow> Inl (Panic ''nil pointer dereference'')
             | Some header \<Rightarrow> WithinDAPeriod (store_chainSpec st) (hdr_Slot header) slot))) (\<lambda>within.
      if \<not> within then ret ()
      else
      (\<lambda>s. let (rs, s) = iter_Map sch (length scs) (\<lambda>i. store_sidecar marshal st slot (scs ! i)) s
           in (join_errors rs, s))))"

text \<open>The blob processor hands the sidecars to the store (\<open>da/pkg/blob/processor.go\<close>).\<close>

definition ProcessBlobs ::
  "(BlobSidecar \<Rightarrow> err + bytes) \<Rightarrow> nat list \<Rightarrow> 's Store \<Rightarrow> u64 \<Rightarrow> BlobSidecars option \<Rightarrow> ('s, unit) M" where
  "ProcessBlobs marshal sch avs slot sidecars =
     bindM (liftE (from_option (Panic ''nil pointer dereference'') sidecars)) (\<lambda>_.
     Persist marshal sch avs slot sidecars)"

subsection \<open>Pruners\<close>

text \<open>A block event: its type, one of the constants of \<open>primitives/pkg/events\<close>, and the block.\<close>

datatype event_type = MissedSlot | BeaconBlockAccepted | BeaconBlockRejected | BeaconBlockFinalized

record BlockEvent =
  ev_type :: event_type
  ev_block :: BeaconBlockDeneb

record 's DBPruner =
  prunable :: "u64 \<Rightarrow> u64 \<Rightarrow> ('s, unit) M"
  pruneRangeFn :: "BlockEvent \<Rightarrow> u64 \<times> u64"

definition NewPruner :: "(u64 \<Rightarrow> u64 \<Rightarrow> ('s, unit) M) \<Rightarrow> (BlockEvent \<Rightarrow> u64 \<times> u64) \<Rightarrow> 's DBPruner" where
  "NewPruner prune rangeFn = \<lparr>prunable = prune, pruneRangeFn = rangeFn\<rparr>"

text \<open>One event of the loop of \<open>Start\<close>: an error of the pruning is logged and dropped.\<close>

definition pruner_step :: "'s DBPruner \<Rightarrow> BlockEvent \<Rightarrow> 's \<Rightarrow> 's" where
  "pruner_step p event s =
     (if ev_type event = BeaconBlockFinalized
      then let (start, end') = pruneRangeFn p event in snd (prunable p start end' s)
      else s)"

definition pruner_run :: "'s DBPruner \<Rightarrow> BlockEvent list \<Rightarrow> 's \<Rightarrow> 's" where
  "pruner_run p events s = fold (pruner_step p) events s"

definition da_BuildPruneRangeFn :: "SpecData \<Rightarrow> BlockEvent \<Rightarrow> u64 \<times> u64" where
  "da_BuildPruneRangeFn c event =
     (let window = MinEpochsForBlobsSidecarsRequest c * SlotsPerEpoch c;
          slot = blk_Slot (ev_block event)
      in if slot < window then (0, 0) else (0, slot - window))"

definition deposit_BuildPruneRangeFn :: "SpecData \<Rightarrow> BlockEvent \<Rightarrow> u64 \<times> u64" where
  "deposit_BuildPruneRangeFn c event =
     (let deposits = bd_Deposits (blk_Body (ev_block event)) in
      if length deposits = 0 then (0, 0)
      else
      let index = dep_Index (deposits ! (length deposits - 1));
          end' = min index (MaxDepositsPerBlock c)
      in if index < MaxDepositsPerBlock c then (0, end')
         else (index - MaxDepositsPerBlock c, end'))"

subsection \<open>The deposit store\<close>

text \<open>
  \<open>collections.Map\<close> with \<open>uint64\<close> keys and SSZ values. Removing a key does not fail, since every
  key can be encoded; setting one fails when the deposit cannot be encoded.
\<close>

record 'c DepositKV =
  dkv_Get :: "u64 \<Rightarrow> ('c, Deposit) M"
  dkv_Set :: "u64 \<Rightarrow> Deposit \<Rightarrow> ('c, unit) M"
  dkv_Remove :: "u64 \<Rightarrow> ('c, unit) M"

locale deposit_map =
  fixes kv :: "'c DepositKV" and view :: "'c \<Rightarrow> u64 \<rightharpoonup> Deposit"
  assumes dkv_Get: "dkv_Get kv i s = (r, s') \<Longrightarrow> view s' = view s \<and> r = from_option ErrNotFound (view s i)"
    and dkv_Set: "dkv_Set kv i d s = (u, s') \<Longrightarrow>
      (case u of Inl _ \<Rightarrow> view s' = view s | Inr _ \<Rightarrow> view s' = (view s)(i \<mapsto> d))"
    and dkv_Remove: "dkv_Remove kv i s = (u, s') \<Longrightarrow> u = Inr () \<and> view s' = (view s)(i := None)"

fun get_deposits :: "'c DepositKV \<Rightarrow> u64 list \<Rightarrow> Deposit list \<Rightarrow> 'c \<Rightarrow> (err + Deposit list) \<times> 'c" where
  "get_deposits kv [] deposits s = (Inr deposits, s)"
| "get_deposits kv (i # ixs) deposits s =
     (case dkv_Get kv i s of
        (Inl e, s) \<Rightarrow> if e = ErrNotFound then (Inr deposits, s) else (Inl e, s)
      | (Inr d, s) \<Rightarrow> get_deposits kv ixs (deposits @ [d]) s)"

definition GetDepositsByIndex :: "'c DepositKV \<Rightarrow> u64 \<Rightarrow> u64 \<Rightarrow> ('c, Deposit list) M" where
  "GetDepositsByIndex kv startIndex numView =
     get_deposits kv (map (\<lambda>i. startIndex + i) (range_u64 numView)) []"

definition setDeposit :: "'c DepositKV \<Rightarrow> Deposit \<Rightarrow> ('c, unit) M" where
  "setDeposit kv deposit = dkv_Set kv (dep_Index deposit) deposit"

definition EnqueueDeposit :: "'c DepositKV \<Rightarrow> Deposit \<Rightarrow> ('c, unit) M" where
  "EnqueueDeposit kv deposit = setDeposit kv deposit"

definition EnqueueDeposits :: "'c DepositKV \<Rightarrow> Deposit list \<Rightarrow> ('c, unit) M" where
  "EnqueueDeposits kv deposits = forM deposits (setDeposit kv)"

definition Deposit_Prune :: "'c DepositKV \<Rightarrow> u64 \<Rightarrow> u64 \<Rightarrow> ('c, unit) M" where
  "Deposit_Prune kv start end' = forM (range_u64 end') (\<lambda>i. dkv_Remove kv (start + i))"

subsection \<open>Lemmas over the index database\<close>

context index_db
begin

abbreviation store :: "SpecData \<Rightarrow> 's Store" where
  "store c \<equiv> NewStore has set_key c"

lemma store_simps [simp]:
  "IndexDB_Has (store c) = has" "IndexDB_Set (store c) = set_key" "store_chainSpec (store c) = c"
  by (simp_all add: NewStore_def)

lemma all_present_iff:
  "good s \<Longrightarrow> all_present (store c) slot ks s = (b, s') \<Longrightarrow>
   good s' \<and> contents s' = contents s \<and> (b \<longleftrightarrow> (\<forall>k \<in> set ks. contents s (slot, k) \<noteq> None))"
proof (induction ks arbitrary: s)
  case (Cons k ks)
  obtain r s1 where h: "has slot k s = (r, s1)" by fastforce
  note law = has_law [OF Cons.prems(1) h]
  show ?case
  proof (cases "contents s (slot, k)")
    case None
    then show ?thesis using Cons.prems law h by auto
  next
    case (Some v)
    then have "all_present (store c) slot ks s1 = (b, s')" using Cons.prems law h by simp
    from Cons.IH [OF _ this] show ?thesis using law Some by simp
  qed
qed simp

lemma store_sidecar_keeps:
  assumes "good s" "store_sidecar marshal (store c) slot sc s = (r, s')"
  shows "good s'"
    and "r = Inr () \<Longrightarrow> \<exists>b. sc = Some b \<and> contents s' (slot, sc_KzgCommitment b) \<noteq> None"
    and "r = Inr () \<Longrightarrow> contents s p \<noteq> None \<Longrightarrow> contents s' p \<noteq> None"
proof -
  have "good s' \<and> (r = Inr () \<longrightarrow> (\<exists>b. sc = Some b \<and> contents s' (slot, sc_KzgCommitment b) \<noteq> None) \<and>
      (contents s p \<noteq> None \<longrightarrow> contents s' p \<noteq> None))"
  proof (cases sc)
    case None
    then show ?thesis using assms by (auto simp: store_sidecar_def)
  next
    case (Some b)
    show ?thesis
    proof (cases "marshal b")
      case (Inl e)
      then show ?thesis using assms Some by (auto simp: store_sidecar_def bindM_liftE)
    next
      case (Inr bz)
      then have "set_key slot (sc_KzgCommitment b) bz s = (r, s')"
        using assms Some by (simp add: store_sidecar_def bindM_liftE)
      from set_law [OF assms(1) this] show ?thesis
        using Some by (cases p; cases "p = (slot, sc_KzgCommitment b)") auto
    qed
  qed
  then show "good s'"
    and "r = Inr () \<Longrightarrow> \<exists>b. sc = Some b \<and> contents s' (slot, sc_KzgCommitment b) \<noteq> None"
    and "r = Inr () \<Longrightarrow> contents s p \<noteq> None \<Longrightarrow> contents s' p \<noteq> None"
    by blast+
qed

lemma run_all_stores:
  "good s \<Longrightarrow> run_all sch (\<lambda>i. store_sidecar marshal (store c) slot (scs ! i)) s = (rs, s') \<Longrightarrow>
   good s' \<and> map fst rs = sch \<and>
   ((\<forall>r \<in> snd ` set rs. r = Inr ()) \<longrightarrow>
      (\<forall>i \<in> set sch. \<exists>b. scs ! i = Some b \<and> contents s' (slot, sc_KzgCommitment b) \<noteq> None) \<and>
      (\<forall>p. contents s p \<noteq> None \<longrightarrow> contents s' p \<noteq> None))"
proof (induction sch arbitrary: s rs)
  case (Cons i sch)
  obtain r s1 where st: "store_sidecar marshal (store c) slot (scs ! i) s = (r, s1)" by fastforce
  obtain rs1 where rest: "run_all sch (\<lambda>i. store_sidecar marshal (store c) slot (scs ! i)) s1 = (rs1, s')"
    and rs: "rs = (i, r) # rs1"
    using Cons.prems(2) st by (auto split: prod.splits)
  note keep = store_sidecar_keeps [OF Cons.prems(1) st]
  note IH = Cons.IH [OF keep(1) rest]
  show ?case
  proof (intro conjI impI)
    show "good s'" "map fst rs = i # sch" using IH rs by auto
    assume ok: "\<forall>r \<in> snd ` set rs. r = Inr ()"
    then have r: "r = Inr ()" and ok1: "\<forall>r \<in> snd ` set rs1. r = Inr ()" using rs by auto
    obtain b where b: "scs ! i = Some b" "contents s1 (slot, sc_KzgCommitment b) \<noteq> None"
      using keep(2) [OF r] by auto
    show "\<forall>j \<in> set (i # sch). \<exists>b. scs ! j = Some b \<and> contents s' (slot, sc_KzgCommitment b) \<noteq> None"
      using IH ok1 b by auto
    show "\<forall>p. contents s p \<noteq> None \<longrightarrow> contents s' p \<noteq> None"
      using IH ok1 keep(3) [OF r] by blast
  qed
qed simp

lemma iter_Map_stores:
  assumes "good s" "distinct sch" "set sch = {..<n}"
    and "iter_Map sch n (\<lambda>i. store_sidecar marshal (store c) slot (scs ! i)) s = (rs, s')"
    and "join_errors rs = Inr ()"
  shows "good s' \<and> (\<forall>i < n. \<exists>b. scs ! i = Some b \<and> contents s' (slot, sc_KzgCommitment b) \<noteq> None)"
proof -
  obtain ps where run: "run_all sch (\<lambda>i. store_sidecar marshal (store c) slot (scs ! i)) s = (ps, s')"
    and rs: "rs = map (\<lambda>i. case map_of ps i of None \<Rightarrow> Inr () | Some r \<Rightarrow> r) [0..<n]"
    using assms(4) by (auto simp: iter_Map_def split: prod.splits)
  note stores = run_all_stores [OF assms(1) run]
  have "r = Inr ()" if "(i, r) \<in> set ps" for i r
  proof -
    have "map_of ps i = Some r" using that stores assms(2) by (intro map_of_is_SomeI) auto
    moreover have "i < n" using that stores assms(3) by (metis fst_conv in_set_conv_nth length_map lessThan_iff nth_map nth_mem)
    ultimately have "r \<in> set rs" by (auto simp: rs intro!: image_eqI [of _ _ i])
    then have "\<not> isl r" using assms(5) by (simp add: join_errors_ok)
    then show ?thesis by (cases r) simp_all
  qed
  then have "\<forall>r \<in> snd ` set ps. r = Inr ()" by auto
  then show ?thesis using stores assms(3) by auto
qed

lemma Persist_stores:
  assumes "good s" "distinct sch" "set sch = {..<length (sidecar_list scs)}"
    and "Persist marshal sch (store c) slot (Some scs) s = (Inr (), s')"
    and "sidecar_list scs ! 0 = Some sc0" "sc_BeaconBlockHeader sc0 = Some h"
    and "WithinDAPeriod c (hdr_Slot h) slot = Inr True"
  shows "good s' \<and> (\<forall>sc \<in> set (sidecar_list scs).
           \<exists>b. sc = Some b \<and> contents s' (slot, sc_KzgCommitment b) \<noteq> None)"
proof (cases "sidecar_list scs = []")
  case True
  then show ?thesis using assms(1,4) by (auto simp: Persist_def split: if_splits)
next
  case False
  let ?n = "length (sidecar_list scs)"
  have "\<not> BlobSidecars_IsNil (Some scs)"
    using False by (auto simp: BlobSidecars_IsNil_def sidecar_list_def split: option.splits)
  then obtain rs where it: "iter_Map sch ?n (\<lambda>i. store_sidecar marshal (store c) slot (sidecar_list scs ! i)) s = (rs, s')"
    and ok: "join_errors rs = Inr ()"
    using assms(4-7) False by (auto simp: Persist_def bindM_liftE Let_def split: prod.splits)
  from iter_Map_stores [OF assms(1-3) it ok] show ?thesis
    by (auto simp: in_set_conv_nth)
qed

lemma pruner_keeps:
  assumes "good s" "\<forall>ev \<in> set evs. ev_type ev = BeaconBlockFinalized \<longrightarrow> snd (rangeFn ev) \<le> slot"
  shows "good (pruner_run (NewPruner prune rangeFn) evs s) \<and>
    (\<forall>k. contents (pruner_run (NewPruner prune rangeFn) evs s) (slot, k) = contents s (slot, k))"
  using assms
proof (induction evs arbitrary: s)
  case (Cons ev evs)
  let ?s1 = "pruner_step (NewPruner prune rangeFn) ev s"
  have "good ?s1 \<and> (\<forall>k. contents ?s1 (slot, k) = contents s (slot, k))"
  proof (cases "ev_type ev = BeaconBlockFinalized")
    case True
    obtain a e where r: "rangeFn ev = (a, e)" by fastforce
    obtain u s1 where p: "prune a e s = (u, s1)" by fastforce
    have "e \<le> slot" using Cons.prems(2) True r by simp
    then show ?thesis
      using prune_law [OF Cons.prems(1) p] True r p by (fastforce simp: pruner_step_def NewPruner_def)
  qed (use Cons.prems(1) in \<open>simp add: pruner_step_def\<close>)
  then show ?case
    using Cons.IH [of ?s1] Cons.prems(2) by (simp add: pruner_run_def)
qed (simp add: pruner_run_def)

end

text \<open>The range database over a file system is an index database.\<close>

sublocale range_files \<subseteq> index: index_db "RangeDB_Has (file_interface db)" "RangeDB_Set (file_interface db)"
  "RangeDB_Prune (file_interface db)" "range_contents view db" "range_no_dirs view db"
proof
  fix s i k and b :: "err + bool" and s'
  assume "range_no_dirs view db s" "RangeDB_Has (file_interface db) i k s = (b, s')"
  then show "range_no_dirs view db s' \<and> contents s' = contents s \<and> b = Inr (contents s (i, k) \<noteq> None)"
    using Has_contents by blast
next
  fix s i k v and r :: "err + unit" and s'
  assume "range_no_dirs view db s" and r: "RangeDB_Set (file_interface db) i k v s = (r, s')"
  then show "range_no_dirs view db s' \<and> (\<forall>p. p \<noteq> (i, k) \<longrightarrow> contents s' p = contents s p) \<and>
      (r = Inr () \<longrightarrow> contents s' (i, k) = Some v)"
    using Set_contents [OF r] by auto
next
  fix s i j and r :: "err + unit" and s'
  assume "range_no_dirs view db s" and r: "RangeDB_Prune (file_interface db) i j s = (r, s')"
  then show "range_no_dirs view db s' \<and> (\<forall>p. contents s' p = contents s p \<or> i \<le> fst p \<and> fst p < j)"
    using Prune_contents(1,2) [OF r] by fastforce
qed

context range_files
begin

lemma is_index_db: "index_db (RangeDB_Has (file_interface db)) (RangeDB_Set (file_interface db))
    (RangeDB_Prune (file_interface db)) (range_contents view db) (range_no_dirs view db)"
  by (rule index.index_db_axioms)

end

subsection \<open>Availability of persisted data\<close>

text \<open>
  C20. Data that was persisted is available, and stays so for the retention window. If \<open>Persist\<close> succeeds
  for the sidecars of a slot inside the data availability period, in any order of its concurrent
  writes, then \<open>IsDataAvailable\<close> answers yes for every body whose commitments have sidecars; and it
  still does after the pruner has handled any sequence of block events, as long as the finalized
  blocks among them are at most \<open>MinEpochsForBlobsSidecarsRequest * SlotsPerEpoch\<close> slots later. This holds
  for the range database over every file system.
\<close>

theorem Persist_available:
  assumes "range_files fs view db" and "range_no_dirs view db r"
    and "st = NewStore (RangeDB_Has (file_interface db)) (RangeDB_Set (file_interface db)) c"
    and "pr = NewPruner (RangeDB_Prune (file_interface db)) (da_BuildPruneRangeFn c)"
    and "distinct sch" and "set sch = {..<length (sidecar_list scs)}"
    and "sidecar_list scs ! 0 = Some fsc" and "sc_BeaconBlockHeader fsc = Some h"
    and "WithinDAPeriod c (hdr_Slot h) slot = Inr True"
    and "Persist marshal sch st slot (Some scs) r = (Inr (), r')"
    and "\<And>k. k \<in> set (bd_BlobKzgCommitments body) \<Longrightarrow> \<exists>sc. Some sc \<in> set (sidecar_list scs) \<and> sc_KzgCommitment sc = k"
    and "\<And>ev. ev \<in> set evs \<Longrightarrow> ev_type ev = BeaconBlockFinalized \<Longrightarrow>
           unat (blk_Slot (ev_block ev)) \<le> unat slot + unat (MinEpochsForBlobsSidecarsRequest c * SlotsPerEpoch c)"
  shows "fst (IsDataAvailable st slot body (pruner_run pr evs r'))"
proof -
  have I: "index_db (RangeDB_Has (file_interface db)) (RangeDB_Set (file_interface db))
      (RangeDB_Prune (file_interface db)) (range_contents view db) (range_no_dirs view db)"
    using assms(1) by (rule range_files.is_index_db)
  have stored: "range_no_dirs view db r' \<and> (\<forall>sc \<in> set (sidecar_list scs).
      \<exists>b. sc = Some b \<and> range_contents view db r' (slot, sc_KzgCommitment b) \<noteq> None)"
    using index_db.Persist_stores [OF I assms(2,5,6) _ assms(7,8,9)] assms(3,10) by simp
  have "snd (da_BuildPruneRangeFn c ev) \<le> slot" if "ev \<in> set evs" "ev_type ev = BeaconBlockFinalized" for ev
    using assms(12) [OF that] by (auto simp: da_BuildPruneRangeFn_def Let_def word_le_nat_alt word_less_nat_alt unat_sub)
  then have kept: "range_no_dirs view db (pruner_run pr evs r') \<and>
      (\<forall>k. range_contents view db (pruner_run pr evs r') (slot, k) = range_contents view db r' (slot, k))"
    using index_db.pruner_keeps [OF I, of r' evs "da_BuildPruneRangeFn c" slot] stored assms(4) by simp
  have "\<forall>k \<in> set (bd_BlobKzgCommitments body). range_contents view db r' (slot, k) \<noteq> None"
    using assms(11) stored by fastforce
  then show ?thesis
    using index_db.all_present_iff [OF I, of "pruner_run pr evs r'" c slot "bd_BlobKzgCommitments body"] kept assms(3)
    by (cases "IsDataAvailable st slot body (pruner_run pr evs r')") (simp add: IsDataAvailable_def)
qed

definition demo_sidecar :: BlobSidecar where
  "demo_sidecar = \<lparr>sc_Index = 0, sc_Blob = [5], sc_KzgCommitment = replicate 48 1, sc_KzgProof = replicate 48 3,
     sc_BeaconBlockHeader = Some (NewBeaconBlockHeader 4 0 zero32 zero32 zero32), sc_InclusionProof = []\<rparr>"

definition demo_store :: "(bytes list \<Rightarrow> entry option) RangeDB Store" where
  "demo_store = NewStore (RangeDB_Has (file_interface mem_db)) (RangeDB_Set (file_interface mem_db)) BaseSpec"

definition demo_pruner :: "(bytes list \<Rightarrow> entry option) RangeDB DBPruner" where
  "demo_pruner = NewPruner (RangeDB_Prune (file_interface mem_db)) (da_BuildPruneRangeFn BaseSpec)"

definition demo_event :: BlockEvent where
  "demo_event = \<lparr>ev_type = BeaconBlockFinalized, ev_block = demo_block\<rparr>"

lemma demo_Persist:
  "\<exists>r'. Persist (\<lambda>sc. Inr (sc_Blob sc)) [0] demo_store 4 (Some \<lparr>Sidecars = Some [Some demo_sidecar]\<rparr>)
     (NewRangeDB mem_root) = (Inr (), r')"
proof -
  obtain r' where "RangeDB_Set (file_interface mem_db) 4 (replicate 48 1) [5] (NewRangeDB mem_root) = (Inr (), r')"
    using mem_Set_succeeds [of mem_root 4 "replicate 48 1" "[5]" 0]
    by (cases "RangeDB_Set (file_interface mem_db) 4 (replicate 48 1) [5] (NewRangeDB mem_root)")
      (auto simp: mem_root_def NewRangeDB_def)
  moreover have "WithinDAPeriod BaseSpec 4 4 = Inr True"
    by (simp add: WithinDAPeriod_def SlotToEpoch_def)
  ultimately show ?thesis
    by (simp add: Persist_def BlobSidecars_IsNil_def sidecar_list_def demo_sidecar_def demo_store_def NewStore_def
        NewBeaconBlockHeader_def bindM_liftE iter_Map_def store_sidecar_def Let_def)
qed

theorem Persist_available_witness:
  "\<exists>r'. Persist (\<lambda>sc. Inr (sc_Blob sc)) [0] demo_store 4 (Some \<lparr>Sidecars = Some [Some demo_sidecar]\<rparr>)
     (NewRangeDB mem_root) = (Inr (), r') \<and>
   fst (IsDataAvailable demo_store 4 (demo_body\<lparr>bd_BlobKzgCommitments := [replicate 48 1]\<rparr>)
     (pruner_run demo_pruner [demo_event] r'))"
proof -
  obtain r' where r': "Persist (\<lambda>sc. Inr (sc_Blob sc)) [0] demo_store 4
      (Some \<lparr>Sidecars = Some [Some demo_sidecar]\<rparr>) (NewRangeDB mem_root) = (Inr (), r')"
    using demo_Persist by blast
  have "fst (IsDataAvailable demo_store 4 (demo_body\<lparr>bd_BlobKzgCommitments := [replicate 48 1]\<rparr>)
     (pruner_run demo_pruner [demo_event] r'))"
    by (rule Persist_available [OF mem_range.range_files_axioms mem_root_no_dirs demo_store_def demo_pruner_def
          _ _ _ _ _ r', where fsc = demo_sidecar and h = "NewBeaconBlockHeader 4 0 zero32 zero32 zero32"])
      (auto simp: sidecar_list_def demo_sidecar_def demo_event_def WithinDAPeriod_def SlotToEpoch_def NewBeaconBlockHeader_def)
  then show ?thesis using r' by blast
qed

text \<open>
  The two notions of the retention period differ: the store counts epochs, the pruner slots. At the
  slot after the last one whose blobs are all kept, the pruner removes the blobs of slot 0 although
  they are within the data availability period for the rest of the epoch.
\<close>

lemma pruned_within_DA_period:
  "WithinDAPeriod BaseSpec 0 (4096 * SlotsPerEpoch BaseSpec + 1) = Inr True \<and>
   0 < snd (da_BuildPruneRangeFn BaseSpec \<lparr>ev_type = BeaconBlockFinalized,
     ev_block = demo_block\<lparr>blk_Slot := 4096 * SlotsPerEpoch BaseSpec + 1\<rparr>\<rparr>)"
  by (simp add: WithinDAPeriod_def SlotToEpoch_def da_BuildPruneRangeFn_def)

subsection \<open>The deposit queue\<close>

context deposit_map
begin

lemma get_deposits_run:
  "get_deposits kv ixs acc s = (r, s') \<Longrightarrow>
   view s' = view s \<and> (\<exists>k \<le> length ixs. r = Inr (acc @ map (\<lambda>i. the (view s i)) (take k ixs)) \<and>
     (\<forall>i \<in> set (take k ixs). view s i \<noteq> None) \<and> (k < length ixs \<longrightarrow> view s (ixs ! k) = None))"
proof (induction ixs arbitrary: acc s)
  case (Cons i ixs)
  obtain d s1 where g: "dkv_Get kv i s = (d, s1)" by fastforce
  note law = dkv_Get [OF g]
  show ?case
  proof (cases "view s i")
    case None
    then show ?thesis using Cons.prems g law by (intro conjI exI [of _ 0]) auto
  next
    case (Some x)
    then have "get_deposits kv ixs (acc @ [x]) s1 = (r, s')" using Cons.prems g law by simp
    from Cons.IH [OF this] obtain k where "k \<le> length ixs" "view s' = view s"
      "r = Inr (acc @ [x] @ map (\<lambda>i. the (view s i)) (take k ixs))"
      "\<forall>i \<in> set (take k ixs). view s i \<noteq> None" "k < length ixs \<longrightarrow> view s (ixs ! k) = None"
      using law by auto
    then show ?thesis using Some by (intro conjI exI [of _ "Suc k"]) auto
  qed
qed simp

lemma EnqueueDeposits_view:
  "EnqueueDeposits kv ds s = (Inr (), s') \<Longrightarrow>
   view s' = view s ++ map_of (rev (map (\<lambda>d. (dep_Index d, d)) ds))"
proof (induction ds arbitrary: s)
  case (Cons d ds)
  obtain u s1 where st: "dkv_Set kv (dep_Index d) d s = (Inr u, s1)" and rest: "EnqueueDeposits kv ds s1 = (Inr (), s')"
    using Cons.prems by (auto simp: EnqueueDeposits_def setDeposit_def bindM_success)
  have "view s1 = (view s)(dep_Index d \<mapsto> d)" using dkv_Set [OF st] by simp
  then show ?case using Cons.IH [OF rest] by (simp add: map_add_def fun_eq_iff split: option.splits)
qed (simp add: EnqueueDeposits_def)

lemma remove_all:
  "forM ixs (\<lambda>i. dkv_Remove kv (start + i)) s = (u, s') \<Longrightarrow>
   u = Inr () \<and> view s' = (\<lambda>j. if j \<in> (\<lambda>i. start + i) ` set ixs then None else view s j)"
proof (induction ixs arbitrary: s)
  case (Cons i ixs)
  obtain r s1 where rm: "dkv_Remove kv (start + i) s = (r, s1)" by fastforce
  note law = dkv_Remove [OF rm]
  have "forM ixs (\<lambda>i. dkv_Remove kv (start + i)) s1 = (u, s')"
    using Cons.prems rm law by simp
  from Cons.IH [OF this] show ?case using law by auto
qed auto

lemma Deposit_Prune_view:
  "Deposit_Prune kv start n s = (u, s') \<Longrightarrow>
   u = Inr () \<and> view s' = (\<lambda>j. if j - start < n then None else view s j)"
proof -
  assume "Deposit_Prune kv start n s = (u, s')"
  moreover have "j \<in> (\<lambda>i. start + i) ` set (range_u64 n) \<longleftrightarrow> j - start < n" for j
    by (auto simp: set_range_u64 intro!: image_eqI [of _ _ "j - start"])
  ultimately show ?thesis using remove_all [where start = start and ixs = "range_u64 n" and s = s] by (simp add: Deposit_Prune_def)
qed

end

lemma window_arith:
  fixes m n j B :: nat
  assumes "m \<le> n" "n < B"
  shows "(if n - m \<le> j then j - (n - m) < m else j + B - (n - m) < m) \<longleftrightarrow> j < n \<and> n \<le> j + m"
  using assms by (cases "n - m \<le> j") auto

definition mem_deposits :: "(u64 \<rightharpoonup> Deposit) DepositKV" where
  "mem_deposits = \<lparr>dkv_Get = (\<lambda>i s. (from_option ErrNotFound (s i), s)),
     dkv_Set = (\<lambda>i d s. (Inr (), s(i \<mapsto> d))), dkv_Remove = (\<lambda>i s. (Inr (), s(i := None)))\<rparr>"

interpretation mem_deposit: deposit_map mem_deposits "\<lambda>s. s"
  by unfold_locales (auto simp: mem_deposits_def)

text \<open>
  The deposit store is a queue by index. \<open>EnqueueDeposits\<close> stores every deposit under its index, the
  last one of an index winning; \<open>GetDepositsByIndex\<close> never fails, changes nothing and returns the longest
  run of stored deposits from the start index, cut at the requested number: it stops at the first gap.
\<close>

theorem deposit_queue:
  assumes "deposit_map kv view"
  shows "(EnqueueDeposits kv ds s = (Inr (), s1) \<longrightarrow>
      view s1 = view s ++ map_of (rev (map (\<lambda>d. (dep_Index d, d)) ds))) \<and>
    (\<exists>k s2. k \<le> unat n \<and> view s2 = view s \<and>
      GetDepositsByIndex kv start n s = (Inr (map (\<lambda>i. the (view s (start + of_nat i))) [0..<k]), s2) \<and>
      (\<forall>i < k. view s (start + of_nat i) \<noteq> None) \<and>
      (k < unat n \<longrightarrow> view s (start + of_nat k) = None))"
proof (intro conjI impI)
  show "view s1 = view s ++ map_of (rev (map (\<lambda>d. (dep_Index d, d)) ds))"
    if "EnqueueDeposits kv ds s = (Inr (), s1)"
    by (rule deposit_map.EnqueueDeposits_view [OF assms that])
  let ?ixs = "map (\<lambda>i. start + i) (range_u64 n)"
  have ixs: "length ?ixs = unat n" "?ixs = map (\<lambda>i. start + of_nat i) [0..<unat n]"
    by (simp_all add: range_u64_def)
  obtain r s2 where g: "get_deposits kv ?ixs [] s = (r, s2)" by fastforce
  from deposit_map.get_deposits_run [OF assms this] obtain k where
    k: "k \<le> unat n" "view s2 = view s" "r = Inr (map (\<lambda>i. the (view s i)) (take k ?ixs))"
      "\<forall>i \<in> set (take k ?ixs). view s i \<noteq> None" "k < unat n \<longrightarrow> view s (?ixs ! k) = None"
    using ixs by auto
  have t: "take k ?ixs = map (\<lambda>i. start + of_nat i) [0..<k]"
    using k(1) unfolding ixs(2) by (simp add: take_map min_def)
  show "\<exists>k s2. k \<le> unat n \<and> view s2 = view s \<and>
      GetDepositsByIndex kv start n s = (Inr (map (\<lambda>i. the (view s (start + of_nat i))) [0..<k]), s2) \<and>
      (\<forall>i < k. view s (start + of_nat i) \<noteq> None) \<and>
      (k < unat n \<longrightarrow> view s (start + of_nat k) = None)"
  proof (intro exI [of _ k] exI [of _ s2] conjI)
    show "GetDepositsByIndex kv start n s = (Inr (map (\<lambda>i. the (view s (start + of_nat i))) [0..<k]), s2)"
      using g k(3) unfolding t by (simp add: GetDepositsByIndex_def comp_def)
    show "\<forall>i < k. view s (start + of_nat i) \<noteq> None" using k(4) unfolding t by auto
    show "k < unat n \<longrightarrow> view s (start + of_nat k) = None" using k(5) unfolding ixs(2) by simp
  qed (use k in auto)
qed

definition queue_deposit :: "u64 \<Rightarrow> Deposit" where
  "queue_deposit i = \<lparr>dep_Pubkey = replicate 48 7, dep_Credentials = zero32, dep_Amount = 32000000000,
     dep_Signature = replicate 96 0, dep_Index = i\<rparr>"

theorem deposit_queue_witness:
  "EnqueueDeposits mem_deposits [queue_deposit 7] Map.empty = (Inr (), [7 \<mapsto> queue_deposit 7]) \<and>
   (\<exists>k s2. k \<le> 2 \<and>
      GetDepositsByIndex mem_deposits 7 2 Map.empty = (Inr (map (\<lambda>i. the None) [0..<k]), s2))"
proof -
  have e: "EnqueueDeposits mem_deposits [queue_deposit 7] Map.empty = (Inr (), [7 \<mapsto> queue_deposit 7])"
    by (simp add: EnqueueDeposits_def setDeposit_def mem_deposits_def queue_deposit_def bindM_def)
  show ?thesis
    using deposit_queue [OF mem_deposit.deposit_map_axioms, of "[queue_deposit 7]" Map.empty "[7 \<mapsto> queue_deposit 7]" 2 7] e
    by auto
qed

text \<open>
  Pruning the deposit store is safe and makes progress: after a finalized block whose last deposit
  has index \<open>n\<close>, the pruner has removed the \<open>MaxDepositsPerBlock\<close> deposits before \<open>n\<close>, or all of them if
  there are fewer, and no deposit from \<open>n\<close> on, so none that a later block needs; a block without
  deposits, or an event of another type, removes nothing.
\<close>

theorem deposit_prune_safe:
  assumes "deposit_map kv view"
    and "s' = pruner_step (NewPruner (Deposit_Prune kv) (deposit_BuildPruneRangeFn c)) ev s"
  shows "(ev_type ev \<noteq> BeaconBlockFinalized \<or> bd_Deposits (blk_Body (ev_block ev)) = [] \<longrightarrow> view s' = view s) \<and>
    (ev_type ev = BeaconBlockFinalized \<and> bd_Deposits (blk_Body (ev_block ev)) \<noteq> [] \<longrightarrow>
      (let n = dep_Index (last (bd_Deposits (blk_Body (ev_block ev)))) in
       view s' = (\<lambda>j. if j < n \<and> unat n \<le> unat j + unat (MaxDepositsPerBlock c) then None else view s j)))"
proof -
  have P: "view (snd (Deposit_Prune kv a m s)) = (\<lambda>j. if j - a < m then None else view s j)" for a m
    using deposit_map.Deposit_Prune_view [OF assms(1), of a m s] by (cases "Deposit_Prune kv a m s") simp
  show ?thesis
  proof (cases "ev_type ev = BeaconBlockFinalized \<and> bd_Deposits (blk_Body (ev_block ev)) \<noteq> []")
    case False
    then show ?thesis
      using P [of 0 0] assms(2) by (auto simp: pruner_step_def NewPruner_def deposit_BuildPruneRangeFn_def Let_def)
  next
    case True
    define n where "n = dep_Index (last (bd_Deposits (blk_Body (ev_block ev))))"
    define m where "m = MaxDepositsPerBlock c"
    have range: "deposit_BuildPruneRangeFn c ev = (if n < m then (0, n) else (n - m, m))"
      using True by (auto simp: deposit_BuildPruneRangeFn_def Let_def last_conv_nth n_def m_def min_def)
    have window: "j - (n - m) < m \<longleftrightarrow> j < n \<and> unat n \<le> unat j + unat m" if "\<not> n < m" for j
    proof -
      have m: "unat m \<le> unat n" using that by (simp add: word_less_nat_alt)
      have a: "unat (n - m) = unat n - unat m" using m by (simp add: unat_sub word_le_nat_alt)
      have n: "unat n < 2 ^ 64" using unsigned_less [of n, where ?'a = nat] by simp
      have "size j = 64" by (simp add: word_size)
      with unat_sub_if_size [of j "n - m"]
      have "unat (j - (n - m)) < unat m \<longleftrightarrow>
          (if unat (n - m) \<le> unat j then unat j - unat (n - m) < unat m
           else unat j + 2 ^ 64 - unat (n - m) < unat m)"
        by presburger
      also have "\<dots> \<longleftrightarrow> unat j < unat n \<and> unat n \<le> unat j + unat m"
        unfolding a by (rule window_arith [OF m n])
      finally show ?thesis unfolding word_less_nat_alt .
    qed
    have s': "s' = snd (Deposit_Prune kv (if n < m then 0 else n - m) (if n < m then n else m) s)"
      using True assms(2) by (simp add: range pruner_step_def NewPruner_def)
    have "view s' = (\<lambda>j. if j < n \<and> unat n \<le> unat j + unat m then None else view s j)"
    proof (cases "n < m")
      case True
      then have "j < n \<and> unat n \<le> unat j + unat m \<longleftrightarrow> j < n" for j
        by (auto simp: word_less_nat_alt)
      then show ?thesis using P [of 0 n] s' True by simp
    next
      case False
      then show ?thesis using P [of "n - m" m] s' window [OF False] by simp
    qed
    then show ?thesis using True by (simp add: n_def m_def Let_def)
  qed
qed

definition deposit_event :: BlockEvent where
  "deposit_event = \<lparr>ev_type = BeaconBlockFinalized,
     ev_block = demo_block\<lparr>blk_Body := demo_body\<lparr>bd_Deposits := [queue_deposit 1, queue_deposit 2]\<rparr>\<rparr>\<rparr>"

theorem deposit_prune_safe_witness:
  "pruner_step (NewPruner (Deposit_Prune mem_deposits) (deposit_BuildPruneRangeFn BaseSpec)) deposit_event
     [1 \<mapsto> queue_deposit 1, 2 \<mapsto> queue_deposit 2, 3 \<mapsto> queue_deposit 3] =
   [2 \<mapsto> queue_deposit 2, 3 \<mapsto> queue_deposit 3]"
  using deposit_prune_safe [OF mem_deposit.deposit_map_axioms refl, where c = BaseSpec and ev = deposit_event
      and s = "[1 \<mapsto> queue_deposit 1, 2 \<mapsto> queue_deposit 2, 3 \<mapsto> queue_deposit 3]"]
  by (auto simp: deposit_event_def queue_deposit_def fun_eq_iff)

end
