(* ===== verification/Engine.thy ===== *)
theory Engine
  imports Blobs
begin

section \<open>The execution engine: \<open>mod/execution/pkg/engine\<close>, \<open>pkg/client\<close>, \<open>mod/engine-primitives\<close>\<close>

text \<open>
  The requests and responses of the engine API, the check of a payload's hashes before it is sent,
  the engine client with its classification of JSON-RPC errors and payload statuses, and the engine
  that the state processor and the payload builder call.

  Outside the repository are go-ethereum's transaction codec, trie and block hash (the record
  \<open>geth\<close>) and the JSON-RPC connection (the record \<open>eth1_rpc\<close>: what the execution client answers to
  each method). A remote error is what the code can observe of it: its message, whether it has a
  \<open>Timeout\<close> method and what that returns, its JSON-RPC code if it has one, and whether it carries
  data. The header cache of the client is in the last part, over the interface of an expirable LRU.
  Metrics and logging have no effect on results and are left out.
\<close>

subsection \<open>Go interfaces and error comparison\<close>

text \<open>
  A Go interface value is nil only when it holds no dynamic type: a nil pointer stored in an
  interface is not the nil interface.
\<close>

datatype 'a iface = NilIface | Iface 'a

definition iface_is_nil :: "'a iface \<Rightarrow> bool" where
  "iface_is_nil i \<longleftrightarrow> i = NilIface"

text \<open>\<open>errors.Is\<close> looks through joined errors; \<open>errors.IsAny\<close> on a nil error is false.\<close>

fun errors_Is :: "err \<Rightarrow> err \<Rightarrow> bool" where
  "errors_Is (Join a b) t = (Join a b = t \<or> errors_Is a t \<or> errors_Is b t)"
| "errors_Is e t = (e = t)"

definition errors_IsAny :: "err option \<Rightarrow> err list \<Rightarrow> bool" where
  "errors_IsAny e ts = (case e of None \<Rightarrow> False | Some e \<Rightarrow> list_ex (errors_Is e) ts)"

definition IsPreDefinedError :: "err option \<Rightarrow> bool" where
  "IsPreDefinedError e = errors_IsAny e
     [EL ErrParse, EL ErrInvalidRequest, EL ErrMethodNotFound, EL ErrInvalidParams, EL ErrInternal,
      EL ErrServer, EL ErrServerParse]"

subsection \<open>Requests and responses\<close>

type_synonym PayloadID = bytes

record PayloadStatusV1 =
  ps_Status :: string
  ps_LatestValidHash :: "b32 option"
  ps_ValidationError :: "string option"

definition PayloadStatusValid :: string where "PayloadStatusValid = ''VALID''"
definition PayloadStatusInvalid :: string where "PayloadStatusInvalid = ''INVALID''"
definition PayloadStatusSyncing :: string where "PayloadStatusSyncing = ''SYNCING''"
definition PayloadStatusAccepted :: string where "PayloadStatusAccepted = ''ACCEPTED''"

record ForkchoiceResponseV1 =
  fr_PayloadStatus :: PayloadStatusV1
  fr_PayloadID :: "PayloadID option"

record ForkchoiceStateV1 =
  fs_HeadBlockHash :: b32
  fs_SafeBlockHash :: b32
  fs_FinalizedBlockHash :: b32

record PayloadAttributes =
  pa_version :: u32
  pa_Timestamp :: u64
  pa_PrevRandao :: b32
  pa_SuggestedFeeRecipient :: bytes
  pa_Withdrawals :: "Withdrawal list option"
  pa_ParentBeaconBlockRoot :: b32

definition Validate :: "PayloadAttributes \<Rightarrow> err option" where
  "Validate p =
     (if pa_Timestamp p = 0 then Some (EL ErrInvalidTimestamp)
      else if pa_PrevRandao p = zero32 then Some (EL ErrEmptyPrevRandao)
      else if pa_Withdrawals p = None \<and> pa_version p \<ge> Capella then Some (EL ErrNilWithdrawals)
      else None)"

definition NewPayloadAttributes ::
  "u32 \<Rightarrow> u64 \<Rightarrow> b32 \<Rightarrow> bytes \<Rightarrow> Withdrawal list option \<Rightarrow> b32 \<Rightarrow> err + PayloadAttributes" where
  "NewPayloadAttributes forkVersion timestamp prevRandao suggestedFeeRecipient withdrawals
     parentBeaconBlockRoot =
     (let p = \<lparr>pa_version = forkVersion, pa_Timestamp = timestamp, pa_PrevRandao = prevRandao,
               pa_SuggestedFeeRecipient = suggestedFeeRecipient, pa_Withdrawals = withdrawals,
               pa_ParentBeaconBlockRoot = parentBeaconBlockRoot\<rparr> in
      case Validate p of Some e \<Rightarrow> Inl e | None \<Rightarrow> Inr p)"

text \<open>An attributer is an interface that may hold a nil pointer.\<close>

type_synonym PayloadAttributer = "PayloadAttributes option iface"

fun Attributes_IsNil :: "PayloadAttributes option \<Rightarrow> bool" where
  "Attributes_IsNil p \<longleftrightarrow> p = None"

record ForkchoiceUpdateRequest =
  fcu_State :: ForkchoiceStateV1
  fcu_PayloadAttributes :: PayloadAttributer
  fcu_ForkVersion :: u32

definition BuildForkchoiceUpdateRequest ::
  "ForkchoiceStateV1 \<Rightarrow> PayloadAttributer \<Rightarrow> u32 \<Rightarrow> ForkchoiceUpdateRequest" where
  "BuildForkchoiceUpdateRequest state payloadAttributes forkVersion =
     \<lparr>fcu_State = state, fcu_PayloadAttributes = payloadAttributes, fcu_ForkVersion = forkVersion\<rparr>"

record GetPayloadRequest =
  gp_PayloadID :: PayloadID
  gp_ForkVersion :: u32

definition BuildGetPayloadRequest :: "PayloadID \<Rightarrow> u32 \<Rightarrow> GetPayloadRequest" where
  "BuildGetPayloadRequest payloadID forkVersion =
     \<lparr>gp_PayloadID = payloadID, gp_ForkVersion = forkVersion\<rparr>"

text \<open>The payload and the blobs bundle of an envelope are pointers.\<close>

record ExecutionPayloadEnvelope =
  env_ExecutionPayload :: "ExecutableDataDeneb option"
  env_BlockValue :: bytes
  env_BlobsBundle :: "BlobsBundle option"
  env_Override :: bool

definition GetBlobsBundle :: "ExecutionPayloadEnvelope \<Rightarrow> BlobsBundle option iface" where
  "GetBlobsBundle e = Iface (env_BlobsBundle e)"

text \<open>\<open>GetBlobs\<close> on a nil pointer is a nil dereference.\<close>

definition Bundle_GetBlobs :: "BlobsBundle option \<Rightarrow> err + bytes list" where
  "Bundle_GetBlobs b =
     (case b of None \<Rightarrow> Inl (Panic ''nil pointer dereference'') | Some b \<Rightarrow> Inr (bb_Blobs b))"

subsection \<open>The hashes of a new payload (\<open>requests.go\<close>)\<close>

record GethHeader =
  gh_ParentHash :: b32
  gh_UncleHash :: b32
  gh_Coinbase :: bytes
  gh_Root :: b32
  gh_TxHash :: b32
  gh_ReceiptHash :: b32
  gh_Bloom :: bytes
  gh_Difficulty :: int
  gh_Number :: int
  gh_GasLimit :: u64
  gh_GasUsed :: u64
  gh_Time :: u64
  gh_BaseFee :: int
  gh_Extra :: bytes
  gh_MixDigest :: b32
  gh_WithdrawalsHash :: "b32 option"
  gh_ExcessBlobGas :: u64
  gh_BlobGasUsed :: u64
  gh_ParentBeaconRoot :: b32

record GethWithdrawal =
  gw_Index :: u64
  gw_Validator :: u64
  gw_Address :: bytes
  gw_Amount :: u64

record 'tx geth =
  UnmarshalBinary :: "bytes \<Rightarrow> err + 'tx"
  BlobHashes :: "'tx \<Rightarrow> b32 list"
  DeriveSha_txs :: "'tx list \<Rightarrow> b32"
  DeriveSha_withdrawals :: "GethWithdrawal list \<Rightarrow> b32"
  EmptyUncleHash :: b32
  BytesToBloom :: "bytes \<Rightarrow> err + bytes"
  block_hash :: "GethHeader \<Rightarrow> b32"

definition geth_withdrawal :: "Withdrawal \<Rightarrow> GethWithdrawal" where
  "geth_withdrawal w = \<lparr>gw_Index = wd_Index w, gw_Validator = wd_Validator w,
     gw_Address = wd_Address w, gw_Amount = wd_Amount w\<rparr>"

definition geth_header ::
  "'tx geth \<Rightarrow> NewPayloadRequest \<Rightarrow> 'tx list \<Rightarrow> bytes \<Rightarrow> b32 option \<Rightarrow> GethHeader" where
  "geth_header g n txs bloom withdrawalsHash =
     (let payload = req_ExecutionPayload n in
      \<lparr>gh_ParentHash = pl_ParentHash payload,
       gh_UncleHash = EmptyUncleHash g,
       gh_Coinbase = pl_FeeRecipient payload,
       gh_Root = pl_StateRoot payload,
       gh_TxHash = DeriveSha_txs g txs,
       gh_ReceiptHash = pl_ReceiptsRoot payload,
       gh_Bloom = bloom,
       gh_Difficulty = 0,
       gh_Number = uint (pl_Number payload),
       gh_GasLimit = pl_GasLimit payload,
       gh_GasUsed = pl_GasUsed payload,
       gh_Time = pl_Timestamp payload,
       gh_BaseFee = UnwrapBig (pl_BaseFeePerGas payload),
       gh_Extra = pl_ExtraData payload,
       gh_MixDigest = pl_Random payload,
       gh_WithdrawalsHash = withdrawalsHash,
       gh_ExcessBlobGas = pl_ExcessBlobGas payload,
       gh_BlobGasUsed = pl_BlobGasUsed payload,
       gh_ParentBeaconRoot = req_ParentBeaconBlockRoot n\<rparr>)"

text \<open>The loop over the blob hashes; their number was checked before it.\<close>

fun check_versioned_hashes :: "b32 list \<Rightarrow> b32 list \<Rightarrow> err + unit" where
  "check_versioned_hashes (b # bs) (v # vs) =
     (if b \<noteq> v then Inl (EL ErrInvalidVersionedHash) else check_versioned_hashes bs vs)"
| "check_versioned_hashes [] _ = Inr ()"
| "check_versioned_hashes (b # bs) [] = Inl (Panic ''index out of range'')"

text \<open>
  \<open>nilWithdrawals\<close> says whether an empty list of withdrawals is the nil slice, which has no
  withdrawals hash.
\<close>

definition HasValidVersionedAndBlockHashes ::
  "'tx geth \<Rightarrow> bool \<Rightarrow> NewPayloadRequest \<Rightarrow> err + unit" where
  "HasValidVersionedAndBlockHashes g nilWithdrawals n =
     (let payload = req_ExecutionPayload n in
      bindE (mapE (UnmarshalBinary g) (pl_Transactions payload)) (\<lambda>txs.
      let blobHashes = concat (map (BlobHashes g) txs) in
      if length blobHashes \<noteq> length (req_VersionedHashes n)
      then Inl (EL ErrMismatchedNumVersionedHashes)
      else bindE (check_versioned_hashes blobHashes (req_VersionedHashes n)) (\<lambda>_.
      let withdrawalsHash =
            (if pl_Withdrawals payload = [] \<and> nilWithdrawals then None
             else Some (DeriveSha_withdrawals g (map geth_withdrawal (pl_Withdrawals payload)))) in
      bindE (BytesToBloom g (pl_LogsBloom payload)) (\<lambda>bloom.
      if block_hash g (geth_header g n txs bloom withdrawalsHash) \<noteq> pl_BlockHash payload
      then Inl (EL ErrPayloadBlockHashMismatch)
      else Inr ()))))"

subsection \<open>The JSON-RPC client (\<open>ethclient/engine.go\<close>)\<close>

record rpc_error =
  rpc_Error :: string
  rpc_Timeout :: "bool option"
  rpc_ErrorCode :: "int option"
  rpc_DataError :: bool

text \<open>An error of the client: one the connection returned or a sentinel of the client itself.\<close>

datatype eth1_error = Remote rpc_error | Local err

record eth1_rpc =
  call_newPayload :: "string \<Rightarrow> ExecutableDataDeneb \<Rightarrow> b32 list \<Rightarrow> b32 \<Rightarrow> rpc_error + PayloadStatusV1"
  call_forkchoiceUpdated ::
    "string \<Rightarrow> ForkchoiceStateV1 \<Rightarrow> PayloadAttributer \<Rightarrow> rpc_error + ForkchoiceResponseV1"
  call_getPayload :: "string \<Rightarrow> PayloadID \<Rightarrow> rpc_error + ExecutionPayloadEnvelope"
  call_exchangeCapabilities :: "string \<Rightarrow> string list \<Rightarrow> rpc_error + string list"

definition NewPayloadMethodV3 :: string where "NewPayloadMethodV3 = ''engine_newPayloadV3''"
definition ForkchoiceUpdatedMethodV3 :: string where
  "ForkchoiceUpdatedMethodV3 = ''engine_forkchoiceUpdatedV3''"
definition GetPayloadMethodV3 :: string where "GetPayloadMethodV3 = ''engine_getPayloadV3''"
definition ExchangeCapabilitiesMethod :: string where
  "ExchangeCapabilitiesMethod = ''engine_exchangeCapabilities''"
definition GetClientVersionV1 :: string where
  "GetClientVersionV1 = ''engine_getClientVersionV1''"

definition BeaconKitSupportedCapabilities :: "string list" where
  "BeaconKitSupportedCapabilities =
     [NewPayloadMethodV3, ForkchoiceUpdatedMethodV3, GetPayloadMethodV3, GetClientVersionV1]"

text \<open>The results are pointers: \<open>None\<close> is nil.\<close>

definition remote :: "rpc_error + 'a \<Rightarrow> eth1_error + 'a" where
  "remote r = (case r of Inl e \<Rightarrow> Inl (Remote e) | Inr a \<Rightarrow> Inr a)"

definition Payload_Version :: "ExecutableDataDeneb \<Rightarrow> u32" where
  "Payload_Version d = Deneb"

definition Eth1_NewPayloadV3 ::
  "eth1_rpc \<Rightarrow> ExecutableDataDeneb \<Rightarrow> b32 list \<Rightarrow> b32 \<Rightarrow> eth1_error + PayloadStatusV1 option" where
  "Eth1_NewPayloadV3 c payload versionedHashes parentBlockRoot =
     map_sum id Some (remote (call_newPayload c NewPayloadMethodV3 payload versionedHashes parentBlockRoot))"

definition Eth1_NewPayload ::
  "eth1_rpc \<Rightarrow> ExecutableDataDeneb \<Rightarrow> b32 list \<Rightarrow> b32 \<Rightarrow> eth1_error + PayloadStatusV1 option" where
  "Eth1_NewPayload c payload versionedHashes parentBlockRoot =
     (if Payload_Version payload = Deneb
      then Eth1_NewPayloadV3 c payload versionedHashes parentBlockRoot
      else Inl (Local (EL ErrInvalidVersion)))"

definition empty_status :: PayloadStatusV1 where
  "empty_status = \<lparr>ps_Status = '''', ps_LatestValidHash = None, ps_ValidationError = None\<rparr>"

definition Eth1_forkchoiceUpdated ::
  "eth1_rpc \<Rightarrow> string \<Rightarrow> ForkchoiceStateV1 \<Rightarrow> PayloadAttributer \<Rightarrow>
   eth1_error + ForkchoiceResponseV1 option" where
  "Eth1_forkchoiceUpdated c m state attrs =
     (case remote (call_forkchoiceUpdated c m state attrs) of
        Inl e \<Rightarrow> Inl e
      | Inr result \<Rightarrow>
          if fr_PayloadStatus result = empty_status then Inl (Local (EL ErrNilResponse))
          else Inr (Some result))"

definition Eth1_ForkchoiceUpdatedV3 ::
  "eth1_rpc \<Rightarrow> ForkchoiceStateV1 \<Rightarrow> PayloadAttributer \<Rightarrow> eth1_error + ForkchoiceResponseV1 option" where
  "Eth1_ForkchoiceUpdatedV3 c state attrs =
     Eth1_forkchoiceUpdated c ForkchoiceUpdatedMethodV3 state attrs"

definition Eth1_ForkchoiceUpdated ::
  "eth1_rpc \<Rightarrow> ForkchoiceStateV1 \<Rightarrow> PayloadAttributer \<Rightarrow> u32 \<Rightarrow>
   eth1_error + ForkchoiceResponseV1 option" where
  "Eth1_ForkchoiceUpdated c state attrs forkVersion =
     (if forkVersion = Deneb then Eth1_ForkchoiceUpdatedV3 c state attrs
      else Inl (Local (EL ErrInvalidVersion)))"

definition Eth1_GetPayloadV3 ::
  "eth1_rpc \<Rightarrow> PayloadID \<Rightarrow> eth1_error + ExecutionPayloadEnvelope iface" where
  "Eth1_GetPayloadV3 c payloadID =
     map_sum id Iface (remote (call_getPayload c GetPayloadMethodV3 payloadID))"

definition Eth1_GetPayload ::
  "eth1_rpc \<Rightarrow> PayloadID \<Rightarrow> u32 \<Rightarrow> eth1_error + ExecutionPayloadEnvelope iface" where
  "Eth1_GetPayload c payloadID forkVersion =
     (if forkVersion = Deneb then Eth1_GetPayloadV3 c payloadID
      else Inl (Local (EL ErrInvalidVersion)))"

definition Eth1_ExchangeCapabilities :: "eth1_rpc \<Rightarrow> string list \<Rightarrow> eth1_error + string list" where
  "Eth1_ExchangeCapabilities c capabilities =
     remote (call_exchangeCapabilities c ExchangeCapabilitiesMethod capabilities)"

subsection \<open>The engine client (\<open>client/engine.go\<close>, \<open>errors.go\<close>, \<open>helpers.go\<close>)\<close>

definition IsTimeoutError :: "eth1_error \<Rightarrow> bool" where
  "IsTimeoutError e = (case e of Local _ \<Rightarrow> False | Remote r \<Rightarrow> rpc_Timeout r = Some True)"

text \<open>The type assertion \<open>err.(jsonrpc.Error)\<close>: a failed one leaves the nil interface.\<close>

definition as_jsonrpc_Error :: "eth1_error \<Rightarrow> (rpc_error \<times> int) iface" where
  "as_jsonrpc_Error e =
     (case e of
        Local _ \<Rightarrow> NilIface
      | Remote r \<Rightarrow> (case rpc_ErrorCode r of None \<Rightarrow> NilIface | Some c \<Rightarrow> Iface (r, c)))"

text \<open>
  \<open>IsUnauthorizedError\<close> of a nil error is false; of an error without a code it calls a method of
  the nil interface its own assertion left.
\<close>

definition IsUnauthorizedError :: "eth1_error iface \<Rightarrow> err + bool" where
  "IsUnauthorizedError i =
     (case i of
        NilIface \<Rightarrow> Inr False
      | Iface e \<Rightarrow>
          (case as_jsonrpc_Error e of
             NilIface \<Rightarrow> Inl (Panic ''nil pointer dereference'')
           | Iface _ \<Rightarrow> Inr False))"

definition error_value :: "eth1_error \<Rightarrow> err" where
  "error_value e = (case e of Local s \<Rightarrow> s | Remote r \<Rightarrow> Ext (rpc_Error r))"

definition handleRPCError :: "eth1_error \<Rightarrow> err" where
  "handleRPCError e =
     (if IsTimeoutError e then EL ErrTimeout
      else case as_jsonrpc_Error e of
        NilIface \<Rightarrow>
          (case IsUnauthorizedError NilIface of
             Inl p \<Rightarrow> p
           | Inr unauthorized \<Rightarrow> if unauthorized then EL ErrUnauthorized else error_value e)
      | Iface (r, code) \<Rightarrow>
          if code = -32700 then EL ErrParse
          else if code = -32600 then EL ErrInvalidRequest
          else if code = -32601 then EL ErrMethodNotFound
          else if code = -32602 then EL ErrInvalidParams
          else if code = -32603 then EL ErrInternal
          else if code = -38001 then EL ErrUnknownPayload
          else if code = -38002 then EL ErrInvalidForkchoiceState
          else if code = -38003 then EL ErrInvalidPayloadAttributes
          else if code = -38004 then EL ErrRequestTooLarge
          else if code = -32000 then
            (if \<not> rpc_DataError r then Join (EL ErrServer) (error_value e) else EL ErrServer)
          else error_value e)"

definition processPayloadStatusResult :: "PayloadStatusV1 \<Rightarrow> b32 option \<times> err option" where
  "processPayloadStatusResult result =
     (if ps_Status result = PayloadStatusAccepted then (None, Some (EL ErrAcceptedPayloadStatus))
      else if ps_Status result = PayloadStatusSyncing then (None, Some (EL ErrSyncingPayloadStatus))
      else if ps_Status result = PayloadStatusInvalid
        then (ps_LatestValidHash result, Some (EL ErrInvalidPayloadStatus))
      else if ps_Status result = PayloadStatusValid then (ps_LatestValidHash result, None)
      else (None, Some (EL ErrUnknownPayloadStatus)))"

definition Client_NewPayload ::
  "eth1_rpc \<Rightarrow> ExecutableDataDeneb \<Rightarrow> b32 list \<Rightarrow> b32 \<Rightarrow> b32 option \<times> err option" where
  "Client_NewPayload c payload versionedHashes parentBeaconBlockRoot =
     (case Eth1_NewPayload c payload versionedHashes parentBeaconBlockRoot of
        Inl e \<Rightarrow> (None, Some (handleRPCError e))
      | Inr None \<Rightarrow> (None, Some (EL ErrNilPayloadStatus))
      | Inr (Some result) \<Rightarrow> processPayloadStatusResult result)"

definition Client_ForkchoiceUpdated ::
  "eth1_rpc \<Rightarrow> ForkchoiceStateV1 \<Rightarrow> PayloadAttributer \<Rightarrow> u32 \<Rightarrow>
   PayloadID option \<times> b32 option \<times> err option" where
  "Client_ForkchoiceUpdated c state attrs forkVersion =
     (case Eth1_ForkchoiceUpdated c state attrs forkVersion of
        Inl e \<Rightarrow> (None, None, Some (handleRPCError e))
      | Inr None \<Rightarrow> (None, None, Some (EL ErrNilForkchoiceResponse))
      | Inr (Some result) \<Rightarrow>
          (case processPayloadStatusResult (fr_PayloadStatus result) of
             (latestValidHash, Some e) \<Rightarrow> (None, latestValidHash, Some e)
           | (latestValidHash, None) \<Rightarrow> (fr_PayloadID result, latestValidHash, None)))"

text \<open>With an error the code returns the result of the call too, which is the nil interface.\<close>

definition Client_GetPayload ::
  "eth1_rpc \<Rightarrow> PayloadID \<Rightarrow> u32 \<Rightarrow> ExecutionPayloadEnvelope iface \<times> err option" where
  "Client_GetPayload c payloadID forkVersion =
     (case Eth1_GetPayload c payloadID forkVersion of
        Inl e \<Rightarrow> (NilIface, Some (handleRPCError e))
      | Inr NilIface \<Rightarrow> (NilIface, Some (EL ErrNilExecutionPayloadEnvelope))
      | Inr (Iface result) \<Rightarrow>
          if iface_is_nil (GetBlobsBundle result) \<and> forkVersion \<ge> Deneb
          then (Iface result, Some (EL ErrNilBlobsBundle))
          else (Iface result, None))"

text \<open>The capabilities of the execution client, added to the set the engine client keeps.\<close>

definition Client_ExchangeCapabilities ::
  "eth1_rpc \<Rightarrow> string set \<Rightarrow> (err + string list) \<times> string set" where
  "Client_ExchangeCapabilities c capabilities =
     (case Eth1_ExchangeCapabilities c BeaconKitSupportedCapabilities of
        Inl e \<Rightarrow> (Inl (error_value e), capabilities)
      | Inr result \<Rightarrow> (Inr result, capabilities \<union> set result))"

subsection \<open>The engine (\<open>engine/engine.go\<close>)\<close>

definition hasPayloadAttributes :: "PayloadAttributer \<Rightarrow> bool" where
  "hasPayloadAttributes a = (case a of NilIface \<Rightarrow> False | Iface p \<Rightarrow> \<not> Attributes_IsNil p)"

definition GetPayload ::
  "eth1_rpc \<Rightarrow> GetPayloadRequest \<Rightarrow> ExecutionPayloadEnvelope iface \<times> err option" where
  "GetPayload ec req = Client_GetPayload ec (gp_PayloadID req) (gp_ForkVersion req)"

definition NotifyForkchoiceUpdate ::
  "eth1_rpc \<Rightarrow> ForkchoiceUpdateRequest \<Rightarrow> PayloadID option \<times> b32 option \<times> err option" where
  "NotifyForkchoiceUpdate ec req =
     (case Client_ForkchoiceUpdated ec (fcu_State req) (fcu_PayloadAttributes req)
             (fcu_ForkVersion req) of
        (payloadID, latestValidHash, e) \<Rightarrow>
          if errors_IsAny e [EL ErrAcceptedPayloadStatus, EL ErrSyncingPayloadStatus]
          then (payloadID, None, None)
          else if errors_IsAny e [EL ErrInvalidPayloadStatus, EL ErrInvalidBlockHashPayloadStatus]
          then (payloadID, latestValidHash, Some (EL ErrBadBlockProduced))
          else if IsPreDefinedError e
          then (None, None, Some (Join (the e) (EL ErrPreDefinedJSONRPC)))
          else if e \<noteq> None then (None, None, e)
          else if payloadID = None \<and> hasPayloadAttributes (fcu_PayloadAttributes req)
          then (payloadID, latestValidHash, Some (EL ErrNilPayloadOnValidResponse))
          else (payloadID, latestValidHash, None))"

definition VerifyAndNotifyNewPayload ::
  "'tx geth \<Rightarrow> bool \<Rightarrow> eth1_rpc \<Rightarrow> NewPayloadRequest \<Rightarrow> err + unit" where
  "VerifyAndNotifyNewPayload g nilWithdrawals ec req =
     bindE (HasValidVersionedAndBlockHashes g nilWithdrawals req) (\<lambda>_.
     case Client_NewPayload ec (req_ExecutionPayload req) (req_VersionedHashes req)
            (req_ParentBeaconBlockRoot req) of
       (lastValidHash, e) \<Rightarrow>
         if \<not> errors_IsAny e [EL ErrAcceptedPayloadStatus, EL ErrSyncingPayloadStatus] \<and>
            errors_IsAny e [EL ErrInvalidPayloadStatus, EL ErrInvalidBlockHashPayloadStatus]
         then Inl (EL ErrBadBlockProduced)
         else let e = (if \<not> errors_IsAny e [EL ErrAcceptedPayloadStatus, EL ErrSyncingPayloadStatus] \<and>
                          IsPreDefinedError e
                       then Some (Join (the e) (EL ErrPreDefinedJSONRPC)) else e) in
              if req_Optimistic req then Inr ()
              else (case e of None \<Rightarrow> Inr () | Some e \<Rightarrow> Inl e))"

subsection \<open>The hash check accepts exactly the honest payloads\<close>

text \<open>
  What the check promises: every transaction decodes, the versioned hashes of the request are the
  blob hashes of the transactions in order, and the payload's block hash is the hash of the header
  that the payload describes.
\<close>

definition honest_payload :: "'tx geth \<Rightarrow> bool \<Rightarrow> NewPayloadRequest \<Rightarrow> bool" where
  "honest_payload g nilWithdrawals n \<longleftrightarrow>
     (let payload = req_ExecutionPayload n in
      \<exists>txs bloom.
        list_all2 (\<lambda>b tx. UnmarshalBinary g b = Inr tx) (pl_Transactions payload) txs \<and>
        concat (map (BlobHashes g) txs) = req_VersionedHashes n \<and>
        BytesToBloom g (pl_LogsBloom payload) = Inr bloom \<and>
        pl_BlockHash payload = block_hash g (geth_header g n txs bloom
          (if pl_Withdrawals payload = [] \<and> nilWithdrawals then None
           else Some (DeriveSha_withdrawals g (map geth_withdrawal (pl_Withdrawals payload))))))"

lemma mapE_list_all2: "mapE f xs = Inr ys \<longleftrightarrow> list_all2 (\<lambda>x y. f x = Inr y) xs ys"
proof (induction xs arbitrary: ys)
  case (Cons x xs)
  show ?case
    by (cases ys) (auto simp: bindE_Inr Cons.IH)
qed auto

lemma check_versioned_hashes_iff:
  "length bs = length vs \<Longrightarrow> check_versioned_hashes bs vs = Inr () \<longleftrightarrow> bs = vs"
  by (induction bs vs rule: list_induct2) auto

lemma HasValid_iff: "HasValidVersionedAndBlockHashes g nw n = Inr () \<longleftrightarrow> honest_payload g nw n"
proof
  assume "HasValidVersionedAndBlockHashes g nw n = Inr ()"
  then show "honest_payload g nw n"
    by (auto simp: HasValidVersionedAndBlockHashes_def honest_payload_def Let_def bindE_Inr
        mapE_list_all2 check_versioned_hashes_iff split: if_splits)
next
  assume "honest_payload g nw n"
  then obtain txs bloom where
    txs: "mapE (UnmarshalBinary g) (pl_Transactions (req_ExecutionPayload n)) = Inr txs"
    and rest: "concat (map (BlobHashes g) txs) = req_VersionedHashes n"
      "BytesToBloom g (pl_LogsBloom (req_ExecutionPayload n)) = Inr bloom"
      "pl_BlockHash (req_ExecutionPayload n) = block_hash g (geth_header g n txs bloom
          (if pl_Withdrawals (req_ExecutionPayload n) = [] \<and> nw then None
           else Some (DeriveSha_withdrawals g
             (map geth_withdrawal (pl_Withdrawals (req_ExecutionPayload n))))))"
    unfolding honest_payload_def Let_def mapE_list_all2 by blast
  then have "check_versioned_hashes (req_VersionedHashes n) (req_VersionedHashes n) = Inr ()"
    by (simp add: check_versioned_hashes_iff)
  with txs rest show "HasValidVersionedAndBlockHashes g nw n = Inr ()"
    by (simp add: HasValidVersionedAndBlockHashes_def)
qed

subsection \<open>The answers of the execution client\<close>

text \<open>The errors the client makes of a remote error are not payload statuses.\<close>

lemma handleRPCError_not_status:
  "\<not> errors_IsAny (Some (handleRPCError (Remote r)))
       [EL ErrAcceptedPayloadStatus, EL ErrSyncingPayloadStatus]"
  "\<not> errors_IsAny (Some (handleRPCError (Remote r)))
       [EL ErrInvalidPayloadStatus, EL ErrInvalidBlockHashPayloadStatus]"
  by (auto simp: handleRPCError_def errors_IsAny_def error_value_def IsUnauthorizedError_def
      as_jsonrpc_Error_def split: iface.splits option.splits)

lemma statuses_distinct [simp]:
  "PayloadStatusValid \<noteq> PayloadStatusInvalid" "PayloadStatusValid \<noteq> PayloadStatusSyncing"
  "PayloadStatusValid \<noteq> PayloadStatusAccepted" "PayloadStatusInvalid \<noteq> PayloadStatusSyncing"
  "PayloadStatusInvalid \<noteq> PayloadStatusAccepted" "PayloadStatusSyncing \<noteq> PayloadStatusAccepted"
  by (simp_all add: PayloadStatusValid_def PayloadStatusInvalid_def PayloadStatusSyncing_def
      PayloadStatusAccepted_def)

lemma Client_NewPayload_call:
  "Client_NewPayload c p vs r =
     (case call_newPayload c NewPayloadMethodV3 p vs r of
        Inl e \<Rightarrow> (None, Some (handleRPCError (Remote e)))
      | Inr st \<Rightarrow> processPayloadStatusResult st)"
  by (simp add: Client_NewPayload_def Eth1_NewPayload_def Eth1_NewPayloadV3_def Payload_Version_def
      remote_def split: sum.splits)

text \<open>The error of a JSON-RPC call as the engine reports it.\<close>

definition reported :: "rpc_error \<Rightarrow> err" where
  "reported r =
     (let e = handleRPCError (Remote r) in
      if IsPreDefinedError (Some e) then Join e (EL ErrPreDefinedJSONRPC) else e)"

fun new_payload_verdict :: "bool \<Rightarrow> rpc_error + PayloadStatusV1 \<Rightarrow> err + unit" where
  "new_payload_verdict optimistic (Inl r) = (if optimistic then Inr () else Inl (reported r))"
| "new_payload_verdict optimistic (Inr st) =
     (if ps_Status st = PayloadStatusValid then Inr ()
      else if ps_Status st = PayloadStatusInvalid then Inl (EL ErrBadBlockProduced)
      else if optimistic then Inr ()
      else if ps_Status st = PayloadStatusAccepted then Inl (EL ErrAcceptedPayloadStatus)
      else if ps_Status st = PayloadStatusSyncing then Inl (EL ErrSyncingPayloadStatus)
      else Inl (EL ErrUnknownPayloadStatus))"

lemma VerifyAndNotify_verdict:
  assumes "HasValidVersionedAndBlockHashes g nw req = Inr ()"
  shows "VerifyAndNotifyNewPayload g nw ec req =
     new_payload_verdict (req_Optimistic req)
       (call_newPayload ec NewPayloadMethodV3 (req_ExecutionPayload req) (req_VersionedHashes req)
          (req_ParentBeaconBlockRoot req))"
proof (cases "call_newPayload ec NewPayloadMethodV3 (req_ExecutionPayload req)
        (req_VersionedHashes req) (req_ParentBeaconBlockRoot req)")
  case (Inl r)
  with assms show ?thesis
    by (simp add: VerifyAndNotifyNewPayload_def Client_NewPayload_call handleRPCError_not_status
        reported_def)
next
  case (Inr st)
  with assms show ?thesis
    by (simp add: VerifyAndNotifyNewPayload_def Client_NewPayload_call processPayloadStatusResult_def
        errors_IsAny_def IsPreDefinedError_def)
qed

text \<open>
  C26. The engine accepts a new payload exactly when its hashes are honest and the execution client
  called it VALID or, in optimistic mode, gave any answer but INVALID, an error of the connection
  included. In every other case the error is the one the answer determines: a bad block for
  INVALID in both modes, the status for ACCEPTED and SYNCING, the classified error for a failed call.
\<close>

theorem VerifyAndNotifyNewPayload_iff:
  "(VerifyAndNotifyNewPayload g nw ec req = Inr () \<longleftrightarrow>
      honest_payload g nw req \<and>
      (case call_newPayload ec NewPayloadMethodV3 (req_ExecutionPayload req)
              (req_VersionedHashes req) (req_ParentBeaconBlockRoot req) of
         Inl r \<Rightarrow> req_Optimistic req
       | Inr st \<Rightarrow> ps_Status st = PayloadStatusValid \<or>
                   (req_Optimistic req \<and> ps_Status st \<noteq> PayloadStatusInvalid))) \<and>
   (VerifyAndNotifyNewPayload g nw ec req =
      bindE (HasValidVersionedAndBlockHashes g nw req) (\<lambda>_.
        new_payload_verdict (req_Optimistic req)
          (call_newPayload ec NewPayloadMethodV3 (req_ExecutionPayload req)
             (req_VersionedHashes req) (req_ParentBeaconBlockRoot req))))"
proof (cases "HasValidVersionedAndBlockHashes g nw req")
  case (Inl e)
  then have "\<not> honest_payload g nw req" using HasValid_iff [of g nw req] by simp
  with Inl show ?thesis by (simp add: VerifyAndNotifyNewPayload_def)
next
  case (Inr u)
  then have "honest_payload g nw req" using HasValid_iff [of g nw req] by simp
  with Inr show ?thesis
    by (simp add: VerifyAndNotify_verdict split: sum.splits)
qed

text \<open>The answer to a forkchoice update, as the engine classifies it.\<close>

fun forkchoice_verdict ::
  "bool \<Rightarrow> rpc_error + ForkchoiceResponseV1 \<Rightarrow> PayloadID option \<times> b32 option \<times> err option" where
  "forkchoice_verdict attrs (Inl r) = (None, None, Some (reported r))"
| "forkchoice_verdict attrs (Inr rsp) =
     (let st = fr_PayloadStatus rsp in
      if st = empty_status then (None, None, Some (EL ErrNilResponse))
      else if ps_Status st = PayloadStatusValid
      then (fr_PayloadID rsp, ps_LatestValidHash st,
            if attrs \<and> fr_PayloadID rsp = None then Some (EL ErrNilPayloadOnValidResponse) else None)
      else if ps_Status st = PayloadStatusInvalid
      then (None, ps_LatestValidHash st, Some (EL ErrBadBlockProduced))
      else if ps_Status st = PayloadStatusAccepted \<or> ps_Status st = PayloadStatusSyncing
      then (None, None, None)
      else (None, None, Some (EL ErrUnknownPayloadStatus)))"

lemma handleRPCError_Local: "handleRPCError (Local e) = e"
  by (simp add: handleRPCError_def IsTimeoutError_def as_jsonrpc_Error_def IsUnauthorizedError_def
      error_value_def)

text \<open>
  C27. A forkchoice update for a fork other than Deneb fails with \<open>ErrInvalidVersion\<close> without a
  call. For Deneb the result is determined by the answer: VALID gives the payload id and the latest
  valid hash, with an error only when attributes were sent and no id came back; INVALID is a bad
  block with the latest valid hash; ACCEPTED and SYNCING succeed with no id and no hash; an empty
  response, an unknown status and a failed call are errors with no id.
\<close>

theorem NotifyForkchoiceUpdate_classifies:
  "NotifyForkchoiceUpdate ec req =
     (if fcu_ForkVersion req = Deneb
      then forkchoice_verdict (hasPayloadAttributes (fcu_PayloadAttributes req))
             (call_forkchoiceUpdated ec ForkchoiceUpdatedMethodV3 (fcu_State req)
                (fcu_PayloadAttributes req))
      else (None, None, Some (EL ErrInvalidVersion)))"
proof (cases "fcu_ForkVersion req = Deneb")
  case False
  then show ?thesis
    by (simp add: NotifyForkchoiceUpdate_def Client_ForkchoiceUpdated_def Eth1_ForkchoiceUpdated_def
        handleRPCError_Local errors_IsAny_def IsPreDefinedError_def)
next
  case deneb: True
  show ?thesis
  proof (cases "call_forkchoiceUpdated ec ForkchoiceUpdatedMethodV3 (fcu_State req)
      (fcu_PayloadAttributes req)")
    case (Inl r)
    with deneb show ?thesis
      by (simp add: NotifyForkchoiceUpdate_def Client_ForkchoiceUpdated_def
          Eth1_ForkchoiceUpdated_def Eth1_ForkchoiceUpdatedV3_def Eth1_forkchoiceUpdated_def
          remote_def handleRPCError_not_status reported_def Let_def)
  next
    case (Inr rsp)
    with deneb show ?thesis
      by (simp add: NotifyForkchoiceUpdate_def Client_ForkchoiceUpdated_def
          Eth1_ForkchoiceUpdated_def Eth1_ForkchoiceUpdatedV3_def Eth1_forkchoiceUpdated_def
          remote_def handleRPCError_Local processPayloadStatusResult_def errors_IsAny_def
          IsPreDefinedError_def Let_def empty_status_def)
  qed
qed

text \<open>
  \<open>GetPayload\<close> returns an envelope without an error for every answer of the execution client,
  also when the blobs bundle is missing: the nil check compares an interface that holds a nil
  pointer, so \<open>ErrNilBlobsBundle\<close> is never returned.
\<close>

theorem GetPayload_result:
  "GetPayload ec (BuildGetPayloadRequest pid v) =
     (if v = Deneb
      then (case call_getPayload ec GetPayloadMethodV3 pid of
              Inl r \<Rightarrow> (NilIface, Some (handleRPCError (Remote r)))
            | Inr e \<Rightarrow> (Iface e, None))
      else (NilIface, Some (EL ErrInvalidVersion))) \<and>
   snd (GetPayload ec (BuildGetPayloadRequest pid v)) \<noteq> Some (EL ErrNilBlobsBundle)"
proof -
  have "handleRPCError (Remote r) \<noteq> EL ErrNilBlobsBundle" for r
    by (auto simp: handleRPCError_def error_value_def IsUnauthorizedError_def
        as_jsonrpc_Error_def split: iface.splits option.splits)
  then show ?thesis
    by (simp add: GetPayload_def BuildGetPayloadRequest_def Client_GetPayload_def Eth1_GetPayload_def
        Eth1_GetPayloadV3_def remote_def handleRPCError_Local GetBlobsBundle_def iface_is_nil_def
        split: sum.splits)
qed

text \<open>The unauthorized error is never reported: its test is applied to the nil interface.\<close>

lemma handleRPCError_authorized: "handleRPCError (Remote r) \<noteq> EL ErrUnauthorized"
  by (auto simp: handleRPCError_def error_value_def IsUnauthorizedError_def
      as_jsonrpc_Error_def split: iface.splits option.splits)

end
