(* ===== verification/HeaderCache.thy ===== *)
theory HeaderCache
  imports Engine "HOL-Library.AList"
begin

section \<open>The header cache of the engine client: \<open>mod/execution/pkg/client/cache\<close>, \<open>eth.go\<close>\<close>

text \<open>
  The engine client keeps the execution headers it has read in two LRU caches, by number and by
  hash. The caches are \<open>hashicorp/golang-lru\<close>'s expirable LRU: a lookup returns only what was added
  under the key, and any entry may disappear at any time (eviction, expiry). That is the interface
  \<open>lru\<close>; \<open>mem_lru\<close> is a bounded list, newest first, which satisfies it.
\<close>

lemma map_le_SomeD: "f \<subseteq>\<^sub>m g \<Longrightarrow> f x = Some y \<Longrightarrow> g x = Some y"
  by (metis domI map_le_def)

lemma map_le_SomeI: "(\<And>x y. f x = Some y \<Longrightarrow> g x = Some y) \<Longrightarrow> f \<subseteq>\<^sub>m g"
  by (auto simp: map_le_def)

text \<open>A property of every entry of a map.\<close>

definition all_entries :: "('k \<Rightarrow> 'v \<Rightarrow> bool) \<Rightarrow> ('k \<rightharpoonup> 'v) \<Rightarrow> bool" where
  "all_entries P m \<longleftrightarrow> (\<forall>k v. m k = Some v \<longrightarrow> P k v)"

lemma all_entries_le: "all_entries P g \<Longrightarrow> f \<subseteq>\<^sub>m g \<Longrightarrow> all_entries P f"
  by (auto simp: all_entries_def dest: map_le_SomeD)

record ('c, 'k, 'v) LRU =
  lru_Get :: "'k \<Rightarrow> 'c \<Rightarrow> 'v option \<times> 'c"
  lru_Add :: "'k \<Rightarrow> 'v \<Rightarrow> 'c \<Rightarrow> 'c"
  lru_Remove :: "'k \<Rightarrow> 'c \<Rightarrow> 'c"

locale lru =
  fixes L :: "('c, 'k, 'v) LRU" and content :: "'c \<Rightarrow> 'k \<rightharpoonup> 'v"
  assumes get_found: "lru_Get L k c = (Some v, c') \<Longrightarrow> content c k = Some v"
    and get_keeps: "lru_Get L k c = (r, c') \<Longrightarrow> content c' \<subseteq>\<^sub>m content c"
    and add_content: "content (lru_Add L k v c) \<subseteq>\<^sub>m (content c)(k \<mapsto> v)"
    and remove_content: "content (lru_Remove L k c) \<subseteq>\<^sub>m (content c)(k := None)"
begin

lemma get_invariant:
  "lru_Get L k c = (r, c') \<Longrightarrow> all_entries P (content c) \<Longrightarrow> all_entries P (content c')"
  by (rule all_entries_le [OF _ get_keeps])

lemma get_value: "lru_Get L k c = (Some v, c') \<Longrightarrow> all_entries P (content c) \<Longrightarrow> P k v"
  using get_found by (simp add: all_entries_def)

lemma add_invariant:
  "P k v \<Longrightarrow> all_entries P (content c) \<Longrightarrow> all_entries P (content (lru_Add L k v c))"
  by (rule all_entries_le [OF _ add_content]) (simp add: all_entries_def)

lemma remove_invariant:
  "all_entries P (content c) \<Longrightarrow> all_entries P (content (lru_Remove L k c))"
  by (rule all_entries_le [OF _ remove_content]) (simp add: all_entries_def)

end

subsection \<open>The cache\<close>

record ('n, 'h) EngineCache =
  headerByNumberCache :: 'n
  headerByHashCache :: 'h

text \<open>The implementations of the two caches, and the number and hash of a header.\<close>

record ('n, 'h, 'hdr) cache_env =
  byNumber :: "('n, u64, 'hdr) LRU"
  byHash :: "('h, b32, 'hdr) LRU"
  header_Number :: "'hdr \<Rightarrow> int"
  header_Hash :: "'hdr \<Rightarrow> b32"

text \<open>\<open>big.Int.Uint64\<close>: the low 64 bits of the absolute value.\<close>

definition big_Uint64 :: "int \<Rightarrow> u64" where
  "big_Uint64 n = of_int (abs n)"

definition Cache_HeaderByNumber ::
  "('n, 'h, 'hdr) cache_env \<Rightarrow> u64 \<Rightarrow> ('n, 'h) EngineCache \<Rightarrow> 'hdr option \<times> ('n, 'h) EngineCache" where
  "Cache_HeaderByNumber E number c =
     (case lru_Get (byNumber E) number (headerByNumberCache c) of
        (r, n) \<Rightarrow> (r, c\<lparr>headerByNumberCache := n\<rparr>))"

definition Cache_HeaderByHash ::
  "('n, 'h, 'hdr) cache_env \<Rightarrow> b32 \<Rightarrow> ('n, 'h) EngineCache \<Rightarrow> 'hdr option \<times> ('n, 'h) EngineCache" where
  "Cache_HeaderByHash E hash c =
     (case lru_Get (byHash E) hash (headerByHashCache c) of
        (r, h) \<Rightarrow> (r, c\<lparr>headerByHashCache := h\<rparr>))"

definition AddHeader ::
  "('n, 'h, 'hdr) cache_env \<Rightarrow> 'hdr \<Rightarrow> ('n, 'h) EngineCache \<Rightarrow> ('n, 'h) EngineCache" where
  "AddHeader E header c =
     (let number = big_Uint64 (header_Number E header) in
      case lru_Get (byNumber E) number (headerByNumberCache c) of
        (old, n) \<Rightarrow>
          let hs = (case old of
                     None \<Rightarrow> headerByHashCache c
                   | Some oldHeader \<Rightarrow>
                       lru_Remove (byHash E) (header_Hash E oldHeader) (headerByHashCache c)) in
          \<lparr>headerByNumberCache = lru_Add (byNumber E) number header n,
           headerByHashCache = lru_Add (byHash E) (header_Hash E header) header hs\<rparr>)"

subsection \<open>Reading headers through the cache (\<open>eth.go\<close>)\<close>

record 'hdr eth_reader =
  eth_BlockNumber :: "err + u64"
  eth_HeaderByNumber :: "int \<Rightarrow> err + 'hdr"
  eth_HeaderByHash :: "b32 \<Rightarrow> err + 'hdr"

definition HeaderByNumber ::
  "('n, 'h, 'hdr) cache_env \<Rightarrow> 'hdr eth_reader \<Rightarrow> int option \<Rightarrow> (('n, 'h) EngineCache, 'hdr) M" where
  "HeaderByNumber E R number c =
     (case (case number of Some n \<Rightarrow> Inr n
            | None \<Rightarrow> bindE (eth_BlockNumber R) (\<lambda>latest. Inr (uint latest))) of
        Inl e \<Rightarrow> (Inl e, c)
      | Inr number \<Rightarrow>
          (case Cache_HeaderByNumber E (big_Uint64 number) c of
             (Some header, c) \<Rightarrow> (Inr header, c)
           | (None, c) \<Rightarrow>
               (case eth_HeaderByNumber R number of
                  Inl e \<Rightarrow> (Inl e, c)
                | Inr header \<Rightarrow> (Inr header, AddHeader E header c))))"

definition HeaderByHash ::
  "('n, 'h, 'hdr) cache_env \<Rightarrow> 'hdr eth_reader \<Rightarrow> b32 \<Rightarrow> (('n, 'h) EngineCache, 'hdr) M" where
  "HeaderByHash E R hash c =
     (case Cache_HeaderByHash E hash c of
        (Some header, c) \<Rightarrow> (Inr header, c)
      | (None, c) \<Rightarrow>
          (case eth_HeaderByHash R hash of
             Inl e \<Rightarrow> (Inl e, c)
           | Inr header \<Rightarrow> (Inr header, AddHeader E header c)))"

subsection \<open>Coherence\<close>

text \<open>Every cached header is filed under its own number and its own hash.\<close>

locale header_caches =
  num: lru "byNumber E" numbers + hsh: lru "byHash E" hashes
  for E :: "('n, 'h, 'hdr) cache_env" and numbers :: "'n \<Rightarrow> u64 \<rightharpoonup> 'hdr"
    and hashes :: "'h \<Rightarrow> b32 \<rightharpoonup> 'hdr"

definition coherent ::
  "('n, 'h, 'hdr) cache_env \<Rightarrow> ('n \<Rightarrow> u64 \<rightharpoonup> 'hdr) \<Rightarrow> ('h \<Rightarrow> b32 \<rightharpoonup> 'hdr) \<Rightarrow> ('n, 'h) EngineCache \<Rightarrow> bool" where
  "coherent E numbers hashes c \<longleftrightarrow>
     all_entries (\<lambda>k v. big_Uint64 (header_Number E v) = k) (numbers (headerByNumberCache c)) \<and>
     all_entries (\<lambda>k v. header_Hash E v = k) (hashes (headerByHashCache c))"

context header_caches
begin

lemma lookups_coherent:
  assumes "coherent E numbers hashes c"
  shows "Cache_HeaderByNumber E k c = (r, c') \<Longrightarrow>
      coherent E numbers hashes c' \<and> (\<forall>h. r = Some h \<longrightarrow> big_Uint64 (header_Number E h) = k)"
    and "Cache_HeaderByHash E x c = (r', c'') \<Longrightarrow>
      coherent E numbers hashes c'' \<and> (\<forall>h. r' = Some h \<longrightarrow> header_Hash E h = x)"
  using assms
  by (auto simp: coherent_def Cache_HeaderByNumber_def Cache_HeaderByHash_def
      dest: num.get_invariant hsh.get_invariant num.get_value hsh.get_value split: prod.splits)

lemma AddHeader_coherent:
  assumes "coherent E numbers hashes c"
  shows "coherent E numbers hashes (AddHeader E header c)"
proof -
  obtain old n where get: "lru_Get (byNumber E) (big_Uint64 (header_Number E header))
      (headerByNumberCache c) = (old, n)" by fastforce
  with assms show ?thesis
    by (cases old) (auto simp: coherent_def AddHeader_def dest: num.get_invariant
        intro!: num.add_invariant hsh.add_invariant hsh.remove_invariant)
qed

text \<open>A header that a new one of the same number replaces is no longer found by its hash.\<close>

lemma AddHeader_replaces:
  assumes "lru_Get (byNumber E) (big_Uint64 (header_Number E header)) (headerByNumberCache c) =
      (Some old, n)"
    and "header_Hash E old \<noteq> header_Hash E header"
  shows "fst (Cache_HeaderByHash E (header_Hash E old) (AddHeader E header c)) = None"
proof -
  define hs where "hs = lru_Remove (byHash E) (header_Hash E old) (headerByHashCache c)"
  have "hashes (lru_Add (byHash E) (header_Hash E header) header hs) (header_Hash E old) = None"
    using hsh.add_content [of "header_Hash E header" header hs]
      hsh.remove_content [of "header_Hash E old" "headerByHashCache c"] assms(2)
    by (auto simp: hs_def map_le_def dom_def fun_upd_apply split: if_splits)
  then show ?thesis
    by (auto simp: Cache_HeaderByHash_def AddHeader_def assms(1) hs_def split: prod.splits)
      (metis hsh.get_found option.distinct(1) option.exhaust)
qed

lemma reads_coherent:
  assumes "coherent E numbers hashes c"
  shows "HeaderByNumber E R number c = (res, c') \<Longrightarrow> coherent E numbers hashes c'"
    and "HeaderByHash E R x c = (res', c'') \<Longrightarrow> coherent E numbers hashes c''"
  using assms lookups_coherent [OF assms] AddHeader_coherent
  by (auto simp: HeaderByNumber_def HeaderByHash_def split: sum.splits prod.splits option.splits)

end

subsection \<open>A bounded list as the cache\<close>

definition mem_lru :: "nat \<Rightarrow> (('k \<times> 'v) list, 'k, 'v) LRU" where
  "mem_lru capacity = \<lparr>
     lru_Get = (\<lambda>k c. case map_of c k of
        None \<Rightarrow> (None, c)
      | Some v \<Rightarrow> (Some v, (k, v) # AList.delete k c)),
     lru_Add = (\<lambda>k v c. take capacity ((k, v) # AList.delete k c)),
     lru_Remove = (\<lambda>k c. AList.delete k c)\<rparr>"

lemma map_of_take_le: "map_of (take n xs) k = Some v \<Longrightarrow> map_of xs k = Some v"
proof -
  assume "map_of (take n xs) k = Some v"
  then have "(map_of (drop n xs) ++ map_of (take n xs)) k = Some v" by simp
  then show ?thesis by (metis append_take_drop_id map_of_append)
qed

interpretation mem_lru: lru "mem_lru capacity" map_of
proof
  show "map_of c k = Some v" if "lru_Get (mem_lru capacity) k c = (Some v, c')"
    for k c v and c' :: "('a \<times> 'b) list"
    using that by (auto simp: mem_lru_def split: option.splits)
  show "map_of c' \<subseteq>\<^sub>m map_of c" if "lru_Get (mem_lru capacity) k c = (r, c')"
    for k and c :: "('a \<times> 'b) list" and r c'
    using that by (auto simp: mem_lru_def map_le_def AList.delete_conv' split: option.splits)
  show "map_of (lru_Add (mem_lru capacity) k v c) \<subseteq>\<^sub>m (map_of c)(k \<mapsto> v)"
    for k :: 'a and v :: 'b and c
    by (rule map_le_SomeI) (auto simp: mem_lru_def AList.delete_conv' dest!: map_of_take_le
        split: if_splits)
  show "map_of (lru_Remove (mem_lru capacity) k c) \<subseteq>\<^sub>m (map_of c)(k := None)"
    for k :: 'a and c :: "('a \<times> 'b) list"
    by (auto simp: mem_lru_def map_le_def AList.delete_conv')
qed


text \<open>
  C33. Whatever the two caches evict, every header the client hands out is the one that was asked for:
  starting from coherent caches, a successful read by hash returns a header with that hash and a
  successful read of a given number a header with that number, provided the execution client answers
  so, and the caches stay coherent whether the read succeeds or not. A header that was replaced by
  another one of its number is not found by its hash any more.
\<close>

theorem header_cache_coherent:
  assumes "lru (byNumber E) numbers" and "lru (byHash E) hashes"
    and "coherent E numbers hashes c"
    and "\<And>x h. eth_HeaderByHash R x = Inr h \<Longrightarrow> header_Hash E h = x"
    and "\<And>k h. eth_HeaderByNumber R k = Inr h \<Longrightarrow> header_Number E h = k"
  shows "coherent E numbers hashes (snd (HeaderByHash E R x c)) \<and>
    coherent E numbers hashes (snd (HeaderByNumber E R number c)) \<and>
    (\<forall>h. fst (HeaderByHash E R x c) = Inr h \<longrightarrow> header_Hash E h = x) \<and>
    (\<forall>h k. number = Some k \<longrightarrow> fst (HeaderByNumber E R number c) = Inr h \<longrightarrow>
       big_Uint64 (header_Number E h) = big_Uint64 k) \<and>
    (\<forall>header old n.
       lru_Get (byNumber E) (big_Uint64 (header_Number E header)) (headerByNumberCache c) = (Some old, n) \<longrightarrow>
       header_Hash E old \<noteq> header_Hash E header \<longrightarrow>
       fst (Cache_HeaderByHash E (header_Hash E old) (AddHeader E header c)) = None)"
proof -
  have caches: "header_caches E numbers hashes"
    using assms(1,2) by (simp add: header_caches_def)
  note look = header_caches.lookups_coherent [OF caches assms(3)]
  have "header_Hash E h = x" if "fst (HeaderByHash E R x c) = Inr h" for h
    using that look(2) [of x] assms(4)
    by (auto simp: HeaderByHash_def split: prod.splits option.splits sum.splits)
  moreover have "big_Uint64 (header_Number E h) = big_Uint64 k"
    if "fst (HeaderByNumber E R (Some k) c) = Inr h" for h k
    using that look(1) [of "big_Uint64 k"] assms(5)
    by (auto simp: HeaderByNumber_def split: prod.splits option.splits sum.splits)
  ultimately show ?thesis
    using header_caches.reads_coherent [OF caches assms(3)]
      header_caches.AddHeader_replaces [OF caches] by (metis prod.collapse)
qed

text \<open>Headers as pairs of a number and a hash, and a chain whose hashes repeat the number.\<close>

definition demo_caches :: "((u64 \<times> int \<times> b32) list, (b32 \<times> int \<times> b32) list, int \<times> b32) cache_env" where
  "demo_caches = \<lparr>byNumber = mem_lru 20, byHash = mem_lru 20, header_Number = fst, header_Hash = snd\<rparr>"

definition demo_reader :: "(int \<times> b32) eth_reader" where
  "demo_reader = \<lparr>eth_BlockNumber = Inr 7, eth_HeaderByNumber = (\<lambda>k. Inr (k, [of_int k])),
     eth_HeaderByHash = (\<lambda>x. if length x = 1 then Inr (uint (x ! 0), x) else Inl (Ext ''not found''))\<rparr>"

definition empty_caches :: "((u64 \<times> int \<times> b32) list, (b32 \<times> int \<times> b32) list) EngineCache" where
  "empty_caches = \<lparr>headerByNumberCache = [], headerByHashCache = []\<rparr>"

interpretation mem_headers: header_caches demo_caches map_of map_of
  by (simp add: header_caches_def demo_caches_def mem_lru.lru_axioms)

lemma empty_caches_coherent: "coherent demo_caches map_of map_of empty_caches"
  by (simp add: coherent_def empty_caches_def all_entries_def)

lemma demo_reader_honest:
  "eth_HeaderByHash demo_reader x = Inr h \<Longrightarrow> header_Hash demo_caches h = x"
  "eth_HeaderByNumber demo_reader k = Inr h \<Longrightarrow> header_Number demo_caches h = k"
  by (auto simp: demo_reader_def demo_caches_def split: if_splits)

lemma demo_header: "fst (HeaderByHash demo_caches demo_reader [9] empty_caches) = Inr (9, [9])"
  by (simp add: HeaderByHash_def Cache_HeaderByHash_def demo_caches_def demo_reader_def
      empty_caches_def mem_lru_def)

theorem header_cache_coherent_witness:
  "fst (HeaderByHash demo_caches demo_reader [9] empty_caches) = Inr (9, [9]) \<and>
   coherent demo_caches map_of map_of (snd (HeaderByHash demo_caches demo_reader [9] empty_caches))"
proof -
  note cache = header_cache_coherent [OF mem_headers.num.lru_axioms mem_headers.hsh.lru_axioms
      empty_caches_coherent, where R = demo_reader and x = "[9]" and number = None]
  show ?thesis using cache [OF demo_reader_honest] demo_header by blast
qed

end
