(* ===== verification/Builder.thy ===== *)
theory Builder
  imports Engine Blocks
begin

section \<open>The payload builder: \<open>mod/payload/pkg/cache\<close>, \<open>mod/payload/pkg/builder\<close>\<close>

text \<open>
  The cache of payload ids by slot and parent block root, and the builder that asks the execution
  client for a payload and fetches it later. A request is a program over the beacon state and the
  cache; \<open>RequestPayloadSync\<close> takes what its \<open>select\<close> saw: the timer, or the context's error.
\<close>

subsection \<open>The payload id cache (\<open>payload_id.go\<close>)\<close>

type_synonym PayloadIDCache = "u64 \<rightharpoonup> b32 \<rightharpoonup> PayloadID"

definition historicalPayloadIDCacheSize :: u64 where
  "historicalPayloadIDCacheSize = 2"

definition NewPayloadIDCache :: PayloadIDCache where
  "NewPayloadIDCache = Map.empty"

definition Cache_Has :: "PayloadIDCache \<Rightarrow> u64 \<Rightarrow> b32 \<Rightarrow> bool" where
  "Cache_Has p slot stateRoot =
     (case p slot of None \<Rightarrow> False | Some inner \<Rightarrow> inner stateRoot \<noteq> None)"

definition Cache_Get :: "PayloadIDCache \<Rightarrow> u64 \<Rightarrow> b32 \<Rightarrow> PayloadID option" where
  "Cache_Get p slot stateRoot =
     (case p slot of
        None \<Rightarrow> None
      | Some innerMap \<Rightarrow> (case innerMap stateRoot of None \<Rightarrow> None | Some pid \<Rightarrow> Some pid))"

definition prunePrior :: "u64 \<Rightarrow> PayloadIDCache \<Rightarrow> PayloadIDCache" where
  "prunePrior slot p = (\<lambda>s. if s < slot then None else p s)"

definition UnsafePrunePrior :: "u64 \<Rightarrow> PayloadIDCache \<Rightarrow> PayloadIDCache" where
  "UnsafePrunePrior slot p = prunePrior slot p"

definition Cache_Set :: "u64 \<Rightarrow> b32 \<Rightarrow> PayloadID \<Rightarrow> PayloadIDCache \<Rightarrow> PayloadIDCache" where
  "Cache_Set slot stateRoot pid p =
     (let p = (if slot \<ge> historicalPayloadIDCacheSize
               then prunePrior (slot - historicalPayloadIDCacheSize) p else p);
          innerMap = (case p slot of None \<Rightarrow> Map.empty | Some innerMap \<Rightarrow> innerMap)
      in p(slot \<mapsto> innerMap(stateRoot \<mapsto> pid)))"

subsection \<open>The builder\<close>

record Config =
  cfg_Enabled :: bool
  cfg_SuggestedFeeRecipient :: bytes

record PayloadBuilder =
  pb_cfg :: Config
  pb_chainSpec :: SpecData
  pb_ee :: eth1_rpc

definition NewPayloadBuilder :: "Config \<Rightarrow> SpecData \<Rightarrow> eth1_rpc \<Rightarrow> PayloadBuilder" where
  "NewPayloadBuilder cfg chainSpec ee = \<lparr>pb_cfg = cfg, pb_chainSpec = chainSpec, pb_ee = ee\<rparr>"

definition Enabled :: "PayloadBuilder \<Rightarrow> bool" where
  "Enabled pb = cfg_Enabled (pb_cfg pb)"

definition getPayloadAttribute ::
  "PayloadBuilder \<Rightarrow> 'c KVStore \<Rightarrow> u64 \<Rightarrow> u64 \<Rightarrow> b32 \<Rightarrow> ('c, PayloadAttributes) M" where
  "getPayloadAttribute pb st slot timestamp prevHeadRoot =
     bindM (ExpectedWithdrawals st (pb_chainSpec pb)) (\<lambda>withdrawals.
     bindM (liftE (SlotToEpoch (pb_chainSpec pb) slot)) (\<lambda>epoch.
     bindM (liftE (mod_u64 epoch (EpochsPerHistoricalVector (pb_chainSpec pb)))) (\<lambda>i.
     bindM (GetRandaoMixAtIndex st i) (\<lambda>prevRandao.
     liftE (NewPayloadAttributes (ActiveForkVersionForEpoch (pb_chainSpec pb) epoch) timestamp
              prevRandao (cfg_SuggestedFeeRecipient (pb_cfg pb)) (Some withdrawals) prevHeadRoot)))))"

text \<open>The state is the beacon state and the builder's cache.\<close>

definition RequestPayloadAsync ::
  "PayloadBuilder \<Rightarrow> 'c KVStore \<Rightarrow> u64 \<Rightarrow> u64 \<Rightarrow> b32 \<Rightarrow> b32 \<Rightarrow> b32 \<Rightarrow>
   ('c \<times> PayloadIDCache, PayloadID option) M" where
  "RequestPayloadAsync pb st slot timestamp parentBlockRoot headEth1BlockHash finalEth1BlockHash s =
     (case s of (c, pc) \<Rightarrow>
      if \<not> Enabled pb then (Inl (EL ErrPayloadBuilderDisabled), s)
      else case Cache_Get pc slot parentBlockRoot of
        Some payloadID \<Rightarrow> (Inr (Some payloadID), s)
      | None \<Rightarrow>
        (case getPayloadAttribute pb st slot timestamp parentBlockRoot c of
           (Inl e, c) \<Rightarrow> (Inl e, (c, pc))
         | (Inr attrs, c) \<Rightarrow>
           (case ActiveForkVersionForSlot (pb_chainSpec pb) slot of
              Inl e \<Rightarrow> (Inl e, (c, pc))
            | Inr forkVersion \<Rightarrow>
              (case NotifyForkchoiceUpdate (pb_ee pb)
                      \<lparr>fcu_State = \<lparr>fs_HeadBlockHash = headEth1BlockHash,
                                    fs_SafeBlockHash = finalEth1BlockHash,
                                    fs_FinalizedBlockHash = finalEth1BlockHash\<rparr>,
                       fcu_PayloadAttributes = Iface (Some attrs),
                       fcu_ForkVersion = forkVersion\<rparr> of
                 (_, _, Some e) \<Rightarrow> (Inl e, (c, pc))
               | (None, _, None) \<Rightarrow> (Inr None, (c, pc))
               | (Some payloadID, _, None) \<Rightarrow>
                   (Inr (Some payloadID), (c, Cache_Set slot parentBlockRoot payloadID pc))))))"

definition builder_GetPayload ::
  "PayloadBuilder \<Rightarrow> u64 \<Rightarrow> PayloadID \<Rightarrow> err + ExecutionPayloadEnvelope iface" where
  "builder_GetPayload pb slot payloadID =
     bindE (ActiveForkVersionForSlot (pb_chainSpec pb) slot) (\<lambda>forkVersion.
     case GetPayload (pb_ee pb) \<lparr>gp_PayloadID = payloadID, gp_ForkVersion = forkVersion\<rparr> of
       (_, Some e) \<Rightarrow> Inl e
     | (envelope, None) \<Rightarrow> Inr envelope)"

text \<open>\<open>ctxDone\<close> is the error of the context when it ends before the payload timeout.\<close>

definition RequestPayloadSync ::
  "PayloadBuilder \<Rightarrow> 'c KVStore \<Rightarrow> err option \<Rightarrow> u64 \<Rightarrow> u64 \<Rightarrow> b32 \<Rightarrow> b32 \<Rightarrow> b32 \<Rightarrow>
   ('c \<times> PayloadIDCache, ExecutionPayloadEnvelope iface) M" where
  "RequestPayloadSync pb st ctxDone slot timestamp parentBlockRoot parentEth1Hash finalBlockHash s =
     (if \<not> Enabled pb then (Inl (EL ErrPayloadBuilderDisabled), s)
      else case RequestPayloadAsync pb st slot timestamp parentBlockRoot parentEth1Hash
                  finalBlockHash s of
        (Inl e, s) \<Rightarrow> (Inl e, s)
      | (Inr None, s) \<Rightarrow> (Inl (EL ErrNilPayloadID), s)
      | (Inr (Some payloadID), s) \<Rightarrow>
          (case ctxDone of
             Some e \<Rightarrow> (Inl e, s)
           | None \<Rightarrow> (builder_GetPayload pb slot payloadID, s)))"

text \<open>
  The payload is read for the log and for the check of its fee recipient, which only warns: a nil
  payload is dereferenced by \<open>IsNil\<close>, promoted from the wrapper, and a nil bundle by \<open>GetBlobs\<close>.
\<close>

definition RetrievePayload ::
  "PayloadBuilder \<Rightarrow> PayloadIDCache \<Rightarrow> u64 \<Rightarrow> b32 \<Rightarrow> err + ExecutionPayloadEnvelope" where
  "RetrievePayload pb pc slot parentBlockRoot =
     (if \<not> Enabled pb then Inl (EL ErrPayloadBuilderDisabled)
      else case Cache_Get pc slot parentBlockRoot of
        None \<Rightarrow> Inl (EL ErrPayloadIDNotFound)
      | Some payloadID \<Rightarrow>
          bindE (builder_GetPayload pb slot payloadID) (\<lambda>envelope.
          case envelope of
            NilIface \<Rightarrow> Inl (EL ErrNilPayloadEnvelope)
          | Iface e \<Rightarrow>
              bindE (from_option (Panic ''nil pointer dereference'') (env_ExecutionPayload e)) (\<lambda>payload.
              bindE (case GetBlobsBundle e of
                       NilIface \<Rightarrow> Inr ()
                     | Iface b \<Rightarrow> bindE (Bundle_GetBlobs b) (\<lambda>_. Inr ())) (\<lambda>_.
              Inr e))))"

definition SendForceHeadFCU :: "PayloadBuilder \<Rightarrow> 'c KVStore \<Rightarrow> u64 \<Rightarrow> ('c, unit) M" where
  "SendForceHeadFCU pb st slot =
     bindM (GetLatestExecutionPayloadHeader st) (\<lambda>lph.
     bindM (liftE (ActiveForkVersionForSlot (pb_chainSpec pb) slot)) (\<lambda>forkVersion.
     liftE (case NotifyForkchoiceUpdate (pb_ee pb)
                   \<lparr>fcu_State = \<lparr>fs_HeadBlockHash = ph_BlockHash lph,
                                 fs_SafeBlockHash = ph_ParentHash lph,
                                 fs_FinalizedBlockHash = ph_ParentHash lph\<rparr>,
                    fcu_PayloadAttributes = NilIface,
                    fcu_ForkVersion = forkVersion\<rparr> of
              (_, _, Some e) \<Rightarrow> Inl e
            | (_, _, None) \<Rightarrow> Inr ())))"

subsection \<open>The cache keeps what it is given for three slots\<close>

lemma Cache_Has_Get: "Cache_Has p s r \<longleftrightarrow> Cache_Get p s r \<noteq> None"
  by (simp add: Cache_Has_def Cache_Get_def split: option.splits)

text \<open>An insertion at \<open>slot\<close> reaches back to this slot.\<close>

definition retained_from :: "u64 \<Rightarrow> u64" where
  "retained_from slot = (if slot \<ge> 2 then slot - 2 else 0)"

lemma Cache_Get_Set:
  "Cache_Get (Cache_Set slot r pid p) s x =
     (if s = slot \<and> x = r then Some pid
      else if s < retained_from slot then None else Cache_Get p s x)"
proof -
  have "\<not> slot < slot - 2" if "2 \<le> slot"
    using that by (simp add: word_less_nat_alt word_le_nat_alt unat_sub)
  then show ?thesis
    by (auto simp: Cache_Get_def Cache_Set_def Let_def prunePrior_def retained_from_def
        historicalPayloadIDCacheSize_def split: option.splits)
qed

text \<open>A run of insertions, oldest first.\<close>

definition Cache_run :: "(u64 \<times> b32 \<times> PayloadID) list \<Rightarrow> PayloadIDCache" where
  "Cache_run ops = fold (\<lambda>(s, r, pid). Cache_Set s r pid) ops NewPayloadIDCache"

lemma Cache_run_snoc: "Cache_run (ops @ [(s, r, pid)]) = Cache_Set s r pid (Cache_run ops)"
  by (simp add: Cache_run_def)

text \<open>The specification: the last insertion for the key, unless a later one pruned its slot.\<close>

fun spec_lookup :: "(u64 \<times> b32 \<times> PayloadID) list \<Rightarrow> u64 \<Rightarrow> b32 \<Rightarrow> PayloadID option" where
  "spec_lookup [] s x = None"
| "spec_lookup ((s', r, pid) # newer_first) s x =
     (if s = s' \<and> x = r then Some pid
      else if s < retained_from s' then None else spec_lookup newer_first s x)"

lemma Cache_run_lookup: "Cache_Get (Cache_run ops) s x = spec_lookup (rev ops) s x"
proof (induction ops rule: rev_induct)
  case Nil
  then show ?case by (simp add: Cache_run_def NewPayloadIDCache_def Cache_Get_def)
next
  case (snoc a ops)
  then show ?case by (cases a) (simp add: Cache_run_snoc Cache_Get_Set)
qed

lemma spec_lookup_window:
  "spec_lookup ops s x = Some pid \<Longrightarrow> sorted_wrt (\<lambda>a b. fst b \<le> fst a) ops \<Longrightarrow> ops \<noteq> [] \<Longrightarrow>
   retained_from (fst (ops ! 0)) \<le> s \<and> s \<le> fst (ops ! 0)"
proof (induction ops)
  case (Cons a ops)
  obtain s' r p where a: "a = (s', r, p)" by (cases a)
  have self: "retained_from s' \<le> s'"
    by (simp add: retained_from_def word_le_nat_alt unat_sub)
  show ?case
  proof (cases "s = s' \<and> x = r")
    case True
    with self show ?thesis by (simp add: a)
  next
    case False
    with Cons.prems a have "spec_lookup ops s x = Some pid" "retained_from s' \<le> s"
      by (auto split: if_splits)
    moreover from this Cons have "s \<le> fst (ops ! 0)" "ops \<noteq> []" by (cases ops, auto)+
    moreover from this Cons.prems a have "fst (ops ! 0) \<le> s'" by (cases ops) auto
    ultimately show ?thesis by (auto simp: a)
  qed
qed simp

text \<open>
  C34. The cache is its log of insertions: a lookup returns the last insertion for its slot and root
  unless a later insertion was more than two slots ahead of it. When the slots of the insertions do
  not decrease, every cached slot is one of the last three: the latest one and the two before it.
\<close>

theorem payload_cache_window:
  "Cache_Get (Cache_run ops) s x = spec_lookup (rev ops) s x \<and>
   Cache_Has (Cache_run ops) s x = (Cache_Get (Cache_run ops) s x \<noteq> None) \<and>
   (sorted (map fst ops) \<longrightarrow> Cache_Has (Cache_run ops) s x \<longrightarrow>
      retained_from (fst (last ops)) \<le> s \<and> s \<le> fst (last ops))"
proof -
  have "retained_from (fst (last ops)) \<le> s \<and> s \<le> fst (last ops)"
    if srt: "sorted (map fst ops)" and "Cache_Has (Cache_run ops) s x"
  proof -
    from that(2) obtain pid where pid: "spec_lookup (rev ops) s x = Some pid"
      by (auto simp: Cache_Has_Get Cache_run_lookup)
    then have ne: "ops \<noteq> []" by auto
    have "sorted_wrt (\<lambda>a b. fst b \<le> fst a) (rev ops)"
      using srt by (simp add: sorted_map sorted_wrt_rev)
    with spec_lookup_window [OF pid] ne show ?thesis
      by (simp add: rev_nth last_conv_nth)
  qed
  then show ?thesis by (simp add: Cache_Has_Get Cache_run_lookup)
qed

text \<open>Three slots are held at once.\<close>

theorem payload_cache_window_witness:
  "(let ops = [(5, zero32, [1]), (6, zero32, [2]), (7, zero32, [3 :: u8])] in
    Cache_Has (Cache_run ops) 5 zero32 \<and> Cache_Has (Cache_run ops) 6 zero32 \<and>
    Cache_Has (Cache_run ops) 7 zero32 \<and> retained_from (fst (last ops)) = 5 \<and>
    \<not> Cache_Has (Cache_run (ops @ [(8, zero32, [4])])) 5 zero32)"
  using payload_cache_window [of "[(5, zero32, [1]), (6, zero32, [2]), (7, zero32, [3])]" 5 zero32]
    payload_cache_window [of "[(5, zero32, [1]), (6, zero32, [2]), (7, zero32, [3])]" 6 zero32]
    payload_cache_window [of "[(5, zero32, [1]), (6, zero32, [2]), (7, zero32, [3])]" 7 zero32]
    payload_cache_window [of "[(5, zero32, [1]), (6, zero32, [2]), (7, zero32, [3]), (8, zero32, [4])]" 5 zero32]
  by (simp add: Let_def retained_from_def)

subsection \<open>Requests\<close>

lemma RequestPayloadAsync_cached:
  assumes "RequestPayloadAsync pb st slot ts root h f (c, pc) = (Inr (Some pid), (c', pc'))"
  shows "Enabled pb \<and> Cache_Get pc' slot root = Some pid"
  using assms
  by (auto simp: RequestPayloadAsync_def Cache_Get_Set split: if_splits option.splits prod.splits sum.splits)

lemma RetrievePayload_cached:
  assumes "Enabled pb" and "Cache_Get pc slot root = Some pid"
    and "ActiveForkVersionForSlot (pb_chainSpec pb) slot = Inr v"
  shows "RetrievePayload pb pc slot root =
    (if v \<noteq> Deneb then Inl (EL ErrInvalidVersion)
     else case call_getPayload (pb_ee pb) GetPayloadMethodV3 pid of
       Inl r \<Rightarrow> Inl (handleRPCError (Remote r))
     | Inr e \<Rightarrow> if env_ExecutionPayload e = None \<or> env_BlobsBundle e = None
                then Inl (Panic ''nil pointer dereference'') else Inr e)"
  using assms
  by (auto simp: RetrievePayload_def builder_GetPayload_def GetPayload_def Client_GetPayload_def
      Eth1_GetPayload_def Eth1_GetPayloadV3_def remote_def handleRPCError_Local GetBlobsBundle_def
      Bundle_GetBlobs_def iface_is_nil_def from_option_def split: sum.splits option.splits)

text \<open>
  A payload that was requested can be retrieved. When \<open>RequestPayloadAsync\<close> returns an id, the
  cache holds it: a second request for the slot and root returns the same id without changing the
  state and whatever the execution client would answer, and \<open>RetrievePayload\<close> asks for that id and
  returns the envelope the client gives, provided it has a payload and a blobs bundle. Without one of
  them the builder dereferences a nil pointer.
\<close>

theorem request_then_retrieve:
  assumes "RequestPayloadAsync pb st slot ts root h f (c, pc) = (Inr (Some pid), (c', pc'))"
    and "ActiveForkVersionForSlot (pb_chainSpec pb) slot = Inr Deneb"
  shows "(\<forall>ee' ts' h' f' c''.
      RequestPayloadAsync (pb\<lparr>pb_ee := ee'\<rparr>) st slot ts' root h' f' (c'', pc') =
        (Inr (Some pid), (c'', pc'))) \<and>
    RetrievePayload pb pc' slot root =
      (case call_getPayload (pb_ee pb) GetPayloadMethodV3 pid of
         Inl r \<Rightarrow> Inl (handleRPCError (Remote r))
       | Inr e \<Rightarrow> if env_ExecutionPayload e = None \<or> env_BlobsBundle e = None
                  then Inl (Panic ''nil pointer dereference'') else Inr e)"
  using RequestPayloadAsync_cached [OF assms(1)] RetrievePayload_cached [OF _ _ assms(2)]
  by (simp add: RequestPayloadAsync_def Enabled_def)

subsection \<open>The attributes are the ones the state processor checks\<close>

lemma mem_getPayloadAttribute:
  assumes "getPayloadAttribute pb (mem_kv addr) slot ts root w = (Inr attrs, w')"
  shows "\<exists>ws mix. ExpectedWithdrawals (mem_kv addr) (pb_chainSpec pb) w = (Inr ws, w) \<and> w' = w \<and>
    map_of (v_randaoMix w) (slot div SlotsPerEpoch (pb_chainSpec pb) mod
      EpochsPerHistoricalVector (pb_chainSpec pb)) = Some mix \<and>
    32 \<le> length mix \<and> SlotsPerEpoch (pb_chainSpec pb) \<noteq> 0 \<and>
    EpochsPerHistoricalVector (pb_chainSpec pb) \<noteq> 0 \<and>
    pa_Withdrawals attrs = Some ws \<and> pa_PrevRandao attrs = take 32 mix \<and>
    pa_Timestamp attrs = ts \<and> ts \<noteq> 0 \<and> pa_PrevRandao attrs \<noteq> zero32 \<and>
    pa_ParentBeaconBlockRoot attrs = root \<and>
    pa_SuggestedFeeRecipient attrs = cfg_SuggestedFeeRecipient (pb_cfg pb)"
proof -
  from assms obtain ws w1 where
    ws: "ExpectedWithdrawals (mem_kv addr) (pb_chainSpec pb) w = (Inr ws, w1)"
    by (auto simp: getPayloadAttribute_def bindM_success)
  with ExpectedWithdrawals_reads have "w1 = w" by blast
  with ws assms show ?thesis
    by (auto simp: getPayloadAttribute_def bindM_success mem_ops bindE_Inr SlotToEpoch_def
        to_array_def NewPayloadAttributes_def Validate_def Let_def
        split: if_splits option.splits dest!: div_u64_InrD mod_u64_InrD)
qed


lemma mem_apply_equal:
  "fst (apply_withdrawals (mem_kv addr) (zip ws ws) w) \<in> {Inr (), Inl ErrNotFound}"
proof (induction ws arbitrary: w)
  case (Cons x ws)
  then show ?case
    by (auto simp: Withdrawal_Equals_def bindM_def mem_DecreaseBalance split: option.splits)
qed simp

text \<open>
  C29. The builder asks for the payload the state processor will check: if the attributes were
  made from a state whose slot is the one built for, then a payload with the randomness and the
  withdrawals of these attributes passes \<open>validateExecutionPayload\<close> on that state whenever it extends
  the latest payload, the engine accepts it and its sizes are within the limits, and
  \<open>processWithdrawals\<close> finds no mismatch.
\<close>

theorem attributes_accepted:
  assumes kv: "kv_laws kv view addr" and "v_slot (view c) = Some slot"
    and "getPayloadAttribute pb kv slot ts root c = (Inr attrs, c')" and "pb_chainSpec pb = cs sp"
    and "payload = bd_ExecutionPayload (blk_Body blk)"
    and "pl_Random payload = pa_PrevRandao attrs" and "pa_Withdrawals attrs = Some (pl_Withdrawals payload)"
  shows "(v_latestExecutionPayloadVersion (view c) = Some Deneb \<longrightarrow>
      v_latestExecutionPayloadHeader (view c) = Some lph \<longrightarrow> ph_BlockHash lph = pl_ParentHash payload \<longrightarrow>
      executionEngine sp (BuildNewPayloadRequest payload
        (ToVersionedHashes (sszEnv sp) (bd_BlobKzgCommitments (blk_Body blk)))
        (blk_ParentBlockRoot blk) opt) = Inr () \<longrightarrow>
      of_nat (length (bd_BlobKzgCommitments (blk_Body blk))) \<le> MaxBlobsPerBlock (cs sp) \<longrightarrow>
      of_nat (length (pl_Withdrawals payload)) \<le> MaxWithdrawalsPerPayload (cs sp) \<longrightarrow>
      fst (validateExecutionPayload sp kv blk opt c) = Inr ()) \<and>
    fst (processWithdrawals sp kv (blk_Body blk) c) \<noteq>
      Inl (Newf ''withdrawals do not match expected length'') \<and>
    fst (processWithdrawals sp kv (blk_Body blk) c) \<noteq> Inl (Newf ''withdrawals do not match expected'')"
proof -
  have sim: "simulates view (getPayloadAttribute pb kv slot ts root)
      (getPayloadAttribute pb (mem_kv addr) slot ts root)"
    unfolding getPayloadAttribute_def
    by (intro simulation kv_laws.store_sims [OF kv] kv_laws.state_sims [OF kv])
  from mem_getPayloadAttribute [OF simulates_success [OF sim assms(3)]] obtain mix where
    ws: "ExpectedWithdrawals (mem_kv addr) (cs sp) (view c) = (Inr (pl_Withdrawals payload), view c)"
    and mix: "map_of (v_randaoMix (view c)) (slot div SlotsPerEpoch (cs sp) mod
        EpochsPerHistoricalVector (cs sp)) = Some mix" "pl_Random payload = take 32 mix"
      "32 \<le> length mix" "SlotsPerEpoch (cs sp) \<noteq> 0" "EpochsPerHistoricalVector (cs sp) \<noteq> 0"
    using assms(4-7) by auto
  have "fst (processWithdrawals sp (mem_kv addr) (blk_Body blk) (view c)) \<noteq> Inl (Newf m)" for m
    using ws mem_apply_equal [of addr "pl_Withdrawals payload" "view c"] assms(5)
    by (auto simp: processWithdrawals_def Let_def bindM_def mem_ops mod_u64_def from_option_def
        split: prod.splits sum.splits if_splits option.splits)
  moreover have "fst (validateExecutionPayload sp (mem_kv addr) blk opt (view c)) = Inr ()"
    if "v_latestExecutionPayloadVersion (view c) = Some Deneb"
      "v_latestExecutionPayloadHeader (view c) = Some lph" "ph_BlockHash lph = pl_ParentHash payload"
      "executionEngine sp (BuildNewPayloadRequest payload
        (ToVersionedHashes (sszEnv sp) (bd_BlobKzgCommitments (blk_Body blk)))
        (blk_ParentBlockRoot blk) opt) = Inr ()"
      "of_nat (length (bd_BlobKzgCommitments (blk_Body blk))) \<le> MaxBlobsPerBlock (cs sp)"
      "of_nat (length (pl_Withdrawals payload)) \<le> MaxWithdrawalsPerPayload (cs sp)"
    using that mix assms(2,5)
    by (simp add: validateExecutionPayload_def Let_def mem_ops SlotToEpoch_def to_array_def not_less
        ExecutionPayloadHeader_Empty_def)
  ultimately show ?thesis
    by (simp add: simulates_fst [OF kv_laws.validateExecutionPayload_sim [OF kv]]
        simulates_fst [OF kv_laws.staking_sims(3) [OF kv]])
qed


subsection \<open>A concrete execution client\<close>

definition valid_status :: PayloadStatusV1 where
  "valid_status = \<lparr>ps_Status = PayloadStatusValid, ps_LatestValidHash = Some zero32,
     ps_ValidationError = None\<rparr>"

definition demo_envelope :: ExecutionPayloadEnvelope where
  "demo_envelope = \<lparr>env_ExecutionPayload = Some (bd_ExecutionPayload demo_body),
     env_BlockValue = zero32,
     env_BlobsBundle = Some \<lparr>bb_Commitments = [], bb_Proofs = [], bb_Blobs = []\<rparr>,
     env_Override = False\<rparr>"

definition demo_rpc :: eth1_rpc where
  "demo_rpc = \<lparr>
     call_newPayload = (\<lambda>_ _ _ _. Inr valid_status),
     call_forkchoiceUpdated = (\<lambda>_ _ _. Inr \<lparr>fr_PayloadStatus = valid_status,
       fr_PayloadID = Some [1, 2, 3, 4, 5, 6, 7, 8]\<rparr>),
     call_getPayload = (\<lambda>_ _. Inr demo_envelope),
     call_exchangeCapabilities = (\<lambda>_ capabilities. Inr capabilities)\<rparr>"

definition demo_builder :: PayloadBuilder where
  "demo_builder = NewPayloadBuilder \<lparr>cfg_Enabled = True, cfg_SuggestedFeeRecipient = replicate 20 0\<rparr>
     BaseSpec demo_rpc"

definition builder_view :: kv_view where
  "builder_view = demo_view\<lparr>v_randaoMix := [(0, replicate 32 3)]\<rparr>"

definition demo_attributes :: PayloadAttributes where
  "demo_attributes = \<lparr>pa_version = Deneb, pa_Timestamp = 100, pa_PrevRandao = replicate 32 3,
     pa_SuggestedFeeRecipient = replicate 20 0, pa_Withdrawals = Some demo_withdrawals,
     pa_ParentBeaconBlockRoot = replicate 32 103\<rparr>"

lemma demo_getPayloadAttribute:
  "getPayloadAttribute demo_builder (mem_kv id) 3 100 (replicate 32 103) builder_view =
     (Inr demo_attributes, builder_view)"
proof -
  have acc: "demo_accounts builder_view"
    by (simp add: builder_view_def demo_accounts_def)
  have "ExpectedWithdrawals (mem_kv id) BaseSpec builder_view = (Inr demo_withdrawals, builder_view)"
    using mem_ExpectedWithdrawals [OF demo_accounts_registry [OF acc], where start = 1 and slot = 3
        and index = 40 and spec = BaseSpec and addr = id] demo_expected [OF acc, of 3]
    by (simp add: builder_view_def)
  then show ?thesis
    by (simp add: getPayloadAttribute_def demo_builder_def NewPayloadBuilder_def mem_ops
        builder_view_def SlotToEpoch_def NewPayloadAttributes_def Validate_def demo_attributes_def
        zero32_def ActiveForkVersionForEpoch_def)
qed

lemma demo_builder_simps [simp]:
  "Enabled demo_builder" "pb_chainSpec demo_builder = BaseSpec" "pb_ee demo_builder = demo_rpc"
  "ActiveForkVersionForSlot BaseSpec 3 = Inr Deneb"
  "call_getPayload demo_rpc m pid = Inr demo_envelope"
  by (simp_all add: demo_builder_def NewPayloadBuilder_def Enabled_def demo_rpc_def
      ActiveForkVersionForSlot_def SlotToEpoch_def ActiveForkVersionForEpoch_def)

lemma demo_forkchoice:
  "NotifyForkchoiceUpdate demo_rpc \<lparr>fcu_State = st, fcu_PayloadAttributes = a, fcu_ForkVersion = Deneb\<rparr> =
     (Some [1, 2, 3, 4, 5, 6, 7, 8], Some zero32, None)"
  by (simp add: NotifyForkchoiceUpdate_def Client_ForkchoiceUpdated_def Eth1_ForkchoiceUpdated_def
      Eth1_ForkchoiceUpdatedV3_def Eth1_forkchoiceUpdated_def remote_def demo_rpc_def valid_status_def
      empty_status_def processPayloadStatusResult_def errors_IsAny_def IsPreDefinedError_def)

lemma demo_request:
  "RequestPayloadAsync demo_builder (mem_kv id) 3 100 (replicate 32 103) zero32 zero32
     (builder_view, NewPayloadIDCache) =
     (Inr (Some [1, 2, 3, 4, 5, 6, 7, 8]),
      (builder_view, Cache_Set 3 (replicate 32 103) [1, 2, 3, 4, 5, 6, 7, 8] NewPayloadIDCache))"
proof -
  have "Cache_Get NewPayloadIDCache 3 (replicate 32 103) = None"
    by (simp add: Cache_Get_def NewPayloadIDCache_def)
  then show ?thesis
    by (simp add: RequestPayloadAsync_def demo_getPayloadAttribute demo_forkchoice)
qed

theorem request_then_retrieve_witness:
  "RetrievePayload demo_builder
     (snd (snd (RequestPayloadAsync demo_builder (mem_kv id) 3 100 (replicate 32 103) zero32 zero32
        (builder_view, NewPayloadIDCache)))) 3 (replicate 32 103) = Inr demo_envelope"
  using request_then_retrieve [OF demo_request]
  by (simp add: demo_request demo_envelope_def)

definition built_block :: BeaconBlockDeneb where
  "built_block = demo_block\<lparr>blk_Body := demo_body\<lparr>bd_ExecutionPayload :=
     (bd_ExecutionPayload demo_body)\<lparr>pl_Random := replicate 32 3\<rparr>\<rparr>\<rparr>"

theorem attributes_accepted_witness:
  "fst (validateExecutionPayload demo_processor (mem_kv id) built_block False builder_view) = Inr ()"
  using attributes_accepted [OF mem.kv_laws_axioms _ demo_getPayloadAttribute, where sp = demo_processor
      and blk = built_block and payload = "bd_ExecutionPayload (blk_Body built_block)" and
      lph = demo_payload_header and opt = False]
  by (simp add: builder_view_def built_block_def demo_attributes_def demo_payload_header_def demo_withdrawals_def)

end
