(* ===== verification/FastSsz.thy ===== *)
theory FastSsz
  imports Types
begin

unbundle bit_operations_syntax

section \<open>The interface of the generated SSZ code: \<open>ferranbt/fastssz\<close>\<close>

text \<open>
  The files \<open>*.ssz.go\<close> are generated by \<open>fastssz\<close> and call its helpers, which are not part of the
  repository. They are the fields of the record \<open>fastssz\<close>, and the locale \<open>fastssz_laws\<close> states what the
  library documents of them: little-endian integers, one-byte booleans, four-byte offsets, division
  of a list's bytes by the size of its elements, and the offset table in front of a list of
  variable-size elements. \<open>reference_fastssz\<close> implements them.

  The rest of the theory is about byte strings: the slices \<open>buf[a:b]\<close> of the generated decoders and
  the two facts their proofs need, how a slice meets the pieces of a concatenation and how adjacent
  slices join.
\<close>

named_theorems sub_simps \<open>slices of concatenations\<close>

subsection \<open>Slices\<close>

definition sub :: "nat \<Rightarrow> nat \<Rightarrow> bytes \<Rightarrow> bytes" where
  "sub a b buf = take (b - a) (drop a buf)"

lemma length_sub: "b \<le> length buf \<Longrightarrow> length (sub a b buf) = b - a"
  by (simp add: sub_def)

lemma sub_skip [sub_simps]: "length x \<le> a \<Longrightarrow> sub a b (x @ y) = sub (a - length x) (b - length x) y"
  by (simp add: sub_def)

lemma sub_hit [sub_simps]: "length x = b \<Longrightarrow> sub 0 b (x @ y) = x"
  by (simp add: sub_def)

lemma sub_Cons [sub_simps]:
  "sub 0 (Suc 0) (x # y) = [x]" "0 < a \<Longrightarrow> sub a b (x # y) = sub (a - 1) (b - 1) y"
  by (cases a; simp add: sub_def)+

lemma sub_all [sub_simps]: "length x = b \<Longrightarrow> sub 0 b x = x"
  by (simp add: sub_def)

lemma sub_join: "a \<le> b \<Longrightarrow> b \<le> c \<Longrightarrow> sub a b buf @ sub b c buf = sub a c buf"
proof -
  assume "a \<le> b" "b \<le> c"
  then have "c - a = (b - a) + (c - b)" "b = (b - a) + a" by simp_all
  then show ?thesis unfolding sub_def by (metis drop_drop take_add)
qed

lemma sub_join_append: "a \<le> b \<Longrightarrow> b \<le> c \<Longrightarrow> sub a b buf @ sub b c buf @ z = sub a c buf @ z"
  by (metis append_assoc sub_join)

lemma sub_whole: "length buf = n \<Longrightarrow> sub 0 n buf = buf"
  by (simp add: sub_def)

lemmas sub_joins = sub_join sub_join_append sub_whole

subsection \<open>Offsets\<close>

definition offset_bytes :: "nat \<Rightarrow> bytes" where
  "offset_bytes n = take 4 (le_bytes (of_nat n))"

lemma length_offset_bytes [simp]: "length (offset_bytes n) = 4"
  by (simp add: offset_bytes_def)

lemma le_value_offset_bytes:
  assumes "n < 2 ^ 32"
  shows "le_value (offset_bytes n) = of_nat n"
proof (rule bit_word_eqI)
  fix i assume i: "i < LENGTH(64)"
  define u :: u64 where "u = of_nat n"
  have small: "unat u = n" using assms by (simp add: u_def unat_of_nat)
  have high: "\<not> bit u j" if "32 \<le> j" for j
  proof
    assume "bit u j"
    then have "2 ^ j \<le> unat u" using bit_nat_ge by (simp add: bit_unat)
    moreover have "(2 :: nat) ^ 32 \<le> 2 ^ j" using that by (intro power_increasing) simp_all
    ultimately show False using assms small by simp
  qed
  have "bit (le_value (offset_bytes n)) i \<longleftrightarrow> i div 8 < 4 \<and> bit (le_bytes u ! (i div 8)) (i mod 8)"
    using i by (auto simp: bit_le_value offset_bytes_def u_def)
  also have "\<dots> \<longleftrightarrow> i div 8 < 4 \<and> bit u i"
    by (auto simp: le_bytes_nth bit_unsigned_iff bit_drop_bit_eq)
  also have "\<dots> \<longleftrightarrow> bit u i"
    using high [of i] by (cases "i < 32") (auto simp: div_less_iff_less_mult)
  finally show "bit (le_value (offset_bytes n)) i \<longleftrightarrow> bit (of_nat n :: u64) i" by (simp add: u_def)
qed

text \<open>A list of variable-size elements: the offsets of the elements, then the elements.\<close>

fun dyn_offsets :: "nat \<Rightarrow> bytes list \<Rightarrow> bytes" where
  "dyn_offsets n [] = []"
| "dyn_offsets n (t # ts) = offset_bytes n @ dyn_offsets (n + length t) ts"

definition dyn_encode :: "bytes list \<Rightarrow> bytes" where
  "dyn_encode ts = dyn_offsets (4 * length ts) ts @ concat ts"

definition dyn_size :: "bytes list \<Rightarrow> nat" where
  "dyn_size ts = 4 * length ts + length (concat ts)"

lemma length_dyn_offsets [simp]: "length (dyn_offsets n ts) = 4 * length ts"
  by (induction ts arbitrary: n) auto

lemma length_dyn_encode [simp]: "length (dyn_encode ts) = dyn_size ts"
  by (simp add: dyn_encode_def dyn_size_def)

subsection \<open>The library\<close>

record fastssz =
  MarshalUint64 :: "bytes \<Rightarrow> u64 \<Rightarrow> bytes"
  UnmarshallUint64 :: "bytes \<Rightarrow> u64"
  MarshalBool :: "bytes \<Rightarrow> bool \<Rightarrow> bytes"
  UnmarshalBool :: "bytes \<Rightarrow> bool"
  WriteOffset :: "bytes \<Rightarrow> nat \<Rightarrow> bytes"
  ReadOffset :: "bytes \<Rightarrow> u64"
  DivideInt2 :: "nat \<Rightarrow> nat \<Rightarrow> nat \<Rightarrow> err + nat"
  DecodeDynamicLength :: "bytes \<Rightarrow> nat \<Rightarrow> err + nat"
  UnmarshalDynamic :: "bytes \<Rightarrow> nat \<Rightarrow> (nat \<Rightarrow> bytes \<Rightarrow> err + bytes) \<Rightarrow> err + bytes list"
  MarshalWith :: "(bytes \<Rightarrow> err + bytes) \<Rightarrow> err + bytes"

text \<open>The sentinels of the library.\<close>

abbreviation ErrSize :: err where "ErrSize \<equiv> Ext ''incorrect size''"
abbreviation ErrOffset :: err where "ErrOffset \<equiv> Ext ''incorrect offset''"
abbreviation ErrInvalidVariableOffset :: err where
  "ErrInvalidVariableOffset \<equiv> Ext ''invalid ssz encoding. first variable element offset indexes into fixed value data''"
abbreviation ErrBytesLength :: err where "ErrBytesLength \<equiv> Ext ''bytes array does not have the correct length''"
abbreviation ErrListTooBig :: err where "ErrListTooBig \<equiv> Ext ''list length is higher than max value''"
abbreviation ErrVectorLength :: err where "ErrVectorLength \<equiv> Ext ''vector does not have the correct length''"

locale fastssz_laws =
  fixes F :: fastssz
  assumes marshal_uint64 [simp]: "MarshalUint64 F dst v = dst @ le_bytes v"
    and unmarshal_uint64: "length b = 8 \<Longrightarrow> UnmarshallUint64 F b = le_value b"
    and marshal_bool [simp]: "MarshalBool F dst t = dst @ [if t then 1 else 0]"
    and unmarshal_bool [simp]: "UnmarshalBool F [x] \<longleftrightarrow> x = 1"
    and write_offset [simp]: "WriteOffset F dst k = dst @ offset_bytes k"
    and read_offset: "length b = 4 \<Longrightarrow> ReadOffset F b = le_value b"
    and divide: "0 < n \<Longrightarrow> DivideInt2 F a n m = Inr q \<longleftrightarrow> n dvd a \<and> q = a div n \<and> q \<le> m"
    and dynamic_length: "dyn_size ts < 2 ^ 32 \<Longrightarrow> length ts \<le> m \<Longrightarrow>
      DecodeDynamicLength F (dyn_encode ts) m = Inr (length ts)"
    and unmarshal_dynamic: "dyn_size ts < 2 ^ 32 \<Longrightarrow>
      UnmarshalDynamic F (dyn_encode ts) (length ts) f = mapE (\<lambda>(i, t). f i t) (enumerate 0 ts)"
    and marshal_with [simp]: "MarshalWith F w = w []"
begin

lemma unmarshal_le_bytes [simp]: "UnmarshallUint64 F (le_bytes v) = v"
  by (simp add: unmarshal_uint64 le_value_le_bytes)

lemma marshal_unmarshal_uint64: "length b = 8 \<Longrightarrow> le_bytes (UnmarshallUint64 F b) = b"
  by (simp add: unmarshal_uint64 le_bytes_le_value)

lemma read_write_offset [simp]: "n < 2 ^ 32 \<Longrightarrow> ReadOffset F (offset_bytes n) = of_nat n"
  by (simp add: read_offset le_value_offset_bytes)

end

text \<open>Fixed-size elements one after the other, decoded by their position.\<close>

lemma mapE_slices:
  assumes "\<And>x. x \<in> set xs \<Longrightarrow> length (enc x) = n \<and> dec (enc x) = Inr x"
  shows "mapE (\<lambda>i. dec (sub (i * n) ((i + 1) * n) (concat (map enc xs)))) [0..<length xs] = Inr xs"
proof -
  have "sub (i * n) ((i + 1) * n) (concat (map enc ys)) = enc (ys ! i)"
    if "i < length ys" "\<forall>x \<in> set ys. length (enc x) = n" for i ys
    using that
  proof (induction ys arbitrary: i)
    case (Cons y ys)
    then show ?case by (cases i) (simp_all add: sub_simps)
  qed simp
  with assms have "mapE (\<lambda>i. dec (sub (i * n) ((i + 1) * n) (concat (map enc xs)))) [0..<length xs] =
      Inr (map ((!) xs) [0..<length xs])"
    by (intro mapE_Inr_map) simp
  then show ?thesis by (simp add: map_nth)
qed

lemma length_concat_fixed: "\<forall>x \<in> set xs. length (enc x) = n \<Longrightarrow> length (concat (map enc xs)) = length xs * n"
  by (induction xs) auto

subsection \<open>An implementation\<close>

text \<open>
  The offsets of the elements are read one after the other; each element ends where the next one
  starts, the last one at the end of the buffer.
\<close>

fun dyn_walk ::
  "bytes \<Rightarrow> bytes \<Rightarrow> nat \<Rightarrow> nat \<Rightarrow> nat \<Rightarrow> (nat \<Rightarrow> bytes \<Rightarrow> err + bytes) \<Rightarrow> err + bytes list" where
  "dyn_walk src dst 0 index offset f = Inr []"
| "dyn_walk src dst (Suc n) index offset f =
     (let last = (n = 0);
          endOffset = (if last then length src else unat (le_value (take 4 dst))) in
      if offset > endOffset \<or> endOffset > length src then Inl (Ext ''incorrect offset'')
      else bindE (f index (sub offset endOffset src)) (\<lambda>x.
           bindE (dyn_walk src (drop 4 dst) n (index + 1) endOffset f) (\<lambda>xs. Inr (x # xs))))"

definition reference_fastssz :: fastssz where
  "reference_fastssz = \<lparr>
     MarshalUint64 = (\<lambda>dst v. dst @ le_bytes v),
     UnmarshallUint64 = le_value,
     MarshalBool = (\<lambda>dst t. dst @ [if t then 1 else 0]),
     UnmarshalBool = (\<lambda>b. b \<noteq> [] \<and> b ! 0 = 1),
     WriteOffset = (\<lambda>dst n. dst @ offset_bytes n),
     ReadOffset = le_value,
     DivideInt2 = (\<lambda>a b m. if b dvd a \<and> a div b \<le> m then Inr (a div b) else Inl (Ext ''list size'')),
     DecodeDynamicLength = (\<lambda>buf m.
       if buf = [] then Inr 0
       else if length buf < 4 then Inl (Ext ''not enough data'')
       else let n = unat (le_value (take 4 buf)) in
            if 4 dvd n \<and> n div 4 \<le> m then Inr (n div 4) else Inl (Ext ''list size'')),
     UnmarshalDynamic = (\<lambda>src n f.
       if n = 0 then Inr [] else dyn_walk src (drop 4 src) n 0 (unat (le_value (take 4 src))) f),
     MarshalWith = (\<lambda>m. m [])\<rparr>"

lemma unat_le_value_offset: "n < 2 ^ 32 \<Longrightarrow> unat (le_value (offset_bytes n)) = n"
  by (simp add: le_value_offset_bytes unat_of_nat)

lemma dyn_walk_elements:
  assumes "t # ts = drop k xs" and "k < length xs" and "dyn_size xs < 2 ^ 32"
    and "src = dyn_encode xs" and "offset = 4 * length xs + length (concat (take k xs))"
    and "dst = dyn_offsets (offset + length t) ts @ rest"
  shows "dyn_walk src dst (Suc (length ts)) i offset f = mapE (\<lambda>(i, t). f i t) (enumerate i (t # ts))"
  using assms
proof (induction ts arbitrary: k t offset dst i)
  case Nil
  have split: "concat xs = concat (take k xs) @ t"
    using Nil.prems(1) by (metis append_Nil2 append_take_drop_id concat.simps concat_append)
  then have "sub offset (length src) src = t" "offset \<le> length src"
    using Nil.prems by (auto simp: sub_def dyn_encode_def dyn_size_def)
  then show ?case by (simp add: Let_def)
next
  case (Cons t' ts)
  define off where "off = offset + length t"
  have take: "take (Suc k) xs = take k xs @ [t]" and dr: "drop (Suc k) xs = t' # ts"
    using Cons.prems(1,2) by (metis Cons_nth_drop_Suc list.inject take_Suc_conv_app_nth)+
  have lk: "Suc k < length xs" using dr by (metis drop_eq_Nil list.distinct(1) not_le)
  have all: "concat xs = concat (take k xs) @ t @ concat (t' # ts)"
    using take dr by (metis append_assoc append_take_drop_id concat.simps(1,2) concat_append append_Nil2)
  have len: "off \<le> length src" and off32: "off < 2 ^ 32"
    using all Cons.prems(3-5) by (auto simp: off_def dyn_size_def)
  have dst: "take 4 dst = offset_bytes off" "drop 4 dst = dyn_offsets (off + length t') ts @ rest"
    using Cons.prems(6) by (simp_all add: off_def)
  have elem: "sub offset off src = t"
    using all Cons.prems(4,5) by (simp add: sub_def off_def dyn_encode_def)
  have off: "off = 4 * length xs + length (concat (take (Suc k) xs))"
    using Cons.prems(5) by (simp add: off_def take)
  have ih: "dyn_walk src (drop 4 dst) (Suc (length ts)) (i + 1) off f =
      mapE (\<lambda>(i, t). f i t) (enumerate (i + 1) (t' # ts))"
    by (rule Cons.IH [OF dr [symmetric] lk Cons.prems(3,4) off dst(2)])
  have "dyn_walk src dst (Suc (Suc (length ts))) i offset f =
      bindE (f i (sub offset off src)) (\<lambda>x.
        bindE (dyn_walk src (drop 4 dst) (Suc (length ts)) (i + 1) off f) (\<lambda>xs. Inr (x # xs)))"
    using len off32 dst(1)
    by (subst dyn_walk.simps) (simp add: unat_le_value_offset off_def Let_def del: dyn_walk.simps)
  also have "\<dots> = mapE (\<lambda>(i, t). f i t) (enumerate i (t # t' # ts))"
    unfolding ih elem by simp
  finally show ?case by simp
qed

interpretation ref_ssz: fastssz_laws reference_fastssz
proof
  show "DecodeDynamicLength reference_fastssz (dyn_encode ts) m = Inr (length ts)"
    if "dyn_size ts < 2 ^ 32" "length ts \<le> m" for ts m
  proof (cases ts)
    case Nil
    then show ?thesis by (simp add: reference_fastssz_def dyn_encode_def)
  next
    case (Cons t ts')
    have "take 4 (dyn_encode ts) = offset_bytes (4 * length ts)" by (simp add: Cons dyn_encode_def)
    moreover have "4 * length ts < 2 ^ 32" using that(1) by (simp add: dyn_size_def)
    moreover have "\<not> length (dyn_encode ts) < 4" by (simp add: Cons dyn_size_def)
    moreover from this have "dyn_encode ts \<noteq> []"
      by (metis list.size(3) zero_less_numeral)
    ultimately show ?thesis using that(2) by (simp add: reference_fastssz_def unat_le_value_offset)
  qed
  show "UnmarshalDynamic reference_fastssz (dyn_encode ts) (length ts) f =
      mapE (\<lambda>(i, t). f i t) (enumerate 0 ts)" if "dyn_size ts < 2 ^ 32" for ts f
  proof (cases ts)
    case Nil
    then show ?thesis by (simp add: reference_fastssz_def)
  next
    case (Cons t ts')
    have "take 4 (dyn_encode ts) = offset_bytes (4 * length ts)"
      "drop 4 (dyn_encode ts) = dyn_offsets (4 * length ts + length t) ts' @ concat ts"
      by (simp_all add: Cons dyn_encode_def)
    moreover have "4 * length ts < 2 ^ 32" using that by (simp add: dyn_size_def)
    ultimately show ?thesis
      using dyn_walk_elements [of t ts' 0 ts "dyn_encode ts" "4 * length ts"
          "drop 4 (dyn_encode ts)" "concat ts" 0 f] that
      by (simp add: reference_fastssz_def Cons unat_le_value_offset del: dyn_walk.simps)
  qed
qed (auto simp: reference_fastssz_def)

end
