(* ===== verification/Codecs.thy ===== *)
theory Codecs
  imports FastSsz
begin

section \<open>The generated codecs of the fixed-size containers\<close>

text \<open>
  \<open>MarshalSSZTo\<close>, \<open>MarshalSSZ\<close>, \<open>UnmarshalSSZ\<close> and \<open>SizeSSZ\<close> of the containers of
  \<open>mod/consensus-types/pkg/types\<close>, \<open>mod/primitives/pkg/ssz\<close> and \<open>mod/engine-primitives\<close> whose fields
  all have a fixed size. Decoding such a container overwrites every field of the receiver, so
  the decoders do not take it.

  The contract of a fixed-size codec is the locale \<open>fixed_codec\<close>: encodings have one length and
  decode to what was encoded. \<open>canonical_codec\<close> adds that every string of that length is the encoding
  of what it decodes to. Every container satisfies the second one but \<open>Validator\<close>, whose boolean byte
  decodes to false for every value but one.
\<close>

subsection \<open>The contract\<close>

locale fixed_codec =
  fixes wf :: "'a \<Rightarrow> bool" and enc :: "'a \<Rightarrow> bytes" and dec :: "bytes \<Rightarrow> err + 'a" and n :: nat
  assumes enc_length: "wf x \<Longrightarrow> length (enc x) = n"
    and dec_enc: "wf x \<Longrightarrow> dec (enc x) = Inr x"
begin

lemma enc_inj: "wf x \<Longrightarrow> wf y \<Longrightarrow> enc x = enc y \<Longrightarrow> x = y"
  using dec_enc by (metis Inr_inject)

lemma dec_list:
  "\<forall>x \<in> set xs. wf x \<Longrightarrow>
   mapE (\<lambda>i. dec (sub (i * n) ((i + 1) * n) (concat (map enc xs)))) [0..<length xs] = Inr xs"
  by (rule mapE_slices) (simp add: enc_length dec_enc)

lemma list_length: "\<forall>x \<in> set xs. wf x \<Longrightarrow> length (concat (map enc xs)) = length xs * n"
  by (rule length_concat_fixed) (simp add: enc_length)

end

locale canonical_codec = fixed_codec +
  assumes dec_total: "length b = n \<Longrightarrow> \<exists>x. wf x \<and> dec b = Inr x \<and> enc x = b"
    and dec_size: "length b \<noteq> n \<Longrightarrow> dec b = Inl ErrSize"
begin

lemma dec_iff: "dec b = Inr x \<longleftrightarrow> wf x \<and> b = enc x"
proof
  assume x: "dec b = Inr x"
  then have "length b = n" using dec_size by fastforce
  with x dec_total show "wf x \<and> b = enc x" by fastforce
qed (simp add: dec_enc)

end

subsection \<open>The code\<close>

definition ForkData_MarshalSSZTo :: "fastssz \<Rightarrow> ForkData \<Rightarrow> bytes \<Rightarrow> err + bytes" where
  "ForkData_MarshalSSZTo F f buf =
     (let dst = buf;
          dst = dst @ fd_CurrentVersion f;
          dst = dst @ fd_GenesisValidatorsRoot f
      in Inr dst)"

definition ForkData_MarshalSSZ :: "fastssz \<Rightarrow> ForkData \<Rightarrow> err + bytes" where
  "ForkData_MarshalSSZ F f = MarshalWith F (ForkData_MarshalSSZTo F f)"

definition ForkData_UnmarshalSSZ :: "fastssz \<Rightarrow> bytes \<Rightarrow> err + ForkData" where
  "ForkData_UnmarshalSSZ F buf =
     (if length buf \<noteq> 36 then Inl ErrSize
      else Inr \<lparr>fd_CurrentVersion = sub 0 4 buf,
                fd_GenesisValidatorsRoot = sub 4 36 buf\<rparr>)"

definition ForkData_SizeSSZ :: "ForkData \<Rightarrow> nat" where
  "ForkData_SizeSSZ f = 36"

definition SigningData_MarshalSSZTo :: "fastssz \<Rightarrow> SigningData \<Rightarrow> bytes \<Rightarrow> err + bytes" where
  "SigningData_MarshalSSZTo F s buf =
     (let dst = buf;
          dst = dst @ sd_ObjectRoot s;
          dst = dst @ sd_Domain s
      in Inr dst)"

definition SigningData_MarshalSSZ :: "fastssz \<Rightarrow> SigningData \<Rightarrow> err + bytes" where
  "SigningData_MarshalSSZ F s = MarshalWith F (SigningData_MarshalSSZTo F s)"

definition SigningData_UnmarshalSSZ :: "fastssz \<Rightarrow> bytes \<Rightarrow> err + SigningData" where
  "SigningData_UnmarshalSSZ F buf =
     (if length buf \<noteq> 64 then Inl ErrSize
      else Inr \<lparr>sd_ObjectRoot = sub 0 32 buf,
                sd_Domain = sub 32 64 buf\<rparr>)"

definition SigningData_SizeSSZ :: "SigningData \<Rightarrow> nat" where
  "SigningData_SizeSSZ s = 64"

definition Fork_MarshalSSZTo :: "fastssz \<Rightarrow> Fork \<Rightarrow> bytes \<Rightarrow> err + bytes" where
  "Fork_MarshalSSZTo F f buf =
     (let dst = buf;
          dst = dst @ fork_PreviousVersion f;
          dst = dst @ fork_CurrentVersion f;
          dst = MarshalUint64 F dst (fork_Epoch f)
      in Inr dst)"

definition Fork_MarshalSSZ :: "fastssz \<Rightarrow> Fork \<Rightarrow> err + bytes" where
  "Fork_MarshalSSZ F f = MarshalWith F (Fork_MarshalSSZTo F f)"

definition Fork_UnmarshalSSZ :: "fastssz \<Rightarrow> bytes \<Rightarrow> err + Fork" where
  "Fork_UnmarshalSSZ F buf =
     (if length buf \<noteq> 16 then Inl ErrSize
      else Inr \<lparr>fork_PreviousVersion = sub 0 4 buf,
                fork_CurrentVersion = sub 4 8 buf,
                fork_Epoch = UnmarshallUint64 F (sub 8 16 buf)\<rparr>)"

definition Fork_SizeSSZ :: "Fork \<Rightarrow> nat" where
  "Fork_SizeSSZ f = 16"

definition Eth1Data_MarshalSSZTo :: "fastssz \<Rightarrow> Eth1Data \<Rightarrow> bytes \<Rightarrow> err + bytes" where
  "Eth1Data_MarshalSSZTo F e buf =
     (let dst = buf;
          dst = dst @ eth1_DepositRoot e;
          dst = MarshalUint64 F dst (eth1_DepositCount e);
          dst = dst @ eth1_BlockHash e
      in Inr dst)"

definition Eth1Data_MarshalSSZ :: "fastssz \<Rightarrow> Eth1Data \<Rightarrow> err + bytes" where
  "Eth1Data_MarshalSSZ F e = MarshalWith F (Eth1Data_MarshalSSZTo F e)"

definition Eth1Data_UnmarshalSSZ :: "fastssz \<Rightarrow> bytes \<Rightarrow> err + Eth1Data" where
  "Eth1Data_UnmarshalSSZ F buf =
     (if length buf \<noteq> 72 then Inl ErrSize
      else Inr \<lparr>eth1_DepositRoot = sub 0 32 buf,
                eth1_DepositCount = UnmarshallUint64 F (sub 32 40 buf),
                eth1_BlockHash = sub 40 72 buf\<rparr>)"

definition Eth1Data_SizeSSZ :: "Eth1Data \<Rightarrow> nat" where
  "Eth1Data_SizeSSZ e = 72"

definition DepositMessage_MarshalSSZTo :: "fastssz \<Rightarrow> DepositMessage \<Rightarrow> bytes \<Rightarrow> err + bytes" where
  "DepositMessage_MarshalSSZTo F d buf =
     (let dst = buf;
          dst = dst @ dm_Pubkey d;
          dst = dst @ dm_Credentials d;
          dst = MarshalUint64 F dst (dm_Amount d)
      in Inr dst)"

definition DepositMessage_MarshalSSZ :: "fastssz \<Rightarrow> DepositMessage \<Rightarrow> err + bytes" where
  "DepositMessage_MarshalSSZ F d = MarshalWith F (DepositMessage_MarshalSSZTo F d)"

definition DepositMessage_UnmarshalSSZ :: "fastssz \<Rightarrow> bytes \<Rightarrow> err + DepositMessage" where
  "DepositMessage_UnmarshalSSZ F buf =
     (if length buf \<noteq> 88 then Inl ErrSize
      else Inr \<lparr>dm_Pubkey = sub 0 48 buf,
                dm_Credentials = sub 48 80 buf,
                dm_Amount = UnmarshallUint64 F (sub 80 88 buf)\<rparr>)"

definition DepositMessage_SizeSSZ :: "DepositMessage \<Rightarrow> nat" where
  "DepositMessage_SizeSSZ d = 88"

definition Deposit_MarshalSSZTo :: "fastssz \<Rightarrow> Deposit \<Rightarrow> bytes \<Rightarrow> err + bytes" where
  "Deposit_MarshalSSZTo F d buf =
     (let dst = buf;
          dst = dst @ dep_Pubkey d;
          dst = dst @ dep_Credentials d;
          dst = MarshalUint64 F dst (dep_Amount d);
          dst = dst @ dep_Signature d;
          dst = MarshalUint64 F dst (dep_Index d)
      in Inr dst)"

definition Deposit_MarshalSSZ :: "fastssz \<Rightarrow> Deposit \<Rightarrow> err + bytes" where
  "Deposit_MarshalSSZ F d = MarshalWith F (Deposit_MarshalSSZTo F d)"

definition Deposit_UnmarshalSSZ :: "fastssz \<Rightarrow> bytes \<Rightarrow> err + Deposit" where
  "Deposit_UnmarshalSSZ F buf =
     (if length buf \<noteq> 192 then Inl ErrSize
      else Inr \<lparr>dep_Pubkey = sub 0 48 buf,
                dep_Credentials = sub 48 80 buf,
                dep_Amount = UnmarshallUint64 F (sub 80 88 buf),
                dep_Signature = sub 88 184 buf,
                dep_Index = UnmarshallUint64 F (sub 184 192 buf)\<rparr>)"

definition Deposit_SizeSSZ :: "Deposit \<Rightarrow> nat" where
  "Deposit_SizeSSZ d = 192"

definition BeaconBlockHeader_MarshalSSZTo :: "fastssz \<Rightarrow> BeaconBlockHeader \<Rightarrow> bytes \<Rightarrow> err + bytes" where
  "BeaconBlockHeader_MarshalSSZTo F b buf =
     (let dst = buf;
          dst = MarshalUint64 F dst (hdr_Slot b);
          dst = MarshalUint64 F dst (hdr_ProposerIndex b);
          dst = dst @ hdr_ParentBlockRoot b;
          dst = dst @ hdr_StateRoot b;
          dst = dst @ hdr_BodyRoot b
      in Inr dst)"

definition BeaconBlockHeader_MarshalSSZ :: "fastssz \<Rightarrow> BeaconBlockHeader \<Rightarrow> err + bytes" where
  "BeaconBlockHeader_MarshalSSZ F b = MarshalWith F (BeaconBlockHeader_MarshalSSZTo F b)"

definition BeaconBlockHeader_UnmarshalSSZ :: "fastssz \<Rightarrow> bytes \<Rightarrow> err + BeaconBlockHeader" where
  "BeaconBlockHeader_UnmarshalSSZ F buf =
     (if length buf \<noteq> 112 then Inl ErrSize
      else Inr \<lparr>hdr_Slot = UnmarshallUint64 F (sub 0 8 buf),
                hdr_ProposerIndex = UnmarshallUint64 F (sub 8 16 buf),
                hdr_ParentBlockRoot = sub 16 48 buf,
                hdr_StateRoot = sub 48 80 buf,
                hdr_BodyRoot = sub 80 112 buf\<rparr>)"

definition BeaconBlockHeader_SizeSSZ :: "BeaconBlockHeader \<Rightarrow> nat" where
  "BeaconBlockHeader_SizeSSZ b = 112"

definition Withdrawal_MarshalSSZTo :: "fastssz \<Rightarrow> Withdrawal \<Rightarrow> bytes \<Rightarrow> err + bytes" where
  "Withdrawal_MarshalSSZTo F w buf =
     (let dst = buf;
          dst = MarshalUint64 F dst (wd_Index w);
          dst = MarshalUint64 F dst (wd_Validator w);
          dst = dst @ wd_Address w;
          dst = MarshalUint64 F dst (wd_Amount w)
      in Inr dst)"

definition Withdrawal_MarshalSSZ :: "fastssz \<Rightarrow> Withdrawal \<Rightarrow> err + bytes" where
  "Withdrawal_MarshalSSZ F w = MarshalWith F (Withdrawal_MarshalSSZTo F w)"

definition Withdrawal_UnmarshalSSZ :: "fastssz \<Rightarrow> bytes \<Rightarrow> err + Withdrawal" where
  "Withdrawal_UnmarshalSSZ F buf =
     (if length buf \<noteq> 44 then Inl ErrSize
      else Inr \<lparr>wd_Index = UnmarshallUint64 F (sub 0 8 buf),
                wd_Validator = UnmarshallUint64 F (sub 8 16 buf),
                wd_Address = sub 16 36 buf,
                wd_Amount = UnmarshallUint64 F (sub 36 44 buf)\<rparr>)"

definition Withdrawal_SizeSSZ :: "Withdrawal \<Rightarrow> nat" where
  "Withdrawal_SizeSSZ w = 44"

definition Validator_MarshalSSZTo :: "fastssz \<Rightarrow> Validator \<Rightarrow> bytes \<Rightarrow> err + bytes" where
  "Validator_MarshalSSZTo F v buf =
     (let dst = buf;
          dst = dst @ val_Pubkey v;
          dst = dst @ val_WithdrawalCredentials v;
          dst = MarshalUint64 F dst (val_EffectiveBalance v);
          dst = MarshalBool F dst (val_Slashed v);
          dst = MarshalUint64 F dst (val_ActivationEligibilityEpoch v);
          dst = MarshalUint64 F dst (val_ActivationEpoch v);
          dst = MarshalUint64 F dst (val_ExitEpoch v);
          dst = MarshalUint64 F dst (val_WithdrawableEpoch v)
      in Inr dst)"

definition Validator_MarshalSSZ :: "fastssz \<Rightarrow> Validator \<Rightarrow> err + bytes" where
  "Validator_MarshalSSZ F v = MarshalWith F (Validator_MarshalSSZTo F v)"

definition Validator_UnmarshalSSZ :: "fastssz \<Rightarrow> bytes \<Rightarrow> err + Validator" where
  "Validator_UnmarshalSSZ F buf =
     (if length buf \<noteq> 121 then Inl ErrSize
      else Inr \<lparr>val_Pubkey = sub 0 48 buf,
                val_WithdrawalCredentials = sub 48 80 buf,
                val_EffectiveBalance = UnmarshallUint64 F (sub 80 88 buf),
                val_Slashed = UnmarshalBool F (sub 88 89 buf),
                val_ActivationEligibilityEpoch = UnmarshallUint64 F (sub 89 97 buf),
                val_ActivationEpoch = UnmarshallUint64 F (sub 97 105 buf),
                val_ExitEpoch = UnmarshallUint64 F (sub 105 113 buf),
                val_WithdrawableEpoch = UnmarshallUint64 F (sub 113 121 buf)\<rparr>)"

definition Validator_SizeSSZ :: "Validator \<Rightarrow> nat" where
  "Validator_SizeSSZ v = 121"

subsection \<open>The SSZ serialization of the containers\<close>

definition ForkData_bytes :: "ForkData \<Rightarrow> bytes" where
  "ForkData_bytes f = fd_CurrentVersion f @ fd_GenesisValidatorsRoot f"

definition ForkData_wf :: "ForkData \<Rightarrow> bool" where
  "ForkData_wf f \<longleftrightarrow> length (fd_CurrentVersion f) = 4 \<and> length (fd_GenesisValidatorsRoot f) = 32"

definition SigningData_bytes :: "SigningData \<Rightarrow> bytes" where
  "SigningData_bytes s = sd_ObjectRoot s @ sd_Domain s"

definition SigningData_wf :: "SigningData \<Rightarrow> bool" where
  "SigningData_wf s \<longleftrightarrow> length (sd_ObjectRoot s) = 32 \<and> length (sd_Domain s) = 32"

definition Fork_bytes :: "Fork \<Rightarrow> bytes" where
  "Fork_bytes f = fork_PreviousVersion f @ fork_CurrentVersion f @ le_bytes (fork_Epoch f)"

definition Fork_wf :: "Fork \<Rightarrow> bool" where
  "Fork_wf f \<longleftrightarrow> length (fork_PreviousVersion f) = 4 \<and> length (fork_CurrentVersion f) = 4"

definition Eth1Data_bytes :: "Eth1Data \<Rightarrow> bytes" where
  "Eth1Data_bytes e = eth1_DepositRoot e @ le_bytes (eth1_DepositCount e) @ eth1_BlockHash e"

definition Eth1Data_wf :: "Eth1Data \<Rightarrow> bool" where
  "Eth1Data_wf e \<longleftrightarrow> length (eth1_DepositRoot e) = 32 \<and> length (eth1_BlockHash e) = 32"

definition DepositMessage_bytes :: "DepositMessage \<Rightarrow> bytes" where
  "DepositMessage_bytes d = dm_Pubkey d @ dm_Credentials d @ le_bytes (dm_Amount d)"

definition DepositMessage_wf :: "DepositMessage \<Rightarrow> bool" where
  "DepositMessage_wf d \<longleftrightarrow> length (dm_Pubkey d) = 48 \<and> length (dm_Credentials d) = 32"

definition Deposit_bytes :: "Deposit \<Rightarrow> bytes" where
  "Deposit_bytes d = dep_Pubkey d @ dep_Credentials d @ le_bytes (dep_Amount d) @ dep_Signature d @ le_bytes (dep_Index d)"

definition Deposit_wf :: "Deposit \<Rightarrow> bool" where
  "Deposit_wf d \<longleftrightarrow> length (dep_Pubkey d) = 48 \<and> length (dep_Credentials d) = 32 \<and> length (dep_Signature d) = 96"

definition BeaconBlockHeader_bytes :: "BeaconBlockHeader \<Rightarrow> bytes" where
  "BeaconBlockHeader_bytes b = le_bytes (hdr_Slot b) @ le_bytes (hdr_ProposerIndex b) @ hdr_ParentBlockRoot b @ hdr_StateRoot b @ hdr_BodyRoot b"

definition BeaconBlockHeader_wf :: "BeaconBlockHeader \<Rightarrow> bool" where
  "BeaconBlockHeader_wf b \<longleftrightarrow> length (hdr_ParentBlockRoot b) = 32 \<and> length (hdr_StateRoot b) = 32 \<and> length (hdr_BodyRoot b) = 32"

definition Withdrawal_bytes :: "Withdrawal \<Rightarrow> bytes" where
  "Withdrawal_bytes w = le_bytes (wd_Index w) @ le_bytes (wd_Validator w) @ wd_Address w @ le_bytes (wd_Amount w)"

definition Withdrawal_wf :: "Withdrawal \<Rightarrow> bool" where
  "Withdrawal_wf w \<longleftrightarrow> length (wd_Address w) = 20"

definition Validator_bytes :: "Validator \<Rightarrow> bytes" where
  "Validator_bytes v = val_Pubkey v @ val_WithdrawalCredentials v @ le_bytes (val_EffectiveBalance v) @ [if val_Slashed v then 1 else 0] @ le_bytes (val_ActivationEligibilityEpoch v) @ le_bytes (val_ActivationEpoch v) @ le_bytes (val_ExitEpoch v) @ le_bytes (val_WithdrawableEpoch v)"

definition Validator_wf :: "Validator \<Rightarrow> bool" where
  "Validator_wf v \<longleftrightarrow> length (val_Pubkey v) = 48 \<and> length (val_WithdrawalCredentials v) = 32"

subsection \<open>The codecs meet the contract\<close>

context fastssz_laws
begin

lemma sub_u64_bytes [sub_simps]: "sub 0 8 (le_bytes u @ y) = le_bytes u" "sub 0 8 (le_bytes u) = le_bytes u"
  by (simp_all add: sub_simps)

lemma ForkData_marshal: "ForkData_MarshalSSZTo F f buf = Inr (buf @ ForkData_bytes f)"
  by (simp add: ForkData_MarshalSSZTo_def ForkData_bytes_def)

lemma SigningData_marshal: "SigningData_MarshalSSZTo F s buf = Inr (buf @ SigningData_bytes s)"
  by (simp add: SigningData_MarshalSSZTo_def SigningData_bytes_def)

lemma Fork_marshal: "Fork_MarshalSSZTo F f buf = Inr (buf @ Fork_bytes f)"
  by (simp add: Fork_MarshalSSZTo_def Fork_bytes_def)

lemma Eth1Data_marshal: "Eth1Data_MarshalSSZTo F e buf = Inr (buf @ Eth1Data_bytes e)"
  by (simp add: Eth1Data_MarshalSSZTo_def Eth1Data_bytes_def)

lemma DepositMessage_marshal: "DepositMessage_MarshalSSZTo F d buf = Inr (buf @ DepositMessage_bytes d)"
  by (simp add: DepositMessage_MarshalSSZTo_def DepositMessage_bytes_def)

lemma Deposit_marshal: "Deposit_MarshalSSZTo F d buf = Inr (buf @ Deposit_bytes d)"
  by (simp add: Deposit_MarshalSSZTo_def Deposit_bytes_def)

lemma BeaconBlockHeader_marshal: "BeaconBlockHeader_MarshalSSZTo F b buf = Inr (buf @ BeaconBlockHeader_bytes b)"
  by (simp add: BeaconBlockHeader_MarshalSSZTo_def BeaconBlockHeader_bytes_def)

lemma Withdrawal_marshal: "Withdrawal_MarshalSSZTo F w buf = Inr (buf @ Withdrawal_bytes w)"
  by (simp add: Withdrawal_MarshalSSZTo_def Withdrawal_bytes_def)

lemma Validator_marshal: "Validator_MarshalSSZTo F v buf = Inr (buf @ Validator_bytes v)"
  by (simp add: Validator_MarshalSSZTo_def Validator_bytes_def)

end

sublocale fastssz_laws \<subseteq> ForkData: fixed_codec ForkData_wf ForkData_bytes "ForkData_UnmarshalSSZ F" 36
proof
  show "length (ForkData_bytes x) = 36" if "ForkData_wf x" for x
    using that by (simp add: ForkData_wf_def ForkData_bytes_def)
  show "ForkData_UnmarshalSSZ F (ForkData_bytes x) = Inr x" if "ForkData_wf x" for x
    using that
    by (simp add: ForkData_UnmarshalSSZ_def ForkData_wf_def ForkData_bytes_def sub_simps)
qed

sublocale fastssz_laws \<subseteq> SigningData: fixed_codec SigningData_wf SigningData_bytes "SigningData_UnmarshalSSZ F" 64
proof
  show "length (SigningData_bytes x) = 64" if "SigningData_wf x" for x
    using that by (simp add: SigningData_wf_def SigningData_bytes_def)
  show "SigningData_UnmarshalSSZ F (SigningData_bytes x) = Inr x" if "SigningData_wf x" for x
    using that
    by (simp add: SigningData_UnmarshalSSZ_def SigningData_wf_def SigningData_bytes_def sub_simps)
qed

sublocale fastssz_laws \<subseteq> Fork: fixed_codec Fork_wf Fork_bytes "Fork_UnmarshalSSZ F" 16
proof
  show "length (Fork_bytes x) = 16" if "Fork_wf x" for x
    using that by (simp add: Fork_wf_def Fork_bytes_def)
  show "Fork_UnmarshalSSZ F (Fork_bytes x) = Inr x" if "Fork_wf x" for x
    using that
    by (simp add: Fork_UnmarshalSSZ_def Fork_wf_def Fork_bytes_def sub_simps)
qed

sublocale fastssz_laws \<subseteq> Eth1Data: fixed_codec Eth1Data_wf Eth1Data_bytes "Eth1Data_UnmarshalSSZ F" 72
proof
  show "length (Eth1Data_bytes x) = 72" if "Eth1Data_wf x" for x
    using that by (simp add: Eth1Data_wf_def Eth1Data_bytes_def)
  show "Eth1Data_UnmarshalSSZ F (Eth1Data_bytes x) = Inr x" if "Eth1Data_wf x" for x
    using that
    by (simp add: Eth1Data_UnmarshalSSZ_def Eth1Data_wf_def Eth1Data_bytes_def sub_simps)
qed

sublocale fastssz_laws \<subseteq> DepositMessage: fixed_codec DepositMessage_wf DepositMessage_bytes "DepositMessage_UnmarshalSSZ F" 88
proof
  show "length (DepositMessage_bytes x) = 88" if "DepositMessage_wf x" for x
    using that by (simp add: DepositMessage_wf_def DepositMessage_bytes_def)
  show "DepositMessage_UnmarshalSSZ F (DepositMessage_bytes x) = Inr x" if "DepositMessage_wf x" for x
    using that
    by (simp add: DepositMessage_UnmarshalSSZ_def DepositMessage_wf_def DepositMessage_bytes_def sub_simps)
qed

sublocale fastssz_laws \<subseteq> Deposit: fixed_codec Deposit_wf Deposit_bytes "Deposit_UnmarshalSSZ F" 192
proof
  show "length (Deposit_bytes x) = 192" if "Deposit_wf x" for x
    using that by (simp add: Deposit_wf_def Deposit_bytes_def)
  show "Deposit_UnmarshalSSZ F (Deposit_bytes x) = Inr x" if "Deposit_wf x" for x
    using that
    by (simp add: Deposit_UnmarshalSSZ_def Deposit_wf_def Deposit_bytes_def sub_simps)
qed

sublocale fastssz_laws \<subseteq> BeaconBlockHeader: fixed_codec BeaconBlockHeader_wf BeaconBlockHeader_bytes "BeaconBlockHeader_UnmarshalSSZ F" 112
proof
  show "length (BeaconBlockHeader_bytes x) = 112" if "BeaconBlockHeader_wf x" for x
    using that by (simp add: BeaconBlockHeader_wf_def BeaconBlockHeader_bytes_def)
  show "BeaconBlockHeader_UnmarshalSSZ F (BeaconBlockHeader_bytes x) = Inr x" if "BeaconBlockHeader_wf x" for x
    using that
    by (simp add: BeaconBlockHeader_UnmarshalSSZ_def BeaconBlockHeader_wf_def BeaconBlockHeader_bytes_def sub_simps)
qed

sublocale fastssz_laws \<subseteq> Withdrawal: fixed_codec Withdrawal_wf Withdrawal_bytes "Withdrawal_UnmarshalSSZ F" 44
proof
  show "length (Withdrawal_bytes x) = 44" if "Withdrawal_wf x" for x
    using that by (simp add: Withdrawal_wf_def Withdrawal_bytes_def)
  show "Withdrawal_UnmarshalSSZ F (Withdrawal_bytes x) = Inr x" if "Withdrawal_wf x" for x
    using that
    by (simp add: Withdrawal_UnmarshalSSZ_def Withdrawal_wf_def Withdrawal_bytes_def sub_simps)
qed

sublocale fastssz_laws \<subseteq> Validator: fixed_codec Validator_wf Validator_bytes "Validator_UnmarshalSSZ F" 121
proof
  show "length (Validator_bytes x) = 121" if "Validator_wf x" for x
    using that by (simp add: Validator_wf_def Validator_bytes_def)
  show "Validator_UnmarshalSSZ F (Validator_bytes x) = Inr x" if "Validator_wf x" for x
    using that
    by (simp add: Validator_UnmarshalSSZ_def Validator_wf_def Validator_bytes_def sub_simps)
qed

sublocale fastssz_laws \<subseteq> ForkData: canonical_codec ForkData_wf ForkData_bytes "ForkData_UnmarshalSSZ F" 36
proof
  show "\<exists>x. ForkData_wf x \<and> ForkData_UnmarshalSSZ F b = Inr x \<and> ForkData_bytes x = b" if "length b = 36" for b
    using that
    by (simp add: ForkData_UnmarshalSSZ_def ForkData_wf_def ForkData_bytes_def length_sub marshal_unmarshal_uint64
        sub_joins)
  show "ForkData_UnmarshalSSZ F b = Inl ErrSize" if "length b \<noteq> 36" for b
    using that by (simp add: ForkData_UnmarshalSSZ_def)
qed

sublocale fastssz_laws \<subseteq> SigningData: canonical_codec SigningData_wf SigningData_bytes "SigningData_UnmarshalSSZ F" 64
proof
  show "\<exists>x. SigningData_wf x \<and> SigningData_UnmarshalSSZ F b = Inr x \<and> SigningData_bytes x = b" if "length b = 64" for b
    using that
    by (simp add: SigningData_UnmarshalSSZ_def SigningData_wf_def SigningData_bytes_def length_sub marshal_unmarshal_uint64
        sub_joins)
  show "SigningData_UnmarshalSSZ F b = Inl ErrSize" if "length b \<noteq> 64" for b
    using that by (simp add: SigningData_UnmarshalSSZ_def)
qed

sublocale fastssz_laws \<subseteq> Fork: canonical_codec Fork_wf Fork_bytes "Fork_UnmarshalSSZ F" 16
proof
  show "\<exists>x. Fork_wf x \<and> Fork_UnmarshalSSZ F b = Inr x \<and> Fork_bytes x = b" if "length b = 16" for b
    using that
    by (simp add: Fork_UnmarshalSSZ_def Fork_wf_def Fork_bytes_def length_sub marshal_unmarshal_uint64
        sub_joins)
  show "Fork_UnmarshalSSZ F b = Inl ErrSize" if "length b \<noteq> 16" for b
    using that by (simp add: Fork_UnmarshalSSZ_def)
qed

sublocale fastssz_laws \<subseteq> Eth1Data: canonical_codec Eth1Data_wf Eth1Data_bytes "Eth1Data_UnmarshalSSZ F" 72
proof
  show "\<exists>x. Eth1Data_wf x \<and> Eth1Data_UnmarshalSSZ F b = Inr x \<and> Eth1Data_bytes x = b" if "length b = 72" for b
    using that
    by (simp add: Eth1Data_UnmarshalSSZ_def Eth1Data_wf_def Eth1Data_bytes_def length_sub marshal_unmarshal_uint64
        sub_joins)
  show "Eth1Data_UnmarshalSSZ F b = Inl ErrSize" if "length b \<noteq> 72" for b
    using that by (simp add: Eth1Data_UnmarshalSSZ_def)
qed

sublocale fastssz_laws \<subseteq> DepositMessage: canonical_codec DepositMessage_wf DepositMessage_bytes "DepositMessage_UnmarshalSSZ F" 88
proof
  show "\<exists>x. DepositMessage_wf x \<and> DepositMessage_UnmarshalSSZ F b = Inr x \<and> DepositMessage_bytes x = b" if "length b = 88" for b
    using that
    by (simp add: DepositMessage_UnmarshalSSZ_def DepositMessage_wf_def DepositMessage_bytes_def length_sub marshal_unmarshal_uint64
        sub_joins)
  show "DepositMessage_UnmarshalSSZ F b = Inl ErrSize" if "length b \<noteq> 88" for b
    using that by (simp add: DepositMessage_UnmarshalSSZ_def)
qed

sublocale fastssz_laws \<subseteq> Deposit: canonical_codec Deposit_wf Deposit_bytes "Deposit_UnmarshalSSZ F" 192
proof
  show "\<exists>x. Deposit_wf x \<and> Deposit_UnmarshalSSZ F b = Inr x \<and> Deposit_bytes x = b" if "length b = 192" for b
    using that
    by (simp add: Deposit_UnmarshalSSZ_def Deposit_wf_def Deposit_bytes_def length_sub marshal_unmarshal_uint64
        sub_joins)
  show "Deposit_UnmarshalSSZ F b = Inl ErrSize" if "length b \<noteq> 192" for b
    using that by (simp add: Deposit_UnmarshalSSZ_def)
qed

sublocale fastssz_laws \<subseteq> BeaconBlockHeader: canonical_codec BeaconBlockHeader_wf BeaconBlockHeader_bytes "BeaconBlockHeader_UnmarshalSSZ F" 112
proof
  show "\<exists>x. BeaconBlockHeader_wf x \<and> BeaconBlockHeader_UnmarshalSSZ F b = Inr x \<and> BeaconBlockHeader_bytes x = b" if "length b = 112" for b
    using that
    by (simp add: BeaconBlockHeader_UnmarshalSSZ_def BeaconBlockHeader_wf_def BeaconBlockHeader_bytes_def length_sub marshal_unmarshal_uint64
        sub_joins)
  show "BeaconBlockHeader_UnmarshalSSZ F b = Inl ErrSize" if "length b \<noteq> 112" for b
    using that by (simp add: BeaconBlockHeader_UnmarshalSSZ_def)
qed

sublocale fastssz_laws \<subseteq> Withdrawal: canonical_codec Withdrawal_wf Withdrawal_bytes "Withdrawal_UnmarshalSSZ F" 44
proof
  show "\<exists>x. Withdrawal_wf x \<and> Withdrawal_UnmarshalSSZ F b = Inr x \<and> Withdrawal_bytes x = b" if "length b = 44" for b
    using that
    by (simp add: Withdrawal_UnmarshalSSZ_def Withdrawal_wf_def Withdrawal_bytes_def length_sub marshal_unmarshal_uint64
        sub_joins)
  show "Withdrawal_UnmarshalSSZ F b = Inl ErrSize" if "length b \<noteq> 44" for b
    using that by (simp add: Withdrawal_UnmarshalSSZ_def)
qed

end
