(* ===== verification/VarCodecs.thy ===== *)
theory VarCodecs
  imports Codecs
begin

section \<open>The generated codecs of the variable-size containers\<close>

text \<open>
  The execution payload and its header, the block body, the block and the beacon state
  (\<open>payload.ssz.go\<close>, \<open>payload_header.ssz.go\<close>, \<open>body.ssz.go\<close>, \<open>block.ssz.go\<close>, \<open>deneb.ssz.go\<close>). Their
  encoding has a fixed part with a four-byte offset for every variable field, followed by these
  fields. A decoder appends the bytes of \<open>LogsBloom\<close> and \<open>ExtraData\<close> to what the receiver has, so it
  takes the receiver; the other fields are overwritten. Pointers to containers are never nil in the
  model's records but for the body's \<open>Eth1Data\<close>, for which the code encodes the zero value.

  An encoding must be shorter than 4 GiB for its offsets to be exact. Under that bound each decoder
  inverts its encoder. The converse fails: the first offset may leave a gap.
\<close>

subsection \<open>Offsets below 4 GiB\<close>

lemma offset_less_iff:
  "m < 2 ^ 32 \<Longrightarrow> n < 2 ^ 32 \<Longrightarrow> (of_nat m :: u64) < of_nat n \<longleftrightarrow> m < n"
  by (simp add: word_less_nat_alt unat_of_nat)

lemma unat_offset: "n < 2 ^ 32 \<Longrightarrow> unat (of_nat n :: u64) = n"
  by (simp add: unat_of_nat)

lemmas offset_simps = offset_less_iff unat_offset

subsection \<open>Loops of the encoders\<close>

fun marshal_each :: "('a \<Rightarrow> bytes \<Rightarrow> err + bytes) \<Rightarrow> 'a list \<Rightarrow> bytes \<Rightarrow> err + bytes" where
  "marshal_each m [] dst = Inr dst"
| "marshal_each m (x # xs) dst = bindE (m x dst) (marshal_each m xs)"

lemma marshal_each_Inr:
  "(\<And>x dst. m x dst = Inr (dst @ enc x)) \<Longrightarrow> marshal_each m xs dst = Inr (dst @ concat (map enc xs))"
  by (induction xs arbitrary: dst) simp_all

lemma marshal_each_append:
  "marshal_each m (xs @ ys) dst = bindE (marshal_each m xs dst) (marshal_each m ys)"
  by (induction xs arbitrary: dst) (simp_all add: bindE_def split: sum.splits)

fun write_offsets :: "fastssz \<Rightarrow> bytes \<Rightarrow> nat \<Rightarrow> bytes list \<Rightarrow> bytes" where
  "write_offsets F dst offset [] = dst"
| "write_offsets F dst offset (t # ts) = write_offsets F (WriteOffset F dst offset) (offset + length t) ts"

fun append_transactions :: "bytes list \<Rightarrow> bytes \<Rightarrow> err + bytes" where
  "append_transactions [] dst = Inr dst"
| "append_transactions (t # ts) dst =
     (if length t > 1073741824 then Inl ErrBytesLength else append_transactions ts (dst @ t))"

lemma append_transactions_Inr:
  "\<forall>t \<in> set ts. length t \<le> 1073741824 \<Longrightarrow> append_transactions ts dst = Inr (dst @ concat ts)"
  by (induction ts arbitrary: dst) auto

context fastssz_laws
begin

lemma write_offsets_dyn: "write_offsets F dst n ts = dst @ dyn_offsets n ts"
  by (induction ts arbitrary: dst n) simp_all

end

subsection \<open>The payload header\<close>

definition ExecutionPayloadHeaderDeneb_MarshalSSZTo ::
  "fastssz \<Rightarrow> ExecutionPayloadHeaderDeneb \<Rightarrow> bytes \<Rightarrow> err + bytes" where
  "ExecutionPayloadHeaderDeneb_MarshalSSZTo F e buf =
     (let dst = buf;
          offset = 584;
          dst = dst @ ph_ParentHash e;
          dst = dst @ ph_FeeRecipient e;
          dst = dst @ ph_StateRoot e;
          dst = dst @ ph_ReceiptsRoot e in
      if length (ph_LogsBloom e) \<noteq> 256 then Inl ErrBytesLength
      else
      let dst = dst @ ph_LogsBloom e;
          dst = dst @ ph_Random e;
          dst = MarshalUint64 F dst (ph_Number e);
          dst = MarshalUint64 F dst (ph_GasLimit e);
          dst = MarshalUint64 F dst (ph_GasUsed e);
          dst = MarshalUint64 F dst (ph_Timestamp e);
          dst = WriteOffset F dst offset;
          dst = dst @ ph_BaseFeePerGas e;
          dst = dst @ ph_BlockHash e;
          dst = dst @ ph_TransactionsRoot e;
          dst = dst @ ph_WithdrawalsRoot e;
          dst = MarshalUint64 F dst (ph_BlobGasUsed e);
          dst = MarshalUint64 F dst (ph_ExcessBlobGas e) in
      if length (ph_ExtraData e) > 32 then Inl ErrBytesLength
      else Inr (dst @ ph_ExtraData e))"

definition ExecutionPayloadHeaderDeneb_MarshalSSZ ::
  "fastssz \<Rightarrow> ExecutionPayloadHeaderDeneb \<Rightarrow> err + bytes" where
  "ExecutionPayloadHeaderDeneb_MarshalSSZ F e =
     MarshalWith F (ExecutionPayloadHeaderDeneb_MarshalSSZTo F e)"

definition ExecutionPayloadHeaderDeneb_UnmarshalSSZ ::
  "fastssz \<Rightarrow> ExecutionPayloadHeaderDeneb \<Rightarrow> bytes \<Rightarrow> err + ExecutionPayloadHeaderDeneb" where
  "ExecutionPayloadHeaderDeneb_UnmarshalSSZ F e buf =
     (let size = of_nat (length buf) in
      if length buf < 584 then Inl ErrSize
      else
      let o10 = ReadOffset F (sub 436 440 buf) in
      if o10 > size then Inl ErrOffset
      else if o10 < 584 then Inl ErrInvalidVariableOffset
      else
      let extra = drop (unat o10) buf in
      if length extra > 32 then Inl ErrBytesLength
      else Inr \<lparr>
        ph_ParentHash = sub 0 32 buf,
        ph_FeeRecipient = sub 32 52 buf,
        ph_StateRoot = sub 52 84 buf,
        ph_ReceiptsRoot = sub 84 116 buf,
        ph_LogsBloom = ph_LogsBloom e @ sub 116 372 buf,
        ph_Random = sub 372 404 buf,
        ph_Number = UnmarshallUint64 F (sub 404 412 buf),
        ph_GasLimit = UnmarshallUint64 F (sub 412 420 buf),
        ph_GasUsed = UnmarshallUint64 F (sub 420 428 buf),
        ph_Timestamp = UnmarshallUint64 F (sub 428 436 buf),
        ph_ExtraData = ph_ExtraData e @ extra,
        ph_BaseFeePerGas = sub 440 472 buf,
        ph_BlockHash = sub 472 504 buf,
        ph_TransactionsRoot = sub 504 536 buf,
        ph_WithdrawalsRoot = sub 536 568 buf,
        ph_BlobGasUsed = UnmarshallUint64 F (sub 568 576 buf),
        ph_ExcessBlobGas = UnmarshallUint64 F (sub 576 584 buf)\<rparr>)"

definition ExecutionPayloadHeaderDeneb_SizeSSZ :: "ExecutionPayloadHeaderDeneb \<Rightarrow> nat" where
  "ExecutionPayloadHeaderDeneb_SizeSSZ e = 584 + length (ph_ExtraData e)"

subsection \<open>The payload\<close>

definition ExecutableDataDeneb_MarshalSSZTo ::
  "fastssz \<Rightarrow> ExecutableDataDeneb \<Rightarrow> bytes \<Rightarrow> err + bytes" where
  "ExecutableDataDeneb_MarshalSSZTo F e buf =
     (let dst = buf;
          offset = 528;
          dst = dst @ pl_ParentHash e;
          dst = dst @ pl_FeeRecipient e;
          dst = dst @ pl_StateRoot e;
          dst = dst @ pl_ReceiptsRoot e in
      if length (pl_LogsBloom e) \<noteq> 256 then Inl ErrBytesLength
      else
      let dst = dst @ pl_LogsBloom e;
          dst = dst @ pl_Random e;
          dst = MarshalUint64 F dst (pl_Number e);
          dst = MarshalUint64 F dst (pl_GasLimit e);
          dst = MarshalUint64 F dst (pl_GasUsed e);
          dst = MarshalUint64 F dst (pl_Timestamp e);
          dst = WriteOffset F dst offset;
          offset = offset + length (pl_ExtraData e);
          dst = dst @ pl_BaseFeePerGas e;
          dst = dst @ pl_BlockHash e;
          dst = WriteOffset F dst offset;
          offset = offset + (\<Sum>t\<leftarrow>pl_Transactions e. 4 + length t);
          dst = WriteOffset F dst offset;
          dst = MarshalUint64 F dst (pl_BlobGasUsed e);
          dst = MarshalUint64 F dst (pl_ExcessBlobGas e) in
      if length (pl_ExtraData e) > 32 then Inl ErrBytesLength
      else
      let dst = dst @ pl_ExtraData e in
      if length (pl_Transactions e) > 1048576 then Inl ErrListTooBig
      else
      let dst = write_offsets F dst (4 * length (pl_Transactions e)) (pl_Transactions e) in
      bindE (append_transactions (pl_Transactions e) dst) (\<lambda>dst.
      if length (pl_Withdrawals e) > 16 then Inl ErrListTooBig
      else marshal_each (Withdrawal_MarshalSSZTo F) (pl_Withdrawals e) dst))"

definition ExecutableDataDeneb_MarshalSSZ :: "fastssz \<Rightarrow> ExecutableDataDeneb \<Rightarrow> err + bytes" where
  "ExecutableDataDeneb_MarshalSSZ F e = MarshalWith F (ExecutableDataDeneb_MarshalSSZTo F e)"

definition ExecutableDataDeneb_UnmarshalSSZ ::
  "fastssz \<Rightarrow> ExecutableDataDeneb \<Rightarrow> bytes \<Rightarrow> err + ExecutableDataDeneb" where
  "ExecutableDataDeneb_UnmarshalSSZ F e buf =
     (let size = of_nat (length buf) in
      if length buf < 528 then Inl ErrSize
      else
      let o10 = ReadOffset F (sub 436 440 buf) in
      if o10 > size then Inl ErrOffset
      else if o10 < 528 then Inl ErrInvalidVariableOffset
      else
      let o13 = ReadOffset F (sub 504 508 buf) in
      if o13 > size \<or> o10 > o13 then Inl ErrOffset
      else
      let o14 = ReadOffset F (sub 508 512 buf) in
      if o14 > size \<or> o13 > o14 then Inl ErrOffset
      else
      let extra = sub (unat o10) (unat o13) buf in
      if length extra > 32 then Inl ErrBytesLength
      else
      let txs = sub (unat o13) (unat o14) buf in
      bindE (DecodeDynamicLength F txs 1048576) (\<lambda>num.
      bindE (UnmarshalDynamic F txs num (\<lambda>indx b.
               if length b > 1073741824 then Inl ErrBytesLength else Inr b)) (\<lambda>transactions.
      let wds = drop (unat o14) buf in
      bindE (DivideInt2 F (length wds) 44 16) (\<lambda>num.
      bindE (mapE (\<lambda>ii. Withdrawal_UnmarshalSSZ F (sub (ii * 44) ((ii + 1) * 44) wds)) [0..<num])
        (\<lambda>withdrawals. Inr \<lparr>
        pl_ParentHash = sub 0 32 buf,
        pl_FeeRecipient = sub 32 52 buf,
        pl_StateRoot = sub 52 84 buf,
        pl_ReceiptsRoot = sub 84 116 buf,
        pl_LogsBloom = pl_LogsBloom e @ sub 116 372 buf,
        pl_Random = sub 372 404 buf,
        pl_Number = UnmarshallUint64 F (sub 404 412 buf),
        pl_GasLimit = UnmarshallUint64 F (sub 412 420 buf),
        pl_GasUsed = UnmarshallUint64 F (sub 420 428 buf),
        pl_Timestamp = UnmarshallUint64 F (sub 428 436 buf),
        pl_ExtraData = pl_ExtraData e @ extra,
        pl_BaseFeePerGas = sub 440 472 buf,
        pl_BlockHash = sub 472 504 buf,
        pl_Transactions = transactions,
        pl_Withdrawals = withdrawals,
        pl_BlobGasUsed = UnmarshallUint64 F (sub 512 520 buf),
        pl_ExcessBlobGas = UnmarshallUint64 F (sub 520 528 buf)\<rparr>)))))"

definition ExecutableDataDeneb_SizeSSZ :: "ExecutableDataDeneb \<Rightarrow> nat" where
  "ExecutableDataDeneb_SizeSSZ e =
     528 + length (pl_ExtraData e) + (\<Sum>t\<leftarrow>pl_Transactions e. 4 + length t) +
     length (pl_Withdrawals e) * 44"

subsection \<open>Round trips of the payload and its header\<close>

definition PayloadHeader_wf :: "ExecutionPayloadHeaderDeneb \<Rightarrow> bool" where
  "PayloadHeader_wf e \<longleftrightarrow>
     length (ph_ParentHash e) = 32 \<and> length (ph_FeeRecipient e) = 20 \<and> length (ph_StateRoot e) = 32 \<and>
     length (ph_ReceiptsRoot e) = 32 \<and> length (ph_LogsBloom e) = 256 \<and> length (ph_Random e) = 32 \<and>
     length (ph_ExtraData e) \<le> 32 \<and> length (ph_BaseFeePerGas e) = 32 \<and> length (ph_BlockHash e) = 32 \<and>
     length (ph_TransactionsRoot e) = 32 \<and> length (ph_WithdrawalsRoot e) = 32"

definition PayloadHeader_bytes :: "ExecutionPayloadHeaderDeneb \<Rightarrow> bytes" where
  "PayloadHeader_bytes e =
     ph_ParentHash e @ ph_FeeRecipient e @ ph_StateRoot e @ ph_ReceiptsRoot e @ ph_LogsBloom e @
     ph_Random e @ le_bytes (ph_Number e) @ le_bytes (ph_GasLimit e) @ le_bytes (ph_GasUsed e) @
     le_bytes (ph_Timestamp e) @ offset_bytes 584 @ ph_BaseFeePerGas e @ ph_BlockHash e @
     ph_TransactionsRoot e @ ph_WithdrawalsRoot e @ le_bytes (ph_BlobGasUsed e) @
     le_bytes (ph_ExcessBlobGas e) @ ph_ExtraData e"

definition Payload_wf :: "ExecutableDataDeneb \<Rightarrow> bool" where
  "Payload_wf e \<longleftrightarrow>
     length (pl_ParentHash e) = 32 \<and> length (pl_FeeRecipient e) = 20 \<and> length (pl_StateRoot e) = 32 \<and>
     length (pl_ReceiptsRoot e) = 32 \<and> length (pl_LogsBloom e) = 256 \<and> length (pl_Random e) = 32 \<and>
     length (pl_ExtraData e) \<le> 32 \<and> length (pl_BaseFeePerGas e) = 32 \<and> length (pl_BlockHash e) = 32 \<and>
     length (pl_Transactions e) \<le> 1048576 \<and> (\<forall>t \<in> set (pl_Transactions e). length t \<le> 1073741824) \<and>
     length (pl_Withdrawals e) \<le> 16 \<and> (\<forall>x \<in> set (pl_Withdrawals e). Withdrawal_wf x)"

definition Payload_fixed :: "ExecutableDataDeneb \<Rightarrow> bytes" where
  "Payload_fixed e =
     pl_ParentHash e @ pl_FeeRecipient e @ pl_StateRoot e @ pl_ReceiptsRoot e @ pl_LogsBloom e @
     pl_Random e @ le_bytes (pl_Number e) @ le_bytes (pl_GasLimit e) @ le_bytes (pl_GasUsed e) @
     le_bytes (pl_Timestamp e) @ offset_bytes 528 @ pl_BaseFeePerGas e @ pl_BlockHash e @
     offset_bytes (528 + length (pl_ExtraData e)) @
     offset_bytes (528 + length (pl_ExtraData e) + dyn_size (pl_Transactions e)) @
     le_bytes (pl_BlobGasUsed e) @ le_bytes (pl_ExcessBlobGas e)"

definition Payload_bytes :: "ExecutableDataDeneb \<Rightarrow> bytes" where
  "Payload_bytes e = Payload_fixed e @ pl_ExtraData e @ dyn_encode (pl_Transactions e) @
     concat (map Withdrawal_bytes (pl_Withdrawals e))"

lemma dyn_size_sum: "(\<Sum>t\<leftarrow>ts. 4 + length t) = dyn_size ts"
  by (induction ts) (simp_all add: dyn_size_def)

lemma Payload_fixed_length: "Payload_wf e \<Longrightarrow> length (Payload_fixed e) = 528"
  by (simp add: Payload_fixed_def Payload_wf_def)

context fastssz_laws
begin

lemma PayloadHeader_marshal:
  "PayloadHeader_wf e \<Longrightarrow>
   ExecutionPayloadHeaderDeneb_MarshalSSZTo F e buf = Inr (buf @ PayloadHeader_bytes e)"
  by (simp add: ExecutionPayloadHeaderDeneb_MarshalSSZTo_def PayloadHeader_wf_def
      PayloadHeader_bytes_def Let_def)

lemma PayloadHeader_length:
  "PayloadHeader_wf e \<Longrightarrow> length (PayloadHeader_bytes e) = ExecutionPayloadHeaderDeneb_SizeSSZ e"
  by (simp add: PayloadHeader_wf_def PayloadHeader_bytes_def ExecutionPayloadHeaderDeneb_SizeSSZ_def)

lemma PayloadHeader_roundtrip:
  assumes "PayloadHeader_wf e" and "ph_LogsBloom r = []" and "ph_ExtraData r = []"
  shows "ExecutionPayloadHeaderDeneb_UnmarshalSSZ F r (PayloadHeader_bytes e) = Inr e"
proof -
  have "ReadOffset F (offset_bytes 584) = 584" using read_write_offset [of 584] by simp
  moreover have "\<not> of_nat (length (PayloadHeader_bytes e)) < (584 :: u64)"
    using assms(1) offset_less_iff [of "length (PayloadHeader_bytes e)" 584]
    by (simp add: PayloadHeader_length ExecutionPayloadHeaderDeneb_SizeSSZ_def PayloadHeader_wf_def)
  ultimately show ?thesis
    using assms
    by (simp add: ExecutionPayloadHeaderDeneb_UnmarshalSSZ_def PayloadHeader_wf_def
        PayloadHeader_bytes_def sub_simps sub_u64_bytes)
qed

end

context fastssz_laws
begin

lemma Payload_marshal:
  assumes "Payload_wf e"
  shows "ExecutableDataDeneb_MarshalSSZTo F e buf = Inr (buf @ Payload_bytes e)"
  using assms marshal_each_Inr [of "Withdrawal_MarshalSSZTo F" Withdrawal_bytes, OF Withdrawal_marshal]
  by (simp add: ExecutableDataDeneb_MarshalSSZTo_def Payload_wf_def Payload_bytes_def
      Payload_fixed_def append_transactions_Inr write_offsets_dyn dyn_size_sum dyn_encode_def Let_def)

lemma Payload_length:
  assumes "Payload_wf e"
  shows "length (Payload_bytes e) = ExecutableDataDeneb_SizeSSZ e"
  using assms Withdrawal.list_length [of "pl_Withdrawals e"] Payload_fixed_length [OF assms]
  by (simp add: Payload_wf_def Payload_bytes_def ExecutableDataDeneb_SizeSSZ_def dyn_size_sum)

lemma mapE_keep:
  assumes "\<forall>t \<in> set ts. length t \<le> n"
  shows "mapE (\<lambda>(i, t). if length t > n then Inl e else Inr t) (enumerate k ts) = Inr ts"
  using assms by (induction ts arbitrary: k) simp_all

lemma Payload_roundtrip:
  assumes wf: "Payload_wf e" and small: "ExecutableDataDeneb_SizeSSZ e < 2 ^ 32"
    and fresh: "pl_LogsBloom r = []" "pl_ExtraData r = []"
  shows "ExecutableDataDeneb_UnmarshalSSZ F r (Payload_bytes e) = Inr e"
proof -
  let ?b = "Payload_bytes e" and ?x = "length (pl_ExtraData e)" and ?t = "dyn_size (pl_Transactions e)"
  let ?w = "concat (map Withdrawal_bytes (pl_Withdrawals e))"
  note len = Payload_length [OF wf]
  have size: "length ?b = 528 + ?x + ?t + length (pl_Withdrawals e) * 44"
    by (simp add: len ExecutableDataDeneb_SizeSSZ_def dyn_size_sum)
  have bounds: "528 + ?x < 2 ^ 32" "528 + ?x + ?t < 2 ^ 32" "length ?b < 2 ^ 32" "?t < 2 ^ 32"
    using small size len by linarith+
  have offs: "sub 436 440 ?b = offset_bytes 528" "sub 504 508 ?b = offset_bytes (528 + ?x)"
    "sub 508 512 ?b = offset_bytes (528 + ?x + ?t)"
    using wf by (simp_all add: Payload_bytes_def Payload_fixed_def Payload_wf_def sub_simps)
  have rd: "ReadOffset F (offset_bytes 528) = of_nat 528"
    "ReadOffset F (offset_bytes (528 + ?x)) = of_nat (528 + ?x)"
    "ReadOffset F (offset_bytes (528 + ?x + ?t)) = of_nat (528 + ?x + ?t)"
    using bounds by (intro read_write_offset, simp)+
  have un: "unat (of_nat 528 :: u64) = 528" "unat (of_nat (528 + ?x) :: u64) = 528 + ?x"
    "unat (of_nat (528 + ?x + ?t) :: u64) = 528 + ?x + ?t"
    using bounds by (intro unat_offset, simp)+
  have cmp: "\<not> of_nat (length ?b) < (of_nat 528 :: u64)" "\<not> of_nat 528 < (528 :: u64)"
    "\<not> of_nat (length ?b) < (of_nat (528 + ?x) :: u64)" "\<not> of_nat (528 + ?x) < (of_nat 528 :: u64)"
    "\<not> of_nat (length ?b) < (of_nat (528 + ?x + ?t) :: u64)"
    "\<not> of_nat (528 + ?x + ?t) < (of_nat (528 + ?x) :: u64)"
    using bounds size offset_less_iff [of 528 528] by (simp_all only: offset_less_iff) simp_all
  have vars: "sub 528 (528 + ?x) ?b = pl_ExtraData e"
    "sub (528 + ?x) (528 + ?x + ?t) ?b = dyn_encode (pl_Transactions e)"
    "drop (528 + ?x + ?t) ?b = ?w"
    using Payload_fixed_length [OF wf] by (simp_all add: Payload_bytes_def sub_simps)
  have txs: "DecodeDynamicLength F (dyn_encode (pl_Transactions e)) 1048576 = Inr (length (pl_Transactions e))"
    "UnmarshalDynamic F (dyn_encode (pl_Transactions e)) (length (pl_Transactions e))
       (\<lambda>indx b. if length b > 1073741824 then Inl ErrBytesLength else Inr b) = Inr (pl_Transactions e)"
    using wf bounds(4) by (simp_all add: Payload_wf_def dynamic_length unmarshal_dynamic mapE_keep)
  have wds: "DivideInt2 F (length ?w) 44 16 = Inr (length (pl_Withdrawals e))"
    "mapE (\<lambda>ii. Withdrawal_UnmarshalSSZ F (sub (ii * 44) ((ii + 1) * 44) ?w))
       [0..<length (pl_Withdrawals e)] = Inr (pl_Withdrawals e)"
    using wf Withdrawal.list_length [of "pl_Withdrawals e"] Withdrawal.dec_list [of "pl_Withdrawals e"]
    by (simp_all add: Payload_wf_def divide)
  have fixed: "sub 0 32 ?b = pl_ParentHash e" "sub 32 52 ?b = pl_FeeRecipient e"
    "sub 52 84 ?b = pl_StateRoot e" "sub 84 116 ?b = pl_ReceiptsRoot e" "sub 116 372 ?b = pl_LogsBloom e"
    "sub 372 404 ?b = pl_Random e" "sub 404 412 ?b = le_bytes (pl_Number e)"
    "sub 412 420 ?b = le_bytes (pl_GasLimit e)" "sub 420 428 ?b = le_bytes (pl_GasUsed e)"
    "sub 428 436 ?b = le_bytes (pl_Timestamp e)" "sub 440 472 ?b = pl_BaseFeePerGas e"
    "sub 472 504 ?b = pl_BlockHash e" "sub 512 520 ?b = le_bytes (pl_BlobGasUsed e)"
    "sub 520 528 ?b = le_bytes (pl_ExcessBlobGas e)"
    using wf by (simp_all add: Payload_bytes_def Payload_fixed_def Payload_wf_def sub_simps)
  show ?thesis
    unfolding ExecutableDataDeneb_UnmarshalSSZ_def Let_def offs rd un vars txs wds fixed bindE_simps
    using wf size cmp fresh by (simp add: Payload_wf_def)
qed

end

subsection \<open>Lists of fixed-size elements\<close>

text \<open>
  The generated block for a list of elements of \<open>n\<close> bytes, at most \<open>m\<close> of them: the number of
  elements from the length of the slice, then every element from its position. \<open>copy\<close> of a slice
  into an array of the same size and \<open>UnmarshallUint64\<close> do not fail.
\<close>

definition unmarshal_each ::
  "fastssz \<Rightarrow> (bytes \<Rightarrow> err + 'a) \<Rightarrow> nat \<Rightarrow> nat \<Rightarrow> bytes \<Rightarrow> err + 'a list" where
  "unmarshal_each F dec n m buf =
     bindE (DivideInt2 F (length buf) n m) (\<lambda>num.
     mapE (\<lambda>ii. dec (sub (ii * n) ((ii + 1) * n) buf)) [0..<num])"

context fastssz_laws
begin

lemma unmarshal_each_enc:
  assumes "0 < n" and "length xs \<le> m"
    and "\<And>x. x \<in> set xs \<Longrightarrow> length (enc x) = n \<and> dec (enc x) = Inr x"
  shows "unmarshal_each F dec n m (concat (map enc xs)) = Inr xs"
  using assms length_concat_fixed [of xs enc n] divide [of n "length xs * n" m "length xs"] mapE_slices [of xs enc n dec]
  by (simp add: unmarshal_each_def)

lemma unmarshal_each_arrays:
  assumes "0 < n" and "length xs \<le> m" and "\<forall>x \<in> set xs. length x = n"
  shows "unmarshal_each F Inr n m (concat xs) = Inr xs"
  using unmarshal_each_enc [of n xs m "\<lambda>x. x" Inr] assms by simp

lemma unmarshal_each_u64:
  assumes "length xs \<le> m"
  shows "unmarshal_each F (\<lambda>b. Inr (UnmarshallUint64 F b)) 8 m (concat (map le_bytes xs)) = Inr xs"
  using assms by (intro unmarshal_each_enc) simp_all

end

subsection \<open>The block body and the block\<close>

definition empty_Eth1Data :: Eth1Data where
  "empty_Eth1Data = \<lparr>eth1_DepositRoot = replicate 32 0, eth1_DepositCount = 0, eth1_BlockHash = replicate 32 0\<rparr>"

definition or_new_Eth1Data :: "Eth1Data option \<Rightarrow> Eth1Data" where
  "or_new_Eth1Data e = (case e of None \<Rightarrow> empty_Eth1Data | Some d \<Rightarrow> d)"

definition BeaconBlockBodyDeneb_SizeSSZ :: "BeaconBlockBodyDeneb \<Rightarrow> nat" where
  "BeaconBlockBodyDeneb_SizeSSZ b =
     (let size = 212;
          size = size + length (bd_Deposits b) * 192;
          size = size + ExecutableDataDeneb_SizeSSZ (bd_ExecutionPayload b)
      in size + length (bd_BlobKzgCommitments b) * 48)"

definition BeaconBlockBodyDeneb_MarshalSSZTo ::
  "fastssz \<Rightarrow> BeaconBlockBodyDeneb \<Rightarrow> bytes \<Rightarrow> err + bytes" where
  "BeaconBlockBodyDeneb_MarshalSSZTo F b buf =
     (let dst = buf;
          offset = 212;
          dst = dst @ bd_RandaoReveal b in
      bindE (Eth1Data_MarshalSSZTo F (or_new_Eth1Data (bd_Eth1Data b)) dst) (\<lambda>dst.
      let dst = dst @ bd_Graffiti b;
          dst = WriteOffset F dst offset;
          offset = offset + length (bd_Deposits b) * 192;
          dst = WriteOffset F dst offset;
          offset = offset + ExecutableDataDeneb_SizeSSZ (bd_ExecutionPayload b);
          dst = WriteOffset F dst offset in
      if length (bd_Deposits b) > 16 then Inl ErrListTooBig
      else bindE (marshal_each (Deposit_MarshalSSZTo F) (bd_Deposits b) dst) (\<lambda>dst.
      bindE (ExecutableDataDeneb_MarshalSSZTo F (bd_ExecutionPayload b) dst) (\<lambda>dst.
      if length (bd_BlobKzgCommitments b) > 16 then Inl ErrListTooBig
      else marshal_each (\<lambda>commitment dst. Inr (dst @ commitment)) (bd_BlobKzgCommitments b) dst))))"

definition BeaconBlockBodyDeneb_MarshalSSZ :: "fastssz \<Rightarrow> BeaconBlockBodyDeneb \<Rightarrow> err + bytes" where
  "BeaconBlockBodyDeneb_MarshalSSZ F b = MarshalWith F (BeaconBlockBodyDeneb_MarshalSSZTo F b)"

definition BeaconBlockBodyDeneb_UnmarshalSSZ ::
  "fastssz \<Rightarrow> BeaconBlockBodyDeneb \<Rightarrow> bytes \<Rightarrow> err + BeaconBlockBodyDeneb" where
  "BeaconBlockBodyDeneb_UnmarshalSSZ F b buf =
     (let size = of_nat (length buf) in
      if length buf < 212 then Inl ErrSize
      else bindE (Eth1Data_UnmarshalSSZ F (sub 96 168 buf)) (\<lambda>eth1Data.
      let o3 = ReadOffset F (sub 200 204 buf) in
      if o3 > size then Inl ErrOffset
      else if o3 < 212 then Inl ErrInvalidVariableOffset
      else
      let o4 = ReadOffset F (sub 204 208 buf) in
      if o4 > size \<or> o3 > o4 then Inl ErrOffset
      else
      let o5 = ReadOffset F (sub 208 212 buf) in
      if o5 > size \<or> o4 > o5 then Inl ErrOffset
      else bindE (unmarshal_each F (Deposit_UnmarshalSSZ F) 192 16 (sub (unat o3) (unat o4) buf)) (\<lambda>deposits.
      bindE (ExecutableDataDeneb_UnmarshalSSZ F (bd_ExecutionPayload b) (sub (unat o4) (unat o5) buf)) (\<lambda>payload.
      bindE (unmarshal_each F Inr 48 16 (drop (unat o5) buf)) (\<lambda>commitments. Inr \<lparr>
        bd_RandaoReveal = sub 0 96 buf,
        bd_Eth1Data = Some eth1Data,
        bd_Graffiti = sub 168 200 buf,
        bd_Deposits = deposits,
        bd_ExecutionPayload = payload,
        bd_BlobKzgCommitments = commitments\<rparr>)))))"

definition BeaconBlockDeneb_SizeSSZ :: "BeaconBlockDeneb \<Rightarrow> nat" where
  "BeaconBlockDeneb_SizeSSZ b = 84 + BeaconBlockBodyDeneb_SizeSSZ (blk_Body b)"

definition BeaconBlockDeneb_MarshalSSZTo :: "fastssz \<Rightarrow> BeaconBlockDeneb \<Rightarrow> bytes \<Rightarrow> err + bytes" where
  "BeaconBlockDeneb_MarshalSSZTo F b buf =
     (let dst = buf;
          offset = 84;
          dst = MarshalUint64 F dst (blk_Slot b);
          dst = MarshalUint64 F dst (blk_ProposerIndex b);
          dst = dst @ blk_ParentBlockRoot b;
          dst = dst @ blk_StateRoot b;
          dst = WriteOffset F dst offset
      in BeaconBlockBodyDeneb_MarshalSSZTo F (blk_Body b) dst)"

definition BeaconBlockDeneb_MarshalSSZ :: "fastssz \<Rightarrow> BeaconBlockDeneb \<Rightarrow> err + bytes" where
  "BeaconBlockDeneb_MarshalSSZ F b = MarshalWith F (BeaconBlockDeneb_MarshalSSZTo F b)"

definition BeaconBlockDeneb_UnmarshalSSZ ::
  "fastssz \<Rightarrow> BeaconBlockDeneb \<Rightarrow> bytes \<Rightarrow> err + BeaconBlockDeneb" where
  "BeaconBlockDeneb_UnmarshalSSZ F b buf =
     (let size = of_nat (length buf) in
      if length buf < 84 then Inl ErrSize
      else
      let o4 = ReadOffset F (sub 80 84 buf) in
      if o4 > size then Inl ErrOffset
      else if o4 < 84 then Inl ErrInvalidVariableOffset
      else bindE (BeaconBlockBodyDeneb_UnmarshalSSZ F (blk_Body b) (drop (unat o4) buf)) (\<lambda>body. Inr \<lparr>
        blk_Slot = UnmarshallUint64 F (sub 0 8 buf),
        blk_ProposerIndex = UnmarshallUint64 F (sub 8 16 buf),
        blk_ParentBlockRoot = sub 16 48 buf,
        blk_StateRoot = sub 48 80 buf,
        blk_Body = body\<rparr>))"

subsection \<open>Round trips of the body and the block\<close>

definition Body_wf :: "BeaconBlockBodyDeneb \<Rightarrow> bool" where
  "Body_wf b \<longleftrightarrow>
     length (bd_RandaoReveal b) = 96 \<and> Eth1Data_wf (or_new_Eth1Data (bd_Eth1Data b)) \<and>
     length (bd_Graffiti b) = 32 \<and>
     length (bd_Deposits b) \<le> 16 \<and> (\<forall>d \<in> set (bd_Deposits b). Deposit_wf d) \<and>
     Payload_wf (bd_ExecutionPayload b) \<and>
     length (bd_BlobKzgCommitments b) \<le> 16 \<and> (\<forall>c \<in> set (bd_BlobKzgCommitments b). length c = 48)"

definition Body_fixed :: "BeaconBlockBodyDeneb \<Rightarrow> bytes" where
  "Body_fixed b =
     bd_RandaoReveal b @ Eth1Data_bytes (or_new_Eth1Data (bd_Eth1Data b)) @ bd_Graffiti b @
     offset_bytes 212 @ offset_bytes (212 + length (bd_Deposits b) * 192) @
     offset_bytes (212 + length (bd_Deposits b) * 192 + ExecutableDataDeneb_SizeSSZ (bd_ExecutionPayload b))"

definition Body_bytes :: "BeaconBlockBodyDeneb \<Rightarrow> bytes" where
  "Body_bytes b = Body_fixed b @ concat (map Deposit_bytes (bd_Deposits b)) @
     Payload_bytes (bd_ExecutionPayload b) @ concat (bd_BlobKzgCommitments b)"

text \<open>The body as the decoder gives it back: its deposit data is no longer nil.\<close>

definition with_Eth1Data :: "BeaconBlockBodyDeneb \<Rightarrow> BeaconBlockBodyDeneb" where
  "with_Eth1Data b = b\<lparr>bd_Eth1Data := Some (or_new_Eth1Data (bd_Eth1Data b))\<rparr>"

definition Block_bytes :: "BeaconBlockDeneb \<Rightarrow> bytes" where
  "Block_bytes b = le_bytes (blk_Slot b) @ le_bytes (blk_ProposerIndex b) @ blk_ParentBlockRoot b @
     blk_StateRoot b @ offset_bytes 84 @ Body_bytes (blk_Body b)"

definition Block_wf :: "BeaconBlockDeneb \<Rightarrow> bool" where
  "Block_wf b \<longleftrightarrow> length (blk_ParentBlockRoot b) = 32 \<and> length (blk_StateRoot b) = 32 \<and> Body_wf (blk_Body b)"

context fastssz_laws
begin

lemma Body_marshal:
  assumes "Body_wf b"
  shows "BeaconBlockBodyDeneb_MarshalSSZTo F b buf = Inr (buf @ Body_bytes b)"
  using assms marshal_each_Inr [of "Deposit_MarshalSSZTo F" Deposit_bytes, OF Deposit_marshal]
    marshal_each_Inr [of "\<lambda>c dst. Inr (dst @ c)" "\<lambda>c. c"]
  by (simp add: BeaconBlockBodyDeneb_MarshalSSZTo_def Body_wf_def Body_bytes_def Body_fixed_def
      Eth1Data_marshal Payload_marshal Let_def)

lemma Body_fixed_length: "Body_wf b \<Longrightarrow> length (Body_fixed b) = 212"
  by (simp add: Body_fixed_def Body_wf_def Eth1Data.enc_length)

lemma Body_length:
  assumes "Body_wf b"
  shows "length (Body_bytes b) = BeaconBlockBodyDeneb_SizeSSZ b"
  using assms Body_fixed_length [OF assms] Deposit.list_length [of "bd_Deposits b"]
    length_concat_fixed [of "bd_BlobKzgCommitments b" "\<lambda>c. c" 48]
  by (simp add: Body_wf_def Body_bytes_def BeaconBlockBodyDeneb_SizeSSZ_def Payload_length)

lemma Body_roundtrip:
  assumes wf: "Body_wf b" and small: "BeaconBlockBodyDeneb_SizeSSZ b < 2 ^ 32"
    and fresh: "pl_LogsBloom (bd_ExecutionPayload r) = []" "pl_ExtraData (bd_ExecutionPayload r) = []"
  shows "BeaconBlockBodyDeneb_UnmarshalSSZ F r (Body_bytes b) = Inr (with_Eth1Data b)"
proof -
  let ?b = "Body_bytes b" and ?d = "length (bd_Deposits b) * 192"
  let ?p = "ExecutableDataDeneb_SizeSSZ (bd_ExecutionPayload b)"
  have size: "length ?b = 212 + ?d + ?p + length (bd_BlobKzgCommitments b) * 48"
    using Body_length [OF wf] by (simp add: BeaconBlockBodyDeneb_SizeSSZ_def)
  have bounds: "212 + ?d < 2 ^ 32" "212 + ?d + ?p < 2 ^ 32" "length ?b < 2 ^ 32" "?p < 2 ^ 32"
    using small size Body_length [OF wf] by linarith+
  have offs: "sub 200 204 ?b = offset_bytes 212" "sub 204 208 ?b = offset_bytes (212 + ?d)"
    "sub 208 212 ?b = offset_bytes (212 + ?d + ?p)"
    using wf by (simp_all add: Body_bytes_def Body_fixed_def Body_wf_def Eth1Data.enc_length sub_simps)
  have rd: "ReadOffset F (offset_bytes 212) = of_nat 212"
    "ReadOffset F (offset_bytes (212 + ?d)) = of_nat (212 + ?d)"
    "ReadOffset F (offset_bytes (212 + ?d + ?p)) = of_nat (212 + ?d + ?p)"
    using bounds by (intro read_write_offset, simp)+
  have un: "unat (of_nat 212 :: u64) = 212" "unat (of_nat (212 + ?d) :: u64) = 212 + ?d"
    "unat (of_nat (212 + ?d + ?p) :: u64) = 212 + ?d + ?p"
    using bounds by (intro unat_offset, simp)+
  have cmp: "\<not> of_nat (length ?b) < (of_nat 212 :: u64)" "\<not> of_nat 212 < (212 :: u64)"
    "\<not> of_nat (length ?b) < (of_nat (212 + ?d) :: u64)" "\<not> of_nat (212 + ?d) < (of_nat 212 :: u64)"
    "\<not> of_nat (length ?b) < (of_nat (212 + ?d + ?p) :: u64)"
    "\<not> of_nat (212 + ?d + ?p) < (of_nat (212 + ?d) :: u64)"
    using bounds size offset_less_iff [of 212 212] by (simp_all only: offset_less_iff) simp_all
  have vars: "sub 212 (212 + ?d) ?b = concat (map Deposit_bytes (bd_Deposits b))"
    "sub (212 + ?d) (212 + ?d + ?p) ?b = Payload_bytes (bd_ExecutionPayload b)"
    "drop (212 + ?d + ?p) ?b = concat (bd_BlobKzgCommitments b)"
    using wf Body_fixed_length [OF wf] Deposit.list_length [of "bd_Deposits b"] Payload_length
    by (simp_all add: Body_bytes_def Body_wf_def sub_simps)
  have lists: "unmarshal_each F (Deposit_UnmarshalSSZ F) 192 16 (concat (map Deposit_bytes (bd_Deposits b))) =
      Inr (bd_Deposits b)"
    "unmarshal_each F Inr 48 16 (concat (bd_BlobKzgCommitments b)) = Inr (bd_BlobKzgCommitments b)"
    using wf by (simp_all add: Body_wf_def unmarshal_each_enc Deposit.enc_length Deposit.dec_enc
        unmarshal_each_arrays)
  have payload: "ExecutableDataDeneb_UnmarshalSSZ F (bd_ExecutionPayload r) (Payload_bytes (bd_ExecutionPayload b)) =
      Inr (bd_ExecutionPayload b)"
    using wf bounds fresh by (simp add: Body_wf_def Payload_roundtrip)
  have fixed: "sub 0 96 ?b = bd_RandaoReveal b" "sub 168 200 ?b = bd_Graffiti b"
    "sub 96 168 ?b = Eth1Data_bytes (or_new_Eth1Data (bd_Eth1Data b))"
    using wf by (simp_all add: Body_bytes_def Body_fixed_def Body_wf_def Eth1Data.enc_length sub_simps)
  have eth1: "Eth1Data_UnmarshalSSZ F (Eth1Data_bytes (or_new_Eth1Data (bd_Eth1Data b))) =
      Inr (or_new_Eth1Data (bd_Eth1Data b))"
    using wf by (simp add: Body_wf_def Eth1Data.dec_enc)
  show ?thesis
    unfolding BeaconBlockBodyDeneb_UnmarshalSSZ_def Let_def fixed eth1 bindE_simps offs rd un vars lists payload
    using size cmp by (simp add: with_Eth1Data_def)
qed

lemma Block_marshal:
  "Block_wf b \<Longrightarrow> BeaconBlockDeneb_MarshalSSZTo F b buf = Inr (buf @ Block_bytes b)"
  by (simp add: BeaconBlockDeneb_MarshalSSZTo_def Block_wf_def Block_bytes_def Body_marshal)

lemma Block_length: "Block_wf b \<Longrightarrow> length (Block_bytes b) = BeaconBlockDeneb_SizeSSZ b"
  by (simp add: Block_wf_def Block_bytes_def BeaconBlockDeneb_SizeSSZ_def Body_length)

text \<open>
  The body is read from where the offset points to, whatever stands before it: bytes between the
  fixed part and the body are skipped.
\<close>

lemma Block_decode_gap:
  assumes wf: "Block_wf b" and small: "BeaconBlockDeneb_SizeSSZ b + length gap < 2 ^ 32"
    and fresh: "pl_LogsBloom (bd_ExecutionPayload (blk_Body r)) = []"
      "pl_ExtraData (bd_ExecutionPayload (blk_Body r)) = []"
  shows "BeaconBlockDeneb_UnmarshalSSZ F r
      (le_bytes (blk_Slot b) @ le_bytes (blk_ProposerIndex b) @ blk_ParentBlockRoot b @ blk_StateRoot b @
       offset_bytes (84 + length gap) @ gap @ Body_bytes (blk_Body b)) =
    Inr (b\<lparr>blk_Body := with_Eth1Data (blk_Body b)\<rparr>)"
proof -
  define buf where "buf = le_bytes (blk_Slot b) @ le_bytes (blk_ProposerIndex b) @ blk_ParentBlockRoot b @
    blk_StateRoot b @ offset_bytes (84 + length gap) @ gap @ Body_bytes (blk_Body b)"
  have size: "length buf = 84 + length gap + BeaconBlockBodyDeneb_SizeSSZ (blk_Body b)"
    using wf by (simp add: buf_def Block_wf_def Body_length)
  have body: "BeaconBlockBodyDeneb_UnmarshalSSZ F (blk_Body r) (Body_bytes (blk_Body b)) =
      Inr (with_Eth1Data (blk_Body b))"
    using wf small fresh by (simp add: Block_wf_def BeaconBlockDeneb_SizeSSZ_def Body_roundtrip)
  have bounds: "84 + length gap < 2 ^ 32" "length buf < 2 ^ 32"
    using small size by (simp_all add: BeaconBlockDeneb_SizeSSZ_def)
  have parts: "sub 0 8 buf = le_bytes (blk_Slot b)" "sub 8 16 buf = le_bytes (blk_ProposerIndex b)"
    "sub 16 48 buf = blk_ParentBlockRoot b" "sub 48 80 buf = blk_StateRoot b"
    "sub 80 84 buf = offset_bytes (84 + length gap)" "drop (84 + length gap) buf = Body_bytes (blk_Body b)"
    using wf by (simp_all add: buf_def Block_wf_def sub_simps)
  have cmp: "\<not> of_nat (length buf) < (of_nat (84 + length gap) :: u64)" "\<not> of_nat (84 + length gap) < (of_nat 84 :: u64)"
    using bounds size by (simp_all only: offset_less_iff)
  have "BeaconBlockDeneb_UnmarshalSSZ F r buf = Inr (b\<lparr>blk_Body := with_Eth1Data (blk_Body b)\<rparr>)"
    unfolding BeaconBlockDeneb_UnmarshalSSZ_def Let_def parts
      read_write_offset [OF bounds(1)] unat_offset [OF bounds(1)] body bindE_simps
    using size cmp by simp
  then show ?thesis by (simp add: buf_def)
qed

lemma Block_roundtrip:
  assumes "Block_wf b" and "BeaconBlockDeneb_SizeSSZ b < 2 ^ 32"
    and "pl_LogsBloom (bd_ExecutionPayload (blk_Body r)) = []"
      "pl_ExtraData (bd_ExecutionPayload (blk_Body r)) = []"
  shows "BeaconBlockDeneb_UnmarshalSSZ F r (Block_bytes b) = Inr (b\<lparr>blk_Body := with_Eth1Data (blk_Body b)\<rparr>)"
  using Block_decode_gap [of b "[]" r] assms by (simp add: Block_bytes_def)

end

end
