(* ===== verification/StateCodec.thy ===== *)
theory StateCodec
  imports VarCodecs
begin

section \<open>The generated codec of the beacon state\<close>

text \<open>
  \<open>deneb.ssz.go\<close> of the beacon state: seven variable-size fields behind a fixed part of 300 bytes.
  The pointers of the container are never nil in the model's record (\<open>New\<close> sets them all), so the
  branches that allocate a zero value are not taken. \<open>ExtendUint64\<close> followed by the assignment of
  every entry gives the decoded list whatever the receiver had.
\<close>

subsection \<open>The code\<close>

definition BeaconState_SizeSSZ :: "BeaconState \<Rightarrow> nat" where
  "BeaconState_SizeSSZ b =
     (let size = 300;
          size = size + length (st_BlockRoots b) * 32;
          size = size + length (st_StateRoots b) * 32;
          size = size + ExecutionPayloadHeaderDeneb_SizeSSZ (st_LatestExecutionPayloadHeader b);
          size = size + length (st_Validators b) * 121;
          size = size + length (st_Balances b) * 8;
          size = size + length (st_RandaoMixes b) * 32
      in size + length (st_Slashings b) * 8)"

definition BeaconState_MarshalSSZTo :: "fastssz \<Rightarrow> BeaconState \<Rightarrow> bytes \<Rightarrow> err + bytes" where
  "BeaconState_MarshalSSZTo F b buf =
     (let dst = buf;
          offset = 300;
          dst = dst @ st_GenesisValidatorsRoot b;
          dst = MarshalUint64 F dst (st_Slot b) in
      bindE (Fork_MarshalSSZTo F (st_Fork b) dst) (\<lambda>dst.
      bindE (BeaconBlockHeader_MarshalSSZTo F (st_LatestBlockHeader b) dst) (\<lambda>dst.
      let dst = WriteOffset F dst offset;
          offset = offset + length (st_BlockRoots b) * 32;
          dst = WriteOffset F dst offset;
          offset = offset + length (st_StateRoots b) * 32 in
      bindE (Eth1Data_MarshalSSZTo F (st_Eth1Data b) dst) (\<lambda>dst.
      let dst = MarshalUint64 F dst (st_Eth1DepositIndex b);
          dst = WriteOffset F dst offset;
          offset = offset + ExecutionPayloadHeaderDeneb_SizeSSZ (st_LatestExecutionPayloadHeader b);
          dst = WriteOffset F dst offset;
          offset = offset + length (st_Validators b) * 121;
          dst = WriteOffset F dst offset;
          offset = offset + length (st_Balances b) * 8;
          dst = WriteOffset F dst offset;
          offset = offset + length (st_RandaoMixes b) * 32;
          dst = MarshalUint64 F dst (st_NextWithdrawalIndex b);
          dst = MarshalUint64 F dst (st_NextWithdrawalValidatorIndex b);
          dst = WriteOffset F dst offset;
          dst = MarshalUint64 F dst (st_TotalSlashing b) in
      if length (st_BlockRoots b) > 8192 then Inl ErrListTooBig
      else bindE (marshal_each (\<lambda>r dst. Inr (dst @ r)) (st_BlockRoots b) dst) (\<lambda>dst.
      if length (st_StateRoots b) > 8192 then Inl ErrListTooBig
      else bindE (marshal_each (\<lambda>r dst. Inr (dst @ r)) (st_StateRoots b) dst) (\<lambda>dst.
      bindE (ExecutionPayloadHeaderDeneb_MarshalSSZTo F (st_LatestExecutionPayloadHeader b) dst) (\<lambda>dst.
      if length (st_Validators b) > 1099511627776 then Inl ErrListTooBig
      else bindE (marshal_each (Validator_MarshalSSZTo F) (st_Validators b) dst) (\<lambda>dst.
      if length (st_Balances b) > 1099511627776 then Inl ErrListTooBig
      else bindE (marshal_each (\<lambda>v dst. Inr (MarshalUint64 F dst v)) (st_Balances b) dst) (\<lambda>dst.
      if length (st_RandaoMixes b) > 65536 then Inl ErrListTooBig
      else bindE (marshal_each (\<lambda>r dst. Inr (dst @ r)) (st_RandaoMixes b) dst) (\<lambda>dst.
      if length (st_Slashings b) > 1099511627776 then Inl ErrListTooBig
      else marshal_each (\<lambda>v dst. Inr (MarshalUint64 F dst v)) (st_Slashings b) dst))))))))))"

definition BeaconState_MarshalSSZ :: "fastssz \<Rightarrow> BeaconState \<Rightarrow> err + bytes" where
  "BeaconState_MarshalSSZ F b = MarshalWith F (BeaconState_MarshalSSZTo F b)"

definition BeaconState_UnmarshalSSZ :: "fastssz \<Rightarrow> BeaconState \<Rightarrow> bytes \<Rightarrow> err + BeaconState" where
  "BeaconState_UnmarshalSSZ F b buf =
     (let size = of_nat (length buf) in
      if length buf < 300 then Inl ErrSize
      else bindE (Fork_UnmarshalSSZ F (sub 40 56 buf)) (\<lambda>fork.
      bindE (BeaconBlockHeader_UnmarshalSSZ F (sub 56 168 buf)) (\<lambda>header.
      let o4 = ReadOffset F (sub 168 172 buf) in
      if o4 > size then Inl ErrOffset
      else if o4 < 300 then Inl ErrInvalidVariableOffset
      else
      let o5 = ReadOffset F (sub 172 176 buf) in
      if o5 > size \<or> o4 > o5 then Inl ErrOffset
      else bindE (Eth1Data_UnmarshalSSZ F (sub 176 248 buf)) (\<lambda>eth1Data.
      let o8 = ReadOffset F (sub 256 260 buf) in
      if o8 > size \<or> o5 > o8 then Inl ErrOffset
      else
      let o9 = ReadOffset F (sub 260 264 buf) in
      if o9 > size \<or> o8 > o9 then Inl ErrOffset
      else
      let o10 = ReadOffset F (sub 264 268 buf) in
      if o10 > size \<or> o9 > o10 then Inl ErrOffset
      else
      let o11 = ReadOffset F (sub 268 272 buf) in
      if o11 > size \<or> o10 > o11 then Inl ErrOffset
      else
      let o14 = ReadOffset F (sub 288 292 buf) in
      if o14 > size \<or> o11 > o14 then Inl ErrOffset
      else bindE (unmarshal_each F Inr 32 8192 (sub (unat o4) (unat o5) buf)) (\<lambda>blockRoots.
      bindE (unmarshal_each F Inr 32 8192 (sub (unat o5) (unat o8) buf)) (\<lambda>stateRoots.
      bindE (ExecutionPayloadHeaderDeneb_UnmarshalSSZ F (st_LatestExecutionPayloadHeader b)
              (sub (unat o8) (unat o9) buf)) (\<lambda>payloadHeader.
      bindE (unmarshal_each F (Validator_UnmarshalSSZ F) 121 1099511627776
              (sub (unat o9) (unat o10) buf)) (\<lambda>validators.
      bindE (unmarshal_each F (\<lambda>b. Inr (UnmarshallUint64 F b)) 8 1099511627776
              (sub (unat o10) (unat o11) buf)) (\<lambda>balances.
      bindE (unmarshal_each F Inr 32 65536 (sub (unat o11) (unat o14) buf)) (\<lambda>randaoMixes.
      bindE (unmarshal_each F (\<lambda>b. Inr (UnmarshallUint64 F b)) 8 1099511627776
              (drop (unat o14) buf)) (\<lambda>slashings. Inr \<lparr>
        st_GenesisValidatorsRoot = sub 0 32 buf,
        st_Slot = UnmarshallUint64 F (sub 32 40 buf),
        st_Fork = fork,
        st_LatestBlockHeader = header,
        st_BlockRoots = blockRoots,
        st_StateRoots = stateRoots,
        st_Eth1Data = eth1Data,
        st_Eth1DepositIndex = UnmarshallUint64 F (sub 248 256 buf),
        st_LatestExecutionPayloadHeader = payloadHeader,
        st_Validators = validators,
        st_Balances = balances,
        st_RandaoMixes = randaoMixes,
        st_NextWithdrawalIndex = UnmarshallUint64 F (sub 272 280 buf),
        st_NextWithdrawalValidatorIndex = UnmarshallUint64 F (sub 280 288 buf),
        st_Slashings = slashings,
        st_TotalSlashing = UnmarshallUint64 F (sub 292 300 buf)\<rparr>)))))))))))"

subsection \<open>The layout\<close>

definition State_wf :: "BeaconState \<Rightarrow> bool" where
  "State_wf b \<longleftrightarrow>
     length (st_GenesisValidatorsRoot b) = 32 \<and> Fork_wf (st_Fork b) \<and>
     BeaconBlockHeader_wf (st_LatestBlockHeader b) \<and> Eth1Data_wf (st_Eth1Data b) \<and>
     PayloadHeader_wf (st_LatestExecutionPayloadHeader b) \<and>
     length (st_BlockRoots b) \<le> 8192 \<and> (\<forall>r \<in> set (st_BlockRoots b). length r = 32) \<and>
     length (st_StateRoots b) \<le> 8192 \<and> (\<forall>r \<in> set (st_StateRoots b). length r = 32) \<and>
     length (st_Validators b) \<le> 1099511627776 \<and> (\<forall>v \<in> set (st_Validators b). Validator_wf v) \<and>
     length (st_Balances b) \<le> 1099511627776 \<and>
     length (st_RandaoMixes b) \<le> 65536 \<and> (\<forall>r \<in> set (st_RandaoMixes b). length r = 32) \<and>
     length (st_Slashings b) \<le> 1099511627776"

text \<open>Where the variable-size fields start.\<close>

definition State_o5 :: "BeaconState \<Rightarrow> nat" where
  "State_o5 b = 300 + length (st_BlockRoots b) * 32"

definition State_o8 :: "BeaconState \<Rightarrow> nat" where
  "State_o8 b = State_o5 b + length (st_StateRoots b) * 32"

definition State_o9 :: "BeaconState \<Rightarrow> nat" where
  "State_o9 b = State_o8 b + ExecutionPayloadHeaderDeneb_SizeSSZ (st_LatestExecutionPayloadHeader b)"

definition State_o10 :: "BeaconState \<Rightarrow> nat" where
  "State_o10 b = State_o9 b + length (st_Validators b) * 121"

definition State_o11 :: "BeaconState \<Rightarrow> nat" where
  "State_o11 b = State_o10 b + length (st_Balances b) * 8"

definition State_o14 :: "BeaconState \<Rightarrow> nat" where
  "State_o14 b = State_o11 b + length (st_RandaoMixes b) * 32"

lemmas State_offsets = State_o5_def State_o8_def State_o9_def State_o10_def State_o11_def State_o14_def

definition State_fixed :: "BeaconState \<Rightarrow> bytes" where
  "State_fixed b =
     st_GenesisValidatorsRoot b @ le_bytes (st_Slot b) @ Fork_bytes (st_Fork b) @
     BeaconBlockHeader_bytes (st_LatestBlockHeader b) @ offset_bytes 300 @ offset_bytes (State_o5 b) @
     Eth1Data_bytes (st_Eth1Data b) @ le_bytes (st_Eth1DepositIndex b) @ offset_bytes (State_o8 b) @
     offset_bytes (State_o9 b) @ offset_bytes (State_o10 b) @ offset_bytes (State_o11 b) @
     le_bytes (st_NextWithdrawalIndex b) @ le_bytes (st_NextWithdrawalValidatorIndex b) @
     offset_bytes (State_o14 b) @ le_bytes (st_TotalSlashing b)"

definition State_bytes :: "BeaconState \<Rightarrow> bytes" where
  "State_bytes b = State_fixed b @ concat (st_BlockRoots b) @ concat (st_StateRoots b) @
     PayloadHeader_bytes (st_LatestExecutionPayloadHeader b) @
     concat (map Validator_bytes (st_Validators b)) @ concat (map le_bytes (st_Balances b)) @
     concat (st_RandaoMixes b) @ concat (map le_bytes (st_Slashings b))"

lemma length_concat_arrays: "\<forall>x \<in> set xs. length x = n \<Longrightarrow> length (concat xs) = length xs * n"
  using length_concat_fixed [of xs "\<lambda>x. x" n] by simp

lemma length_concat_u64: "length (concat (map le_bytes xs)) = length xs * 8"
  by (rule length_concat_fixed) simp

context fastssz_laws
begin

lemma State_marshal:
  assumes "State_wf b"
  shows "BeaconState_MarshalSSZTo F b buf = Inr (buf @ State_bytes b)"
proof -
  have each: "marshal_each (\<lambda>r dst. Inr (dst @ r)) rs dst = Inr (dst @ concat rs)" for rs dst
    using marshal_each_Inr [of "\<lambda>r dst. Inr (dst @ r)" "\<lambda>r. r"] by simp
  have u64s: "marshal_each (\<lambda>v dst. Inr (dst @ le_bytes v)) us dst = Inr (dst @ concat (map le_bytes us))"
    for us dst using marshal_each_Inr [of "\<lambda>v dst. Inr (dst @ le_bytes v)" le_bytes] by simp
  show ?thesis
    using assms marshal_each_Inr [of "Validator_MarshalSSZTo F" Validator_bytes, OF Validator_marshal]
    by (simp add: BeaconState_MarshalSSZTo_def State_wf_def State_bytes_def State_fixed_def State_offsets
        each u64s Fork_marshal BeaconBlockHeader_marshal Eth1Data_marshal PayloadHeader_marshal Let_def)
qed

lemma State_fixed_length: "State_wf b \<Longrightarrow> length (State_fixed b) = 300"
  by (simp add: State_wf_def State_fixed_def Fork.enc_length BeaconBlockHeader.enc_length
      Eth1Data.enc_length)

lemma State_part_lengths:
  assumes "State_wf b"
  shows "length (concat (st_BlockRoots b)) = length (st_BlockRoots b) * 32"
    "length (concat (st_StateRoots b)) = length (st_StateRoots b) * 32"
    "length (PayloadHeader_bytes (st_LatestExecutionPayloadHeader b)) =
       ExecutionPayloadHeaderDeneb_SizeSSZ (st_LatestExecutionPayloadHeader b)"
    "length (concat (map Validator_bytes (st_Validators b))) = length (st_Validators b) * 121"
    "length (concat (st_RandaoMixes b)) = length (st_RandaoMixes b) * 32"
  using assms Validator.list_length [of "st_Validators b"]
  by (simp_all add: State_wf_def length_concat_arrays PayloadHeader_length)

lemma State_length: "State_wf b \<Longrightarrow> length (State_bytes b) = BeaconState_SizeSSZ b"
  by (simp add: State_bytes_def State_fixed_length State_part_lengths length_concat_u64
      BeaconState_SizeSSZ_def)

text \<open>The slices of an encoding: its fixed fields, its offsets, its variable-size fields.\<close>

lemma State_fields:
  assumes "State_wf b"
  shows "sub 0 32 (State_bytes b) = st_GenesisValidatorsRoot b"
    "sub 32 40 (State_bytes b) = le_bytes (st_Slot b)"
    "sub 40 56 (State_bytes b) = Fork_bytes (st_Fork b)"
    "sub 56 168 (State_bytes b) = BeaconBlockHeader_bytes (st_LatestBlockHeader b)"
    "sub 176 248 (State_bytes b) = Eth1Data_bytes (st_Eth1Data b)"
    "sub 248 256 (State_bytes b) = le_bytes (st_Eth1DepositIndex b)"
    "sub 272 280 (State_bytes b) = le_bytes (st_NextWithdrawalIndex b)"
    "sub 280 288 (State_bytes b) = le_bytes (st_NextWithdrawalValidatorIndex b)"
    "sub 292 300 (State_bytes b) = le_bytes (st_TotalSlashing b)"
  using assms
  by (simp_all add: State_bytes_def State_fixed_def State_wf_def Fork.enc_length
      BeaconBlockHeader.enc_length Eth1Data.enc_length sub_simps)

lemma State_offset_slices:
  assumes "State_wf b"
  shows "sub 168 172 (State_bytes b) = offset_bytes 300"
    "sub 172 176 (State_bytes b) = offset_bytes (State_o5 b)"
    "sub 256 260 (State_bytes b) = offset_bytes (State_o8 b)"
    "sub 260 264 (State_bytes b) = offset_bytes (State_o9 b)"
    "sub 264 268 (State_bytes b) = offset_bytes (State_o10 b)"
    "sub 268 272 (State_bytes b) = offset_bytes (State_o11 b)"
    "sub 288 292 (State_bytes b) = offset_bytes (State_o14 b)"
  using assms
  by (simp_all add: State_bytes_def State_fixed_def State_wf_def Fork.enc_length
      BeaconBlockHeader.enc_length Eth1Data.enc_length sub_simps)

lemma State_parts:
  assumes "State_wf b"
  shows "sub 300 (State_o5 b) (State_bytes b) = concat (st_BlockRoots b)"
    "sub (State_o5 b) (State_o8 b) (State_bytes b) = concat (st_StateRoots b)"
    "sub (State_o8 b) (State_o9 b) (State_bytes b) = PayloadHeader_bytes (st_LatestExecutionPayloadHeader b)"
    "sub (State_o9 b) (State_o10 b) (State_bytes b) = concat (map Validator_bytes (st_Validators b))"
    "sub (State_o10 b) (State_o11 b) (State_bytes b) = concat (map le_bytes (st_Balances b))"
    "sub (State_o11 b) (State_o14 b) (State_bytes b) = concat (st_RandaoMixes b)"
    "drop (State_o14 b) (State_bytes b) = concat (map le_bytes (st_Slashings b))"
  using State_fixed_length [OF assms]
  by (simp_all add: State_bytes_def State_offsets State_part_lengths [OF assms] length_concat_u64 sub_simps)

lemma State_lists:
  assumes "State_wf b"
  shows "unmarshal_each F Inr 32 8192 (concat (st_BlockRoots b)) = Inr (st_BlockRoots b)"
    "unmarshal_each F Inr 32 8192 (concat (st_StateRoots b)) = Inr (st_StateRoots b)"
    "unmarshal_each F (Validator_UnmarshalSSZ F) 121 1099511627776
       (concat (map Validator_bytes (st_Validators b))) = Inr (st_Validators b)"
    "unmarshal_each F (\<lambda>b. Inr (UnmarshallUint64 F b)) 8 1099511627776
       (concat (map le_bytes (st_Balances b))) = Inr (st_Balances b)"
    "unmarshal_each F Inr 32 65536 (concat (st_RandaoMixes b)) = Inr (st_RandaoMixes b)"
    "unmarshal_each F (\<lambda>b. Inr (UnmarshallUint64 F b)) 8 1099511627776
       (concat (map le_bytes (st_Slashings b))) = Inr (st_Slashings b)"
  using assms
  by (simp_all add: State_wf_def unmarshal_each_arrays unmarshal_each_u64 unmarshal_each_enc
      Validator.enc_length Validator.dec_enc)

lemma State_containers:
  assumes "State_wf b" and "ph_LogsBloom r = []" "ph_ExtraData r = []"
  shows "Fork_UnmarshalSSZ F (Fork_bytes (st_Fork b)) = Inr (st_Fork b)"
    "BeaconBlockHeader_UnmarshalSSZ F (BeaconBlockHeader_bytes (st_LatestBlockHeader b)) =
       Inr (st_LatestBlockHeader b)"
    "Eth1Data_UnmarshalSSZ F (Eth1Data_bytes (st_Eth1Data b)) = Inr (st_Eth1Data b)"
    "ExecutionPayloadHeaderDeneb_UnmarshalSSZ F r (PayloadHeader_bytes (st_LatestExecutionPayloadHeader b)) =
       Inr (st_LatestExecutionPayloadHeader b)"
  using assms
  by (simp_all add: State_wf_def Fork.dec_enc BeaconBlockHeader.dec_enc Eth1Data.dec_enc
      PayloadHeader_roundtrip)

lemma State_roundtrip:
  assumes wf: "State_wf b" and small: "BeaconState_SizeSSZ b < 2 ^ 32"
    and fresh: "ph_LogsBloom (st_LatestExecutionPayloadHeader r) = []"
      "ph_ExtraData (st_LatestExecutionPayloadHeader r) = []"
  shows "BeaconState_UnmarshalSSZ F r (State_bytes b) = Inr b"
proof -
  have size: "length (State_bytes b) = State_o14 b + length (st_Slashings b) * 8"
    using State_length [OF wf] by (simp add: BeaconState_SizeSSZ_def State_offsets)
  have ord: "300 \<le> State_o5 b" "State_o5 b \<le> State_o8 b" "State_o8 b \<le> State_o9 b"
    "State_o9 b \<le> State_o10 b" "State_o10 b \<le> State_o11 b" "State_o11 b \<le> State_o14 b"
    "State_o14 b \<le> length (State_bytes b)"
    by (simp_all add: State_offsets size)
  have len: "length (State_bytes b) < 2 ^ 32" using small State_length [OF wf] by simp
  have bounds: "300 < (2 :: nat) ^ 32" "State_o5 b < 2 ^ 32" "State_o8 b < 2 ^ 32" "State_o9 b < 2 ^ 32"
    "State_o10 b < 2 ^ 32" "State_o11 b < 2 ^ 32" "State_o14 b < 2 ^ 32"
    using ord len by linarith+
  have first: "\<not> of_nat 300 < (300 :: u64)" by simp
  show ?thesis
    unfolding BeaconState_UnmarshalSSZ_def Let_def State_fields [OF wf] State_containers [OF wf fresh]
      bindE_simps State_offset_slices [OF wf] bounds [THEN read_write_offset] bounds [THEN unat_offset]
      offset_less_iff [OF len bounds(1)] offset_less_iff [OF len bounds(2)] offset_less_iff [OF len bounds(3)]
      offset_less_iff [OF len bounds(4)] offset_less_iff [OF len bounds(5)] offset_less_iff [OF len bounds(6)]
      offset_less_iff [OF len bounds(7)]
      offset_less_iff [OF bounds(2,1)] offset_less_iff [OF bounds(3,2)] offset_less_iff [OF bounds(4,3)]
      offset_less_iff [OF bounds(5,4)] offset_less_iff [OF bounds(6,5)] offset_less_iff [OF bounds(7,6)]
      State_parts [OF wf] State_lists [OF wf]
    using ord first by simp
qed

end

end
