(* ===== verification/SidecarCodec.thy ===== *)
theory SidecarCodec
  imports VarCodecs Blobs
begin

section \<open>The generated codecs of sidecars and of the genesis validators\<close>

text \<open>
  \<open>sidecar.ssz.go\<close> and \<open>sidecars.ssz.go\<close> of the data availability types and \<open>validators.ssz.go\<close> of the
  genesis command. A sidecar has a fixed size: its inclusion proof is a vector of exactly eight hashes,
  the depth of a proof under the maximum of 16 commitments per block. A nil header is encoded as the zero
  header; a nil sidecar in the list is dereferenced.
\<close>

subsection \<open>One sidecar\<close>

definition empty_BeaconBlockHeader :: BeaconBlockHeader where
  "empty_BeaconBlockHeader = \<lparr>hdr_Slot = 0, hdr_ProposerIndex = 0, hdr_ParentBlockRoot = zero32,
     hdr_StateRoot = zero32, hdr_BodyRoot = zero32\<rparr>"

definition or_new_BeaconBlockHeader :: "BeaconBlockHeader option \<Rightarrow> BeaconBlockHeader" where
  "or_new_BeaconBlockHeader h = (case h of None \<Rightarrow> empty_BeaconBlockHeader | Some h \<Rightarrow> h)"

definition BlobSidecar_SizeSSZ :: "BlobSidecar \<Rightarrow> nat" where
  "BlobSidecar_SizeSSZ b = 131544"

definition BlobSidecar_MarshalSSZTo :: "fastssz \<Rightarrow> BlobSidecar option \<Rightarrow> bytes \<Rightarrow> err + bytes" where
  "BlobSidecar_MarshalSSZTo F b buf =
     (case b of
        None \<Rightarrow> Inl (Panic ''nil pointer dereference'')
      | Some b \<Rightarrow>
          let dst = buf;
              dst = MarshalUint64 F dst (sc_Index b);
              dst = dst @ sc_Blob b;
              dst = dst @ sc_KzgCommitment b;
              dst = dst @ sc_KzgProof b in
          bindE (BeaconBlockHeader_MarshalSSZTo F (or_new_BeaconBlockHeader (sc_BeaconBlockHeader b)) dst) (\<lambda>dst.
          if length (sc_InclusionProof b) \<noteq> 8 then Inl ErrVectorLength
          else marshal_each (\<lambda>r dst. Inr (dst @ r)) (sc_InclusionProof b) dst))"

definition BlobSidecar_MarshalSSZ :: "fastssz \<Rightarrow> BlobSidecar option \<Rightarrow> err + bytes" where
  "BlobSidecar_MarshalSSZ F b = MarshalWith F (BlobSidecar_MarshalSSZTo F b)"

definition BlobSidecar_UnmarshalSSZ :: "fastssz \<Rightarrow> bytes \<Rightarrow> err + BlobSidecar" where
  "BlobSidecar_UnmarshalSSZ F buf =
     (if length buf \<noteq> 131544 then Inl ErrSize
      else bindE (BeaconBlockHeader_UnmarshalSSZ F (sub 131176 131288 buf)) (\<lambda>header. Inr \<lparr>
        sc_Index = UnmarshallUint64 F (sub 0 8 buf),
        sc_Blob = sub 8 131080 buf,
        sc_KzgCommitment = sub 131080 131128 buf,
        sc_KzgProof = sub 131128 131176 buf,
        sc_BeaconBlockHeader = Some header,
        sc_InclusionProof =
          map (\<lambda>ii. sub (ii * 32) ((ii + 1) * 32) (sub 131288 131544 buf)) [0..<8]\<rparr>))"

subsection \<open>Lists behind one offset\<close>

definition BlobSidecars_SizeSSZ :: "BlobSidecars \<Rightarrow> nat" where
  "BlobSidecars_SizeSSZ b = 4 + length (sidecar_list b) * 131544"

definition BlobSidecars_MarshalSSZTo :: "fastssz \<Rightarrow> BlobSidecars \<Rightarrow> bytes \<Rightarrow> err + bytes" where
  "BlobSidecars_MarshalSSZTo F b buf =
     (let dst = buf;
          offset = 4;
          dst = WriteOffset F dst offset in
      if length (sidecar_list b) > 6 then Inl ErrListTooBig
      else marshal_each (BlobSidecar_MarshalSSZTo F) (sidecar_list b) dst)"

definition BlobSidecars_MarshalSSZ :: "fastssz \<Rightarrow> BlobSidecars \<Rightarrow> err + bytes" where
  "BlobSidecars_MarshalSSZ F b = MarshalWith F (BlobSidecars_MarshalSSZTo F b)"

definition BlobSidecars_UnmarshalSSZ :: "fastssz \<Rightarrow> bytes \<Rightarrow> err + BlobSidecars" where
  "BlobSidecars_UnmarshalSSZ F buf =
     (let size = of_nat (length buf) in
      if length buf < 4 then Inl ErrSize
      else
      let o0 = ReadOffset F (sub 0 4 buf) in
      if o0 > size then Inl ErrOffset
      else if o0 < 4 then Inl ErrInvalidVariableOffset
      else bindE (unmarshal_each F (\<lambda>b. bindE (BlobSidecar_UnmarshalSSZ F b) (\<lambda>sc. Inr (Some sc)))
                    131544 6 (drop (unat o0) buf)) (\<lambda>sidecars.
      Inr \<lparr>Sidecars = Some sidecars\<rparr>))"

definition ValidatorsMarshaling_SizeSSZ :: "Validator list \<Rightarrow> nat" where
  "ValidatorsMarshaling_SizeSSZ v = 4 + length v * 121"

definition ValidatorsMarshaling_MarshalSSZTo :: "fastssz \<Rightarrow> Validator list \<Rightarrow> bytes \<Rightarrow> err + bytes" where
  "ValidatorsMarshaling_MarshalSSZTo F v buf =
     (let dst = buf;
          offset = 4;
          dst = WriteOffset F dst offset in
      if length v > 1099511627776 then Inl ErrListTooBig
      else marshal_each (Validator_MarshalSSZTo F) v dst)"

definition ValidatorsMarshaling_MarshalSSZ :: "fastssz \<Rightarrow> Validator list \<Rightarrow> err + bytes" where
  "ValidatorsMarshaling_MarshalSSZ F v = MarshalWith F (ValidatorsMarshaling_MarshalSSZTo F v)"

definition ValidatorsMarshaling_UnmarshalSSZ :: "fastssz \<Rightarrow> bytes \<Rightarrow> err + Validator list" where
  "ValidatorsMarshaling_UnmarshalSSZ F buf =
     (let size = of_nat (length buf) in
      if length buf < 4 then Inl ErrSize
      else
      let o0 = ReadOffset F (sub 0 4 buf) in
      if o0 > size then Inl ErrOffset
      else if o0 < 4 then Inl ErrInvalidVariableOffset
      else unmarshal_each F (Validator_UnmarshalSSZ F) 121 1099511627776 (drop (unat o0) buf))"

subsection \<open>Round trips\<close>

definition Sidecar_wf :: "BlobSidecar \<Rightarrow> bool" where
  "Sidecar_wf b \<longleftrightarrow>
     length (sc_Blob b) = 131072 \<and> length (sc_KzgCommitment b) = 48 \<and> length (sc_KzgProof b) = 48 \<and>
     BeaconBlockHeader_wf (or_new_BeaconBlockHeader (sc_BeaconBlockHeader b)) \<and>
     length (sc_InclusionProof b) = 8 \<and> (\<forall>r \<in> set (sc_InclusionProof b). length r = 32)"

definition Sidecar_bytes :: "BlobSidecar \<Rightarrow> bytes" where
  "Sidecar_bytes b = le_bytes (sc_Index b) @ sc_Blob b @ sc_KzgCommitment b @ sc_KzgProof b @
     BeaconBlockHeader_bytes (or_new_BeaconBlockHeader (sc_BeaconBlockHeader b)) @
     concat (sc_InclusionProof b)"

text \<open>A sidecar as the decoder gives it back: its header is no longer nil.\<close>

definition with_header :: "BlobSidecar \<Rightarrow> BlobSidecar" where
  "with_header b = b\<lparr>sc_BeaconBlockHeader := Some (or_new_BeaconBlockHeader (sc_BeaconBlockHeader b))\<rparr>"

lemma slices_of_concat:
  assumes "length xs = k" and "\<forall>x \<in> set xs. length x = n"
  shows "map (\<lambda>i. sub (i * n) ((i + 1) * n) (concat xs)) [0..<k] = xs"
proof -
  have "mapE (\<lambda>i. Inr (sub (i * n) ((i + 1) * n) (concat (map (\<lambda>x. x) xs)))) [0..<length xs] = (Inr xs :: err + _)"
    using assms mapE_slices [of xs "\<lambda>x. x" n Inr] by simp
  moreover have "mapE (\<lambda>i. Inr (f i)) js = (Inr (map f js) :: err + _)" for f :: "nat \<Rightarrow> bytes" and js
    by (induction js) simp_all
  ultimately show ?thesis using assms(1) by simp
qed

lemma with_header_simps [simp]:
  "with_header (with_header b) = with_header b" "Sidecar_wf (with_header b) = Sidecar_wf b"
  "Sidecar_bytes (with_header b) = Sidecar_bytes b"
  by (simp_all add: with_header_def Sidecar_wf_def Sidecar_bytes_def or_new_BeaconBlockHeader_def)

context fastssz_laws
begin

lemma Sidecar_marshal:
  assumes "Sidecar_wf b"
  shows "BlobSidecar_MarshalSSZTo F (Some b) buf = Inr (buf @ Sidecar_bytes b)"
  using assms marshal_each_Inr [of "\<lambda>r dst. Inr (dst @ r)" "\<lambda>r. r"]
  by (simp add: BlobSidecar_MarshalSSZTo_def Sidecar_wf_def Sidecar_bytes_def BeaconBlockHeader_marshal)

lemma Sidecar_length: "Sidecar_wf b \<Longrightarrow> length (Sidecar_bytes b) = 131544"
  using length_concat_fixed [of "sc_InclusionProof b" "\<lambda>r. r" 32]
  by (simp add: Sidecar_wf_def Sidecar_bytes_def BeaconBlockHeader.enc_length)

lemma Sidecar_roundtrip:
  assumes "Sidecar_wf b"
  shows "BlobSidecar_UnmarshalSSZ F (Sidecar_bytes b) = Inr (with_header b)"
proof -
  have n: "length (concat (sc_InclusionProof b)) = 256"
    using assms length_concat_fixed [of "sc_InclusionProof b" "\<lambda>r. r" 32] by (simp add: Sidecar_wf_def)
  then have parts: "sub 0 8 (Sidecar_bytes b) = le_bytes (sc_Index b)" "sub 8 131080 (Sidecar_bytes b) = sc_Blob b"
    "sub 131080 131128 (Sidecar_bytes b) = sc_KzgCommitment b"
    "sub 131128 131176 (Sidecar_bytes b) = sc_KzgProof b"
    "sub 131176 131288 (Sidecar_bytes b) =
       BeaconBlockHeader_bytes (or_new_BeaconBlockHeader (sc_BeaconBlockHeader b))"
    "sub 131288 131544 (Sidecar_bytes b) = concat (sc_InclusionProof b)"
    using assms by (simp_all add: Sidecar_bytes_def Sidecar_wf_def BeaconBlockHeader.enc_length sub_simps)
  have "map (\<lambda>ii. sub (ii * 32) ((ii + 1) * 32) (concat (sc_InclusionProof b))) [0..<8] = sc_InclusionProof b"
    using assms by (intro slices_of_concat) (simp_all add: Sidecar_wf_def)
  with assms parts Sidecar_length [OF assms] show ?thesis
    by (simp add: BlobSidecar_UnmarshalSSZ_def BeaconBlockHeader.dec_enc Sidecar_wf_def with_header_def
        del: upt_rec_numeral)
qed

text \<open>Lists of elements of \<open>n\<close> bytes behind the single offset 4.\<close>

lemma single_offset:
  assumes "length body + 4 < 2 ^ 32"
  shows "ReadOffset F (sub 0 4 (offset_bytes 4 @ body)) = 4"
    "\<not> of_nat (length (offset_bytes 4 @ body)) < (4 :: u64)" "drop (unat (4 :: u64)) (offset_bytes 4 @ body) = body"
proof -
  show "ReadOffset F (sub 0 4 (offset_bytes 4 @ body)) = 4"
    using read_write_offset [of 4] by (simp add: sub_simps)
  show "\<not> of_nat (length (offset_bytes 4 @ body)) < (4 :: u64)"
    using assms offset_less_iff [of "length body + 4" 4] by (simp add: add.commute)
qed simp

lemma Sidecars_marshal_each:
  "\<forall>b \<in> set scs. Sidecar_wf b \<Longrightarrow>
   marshal_each (BlobSidecar_MarshalSSZTo F) (map Some scs) dst = Inr (dst @ concat (map Sidecar_bytes scs))"
  by (induction scs arbitrary: dst) (simp_all add: Sidecar_marshal)

lemma Sidecars_roundtrip:
  assumes wf: "\<forall>b \<in> set scs. Sidecar_wf b" and n: "length scs \<le> 6"
  defines "bz \<equiv> offset_bytes 4 @ concat (map Sidecar_bytes scs)"
  shows "BlobSidecars_MarshalSSZ F \<lparr>Sidecars = Some (map Some scs)\<rparr> = Inr bz"
    "length bz = BlobSidecars_SizeSSZ \<lparr>Sidecars = Some (map Some scs)\<rparr>"
    "BlobSidecars_UnmarshalSSZ F bz = Inr \<lparr>Sidecars = Some (map (Some \<circ> with_header) scs)\<rparr>"
proof -
  show "BlobSidecars_MarshalSSZ F \<lparr>Sidecars = Some (map Some scs)\<rparr> = Inr bz"
    using n wf by (simp add: Sidecars_marshal_each BlobSidecars_MarshalSSZ_def BlobSidecars_MarshalSSZTo_def sidecar_list_def bz_def)
  have len: "length (concat (map Sidecar_bytes scs)) = length scs * 131544"
    using wf by (intro length_concat_fixed) (simp add: Sidecar_length)
  then show "length bz = BlobSidecars_SizeSSZ \<lparr>Sidecars = Some (map Some scs)\<rparr>"
    by (simp add: bz_def BlobSidecars_SizeSSZ_def sidecar_list_def)
  let ?dec = "\<lambda>b. bindE (BlobSidecar_UnmarshalSSZ F b) (\<lambda>sc. Inr (Some sc))"
  have "unmarshal_each F ?dec 131544 6 (concat (map (Sidecar_bytes \<circ> the) (map (Some \<circ> with_header) scs))) =
      Inr (map (Some \<circ> with_header) scs)"
  proof (rule unmarshal_each_enc)
    fix x assume "x \<in> set (map (Some \<circ> with_header) scs)"
    then obtain b where b: "x = Some (with_header b)" "Sidecar_wf b" using wf by auto
    then show "length ((Sidecar_bytes \<circ> the) x) = 131544 \<and> ?dec ((Sidecar_bytes \<circ> the) x) = Inr x"
      by (simp add: Sidecar_length Sidecar_roundtrip)
  qed (use n in simp_all)
  moreover have "concat (map (Sidecar_bytes \<circ> the) (map (Some \<circ> with_header) scs)) = concat (map Sidecar_bytes scs)"
    by (simp add: comp_def)
  ultimately show "BlobSidecars_UnmarshalSSZ F bz = Inr \<lparr>Sidecars = Some (map (Some \<circ> with_header) scs)\<rparr>"
    using single_offset [of "concat (map Sidecar_bytes scs)"] len n
    by (simp add: BlobSidecars_UnmarshalSSZ_def bz_def)
qed

lemma Validators_roundtrip:
  assumes wf: "\<forall>v \<in> set vs. Validator_wf v" and n: "length vs * 121 + 4 < 2 ^ 32"
  shows "\<exists>bz. ValidatorsMarshaling_MarshalSSZ F vs = Inr bz \<and> length bz = ValidatorsMarshaling_SizeSSZ vs \<and>
    ValidatorsMarshaling_UnmarshalSSZ F bz = Inr vs"
proof (intro exI conjI)
  have small: "length vs \<le> 1099511627776" using n by simp
  have len: "length (concat (map Validator_bytes vs)) = length vs * 121"
    by (rule Validator.list_length [OF wf])
  show "ValidatorsMarshaling_MarshalSSZ F vs = Inr (offset_bytes 4 @ concat (map Validator_bytes vs))"
    using small marshal_each_Inr [of "Validator_MarshalSSZTo F" Validator_bytes, OF Validator_marshal]
    by (simp add: ValidatorsMarshaling_MarshalSSZ_def ValidatorsMarshaling_MarshalSSZTo_def)
  show "length (offset_bytes 4 @ concat (map Validator_bytes vs)) = ValidatorsMarshaling_SizeSSZ vs"
    by (simp add: len ValidatorsMarshaling_SizeSSZ_def)
  have "unmarshal_each F (Validator_UnmarshalSSZ F) 121 1099511627776 (concat (map Validator_bytes vs)) = Inr vs"
    using wf small by (intro unmarshal_each_enc) (simp_all add: Validator.enc_length Validator.dec_enc)
  then show "ValidatorsMarshaling_UnmarshalSSZ F (offset_bytes 4 @ concat (map Validator_bytes vs)) = Inr vs"
    using single_offset [of "concat (map Validator_bytes vs)"] len n
    by (simp add: ValidatorsMarshaling_UnmarshalSSZ_def)
qed

end

end
