(* ===== verification/CodecProps.thy ===== *)
theory CodecProps
  imports StateCodec SidecarCodec Demo
begin

section \<open>The codecs over every implementation of the library\<close>

text \<open>
  The properties of the generated codecs, for every library with the laws of \<open>fastssz_laws\<close>: which
  byte strings the fixed-size decoders accept, the round trips of blocks, states and sidecars, and the
  encoding of the sidecars that a proposer builds.
\<close>

text \<open>Receivers as the code allocates them: byte slices are empty.\<close>

definition new_payload :: "ExecutableDataDeneb \<Rightarrow> bool" where
  "new_payload e \<longleftrightarrow> pl_LogsBloom e = [] \<and> pl_ExtraData e = []"

definition new_payload_header :: "ExecutionPayloadHeaderDeneb \<Rightarrow> bool" where
  "new_payload_header e \<longleftrightarrow> ph_LogsBloom e = [] \<and> ph_ExtraData e = []"

text \<open>The byte of a boolean at position \<open>k\<close> as an encoder writes it.\<close>

definition normal_bool :: "nat \<Rightarrow> bytes \<Rightarrow> bytes" where
  "normal_bool k bz = bz[k := if bz ! k = 1 then 1 else 0]"

lemma concat_slices8:
  assumes "length X = 256"
  shows "concat (map (\<lambda>i. sub (i * 32) ((i + 1) * 32) X) [0..<8]) = X"
  using assms by (simp add: upt_rec sub_joins)

context fastssz_laws
begin

lemma ForkData_canonical: "ForkData_UnmarshalSSZ F bz = Inr fd \<longleftrightarrow> ForkData_wf fd \<and> ForkData_MarshalSSZ F fd = Inr bz"
  by (auto simp: ForkData.dec_iff ForkData_MarshalSSZ_def ForkData_marshal)

lemma SigningData_canonical: "SigningData_UnmarshalSSZ F bz = Inr sd \<longleftrightarrow> SigningData_wf sd \<and> SigningData_MarshalSSZ F sd = Inr bz"
  by (auto simp: SigningData.dec_iff SigningData_MarshalSSZ_def SigningData_marshal)

lemma Fork_canonical: "Fork_UnmarshalSSZ F bz = Inr fk \<longleftrightarrow> Fork_wf fk \<and> Fork_MarshalSSZ F fk = Inr bz"
  by (auto simp: Fork.dec_iff Fork_MarshalSSZ_def Fork_marshal)

lemma Eth1Data_canonical: "Eth1Data_UnmarshalSSZ F bz = Inr ed \<longleftrightarrow> Eth1Data_wf ed \<and> Eth1Data_MarshalSSZ F ed = Inr bz"
  by (auto simp: Eth1Data.dec_iff Eth1Data_MarshalSSZ_def Eth1Data_marshal)

lemma DepositMessage_canonical: "DepositMessage_UnmarshalSSZ F bz = Inr dm \<longleftrightarrow> DepositMessage_wf dm \<and> DepositMessage_MarshalSSZ F dm = Inr bz"
  by (auto simp: DepositMessage.dec_iff DepositMessage_MarshalSSZ_def DepositMessage_marshal)

lemma Deposit_canonical: "Deposit_UnmarshalSSZ F bz = Inr d \<longleftrightarrow> Deposit_wf d \<and> Deposit_MarshalSSZ F d = Inr bz"
  by (auto simp: Deposit.dec_iff Deposit_MarshalSSZ_def Deposit_marshal)

lemma BeaconBlockHeader_canonical: "BeaconBlockHeader_UnmarshalSSZ F bz = Inr h \<longleftrightarrow> BeaconBlockHeader_wf h \<and> BeaconBlockHeader_MarshalSSZ F h = Inr bz"
  by (auto simp: BeaconBlockHeader.dec_iff BeaconBlockHeader_MarshalSSZ_def BeaconBlockHeader_marshal)

lemma Withdrawal_canonical: "Withdrawal_UnmarshalSSZ F bz = Inr w \<longleftrightarrow> Withdrawal_wf w \<and> Withdrawal_MarshalSSZ F w = Inr bz"
  by (auto simp: Withdrawal.dec_iff Withdrawal_MarshalSSZ_def Withdrawal_marshal)

lemma Validator_decoded:
  assumes "length bz = 121"
  obtains v where "Validator_UnmarshalSSZ F bz = Inr v" and "Validator_wf v" and "Validator_bytes v = normal_bool 88 bz"
proof
  let ?v = "projr (Validator_UnmarshalSSZ F bz)"
  show "Validator_UnmarshalSSZ F bz = Inr ?v" using assms by (simp add: Validator_UnmarshalSSZ_def)
  show "Validator_wf ?v" using assms by (simp add: Validator_UnmarshalSSZ_def Validator_wf_def length_sub)
  have "sub 88 89 bz = [bz ! 88]" using assms by (simp add: sub_def take_Suc_conv_app_nth drop_take Cons_nth_drop_Suc [symmetric])
  moreover have "normal_bool 88 bz = sub 0 88 bz @ [if bz ! 88 = 1 then 1 else 0] @ sub 89 121 bz"
    using assms by (simp add: normal_bool_def upd_conv_take_nth_drop sub_def)
  ultimately show "Validator_bytes ?v = normal_bool 88 bz"
    using assms by (simp add: Validator_UnmarshalSSZ_def Validator_bytes_def length_sub marshal_unmarshal_uint64 sub_joins)
qed

lemma Validator_accepted: "Validator_UnmarshalSSZ F bz = Inr v \<longleftrightarrow>
    length bz = 121 \<and> Validator_wf v \<and> Validator_MarshalSSZ F v = Inr (normal_bool 88 bz)"
proof (cases "length bz = 121")
  case True
  from Validator_decoded [OF this] obtain v' where v': "Validator_UnmarshalSSZ F bz = Inr v'" "Validator_wf v'"
    "Validator_bytes v' = normal_bool 88 bz" .
  with True Validator.enc_inj [OF _ v'(2), of v] show ?thesis
    by (auto simp: Validator_MarshalSSZ_def Validator_marshal)
qed (simp add: Validator_UnmarshalSSZ_def)

lemma BlobSidecar_canonical: "BlobSidecar_UnmarshalSSZ F bz = Inr sc \<longleftrightarrow>
    Sidecar_wf sc \<and> sc_BeaconBlockHeader sc \<noteq> None \<and> BlobSidecar_MarshalSSZ F (Some sc) = Inr bz"
proof
  assume dec: "BlobSidecar_UnmarshalSSZ F bz = Inr sc"
  then have len: "length bz = 131544" by (auto simp: BlobSidecar_UnmarshalSSZ_def split: if_splits)
  then obtain h where h: "BeaconBlockHeader_wf h" "BeaconBlockHeader_UnmarshalSSZ F (sub 131176 131288 bz) = Inr h"
      "BeaconBlockHeader_bytes h = sub 131176 131288 bz"
    using BeaconBlockHeader.dec_total [of "sub 131176 131288 bz"] by (auto simp: length_sub)
  from dec len h have sc: "sc = \<lparr>sc_Index = UnmarshallUint64 F (sub 0 8 bz), sc_Blob = sub 8 131080 bz,
      sc_KzgCommitment = sub 131080 131128 bz, sc_KzgProof = sub 131128 131176 bz, sc_BeaconBlockHeader = Some h,
      sc_InclusionProof = map (\<lambda>ii. sub (ii * 32) ((ii + 1) * 32) (sub 131288 131544 bz)) [0..<8]\<rparr>"
    by (simp add: BlobSidecar_UnmarshalSSZ_def)
  have wf: "Sidecar_wf sc"
    using len h(1) by (auto simp: sc Sidecar_wf_def or_new_BeaconBlockHeader_def length_sub)
  have "concat (sc_InclusionProof sc) = sub 131288 131544 bz"
    unfolding sc by (simp only: BlobSidecar.simps) (rule concat_slices8, simp add: len length_sub)
  then have "Sidecar_bytes sc = bz"
    using len h(3) by (simp add: Sidecar_bytes_def sc or_new_BeaconBlockHeader_def length_sub marshal_unmarshal_uint64 sub_joins)
  with wf show "Sidecar_wf sc \<and> sc_BeaconBlockHeader sc \<noteq> None \<and> BlobSidecar_MarshalSSZ F (Some sc) = Inr bz"
    using Sidecar_marshal [OF wf, of "[]"] by (simp add: BlobSidecar_MarshalSSZ_def sc)
next
  assume "Sidecar_wf sc \<and> sc_BeaconBlockHeader sc \<noteq> None \<and> BlobSidecar_MarshalSSZ F (Some sc) = Inr bz"
  then show "BlobSidecar_UnmarshalSSZ F bz = Inr sc"
    using Sidecar_marshal [of sc "[]"] Sidecar_roundtrip [of sc]
    by (auto simp: BlobSidecar_MarshalSSZ_def with_header_def or_new_BeaconBlockHeader_def)
qed

lemmas canonical = ForkData_canonical SigningData_canonical Fork_canonical Eth1Data_canonical
  DepositMessage_canonical Deposit_canonical BeaconBlockHeader_canonical Withdrawal_canonical
  BlobSidecar_canonical Validator_accepted

end

text \<open>
  C17. Which byte strings the decoders of the fixed-size containers accept. For all of them but \<open>Validator\<close> a string is
  decoded to a value exactly when it is the encoding of this value, whose byte arrays have the lengths of their
  types (and whose header, for a sidecar, is not nil): no other string is accepted and no two strings denote the same
  value. The decoder of \<open>Validator\<close> accepts every string of 121 bytes; the value it gives encodes to this string
  with the byte of \<open>Slashed\<close> set to 0 unless it is 1, so it is canonical on the strings whose byte is 0 or 1 only.
\<close>

theorem fixed_codecs_accept:
  assumes "fastssz_laws F"
  shows "(ForkData_UnmarshalSSZ F bz = Inr fd \<longleftrightarrow> ForkData_wf fd \<and> ForkData_MarshalSSZ F fd = Inr bz) \<and>
    (SigningData_UnmarshalSSZ F bz = Inr sd \<longleftrightarrow> SigningData_wf sd \<and> SigningData_MarshalSSZ F sd = Inr bz) \<and>
    (Fork_UnmarshalSSZ F bz = Inr fk \<longleftrightarrow> Fork_wf fk \<and> Fork_MarshalSSZ F fk = Inr bz) \<and>
    (Eth1Data_UnmarshalSSZ F bz = Inr ed \<longleftrightarrow> Eth1Data_wf ed \<and> Eth1Data_MarshalSSZ F ed = Inr bz) \<and>
    (DepositMessage_UnmarshalSSZ F bz = Inr dm \<longleftrightarrow> DepositMessage_wf dm \<and> DepositMessage_MarshalSSZ F dm = Inr bz) \<and>
    (Deposit_UnmarshalSSZ F bz = Inr d \<longleftrightarrow> Deposit_wf d \<and> Deposit_MarshalSSZ F d = Inr bz) \<and>
    (BeaconBlockHeader_UnmarshalSSZ F bz = Inr h \<longleftrightarrow> BeaconBlockHeader_wf h \<and> BeaconBlockHeader_MarshalSSZ F h = Inr bz) \<and>
    (Withdrawal_UnmarshalSSZ F bz = Inr w \<longleftrightarrow> Withdrawal_wf w \<and> Withdrawal_MarshalSSZ F w = Inr bz) \<and>
    (BlobSidecar_UnmarshalSSZ F bz = Inr sc \<longleftrightarrow>
       Sidecar_wf sc \<and> sc_BeaconBlockHeader sc \<noteq> None \<and> BlobSidecar_MarshalSSZ F (Some sc) = Inr bz) \<and>
    (Validator_UnmarshalSSZ F bz = Inr v \<longleftrightarrow>
       length bz = 121 \<and> Validator_wf v \<and> Validator_MarshalSSZ F v = Inr (normal_bool 88 bz))"
  using fastssz_laws.canonical [OF assms] by (intro conjI)

theorem fixed_codecs_accept_witness:
  "(\<exists>bz. Fork_MarshalSSZ reference_fastssz (NewFork [4, 0, 0, 0] [4, 0, 0, 0] 1) = Inr bz \<and>
     Fork_UnmarshalSSZ reference_fastssz bz = Inr (NewFork [4, 0, 0, 0] [4, 0, 0, 0] 1)) \<and>
   (\<exists>v. Validator_UnmarshalSSZ reference_fastssz (replicate 121 2) = Inr v \<and>
     Validator_MarshalSSZ reference_fastssz v = Inr ((replicate 121 2)[88 := 0]))"
proof (intro conjI)
  note accept = fixed_codecs_accept [OF ref_ssz.fastssz_laws_axioms]
  let ?f = "NewFork [4, 0, 0, 0] [4, 0, 0, 0] 1"
  have "Fork_MarshalSSZ reference_fastssz ?f = Inr (Fork_bytes ?f)"
    by (simp add: Fork_MarshalSSZ_def ref_ssz.Fork_marshal)
  moreover have "Fork_wf ?f" by (simp add: Fork_wf_def NewFork_def)
  ultimately show "\<exists>bz. Fork_MarshalSSZ reference_fastssz ?f = Inr bz \<and> Fork_UnmarshalSSZ reference_fastssz bz = Inr ?f"
    using accept [of "Fork_bytes ?f" _ _ ?f] by auto
  obtain v where "Validator_UnmarshalSSZ reference_fastssz (replicate 121 2) = Inr v"
    by (simp add: Validator_UnmarshalSSZ_def)
  moreover from this have "Validator_MarshalSSZ reference_fastssz v = Inr ((replicate 121 2)[88 := 0])"
    using accept [of "replicate 121 2" _ _ _ _ _ _ _ _ _ v] by (simp add: normal_bool_def)
  ultimately show "\<exists>v. Validator_UnmarshalSSZ reference_fastssz (replicate 121 2) = Inr v \<and>
      Validator_MarshalSSZ reference_fastssz v = Inr ((replicate 121 2)[88 := 0])" by blast
qed

text \<open>
  C15. A block survives its encoding. Encoding a block whose byte arrays have the lengths of their
  types and whose lists are within their limits gives \<open>SizeSSZ\<close> bytes; if these are less than
  4 GiB, decoding them into a new block gives the block back, except that a nil \<open>Eth1Data\<close> has
  become the zero value. The decoder also accepts every byte string with a gap of unused bytes
  before the body that its offset skips, so several byte strings decode to the same block.
\<close>

theorem block_roundtrip:
  assumes "fastssz_laws F" and "Block_wf b"
    and "BeaconBlockDeneb_SizeSSZ b + length gap < 2 ^ 32" and "new_payload (bd_ExecutionPayload (blk_Body r))"
  shows "\<exists>bz. BeaconBlockDeneb_MarshalSSZ F b = Inr bz \<and> length bz = BeaconBlockDeneb_SizeSSZ b \<and>
    BeaconBlockDeneb_UnmarshalSSZ F r bz = Inr (b\<lparr>blk_Body := with_Eth1Data (blk_Body b)\<rparr>) \<and>
    BeaconBlockDeneb_UnmarshalSSZ F r (take 80 bz @ offset_bytes (84 + length gap) @ gap @ drop 84 bz) =
      Inr (b\<lparr>blk_Body := with_Eth1Data (blk_Body b)\<rparr>)"
proof (intro exI conjI)
  show "BeaconBlockDeneb_MarshalSSZ F b = Inr (Block_bytes b)"
    using assms(2) by (simp add: BeaconBlockDeneb_MarshalSSZ_def fastssz_laws.marshal_with [OF assms(1)]
        fastssz_laws.Block_marshal [OF assms(1)])
  show "length (Block_bytes b) = BeaconBlockDeneb_SizeSSZ b"
    by (rule fastssz_laws.Block_length [OF assms(1,2)])
  show "BeaconBlockDeneb_UnmarshalSSZ F r (Block_bytes b) = Inr (b\<lparr>blk_Body := with_Eth1Data (blk_Body b)\<rparr>)"
    using assms(3,4) by (intro fastssz_laws.Block_roundtrip [OF assms(1,2)]) (simp_all add: new_payload_def)
  have "take 80 (Block_bytes b) = le_bytes (blk_Slot b) @ le_bytes (blk_ProposerIndex b) @
      blk_ParentBlockRoot b @ blk_StateRoot b" "drop 84 (Block_bytes b) = Body_bytes (blk_Body b)"
    using assms(2) by (simp_all add: Block_wf_def Block_bytes_def)
  then show "BeaconBlockDeneb_UnmarshalSSZ F r
      (take 80 (Block_bytes b) @ offset_bytes (84 + length gap) @ gap @ drop 84 (Block_bytes b)) =
      Inr (b\<lparr>blk_Body := with_Eth1Data (blk_Body b)\<rparr>)"
    using fastssz_laws.Block_decode_gap [OF assms(1-3), of r] assms(4) by (simp add: new_payload_def)
qed

definition blank_body :: BeaconBlockBodyDeneb where
  "blank_body = demo_body\<lparr>bd_ExecutionPayload := (bd_ExecutionPayload demo_body)
     \<lparr>pl_LogsBloom := [], pl_ExtraData := []\<rparr>\<rparr>"

lemma demo_block_wf: "Block_wf demo_block"
  by (simp add: Block_wf_def Body_wf_def Payload_wf_def or_new_Eth1Data_def empty_Eth1Data_def
      Eth1Data_wf_def Withdrawal_wf_def demo_block_def demo_body_def demo_withdrawals_def)

lemma demo_block_size: "BeaconBlockDeneb_SizeSSZ demo_block < 2000"
  by (simp add: BeaconBlockDeneb_SizeSSZ_def BeaconBlockBodyDeneb_SizeSSZ_def
      ExecutableDataDeneb_SizeSSZ_def demo_block_def demo_body_def demo_withdrawals_def)

theorem block_roundtrip_witness:
  "\<exists>bz. BeaconBlockDeneb_MarshalSSZ reference_fastssz demo_block = Inr bz \<and>
     BeaconBlockDeneb_UnmarshalSSZ reference_fastssz (demo_block\<lparr>blk_Body := blank_body\<rparr>) bz =
       Inr (demo_block\<lparr>blk_Body := with_Eth1Data (blk_Body demo_block)\<rparr>)"
proof -
  have "new_payload (bd_ExecutionPayload (blk_Body (demo_block\<lparr>blk_Body := blank_body\<rparr>)))"
    by (simp add: new_payload_def blank_body_def)
  then show ?thesis
    using block_roundtrip [OF ref_ssz.fastssz_laws_axioms demo_block_wf, of "[0]" "demo_block\<lparr>blk_Body := blank_body\<rparr>"]
      demo_block_size by auto
qed

text \<open>
  C16. The beacon state survives its encoding. Encoding a state whose byte arrays have the lengths of
  their types and whose lists are within their limits gives \<open>SizeSSZ\<close> bytes; if these are less than
  4 GiB, decoding them into a new state, whatever lists the receiver has, gives the state back.
\<close>

theorem state_roundtrip:
  assumes "fastssz_laws F" and "State_wf b" and "BeaconState_SizeSSZ b < 2 ^ 32"
    and "new_payload_header (st_LatestExecutionPayloadHeader r)"
  shows "\<exists>bz. BeaconState_MarshalSSZ F b = Inr bz \<and> length bz = BeaconState_SizeSSZ b \<and>
    BeaconState_UnmarshalSSZ F r bz = Inr b"
proof (intro exI conjI)
  show "BeaconState_MarshalSSZ F b = Inr (State_bytes b)"
    using assms(2) by (simp add: BeaconState_MarshalSSZ_def fastssz_laws.marshal_with [OF assms(1)]
        fastssz_laws.State_marshal [OF assms(1)])
  show "length (State_bytes b) = BeaconState_SizeSSZ b"
    by (rule fastssz_laws.State_length [OF assms(1,2)])
  show "BeaconState_UnmarshalSSZ F r (State_bytes b) = Inr b"
    using assms(4) by (intro fastssz_laws.State_roundtrip [OF assms(1-3)]) (simp_all add: new_payload_header_def)
qed

definition demo_state :: BeaconState where
  "demo_state = \<lparr>st_GenesisValidatorsRoot = zero32, st_Slot = 3,
     st_Fork = NewFork [4, 0, 0, 0] [4, 0, 0, 0] 0,
     st_LatestBlockHeader = NewBeaconBlockHeader 3 0 zero32 zero32 zero32,
     st_BlockRoots = [zero32, zero32], st_StateRoots = [zero32, zero32],
     st_Eth1Data = NewEth1Data zero32 0 zero32, st_Eth1DepositIndex = 0,
     st_LatestExecutionPayloadHeader = demo_payload_header, st_Validators = [demo_validator 1, demo_validator 2],
     st_Balances = [32000000000, 33000000000], st_RandaoMixes = [zero32],
     st_NextWithdrawalIndex = 0, st_NextWithdrawalValidatorIndex = 1, st_Slashings = [0], st_TotalSlashing = 0\<rparr>"

lemma demo_state_wf: "State_wf demo_state"
  by (simp add: State_wf_def demo_state_def Fork_wf_def NewFork_def BeaconBlockHeader_wf_def
      NewBeaconBlockHeader_def Eth1Data_wf_def NewEth1Data_def PayloadHeader_wf_def demo_payload_header_def
      Validator_wf_def demo_validator_def NewCredentialsFromExecutionAddress_def)

theorem state_roundtrip_witness:
  "\<exists>bz. BeaconState_MarshalSSZ reference_fastssz demo_state = Inr bz \<and>
     BeaconState_UnmarshalSSZ reference_fastssz (demo_state\<lparr>st_LatestExecutionPayloadHeader :=
       demo_payload_header\<lparr>ph_LogsBloom := [], ph_ExtraData := []\<rparr>\<rparr>) bz = Inr demo_state"
proof -
  have "BeaconState_SizeSSZ demo_state < 2 ^ 32"
    by (simp add: BeaconState_SizeSSZ_def ExecutionPayloadHeaderDeneb_SizeSSZ_def demo_state_def
        demo_payload_header_def)
  then show ?thesis
    using state_roundtrip [OF ref_ssz.fastssz_laws_axioms demo_state_wf,
        of "demo_state\<lparr>st_LatestExecutionPayloadHeader := demo_payload_header\<lparr>ph_LogsBloom := [], ph_ExtraData := []\<rparr>\<rparr>"]
    by (auto simp: new_payload_header_def)
qed

text \<open>
  Sidecars survive their encoding: up to six sidecars, each with a blob of 131072 bytes and an
  inclusion proof of exactly eight hashes, are encoded into \<open>SizeSSZ\<close> bytes and decoded back, nil
  headers as the zero header. A sidecar with a proof of another length is refused by the encoder and
  the encoding of a list with a nil sidecar panics.
\<close>

theorem sidecars_roundtrip:
  assumes "fastssz_laws F" and "\<forall>b \<in> set scs. Sidecar_wf b" and "length scs < 6"
    and "length (sc_InclusionProof bad) \<noteq> 8"
  shows "(\<exists>bz. BlobSidecars_MarshalSSZ F \<lparr>Sidecars = Some (map Some scs)\<rparr> = Inr bz \<and>
      length bz = BlobSidecars_SizeSSZ \<lparr>Sidecars = Some (map Some scs)\<rparr> \<and>
      BlobSidecars_UnmarshalSSZ F bz = Inr \<lparr>Sidecars = Some (map (Some \<circ> with_header) scs)\<rparr>) \<and>
    BlobSidecars_MarshalSSZ F \<lparr>Sidecars = Some (map Some scs @ [Some bad])\<rparr> = Inl ErrVectorLength \<and>
    BlobSidecars_MarshalSSZ F \<lparr>Sidecars = Some (map Some scs @ [None])\<rparr> =
      Inl (Panic ''nil pointer dereference'')"
proof (intro conjI)
  show "\<exists>bz. BlobSidecars_MarshalSSZ F \<lparr>Sidecars = Some (map Some scs)\<rparr> = Inr bz \<and>
      length bz = BlobSidecars_SizeSSZ \<lparr>Sidecars = Some (map Some scs)\<rparr> \<and>
      BlobSidecars_UnmarshalSSZ F bz = Inr \<lparr>Sidecars = Some (map (Some \<circ> with_header) scs)\<rparr>"
    using fastssz_laws.Sidecars_roundtrip [OF assms(1,2)] assms(3) by auto
  note unfold = BlobSidecars_MarshalSSZ_def BlobSidecars_MarshalSSZTo_def sidecar_list_def
    fastssz_laws.marshal_with [OF assms(1)] marshal_each_append
    fastssz_laws.Sidecars_marshal_each [OF assms(1,2)] BlobSidecar_MarshalSSZTo_def
  show "BlobSidecars_MarshalSSZ F \<lparr>Sidecars = Some (map Some scs @ [Some bad])\<rparr> = Inl ErrVectorLength"
    using assms(3,4) by (simp add: unfold fastssz_laws.BeaconBlockHeader_marshal [OF assms(1)])
  show "BlobSidecars_MarshalSSZ F \<lparr>Sidecars = Some (map Some scs @ [None])\<rparr> =
      Inl (Panic ''nil pointer dereference'')"
    using assms(3) by (simp add: unfold)
qed

definition demo_sidecar :: BlobSidecar where
  "demo_sidecar = \<lparr>sc_Index = 0, sc_Blob = replicate 131072 5, sc_KzgCommitment = replicate 48 1,
     sc_KzgProof = replicate 48 2, sc_BeaconBlockHeader = None, sc_InclusionProof = replicate 8 zero32\<rparr>"

theorem sidecars_roundtrip_witness:
  "\<exists>bz. BlobSidecars_MarshalSSZ reference_fastssz \<lparr>Sidecars = Some [Some demo_sidecar]\<rparr> = Inr bz \<and>
     BlobSidecars_UnmarshalSSZ reference_fastssz bz = Inr \<lparr>Sidecars = Some [Some (with_header demo_sidecar)]\<rparr>"
proof -
  have "\<forall>b \<in> set [demo_sidecar]. Sidecar_wf b"
    by (simp add: Sidecar_wf_def demo_sidecar_def or_new_BeaconBlockHeader_def empty_BeaconBlockHeader_def
        BeaconBlockHeader_wf_def)
  then show ?thesis
    using sidecars_roundtrip [OF ref_ssz.fastssz_laws_axioms, of "[demo_sidecar]"
        "demo_sidecar\<lparr>sc_InclusionProof := []\<rparr>"] by auto
qed

end
