(* ===== verification/SszHash.thy ===== *)
theory SszHash
  imports VarCodecs
begin

section \<open>Hash tree roots: the hasher of the library and the fixed-size containers\<close>

text \<open>
  The generated methods \<open>HashTreeRootWith\<close> drive a hasher of fastssz, a \<open>HashWalker\<close>: they append the
  chunks of the fields to its buffer and merkleize what they appended. The hasher is a parameter,
  here with its buffer as the state it passes on; the locale \<open>ssz_walker\<close> gives what its
  documentation promises over the digest function of the Merkle package. The roots of SSZ are written
  down as definitions over the padded trees of that package, and each generated method is shown
  to compute the root of its container.
\<close>

subsection \<open>Chunks and roots\<close>

definition byte_chunks :: "bytes \<Rightarrow> b32 list" where
  "byte_chunks b = map (chunk_at b) [0..<(length b + 31) div 32]"

definition uint64_chunk :: "u64 \<Rightarrow> b32" where
  "uint64_chunk v = le_bytes v @ replicate 24 0"

definition bool_chunk :: "bool \<Rightarrow> b32" where
  "bool_chunk t = (if t then 1 else 0) # replicate 31 0"

definition container_root :: "merkle_env \<Rightarrow> b32 list \<Rightarrow> b32" where
  "container_root E roots = node E roots (limit_depth (of_nat (length roots))) 0"

definition mixin_root :: "merkle_env \<Rightarrow> b32 list \<Rightarrow> u64 \<Rightarrow> u64 \<Rightarrow> b32" where
  "mixin_root E chunks num limit = Sum256 E (node E chunks (limit_depth limit) 0 @ uint64_chunk num)"

definition vector_root :: "merkle_env \<Rightarrow> bytes \<Rightarrow> b32" where
  "vector_root E b = container_root E (byte_chunks b)"

definition fill_up :: "nat \<Rightarrow> bytes" where
  "fill_up n = replicate ((32 - n mod 32) mod 32) 0"

lemma length_chunks [simp]: "length (chunk_at b i) = 32" "length (uint64_chunk v) = 32" "length (bool_chunk t) = 32"
  by (simp_all add: chunk_at_def uint64_chunk_def bool_chunk_def Let_def)

lemma byte_chunks_lengths: "r \<in> set (byte_chunks b) \<Longrightarrow> length r = 32"
  by (auto simp: byte_chunks_def)

lemma chunk_at_append: "length a = 32 * k \<Longrightarrow> chunk_at (a @ b) (k + i) = chunk_at b i"
  by (simp add: chunk_at_def Let_def)

lemma chunk_at_first: "length r = 32 \<Longrightarrow> chunk_at (r @ b) 0 = r"
  by (simp add: chunk_at_def Let_def)

lemma PartitionBytes_chunks:
  assumes "b \<noteq> []" and "length b < 2 ^ 60" and "k = (length b + 31) div 32"
  shows "PartitionBytes b = (byte_chunks b, of_nat k)" and "0 < k" and "k < 2 ^ 60" and "length (byte_chunks b) = k"
proof -
  have "32 \<le> length b + 31" using assms(1) by (cases b) simp_all
  then show pos: "0 < k" using div_le_mono [of 32 "length b + 31" 32] by (simp add: assms(3))
  show k: "k < 2 ^ 60" using assms(2) by (simp add: assms(3))
  have n: "(of_nat (length b) + 31 :: u64) div 32 = of_nat k"
    using assms(2) by (simp add: word_unat_eq_iff assms(3) unat_div unat_word_ariths unat_of_nat)
  have "(1 :: u64) \<le> of_nat k" using pos k by (simp add: word_le_nat_alt unat_of_nat)
  then have "max (of_nat k :: u64) 1 = of_nat k" by (simp add: max_def)
  then show "PartitionBytes b = (byte_chunks b, of_nat k)"
    using k by (simp add: PartitionBytes_def n byte_chunks_def assms(3) [symmetric] unat_of_nat)
  show "length (byte_chunks b) = k" by (simp add: byte_chunks_def assms(3))
qed

lemma byte_chunks_Cons:
  assumes "length r = 32"
  shows "byte_chunks (r @ b) = r # byte_chunks b"
proof -
  have "(length (r @ b) + 31) div 32 = Suc ((length b + 31) div 32)" using assms by simp
  then have "byte_chunks (r @ b) = chunk_at (r @ b) 0 # map (\<lambda>i. chunk_at (r @ b) (Suc i)) [0..<(length b + 31) div 32]"
    by (simp add: byte_chunks_def upt_conv_Cons map_Suc_upt [symmetric] del: upt_Suc)
  then show ?thesis
    using assms chunk_at_append [of r 1 b] by (simp add: chunk_at_first byte_chunks_def)
qed

lemma byte_chunks_concat: "\<forall>r \<in> set rs. length r = 32 \<Longrightarrow> byte_chunks (concat rs) = rs"
  by (induction rs) (simp_all add: byte_chunks_Cons, simp add: byte_chunks_def)

lemma fill_up_count:
  fixes n :: nat
  obtains "n mod 32 = 0" "(32 - n mod 32) mod 32 = 0"
  | q r where "n = 32 * q + r" "0 < r" "r < 32" "(32 - n mod 32) mod 32 = 32 - r"
proof (cases "n mod 32 = 0")
  case False
  then show ?thesis using that(2) [of "n div 32" "n mod 32"] by simp
qed simp

lemma fill_up_dvd: "32 dvd length b + length (fill_up (length b))"
  by (rule fill_up_count [of "length b"]) (auto simp: fill_up_def)

lemma chunk_at_zeros: "chunk_at (b @ replicate k 0) i = chunk_at b i"
  by (auto simp: chunk_at_def Let_def min_def replicate_add [symmetric])

lemma byte_chunks_fill: "byte_chunks (b @ fill_up (length b)) = byte_chunks b"
proof -
  have "(length b + (32 - length b mod 32) mod 32 + 31) div 32 = (length b + 31) div 32"
    by (rule fill_up_count [of "length b"]) auto
  then show ?thesis by (simp add: byte_chunks_def fill_up_def chunk_at_zeros)
qed

subsection \<open>The hasher\<close>

record hash_walker =
  hh_Index :: "bytes \<Rightarrow> nat"
  PutBytes :: "bytes \<Rightarrow> bytes \<Rightarrow> bytes"
  PutUint64 :: "u64 \<Rightarrow> bytes \<Rightarrow> bytes"
  PutBool :: "bool \<Rightarrow> bytes \<Rightarrow> bytes"
  hh_Append :: "bytes \<Rightarrow> bytes \<Rightarrow> bytes"
  AppendUint64 :: "u64 \<Rightarrow> bytes \<Rightarrow> bytes"
  AppendBytes32 :: "bytes \<Rightarrow> bytes \<Rightarrow> bytes"
  FillUpTo32 :: "bytes \<Rightarrow> bytes"
  hh_Merkleize :: "nat \<Rightarrow> bytes \<Rightarrow> bytes"
  MerkleizeWithMixin :: "nat \<Rightarrow> u64 \<Rightarrow> u64 \<Rightarrow> bytes \<Rightarrow> bytes"
  CalculateLimit :: "u64 \<Rightarrow> u64 \<Rightarrow> u64 \<Rightarrow> u64"
  HashWithDefaultHasher :: "(bytes \<Rightarrow> err + bytes) \<Rightarrow> err + b32"

abbreviation ErrIncorrectListSize :: err where "ErrIncorrectListSize \<equiv> Ext ''incorrect list size''"

locale ssz_walker =
  fixes W :: hash_walker and E :: merkle_env
  assumes digest_length [simp]: "length (Sum256 E x) = 32"
    and index [simp]: "hh_Index W buf = length buf"
    and put_bytes: "b \<noteq> [] \<Longrightarrow> PutBytes W b buf = buf @ vector_root E b"
    and put_uint64 [simp]: "PutUint64 W v buf = buf @ uint64_chunk v"
    and put_bool [simp]: "PutBool W t buf = buf @ bool_chunk t"
    and append [simp]: "hh_Append W b buf = buf @ b"
    and append_uint64 [simp]: "AppendUint64 W v buf = buf @ le_bytes v"
    and append_bytes32 [simp]: "AppendBytes32 W b buf = buf @ b @ fill_up (length b)"
    and fill [simp]: "FillUpTo32 W buf = buf @ fill_up (length buf)"
    and merkleize: "hh_Merkleize W (length buf) (buf @ b) = buf @ vector_root E b"
    and merkleize_mixin: "32 dvd length buf \<Longrightarrow> length (byte_chunks b) \<le> unat limit \<Longrightarrow> 0 < limit \<Longrightarrow>
      MerkleizeWithMixin W (length buf) num limit (buf @ b) = buf @ mixin_root E (byte_chunks b) num limit"
    and calculate_limit: "(maxCapacity * itemSize + 31) div 32 \<noteq> 0 \<Longrightarrow>
      CalculateLimit W maxCapacity numItems itemSize = (maxCapacity * itemSize + 31) div 32"
    and default_hasher_root: "f [] = Inr r \<Longrightarrow> length r = 32 \<Longrightarrow> HashWithDefaultHasher W f = Inr r"
    and default_hasher_error: "f [] = Inl e \<Longrightarrow> HashWithDefaultHasher W f = Inl e"
begin

lemma length_node [simp]: "\<forall>r \<in> set rs. length r = 32 \<Longrightarrow> length (node E rs d i) = 32"
  by (cases d) (auto simp: zero32_def)

lemma length_container_root [simp]: "\<forall>r \<in> set rs. length r = 32 \<Longrightarrow> length (container_root E rs) = 32"
  by (simp add: container_root_def)

lemma length_vector_root [simp]: "length (vector_root E b) = 32"
  by (simp add: vector_root_def byte_chunks_lengths)

lemma length_mixin_root [simp]: "length (mixin_root E rs num limit) = 32"
  by (simp add: mixin_root_def)

lemma merkleize_roots:
  "\<forall>r \<in> set rs. length r = 32 \<Longrightarrow>
   hh_Merkleize W (length buf) (buf @ concat rs) = buf @ container_root E rs"
  by (simp add: merkleize vector_root_def byte_chunks_concat)

lemma mixin_roots:
  "\<forall>r \<in> set rs. length r = 32 \<Longrightarrow> 32 dvd length buf \<Longrightarrow> length rs \<le> unat limit \<Longrightarrow> 0 < limit \<Longrightarrow>
   MerkleizeWithMixin W (length buf) num limit (buf @ concat rs) = buf @ mixin_root E rs num limit"
  by (simp add: merkleize_mixin byte_chunks_concat)

end

text \<open>A single chunk is its own root.\<close>

lemma vector_root_chunk: "length b = 32 \<Longrightarrow> vector_root E b = b"
  using byte_chunks_concat [of "[b]"] by (simp add: vector_root_def container_root_def limit_depth_def Len64_def)

subsection \<open>The code\<close>

definition ForkData_HashTreeRootWith :: "hash_walker \<Rightarrow> ForkData \<Rightarrow> bytes \<Rightarrow> err + bytes" where
  "ForkData_HashTreeRootWith W f hh =
     (let indx = hh_Index W hh;
          hh = PutBytes W (fd_CurrentVersion f) hh;
          hh = PutBytes W (fd_GenesisValidatorsRoot f) hh
      in Inr (hh_Merkleize W indx hh))"

definition ForkData_HashTreeRoot :: "hash_walker \<Rightarrow> ForkData \<Rightarrow> err + b32" where
  "ForkData_HashTreeRoot W f = HashWithDefaultHasher W (ForkData_HashTreeRootWith W f)"

definition SigningData_HashTreeRootWith :: "hash_walker \<Rightarrow> SigningData \<Rightarrow> bytes \<Rightarrow> err + bytes" where
  "SigningData_HashTreeRootWith W s hh =
     (let indx = hh_Index W hh;
          hh = PutBytes W (sd_ObjectRoot s) hh;
          hh = PutBytes W (sd_Domain s) hh
      in Inr (hh_Merkleize W indx hh))"

definition SigningData_HashTreeRoot :: "hash_walker \<Rightarrow> SigningData \<Rightarrow> err + b32" where
  "SigningData_HashTreeRoot W s = HashWithDefaultHasher W (SigningData_HashTreeRootWith W s)"

definition Fork_HashTreeRootWith :: "hash_walker \<Rightarrow> Fork \<Rightarrow> bytes \<Rightarrow> err + bytes" where
  "Fork_HashTreeRootWith W f hh =
     (let indx = hh_Index W hh;
          hh = PutBytes W (fork_PreviousVersion f) hh;
          hh = PutBytes W (fork_CurrentVersion f) hh;
          hh = PutUint64 W (fork_Epoch f) hh
      in Inr (hh_Merkleize W indx hh))"

definition Fork_HashTreeRoot :: "hash_walker \<Rightarrow> Fork \<Rightarrow> err + b32" where
  "Fork_HashTreeRoot W f = HashWithDefaultHasher W (Fork_HashTreeRootWith W f)"

definition Eth1Data_HashTreeRootWith :: "hash_walker \<Rightarrow> Eth1Data \<Rightarrow> bytes \<Rightarrow> err + bytes" where
  "Eth1Data_HashTreeRootWith W e hh =
     (let indx = hh_Index W hh;
          hh = PutBytes W (eth1_DepositRoot e) hh;
          hh = PutUint64 W (eth1_DepositCount e) hh;
          hh = PutBytes W (eth1_BlockHash e) hh
      in Inr (hh_Merkleize W indx hh))"

definition Eth1Data_HashTreeRoot :: "hash_walker \<Rightarrow> Eth1Data \<Rightarrow> err + b32" where
  "Eth1Data_HashTreeRoot W e = HashWithDefaultHasher W (Eth1Data_HashTreeRootWith W e)"

definition DepositMessage_HashTreeRootWith :: "hash_walker \<Rightarrow> DepositMessage \<Rightarrow> bytes \<Rightarrow> err + bytes" where
  "DepositMessage_HashTreeRootWith W d hh =
     (let indx = hh_Index W hh;
          hh = PutBytes W (dm_Pubkey d) hh;
          hh = PutBytes W (dm_Credentials d) hh;
          hh = PutUint64 W (dm_Amount d) hh
      in Inr (hh_Merkleize W indx hh))"

definition DepositMessage_HashTreeRoot :: "hash_walker \<Rightarrow> DepositMessage \<Rightarrow> err + b32" where
  "DepositMessage_HashTreeRoot W d = HashWithDefaultHasher W (DepositMessage_HashTreeRootWith W d)"

definition Deposit_HashTreeRootWith :: "hash_walker \<Rightarrow> Deposit \<Rightarrow> bytes \<Rightarrow> err + bytes" where
  "Deposit_HashTreeRootWith W d hh =
     (let indx = hh_Index W hh;
          hh = PutBytes W (dep_Pubkey d) hh;
          hh = PutBytes W (dep_Credentials d) hh;
          hh = PutUint64 W (dep_Amount d) hh;
          hh = PutBytes W (dep_Signature d) hh;
          hh = PutUint64 W (dep_Index d) hh
      in Inr (hh_Merkleize W indx hh))"

definition Deposit_HashTreeRoot :: "hash_walker \<Rightarrow> Deposit \<Rightarrow> err + b32" where
  "Deposit_HashTreeRoot W d = HashWithDefaultHasher W (Deposit_HashTreeRootWith W d)"

definition BeaconBlockHeader_HashTreeRootWith :: "hash_walker \<Rightarrow> BeaconBlockHeader \<Rightarrow> bytes \<Rightarrow> err + bytes" where
  "BeaconBlockHeader_HashTreeRootWith W b hh =
     (let indx = hh_Index W hh;
          hh = PutUint64 W (hdr_Slot b) hh;
          hh = PutUint64 W (hdr_ProposerIndex b) hh;
          hh = PutBytes W (hdr_ParentBlockRoot b) hh;
          hh = PutBytes W (hdr_StateRoot b) hh;
          hh = PutBytes W (hdr_BodyRoot b) hh
      in Inr (hh_Merkleize W indx hh))"

definition BeaconBlockHeader_HashTreeRoot :: "hash_walker \<Rightarrow> BeaconBlockHeader \<Rightarrow> err + b32" where
  "BeaconBlockHeader_HashTreeRoot W b = HashWithDefaultHasher W (BeaconBlockHeader_HashTreeRootWith W b)"

definition Withdrawal_HashTreeRootWith :: "hash_walker \<Rightarrow> Withdrawal \<Rightarrow> bytes \<Rightarrow> err + bytes" where
  "Withdrawal_HashTreeRootWith W w hh =
     (let indx = hh_Index W hh;
          hh = PutUint64 W (wd_Index w) hh;
          hh = PutUint64 W (wd_Validator w) hh;
          hh = PutBytes W (wd_Address w) hh;
          hh = PutUint64 W (wd_Amount w) hh
      in Inr (hh_Merkleize W indx hh))"

definition Withdrawal_HashTreeRoot :: "hash_walker \<Rightarrow> Withdrawal \<Rightarrow> err + b32" where
  "Withdrawal_HashTreeRoot W w = HashWithDefaultHasher W (Withdrawal_HashTreeRootWith W w)"

definition Validator_HashTreeRootWith :: "hash_walker \<Rightarrow> Validator \<Rightarrow> bytes \<Rightarrow> err + bytes" where
  "Validator_HashTreeRootWith W v hh =
     (let indx = hh_Index W hh;
          hh = PutBytes W (val_Pubkey v) hh;
          hh = PutBytes W (val_WithdrawalCredentials v) hh;
          hh = PutUint64 W (val_EffectiveBalance v) hh;
          hh = PutBool W (val_Slashed v) hh;
          hh = PutUint64 W (val_ActivationEligibilityEpoch v) hh;
          hh = PutUint64 W (val_ActivationEpoch v) hh;
          hh = PutUint64 W (val_ExitEpoch v) hh;
          hh = PutUint64 W (val_WithdrawableEpoch v) hh
      in Inr (hh_Merkleize W indx hh))"

definition Validator_HashTreeRoot :: "hash_walker \<Rightarrow> Validator \<Rightarrow> err + b32" where
  "Validator_HashTreeRoot W v = HashWithDefaultHasher W (Validator_HashTreeRootWith W v)"

subsection \<open>The roots that SSZ defines\<close>

definition ForkData_fields :: "merkle_env \<Rightarrow> ForkData \<Rightarrow> b32 list" where
  "ForkData_fields E f = [vector_root E (fd_CurrentVersion f),
     vector_root E (fd_GenesisValidatorsRoot f)]"

definition SigningData_fields :: "merkle_env \<Rightarrow> SigningData \<Rightarrow> b32 list" where
  "SigningData_fields E s = [vector_root E (sd_ObjectRoot s),
     vector_root E (sd_Domain s)]"

definition Fork_fields :: "merkle_env \<Rightarrow> Fork \<Rightarrow> b32 list" where
  "Fork_fields E f = [vector_root E (fork_PreviousVersion f),
     vector_root E (fork_CurrentVersion f),
     uint64_chunk (fork_Epoch f)]"

definition Eth1Data_fields :: "merkle_env \<Rightarrow> Eth1Data \<Rightarrow> b32 list" where
  "Eth1Data_fields E e = [vector_root E (eth1_DepositRoot e),
     uint64_chunk (eth1_DepositCount e),
     vector_root E (eth1_BlockHash e)]"

definition DepositMessage_fields :: "merkle_env \<Rightarrow> DepositMessage \<Rightarrow> b32 list" where
  "DepositMessage_fields E d = [vector_root E (dm_Pubkey d),
     vector_root E (dm_Credentials d),
     uint64_chunk (dm_Amount d)]"

definition Deposit_fields :: "merkle_env \<Rightarrow> Deposit \<Rightarrow> b32 list" where
  "Deposit_fields E d = [vector_root E (dep_Pubkey d),
     vector_root E (dep_Credentials d),
     uint64_chunk (dep_Amount d),
     vector_root E (dep_Signature d),
     uint64_chunk (dep_Index d)]"

definition BeaconBlockHeader_fields :: "merkle_env \<Rightarrow> BeaconBlockHeader \<Rightarrow> b32 list" where
  "BeaconBlockHeader_fields E b = [uint64_chunk (hdr_Slot b),
     uint64_chunk (hdr_ProposerIndex b),
     vector_root E (hdr_ParentBlockRoot b),
     vector_root E (hdr_StateRoot b),
     vector_root E (hdr_BodyRoot b)]"

definition Withdrawal_fields :: "merkle_env \<Rightarrow> Withdrawal \<Rightarrow> b32 list" where
  "Withdrawal_fields E w = [uint64_chunk (wd_Index w),
     uint64_chunk (wd_Validator w),
     vector_root E (wd_Address w),
     uint64_chunk (wd_Amount w)]"

definition Validator_fields :: "merkle_env \<Rightarrow> Validator \<Rightarrow> b32 list" where
  "Validator_fields E v = [vector_root E (val_Pubkey v),
     vector_root E (val_WithdrawalCredentials v),
     uint64_chunk (val_EffectiveBalance v),
     bool_chunk (val_Slashed v),
     uint64_chunk (val_ActivationEligibilityEpoch v),
     uint64_chunk (val_ActivationEpoch v),
     uint64_chunk (val_ExitEpoch v),
     uint64_chunk (val_WithdrawableEpoch v)]"

context ssz_walker
begin

lemma nonempty_length: "length b = n \<Longrightarrow> 0 < n \<Longrightarrow> b \<noteq> []"
  by auto

lemma ForkData_walk: "ForkData_wf f \<Longrightarrow> 32 dvd length buf \<Longrightarrow>
   ForkData_HashTreeRootWith W f buf = Inr (buf @ container_root E (ForkData_fields E f))"
  using merkleize_roots [of "ForkData_fields E f" buf]
  by (simp add: ForkData_HashTreeRootWith_def ForkData_fields_def ForkData_wf_def put_bytes nonempty_length)

lemma ForkData_hash: "ForkData_wf f \<Longrightarrow> ForkData_HashTreeRoot W f = Inr (container_root E (ForkData_fields E f))"
  by (simp add: ForkData_HashTreeRoot_def default_hasher_root ForkData_walk ForkData_fields_def)

lemma SigningData_walk: "SigningData_wf s \<Longrightarrow> 32 dvd length buf \<Longrightarrow>
   SigningData_HashTreeRootWith W s buf = Inr (buf @ container_root E (SigningData_fields E s))"
  using merkleize_roots [of "SigningData_fields E s" buf]
  by (simp add: SigningData_HashTreeRootWith_def SigningData_fields_def SigningData_wf_def put_bytes nonempty_length)

lemma SigningData_hash: "SigningData_wf s \<Longrightarrow> SigningData_HashTreeRoot W s = Inr (container_root E (SigningData_fields E s))"
  by (simp add: SigningData_HashTreeRoot_def default_hasher_root SigningData_walk SigningData_fields_def)

lemma Fork_walk: "Fork_wf f \<Longrightarrow> 32 dvd length buf \<Longrightarrow>
   Fork_HashTreeRootWith W f buf = Inr (buf @ container_root E (Fork_fields E f))"
  using merkleize_roots [of "Fork_fields E f" buf]
  by (simp add: Fork_HashTreeRootWith_def Fork_fields_def Fork_wf_def put_bytes nonempty_length)

lemma Fork_hash: "Fork_wf f \<Longrightarrow> Fork_HashTreeRoot W f = Inr (container_root E (Fork_fields E f))"
  by (simp add: Fork_HashTreeRoot_def default_hasher_root Fork_walk Fork_fields_def)

lemma Eth1Data_walk: "Eth1Data_wf e \<Longrightarrow> 32 dvd length buf \<Longrightarrow>
   Eth1Data_HashTreeRootWith W e buf = Inr (buf @ container_root E (Eth1Data_fields E e))"
  using merkleize_roots [of "Eth1Data_fields E e" buf]
  by (simp add: Eth1Data_HashTreeRootWith_def Eth1Data_fields_def Eth1Data_wf_def put_bytes nonempty_length)

lemma Eth1Data_hash: "Eth1Data_wf e \<Longrightarrow> Eth1Data_HashTreeRoot W e = Inr (container_root E (Eth1Data_fields E e))"
  by (simp add: Eth1Data_HashTreeRoot_def default_hasher_root Eth1Data_walk Eth1Data_fields_def)

lemma DepositMessage_walk: "DepositMessage_wf d \<Longrightarrow> 32 dvd length buf \<Longrightarrow>
   DepositMessage_HashTreeRootWith W d buf = Inr (buf @ container_root E (DepositMessage_fields E d))"
  using merkleize_roots [of "DepositMessage_fields E d" buf]
  by (simp add: DepositMessage_HashTreeRootWith_def DepositMessage_fields_def DepositMessage_wf_def put_bytes nonempty_length)

lemma DepositMessage_hash: "DepositMessage_wf d \<Longrightarrow> DepositMessage_HashTreeRoot W d = Inr (container_root E (DepositMessage_fields E d))"
  by (simp add: DepositMessage_HashTreeRoot_def default_hasher_root DepositMessage_walk DepositMessage_fields_def)

lemma Deposit_walk: "Deposit_wf d \<Longrightarrow> 32 dvd length buf \<Longrightarrow>
   Deposit_HashTreeRootWith W d buf = Inr (buf @ container_root E (Deposit_fields E d))"
  using merkleize_roots [of "Deposit_fields E d" buf]
  by (simp add: Deposit_HashTreeRootWith_def Deposit_fields_def Deposit_wf_def put_bytes nonempty_length)

lemma Deposit_hash: "Deposit_wf d \<Longrightarrow> Deposit_HashTreeRoot W d = Inr (container_root E (Deposit_fields E d))"
  by (simp add: Deposit_HashTreeRoot_def default_hasher_root Deposit_walk Deposit_fields_def)

lemma BeaconBlockHeader_walk: "BeaconBlockHeader_wf b \<Longrightarrow> 32 dvd length buf \<Longrightarrow>
   BeaconBlockHeader_HashTreeRootWith W b buf = Inr (buf @ container_root E (BeaconBlockHeader_fields E b))"
  using merkleize_roots [of "BeaconBlockHeader_fields E b" buf]
  by (simp add: BeaconBlockHeader_HashTreeRootWith_def BeaconBlockHeader_fields_def BeaconBlockHeader_wf_def put_bytes nonempty_length)

lemma BeaconBlockHeader_hash: "BeaconBlockHeader_wf b \<Longrightarrow> BeaconBlockHeader_HashTreeRoot W b = Inr (container_root E (BeaconBlockHeader_fields E b))"
  by (simp add: BeaconBlockHeader_HashTreeRoot_def default_hasher_root BeaconBlockHeader_walk BeaconBlockHeader_fields_def)

lemma Withdrawal_walk: "Withdrawal_wf w \<Longrightarrow> 32 dvd length buf \<Longrightarrow>
   Withdrawal_HashTreeRootWith W w buf = Inr (buf @ container_root E (Withdrawal_fields E w))"
  using merkleize_roots [of "Withdrawal_fields E w" buf]
  by (simp add: Withdrawal_HashTreeRootWith_def Withdrawal_fields_def Withdrawal_wf_def put_bytes nonempty_length)

lemma Withdrawal_hash: "Withdrawal_wf w \<Longrightarrow> Withdrawal_HashTreeRoot W w = Inr (container_root E (Withdrawal_fields E w))"
  by (simp add: Withdrawal_HashTreeRoot_def default_hasher_root Withdrawal_walk Withdrawal_fields_def)

lemma Validator_walk: "Validator_wf v \<Longrightarrow> 32 dvd length buf \<Longrightarrow>
   Validator_HashTreeRootWith W v buf = Inr (buf @ container_root E (Validator_fields E v))"
  using merkleize_roots [of "Validator_fields E v" buf]
  by (simp add: Validator_HashTreeRootWith_def Validator_fields_def Validator_wf_def put_bytes nonempty_length)

lemma Validator_hash: "Validator_wf v \<Longrightarrow> Validator_HashTreeRoot W v = Inr (container_root E (Validator_fields E v))"
  by (simp add: Validator_HashTreeRoot_def default_hasher_root Validator_walk Validator_fields_def)


end

end
