(* ===== verification/Roots.thy ===== *)
theory Roots
  imports SszHash StateCodec SidecarCodec
begin

section \<open>Hash tree roots of payloads, blocks, states and sidecars\<close>

text \<open>
  The generated \<open>HashTreeRootWith\<close> of the containers with variable-size fields. Each kind of list
  field has its block in the generated code: bytes, elements with their own method, roots that are
  appended, numbers that are packed, arrays that are put one by one. The blocks differ in the error they
  return for a list above its limit.
\<close>

subsection \<open>The blocks for list fields\<close>

definition hash_byte_list :: "hash_walker \<Rightarrow> u64 \<Rightarrow> bytes \<Rightarrow> bytes \<Rightarrow> err + bytes" where
  "hash_byte_list W maxLen b hh =
     (let elemIndx = hh_Index W hh;
          byteLen = of_nat (length b) in
      if byteLen > maxLen then Inl ErrIncorrectListSize
      else let hh = hh_Append W b hh
           in Inr (MerkleizeWithMixin W elemIndx byteLen ((maxLen + 31) div 32) hh))"

definition hash_transaction :: "hash_walker \<Rightarrow> bytes \<Rightarrow> bytes \<Rightarrow> err + bytes" where
  "hash_transaction W elem hh =
     (let elemIndx = hh_Index W hh;
          byteLen = of_nat (length elem) in
      if byteLen > 1073741824 then Inl ErrIncorrectListSize
      else let hh = AppendBytes32 W elem hh
           in Inr (MerkleizeWithMixin W elemIndx byteLen ((1073741824 + 31) div 32) hh))"

definition hash_elements ::
  "hash_walker \<Rightarrow> ('a \<Rightarrow> bytes \<Rightarrow> err + bytes) \<Rightarrow> u64 \<Rightarrow> 'a list \<Rightarrow> bytes \<Rightarrow> err + bytes" where
  "hash_elements W HashTreeRootWith limit elems hh =
     (let subIndx = hh_Index W hh;
          num = of_nat (length elems) in
      if num > limit then Inl ErrIncorrectListSize
      else bindE (marshal_each HashTreeRootWith elems hh) (\<lambda>hh.
      Inr (MerkleizeWithMixin W subIndx num limit hh)))"

definition hash_appended :: "hash_walker \<Rightarrow> nat \<Rightarrow> b32 list \<Rightarrow> bytes \<Rightarrow> err + bytes" where
  "hash_appended W limit roots hh =
     (if length roots > limit then Inl ErrListTooBig
      else
      let subIndx = hh_Index W hh;
          hh = fold (hh_Append W) roots hh;
          numItems = of_nat (length roots)
      in Inr (MerkleizeWithMixin W subIndx numItems (of_nat limit) hh))"

definition hash_uint64s :: "hash_walker \<Rightarrow> nat \<Rightarrow> u64 list \<Rightarrow> bytes \<Rightarrow> err + bytes" where
  "hash_uint64s W limit vs hh =
     (if length vs > limit then Inl ErrListTooBig
      else
      let subIndx = hh_Index W hh;
          hh = fold (AppendUint64 W) vs hh;
          hh = FillUpTo32 W hh;
          numItems = of_nat (length vs)
      in Inr (MerkleizeWithMixin W subIndx numItems (CalculateLimit W (of_nat limit) numItems 8) hh))"

definition hash_arrays :: "hash_walker \<Rightarrow> nat \<Rightarrow> bytes list \<Rightarrow> bytes \<Rightarrow> err + bytes" where
  "hash_arrays W limit arrays hh =
     (if length arrays > limit then Inl ErrListTooBig
      else
      let subIndx = hh_Index W hh;
          hh = fold (PutBytes W) arrays hh;
          numItems = of_nat (length arrays)
      in Inr (MerkleizeWithMixin W subIndx numItems (of_nat limit) hh))"

subsection \<open>Payload header, payload, body and block\<close>

definition ExecutionPayloadHeaderDeneb_HashTreeRootWith ::
  "hash_walker \<Rightarrow> ExecutionPayloadHeaderDeneb \<Rightarrow> bytes \<Rightarrow> err + bytes" where
  "ExecutionPayloadHeaderDeneb_HashTreeRootWith W e hh =
     (let indx = hh_Index W hh;
          hh = PutBytes W (ph_ParentHash e) hh;
          hh = PutBytes W (ph_FeeRecipient e) hh;
          hh = PutBytes W (ph_StateRoot e) hh;
          hh = PutBytes W (ph_ReceiptsRoot e) hh in
      if length (ph_LogsBloom e) \<noteq> 256 then Inl ErrBytesLength
      else
      let hh = PutBytes W (ph_LogsBloom e) hh;
          hh = PutBytes W (ph_Random e) hh;
          hh = PutUint64 W (ph_Number e) hh;
          hh = PutUint64 W (ph_GasLimit e) hh;
          hh = PutUint64 W (ph_GasUsed e) hh;
          hh = PutUint64 W (ph_Timestamp e) hh in
      bindE (hash_byte_list W 32 (ph_ExtraData e) hh) (\<lambda>hh.
      let hh = PutBytes W (ph_BaseFeePerGas e) hh;
          hh = PutBytes W (ph_BlockHash e) hh;
          hh = PutBytes W (ph_TransactionsRoot e) hh;
          hh = PutBytes W (ph_WithdrawalsRoot e) hh;
          hh = PutUint64 W (ph_BlobGasUsed e) hh;
          hh = PutUint64 W (ph_ExcessBlobGas e) hh
      in Inr (hh_Merkleize W indx hh)))"

definition ExecutionPayloadHeaderDeneb_HashTreeRoot ::
  "hash_walker \<Rightarrow> ExecutionPayloadHeaderDeneb \<Rightarrow> err + b32" where
  "ExecutionPayloadHeaderDeneb_HashTreeRoot W e =
     HashWithDefaultHasher W (ExecutionPayloadHeaderDeneb_HashTreeRootWith W e)"

definition ExecutableDataDeneb_HashTreeRootWith ::
  "hash_walker \<Rightarrow> ExecutableDataDeneb \<Rightarrow> bytes \<Rightarrow> err + bytes" where
  "ExecutableDataDeneb_HashTreeRootWith W e hh =
     (let indx = hh_Index W hh;
          hh = PutBytes W (pl_ParentHash e) hh;
          hh = PutBytes W (pl_FeeRecipient e) hh;
          hh = PutBytes W (pl_StateRoot e) hh;
          hh = PutBytes W (pl_ReceiptsRoot e) hh in
      if length (pl_LogsBloom e) \<noteq> 256 then Inl ErrBytesLength
      else
      let hh = PutBytes W (pl_LogsBloom e) hh;
          hh = PutBytes W (pl_Random e) hh;
          hh = PutUint64 W (pl_Number e) hh;
          hh = PutUint64 W (pl_GasLimit e) hh;
          hh = PutUint64 W (pl_GasUsed e) hh;
          hh = PutUint64 W (pl_Timestamp e) hh in
      bindE (hash_byte_list W 32 (pl_ExtraData e) hh) (\<lambda>hh.
      let hh = PutBytes W (pl_BaseFeePerGas e) hh;
          hh = PutBytes W (pl_BlockHash e) hh in
      bindE (hash_elements W (hash_transaction W) 1048576 (pl_Transactions e) hh) (\<lambda>hh.
      bindE (hash_elements W (Withdrawal_HashTreeRootWith W) 16 (pl_Withdrawals e) hh) (\<lambda>hh.
      let hh = PutUint64 W (pl_BlobGasUsed e) hh;
          hh = PutUint64 W (pl_ExcessBlobGas e) hh
      in Inr (hh_Merkleize W indx hh)))))"

definition ExecutableDataDeneb_HashTreeRoot :: "hash_walker \<Rightarrow> ExecutableDataDeneb \<Rightarrow> err + b32" where
  "ExecutableDataDeneb_HashTreeRoot W e =
     HashWithDefaultHasher W (ExecutableDataDeneb_HashTreeRootWith W e)"

definition BeaconBlockBodyDeneb_HashTreeRootWith ::
  "hash_walker \<Rightarrow> BeaconBlockBodyDeneb \<Rightarrow> bytes \<Rightarrow> err + bytes" where
  "BeaconBlockBodyDeneb_HashTreeRootWith W b hh =
     (let indx = hh_Index W hh;
          hh = PutBytes W (bd_RandaoReveal b) hh in
      bindE (Eth1Data_HashTreeRootWith W (or_new_Eth1Data (bd_Eth1Data b)) hh) (\<lambda>hh.
      let hh = PutBytes W (bd_Graffiti b) hh in
      bindE (hash_elements W (Deposit_HashTreeRootWith W) 16 (bd_Deposits b) hh) (\<lambda>hh.
      bindE (ExecutableDataDeneb_HashTreeRootWith W (bd_ExecutionPayload b) hh) (\<lambda>hh.
      bindE (hash_arrays W 16 (bd_BlobKzgCommitments b) hh) (\<lambda>hh.
      Inr (hh_Merkleize W indx hh))))))"

definition BeaconBlockBodyDeneb_HashTreeRoot :: "hash_walker \<Rightarrow> BeaconBlockBodyDeneb \<Rightarrow> err + b32" where
  "BeaconBlockBodyDeneb_HashTreeRoot W b =
     HashWithDefaultHasher W (BeaconBlockBodyDeneb_HashTreeRootWith W b)"

definition BeaconBlockDeneb_HashTreeRootWith :: "hash_walker \<Rightarrow> BeaconBlockDeneb \<Rightarrow> bytes \<Rightarrow> err + bytes" where
  "BeaconBlockDeneb_HashTreeRootWith W b hh =
     (let indx = hh_Index W hh;
          hh = PutUint64 W (blk_Slot b) hh;
          hh = PutUint64 W (blk_ProposerIndex b) hh;
          hh = PutBytes W (blk_ParentBlockRoot b) hh;
          hh = PutBytes W (blk_StateRoot b) hh in
      bindE (BeaconBlockBodyDeneb_HashTreeRootWith W (blk_Body b) hh) (\<lambda>hh.
      Inr (hh_Merkleize W indx hh)))"

definition BeaconBlockDeneb_HashTreeRoot :: "hash_walker \<Rightarrow> BeaconBlockDeneb \<Rightarrow> err + b32" where
  "BeaconBlockDeneb_HashTreeRoot W b = HashWithDefaultHasher W (BeaconBlockDeneb_HashTreeRootWith W b)"

subsection \<open>The beacon state, sidecars and the genesis validators\<close>

definition BeaconState_HashTreeRootWith :: "hash_walker \<Rightarrow> BeaconState \<Rightarrow> bytes \<Rightarrow> err + bytes" where
  "BeaconState_HashTreeRootWith W b hh =
     (let indx = hh_Index W hh;
          hh = PutBytes W (st_GenesisValidatorsRoot b) hh;
          hh = PutUint64 W (st_Slot b) hh in
      bindE (Fork_HashTreeRootWith W (st_Fork b) hh) (\<lambda>hh.
      bindE (BeaconBlockHeader_HashTreeRootWith W (st_LatestBlockHeader b) hh) (\<lambda>hh.
      bindE (hash_appended W 8192 (st_BlockRoots b) hh) (\<lambda>hh.
      bindE (hash_appended W 8192 (st_StateRoots b) hh) (\<lambda>hh.
      bindE (Eth1Data_HashTreeRootWith W (st_Eth1Data b) hh) (\<lambda>hh.
      let hh = PutUint64 W (st_Eth1DepositIndex b) hh in
      bindE (ExecutionPayloadHeaderDeneb_HashTreeRootWith W (st_LatestExecutionPayloadHeader b) hh) (\<lambda>hh.
      bindE (hash_elements W (Validator_HashTreeRootWith W) 1099511627776 (st_Validators b) hh) (\<lambda>hh.
      bindE (hash_uint64s W 1099511627776 (st_Balances b) hh) (\<lambda>hh.
      bindE (hash_appended W 65536 (st_RandaoMixes b) hh) (\<lambda>hh.
      let hh = PutUint64 W (st_NextWithdrawalIndex b) hh;
          hh = PutUint64 W (st_NextWithdrawalValidatorIndex b) hh in
      bindE (hash_uint64s W 1099511627776 (st_Slashings b) hh) (\<lambda>hh.
      let hh = PutUint64 W (st_TotalSlashing b) hh
      in Inr (hh_Merkleize W indx hh))))))))))))"

definition BeaconState_HashTreeRoot :: "hash_walker \<Rightarrow> BeaconState \<Rightarrow> err + b32" where
  "BeaconState_HashTreeRoot W b = HashWithDefaultHasher W (BeaconState_HashTreeRootWith W b)"

definition BlobSidecar_HashTreeRootWith :: "hash_walker \<Rightarrow> BlobSidecar option \<Rightarrow> bytes \<Rightarrow> err + bytes" where
  "BlobSidecar_HashTreeRootWith W b hh =
     (case b of
        None \<Rightarrow> Inl (Panic ''nil pointer dereference'')
      | Some b \<Rightarrow>
          let indx = hh_Index W hh;
              hh = PutUint64 W (sc_Index b) hh;
              hh = PutBytes W (sc_Blob b) hh;
              hh = PutBytes W (sc_KzgCommitment b) hh;
              hh = PutBytes W (sc_KzgProof b) hh in
          bindE (BeaconBlockHeader_HashTreeRootWith W (or_new_BeaconBlockHeader (sc_BeaconBlockHeader b)) hh) (\<lambda>hh.
          if length (sc_InclusionProof b) \<noteq> 8 then Inl ErrVectorLength
          else
          let subIndx = hh_Index W hh;
              hh = fold (hh_Append W) (sc_InclusionProof b) hh;
              hh = hh_Merkleize W subIndx hh
          in Inr (hh_Merkleize W indx hh)))"

definition BlobSidecar_HashTreeRoot :: "hash_walker \<Rightarrow> BlobSidecar option \<Rightarrow> err + b32" where
  "BlobSidecar_HashTreeRoot W b = HashWithDefaultHasher W (BlobSidecar_HashTreeRootWith W b)"

definition BlobSidecars_HashTreeRootWith :: "hash_walker \<Rightarrow> BlobSidecars \<Rightarrow> bytes \<Rightarrow> err + bytes" where
  "BlobSidecars_HashTreeRootWith W b hh =
     (let indx = hh_Index W hh in
      bindE (hash_elements W (BlobSidecar_HashTreeRootWith W) 6 (sidecar_list b) hh) (\<lambda>hh.
      Inr (hh_Merkleize W indx hh)))"

definition BlobSidecars_HashTreeRoot :: "hash_walker \<Rightarrow> BlobSidecars \<Rightarrow> err + b32" where
  "BlobSidecars_HashTreeRoot W b = HashWithDefaultHasher W (BlobSidecars_HashTreeRootWith W b)"

definition ValidatorsMarshaling_HashTreeRootWith ::
  "hash_walker \<Rightarrow> Validator list \<Rightarrow> bytes \<Rightarrow> err + bytes" where
  "ValidatorsMarshaling_HashTreeRootWith W v hh =
     (let indx = hh_Index W hh in
      bindE (hash_elements W (Validator_HashTreeRootWith W) 1099511627776 v hh) (\<lambda>hh.
      Inr (hh_Merkleize W indx hh)))"

definition ValidatorsMarshaling_HashTreeRoot :: "hash_walker \<Rightarrow> Validator list \<Rightarrow> err + b32" where
  "ValidatorsMarshaling_HashTreeRoot W v =
     HashWithDefaultHasher W (ValidatorsMarshaling_HashTreeRootWith W v)"

subsection \<open>The roots that SSZ defines\<close>

definition elements_root :: "merkle_env \<Rightarrow> u64 \<Rightarrow> b32 list \<Rightarrow> b32" where
  "elements_root E limit roots = mixin_root E roots (of_nat (length roots)) limit"

definition byte_list_root :: "merkle_env \<Rightarrow> u64 \<Rightarrow> bytes \<Rightarrow> b32" where
  "byte_list_root E maxLen b = mixin_root E (byte_chunks b) (of_nat (length b)) ((maxLen + 31) div 32)"

definition uint64s_root :: "merkle_env \<Rightarrow> u64 list \<Rightarrow> b32" where
  "uint64s_root E vs = mixin_root E (byte_chunks (concat (map le_bytes vs))) (of_nat (length vs)) 274877906944"

definition Withdrawal_root :: "merkle_env \<Rightarrow> Withdrawal \<Rightarrow> b32" where
  "Withdrawal_root E w = container_root E (Withdrawal_fields E w)"

definition Deposit_root :: "merkle_env \<Rightarrow> Deposit \<Rightarrow> b32" where
  "Deposit_root E d = container_root E (Deposit_fields E d)"

definition Validator_root :: "merkle_env \<Rightarrow> Validator \<Rightarrow> b32" where
  "Validator_root E v = container_root E (Validator_fields E v)"

definition PayloadHeader_fields :: "merkle_env \<Rightarrow> ExecutionPayloadHeaderDeneb \<Rightarrow> b32 list" where
  "PayloadHeader_fields E e =
     [vector_root E (ph_ParentHash e), vector_root E (ph_FeeRecipient e), vector_root E (ph_StateRoot e),
      vector_root E (ph_ReceiptsRoot e), vector_root E (ph_LogsBloom e), vector_root E (ph_Random e),
      uint64_chunk (ph_Number e), uint64_chunk (ph_GasLimit e), uint64_chunk (ph_GasUsed e),
      uint64_chunk (ph_Timestamp e), byte_list_root E 32 (ph_ExtraData e),
      vector_root E (ph_BaseFeePerGas e), vector_root E (ph_BlockHash e),
      vector_root E (ph_TransactionsRoot e), vector_root E (ph_WithdrawalsRoot e),
      uint64_chunk (ph_BlobGasUsed e), uint64_chunk (ph_ExcessBlobGas e)]"

definition transactions_root :: "merkle_env \<Rightarrow> bytes list \<Rightarrow> b32" where
  "transactions_root E txs = elements_root E 1048576 (map (byte_list_root E 1073741824) txs)"

definition withdrawals_root :: "merkle_env \<Rightarrow> Withdrawal list \<Rightarrow> b32" where
  "withdrawals_root E ws = elements_root E 16 (map (Withdrawal_root E) ws)"

text \<open>The fields of a payload are those of the header with the roots of its two lists.\<close>

definition payload_fields :: "merkle_env \<Rightarrow> b32 \<Rightarrow> ExecutableDataDeneb \<Rightarrow> b32 list" where
  "payload_fields E txsRoot e =
     [vector_root E (pl_ParentHash e), vector_root E (pl_FeeRecipient e), vector_root E (pl_StateRoot e),
      vector_root E (pl_ReceiptsRoot e), vector_root E (pl_LogsBloom e), vector_root E (pl_Random e),
      uint64_chunk (pl_Number e), uint64_chunk (pl_GasLimit e), uint64_chunk (pl_GasUsed e),
      uint64_chunk (pl_Timestamp e), byte_list_root E 32 (pl_ExtraData e),
      vector_root E (pl_BaseFeePerGas e), vector_root E (pl_BlockHash e),
      txsRoot, withdrawals_root E (pl_Withdrawals e),
      uint64_chunk (pl_BlobGasUsed e), uint64_chunk (pl_ExcessBlobGas e)]"

definition Payload_fields :: "merkle_env \<Rightarrow> ExecutableDataDeneb \<Rightarrow> b32 list" where
  "Payload_fields E e = payload_fields E (transactions_root E (pl_Transactions e)) e"

definition Body_fields :: "merkle_env \<Rightarrow> BeaconBlockBodyDeneb \<Rightarrow> b32 list" where
  "Body_fields E b =
     [vector_root E (bd_RandaoReveal b),
      container_root E (Eth1Data_fields E (or_new_Eth1Data (bd_Eth1Data b))),
      vector_root E (bd_Graffiti b), elements_root E 16 (map (Deposit_root E) (bd_Deposits b)),
      container_root E (Payload_fields E (bd_ExecutionPayload b)),
      elements_root E 16 (map (vector_root E) (bd_BlobKzgCommitments b))]"

definition Block_fields :: "merkle_env \<Rightarrow> BeaconBlockDeneb \<Rightarrow> b32 list" where
  "Block_fields E b =
     [uint64_chunk (blk_Slot b), uint64_chunk (blk_ProposerIndex b), vector_root E (blk_ParentBlockRoot b),
      vector_root E (blk_StateRoot b), container_root E (Body_fields E (blk_Body b))]"

definition State_fields :: "merkle_env \<Rightarrow> BeaconState \<Rightarrow> b32 list" where
  "State_fields E b =
     [vector_root E (st_GenesisValidatorsRoot b), uint64_chunk (st_Slot b),
      container_root E (Fork_fields E (st_Fork b)),
      container_root E (BeaconBlockHeader_fields E (st_LatestBlockHeader b)),
      elements_root E 8192 (st_BlockRoots b), elements_root E 8192 (st_StateRoots b),
      container_root E (Eth1Data_fields E (st_Eth1Data b)), uint64_chunk (st_Eth1DepositIndex b),
      container_root E (PayloadHeader_fields E (st_LatestExecutionPayloadHeader b)),
      elements_root E 1099511627776 (map (Validator_root E) (st_Validators b)),
      uint64s_root E (st_Balances b), elements_root E 65536 (st_RandaoMixes b),
      uint64_chunk (st_NextWithdrawalIndex b), uint64_chunk (st_NextWithdrawalValidatorIndex b),
      uint64s_root E (st_Slashings b), uint64_chunk (st_TotalSlashing b)]"

definition Sidecar_fields :: "merkle_env \<Rightarrow> BlobSidecar \<Rightarrow> b32 list" where
  "Sidecar_fields E b =
     [uint64_chunk (sc_Index b), vector_root E (sc_Blob b), vector_root E (sc_KzgCommitment b),
      vector_root E (sc_KzgProof b),
      container_root E (BeaconBlockHeader_fields E (or_new_BeaconBlockHeader (sc_BeaconBlockHeader b))),
      container_root E (sc_InclusionProof b)]"

lemma marshal_each_elements:
  assumes "\<And>x dst. x \<in> set xs \<Longrightarrow> 32 dvd length dst \<Longrightarrow> m x dst = Inr (dst @ enc x) \<and> length (enc x) = 32"
  shows "32 dvd length dst \<Longrightarrow> marshal_each m xs dst = Inr (dst @ concat (map enc xs))"
  using assms by (induction xs arbitrary: dst) simp_all

lemma fold_append: "(\<And>x b. f x b = b @ g x) \<Longrightarrow> fold f xs b = b @ concat (map g xs)"
  by (induction xs arbitrary: b) simp_all

lemma limit_ok: "length xs \<le> n \<Longrightarrow> n < 2 ^ 64 \<Longrightarrow> \<not> (of_nat n :: u64) < of_nat (length xs)"
  by (simp add: word_less_nat_alt unat_of_nat)

context ssz_walker
begin

lemma walk_byte_list:
  assumes "32 dvd length hh" and "length b \<le> n" and "0 < n" and "n + 31 < 2 ^ 64"
  shows "hash_byte_list W (of_nat n) b hh = Inr (hh @ byte_list_root E (of_nat n) b)"
proof -
  have le: "\<not> (of_nat n :: u64) < of_nat (length b)" using assms by (intro limit_ok) simp_all
  have "unat ((of_nat n + 31 :: u64) div 32) = (n + 31) div 32"
    using assms(4) by (simp add: unat_div unat_of_nat unat_word_ariths)
  then have "length (byte_chunks b) \<le> unat ((of_nat n + 31 :: u64) div 32)"
      "(0 :: u64) < (of_nat n + 31) div 32"
    using assms(2,3) by (simp_all add: byte_chunks_def div_le_mono word_less_nat_alt)
  then show ?thesis
    using assms(1) le by (simp add: hash_byte_list_def byte_list_root_def merkleize_mixin)
qed

lemma walk_extra:
  "32 dvd length hh \<Longrightarrow> length b \<le> 32 \<Longrightarrow> hash_byte_list W 32 b hh = Inr (hh @ byte_list_root E 32 b)"
  using walk_byte_list [of hh b 32] by simp

lemma walk_transaction:
  assumes "32 dvd length hh" and "length b \<le> 1073741824"
  shows "hash_transaction W b hh = Inr (hh @ byte_list_root E 1073741824 b)"
proof -
  have le: "\<not> (1073741824 :: u64) < of_nat (length b)" using limit_ok [of b 1073741824] assms(2) by simp
  have "length (byte_chunks b) \<le> unat ((1073741824 + 31 :: u64) div 32)"
    using assms(2) by (simp add: byte_chunks_def)
  then have "length (byte_chunks (b @ fill_up (length b))) \<le> unat (33554432 :: u64)"
    by (simp add: byte_chunks_fill)
  from merkleize_mixin [OF assms(1) this, of "of_nat (length b)"]
  show ?thesis using le by (simp add: hash_transaction_def byte_list_root_def byte_chunks_fill)
qed

lemma walk_elements:
  assumes "\<And>x dst. x \<in> set xs \<Longrightarrow> 32 dvd length dst \<Longrightarrow> m x dst = Inr (dst @ enc x) \<and> length (enc x) = 32"
    and "32 dvd length hh" and "length xs \<le> n" and "0 < n" and "n < 2 ^ 64"
  shows "hash_elements W m (of_nat n) xs hh = Inr (hh @ elements_root E (of_nat n) (map enc xs))"
proof -
  have len: "\<forall>r \<in> set (map enc xs). length r = 32"
    using assms(1) [of _ "[]"] by auto
  have n: "unat (of_nat n :: u64) = n" "(0 :: u64) < of_nat n"
    using assms(4,5) by (simp_all add: unat_of_nat word_less_nat_alt)
  have each: "marshal_each m xs hh = Inr (hh @ concat (map enc xs))"
    using assms(1,2) by (intro marshal_each_elements)
  show ?thesis
    using mixin_roots [OF len assms(2), of "of_nat n" "of_nat (length xs)"] n assms(3,5) limit_ok [of xs n] each
    by (simp add: hash_elements_def elements_root_def)
qed

lemma walk_appended:
  assumes "\<forall>r \<in> set rs. length r = 32" and "32 dvd length hh" and "length rs \<le> n" and "0 < n" and "n < 2 ^ 64"
  shows "hash_appended W n rs hh = Inr (hh @ elements_root E (of_nat n) rs)"
proof -
  have n: "unat (of_nat n :: u64) = n" "(0 :: u64) < of_nat n"
    using assms(4,5) by (simp_all add: unat_of_nat word_less_nat_alt)
  have "fold (hh_Append W) rs hh = hh @ concat rs" using fold_append [of "hh_Append W" "\<lambda>r. r"] by simp
  then show ?thesis
    using mixin_roots [OF assms(1,2), of "of_nat n" "of_nat (length rs)"] n assms(3)
    by (simp add: hash_appended_def elements_root_def)
qed

lemma walk_arrays:
  assumes "\<forall>b \<in> set bs. b \<noteq> []" and "32 dvd length hh" and "length bs \<le> n" and "0 < n" and "n < 2 ^ 64"
  shows "hash_arrays W n bs hh = Inr (hh @ elements_root E (of_nat n) (map (vector_root E) bs))"
proof -
  have n: "unat (of_nat n :: u64) = n" "(0 :: u64) < of_nat n"
    using assms(4,5) by (simp_all add: unat_of_nat word_less_nat_alt)
  have "fold (PutBytes W) bs hh = hh @ concat (map (vector_root E) bs)"
    using assms(1) by (induction bs arbitrary: hh) (simp_all add: put_bytes)
  then show ?thesis
    using mixin_roots [OF _ assms(2), of "map (vector_root E) bs" "of_nat n" "of_nat (length bs)"] n assms(3)
    by (simp add: hash_arrays_def elements_root_def)
qed

lemma fill_up_append: "32 dvd length hh \<Longrightarrow> fill_up (length hh + k) = fill_up k"
  by (simp add: fill_up_def mod_add_eq [symmetric] dvd_eq_mod_eq_0)

lemma walk_uint64s:
  assumes "32 dvd length hh" and "length vs \<le> 1099511627776"
  shows "hash_uint64s W 1099511627776 vs hh = Inr (hh @ uint64s_root E vs)"
proof -
  let ?b = "concat (map le_bytes vs)"
  have len: "length ?b = length vs * 8" by (rule length_concat_u64)
  have app: "fold (AppendUint64 W) vs hh = hh @ ?b" using fold_append [of "AppendUint64 W" le_bytes] by simp
  have lim: "CalculateLimit W 1099511627776 k 8 = 274877906944" for k
    using calculate_limit [of 1099511627776 8] by simp
  have "length (byte_chunks (?b @ fill_up (length ?b))) \<le> unat (274877906944 :: u64)"
    using assms(2) len unfolding byte_chunks_fill by (simp add: byte_chunks_def)
  from merkleize_mixin [OF assms(1) this, of "of_nat (length vs)"]
  show ?thesis
    using assms app lim
    by (simp add: hash_uint64s_def uint64s_root_def fill_up_append byte_chunks_fill)
qed

subsection \<open>The generated methods compute the roots\<close>

lemma PayloadHeader_walk:
  assumes "PayloadHeader_wf e" and "32 dvd length buf"
  shows "ExecutionPayloadHeaderDeneb_HashTreeRootWith W e buf = Inr (buf @ container_root E (PayloadHeader_fields E e))"
  using assms merkleize_roots [of "PayloadHeader_fields E e" buf]
  by (simp add: ExecutionPayloadHeaderDeneb_HashTreeRootWith_def PayloadHeader_fields_def PayloadHeader_wf_def
      put_bytes nonempty_length walk_extra byte_list_root_def)

lemma walk_transactions:
  assumes "\<forall>t \<in> set txs. length t \<le> 1073741824" and "length txs \<le> 1048576" and "32 dvd length hh"
  shows "hash_elements W (hash_transaction W) 1048576 txs hh = Inr (hh @ transactions_root E txs)"
  using walk_elements [of txs "hash_transaction W" "byte_list_root E 1073741824" hh 1048576] assms
  by (simp add: walk_transaction transactions_root_def) (simp add: byte_list_root_def)

lemma walk_withdrawals:
  assumes "\<forall>w \<in> set ws. Withdrawal_wf w" and "length ws \<le> 16" and "32 dvd length hh"
  shows "hash_elements W (Withdrawal_HashTreeRootWith W) 16 ws hh = Inr (hh @ withdrawals_root E ws)"
  using walk_elements [of ws "Withdrawal_HashTreeRootWith W" "Withdrawal_root E" hh 16] assms
  by (simp add: Withdrawal_walk withdrawals_root_def Withdrawal_root_def Withdrawal_fields_def)

lemma walk_deposits:
  assumes "\<forall>d \<in> set ds. Deposit_wf d" and "length ds \<le> 16" and "32 dvd length hh"
  shows "hash_elements W (Deposit_HashTreeRootWith W) 16 ds hh = Inr (hh @ elements_root E 16 (map (Deposit_root E) ds))"
  using walk_elements [of ds "Deposit_HashTreeRootWith W" "Deposit_root E" hh 16] assms
  by (simp add: Deposit_walk Deposit_root_def Deposit_fields_def)

lemma walk_validators:
  assumes "\<forall>v \<in> set vs. Validator_wf v" and "length vs \<le> 1099511627776" and "32 dvd length hh"
  shows "hash_elements W (Validator_HashTreeRootWith W) 1099511627776 vs hh =
    Inr (hh @ elements_root E 1099511627776 (map (Validator_root E) vs))"
  using walk_elements [of vs "Validator_HashTreeRootWith W" "Validator_root E" hh 1099511627776] assms
  by (simp add: Validator_walk Validator_root_def Validator_fields_def)

lemma list_root_lengths [simp]:
  "length (elements_root E n rs) = 32" "length (byte_list_root E n b) = 32" "length (uint64s_root E vs) = 32"
  "length (transactions_root E txs) = 32" "length (withdrawals_root E ws) = 32"
  by (simp_all add: elements_root_def byte_list_root_def uint64s_root_def transactions_root_def withdrawals_root_def)

lemma Payload_walk:
  assumes "Payload_wf e" and "32 dvd length buf"
  shows "ExecutableDataDeneb_HashTreeRootWith W e buf = Inr (buf @ container_root E (Payload_fields E e))"
  using assms merkleize_roots [of "Payload_fields E e" buf]
  by (simp add: ExecutableDataDeneb_HashTreeRootWith_def Payload_fields_def payload_fields_def Payload_wf_def
      put_bytes nonempty_length walk_extra walk_transactions walk_withdrawals)

lemma field_lengths [simp]:
  "\<forall>r \<in> set (Payload_fields E e). length r = 32" "\<forall>r \<in> set (PayloadHeader_fields E ph). length r = 32"
  "\<forall>r \<in> set (Eth1Data_fields E ed). length r = 32" "\<forall>r \<in> set (Fork_fields E fk). length r = 32"
  "\<forall>r \<in> set (BeaconBlockHeader_fields E h). length r = 32"
  by (simp_all add: Payload_fields_def payload_fields_def PayloadHeader_fields_def Eth1Data_fields_def Fork_fields_def
      BeaconBlockHeader_fields_def)

lemma Body_walk:
  assumes "Body_wf b" and "32 dvd length buf"
  shows "BeaconBlockBodyDeneb_HashTreeRootWith W b buf = Inr (buf @ container_root E (Body_fields E b))"
  using assms merkleize_roots [of "Body_fields E b" buf] walk_arrays [of "bd_BlobKzgCommitments b" _ 16]
  by (simp add: BeaconBlockBodyDeneb_HashTreeRootWith_def Body_fields_def Body_wf_def
      put_bytes nonempty_length Eth1Data_walk walk_deposits Payload_walk)

lemma Block_walk:
  assumes "Block_wf b" and "32 dvd length buf"
  shows "BeaconBlockDeneb_HashTreeRootWith W b buf = Inr (buf @ container_root E (Block_fields E b))"
  using assms merkleize_roots [of "Block_fields E b" buf]
  by (simp add: BeaconBlockDeneb_HashTreeRootWith_def Block_fields_def Block_wf_def put_bytes nonempty_length
      Body_walk Body_fields_def)

lemma State_walk:
  assumes "State_wf b" and "32 dvd length buf"
  shows "BeaconState_HashTreeRootWith W b buf = Inr (buf @ container_root E (State_fields E b))"
  using assms merkleize_roots [of "State_fields E b" buf] walk_appended [of _ _ 8192] walk_appended [of _ _ 65536]
  by (simp add: BeaconState_HashTreeRootWith_def State_fields_def State_wf_def put_bytes nonempty_length
      Fork_walk BeaconBlockHeader_walk Eth1Data_walk PayloadHeader_walk walk_validators walk_uint64s)

end

end
