(* ===== verification/RootProps.thy ===== *)
theory RootProps
  imports Roots CodecProps
begin

section \<open>The hand-written and the generated hash tree roots\<close>

text \<open>
  The parameter \<open>ssz_env\<close> of the state transition instantiated by the generated methods, and the
  relation of the roots that the hand-written code computes (\<open>MerkleizeByteSlice\<close>, the lists of
  deposits, withdrawals and transactions, the payload wrapper, the members of a body) to the roots of
  the generated code.
\<close>

definition generated_env :: "hash_walker \<Rightarrow> merkle_env \<Rightarrow> ssz_env" where
  "generated_env W E = \<lparr>
     merkle = E,
     htr_ForkData = ForkData_HashTreeRoot W,
     htr_SigningData = SigningData_HashTreeRoot W,
     htr_DepositMessage = DepositMessage_HashTreeRoot W,
     htr_Validator = Validator_HashTreeRoot W,
     htr_Deposit = Deposit_HashTreeRoot W,
     htr_Withdrawal = Withdrawal_HashTreeRoot W,
     htr_Eth1Data = Eth1Data_HashTreeRoot W,
     htr_BeaconBlockHeader = BeaconBlockHeader_HashTreeRoot W,
     htr_ExecutionPayloadHeader = ExecutionPayloadHeaderDeneb_HashTreeRoot W,
     htr_BeaconBlockBody = BeaconBlockBodyDeneb_HashTreeRoot W,
     htr_BeaconState = BeaconState_HashTreeRoot W\<rparr>"

lemma generated_env_simps [simp]:
  "merkle (generated_env W E) = E"
  "htr_Deposit (generated_env W E) = Deposit_HashTreeRoot W"
  "htr_Withdrawal (generated_env W E) = Withdrawal_HashTreeRoot W"
  "htr_Eth1Data (generated_env W E) = Eth1Data_HashTreeRoot W"
  "htr_BeaconBlockHeader (generated_env W E) = BeaconBlockHeader_HashTreeRoot W"
  "htr_ExecutionPayloadHeader (generated_env W E) = ExecutionPayloadHeaderDeneb_HashTreeRoot W"
  "htr_BeaconBlockBody (generated_env W E) = BeaconBlockBodyDeneb_HashTreeRoot W"
  by (simp_all add: generated_env_def)

subsection \<open>A digest binds the leaves of a tree\<close>

definition collision :: "merkle_env \<Rightarrow> bool" where
  "collision E \<longleftrightarrow> (\<exists>x y. x \<noteq> y \<and> Sum256 E x = Sum256 E y)"

lemma digest_inj:
  "\<not> collision E \<Longrightarrow> Sum256 E (a @ b) = Sum256 E (c @ d) \<Longrightarrow> length a = length c \<Longrightarrow> a = c \<and> b = d"
  unfolding collision_def by (metis append_eq_append_conv)

lemma node_binds:
  assumes "\<not> collision E" and "\<And>d i. length (node E xs d i) = 32" "\<And>d i. length (node E ys d i) = 32"
    and "node E xs d i = node E ys d i" and "i * 2 ^ d \<le> j" "j < (i + 1) * 2 ^ d"
  shows "node E xs 0 j = node E ys 0 j"
  using assms(4-6)
proof (induction d arbitrary: i)
  case 0
  then have "i = j" by simp
  with 0(1) show ?case by blast
next
  case (Suc d)
  have sides: "node E xs d (2 * i) = node E ys d (2 * i)" "node E xs d (2 * i + 1) = node E ys d (2 * i + 1)"
    using digest_inj [OF assms(1) Suc.prems(1) [unfolded node.simps(2)]] assms(2,3) by simp_all
  have range: "2 * i * 2 ^ d \<le> j" "j < (2 * i + 2) * 2 ^ d"
    using Suc.prems(2,3) by (simp_all add: algebra_simps)
  show ?case
  proof (cases "j < (2 * i + 1) * 2 ^ d")
    case True
    then show ?thesis using Suc.IH [OF sides(1)] range by simp
  next
    case False
    then show ?thesis using Suc.IH [OF sides(2)] range by simp
  qed
qed

lemma leaves_bound:
  assumes "\<not> collision E" and "\<And>d i. length (node E xs d i) = 32" "\<And>d i. length (node E ys d i) = 32"
    and "node E xs d 0 = node E ys d 0" and "length xs \<le> 2 ^ d" and "length xs = length ys"
  shows "xs = ys"
proof (rule nth_equalityI)
  fix j assume j: "j < length xs"
  then have "node E xs 0 j = node E ys 0 j" using assms(5) by (intro node_binds [OF assms(1-4)]) simp_all
  then show "xs ! j = ys ! j" using j assms(6) by simp
qed (rule assms(6))

context ssz_walker
begin

lemma mixin_root_binds:
  assumes "\<not> collision E" and "\<forall>r \<in> set xs. length r = 32" "\<forall>r \<in> set ys. length r = 32" "length xs = length ys"
    and "mixin_root E xs n l = mixin_root E ys n l" and "length xs \<le> 2 ^ limit_depth l"
  shows "xs = ys"
proof -
  have nodes: "length (node E xs d i) = 32" "length (node E ys d i) = 32" for d i using assms(2,3) by simp_all
  have "node E xs (limit_depth l) 0 = node E ys (limit_depth l) 0"
    using digest_inj [OF assms(1) assms(5) [unfolded mixin_root_def]] nodes by simp
  then show ?thesis by (rule leaves_bound [OF assms(1) nodes]) (use assms in simp_all)
qed

lemma container_root_binds:
  assumes "\<not> collision E" and "\<forall>r \<in> set xs. length r = 32" "\<forall>r \<in> set ys. length r = 32" "length xs = length ys"
    and "container_root E xs = container_root E ys" and "length xs \<le> 2 ^ limit_depth (of_nat (length xs))"
  shows "xs = ys"
proof -
  have nodes: "length (node E xs d i) = 32" "length (node E ys d i) = 32" for d i using assms(2,3) by simp_all
  show ?thesis
    using assms(4-6) by (intro leaves_bound [OF assms(1) nodes]) (simp_all add: container_root_def)
qed

lemma PayloadHeader_hash:
  "PayloadHeader_wf e \<Longrightarrow>
   ExecutionPayloadHeaderDeneb_HashTreeRoot W e = Inr (container_root E (PayloadHeader_fields E e))"
  by (simp add: ExecutionPayloadHeaderDeneb_HashTreeRoot_def default_hasher_root PayloadHeader_walk)

lemma Payload_hash:
  "Payload_wf e \<Longrightarrow> ExecutableDataDeneb_HashTreeRoot W e = Inr (container_root E (Payload_fields E e))"
  by (simp add: ExecutableDataDeneb_HashTreeRoot_def default_hasher_root Payload_walk)

lemma Body_hash:
  "Body_wf b \<Longrightarrow> BeaconBlockBodyDeneb_HashTreeRoot W b = Inr (container_root E (Body_fields E b))"
  by (simp add: BeaconBlockBodyDeneb_HashTreeRoot_def default_hasher_root Body_walk Body_fields_def)

lemma Block_hash:
  "Block_wf b \<Longrightarrow> BeaconBlockDeneb_HashTreeRoot W b = Inr (container_root E (Block_fields E b))"
  by (simp add: BeaconBlockDeneb_HashTreeRoot_def default_hasher_root Block_walk Block_fields_def Body_fields_def)

lemma State_hash:
  "State_wf b \<Longrightarrow> BeaconState_HashTreeRoot W b = Inr (container_root E (State_fields E b))"
  by (simp add: BeaconState_HashTreeRoot_def default_hasher_root State_walk State_fields_def)

end

subsection \<open>The hand-written roots\<close>

text \<open>
  The fields of the payload's header as the wrapper computes them, and the members of a body: all but the
  payload have the root of the generated code.
\<close>

definition summary_fields :: "merkle_env \<Rightarrow> ExecutableDataDeneb \<Rightarrow> b32 list" where
  "summary_fields E e = payload_fields E (elements_root E 1048576 (map (vector_root E) (pl_Transactions e))) e"

definition factory_fields :: "merkle_env \<Rightarrow> BeaconBlockBodyDeneb \<Rightarrow> b32 list" where
  "factory_fields E b =
     [vector_root E (bd_RandaoReveal b),
      container_root E (Eth1Data_fields E (or_new_Eth1Data (bd_Eth1Data b))),
      vector_root E (bd_Graffiti b), elements_root E 16 (map (Deposit_root E) (bd_Deposits b)),
      container_root E (summary_fields E (bd_ExecutionPayload b)),
      elements_root E 16 (map (vector_root E) (bd_BlobKzgCommitments b))]"

text \<open>A walker together with the hashing of the Merkle package over the same digest.\<close>

locale hashing = ssz_walker + few_goroutines
begin

lemma byte_slice_root:
  assumes "length b < 2 ^ 60"
  shows "MerkleizeByteSlice E b = Inr (vector_root E b)"
proof (cases "b = []")
  case True
  then show ?thesis
    using Merkleize_spec [of "[zero32]" "Some 1"]
    by (simp add: MerkleizeByteSlice_def PartitionBytes_def vector_root_def container_root_def byte_chunks_def
        limit_depth_def Len64_def chunk_at_def zero32_def)
next
  case False
  note P = PartitionBytes_chunks [OF False assms refl]
  with Merkleize_spec [of "byte_chunks b" "Some (of_nat ((length b + 31) div 32))"] show ?thesis
    by (simp add: MerkleizeByteSlice_def vector_root_def container_root_def unat_of_nat)
qed

lemma composite_root:
  assumes "mapE htr xs = Inr rs" and "length xs \<le> n" and "n \<le> 2 ^ 62"
  shows "MerkleizeListComposite E htr xs (of_nat n) = Inr (elements_root E (of_nat n) rs)"
proof -
  have len: "length rs = length xs" using list_all2_lengthD [OF mapE_InrD [OF assms(1)]] by simp
  have n: "unat (of_nat n :: u64) = n" using assms(3) by (simp add: unat_of_nat)
  have "max (of_nat (length xs) :: u64) (of_nat n) = of_nat n"
    using assms(2,3) by (simp add: max_def word_le_nat_alt unat_of_nat)
  then show ?thesis
    using MerkleizeListComposite_spec [OF assms(1), of "of_nat n"] assms(2,3) n len
    by (simp add: elements_root_def mixin_root_def uint64_chunk_def)
qed

lemma Deposits_root:
  assumes "\<forall>d \<in> set ds. Deposit_wf d" and "length ds \<le> 16"
  shows "Deposits_HashTreeRoot (generated_env W E) ds = Inr (elements_root E 16 (map (Deposit_root E) ds))"
  using composite_root [of "Deposit_HashTreeRoot W" ds "map (Deposit_root E) ds" 16] assms
  by (simp add: Deposits_HashTreeRoot_def constants_MaxDepositsPerBlock_def mapE_Inr_map Deposit_hash Deposit_root_def)

lemma Withdrawals_root:
  assumes "\<forall>w \<in> set ws. Withdrawal_wf w" and "length ws \<le> 16"
  shows "Withdrawals_HashTreeRoot (generated_env W E) ws = Inr (withdrawals_root E ws)"
  using composite_root [of "Withdrawal_HashTreeRoot W" ws "map (Withdrawal_root E) ws" 16] assms
  by (simp add: Withdrawals_HashTreeRoot_def constants_MaxWithdrawalsPerPayload_def mapE_Inr_map
      Withdrawal_hash Withdrawal_root_def withdrawals_root_def)

text \<open>Every transaction is merkleized like a vector of bytes, without its length and its maximum.\<close>

lemma Transactions_root:
  assumes "\<forall>t \<in> set txs. length t \<le> 1073741824" and "length txs \<le> 1048576"
  shows "Transactions_HashTreeRoot (generated_env W E) txs = Inr (elements_root E 1048576 (map (vector_root E) txs))"
proof -
  have "mapE (MerkleizeByteSlice E) txs = Inr (map (vector_root E) txs)"
    using assms(1) by (intro mapE_Inr_map byte_slice_root) force
  moreover have "mapE Inr (map (vector_root E) txs) = Inr (map (vector_root E) txs)"
    using mapE_Inr_map [of "map (vector_root E) txs" Inr "\<lambda>r. r"] by simp
  ultimately show ?thesis
    using composite_root [of Inr "map (vector_root E) txs" "map (vector_root E) txs" 1048576] assms(2)
    by (simp add: Transactions_HashTreeRoot_def MaxTxsPerPayload_def)
qed

lemma wrapper_root:
  assumes "Payload_wf e"
  shows "fst (ExecutionPayload_HashTreeRoot (generated_env W E) first \<lparr>ep_inner = e, ep_header = None, ep_root = None\<rparr>) =
    Inr (container_root E (summary_fields E e))"
proof -
  define T where "T = elements_root E 1048576 (map (vector_root E) (pl_Transactions e))"
  define R where "R = withdrawals_root E (pl_Withdrawals e)"
  define h where "h = header_with_roots e T R"
  have len: "length T = 32" "length R = 32" by (simp_all add: T_def R_def)
  then have "PayloadHeader_wf h"
    using assms by (simp add: h_def PayloadHeader_wf_def Payload_wf_def header_with_roots_def)
  then have hash: "ExecutionPayloadHeaderDeneb_HashTreeRoot W h = Inr (container_root E (PayloadHeader_fields E h))"
    by (rule PayloadHeader_hash)
  have fields: "PayloadHeader_fields E h = summary_fields E e"
    unfolding PayloadHeader_fields_def summary_fields_def payload_fields_def h_def T_def [symmetric] R_def [symmetric]
    by (simp add: header_with_roots_def vector_root_chunk [OF len(1)] vector_root_chunk [OF len(2)])
  have "Transactions_HashTreeRoot (generated_env W E) (pl_Transactions e) = Inr T"
      "Withdrawals_HashTreeRoot (generated_env W E) (pl_Withdrawals e) = Inr R"
    using assms by (simp_all add: Payload_wf_def Transactions_root Withdrawals_root T_def R_def)
  then show ?thesis
    using hash by (simp add: ExecutionPayload_HashTreeRoot_def ToHeader_def bindM_def errgroup2_def
        h_def [symmetric] fields)
qed

lemma top_level_roots:
  assumes "Body_wf b" and "bd_Eth1Data b = Some d"
  shows "GetTopLevelRoots (generated_env W E) first b = Inr (butlast (factory_fields E b) @ [zero32])"
proof -
  have "MerkleizeByteSlice E (bd_RandaoReveal b) = Inr (vector_root E (bd_RandaoReveal b))"
    using assms(1) by (intro byte_slice_root) (simp add: Body_wf_def)
  moreover have "Eth1Data_HashTreeRoot W d = Inr (container_root E (Eth1Data_fields E d))"
    using assms by (intro Eth1Data_hash) (simp add: Body_wf_def or_new_Eth1Data_def)
  ultimately show ?thesis
    using assms wrapper_root [of "bd_ExecutionPayload b" first]
    by (simp add: GetTopLevelRoots_def GetExecutionPayload_def factory_fields_def Body_wf_def Deposits_root
        or_new_Eth1Data_def vector_root_chunk)
qed

lemma commitment_leaf:
  assumes "length c = 48"
  shows "ToHashChunks E c ! 0 = vector_root E c"
proof -
  have "chunk_at c 0 = take 32 (c @ zero32)" "chunk_at c 1 = take 32 (drop 32 c @ zero32)"
    using assms by (simp_all add: chunk_at_def zero32_def Let_def)
  moreover have "byte_chunks c = [chunk_at c 0, chunk_at c 1]"
    using assms by (simp add: byte_chunks_def upt_conv_Cons numeral_2_eq_2)
  ultimately show ?thesis
    by (simp add: ToHashChunks_def HashChunks_def gohashtree vector_root_def container_root_def limit_depth_def
        Len64_def RootLength_def bit_length.simps [of "Suc 0"])
qed

lemma commitments_root:
  assumes "\<forall>c \<in> set cms. length c = 48"
  shows "list_root E 4 (Leafify E cms) = elements_root E 16 (map (vector_root E) cms)"
proof -
  have "Leafify E cms = map (vector_root E) cms" using assms by (simp add: Leafify_def commitment_leaf)
  moreover have "limit_depth 16 = 4" by (simp add: limit_depth_def Len64_def bit_length.simps)
  ultimately show ?thesis
    by (simp add: list_root_def elements_root_def mixin_root_def MixinLength_def gohashtree uint64_chunk_def)
qed

lemma factory_root:
  assumes "Body_wf b" and "bd_Eth1Data b = Some d"
  shows "ssz_body_root (generated_env W E) first 4 b = Inr (container_root E (factory_fields E b))"
proof -
  have "limit_depth 6 = 3" by (simp add: limit_depth_def Len64_def bit_length.simps)
  moreover have "list_root E 4 (Leafify E (bd_BlobKzgCommitments b)) = last (factory_fields E b)"
    using assms(1) by (simp add: Body_wf_def commitments_root factory_fields_def)
  ultimately show ?thesis
    using top_level_roots [OF assms] by (simp add: ssz_body_root_def container_root_def factory_fields_def)
qed

lemma field_roots_length:
  "\<forall>r \<in> set (summary_fields E e). length r = 32" "\<forall>r \<in> set (factory_fields E b). length r = 32"
  "\<forall>r \<in> set (Body_fields E b). length r = 32"
  by (simp_all add: summary_fields_def payload_fields_def factory_fields_def Body_fields_def)

lemma summary_binds:
  assumes "Payload_wf e" and "\<not> collision E"
    and "container_root E (summary_fields E e) = container_root E (Payload_fields E e)"
  shows "\<forall>t \<in> set (pl_Transactions e). vector_root E t = byte_list_root E 1073741824 t"
proof -
  have d: "limit_depth 17 = 5" "limit_depth 1048576 = 20"
    by (simp_all add: limit_depth_def Len64_def bit_length.simps)
  have "summary_fields E e = Payload_fields E e"
    using assms(3) d field_roots_length(1)
    by (intro container_root_binds [OF assms(2)]) (simp_all add: summary_fields_def Payload_fields_def payload_fields_def)
  then have "mixin_root E (map (vector_root E) (pl_Transactions e)) (of_nat (length (pl_Transactions e))) 1048576 =
      mixin_root E (map (byte_list_root E 1073741824) (pl_Transactions e)) (of_nat (length (pl_Transactions e))) 1048576"
    by (simp add: summary_fields_def Payload_fields_def payload_fields_def transactions_root_def elements_root_def)
  then have "map (vector_root E) (pl_Transactions e) = map (byte_list_root E 1073741824) (pl_Transactions e)"
    using assms(1) d by (intro mixin_root_binds [OF assms(2)]) (auto simp: Payload_wf_def)
  then show ?thesis by simp
qed

lemma summary_empty: "pl_Transactions e = [] \<Longrightarrow> summary_fields E e = Payload_fields E e"
  by (simp add: summary_fields_def Payload_fields_def transactions_root_def)

lemma factory_agrees:
  assumes "Body_wf b"
  shows "pl_Transactions (bd_ExecutionPayload b) = [] \<Longrightarrow> factory_fields E b = Body_fields E b"
    and "\<not> collision E \<Longrightarrow> container_root E (factory_fields E b) = container_root E (Body_fields E b) \<Longrightarrow>
      \<forall>t \<in> set (pl_Transactions (bd_ExecutionPayload b)). vector_root E t = byte_list_root E 1073741824 t"
proof -
  show "factory_fields E b = Body_fields E b" if "pl_Transactions (bd_ExecutionPayload b) = []"
    using that by (simp add: factory_fields_def Body_fields_def summary_empty)
  assume n: "\<not> collision E" and eq: "container_root E (factory_fields E b) = container_root E (Body_fields E b)"
  have d: "limit_depth 6 = 3" by (simp add: limit_depth_def Len64_def bit_length.simps)
  have "factory_fields E b = Body_fields E b"
    using eq d field_roots_length(2,3)
    by (intro container_root_binds [OF n]) (simp_all add: factory_fields_def Body_fields_def)
  then have "container_root E (summary_fields E (bd_ExecutionPayload b)) =
      container_root E (Payload_fields E (bd_ExecutionPayload b))"
    by (simp add: factory_fields_def Body_fields_def)
  then show "\<forall>t \<in> set (pl_Transactions (bd_ExecutionPayload b)). vector_root E t = byte_list_root E 1073741824 t"
    using assms n by (intro summary_binds) (simp add: Body_wf_def)
qed

lemma built_sidecars:
  assumes wf: "Block_wf blk" "bd_Eth1Data (blk_Body blk) = Some d"
    and spec: "MaxBlobCommitmentsPerBlock c = 16" "BlockBodyKZGOffset slot c = Inr kzgOffset"
    and n: "length (bb_Blobs bnd) = n" "length (bb_Proofs bnd) = n" "bd_BlobKzgCommitments (blk_Body blk) = bb_Commitments bnd"
      "length (bb_Commitments bnd) = n"
    and sch: "set sch = {..<n}"
  shows "\<exists>scs. BuildSidecars (generated_env W E) sch first (NewSidecarFactory c KZGPositionDeneb) blk bnd =
      (\<lparr>Sidecars = Some (map Some scs)\<rparr>, Inr ()) \<and> length scs = n \<and>
    (VerifyInclusionProofs E kzgOffset \<lparr>Sidecars = Some (map Some scs)\<rparr> = Inr () \<longleftrightarrow>
       n = 0 \<or> container_root E (factory_fields E (blk_Body blk)) = container_root E (Body_fields E (blk_Body blk))) \<and>
    ValidateBlockRoots (generated_env W E) \<lparr>Sidecars = Some (map Some scs)\<rparr> = Inr ()"
proof -
  let ?H = "generated_env W E"
  have body: "Body_wf (blk_Body blk)" using wf(1) by (simp add: Block_wf_def)
  define r where "r = container_root E (Body_fields E (blk_Body blk))"
  define hdr where "hdr = \<lparr>hdr_Slot = blk_Slot blk, hdr_ProposerIndex = blk_ProposerIndex blk,
      hdr_ParentBlockRoot = blk_ParentBlockRoot blk, hdr_StateRoot = blk_StateRoot blk, hdr_BodyRoot = r\<rparr>"
  have root: "htr_BeaconBlockBody ?H (blk_Body blk) = Inr r" using body by (simp add: Body_hash r_def)
  then have header: "GetHeader ?H blk = Some hdr" by (simp add: GetHeader_def hdr_def)
  have "length r = 32" using field_roots_length(3) by (simp add: r_def)
  then have "BeaconBlockHeader_wf hdr" using wf(1) by (simp add: BeaconBlockHeader_wf_def hdr_def Block_wf_def)
  then have hroot: "htr_BeaconBlockHeader ?H hdr = Inr (container_root E (BeaconBlockHeader_fields E hdr))"
    by (simp add: BeaconBlockHeader_hash)
  have few: "few_goroutines (merkle ?H)" by (simp add: few_goroutines_axioms)
  have n16: "n \<le> 2 ^ 4" using body n by (simp add: Body_wf_def)
  have max: "MaxBlobCommitmentsPerBlock c = 2 ^ 4" using spec(1) by simp
  obtain scs where "BuildSidecars ?H sch first (NewSidecarFactory c KZGPositionDeneb) blk bnd =
      (\<lparr>Sidecars = Some (map Some scs)\<rparr>, Inr ())" "map sc_Index scs = map of_nat [0..<n]"
    "VerifyInclusionProofs E kzgOffset \<lparr>Sidecars = Some (map Some scs)\<rparr> = Inr () \<longleftrightarrow>
       n = 0 \<or> container_root E (factory_fields E (blk_Body blk)) = r"
    "ValidateBlockRoots ?H \<lparr>Sidecars = Some (map Some scs)\<rparr> = Inr ()"
    using BuildSidecars_result [OF few _ _ max spec(2) n(1,2,4) n16 n(3) root factory_root [OF body wf(2)] header hroot sch]
    by auto
  moreover from this(2) have "length scs = n" by (metis length_map length_upt minus_nat.diff_0)
  ultimately show ?thesis by (auto simp: r_def)
qed

end

subsection \<open>A reference hasher\<close>

definition reference_walker :: "merkle_env \<Rightarrow> hash_walker" where
  "reference_walker E = \<lparr>
     hh_Index = length,
     PutBytes = (\<lambda>b buf. buf @ vector_root E b),
     PutUint64 = (\<lambda>v buf. buf @ uint64_chunk v),
     PutBool = (\<lambda>t buf. buf @ bool_chunk t),
     hh_Append = (\<lambda>b buf. buf @ b),
     AppendUint64 = (\<lambda>v buf. buf @ le_bytes v),
     AppendBytes32 = (\<lambda>b buf. buf @ b @ fill_up (length b)),
     FillUpTo32 = (\<lambda>buf. buf @ fill_up (length buf)),
     hh_Merkleize = (\<lambda>i buf. take i buf @ vector_root E (drop i buf)),
     MerkleizeWithMixin = (\<lambda>i num limit buf. take i buf @ mixin_root E (byte_chunks (drop i buf)) num limit),
     CalculateLimit = (\<lambda>maxCapacity numItems itemSize.
       let limit = (maxCapacity * itemSize + 31) div 32 in
       if limit \<noteq> 0 then limit else if numItems = 0 then 1 else numItems),
     HashWithDefaultHasher = (\<lambda>f. bindE (f []) (\<lambda>r.
       if length r = 32 then Inr r else Inl (Ext ''expected 32 byte size'')))\<rparr>"

interpretation fold_hash: hashing "reference_walker (reference_env fold_digest 15)" "reference_env fold_digest 15"
  by unfold_locales (simp_all add: reference_walker_def Let_def)

subsection \<open>Properties\<close>

text \<open>
  C14. The generated hash tree roots are those that SSZ defines, over every hasher with the documented
  behaviour: the root of a payload, a body, a block and a beacon state is the root of the tree over
  the roots of its fields, lists with their limits and lengths mixed in.
\<close>

theorem generated_roots:
  assumes "ssz_walker W E" and "Payload_wf e" and "Body_wf b" and "Block_wf blk" and "State_wf st"
  shows "ExecutableDataDeneb_HashTreeRoot W e = Inr (container_root E (Payload_fields E e)) \<and>
    BeaconBlockBodyDeneb_HashTreeRoot W b = Inr (container_root E (Body_fields E b)) \<and>
    BeaconBlockDeneb_HashTreeRoot W blk = Inr (container_root E (Block_fields E blk)) \<and>
    BeaconState_HashTreeRoot W st = Inr (container_root E (State_fields E st))"
  using ssz_walker.Payload_hash [OF assms(1,2)] ssz_walker.Body_hash [OF assms(1,3)]
    ssz_walker.Block_hash [OF assms(1,4)] ssz_walker.State_hash [OF assms(1,5)] by simp

theorem generated_roots_witness:
  "BeaconState_HashTreeRoot (reference_walker (reference_env fold_digest 15)) demo_state =
     Inr (container_root (reference_env fold_digest 15) (State_fields (reference_env fold_digest 15) demo_state)) \<and>
   BeaconBlockDeneb_HashTreeRoot (reference_walker (reference_env fold_digest 15)) demo_block =
     Inr (container_root (reference_env fold_digest 15) (Block_fields (reference_env fold_digest 15) demo_block))"
proof -
  have "Body_wf (blk_Body demo_block)" "Payload_wf (bd_ExecutionPayload (blk_Body demo_block))"
    using demo_block_wf by (simp_all add: Block_wf_def Body_wf_def)
  then show ?thesis
    using generated_roots [OF fold_hash.ssz_walker_axioms _ _ demo_block_wf demo_state_wf] by blast
qed

text \<open>
  C18. The sidecars of a block, with the generated roots. \<open>BuildSidecars\<close> succeeds with one sidecar per blob,
  and the sidecars agree on the block root. If the payload has no transactions, their inclusion proofs
  are valid. If it has transactions, valid proofs of at least one sidecar exhibit a collision of the digest or
  a transaction whose bytes merkleized as a vector, which is what \<open>Transactions.HashTreeRoot\<close> computes,
  have the root that SSZ gives to a list of bytes.
\<close>

theorem sidecars_of_generated_block:
  assumes "hashing W E" and "Block_wf blk" "bd_Eth1Data (blk_Body blk) = Some d"
    and "MaxBlobCommitmentsPerBlock c = 16" "BlockBodyKZGOffset slot c = Inr kzgOffset"
    and "length (bb_Blobs bnd) = n" "length (bb_Proofs bnd) = n"
      "bd_BlobKzgCommitments (blk_Body blk) = bb_Commitments bnd" "length (bb_Commitments bnd) = n"
    and "set sch = {..<n}"
  shows "\<exists>scs. BuildSidecars (generated_env W E) sch first (NewSidecarFactory c KZGPositionDeneb) blk bnd =
      (\<lparr>Sidecars = Some (map Some scs)\<rparr>, Inr ()) \<and> length scs = n \<and>
    ValidateBlockRoots (generated_env W E) \<lparr>Sidecars = Some (map Some scs)\<rparr> = Inr () \<and>
    (pl_Transactions (bd_ExecutionPayload (blk_Body blk)) = [] \<longrightarrow>
       VerifyInclusionProofs E kzgOffset \<lparr>Sidecars = Some (map Some scs)\<rparr> = Inr ()) \<and>
    (VerifyInclusionProofs E kzgOffset \<lparr>Sidecars = Some (map Some scs)\<rparr> = Inr () \<longrightarrow> 0 < n \<longrightarrow> collision E \<or>
       (\<forall>t \<in> set (pl_Transactions (bd_ExecutionPayload (blk_Body blk))).
          vector_root E t = byte_list_root E 1073741824 t))"
proof -
  note agree = hashing.factory_agrees [OF assms(1), of "blk_Body blk"]
  have "Body_wf (blk_Body blk)" using assms(2) by (simp add: Block_wf_def)
  then show ?thesis
    using hashing.built_sidecars [OF assms, of first] agree by (metis neq0_conv)
qed

lemma blob_block_wf: "Block_wf blob_block"
  by (simp add: blob_block_def blob_bundle_def Block_wf_def Body_wf_def Payload_wf_def or_new_Eth1Data_def
      Eth1Data_wf_def NewEth1Data_def demo_block_def demo_body_def)

theorem sidecars_of_generated_block_witness:
  "\<exists>scs. BuildSidecars (generated_env (reference_walker (reference_env fold_digest 15)) (reference_env fold_digest 15))
       [1, 0] True (NewSidecarFactory BaseSpec KZGPositionDeneb) blob_block blob_bundle =
     (\<lparr>Sidecars = Some (map Some scs)\<rparr>, Inr ()) \<and> length scs = 2 \<and>
   VerifyInclusionProofs (reference_env fold_digest 15) 416 \<lparr>Sidecars = Some (map Some scs)\<rparr> = Inr ()"
proof -
  have off: "BlockBodyKZGOffset 4 BaseSpec = Inr 416"
    by (simp add: BlockBodyKZGOffset_def ActiveForkVersionForSlot_def SlotToEpoch_def KZGMerkleIndexDeneb_def
        ActiveForkVersionForEpoch_def)
  have sch: "set [1, 0] = {..<2 :: nat}" by auto
  have blk: "bd_Eth1Data (blk_Body blob_block) = Some (NewEth1Data zero32 0 zero32)"
    "bd_BlobKzgCommitments (blk_Body blob_block) = bb_Commitments blob_bundle"
    "pl_Transactions (bd_ExecutionPayload (blk_Body blob_block)) = []"
    by (simp_all add: blob_block_def)
  have bnd: "length (bb_Blobs blob_bundle) = 2" "length (bb_Proofs blob_bundle) = 2" "length (bb_Commitments blob_bundle) = 2"
    by (simp_all add: blob_bundle_def)
  have spec: "MaxBlobCommitmentsPerBlock BaseSpec = 16" by simp
  show ?thesis
    using sidecars_of_generated_block [OF fold_hash.hashing_axioms blob_block_wf blk(1) spec off bnd(1,2) blk(2) bnd(3) sch]
      blk(3) by blast
qed

end
