(* ===== verification/Blockchain.thy ===== *)
theory Blockchain
  imports Chain RootProps Builder Availability
begin

section \<open>The blockchain service\<close>

text \<open>
  \<open>beacon/blockchain\<close>: verification of a proposed block and its blobs (\<open>receive.go\<close>), processing of a
  finalized block (\<open>process.go\<close>), the payload builds and forkchoice updates that follow (\<open>payload.go\<close>,
  \<open>execution_engine.go\<close>), and the fatal and non-fatal errors of \<open>errors/mod.go\<close>.

  A goroutine that the service starts and does not wait for is a value of type \<open>task\<close>: the
  functions return the tasks that they start, \<open>run_task\<close> runs one. The two goroutines that a function waits for
  work on different stores (the context of the beacon state and the file system of the blobs), so
  their order only decides which error is returned. Clocks, logging and metrics are left out; the time
  of the clock is an argument where the code reads it.
\<close>

subsection \<open>Slots over the generated roots\<close>

text \<open>
  What slot processing needs of the hasher (\<open>hash_roots\<close>) holds of the generated methods over every hasher with the
  documented behaviour: they fail on nothing but their length checks, and return 32 bytes.
\<close>

text \<open>The walks over the members of a state end with a buffer.\<close>

lemma member_walks:
  "\<exists>r. Fork_HashTreeRootWith W fork buf = Inr r"
  "\<exists>r. BeaconBlockHeader_HashTreeRootWith W header buf = Inr r"
  "\<exists>r. Eth1Data_HashTreeRootWith W eth1 buf = Inr r"
  "length roots \<le> limit \<Longrightarrow> \<exists>r. hash_appended W limit roots buf = Inr r"
  "length vs \<le> limit \<Longrightarrow> \<exists>r. hash_uint64s W limit vs buf = Inr r"
  "payload_header_encodable e \<Longrightarrow> \<exists>r. ExecutionPayloadHeaderDeneb_HashTreeRootWith W e buf = Inr r"
  by (simp_all add: Fork_HashTreeRootWith_def BeaconBlockHeader_HashTreeRootWith_def Eth1Data_HashTreeRootWith_def
      hash_appended_def hash_uint64s_def ExecutionPayloadHeaderDeneb_HashTreeRootWith_def hash_byte_list_def
      payload_header_encodable_def word_le_nat_alt word_less_nat_alt unat_of_nat Let_def)

lemma Validators_walk:
  assumes "length vs \<le> 1099511627776"
  shows "\<exists>r. hash_elements W (Validator_HashTreeRootWith W) 1099511627776 vs buf = Inr r"
proof -
  have "\<exists>r. marshal_each (Validator_HashTreeRootWith W) vs buf = Inr r" for buf
    by (induction vs arbitrary: buf) (simp_all add: Validator_HashTreeRootWith_def Let_def)
  then obtain r where "marshal_each (Validator_HashTreeRootWith W) vs buf = Inr r" by blast
  then show ?thesis
    using assms by (simp add: hash_elements_def word_less_nat_alt unat_of_nat Let_def)
qed

lemma BeaconState_walk:
  assumes "state_encodable st"
  shows "\<exists>buf'. BeaconState_HashTreeRootWith W st buf = Inr (hh_Merkleize W (hh_Index W buf) buf')"
proof -
  have bind: "\<exists>buf'. bindE a k = Inr (hh_Merkleize W n buf')"
    if "\<exists>r. a = Inr r" "\<And>r. \<exists>buf'. k r = Inr (hh_Merkleize W n buf')" for a k n
    using that by auto
  note st = assms [unfolded state_encodable_def]
  show ?thesis
    unfolding BeaconState_HashTreeRootWith_def Let_def
    by (intro bind member_walks Validators_walk) (use st in auto)
qed

context ssz_walker
begin

lemma walked_root: "f [] = Inr (hh_Merkleize W (hh_Index W []) buf) \<Longrightarrow> \<exists>r. HashWithDefaultHasher W f = Inr r \<and> length r = 32"
  using merkleize [of "[]" buf] default_hasher_root [of f] by auto

lemma generated_header_root: "\<exists>r. htr_BeaconBlockHeader (generated_env W E) h = Inr r \<and> length r = 32"
  unfolding generated_env_simps BeaconBlockHeader_HashTreeRoot_def
  by (rule walked_root) (simp add: BeaconBlockHeader_HashTreeRootWith_def Let_def)

lemma generated_state_root: "state_encodable st \<Longrightarrow> \<exists>r. htr_BeaconState (generated_env W E) st = Inr r \<and> length r = 32"
  using BeaconState_walk [of st W "[]"] walked_root by (auto simp: generated_env_def BeaconState_HashTreeRoot_def)

end

sublocale ssz_walker \<subseteq> slot_roots: hash_roots "generated_env W E"
  by unfold_locales (fact generated_header_root, fact generated_state_root)

text \<open>The instance on which the genesis of \<open>Bootstrap\<close> runs.\<close>

interpretation generated_hashes: hash_roots "generated_env (reference_walker (reference_env fold_digest 15)) (reference_env fold_digest 15)"
  by (rule fold_hash.slot_roots.hash_roots_axioms)

subsection \<open>Fatal errors\<close>

text \<open>
  An error of a service: one of the components, a \<open>DetailedError\<close> with its fatal flag and a possibly
  nil inner error, or a join. \<open>DetailedError\<close> has no \<open>Unwrap\<close>; \<open>errors.As\<close> finds the first one of a join.
\<close>

datatype goerr = Plain err | DetailedError "goerr option" bool | Joined "goerr list"

definition WrapNonFatal :: "goerr option \<Rightarrow> goerr" where
  "WrapNonFatal e = DetailedError e False"

definition WrapFatal :: "goerr option \<Rightarrow> goerr" where
  "WrapFatal e = DetailedError e True"

fun as_DetailedError :: "goerr \<Rightarrow> (goerr option \<times> bool) option"
  and as_first :: "goerr list \<Rightarrow> (goerr option \<times> bool) option" where
  "as_DetailedError (Plain e) = None"
| "as_DetailedError (DetailedError e fatal) = Some (e, fatal)"
| "as_DetailedError (Joined es) = as_first es"
| "as_first [] = None"
| "as_first (e # es) = (case as_DetailedError e of None \<Rightarrow> as_first es | Some d \<Rightarrow> Some d)"

definition IsFatal :: "goerr option \<Rightarrow> bool" where
  "IsFatal e =
     (case e of
        None \<Rightarrow> False
      | Some e \<Rightarrow>
          (case as_DetailedError e of
             None \<Rightarrow> True
           | Some (inner, fatal) \<Rightarrow> if inner = None then False else fatal))"

text \<open>\<open>errors.Join\<close> drops nil errors and is nil when all are.\<close>

definition errors_Join :: "goerr option list \<Rightarrow> goerr option" where
  "errors_Join es = (let es = List.map_filter id es in if es = [] then None else Some (Joined es))"

definition JoinFatal :: "goerr option list \<Rightarrow> goerr" where
  "JoinFatal errs =
     (let fatal = list_ex IsFatal errs;
          retErr = errors_Join errs
      in if fatal then WrapFatal retErr else WrapNonFatal retErr)"

abbreviation ErrNilBlk :: err where "ErrNilBlk \<equiv> Newf ''nil beacon block''"
abbreviation ErrDataNotAvailable :: err where "ErrDataNotAvailable \<equiv> Newf ''data not available''"

subsection \<open>The service\<close>

record Service =
  svc_cs :: SpecData
  svc_ee :: eth1_rpc
  svc_lb :: PayloadBuilder
  svc_bp :: BlobProofVerifier
  svc_sp :: StateProcessor
  svc_hasher :: hash_walker
  svc_ssz :: fastssz
  optimisticPayloadBuilds :: bool

datatype 'c task =
    RebuildPayload "'c Handle"
  | OptimisticBuild "'c Handle" BeaconBlockDeneb
  | PostBlock "'c Handle" BeaconBlockDeneb

definition shouldBuildOptimisticPayloads :: "Service \<Rightarrow> bool" where
  "shouldBuildOptimisticPayloads s \<longleftrightarrow> optimisticPayloadBuilds s \<and> Enabled (svc_lb s)"

text \<open>The schedules of a call: of the blob verifier and of the state processor's error groups.\<close>

record Schedules =
  sch_blobs :: "nat list"
  sch_block :: Schedule
  block_first :: bool

subsection \<open>Receiving a proposal\<close>

text \<open>Errors are logged.\<close>

definition forceStartupHead :: "Service \<Rightarrow> 'c KVStore \<Rightarrow> 'c \<Rightarrow> 'c" where
  "forceStartupHead s kv c =
     (case GetSlot kv c of
        (Inl _, c) \<Rightarrow> c
      | (Inr slot, c) \<Rightarrow> snd (SendForceHeadFCU (svc_lb s) kv (slot + 1) c))"

definition verifyStateRoot ::
  "Service \<Rightarrow> Schedule \<Rightarrow> 'c Branching \<Rightarrow> 'c KVStore \<Rightarrow> BeaconBlock \<Rightarrow> 'c Handle \<Rightarrow> err option \<times> 'c Handle" where
  "verifyStateRoot s sch B kv blk st =
     (case Transition (svc_sp s) sch B
             \<lparr>OptimisticEngine = False, SkipPayloadVerification = False, SkipValidateRandao = False,
              SkipValidateResult = False\<rparr> kv blk st of
        (Inl e, st) \<Rightarrow> (if errors_Is e (EL ErrAcceptedPayloadStatus) then None else Some e, st)
      | (Inr _, st) \<Rightarrow> (None, st))"

text \<open>
  The state of the service is whether the startup head was forced, and the state of the context.
  \<open>postState\<close> is a branch of the context whose \<open>Save\<close> writes back into it.
\<close>

definition VerifyIncomingBlock ::
  "Service \<Rightarrow> Schedule \<Rightarrow> 'c Branching \<Rightarrow> 'c KVStore \<Rightarrow> BeaconBlock \<Rightarrow> bool \<times> 'c Handle \<Rightarrow>
   goerr option \<times> (bool \<times> 'c Handle) \<times> 'c task list" where
  "VerifyIncomingBlock s sch B kv blk st =
     (let (synced, preState) = st;
          preState = (if synced then preState
                      else preState\<lparr>h_ctx := forceStartupHead s kv (h_ctx preState)\<rparr>) in
      case blk of
        None \<Rightarrow> (Some (WrapNonFatal (Some (Plain ErrNilBlk))), (True, preState), [])
      | Some b \<Rightarrow>
          (case verifyStateRoot s sch B kv blk (Copy B preState) of
             (Some e, postState) \<Rightarrow>
               (Some (Plain e), (True, preState),
                if shouldBuildOptimisticPayloads s then [RebuildPayload preState] else [])
           | (None, postState) \<Rightarrow>
               (None,
                (True, preState\<lparr>h_ctx := (case h_parent postState of None \<Rightarrow> h_ctx preState | Some c \<Rightarrow> c)\<rparr>),
                if shouldBuildOptimisticPayloads s then [OptimisticBuild postState b] else [])))"

definition VerifyIncomingBlobs ::
  "Service \<Rightarrow> nat list \<Rightarrow> BeaconBlock \<Rightarrow> BlobSidecars option \<Rightarrow> goerr option" where
  "VerifyIncomingBlobs s sch blk sidecars =
     (case blk of
        None \<Rightarrow> Some (WrapNonFatal (Some (Plain ErrNilBlk)))
      | Some b \<Rightarrow>
          if BlobSidecars_IsNil sidecars \<or> BlobSidecars_Len (the sidecars) = 0 then None
          else (case Processor_VerifyBlobs (sszEnv (svc_sp s)) sch (svc_bp s) (svc_cs s) (blk_Slot b) sidecars of
                  Inl e \<Rightarrow> Some (Plain e)
                | Inr _ \<Rightarrow> None))"

definition ReceiveBlockAndBlobs ::
  "Service \<Rightarrow> Schedules \<Rightarrow> 'c Branching \<Rightarrow> 'c KVStore \<Rightarrow> BeaconBlock \<Rightarrow> BlobSidecars option \<Rightarrow>
   bool \<times> 'c Handle \<Rightarrow> goerr \<times> (bool \<times> 'c Handle) \<times> 'c task list" where
  "ReceiveBlockAndBlobs s sch B kv blk blobs st =
     (case VerifyIncomingBlock s (sch_block sch) B kv blk st of
        (blockErr, st, tasks) \<Rightarrow>
          let blobsErr = VerifyIncomingBlobs s (sch_blobs sch) blk blobs
          in (JoinFatal [blockErr, blobsErr], st, tasks))"

subsection \<open>Processing a finalized block\<close>

definition ProcessGenesisData ::
  "Service \<Rightarrow> 'c Branching \<Rightarrow> 'c KVStore \<Rightarrow> Deposit list \<Rightarrow> ExecutionPayloadHeaderDeneb \<Rightarrow> bytes \<Rightarrow>
   ('c Handle, ValidatorUpdate list) M" where
  "ProcessGenesisData s B kv deposits executionPayloadHeader forkVersion =
     InitializePreminedBeaconStateFromEth1 (svc_sp s) B kv deposits executionPayloadHeader forkVersion"

definition processBeaconBlock ::
  "Service \<Rightarrow> Schedule \<Rightarrow> 'c Branching \<Rightarrow> 'c KVStore \<Rightarrow> BeaconBlock \<Rightarrow> ('c Handle, ValidatorUpdate list) M" where
  "processBeaconBlock s sch B kv blk =
     Transition (svc_sp s) sch B
       \<lparr>OptimisticEngine = True, SkipPayloadVerification = False, SkipValidateRandao = False,
        SkipValidateResult = False\<rparr> kv blk"

definition processBlobSidecars ::
  "Service \<Rightarrow> nat list \<Rightarrow> 's Store \<Rightarrow> u64 \<Rightarrow> BlobSidecars option \<Rightarrow> ('s, unit) M" where
  "processBlobSidecars s sch avs slot sidecars =
     ProcessBlobs (\<lambda>sc. BlobSidecar_MarshalSSZ (svc_ssz s) (Some sc)) sch avs slot sidecars"

definition ProcessBlockAndBlobs ::
  "Service \<Rightarrow> Schedules \<Rightarrow> 'c Branching \<Rightarrow> 'c KVStore \<Rightarrow> 's Store \<Rightarrow> BeaconBlock \<Rightarrow> BlobSidecars option \<Rightarrow>
   'c Handle \<times> 's \<Rightarrow> (err + ValidatorUpdate list) \<times> ('c Handle \<times> 's) \<times> 'c task list" where
  "ProcessBlockAndBlobs s sch B kv avs blk sidecars st =
     (case st of (h, fs) \<Rightarrow>
      case blk of
        None \<Rightarrow> (Inl ErrNilBlk, (h, fs), [])
      | Some b \<Rightarrow>
          (case processBeaconBlock s (sch_block sch) B kv blk h of
             (r1, h) \<Rightarrow>
               (case processBlobSidecars s (sch_blobs sch) avs (blk_Slot b) sidecars fs of
                  (r2, fs) \<Rightarrow>
                    (case errgroup2 (block_first sch) r1 r2 of
                       Inl e \<Rightarrow> (Inl e, (h, fs), [])
                     | Inr (valUpdates, _) \<Rightarrow>
                         (case IsDataAvailable avs (blk_Slot b) (blk_Body b) fs of
                            (False, fs) \<Rightarrow> (Inl ErrDataNotAvailable, (h, fs), [])
                          | (True, fs) \<Rightarrow> (Inr valUpdates, (h, fs), [PostBlock h b]))))))"

subsection \<open>Payload builds and forkchoice updates\<close>

text \<open>The builder works on the beacon state of a task and on its own cache.\<close>

definition on_state :: "('c, 'a) M \<Rightarrow> ('c \<times> PayloadIDCache, 'a) M" where
  "on_state m st = (case st of (c, pc) \<Rightarrow> case m c of (r, c) \<Rightarrow> (r, (c, pc)))"

definition rebuildPayloadForRejectedBlock ::
  "Service \<Rightarrow> 'c KVStore \<Rightarrow> u64 \<Rightarrow> ('c \<times> PayloadIDCache, unit) M" where
  "rebuildPayloadForRejectedBlock s kv now =
     bindM (on_state (GetLatestBlockHeader kv)) (\<lambda>latestHeader.
     bindM (on_state (GetSlot kv)) (\<lambda>stateSlot.
     bindM (on_state (StateDB_HashTreeRoot kv (svc_cs s) (sszEnv (svc_sp s)))) (\<lambda>prevStateRoot.
     let latestHeader = SetStateRoot latestHeader prevStateRoot in
     bindM (liftE (htr_BeaconBlockHeader (sszEnv (svc_sp s)) latestHeader)) (\<lambda>prevBlockRoot.
     bindM (on_state (GetLatestExecutionPayloadHeader kv)) (\<lambda>lph.
     bindM (RequestPayloadAsync (svc_lb s) kv stateSlot (max (now + 1) (ph_Timestamp lph + 1)) prevBlockRoot
              (ph_BlockHash lph) (ph_BlockHash lph)) (\<lambda>_.
     ret ()))))))"

definition optimisticPayloadBuild ::
  "Service \<Rightarrow> 'c KVStore \<Rightarrow> u64 \<Rightarrow> BeaconBlockDeneb \<Rightarrow> ('c \<times> PayloadIDCache, unit) M" where
  "optimisticPayloadBuild s kv now blk =
     (let slot = blk_Slot blk + 1 in
      bindM (liftE (BeaconBlockDeneb_HashTreeRoot (svc_hasher s) blk)) (\<lambda>blkRoot.
      bindM (on_state (ProcessSlots (svc_sp s) kv slot)) (\<lambda>_.
      let payload = bd_ExecutionPayload (blk_Body blk) in
      bindM (RequestPayloadAsync (svc_lb s) kv slot
               (max (now + TargetSecondsPerEth1Block (svc_cs s)) (pl_Timestamp payload + 1)) blkRoot
               (pl_BlockHash payload) (pl_ParentHash payload)) (\<lambda>_.
      ret ()))))"

definition calculateNextTimestamp :: "Service \<Rightarrow> u64 \<Rightarrow> BeaconBlockDeneb \<Rightarrow> u64" where
  "calculateNextTimestamp s now blk =
     max (now + TargetSecondsPerEth1Block (svc_cs s)) (pl_Timestamp (bd_ExecutionPayload (blk_Body blk)) + 1)"

definition sendNextFCUWithAttributes ::
  "Service \<Rightarrow> 'c Branching \<Rightarrow> 'c KVStore \<Rightarrow> u64 \<Rightarrow> BeaconBlockDeneb \<Rightarrow> ExecutionPayloadHeaderDeneb \<Rightarrow>
   'c Handle \<Rightarrow> PayloadIDCache \<Rightarrow> PayloadIDCache" where
  "sendNextFCUWithAttributes s B kv now blk lph st pc =
     (let stCopy = Copy B st in
      case ProcessSlots (svc_sp s) kv (blk_Slot blk + 1) (h_ctx stCopy) of
        (Inl _, _) \<Rightarrow> pc
      | (Inr _, c) \<Rightarrow>
          (case BeaconBlockDeneb_HashTreeRoot (svc_hasher s) blk of
             Inl _ \<Rightarrow> pc
           | Inr prevBlockRoot \<Rightarrow>
               snd (snd (RequestPayloadAsync (svc_lb s) kv (blk_Slot blk + 1) (calculateNextTimestamp s now blk)
                           prevBlockRoot (ph_BlockHash lph) (ph_ParentHash lph) (c, pc)))))"

definition sendNextFCUWithoutAttributes ::
  "Service \<Rightarrow> BeaconBlockDeneb \<Rightarrow> ExecutionPayloadHeaderDeneb \<Rightarrow> err + unit" where
  "sendNextFCUWithoutAttributes s blk lph =
     bindE (ActiveForkVersionForSlot (svc_cs s) (blk_Slot blk)) (\<lambda>forkVersion.
     case NotifyForkchoiceUpdate (svc_ee s)
            (BuildForkchoiceUpdateRequest
               \<lparr>fs_HeadBlockHash = ph_BlockHash lph, fs_SafeBlockHash = ph_ParentHash lph,
                fs_FinalizedBlockHash = ph_ParentHash lph\<rparr> NilIface forkVersion) of
       (_, _, Some e) \<Rightarrow> Inl e
     | (_, _, None) \<Rightarrow> Inr ())"

definition sendPostBlockFCU ::
  "Service \<Rightarrow> 'c Branching \<Rightarrow> 'c KVStore \<Rightarrow> u64 \<Rightarrow> BeaconBlockDeneb \<Rightarrow> 'c Handle \<Rightarrow> PayloadIDCache \<Rightarrow>
   PayloadIDCache" where
  "sendPostBlockFCU s B kv now blk st pc =
     (case GetLatestExecutionPayloadHeader kv (h_ctx st) of
        (Inl _, _) \<Rightarrow> pc
      | (Inr lph, c) \<Rightarrow>
          if \<not> shouldBuildOptimisticPayloads s \<and> Enabled (svc_lb s)
          then sendNextFCUWithAttributes s B kv now blk lph (st\<lparr>h_ctx := c\<rparr>) pc
          else (case sendNextFCUWithoutAttributes s blk lph of _ \<Rightarrow> pc))"

text \<open>\<open>handleRebuildPayloadForRejectedBlock\<close> and \<open>handleOptimisticPayloadBuild\<close> log the error.\<close>

definition run_task ::
  "Service \<Rightarrow> 'c Branching \<Rightarrow> 'c KVStore \<Rightarrow> u64 \<Rightarrow> 'c task \<Rightarrow> PayloadIDCache \<Rightarrow> PayloadIDCache" where
  "run_task s B kv now t pc =
     (case t of
        RebuildPayload st \<Rightarrow> snd (snd (rebuildPayloadForRejectedBlock s kv now (h_ctx st, pc)))
      | OptimisticBuild st blk \<Rightarrow> snd (snd (optimisticPayloadBuild s kv now blk (h_ctx st, pc)))
      | PostBlock st blk \<Rightarrow> sendPostBlockFCU s B kv now blk st pc)"

text \<open>The event that the goroutine of a finalized block sends first, to the pruners and the deposit reader.\<close>

definition task_events :: "'c task \<Rightarrow> BlockEvent list" where
  "task_events t = (case t of PostBlock st blk \<Rightarrow> [\<lparr>ev_type = BeaconBlockFinalized, ev_block = blk\<rparr>] | _ \<Rightarrow> [])"

subsection \<open>Fatal errors\<close>

lemma JoinFatal_iff: "IsFatal (Some (JoinFatal errs)) \<longleftrightarrow> (\<exists>e \<in> set errs. IsFatal e)"
proof -
  have "errors_Join errs \<noteq> None" if "e \<in> set errs" "IsFatal e" for e
  proof -
    from that(2) obtain x where "e = Some x" by (auto simp: IsFatal_def split: option.splits)
    with that(1) have "x \<in> set (List.map_filter id errs)" by (force simp: map_filter_def)
    then show ?thesis by (auto simp: errors_Join_def Let_def)
  qed
  then show ?thesis
    by (auto simp: JoinFatal_def WrapFatal_def WrapNonFatal_def IsFatal_def [of "Some (DetailedError _ _)"] list_ex_iff Let_def)
qed

lemma IsFatal_simps [simp]:
  "\<not> IsFatal None" "IsFatal (Some (Plain e))" "\<not> IsFatal (Some (WrapNonFatal x))"
  by (simp_all add: IsFatal_def WrapNonFatal_def)

subsection \<open>Verdicts on proposals\<close>

lemma forceStartupHead_reads: "forceStartupHead s kv c = c"
  by (auto simp: forceStartupHead_def SendForceHeadFCU_def GetSlot_def GetLatestExecutionPayloadHeader_def
      bindM_def split: prod.splits sum.splits)

text \<open>The transition context of a proposal.\<close>

abbreviation full_verification :: TransitionContext where
  "full_verification \<equiv> \<lparr>OptimisticEngine = False, SkipPayloadVerification = False, SkipValidateRandao = False,
     SkipValidateResult = False\<rparr>"

definition acceptable :: "err + 'a \<Rightarrow> bool" where
  "acceptable r = (case r of Inl e \<Rightarrow> errors_Is e (EL ErrAcceptedPayloadStatus) | Inr _ \<Rightarrow> True)"

lemma VerifyIncomingBlock_result:
  assumes "branching B view" and "Transition (svc_sp s) sch B full_verification kv (Some b) (Copy B h) = (r, p)"
  obtains e h' where
    "VerifyIncomingBlock s sch B kv (Some b) (synced, h) =
       (e, (True, h'), if \<not> shouldBuildOptimisticPayloads s then []
          else if acceptable r then [OptimisticBuild p b] else [RebuildPayload h])"
    and "IsFatal e \<longleftrightarrow> \<not> acceptable r" and "h_parent h' = h_parent h"
    and "if isl r then h' = h else view (h_ctx h') = view (h_ctx p)"
proof -
  have p: "h_parent p = Some (h_ctx h)" if "r = Inl e" for e
    using assms(2) that
    by (auto simp: Transition_def bindM_def on_handle_eq Copy_def WithContext_def split: sum.splits)
  have p': "\<exists>c. h_parent p = Some c \<and> view c = view (h_ctx p)" if "r = Inr us" for us
    using assms(2) that
    by (auto simp: Transition_def bindM_def on_handle_eq Copy_def WithContext_def Save_def
        branching.write_view [OF assms(1)] split: sum.splits)
  show thesis
    by (rule that [of "if acceptable r then None else Some (Plain (projl r))"
          "h\<lparr>h_ctx := if acceptable r then the (h_parent p) else h_ctx h\<rparr>"])
      (use assms(2) p p' in \<open>cases r; fastforce simp: VerifyIncomingBlock_def forceStartupHead_reads
        verifyStateRoot_def acceptable_def\<close>)+
qed

definition blobs_rejected :: "Service \<Rightarrow> nat list \<Rightarrow> BeaconBlockDeneb \<Rightarrow> BlobSidecars option \<Rightarrow> bool" where
  "blobs_rejected s sch b blobs \<longleftrightarrow>
     \<not> BlobSidecars_IsNil blobs \<and> BlobSidecars_Len (the blobs) \<noteq> 0 \<and>
     isl (Processor_VerifyBlobs (sszEnv (svc_sp s)) sch (svc_bp s) (svc_cs s) (blk_Slot b) blobs)"

lemma VerifyIncomingBlobs_fatal:
  "IsFatal (VerifyIncomingBlobs s sch blk blobs) \<longleftrightarrow> (\<exists>b. blk = Some b \<and> blobs_rejected s sch b blobs)"
  by (auto simp: VerifyIncomingBlobs_def blobs_rejected_def split: option.splits sum.splits)

text \<open>
  C5. The verdict on a proposal. The error is fatal exactly when there is a block and either its
  transition with full verification fails, other than with the accepted payload status, or its sidecars
  are not empty and do not verify; a missing block is never fatal. A block whose transition fails leaves the
  context as it was; a transition that succeeds is written to the context even when the blobs are
  rejected. The payload that is built next starts from the state after the block if the block is
  acceptable and from the state before it otherwise.
\<close>

theorem proposal_verdict:
  assumes "branching B view"
  shows "case ReceiveBlockAndBlobs s sch B kv blk blobs (synced, h) of (e, (synced', h'), tasks) \<Rightarrow>
    synced' \<and> h_parent h' = h_parent h \<and>
    (case blk of
       None \<Rightarrow> \<not> IsFatal (Some e) \<and> h' = h \<and> tasks = []
     | Some b \<Rightarrow>
         (case Transition (svc_sp s) (sch_block sch) B full_verification kv blk (Copy B h) of
            (r, p) \<Rightarrow>
              (IsFatal (Some e) \<longleftrightarrow> \<not> acceptable r \<or> blobs_rejected s (sch_blobs sch) b blobs) \<and>
              (if isl r then h' = h else view (h_ctx h') = view (h_ctx p)) \<and>
              tasks = (if \<not> shouldBuildOptimisticPayloads s then []
                       else if acceptable r then [OptimisticBuild p b] else [RebuildPayload h])))"
proof (cases blk)
  case None
  then show ?thesis
    by (auto simp: ReceiveBlockAndBlobs_def VerifyIncomingBlock_def VerifyIncomingBlobs_def JoinFatal_iff
        forceStartupHead_reads)
next
  case (Some b)
  obtain r p where T: "Transition (svc_sp s) (sch_block sch) B full_verification kv (Some b) (Copy B h) = (r, p)"
    by fastforce
  show ?thesis
    by (rule VerifyIncomingBlock_result [OF assms T, where synced = synced])
      (use Some T in \<open>simp add: ReceiveBlockAndBlobs_def JoinFatal_iff VerifyIncomingBlobs_fatal\<close>)
qed

subsection \<open>Finalized blocks\<close>

lemma ProcessBlockAndBlobs_success:
  assumes "ProcessBlockAndBlobs s sch B kv avs blk sidecars (h, fs) = (Inr us, (h', fs'), tasks)"
  obtains b fs1 where "blk = Some b" and "tasks = [PostBlock h' b]"
    and "processBeaconBlock s (sch_block sch) B kv (Some b) h = (Inr us, h')"
    and "processBlobSidecars s (sch_blobs sch) avs (blk_Slot b) sidecars fs = (Inr (), fs1)"
    and "IsDataAvailable avs (blk_Slot b) (blk_Body b) fs1 = (True, fs')"
  using assms
  by (auto simp: ProcessBlockAndBlobs_def errgroup2_def split: option.splits prod.splits sum.splits
      if_splits bool.splits)

text \<open>
  C6. A finalized block is applied only when everything about it holds. If \<open>ProcessBlockAndBlobs\<close> returns
  validator updates, there is a block, its slots and its payload were processed, its state root is the
  root of the resulting state, that state's slot and latest header are the block's, its sidecars were
  stored and all its commitments are available; exactly one goroutine is started, which announces this block
  and updates the forkchoice from the resulting state.
\<close>

theorem finalized_block:
  assumes "beacon_store kv view addr B"
    and "v_slot (view (h_ctx h)) = Some n" and "v_latestBlockHeader (view (h_ctx h)) = Some bh"
    and "ProcessBlockAndBlobs s sch B kv avs blk sidecars (h, fs) = (Inr us, (h', fs'), tasks)"
  shows "\<exists>b w1 fs1 bodyRoot. blk = Some b \<and> n \<le> blk_Slot b \<and>
    ProcessSlots (svc_sp s) (mem_kv addr) (blk_Slot b) (view (h_ctx h)) = (Inr us, w1) \<and>
    payload_valid (svc_sp s) w1 b True \<and>
    state_root (cs (svc_sp s)) (sszEnv (svc_sp s)) (view (h_ctx h')) = Inr (blk_StateRoot b) \<and>
    v_slot (view (h_ctx h')) = Some (blk_Slot b) \<and>
    htr_BeaconBlockBody (sszEnv (svc_sp s)) (blk_Body b) = Inr bodyRoot \<and>
    v_latestBlockHeader (view (h_ctx h')) = Some (NewBeaconBlockHeader (blk_Slot b) (blk_ProposerIndex b)
      (blk_ParentBlockRoot b) zero32 bodyRoot) \<and>
    processBlobSidecars s (sch_blobs sch) avs (blk_Slot b) sidecars fs = (Inr (), fs1) \<and>
    IsDataAvailable avs (blk_Slot b) (blk_Body b) fs1 = (True, fs') \<and>
    tasks = [PostBlock h' b] \<and>
    concat (map task_events tasks) = [\<lparr>ev_type = BeaconBlockFinalized, ev_block = b\<rparr>]"
proof -
  from assms(4) obtain b fs1 where b: "blk = Some b" "tasks = [PostBlock h' b]"
      "processBeaconBlock s (sch_block sch) B kv (Some b) h = (Inr us, h')"
      "processBlobSidecars s (sch_blobs sch) avs (blk_Slot b) sidecars fs = (Inr (), fs1)"
      "IsDataAvailable avs (blk_Slot b) (blk_Body b) fs1 = (True, fs')"
    by (rule ProcessBlockAndBlobs_success)
  have v: "h_ctx (handle_view view k) = view (h_ctx k)" for k
    by (simp add: handle_view_def)
  show ?thesis
    by (rule Transition_cases [OF simulates_success [OF beacon_store.Transition_sim [OF assms(1)]
            b(3) [unfolded processBeaconBlock_def]]])
      (use assms(2,3) b v in \<open>auto simp: task_events_def\<close>)
qed

subsection \<open>A concrete service\<close>

definition demo_service :: Service where
  "demo_service = \<lparr>svc_cs = BaseSpec, svc_ee = demo_rpc, svc_lb = demo_builder,
     svc_bp = \<lparr>VerifyBlobProof = (\<lambda>_ _ _. Inr ()), VerifyBlobProofBatch = (\<lambda>_. Inr ())\<rparr>,
     svc_sp = demo_processor, svc_hasher = reference_walker (reference_env fold_digest 15), svc_ssz = reference_fastssz,
     optimisticPayloadBuilds = True\<rparr>"

lemma demo_service_simps [simp]:
  "svc_sp demo_service = demo_processor" "shouldBuildOptimisticPayloads demo_service"
  by (simp_all add: demo_service_def shouldBuildOptimisticPayloads_def demo_builder_def NewPayloadBuilder_def Enabled_def)

definition demo_schedules :: Schedules where
  "demo_schedules = \<lparr>sch_blobs = [], sch_block = demo_schedule, block_first = True\<rparr>"

lemma demo_optimistic:
  "ProcessBlock demo_processor sch (ctx\<lparr>OptimisticEngine := b\<rparr>) kv blk = ProcessBlock demo_processor sch ctx kv blk"
proof -
  have "validateExecutionPayload demo_processor kv blk x = validateExecutionPayload demo_processor kv blk y" for x y
    by (simp add: validateExecutionPayload_def Let_def cong: if_cong)
  then have "processExecutionPayload demo_processor sch (ctx\<lparr>OptimisticEngine := b\<rparr>) kv blk =
      processExecutionPayload demo_processor sch ctx kv blk"
    unfolding processExecutionPayload_def by simp metis
  then show ?thesis by (simp add: ProcessBlock_def)
qed

theorem proposal_verdict_witness:
  "case ReceiveBlockAndBlobs demo_service demo_schedules mem_branching (mem_kv id) (Some demo_block) None
      (False, \<lparr>h_ctx = demo_view, h_parent = None\<rparr>) of
     (e, (synced', h'), tasks) \<Rightarrow> \<not> IsFatal (Some e) \<and> h_ctx h' = demo_after"
  using proposal_verdict [OF mem_branch.branching_axioms, where s = demo_service and sch = demo_schedules and
      kv = "mem_kv id" and blk = "Some demo_block" and blobs = None and synced = False and
      h = "\<lparr>h_ctx = demo_view, h_parent = None\<rparr>"] demo_Transition
  by (simp add: demo_schedules_def demo_ctx_def acceptable_def blobs_rejected_def BlobSidecars_IsNil_def
      split: prod.splits)

lemma demo_processBeaconBlock:
  "processBeaconBlock demo_service demo_schedule mem_branching (mem_kv id) (Some demo_block)
     \<lparr>h_ctx = demo_view, h_parent = None\<rparr> = (Inr [], \<lparr>h_ctx = demo_after, h_parent = None\<rparr>)"
  using demo_slots demo_ProcessBlock demo_optimistic [where sch = demo_schedule and ctx = demo_ctx and b = True and
      kv = "mem_kv id" and blk = demo_block]
  by (simp add: processBeaconBlock_def Transition_def on_handle_eq Save_def bindM_def demo_ctx_def)

theorem finalized_block_witness:
  "\<exists>fs' tasks. ProcessBlockAndBlobs demo_service demo_schedules mem_branching (mem_kv id) demo_store
      (Some demo_block) (Some \<lparr>Sidecars = Some []\<rparr>) (\<lparr>h_ctx = demo_view, h_parent = None\<rparr>, NewRangeDB mem_root) =
        (Inr [], (\<lparr>h_ctx = demo_after, h_parent = None\<rparr>, fs'), tasks) \<and>
      concat (map task_events tasks) = [\<lparr>ev_type = BeaconBlockFinalized, ev_block = demo_block\<rparr>]"
proof -
  let ?h = "\<lparr>h_ctx = demo_view, h_parent = None\<rparr>" and ?h' = "\<lparr>h_ctx = demo_after, h_parent = None\<rparr>"
  have r: "ProcessBlockAndBlobs demo_service demo_schedules mem_branching (mem_kv id) demo_store
      (Some demo_block) (Some \<lparr>Sidecars = Some []\<rparr>) (?h, NewRangeDB mem_root) =
      (Inr [], (?h', NewRangeDB mem_root), [PostBlock ?h' demo_block])"
    using demo_processBeaconBlock
    by (simp add: ProcessBlockAndBlobs_def demo_schedules_def processBlobSidecars_def ProcessBlobs_def Persist_def
        BlobSidecars_IsNil_def BlobSidecars_Len_def sidecar_list_def errgroup2_def IsDataAvailable_def from_option_def)
  moreover have "v_slot (h_ctx ?h) = Some 3" "v_latestBlockHeader (h_ctx ?h) \<noteq> None"
    by simp_all
  ultimately show ?thesis
    using finalized_block [OF mem_store.beacon_store_axioms _ _ r] by auto
qed

end
