(* ===== verification/Proposer.thy ===== *)
theory Proposer
  imports Blockchain
begin

section \<open>The validator service\<close>

text \<open>
  \<open>beacon/validator\<close>: assembling a block for a slot (\<open>propose.go\<close>) and its state root (\<open>state.go\<close>), with the
  constructor of blocks and the setters of bodies (\<open>consensus-types/pkg/types\<close>). The service works on
  the beacon state of its context, the cache of the payload builder and the deposit store. The
  theorems relate it to \<open>Blockchain\<close>: an assembled block passes the verification of a proposal, and
  the payload that was built optimistically is found under the parent root that the next proposer
  computes.
\<close>

subsection \<open>Blocks and bodies\<close>

text \<open>
  The new body has nil pointers for its \<open>Eth1Data\<close> and its payload. The payload of the record is
  never nil; the proposer sets it before anything reads it.
\<close>

definition NewWithVersion :: "u64 \<Rightarrow> u64 \<Rightarrow> b32 \<Rightarrow> u32 \<Rightarrow> ExecutableDataDeneb \<Rightarrow> err + BeaconBlockDeneb" where
  "NewWithVersion slot proposerIndex parentBlockRoot forkVersion unset =
     (if forkVersion = Deneb
      then Inr \<lparr>blk_Slot = slot, blk_ProposerIndex = proposerIndex, blk_ParentBlockRoot = parentBlockRoot,
             blk_StateRoot = zero32,
             blk_Body = \<lparr>bd_RandaoReveal = replicate 96 0, bd_Eth1Data = None, bd_Graffiti = zero32,
               bd_Deposits = [], bd_ExecutionPayload = unset, bd_BlobKzgCommitments = []\<rparr>\<rparr>
      else Inl ErrForkVersionNotSupported)"

definition SetRandaoReveal :: "bytes \<Rightarrow> BeaconBlockBodyDeneb \<Rightarrow> BeaconBlockBodyDeneb" where
  "SetRandaoReveal reveal body = body\<lparr>bd_RandaoReveal := reveal\<rparr>"

definition SetBlobKzgCommitments :: "bytes list \<Rightarrow> BeaconBlockBodyDeneb \<Rightarrow> BeaconBlockBodyDeneb" where
  "SetBlobKzgCommitments commitments body = body\<lparr>bd_BlobKzgCommitments := commitments\<rparr>"

definition SetDeposits :: "Deposit list \<Rightarrow> BeaconBlockBodyDeneb \<Rightarrow> BeaconBlockBodyDeneb" where
  "SetDeposits deposits body = body\<lparr>bd_Deposits := deposits\<rparr>"

definition body_SetEth1Data :: "Eth1Data \<Rightarrow> BeaconBlockBodyDeneb \<Rightarrow> BeaconBlockBodyDeneb" where
  "body_SetEth1Data eth1Data body = body\<lparr>bd_Eth1Data := Some eth1Data\<rparr>"

text \<open>The wrapper's payload is always a Deneb payload; reading it from a nil wrapper panics.\<close>

definition SetExecutionData ::
  "ExecutableDataDeneb option \<Rightarrow> BeaconBlockBodyDeneb \<Rightarrow> err + BeaconBlockBodyDeneb" where
  "SetExecutionData executionData body =
     bindE (from_option (Panic ''nil pointer dereference'') executionData) (\<lambda>payload.
     Inr (body\<lparr>bd_ExecutionPayload := payload\<rparr>))"

definition Block_SetStateRoot :: "b32 \<Rightarrow> BeaconBlockDeneb \<Rightarrow> BeaconBlockDeneb" where
  "Block_SetStateRoot root b = b\<lparr>blk_StateRoot := root\<rparr>"

subsection \<open>The service\<close>

record Validator_Service =
  vs_chainSpec :: SpecData
  vs_signer :: BLSSigner
  vs_blobFactory :: SidecarFactory
  vs_stateProcessor :: StateProcessor
  vs_localPayloadBuilder :: PayloadBuilder

text \<open>
  The state: the beacon state of the context, the payload cache of the builder and the deposit store.
\<close>

type_synonym ('c, 'd) proposer_state = "'c Handle \<times> PayloadIDCache \<times> 'd"

definition on_beacon :: "('c Handle, 'a) M \<Rightarrow> (('c, 'd) proposer_state, 'a) M" where
  "on_beacon m s = (case s of (h, pc, d) \<Rightarrow> case m h of (r, h) \<Rightarrow> (r, (h, pc, d)))"

definition on_builder :: "('c \<times> PayloadIDCache, 'a) M \<Rightarrow> (('c, 'd) proposer_state, 'a) M" where
  "on_builder m s = (case s of (h, pc, d) \<Rightarrow> case m (h_ctx h, pc) of (r, (c, pc)) \<Rightarrow> (r, (h\<lparr>h_ctx := c\<rparr>, pc, d)))"

definition on_deposits :: "('d, 'a) M \<Rightarrow> (('c, 'd) proposer_state, 'a) M" where
  "on_deposits m s = (case s of (h, pc, d) \<Rightarrow> case m d of (r, d) \<Rightarrow> (r, (h, pc, d)))"

text \<open>
  The choices of a call: the schedule of the transition, of the goroutines that build the sidecars
  and of the error group of both, which of the sidecars read the header after the other goroutine has set
  the state root, the clock and whether the context ended before the payload timeout.
\<close>

record proposal_schedule =
  ps_block :: Schedule
  ps_sidecars :: "nat list"
  ps_txs_first :: bool
  ps_sidecars_first :: bool
  ps_late :: "nat \<Rightarrow> bool"
  ps_now :: u64
  ps_ctxDone :: "err option"

definition buildRandaoReveal :: "Validator_Service \<Rightarrow> 'c KVStore \<Rightarrow> u64 \<Rightarrow> ('c, bytes) M" where
  "buildRandaoReveal s st slot =
     bindM (GetGenesisValidatorsRoot st) (\<lambda>genesisValidatorsRoot.
     bindM (liftE (SlotToEpoch (vs_chainSpec s) slot)) (\<lambda>epoch.
     bindM (liftE (ComputeRandaoSigningRoot (sszEnv (vs_stateProcessor s))
              (NewForkData (FromUint32 (ActiveForkVersionForEpoch (vs_chainSpec s) epoch)) genesisValidatorsRoot)
              (DomainTypeRandao (vs_chainSpec s)) epoch)) (\<lambda>signingRoot.
     liftE (Sign (vs_signer s) signingRoot))))"

definition map_error :: "err \<Rightarrow> ('c, 'a) M \<Rightarrow> ('c, 'a) M" where
  "map_error e m s = (case m s of (Inl _, s) \<Rightarrow> (Inl e, s) | (Inr a, s) \<Rightarrow> (Inr a, s))"

definition getEmptyBeaconBlockForSlot ::
  "Validator_Service \<Rightarrow> 'c KVStore \<Rightarrow> u64 \<Rightarrow> ExecutableDataDeneb \<Rightarrow> ('c, BeaconBlockDeneb) M" where
  "getEmptyBeaconBlockForSlot s st requestedSlot unset =
     bindM (liftE (mod_u64 (requestedSlot - 1) (SlotsPerHistoricalRoot (vs_chainSpec s)))) (\<lambda>i.
     bindM (map_error (Newf ''failed to get block root at index'') (GetBlockRootAtIndex st i)) (\<lambda>parentBlockRoot.
     bindM (map_error (Newf ''failed to get validator by pubkey'')
              (ValidatorIndexByPubkey st (PublicKey (vs_signer s)))) (\<lambda>proposerIndex.
     bindM (liftE (ActiveForkVersionForSlot (vs_chainSpec s) requestedSlot)) (\<lambda>forkVersion.
     liftE (NewWithVersion requestedSlot proposerIndex parentBlockRoot forkVersion unset)))))"

text \<open>An error of \<open>RetrievePayload\<close> is measured and replaced by a synchronous request; a panic is not.\<close>

definition retrieveExecutionPayload ::
  "Validator_Service \<Rightarrow> 'c KVStore \<Rightarrow> u64 \<Rightarrow> err option \<Rightarrow> BeaconBlockDeneb \<Rightarrow>
   ('c \<times> PayloadIDCache, ExecutionPayloadEnvelope iface) M" where
  "retrieveExecutionPayload s st now ctxDone blk cp =
     (case RetrievePayload (vs_localPayloadBuilder s) (snd cp) (blk_Slot blk) (blk_ParentBlockRoot blk) of
        Inr envelope \<Rightarrow> (Inr (Iface envelope), cp)
      | Inl (Panic m) \<Rightarrow> (Inl (Panic m), cp)
      | Inl _ \<Rightarrow>
          bindM (on_state (GetLatestExecutionPayloadHeader st)) (\<lambda>lph.
          RequestPayloadSync (vs_localPayloadBuilder s) st ctxDone (blk_Slot blk)
            (max (now + 1) (ph_Timestamp lph + 1)) (blk_ParentBlockRoot blk) (ph_BlockHash lph)
            (ph_ParentHash lph)) cp)"

abbreviation proposing :: TransitionContext where
  "proposing \<equiv> \<lparr>OptimisticEngine = True, SkipPayloadVerification = True, SkipValidateRandao = True,
     SkipValidateResult = True\<rparr>"

definition computeStateRoot ::
  "Validator_Service \<Rightarrow> Schedule \<Rightarrow> 'c Branching \<Rightarrow> 'c KVStore \<Rightarrow> BeaconBlockDeneb \<Rightarrow> ('c Handle, b32) M" where
  "computeStateRoot s sch B st blk =
     bindM (Transition (vs_stateProcessor s) sch B proposing st (Some blk)) (\<lambda>_.
     on_handle (StateDB_HashTreeRoot st (cs (vs_stateProcessor s)) (sszEnv (vs_stateProcessor s))))"

definition computeAndSetStateRoot ::
  "Validator_Service \<Rightarrow> Schedule \<Rightarrow> 'c Branching \<Rightarrow> 'c KVStore \<Rightarrow> BeaconBlockDeneb \<Rightarrow>
   ('c Handle, BeaconBlockDeneb) M" where
  "computeAndSetStateRoot s sch B st blk =
     bindM (computeStateRoot s sch B st blk) (\<lambda>stateRoot. ret (Block_SetStateRoot stateRoot blk))"

text \<open>\<open>BuildSidecars\<close> while the state root is set: each goroutine reads the header before or after.\<close>

definition racing_sidecars ::
  "ssz_env \<Rightarrow> nat list \<Rightarrow> bool \<Rightarrow> (nat \<Rightarrow> bool) \<Rightarrow> SidecarFactory \<Rightarrow> BeaconBlockDeneb \<Rightarrow> BeaconBlockDeneb \<Rightarrow>
   BlobsBundle \<Rightarrow> BlobSidecars \<times> (err + unit)" where
  "racing_sidecars H sch first late f blk blk' bundle =
     (let rs = map (\<lambda>i. build_sidecar H first f (if late i then blk' else blk) bundle i) [0..<length (bb_Blobs bundle)]
      in (\<lparr>Sidecars = Some (map (\<lambda>r. case r of Inl _ \<Rightarrow> None | Inr sc \<Rightarrow> Some sc) rs)\<rparr>, errgroup sch rs))"

text \<open>
  The last step runs two goroutines: one builds the sidecars, the other computes and sets the state root.
  The error group fails with the error of the goroutine that fails first.
\<close>

definition finish_block ::
  "Validator_Service \<Rightarrow> proposal_schedule \<Rightarrow> 'c Branching \<Rightarrow> 'c KVStore \<Rightarrow> BeaconBlockDeneb \<Rightarrow> BlobsBundle \<Rightarrow>
   ('c Handle, BeaconBlockDeneb \<times> BlobSidecars) M" where
  "finish_block s sch B st blk bundle h =
     (case computeAndSetStateRoot s (ps_block sch) B st blk h of
        (r, h) \<Rightarrow>
          (case racing_sidecars (sszEnv (vs_stateProcessor s)) (ps_sidecars sch) (ps_txs_first sch)
                  (\<lambda>i. \<not> isl r \<and> ps_late sch i) (vs_blobFactory s) blk
                  (case r of Inl _ \<Rightarrow> blk | Inr blk' \<Rightarrow> blk') bundle of
             (sidecars, r2) \<Rightarrow>
               (bindE (errgroup2 (ps_sidecars_first sch) r2 r) (\<lambda>p. Inr (snd p, sidecars)), h)))"

text \<open>The commitments are set twice, to the same value.\<close>

definition RequestBlockForProposal ::
  "Validator_Service \<Rightarrow> proposal_schedule \<Rightarrow> 'c Branching \<Rightarrow> 'c KVStore \<Rightarrow> 'd DepositKV \<Rightarrow> ExecutableDataDeneb \<Rightarrow> u64 \<Rightarrow>
   (('c, 'd) proposer_state, BeaconBlockDeneb \<times> BlobSidecars) M" where
  "RequestBlockForProposal s sch B st ds unset requestedSlot =
     bindM (on_beacon (on_handle (ProcessSlots (vs_stateProcessor s) st requestedSlot))) (\<lambda>_.
     bindM (on_beacon (on_handle (buildRandaoReveal s st requestedSlot))) (\<lambda>reveal.
     bindM (on_beacon (on_handle (getEmptyBeaconBlockForSlot s st requestedSlot unset))) (\<lambda>blk.
     let body = SetRandaoReveal reveal (blk_Body blk) in
     bindM (on_builder (retrieveExecutionPayload s st (ps_now sch) (ps_ctxDone sch) blk)) (\<lambda>envelope.
     bindM (liftE (case envelope of NilIface \<Rightarrow> Inl (Newf ''nil payload in beacon block'') | Iface e \<Rightarrow> Inr e)) (\<lambda>envelope.
     bindM (liftE (case GetBlobsBundle envelope of
              NilIface \<Rightarrow> Inl (Newf ''nil blobs bundle'')
            | Iface b \<Rightarrow> from_option (Panic ''nil pointer dereference'') b)) (\<lambda>blobsBundle.
     let body = SetBlobKzgCommitments (bb_Commitments blobsBundle) body in
     bindM (map_error (Newf ''nil deposit index start'') (on_beacon (on_handle (GetEth1DepositIndex st)))) (\<lambda>depositIndex.
     bindM (on_deposits (GetDepositsByIndex ds depositIndex (MaxDepositsPerBlock (vs_chainSpec s)))) (\<lambda>deposits.
     let body = SetBlobKzgCommitments (bb_Commitments blobsBundle) (SetDeposits deposits body);
         body = body_SetEth1Data (NewEth1Data zero32 0 zero32) body in
     bindM (liftE (SetExecutionData (env_ExecutionPayload envelope) body)) (\<lambda>body.
     let blk = blk\<lparr>blk_Body := body\<rparr> in
     on_beacon (finish_block s sch B st blk blobsBundle))))))))))"

subsection \<open>A block that was processed without verification passes it\<close>

text \<open>
  Two processors agree when they share the specification, the hash tree roots, the exclusive or and the
  verification of signatures; they may have different keys and execution engines.
\<close>

definition same_rules :: "StateProcessor \<Rightarrow> StateProcessor \<Rightarrow> bool" where
  "same_rules sp sp' \<longleftrightarrow> cs sp = cs sp' \<and> sszEnv sp = sszEnv sp' \<and> xor_Bytes sp = xor_Bytes sp' \<and>
     VerifySignature (signer sp) = VerifySignature (signer sp')"

lemma same_rules_ops:
  assumes "same_rules sp sp'"
  shows "processSlot sp' = processSlot sp" "processEpoch sp' = processEpoch sp"
    "processWithdrawals sp' = processWithdrawals sp" "processOperations sp' = processOperations sp"
    "processBlockHeader sp' = processBlockHeader sp" "buildRandaoMix sp' = buildRandaoMix sp"
proof -
  have eq: "cs sp' = cs sp" "sszEnv sp' = sszEnv sp" "xor_Bytes sp' = xor_Bytes sp"
      "VerifySignature (signer sp') = VerifySignature (signer sp)"
    using assms by (simp_all add: same_rules_def)
  show "processSlot sp' = processSlot sp" unfolding fun_eq_iff processSlot_def eq by simp
  show "processWithdrawals sp' = processWithdrawals sp" unfolding fun_eq_iff processWithdrawals_def eq by simp
  show "processBlockHeader sp' = processBlockHeader sp" unfolding fun_eq_iff processBlockHeader_def eq by simp
  show "buildRandaoMix sp' = buildRandaoMix sp" unfolding fun_eq_iff buildRandaoMix_def eq by simp
  have D: "processDeposit sp' = processDeposit sp"
    unfolding fun_eq_iff processDeposit_def applyDeposit_def createValidator_def addValidatorToRegistry_def eq by simp
  show "processOperations sp' = processOperations sp"
    unfolding fun_eq_iff processOperations_def processDeposits_def D eq by simp
  show "processEpoch sp' = processEpoch sp"
    unfolding fun_eq_iff processEpoch_def processRewardsAndPenalties_def processSlashingsReset_def
      processRandaoMixesReset_def eq by simp
qed

lemma same_rules_slots:
  assumes "same_rules sp sp'"
  shows "slots_loop sp' kv slot n us = slots_loop sp kv slot n us"
proof (induction "unat slot - unat n" arbitrary: n us rule: less_induct)
  case less
  have eq: "cs sp' = cs sp" using assms by (simp add: same_rules_def)
  have "slots_loop sp' kv slot (n + 1) us' = slots_loop sp kv slot (n + 1) us'" if "n < slot" for us'
    using that by (intro less) (simp add: unat_plus_one word_less_nat_alt)
  then show ?case
    by (subst (1 2) slots_loop.simps) (simp add: same_rules_ops [OF assms] eq cong: if_cong)
qed

lemma same_rules_ProcessSlots: "same_rules sp sp' \<Longrightarrow> ProcessSlots sp' = ProcessSlots sp"
  by (simp add: fun_eq_iff ProcessSlots_def same_rules_slots)

lemma mem_validate_frame:
  "fst (validateExecutionPayload sp (mem_kv addr) blk opt (w\<lparr>v_latestBlockHeader := x\<rparr>)) =
   fst (validateExecutionPayload sp (mem_kv addr) blk opt w)"
  by (simp add: validateExecutionPayload_def mem_ops Let_def bindM_def from_option_def
      split: sum.splits option.splits)

lemma payload_step_verified:
  assumes "processExecutionPayload sp sch proposing (mem_kv addr) blk w = (Inr (), w')"
    and "same_rules sp sp'" and "fst (validateExecutionPayload sp' (mem_kv addr) blk' False w) = Inr ()"
    and "blk_Body blk' = blk_Body blk"
  shows "processExecutionPayload sp' sch' full_verification (mem_kv addr) blk' w = (Inr (), w')"
proof -
  from assms(1) obtain header where h: "payload_header_of (sszEnv sp) (bd_ExecutionPayload (blk_Body blk)) header"
      "SetLatestExecutionPayloadHeader (mem_kv addr) header w = (Inr (), w')"
    by (auto simp: processExecutionPayload_def bindM_success ToHeader_fresh)
  have "fst (ToHeader (sszEnv sp') (txs_first sch') (GetExecutionPayload (blk_Body blk'))) = Inr header"
    using h(1) assms(2,4) by (simp add: ToHeader_fresh same_rules_def)
  with h(2) assms(3) show ?thesis
    by (simp add: processExecutionPayload_def bindM_reads)
qed

lemma randao_step_verified:
  assumes "processRandaoReveal sp (mem_kv addr) blk True w = (Inr (), w')" and "same_rules sp sp'"
    and "v_slot w = Some slot" and "map_of (v_validators w) (blk_ProposerIndex blk) = Some proposer"
    and "v_genesisValidatorsRoot w = Some gvr"
    and "bindE (SlotToEpoch (cs sp) slot) (\<lambda>epoch.
      ComputeRandaoSigningRoot (sszEnv sp) (NewForkData (FromUint32 (ActiveForkVersionForEpoch (cs sp) epoch))
        (take 32 gvr)) (DomainTypeRandao (cs sp)) epoch) = Inr signingRoot"
    and "VerifySignature (signer sp) (val_Pubkey proposer) signingRoot (bd_RandaoReveal (blk_Body blk)) = Inr ()"
    and "blk' = blk\<lparr>blk_StateRoot := r\<rparr>"
  shows "processRandaoReveal sp' (mem_kv addr) blk' False w = (Inr (), w')"
proof -
  have eq: "cs sp' = cs sp" "sszEnv sp' = sszEnv sp" "VerifySignature (signer sp') = VerifySignature (signer sp)"
    using assms(2) by (simp_all add: same_rules_def)
  show ?thesis
    using assms(1,3-8)
    by (auto simp: processRandaoReveal_def Let_def bindM_success mem_ops eq same_rules_ops [OF assms(2)]
        bindE_Inr to_array_def split: if_splits)
qed

lemma header_step_state_root:
  "processBlockHeader sp kv (blk\<lparr>blk_StateRoot := r\<rparr>) = processBlockHeader sp kv blk"
  "processOperations sp kv (blk\<lparr>blk_StateRoot := r\<rparr>) = processOperations sp kv blk"
  by (simp_all add: processBlockHeader_def processOperations_def processDeposits_def cong: if_cong)

lemma ProcessBlock_verified:
  assumes P: "ProcessBlock sp sch proposing (mem_kv addr) blk w = (Inr (), w')" and same: "same_rules sp sp'"
    and blk': "blk' = blk\<lparr>blk_StateRoot := r\<rparr>" and root: "state_root (cs sp) (sszEnv sp) w' = Inr r"
    and valid: "fst (validateExecutionPayload sp' (mem_kv addr) blk' False w) = Inr ()"
    and slot: "v_slot w = Some slot" and gvr: "v_genesisValidatorsRoot w = Some gvr"
    and proposer: "map_of (v_validators w) (blk_ProposerIndex blk) = Some proposer"
    and signed: "bindE (SlotToEpoch (cs sp) slot) (\<lambda>epoch.
      ComputeRandaoSigningRoot (sszEnv sp) (NewForkData (FromUint32 (ActiveForkVersionForEpoch (cs sp) epoch))
        (take 32 gvr)) (DomainTypeRandao (cs sp)) epoch) = Inr signingRoot"
      "VerifySignature (signer sp) (val_Pubkey proposer) signingRoot (bd_RandaoReveal (blk_Body blk)) = Inr ()"
  shows "ProcessBlock sp' sch' full_verification (mem_kv addr) blk' w = (Inr (), w')"
proof -
  from P obtain w1 w2 w3 w4 where
    1: "processBlockHeader sp (mem_kv addr) blk w = (Inr (), w1)"
    and 2: "processExecutionPayload sp sch proposing (mem_kv addr) blk w1 = (Inr (), w2)"
    and 3: "processWithdrawals sp (mem_kv addr) (blk_Body blk) w2 = (Inr (), w3)"
    and 4: "processRandaoReveal sp (mem_kv addr) blk True w3 = (Inr (), w4)"
    and 5: "processOperations sp (mem_kv addr) blk w4 = (Inr (), w')"
    by (auto simp: ProcessBlock_def bindM_success)
  from 1 obtain hd where w1: "w1 = w\<lparr>v_latestBlockHeader := hd\<rparr>"
    unfolding mem_processBlockHeader by blast
  from 2 obtain x y where w2: "w2 = w1\<lparr>v_latestExecutionPayloadVersion := x, v_latestExecutionPayloadHeader := y\<rparr>"
    by (rule mem_processExecutionPayload)
  have w3: "v_slot w3 = v_slot w" "v_validators w3 = v_validators w"
      "v_genesisValidatorsRoot w3 = v_genesisValidatorsRoot w"
    using processWithdrawals_frame [OF 3] w1 w2
    by (cases w; cases w3; simp add: withdrawal_frame_def)+
  note same_rules_ops [OF same, simp]
  have "processExecutionPayload sp' sch' full_verification (mem_kv addr) blk' w1 = (Inr (), w2)"
    by (rule payload_step_verified [OF 2 same]) (use valid w1 blk' in \<open>simp_all add: mem_validate_frame\<close>)
  moreover have "processRandaoReveal sp' (mem_kv addr) blk' False w3 = (Inr (), w4)"
    by (rule randao_step_verified [OF 4 same _ _ _ signed]) (use w3 slot gvr proposer blk' in simp_all)
  moreover have "state_root (cs sp') (sszEnv sp') w' = Inr r" using root same by (simp add: same_rules_def)
  ultimately show ?thesis
    using 1 3 5 blk'
    by (simp add: ProcessBlock_def bindM_success header_step_state_root mem_StateDB_HashTreeRoot)
qed

subsection \<open>What a proposal is\<close>

lemma ProcessSlots_idle:
  "v_slot w = Some slot \<Longrightarrow> ProcessSlots sp (mem_kv addr) slot w = (Inr [], w)"
  by (simp add: ProcessSlots_def mem_ops slots_loop.simps [of sp "mem_kv addr" slot slot])

lemma mem_buildRandaoReveal:
  assumes "buildRandaoReveal s (mem_kv addr) slot w = (Inr reveal, w')"
  obtains gvr signingRoot where "w' = w" and "v_genesisValidatorsRoot w = Some gvr"
    and "bindE (SlotToEpoch (vs_chainSpec s) slot) (\<lambda>epoch.
      ComputeRandaoSigningRoot (sszEnv (vs_stateProcessor s))
        (NewForkData (FromUint32 (ActiveForkVersionForEpoch (vs_chainSpec s) epoch)) (take 32 gvr))
        (DomainTypeRandao (vs_chainSpec s)) epoch) = Inr signingRoot"
    and "Sign (vs_signer s) signingRoot = Inr reveal"
  using assms by (auto simp: buildRandaoReveal_def bindM_success mem_ops bindE_Inr to_array_def split: if_splits)

lemma map_error_success [simp]: "map_error e m s = (Inr a, s') \<longleftrightarrow> m s = (Inr a, s')"
  by (auto simp: map_error_def split: prod.splits sum.splits)

lemma mem_getEmptyBeaconBlockForSlot:
  assumes "getEmptyBeaconBlockForSlot s (mem_kv addr) slot unset w = (Inr blk, w')"
  obtains root where "w' = w" and "blk_Slot blk = slot" and "blk_StateRoot blk = zero32"
    and "map_of (v_blockRoots w) ((slot - 1) mod SlotsPerHistoricalRoot (vs_chainSpec s)) = Some root"
    and "blk_ParentBlockRoot blk = take 32 root" and "32 \<le> length root"
    and "by_pubkey (v_validators w) (PublicKey (vs_signer s)) = Some (blk_ProposerIndex blk)"
  using assms
  by (auto simp: getEmptyBeaconBlockForSlot_def bindM_success bindE_Inr mem_ops to_array_def NewWithVersion_def
        split: if_splits dest!: mod_u64_InrD)

subsection \<open>The parent root\<close>

definition registry_and_roots :: "kv_view \<Rightarrow> Validator entries \<times> bytes entries" where
  "registry_and_roots w = (v_validators w, v_blockRoots w)"

lemma registry_and_roots_ops:
  "on_success (\<lambda>w. registry_and_roots w = x) (GetSlot (mem_kv addr)) (\<lambda>_ w. registry_and_roots w = x)"
  "on_success (\<lambda>w. registry_and_roots w = x) (GetValidators (mem_kv addr)) (\<lambda>_ w. registry_and_roots w = x)"
  "on_success (\<lambda>w. registry_and_roots w = x) (IncreaseBalance (mem_kv addr) i d) (\<lambda>_ w. registry_and_roots w = x)"
  "on_success (\<lambda>w. registry_and_roots w = x) (DecreaseBalance (mem_kv addr) i d) (\<lambda>_ w. registry_and_roots w = x)"
  "on_success (\<lambda>w. registry_and_roots w = x) (UpdateSlashingAtIndex (mem_kv addr) i d) (\<lambda>_ w. registry_and_roots w = x)"
  "on_success (\<lambda>w. registry_and_roots w = x) (GetRandaoMixAtIndex (mem_kv addr) i) (\<lambda>_ w. registry_and_roots w = x)"
  "on_success (\<lambda>w. registry_and_roots w = x) (UpdateRandaoMixAtIndex (mem_kv addr) i m) (\<lambda>_ w. registry_and_roots w = x)"
  "on_success (\<lambda>w. registry_and_roots w = x) (GetValidatorsByEffectiveBalance (mem_kv addr)) (\<lambda>_ w. registry_and_roots w = x)"
  by (auto simp: on_success_def mem_ops mem_IncreaseBalance mem_DecreaseBalance
      mem_UpdateSlashingAtIndex registry_and_roots_def split: option.splits if_splits)

lemma processEpoch_registry_and_roots:
  "on_success (\<lambda>w. registry_and_roots w = x) (processEpoch sp (mem_kv addr)) (\<lambda>_ w. registry_and_roots w = x)"
proof -
  note rules = on_success_bindM_inv on_success_if on_success_forM keeps_liftE on_success_ret
    on_success_throw registry_and_roots_ops
  have "on_success (\<lambda>w. registry_and_roots w = x) (processRewardsAndPenalties sp (mem_kv addr))
      (\<lambda>_ w. registry_and_roots w = x)"
    unfolding processRewardsAndPenalties_def getAttestationDeltas_def Let_def
    by (intro rules; (simp add: split_def, intro rules)?)
  then show ?thesis
    unfolding processEpoch_def processSlashingsReset_def processRandaoMixesReset_def processSyncCommitteeUpdates_def
    by (intro on_success_bindM_inv rules)
qed

text \<open>
  After a run of slots the block root of the last one is the root of the latest header.
\<close>

lemma slots_loop_roots:
  assumes "slots_loop sp (mem_kv addr) target n us w = (Inr us', w')" and "v_slot w = Some n"
  shows "v_validators w' = v_validators w \<and> (n < target \<longrightarrow>
    (\<exists>h r. v_latestBlockHeader w' = Some h \<and> htr_BeaconBlockHeader (sszEnv sp) h = Inr r \<and>
      map_of (v_blockRoots w') ((target - 1) mod SlotsPerHistoricalRoot (cs sp)) = Some r))"
  using assms
proof (induction "unat target - unat n" arbitrary: n us w rule: less_induct)
  case less
  show ?case
  proof (cases "n < target")
    case False
    with less.prems show ?thesis by (subst (asm) slots_loop.simps) simp
  next
    case True
    with less.prems(1) obtain w0 w1 us1 where
      w0: "processSlot sp (mem_kv addr) w = (Inr (), w0)"
      and w1: "w1 = w0 \<or> (\<exists>u. processEpoch sp (mem_kv addr) w0 = (Inr u, w1))"
      and rest: "slots_loop sp (mem_kv addr) target (n + 1) us1 (w1\<lparr>v_slot := Some (n + 1)\<rparr>) = (Inr us', w')"
      by (subst (asm) slots_loop.simps) (auto simp: bindM_success mem_ops split: if_splits)
    from w0 less.prems(2) obtain r h br where w0': "w0 = after_slot (cs sp) n r h br w"
      and br: "htr_BeaconBlockHeader (sszEnv sp) (with_state_root h r) = Inr br"
      by (auto simp: mem_processSlot)
    have "head w1 = head w0" "registry_and_roots w1 = registry_and_roots w0"
      using w1 on_successD [OF processEpoch_head, where s = w0]
        on_successD [OF processEpoch_registry_and_roots, where s = w0] by blast+
    then have w1': "v_validators w1 = v_validators w" "v_latestBlockHeader w1 = Some (with_state_root h r)"
        "map_of (v_blockRoots w1) (n mod SlotsPerHistoricalRoot (cs sp)) = Some br"
      by (simp_all add: head_def registry_and_roots_def w0' after_slot_def Let_def)
    have "unat target - unat (n + 1) < unat target - unat n"
      using True unat_plus_one [OF True] by (simp add: word_less_nat_alt)
    note IH = less.hyps [OF this rest]
    show ?thesis
    proof (cases "n + 1 < target")
      case True
      with IH w1' show ?thesis by auto
    next
      case False
      with rest have "w' = w1\<lparr>v_slot := Some (n + 1)\<rparr>" by (subst (asm) slots_loop.simps) simp
      moreover have "target - 1 = n"
        using True False unat_plus_one [OF True]
        by (metis add_diff_cancel_right' inc_le order_antisym not_less)
      ultimately show ?thesis using w1' br by auto
    qed
  qed
qed

subsection \<open>The steps of a proposal\<close>

definition assembled :: "BeaconBlockDeneb \<Rightarrow> bytes \<Rightarrow> Deposit list \<Rightarrow> ExecutableDataDeneb \<Rightarrow> bytes list \<Rightarrow> BeaconBlockDeneb" where
  "assembled blk reveal deposits payload commitments =
     blk\<lparr>blk_Body := (blk_Body blk)\<lparr>bd_RandaoReveal := reveal, bd_Deposits := deposits,
       bd_BlobKzgCommitments := commitments, bd_Eth1Data := Some (NewEth1Data zero32 0 zero32),
       bd_ExecutionPayload := payload\<rparr>\<rparr>"

lemma on_parts_success:
  "on_beacon m (h, pc, d) = (Inr a, s') \<longleftrightarrow> (\<exists>h'. m h = (Inr a, h') \<and> s' = (h', pc, d))"
  "on_builder m' (h, pc, d) = (Inr b, s') \<longleftrightarrow>
     (\<exists>c pc'. m' (h_ctx h, pc) = (Inr b, (c, pc')) \<and> s' = (h\<lparr>h_ctx := c\<rparr>, pc', d))"
  "on_deposits m'' (h, pc, d) = (Inr e, s') \<longleftrightarrow> (\<exists>d'. m'' d = (Inr e, d') \<and> s' = (h, pc, d'))"
  by (auto simp: on_beacon_def on_builder_def on_deposits_def split: prod.splits)

lemma finish_block_success:
  assumes "finish_block s sch B kv blk bnd h = (Inr (blk', scs), h')"
  shows "computeAndSetStateRoot s (ps_block sch) B kv blk h = (Inr blk', h') \<and>
    scs = fst (racing_sidecars (sszEnv (vs_stateProcessor s)) (ps_sidecars sch) (ps_txs_first sch) (ps_late sch)
      (vs_blobFactory s) blk blk' bnd)"
  using assms
  by (auto simp: finish_block_def bindE_Inr errgroup2_def split: prod.splits sum.splits if_splits)

lemma RequestBlock_steps:
  assumes "RequestBlockForProposal s sch B kv ds unset slot (h, pc, d) = (Inr (blk', scs), st')"
  obtains us c1 reveal c2 blk0 c3 e c4 pc' i deposits d' payload bnd blk h' where
    "ProcessSlots (vs_stateProcessor s) kv slot (h_ctx h) = (Inr us, c1)"
    and "buildRandaoReveal s kv slot c1 = (Inr reveal, c2)"
    and "getEmptyBeaconBlockForSlot s kv slot unset c2 = (Inr blk0, c3)"
    and "retrieveExecutionPayload s kv (ps_now sch) (ps_ctxDone sch) blk0 (c3, pc) = (Inr (Iface e), (c4, pc'))"
    and "GetEth1DepositIndex kv c4 = (Inr i, c4)"
    and "GetDepositsByIndex ds i (MaxDepositsPerBlock (vs_chainSpec s)) d = (Inr deposits, d')"
    and "env_ExecutionPayload e = Some payload" and "env_BlobsBundle e = Some bnd"
    and "blk = assembled blk0 reveal deposits payload (bb_Commitments bnd)"
    and "computeAndSetStateRoot s (ps_block sch) B kv blk (h\<lparr>h_ctx := c4\<rparr>) = (Inr blk', h')"
    and "scs = fst (racing_sidecars (sszEnv (vs_stateProcessor s)) (ps_sidecars sch) (ps_txs_first sch) (ps_late sch)
      (vs_blobFactory s) blk blk' bnd)"
    and "st' = (h', pc', d')"
proof -
  from assms obtain us c1 reveal c2 blk0 c3 env c4 pc' h5 where
    1: "ProcessSlots (vs_stateProcessor s) kv slot (h_ctx h) = (Inr us, c1)"
    and 2: "buildRandaoReveal s kv slot c1 = (Inr reveal, c2)"
    and 3: "getEmptyBeaconBlockForSlot s kv slot unset c2 = (Inr blk0, c3)"
    and 4: "retrieveExecutionPayload s kv (ps_now sch) (ps_ctxDone sch) blk0 (c3, pc) = (Inr env, (c4, pc'))"
    and 5: "h5 = h\<lparr>h_ctx := c4\<rparr>"
    and rest: "bindM (liftE (case env of NilIface \<Rightarrow> Inl (Newf ''nil payload in beacon block'') | Iface e \<Rightarrow> Inr e)) (\<lambda>e.
       bindM (liftE (case GetBlobsBundle e of
                NilIface \<Rightarrow> Inl (Newf ''nil blobs bundle'')
              | Iface b \<Rightarrow> from_option (Panic ''nil pointer dereference'') b)) (\<lambda>bnd.
       bindM (map_error (Newf ''nil deposit index start'') (on_beacon (on_handle (GetEth1DepositIndex kv)))) (\<lambda>i.
       bindM (on_deposits (GetDepositsByIndex ds i (MaxDepositsPerBlock (vs_chainSpec s)))) (\<lambda>deposits.
       bindM (liftE (SetExecutionData (env_ExecutionPayload e) (body_SetEth1Data (NewEth1Data zero32 0 zero32)
         (SetBlobKzgCommitments (bb_Commitments bnd) (SetDeposits deposits
           (SetBlobKzgCommitments (bb_Commitments bnd) (SetRandaoReveal reveal (blk_Body blk0)))))))) (\<lambda>body.
       on_beacon (finish_block s sch B kv (blk0\<lparr>blk_Body := body\<rparr>) bnd))))))
       (h5, pc', d) = (Inr (blk', scs), st')"
    unfolding RequestBlockForProposal_def Let_def
    by (auto simp: bindM_success [of "on_beacon _"] bindM_success [of "on_builder _"] on_parts_success on_handle_success)
  from rest obtain e bnd i deposits d' payload h' where steps: "env = Iface e" "env_BlobsBundle e = Some bnd" "GetEth1DepositIndex kv (h_ctx h5) = (Inr i, h_ctx h5)"
    "GetDepositsByIndex ds i (MaxDepositsPerBlock (vs_chainSpec s)) d = (Inr deposits, d')"
    "env_ExecutionPayload e = Some payload"
    "finish_block s sch B kv (assembled blk0 reveal deposits payload (bb_Commitments bnd)) bnd h5 = (Inr (blk', scs), h')"
    "st' = (h', pc', d')"
    by (auto simp: bindM_success on_parts_success on_handle_success SetExecutionData_def bindE_Inr GetBlobsBundle_def
        SetRandaoReveal_def SetBlobKzgCommitments_def SetDeposits_def body_SetEth1Data_def assembled_def
        GetEth1DepositIndex_def split: iface.splits)
  have 4: "retrieveExecutionPayload s kv (ps_now sch) (ps_ctxDone sch) blk0 (c3, pc) = (Inr (Iface e), (c4, pc'))"
    using 4 steps(1) by simp
  show thesis
    by (rule that [OF 1 2 3 4 _ steps(4,5,2) refl _ _ steps(7)])
      (use finish_block_success [OF steps(6)] steps(3) 5 in simp_all)
qed

subsection \<open>Proposals are accepted\<close>

lemma simulates_map_error:
  assumes "simulates v m m'"
  shows "simulates v (map_error e m) (map_error e m')"
proof -
  have "(case map_error e m' (v c) of
      (Inl e', w) \<Rightarrow> \<exists>c'. map_error e m c = (Inl e', c')
    | (Inr a, w) \<Rightarrow> \<exists>c'. map_error e m c = (Inr a, c') \<and> v c' = w)" for c
    by (cases rule: simulates_cases [OF assms, of c]) (auto simp: map_error_def)
  then show ?thesis by (simp add: simulates_def)
qed

context kv_laws
begin

lemma proposer_sims:
  shows "simulates view (buildRandaoReveal s kv slot) (buildRandaoReveal s (mem_kv addr) slot)"
    and "simulates view (getEmptyBeaconBlockForSlot s kv slot unset) (getEmptyBeaconBlockForSlot s (mem_kv addr) slot unset)"
    and "simulates view (getPayloadAttribute pb kv slot ts root) (getPayloadAttribute pb (mem_kv addr) slot ts root)"
proof -
  show "simulates view (buildRandaoReveal s kv slot) (buildRandaoReveal s (mem_kv addr) slot)"
    unfolding buildRandaoReveal_def by (intro simulation store_sims)
  show "simulates view (getEmptyBeaconBlockForSlot s kv slot unset) (getEmptyBeaconBlockForSlot s (mem_kv addr) slot unset)"
    unfolding getEmptyBeaconBlockForSlot_def by (intro simulation simulates_map_error store_sims)
  show "simulates view (getPayloadAttribute pb kv slot ts root) (getPayloadAttribute pb (mem_kv addr) slot ts root)"
    unfolding getPayloadAttribute_def by (intro simulation store_sims state_sims)
qed

lemma retrieve_view:
  assumes "retrieveExecutionPayload s kv now ctxDone blk (c, pc) = (Inr e, (c', pc'))"
  shows "view c' = view c"
proof -
  have A: "view c2 = view c1" if "RequestPayloadAsync pb kv slot ts root h f (c1, pc1) = (Inr pid, (c2, pc2))"
    for pb slot ts root h f c1 pc1 c2 pc2 pid
  proof (cases "Cache_Get pc1 slot root")
    case None
    with that obtain attrs where "getPayloadAttribute pb kv slot ts root c1 = (Inr attrs, c2)"
      by (auto simp: RequestPayloadAsync_def split: if_splits option.splits prod.splits sum.splits)
    from mem_getPayloadAttribute [OF simulates_success [OF proposer_sims(3) this]] show ?thesis by auto
  qed (use that in \<open>auto simp: RequestPayloadAsync_def split: if_splits\<close>)
  have S: "view c2 = view c1" if "RequestPayloadSync pb kv cd slot ts root h f (c1, pc1) = (Inr x, (c2, pc2))"
    for pb cd slot ts root h f c1 pc1 c2 pc2 x
    using that A by (auto simp: RequestPayloadSync_def split: if_splits option.splits prod.splits sum.splits)
  show ?thesis
    using assms S
    by (auto simp: retrieveExecutionPayload_def bindM_success on_state_def GetLatestExecutionPayloadHeader_def
        split: sum.splits err.splits prod.splits)
qed

end

text \<open>What a proposal is, on the contents of the store.\<close>

lemma proposal_view:
  assumes K: "beacon_store kv view addr B"
    and R: "RequestBlockForProposal v psch B kv ds unset slot (h, pc, d) = (Inr (blk, scs), st')"
    and spec: "vs_chainSpec v = cs (vs_stateProcessor v)"
    and head: "v_latestBlockHeader (view (h_ctx h)) = Some bh"
    and keys: "distinct (map fst (v_validators (view (h_ctx h))))"
  obtains us w w' blk1 gvr proposer signingRoot where
    "ProcessSlots (vs_stateProcessor v) (mem_kv addr) slot (view (h_ctx h)) = (Inr us, w)"
    and "ProcessBlock (vs_stateProcessor v) (ps_block psch) proposing (mem_kv addr) blk1 w = (Inr (), w')"
    and "state_root (cs (vs_stateProcessor v)) (sszEnv (vs_stateProcessor v)) w' = Inr (blk_StateRoot blk)"
    and "blk = blk1\<lparr>blk_StateRoot := blk_StateRoot blk\<rparr>" and "blk_Slot blk = slot"
    and "v_slot w = Some slot" and "v_genesisValidatorsRoot w = Some gvr"
    and "map_of (v_validators w) (blk_ProposerIndex blk) = Some proposer"
    and "val_Pubkey proposer = PublicKey (vs_signer v)"
    and "bindE (SlotToEpoch (cs (vs_stateProcessor v)) slot) (\<lambda>epoch.
      ComputeRandaoSigningRoot (sszEnv (vs_stateProcessor v))
        (NewForkData (FromUint32 (ActiveForkVersionForEpoch (cs (vs_stateProcessor v)) epoch)) (take 32 gvr))
        (DomainTypeRandao (cs (vs_stateProcessor v))) epoch) = Inr signingRoot"
    and "Sign (vs_signer v) signingRoot = Inr (bd_RandaoReveal (blk_Body blk))"
proof -
  let ?sp = "vs_stateProcessor v"
  have L: "kv_laws kv view addr" using K by (simp add: beacon_store_def)
  from R obtain us c1 reveal c2 blk0 c3 e c4 pc' i deposits d' payload bnd blk1 h' where
    1: "ProcessSlots ?sp kv slot (h_ctx h) = (Inr us, c1)"
    and 2: "buildRandaoReveal v kv slot c1 = (Inr reveal, c2)"
    and 3: "getEmptyBeaconBlockForSlot v kv slot unset c2 = (Inr blk0, c3)"
    and 4: "retrieveExecutionPayload v kv (ps_now psch) (ps_ctxDone psch) blk0 (c3, pc) = (Inr (Iface e), (c4, pc'))"
    and "GetEth1DepositIndex kv c4 = (Inr i, c4)"
    and "GetDepositsByIndex ds i (MaxDepositsPerBlock (vs_chainSpec v)) d = (Inr deposits, d')"
    and "env_ExecutionPayload e = Some payload" and "env_BlobsBundle e = Some bnd"
    and blk1: "blk1 = assembled blk0 reveal deposits payload (bb_Commitments bnd)"
    and 5: "computeAndSetStateRoot v (ps_block psch) B kv blk1 (h\<lparr>h_ctx := c4\<rparr>) = (Inr blk, h')"
    and "scs = fst (racing_sidecars (sszEnv ?sp) (ps_sidecars psch) (ps_txs_first psch) (ps_late psch)
      (vs_blobFactory v) blk1 blk bnd)"
    and "st' = (h', pc', d')"
    by (rule RequestBlock_steps)
  let ?w = "view c1"
  have slots: "ProcessSlots ?sp (mem_kv addr) slot (view (h_ctx h)) = (Inr us, ?w)"
    by (rule simulates_success [OF kv_laws.ProcessSlots_sim [OF L] 1])
  from simulates_success [OF kv_laws.proposer_sims(1) [OF L] 2] obtain gvr signingRoot where
    rev: "view c2 = ?w" "v_genesisValidatorsRoot ?w = Some gvr"
      "bindE (SlotToEpoch (vs_chainSpec v) slot) (\<lambda>epoch. ComputeRandaoSigningRoot (sszEnv ?sp)
        (NewForkData (FromUint32 (ActiveForkVersionForEpoch (vs_chainSpec v) epoch)) (take 32 gvr))
        (DomainTypeRandao (vs_chainSpec v)) epoch) = Inr signingRoot"
      "Sign (vs_signer v) signingRoot = Inr reveal"
    by (rule mem_buildRandaoReveal)
  from simulates_success [OF kv_laws.proposer_sims(2) [OF L] 3] have
    empty: "view c3 = ?w" "blk_Slot blk0 = slot"
      "by_pubkey (v_validators ?w) (PublicKey (vs_signer v)) = Some (blk_ProposerIndex blk0)"
    using rev(1) by (auto elim: mem_getEmptyBeaconBlockForSlot)
  have w: "view c4 = ?w" using kv_laws.retrieve_view [OF L 4] empty(1) by simp
  from 5 obtain us2 h1 r where T: "Transition ?sp (ps_block psch) B proposing kv (Some blk1) (h\<lparr>h_ctx := c4\<rparr>) = (Inr us2, h1)"
    and root: "StateDB_HashTreeRoot kv (cs ?sp) (sszEnv ?sp) (h_ctx h1) = (Inr r, h_ctx h')"
    and blk: "blk = blk1\<lparr>blk_StateRoot := r\<rparr>"
    by (auto simp: computeAndSetStateRoot_def computeStateRoot_def bindM_success on_handle_success Block_SetStateRoot_def)
  from simulates_success [OF beacon_store.Transition_sim [OF K] T] obtain wa where
    wa: "ProcessSlots ?sp (mem_kv addr) slot ?w = (Inr us2, wa)"
      "ProcessBlock ?sp (ps_block psch) proposing (mem_kv addr) blk1 wa = (Inr (), view (h_ctx h1))"
    using empty(2) w by (auto elim!: mem_Transition simp: blk1 assembled_def handle_view_def)
  from slots obtain n where n: "v_slot (view (h_ctx h)) = Some n"
      "slots_loop ?sp (mem_kv addr) slot n [] (view (h_ctx h)) = (Inr us, ?w)"
    by (auto simp: ProcessSlots_def bindM_success mem_ops)
  have "v_slot ?w = Some (max n slot)" using slots_loop_head [OF n(2,1) head] by simp
  then have idle: "wa = ?w"
    using wa(1) by (auto simp: ProcessSlots_def mem_ops slots_loop.simps [of ?sp "mem_kv addr" slot "max n slot"])
  have slot: "v_slot ?w = Some slot"
    by (rule ProcessBlock_head [OF wa(2)]) (use empty(2) in \<open>auto simp: idle blk1 assembled_def\<close>)
  have "v_validators ?w = v_validators (view (h_ctx h))" using slots_loop_roots [OF n(2,1)] by simp
  then obtain proposer where reg: "map_of (v_validators ?w) (blk_ProposerIndex blk0) = Some proposer"
      "val_Pubkey proposer = PublicKey (vs_signer v)"
    using empty(3) keys by (auto simp: by_pubkey_def dest!: map_of_SomeD)
  have root: "state_root (cs ?sp) (sszEnv ?sp) (view (h_ctx h1)) = Inr r"
    using simulates_success [OF kv_laws.state_sims(2) [OF L] root] by (auto simp: mem_StateDB_HashTreeRoot)
  show thesis
    by (rule that [OF slots wa(2) [unfolded idle]])
      (use blk blk1 empty(2) slot rev reg spec root in \<open>simp_all add: assembled_def\<close>)
qed

text \<open>
  A proposed block is accepted. Let a proposer assemble a block on some store, and a validator with the
  same rules (specification, hash tree roots, signature verification) hold a store with the same
  contents. If signatures made by the proposer's key verify under its public key, and the validator's
  execution engine accepts the payload on the state at the block's slot (parent hash, randomness, limits), then the
  validator's verification of the incoming block succeeds: the parent root, the proposer, the reveal, the
  withdrawals, the deposits and the state root that the proposer computed without verification all
  pass the checks it skipped.
\<close>

theorem proposal_accepted:
  assumes K: "beacon_store kv view addr B" and K': "beacon_store kv' view' addr B'"
    and same: "view' (h_ctx h') = view (h_ctx h)" and rules: "same_rules (vs_stateProcessor v) (svc_sp s)"
    and R: "RequestBlockForProposal v psch B kv ds unset slot (h, pc, d) = (Inr (blk, scs), st')"
    and spec: "vs_chainSpec v = cs (vs_stateProcessor v)"
    and head: "v_latestBlockHeader (view (h_ctx h)) = Some bh"
    and keys: "distinct (map fst (v_validators (view (h_ctx h))))"
    and bls: "\<And>m sig. Sign (vs_signer v) m = Inr sig \<Longrightarrow>
      VerifySignature (signer (svc_sp s)) (PublicKey (vs_signer v)) m sig = Inr ()"
    and payload: "\<And>us w. ProcessSlots (vs_stateProcessor v) (mem_kv addr) slot (view (h_ctx h)) = (Inr us, w) \<Longrightarrow>
      fst (validateExecutionPayload (svc_sp s) (mem_kv addr) blk False w) = Inr ()"
  shows "blk_Slot blk = slot \<and> fst (VerifyIncomingBlock s sch B' kv' (Some blk) (synced, h')) = None"
proof -
  let ?sp = "vs_stateProcessor v" and ?sp' = "svc_sp s"
  from K R spec head keys obtain us w w' blk1 gvr proposer signingRoot where
    slots: "ProcessSlots ?sp (mem_kv addr) slot (view (h_ctx h)) = (Inr us, w)"
    and P: "ProcessBlock ?sp (ps_block psch) proposing (mem_kv addr) blk1 w = (Inr (), w')"
    and root: "state_root (cs ?sp) (sszEnv ?sp) w' = Inr (blk_StateRoot blk)"
    and blk: "blk = blk1\<lparr>blk_StateRoot := blk_StateRoot blk\<rparr>" "blk_Slot blk = slot"
    and w: "v_slot w = Some slot" "v_genesisValidatorsRoot w = Some gvr"
      "map_of (v_validators w) (blk_ProposerIndex blk) = Some proposer"
      "val_Pubkey proposer = PublicKey (vs_signer v)"
    and signed: "bindE (SlotToEpoch (cs ?sp) slot) (\<lambda>epoch.
      ComputeRandaoSigningRoot (sszEnv ?sp)
        (NewForkData (FromUint32 (ActiveForkVersionForEpoch (cs ?sp) epoch)) (take 32 gvr))
        (DomainTypeRandao (cs ?sp)) epoch) = Inr signingRoot"
      "Sign (vs_signer v) signingRoot = Inr (bd_RandaoReveal (blk_Body blk))"
    by (rule proposal_view)
  have fields: "blk_ProposerIndex blk1 = blk_ProposerIndex blk" "blk_Body blk1 = blk_Body blk"
    using blk(1) by (metis BeaconBlockDeneb.select_convs BeaconBlockDeneb.surjective BeaconBlockDeneb.update_convs(4))+
  have "VerifySignature (signer ?sp) (val_Pubkey proposer) signingRoot (bd_RandaoReveal (blk_Body blk1)) = Inr ()"
    using bls [OF signed(2)] rules w(4) fields by (simp add: same_rules_def)
  then have full: "ProcessBlock ?sp' (sch) full_verification (mem_kv addr) blk w = (Inr (), w')"
    using w(3) fields by (intro ProcessBlock_verified [OF P rules blk(1) root payload [OF slots] w(1,2) _ signed(1)]) simp_all
  have "fst (Transition ?sp' sch mem_branching full_verification (mem_kv addr) (Some blk)
      (handle_view view' (Copy B' h'))) = Inr us"
    using slots full blk(2) same
    by (simp add: Transition_def bindM_def on_handle_eq same_rules_ProcessSlots [OF rules] handle_view_def Copy_def
        WithContext_def branching.branch_view [OF beacon_store.axioms(2) [OF K']])
  then have "fst (Transition ?sp' sch B' full_verification kv' (Some blk) (Copy B' h')) = Inr us"
    by (simp add: simulates_fst [OF beacon_store.Transition_sim [OF K']])
  then show ?thesis
    using blk(2) by (auto simp: VerifyIncomingBlock_def verifyStateRoot_def forceStartupHead_reads split: prod.splits)
qed

subsection \<open>The optimistic payload is found\<close>

context hashing
begin

lemma block_header_root:
  assumes "Block_wf b" and "BeaconBlockBodyDeneb_HashTreeRoot W (blk_Body b) = Inr bodyRoot"
  obtains r where "BeaconBlockDeneb_HashTreeRoot W b = Inr r" and "length r = 32"
    and "BeaconBlockHeader_HashTreeRoot W (SetStateRoot (NewBeaconBlockHeader (blk_Slot b) (blk_ProposerIndex b)
      (blk_ParentBlockRoot b) zero32 bodyRoot) (blk_StateRoot b)) = Inr r"
proof
  have body: "Body_wf (blk_Body b)" using assms(1) by (simp add: Block_wf_def)
  then have root: "bodyRoot = container_root E (Body_fields E (blk_Body b))" using assms(2) by (simp add: Body_hash)
  then have len: "length bodyRoot = 32" using field_roots_length(3) by simp
  let ?hdr = "SetStateRoot (NewBeaconBlockHeader (blk_Slot b) (blk_ProposerIndex b)
      (blk_ParentBlockRoot b) zero32 bodyRoot) (blk_StateRoot b)"
  have "BeaconBlockHeader_wf ?hdr"
    using assms(1) len by (simp add: BeaconBlockHeader_wf_def NewBeaconBlockHeader_def SetStateRoot_def Block_wf_def)
  moreover have "BeaconBlockHeader_fields E ?hdr = Block_fields E b"
    by (simp add: BeaconBlockHeader_fields_def Block_fields_def NewBeaconBlockHeader_def SetStateRoot_def
        vector_root_chunk [OF len] root [symmetric])
  ultimately show "BeaconBlockHeader_HashTreeRoot W ?hdr = Inr (container_root E (Block_fields E b))"
    by (simp add: BeaconBlockHeader_hash)
  show "BeaconBlockDeneb_HashTreeRoot W b = Inr (container_root E (Block_fields E b))"
    by (rule Block_hash [OF assms(1)])
  show "length (container_root E (Block_fields E b)) = 32"
    using len by (simp add: Block_fields_def root [symmetric])
qed

end

lemma parent_root_of_next:
  assumes "hashing W E" and sp: "sszEnv sp = generated_env W E" "vs_chainSpec v = cs sp"
    and post: "v_slot w = Some (blk_Slot b)" "v_latestBlockHeader w = Some (NewBeaconBlockHeader (blk_Slot b)
      (blk_ProposerIndex b) (blk_ParentBlockRoot b) zero32 bodyRoot)"
      "state_root (cs sp) (sszEnv sp) w = Inr (blk_StateRoot b)"
    and b: "Block_wf b" "blk_StateRoot b \<noteq> zero32" "blk_Slot b < blk_Slot b + 1"
      "htr_BeaconBlockBody (sszEnv sp) (blk_Body b) = Inr bodyRoot"
    and slots: "ProcessSlots sp (mem_kv addr) (blk_Slot b + 1) w = (Inr us, w1)"
    and empty: "getEmptyBeaconBlockForSlot v (mem_kv addr) (blk_Slot b + 1) unset w1 = (Inr blk', w2)"
  shows "BeaconBlockDeneb_HashTreeRoot W b = Inr (blk_ParentBlockRoot blk') \<and> blk_Slot blk' = blk_Slot b + 1"
proof -
  have L: "slots_loop sp (mem_kv addr) (blk_Slot b + 1) (blk_Slot b) [] w = (Inr us, w1)"
    using slots post(1) by (simp add: ProcessSlots_def mem_ops)
  define hdr where "hdr = NewBeaconBlockHeader (blk_Slot b) (blk_ProposerIndex b) (blk_ParentBlockRoot b) zero32 bodyRoot"
  have h: "with_state_root hdr (blk_StateRoot b) = SetStateRoot hdr (blk_StateRoot b)"
    by (simp add: with_state_root_def hdr_def NewBeaconBlockHeader_def)
  from slots_loop_head [OF L post(1,2)] b(2,3) post(3) have "v_latestBlockHeader w1 = Some (SetStateRoot hdr (blk_StateRoot b))"
    by (simp add: h [unfolded hdr_def] hdr_def)
  moreover obtain r where r: "BeaconBlockDeneb_HashTreeRoot W b = Inr r" "length r = 32"
      "BeaconBlockHeader_HashTreeRoot W (SetStateRoot hdr (blk_StateRoot b)) = Inr r"
    using hashing.block_header_root [OF assms(1) b(1), of bodyRoot] b(4) sp(1) by (auto simp: hdr_def)
  ultimately have "map_of (v_blockRoots w1) (blk_Slot b mod SlotsPerHistoricalRoot (cs sp)) = Some r"
    using slots_loop_roots [OF L post(1)] b(3) sp(1) by auto
  with empty r sp(2) show ?thesis by (auto elim!: mem_getEmptyBeaconBlockForSlot)
qed

text \<open>
  The optimistic build of a block is keyed by the parent root that the next proposer computes. Let a block with a
  non-zero state root be verified and its optimistic payload build succeed. Whenever a node with the same
  rules, on a store with the contents of the verified block's state, prepares the next slot and makes an empty block
  for it, the parent root of that block is the hash tree root of the verified block, and the payload
  cache holds an id for that slot and root unless the execution client returned none.
\<close>

theorem optimistic_payload_found:
  assumes "hashing W E" and K: "beacon_store kv view addr B" and K2: "kv_laws kv2 view2 addr"
    and env: "sszEnv (svc_sp s) = generated_env W E" "svc_hasher s = W"
    and rules: "same_rules (svc_sp s) (vs_stateProcessor v)" "vs_chainSpec v = cs (svc_sp s)"
    and T: "Transition (svc_sp s) sch B full_verification kv (Some b) (Copy B h) = (Inr us, p)"
    and pre: "v_slot (view (h_ctx h)) = Some n" "v_latestBlockHeader (view (h_ctx h)) = Some bh"
    and b: "Block_wf b" "blk_StateRoot b \<noteq> zero32" "blk_Slot b < blk_Slot b + 1"
    and O: "optimisticPayloadBuild s kv now b (h_ctx p, pc) = (Inr (), (c, pc'))"
    and same: "view2 c0 = view (h_ctx p)"
    and slots: "ProcessSlots (vs_stateProcessor v) kv2 (blk_Slot b + 1) c0 = (Inr us2, c1)"
    and empty: "getEmptyBeaconBlockForSlot v kv2 (blk_Slot b + 1) unset c1 = (Inr blk', c2)"
  shows "BeaconBlockDeneb_HashTreeRoot W b = Inr (blk_ParentBlockRoot blk') \<and>
    (pc' = pc \<or> Cache_Has pc' (blk_Slot blk') (blk_ParentBlockRoot blk'))"
proof -
  have view: "h_ctx (handle_view view x) = view (h_ctx x)" for x by (simp add: handle_view_def)
  have copy: "view (h_ctx (Copy B h)) = view (h_ctx h)"
    using branching.branch_view [OF beacon_store.axioms(2) [OF K]] by (simp add: Copy_def WithContext_def)
  obtain bodyRoot where post: "v_slot (view (h_ctx p)) = Some (blk_Slot b)"
      "v_latestBlockHeader (view (h_ctx p)) = Some (NewBeaconBlockHeader (blk_Slot b)
        (blk_ProposerIndex b) (blk_ParentBlockRoot b) zero32 bodyRoot)"
      "state_root (cs (svc_sp s)) (sszEnv (svc_sp s)) (view (h_ctx p)) = Inr (blk_StateRoot b)"
      "htr_BeaconBlockBody (sszEnv (svc_sp s)) (blk_Body b) = Inr bodyRoot"
    by (rule Transition_cases [OF simulates_success [OF beacon_store.Transition_sim [OF K] T]])
      (use pre view copy in auto)
  have root: "BeaconBlockDeneb_HashTreeRoot W b = Inr (blk_ParentBlockRoot blk') \<and> blk_Slot blk' = blk_Slot b + 1"
    using simulates_success [OF kv_laws.ProcessSlots_sim [OF K2] slots]
      simulates_success [OF kv_laws.proposer_sims(2) [OF K2] empty] same
    by (intro parent_root_of_next [OF assms(1) env(1) rules(2) post(1-3) b post(4), where addr = addr])
      (simp_all add: same_rules_ProcessSlots [OF rules(1)])
  from O root env(2) obtain c3 ts x y q where
    "RequestPayloadAsync (svc_lb s) kv (blk_Slot b + 1) ts (blk_ParentBlockRoot blk') x y (c3, pc) = (Inr q, (c, pc'))"
    by (auto simp: optimisticPayloadBuild_def Let_def bindM_success on_state_def split: prod.splits)
  then have "pc' = pc \<or> Cache_Get pc' (blk_Slot b + 1) (blk_ParentBlockRoot blk') \<noteq> None"
    by (auto simp: RequestPayloadAsync_def Cache_Get_Set split: if_splits option.splits prod.splits sum.splits)
  with root show ?thesis by (auto simp: Cache_Has_Get)
qed

subsection \<open>A concrete proposal\<close>

definition demo_proposer :: Validator_Service where
  "demo_proposer = \<lparr>vs_chainSpec = BaseSpec, vs_signer = demo_signer,
     vs_blobFactory = NewSidecarFactory BaseSpec KZGPositionDeneb, vs_stateProcessor = demo_processor,
     vs_localPayloadBuilder = demo_builder\<rparr>"

definition demo_choices :: proposal_schedule where
  "demo_choices = \<lparr>ps_block = demo_schedule, ps_sidecars = [], ps_txs_first = True, ps_sidecars_first = True,
     ps_late = (\<lambda>_. False), ps_now = 100, ps_ctxDone = None\<rparr>"

definition demo_payload_ids :: PayloadIDCache where
  "demo_payload_ids = Cache_Set 4 (replicate 32 103) [1, 2, 3, 4, 5, 6, 7, 8] NewPayloadIDCache"

definition demo_proposal :: BeaconBlockDeneb where
  "demo_proposal = demo_block\<lparr>blk_StateRoot := zero32,
     blk_Body := demo_body\<lparr>bd_Eth1Data := Some (NewEth1Data zero32 0 zero32)\<rparr>\<rparr>"

lemma demo_proposer_simps [simp]:
  "vs_chainSpec demo_proposer = BaseSpec" "vs_signer demo_proposer = demo_signer"
  "vs_stateProcessor demo_proposer = demo_processor" "vs_localPayloadBuilder demo_proposer = demo_builder"
  "ps_block demo_choices = demo_schedule" "PublicKey demo_signer = replicate 48 7"
  by (simp_all add: demo_proposer_def demo_choices_def demo_signer_def)

lemma demo_proposal_processed:
  "ProcessBlock demo_processor demo_schedule proposing (mem_kv id) demo_proposal demo_slot4 = (Inr (), demo_after)"
proof -
  from demo_ProcessBlock obtain w1 w2 w3 w4 where
    1: "processBlockHeader demo_processor (mem_kv id) demo_block demo_slot4 = (Inr (), w1)"
    and 2: "processExecutionPayload demo_processor demo_schedule demo_ctx (mem_kv id) demo_block w1 = (Inr (), w2)"
    and 3: "processWithdrawals demo_processor (mem_kv id) demo_body w2 = (Inr (), w3)"
    and 4: "processRandaoReveal demo_processor (mem_kv id) demo_block False w3 = (Inr (), w4)"
    and 5: "processOperations demo_processor (mem_kv id) demo_block w4 = (Inr (), demo_after)"
    by (auto simp: ProcessBlock_def bindM_success demo_ctx_def mem_StateDB_HashTreeRoot split: if_splits)
  have "processBlockHeader demo_processor (mem_kv id) demo_proposal demo_slot4 = (Inr (), w1)"
    using 1 by (simp add: mem_processBlockHeader demo_proposal_def)
  moreover have "processExecutionPayload demo_processor demo_schedule proposing (mem_kv id) demo_proposal w1 = (Inr (), w2)"
    using 2 by (auto simp: processExecutionPayload_def bindM_success demo_proposal_def GetExecutionPayload_def demo_ctx_def
        split: if_splits)
  moreover have "processWithdrawals demo_processor (mem_kv id) (blk_Body demo_proposal) w2 = (Inr (), w3)"
    using 3 by (simp add: processWithdrawals_def demo_proposal_def)
  moreover have "processRandaoReveal demo_processor (mem_kv id) demo_proposal True w3 = (Inr (), w4)"
    using 4 by (auto simp: processRandaoReveal_def Let_def bindM_success demo_proposal_def)
  moreover have "processOperations demo_processor (mem_kv id) demo_proposal w4 = (Inr (), demo_after)"
    using 5 by (simp add: processOperations_def processDeposits_def demo_proposal_def)
  ultimately show ?thesis by (simp add: ProcessBlock_def bindM_success)
qed

lemma demo_parts:
  "buildRandaoReveal demo_proposer (mem_kv id) 4 demo_slot4 =
     (Inr (zero32 @ replicate 48 7 @ replicate 16 0), demo_slot4)"
  "getEmptyBeaconBlockForSlot demo_proposer (mem_kv id) 4 unset demo_slot4 =
     (NewWithVersion 4 0 (replicate 32 103) Deneb unset, demo_slot4)"
  "RetrievePayload demo_builder demo_payload_ids 4 (replicate 32 103) = Inr demo_envelope"
proof -
  show "buildRandaoReveal demo_proposer (mem_kv id) 4 demo_slot4 =
     (Inr (zero32 @ replicate 48 7 @ replicate 16 0), demo_slot4)"
    by (simp add: buildRandaoReveal_def mem_ops SlotToEpoch_def ComputeRandaoSigningRoot_def
        ComputeDomain_def ComputeSigningRootUInt64_def word_root_def demo_signer_def epoch_root_0)
  show "getEmptyBeaconBlockForSlot demo_proposer (mem_kv id) 4 unset demo_slot4 =
     (NewWithVersion 4 0 (replicate 32 103) Deneb unset, demo_slot4)"
    by (simp add: getEmptyBeaconBlockForSlot_def mem_ops map_error_def by_pubkey_def demo_validator_def
        ActiveForkVersionForSlot_def SlotToEpoch_def ActiveForkVersionForEpoch_def demo_slot4_def after_slot_def)
  show "RetrievePayload demo_builder demo_payload_ids 4 (replicate 32 103) = Inr demo_envelope"
    by (subst RetrievePayload_cached [where pid = "[1, 2, 3, 4, 5, 6, 7, 8]" and v = Deneb])
      (simp_all add: demo_payload_ids_def Cache_Get_Set demo_envelope_def ActiveForkVersionForSlot_def
        SlotToEpoch_def ActiveForkVersionForEpoch_def)
qed

lemma demo_RequestBlock:
  "RequestBlockForProposal demo_proposer demo_choices mem_branching (mem_kv id) mem_deposits
      unset 4 (\<lparr>h_ctx = demo_view, h_parent = None\<rparr>, demo_payload_ids, Map.empty) =
   (Inr (demo_proposal\<lparr>blk_StateRoot := replicate 32 54\<rparr>, \<lparr>Sidecars = Some []\<rparr>),
    (\<lparr>h_ctx = demo_after, h_parent = None\<rparr>, demo_payload_ids, Map.empty))"
proof -
  have root: "state_root BaseSpec demo_env demo_after = Inr (replicate 32 54)"
    using demo_root [OF demo_after_ready, of 4] by (simp add: demo_after_def word_root_def)
  have "ProcessSlots demo_processor (mem_kv id) 4 demo_slot4 = (Inr [], demo_slot4)"
    by (rule ProcessSlots_idle) simp
  then have F: "finish_block demo_proposer demo_choices mem_branching (mem_kv id) demo_proposal
      \<lparr>bb_Commitments = [], bb_Proofs = [], bb_Blobs = []\<rparr> \<lparr>h_ctx = demo_slot4, h_parent = None\<rparr> =
      (Inr (demo_proposal\<lparr>blk_StateRoot := replicate 32 54\<rparr>, \<lparr>Sidecars = Some []\<rparr>), \<lparr>h_ctx = demo_after, h_parent = None\<rparr>)"
    using demo_proposal_processed root
    by (simp add: finish_block_def computeAndSetStateRoot_def computeStateRoot_def Transition_def on_handle_eq bindM_def
        Save_def mem_StateDB_HashTreeRoot racing_sidecars_def errgroup_def errgroup2_def demo_choices_def Block_SetStateRoot_def
        demo_proposal_def)
  have none: "GetDepositsByIndex mem_deposits 0 16 Map.empty = (Inr [], Map.empty)"
    by (simp add: GetDepositsByIndex_def range_u64_def mem_deposits_def upt_rec)
  have blk: "\<lparr>blk_Slot = 4, blk_ProposerIndex = 0, blk_ParentBlockRoot = replicate 32 103, blk_StateRoot = zero32,
      blk_Body = \<lparr>bd_RandaoReveal = zero32 @ replicate 48 7 @ replicate 16 0,
        bd_Eth1Data = Some (NewEth1Data zero32 0 zero32), bd_Graffiti = zero32, bd_Deposits = [],
        bd_ExecutionPayload = bd_ExecutionPayload demo_body, bd_BlobKzgCommitments = []\<rparr>\<rparr> = demo_proposal"
    by (simp add: demo_proposal_def demo_block_def demo_body_def)
  show ?thesis
    using demo_slots F
    by (simp add: RequestBlockForProposal_def on_beacon_def on_builder_def on_deposits_def on_handle_eq bindM_def
        demo_parts NewWithVersion_def retrieveExecutionPayload_def demo_envelope_def GetBlobsBundle_def map_error_def
        mem_ops none SetExecutionData_def body_SetEth1Data_def SetBlobKzgCommitments_def SetDeposits_def
        SetRandaoReveal_def blk)
qed

theorem proposal_accepted_witness:
  "fst (VerifyIncomingBlock demo_service demo_schedule mem_branching (mem_kv id)
     (Some (demo_proposal\<lparr>blk_StateRoot := replicate 32 54\<rparr>)) (False, \<lparr>h_ctx = demo_view, h_parent = None\<rparr>)) = None"
proof -
  let ?h = "\<lparr>h_ctx = demo_view, h_parent = None\<rparr>" and ?b = "demo_proposal\<lparr>blk_StateRoot := replicate 32 54\<rparr>"
  have valid: "fst (validateExecutionPayload demo_processor (mem_kv id) ?b False demo_slot4) = Inr ()"
    by (simp add: validateExecutionPayload_def mem_ops ExecutionPayloadHeader_Empty_def SlotToEpoch_def
        Let_def demo_payload_header_def demo_withdrawals_def demo_proposal_def)
  show ?thesis
    by (rule conjunct2 [OF proposal_accepted [OF mem_store.beacon_store_axioms mem_store.beacon_store_axioms _ _ demo_RequestBlock,
            where h' = ?h and bh = "NewBeaconBlockHeader 3 0 zero32 zero32 zero32"]])
      (use valid demo_slots in \<open>auto simp: same_rules_def demo_signer_def\<close>)
qed

end
