(* ===== verification/Runtime.thy ===== *)
theory Runtime
  imports Proposer "HOL-Library.AList" "HOL-Library.List_Lexorder"
begin

section \<open>The runtime\<close>

text \<open>
  \<open>runtime/pkg\<close>: the extraction of a block and its sidecars from an ABCI request (\<open>encoding\<close>), the
  gossip handlers that carry them inside the transactions of a proposal (\<open>p2p\<close>), the handlers of the
  consensus engine's calls (\<open>runtime/middleware\<close>) and the service registry (\<open>service\<close>).
\<close>

subsection \<open>Requests\<close>

text \<open>
  Slices may be nil: the list of transactions and each of them. The height is converted to a slot.
\<close>

record ABCIRequest =
  req_Height :: u64
  req_Txs :: "bytes option list option"

abbreviation ErrNilABCIRequest :: err where "ErrNilABCIRequest \<equiv> Newf ''nil abci request''"
abbreviation ErrNoBeaconBlockInRequest :: err where "ErrNoBeaconBlockInRequest \<equiv> Newf ''no beacon block in abci request''"
abbreviation ErrBzIndexOutOfBounds :: err where "ErrBzIndexOutOfBounds \<equiv> Newf ''bzIndex out of bounds''"
abbreviation ErrNilBeaconBlockInRequest :: err where "ErrNilBeaconBlockInRequest \<equiv> Newf ''nil beacon block in abci request''"

text \<open>
  A decoder that fails returns the block as far as it was decoded. The block of a result is nil,
  decoded, or what was decoded of the given bytes.
\<close>

datatype decoded = NilBlock | DecodedBlock BeaconBlockDeneb | PartialBlock bytes

definition new_ExecutableDataDeneb :: ExecutableDataDeneb where
  "new_ExecutableDataDeneb = \<lparr>pl_ParentHash = zero32, pl_FeeRecipient = replicate 20 0, pl_StateRoot = zero32,
     pl_ReceiptsRoot = zero32, pl_LogsBloom = [], pl_Random = zero32, pl_Number = 0, pl_GasLimit = 0, pl_GasUsed = 0,
     pl_Timestamp = 0, pl_ExtraData = [], pl_BaseFeePerGas = zero32, pl_BlockHash = zero32, pl_Transactions = [],
     pl_Withdrawals = [], pl_BlobGasUsed = 0, pl_ExcessBlobGas = 0\<rparr>"

definition new_BeaconBlockDeneb :: BeaconBlockDeneb where
  "new_BeaconBlockDeneb = \<lparr>blk_Slot = 0, blk_ProposerIndex = 0, blk_ParentBlockRoot = zero32, blk_StateRoot = zero32,
     blk_Body = \<lparr>bd_RandaoReveal = replicate 96 0, bd_Eth1Data = None, bd_Graffiti = zero32, bd_Deposits = [],
       bd_ExecutionPayload = new_ExecutableDataDeneb, bd_BlobKzgCommitments = []\<rparr>\<rparr>"

definition NewFromSSZ :: "fastssz \<Rightarrow> bytes \<Rightarrow> u32 \<Rightarrow> decoded \<times> err option" where
  "NewFromSSZ F bz forkVersion =
     (if forkVersion = Deneb
      then case BeaconBlockDeneb_UnmarshalSSZ F new_BeaconBlockDeneb bz of
             Inl e \<Rightarrow> (PartialBlock bz, Some e)
           | Inr b \<Rightarrow> (DecodedBlock b, None)
      else (NilBlock, Some ErrForkVersionNotSupported))"

definition UnmarshalBeaconBlockFromABCIRequest ::
  "fastssz \<Rightarrow> ABCIRequest option \<Rightarrow> nat \<Rightarrow> u32 \<Rightarrow> decoded \<times> err option" where
  "UnmarshalBeaconBlockFromABCIRequest F req bzIndex forkVersion =
     (case req of
        None \<Rightarrow> (NilBlock, Some ErrNilABCIRequest)
      | Some req \<Rightarrow>
          (case req_Txs req of
             None \<Rightarrow> (NilBlock, Some ErrNoBeaconBlockInRequest)
           | Some txs \<Rightarrow>
               if length txs = 0 then (NilBlock, Some ErrNoBeaconBlockInRequest)
               else if bzIndex \<ge> length txs then (NilBlock, Some ErrBzIndexOutOfBounds)
               else (case txs ! bzIndex of
                       None \<Rightarrow> (NilBlock, Some ErrNilBeaconBlockInRequest)
                     | Some blkBz \<Rightarrow> NewFromSSZ F blkBz forkVersion)))"

text \<open>
  The sidecars start as a new value. \<open>parts\<close> is what a failed decoding leaves in it.
\<close>

definition UnmarshalBlobSidecarsFromABCIRequest ::
  "fastssz \<Rightarrow> (bytes \<Rightarrow> BlobSidecars) \<Rightarrow> ABCIRequest option \<Rightarrow> nat \<Rightarrow> BlobSidecars option \<times> err option" where
  "UnmarshalBlobSidecarsFromABCIRequest F parts req bzIndex =
     (let sidecars = Some \<lparr>Sidecars = None\<rparr> in
      case req of
        None \<Rightarrow> (sidecars, Some ErrNilABCIRequest)
      | Some req \<Rightarrow>
          (case req_Txs req of
             None \<Rightarrow> (sidecars, Some ErrNoBeaconBlockInRequest)
           | Some txs \<Rightarrow>
               if length txs = 0 then (sidecars, Some ErrNoBeaconBlockInRequest)
               else if bzIndex \<ge> length txs then (sidecars, Some ErrBzIndexOutOfBounds)
               else (case txs ! bzIndex of
                       None \<Rightarrow> (sidecars, Some ErrNilBeaconBlockInRequest)
                     | Some sidecarBz \<Rightarrow>
                         (case BlobSidecars_UnmarshalSSZ F sidecarBz of
                            Inl e \<Rightarrow> (Some (parts sidecarBz), Some e)
                          | Inr scs \<Rightarrow> (Some scs, None)))))"

definition ExtractBlobsAndBlockFromRequest ::
  "fastssz \<Rightarrow> ABCIRequest option \<Rightarrow> nat \<Rightarrow> nat \<Rightarrow> u32 \<Rightarrow> err + BeaconBlock \<times> BlobSidecars option" where
  "ExtractBlobsAndBlockFromRequest F req beaconBlkIndex blobSidecarsIndex forkVersion =
     (if req = None then Inl ErrNilABCIRequest
      else case UnmarshalBeaconBlockFromABCIRequest F req beaconBlkIndex forkVersion of
             (_, Some e) \<Rightarrow> Inl e
           | (blk, None) \<Rightarrow>
               (case UnmarshalBlobSidecarsFromABCIRequest F (\<lambda>_. \<lparr>Sidecars = None\<rparr>) req blobSidecarsIndex of
                  (_, Some e) \<Rightarrow> Inl e
                | (blobs, None) \<Rightarrow> Inr (case blk of DecodedBlock b \<Rightarrow> Some b | _ \<Rightarrow> None, blobs)))"

subsection \<open>Gossip\<close>

definition Block_Publish :: "fastssz \<Rightarrow> BeaconBlockDeneb \<Rightarrow> err + bytes" where
  "Block_Publish F data = BeaconBlockDeneb_MarshalSSZ F data"

definition Block_Request :: "fastssz \<Rightarrow> SpecData \<Rightarrow> ABCIRequest \<Rightarrow> err + decoded \<times> err option" where
  "Block_Request F chainSpec req =
     bindE (ActiveForkVersionForSlot chainSpec (req_Height req)) (\<lambda>forkVersion.
     Inr (UnmarshalBeaconBlockFromABCIRequest F (Some req) 0 forkVersion))"

definition Blob_Publish :: "fastssz \<Rightarrow> BlobSidecars \<Rightarrow> err + bytes" where
  "Blob_Publish F data = BlobSidecars_MarshalSSZ F data"

definition Blob_Request ::
  "fastssz \<Rightarrow> (bytes \<Rightarrow> BlobSidecars) \<Rightarrow> ABCIRequest \<Rightarrow> BlobSidecars option \<times> err option" where
  "Blob_Request F parts req = UnmarshalBlobSidecarsFromABCIRequest F parts (Some req) 1"

subsection \<open>Proposals\<close>

definition BeaconBlockTxIndex :: nat where
  "BeaconBlockTxIndex = 0"

definition BlobSidecarsTxIndex :: nat where
  "BlobSidecarsTxIndex = 1"

text \<open>
  Go does not order the reads of the two byte slices and the call of \<open>g.Wait\<close> in the return statement.
  \<open>pp_written\<close> says which of the slices were written when the response was made, \<open>pp_failed\<close> is what a failed
  encoding leaves in its slice. The goroutines return the error of the enclosing function, which is nil, and
  not their own.
\<close>

record prepare_schedule =
  pp_proposal :: proposal_schedule
  pp_written :: "bool \<times> bool"
  pp_failed :: "bytes option"

definition published :: "prepare_schedule \<Rightarrow> bool \<Rightarrow> err + bytes \<Rightarrow> bytes option" where
  "published sch written r = (if \<not> written then None else case r of Inl _ \<Rightarrow> pp_failed sch | Inr bz \<Rightarrow> Some bz)"

definition PrepareProposalHandler ::
  "Validator_Service \<Rightarrow> fastssz \<Rightarrow> prepare_schedule \<Rightarrow> 'c Branching \<Rightarrow> 'c KVStore \<Rightarrow> 'd DepositKV \<Rightarrow> u64 \<Rightarrow>
   (('c, 'd) proposer_state, bytes option list) M" where
  "PrepareProposalHandler v F sch B kv ds height =
     bindM (RequestBlockForProposal v (pp_proposal sch) B kv ds new_ExecutableDataDeneb height) (\<lambda>(blk, blobs).
     ret [published sch (fst (pp_written sch)) (Block_Publish F blk),
          published sch (snd (pp_written sch)) (Blob_Publish F blobs)])"

datatype proposal_status = PROPOSAL_ACCEPT | PROPOSAL_REJECT goerr

text \<open>
  \<open>undecoded\<close> is the answer of \<open>ReceiveBlockAndBlobs\<close> on a partially decoded block.
\<close>

definition ProcessProposalHandler ::
  "Service \<Rightarrow> fastssz \<Rightarrow> (bytes \<Rightarrow> BlobSidecars) \<Rightarrow>
   (bytes \<Rightarrow> BlobSidecars option \<Rightarrow> bool \<times> 'c Handle \<Rightarrow> goerr \<times> (bool \<times> 'c Handle) \<times> 'c task list) \<Rightarrow>
   Schedules \<Rightarrow> 'c Branching \<Rightarrow> 'c KVStore \<Rightarrow> ABCIRequest \<Rightarrow> bool \<times> 'c Handle \<Rightarrow>
   err + proposal_status \<times> (bool \<times> 'c Handle) \<times> 'c task list" where
  "ProcessProposalHandler s F parts undecoded sch B kv req st =
     bindE (Block_Request F (svc_cs s) req) (\<lambda>(blk, _).
     let (sidecars, _) = Blob_Request F parts req;
         (e, st, tasks) =
           (case blk of
              NilBlock \<Rightarrow> ReceiveBlockAndBlobs s sch B kv None sidecars st
            | DecodedBlock b \<Rightarrow> ReceiveBlockAndBlobs s sch B kv (Some b) sidecars st
            | PartialBlock bz \<Rightarrow> undecoded bz sidecars st)
     in Inr (if IsFatal (Some e) then PROPOSAL_REJECT e else PROPOSAL_ACCEPT, st, tasks))"

subsection \<open>Finalized blocks\<close>

record Genesis =
  gen_ForkVersion :: bytes
  gen_Deposits :: "Deposit list"
  gen_ExecutionPayloadHeader :: ExecutionPayloadHeaderDeneb

record appmodule_ValidatorUpdate =
  am_PubKey :: bytes
  am_PubKeyType :: string
  am_Power :: int

definition CometBLSType :: string where
  "CometBLSType = ''bls12_381''"

definition convertValidatorUpdate :: "ValidatorUpdate option \<Rightarrow> err + appmodule_ValidatorUpdate" where
  "convertValidatorUpdate u =
     (case u of
        None \<Rightarrow> Inl (Newf ''undefined validator update'')
      | Some update \<Rightarrow> Inr \<lparr>am_PubKey = upd_Pubkey update, am_PubKeyType = CometBLSType,
          am_Power = sint (upd_EffectiveBalance update)\<rparr>)"

text \<open>\<open>iter.MapErr\<close> of \<open>sourcegraph/conc\<close> applies the function to all elements and joins the errors.\<close>

definition iter_MapErr :: "('a \<Rightarrow> err + 'b) \<Rightarrow> 'a list \<Rightarrow> err + 'b list" where
  "iter_MapErr f xs = bindE (join_errors (map f xs)) (\<lambda>_. Inr (map (projr \<circ> f) xs))"

definition InitGenesis ::
  "Service \<Rightarrow> (bytes \<Rightarrow> err + Genesis) \<Rightarrow> 'c Branching \<Rightarrow> 'c KVStore \<Rightarrow> bytes \<Rightarrow>
   ('c Handle, appmodule_ValidatorUpdate list) M" where
  "InitGenesis s json_Unmarshal B kv bz =
     bindM (liftE (json_Unmarshal bz)) (\<lambda>data.
     bindM (ProcessGenesisData s B kv (gen_Deposits data) (gen_ExecutionPayloadHeader data) (gen_ForkVersion data)) (\<lambda>updates.
     liftE (iter_MapErr convertValidatorUpdate (map Some updates))))"

text \<open>
  \<open>PreBlock\<close> keeps the updates for \<open>EndBlock\<close>; a request that does not decode leaves the old ones.
\<close>

definition PreBlock ::
  "Service \<Rightarrow> Schedules \<Rightarrow> 'c Branching \<Rightarrow> 'c KVStore \<Rightarrow> 's Store \<Rightarrow> ABCIRequest \<Rightarrow>
   ValidatorUpdate list \<times> 'c Handle \<times> 's \<Rightarrow> err option \<times> (ValidatorUpdate list \<times> 'c Handle \<times> 's) \<times> 'c task list" where
  "PreBlock s sch B kv avs req st =
     (case st of (valUpdates, hs) \<Rightarrow>
      case ActiveForkVersionForSlot (svc_cs s) (req_Height req) of
        Inl e \<Rightarrow> (Some e, st, [])
      | Inr forkVersion \<Rightarrow>
          (case ExtractBlobsAndBlockFromRequest (svc_ssz s) (Some req) BeaconBlockTxIndex BlobSidecarsTxIndex forkVersion of
             Inl _ \<Rightarrow> (None, st, [])
           | Inr (blk, blobs) \<Rightarrow>
               (case ProcessBlockAndBlobs s sch B kv avs blk blobs hs of
                  (Inl e, hs, tasks) \<Rightarrow> (Some e, ([], hs), tasks)
                | (Inr us, hs, tasks) \<Rightarrow> (None, (us, hs), tasks))))"

text \<open>
  \<open>EndBlock\<close> has a value receiver: the sorted updates are not kept. \<open>order\<close> is the order in which the runtime
  enumerates the map.
\<close>

definition EndBlock ::
  "((bytes \<times> ValidatorUpdate) list \<Rightarrow> (bytes \<times> ValidatorUpdate) list) \<Rightarrow> ValidatorUpdate list \<Rightarrow>
   err + appmodule_ValidatorUpdate list" where
  "EndBlock order valUpdates =
     (let valUpdatesMap = fold (\<lambda>update. AList.update (upd_Pubkey update) update) valUpdates [];
          dedupedValUpdates = map snd (order valUpdatesMap)
      in iter_MapErr convertValidatorUpdate (map Some (sort_key upd_Pubkey dedupedValUpdates)))"

subsection \<open>Validator updates\<close>

definition last_update :: "ValidatorUpdate list \<Rightarrow> bytes \<Rightarrow> ValidatorUpdate" where
  "last_update us k = the (map_of (rev (map (\<lambda>u. (upd_Pubkey u, u)) us)) k)"

lemma updates_map:
  assumes "m = fold (\<lambda>update. AList.update (upd_Pubkey update) update) us []"
  shows "distinct (map fst m)" and "set (map fst m) = upd_Pubkey ` set us"
    and "map_of m = map_of (rev (map (\<lambda>u. (upd_Pubkey u, u)) us))" and "\<forall>(k, u) \<in> set m. upd_Pubkey u = k"
proof -
  have "distinct (map fst m) \<and> set (map fst m) = upd_Pubkey ` set us \<and>
      map_of m = map_of (rev (map (\<lambda>u. (upd_Pubkey u, u)) us))"
    unfolding assms
  proof (induction us rule: rev_induct)
    case (snoc u us)
    then show ?case
      by (auto simp: distinct_update dom_update update_conv' fun_eq_iff image_iff)
  qed simp
  then show "distinct (map fst m)" "set (map fst m) = upd_Pubkey ` set us"
    and m: "map_of m = map_of (rev (map (\<lambda>u. (upd_Pubkey u, u)) us))" by blast+
  show "\<forall>(k, u) \<in> set m. upd_Pubkey u = k"
  proof (clarify)
    fix k u assume "(k, u) \<in> set m"
    with \<open>distinct (map fst m)\<close> have "map_of m k = Some u" by simp
    with m show "upd_Pubkey u = k" by (auto dest!: map_of_SomeD)
  qed
qed

lemma iter_MapErr_total: "(\<And>x. x \<in> set xs \<Longrightarrow> f x = Inr (g x)) \<Longrightarrow> iter_MapErr f xs = Inr (map g xs)"
proof -
  assume f: "\<And>x. x \<in> set xs \<Longrightarrow> f x = Inr (g x)"
  then have "join_errors (map f xs) = Inr ()" by (induction xs) auto
  with f show ?thesis by (simp add: iter_MapErr_def)
qed

text \<open>
  C11. The validator updates of a block. Whatever the order in which the map is enumerated, \<open>EndBlock\<close>
  returns one update for each public key of the block's updates, in the byte order of the keys, with the power
  of the last update of that key as a signed 64-bit integer.
\<close>

theorem EndBlock_deterministic:
  assumes "\<And>m. mset (order m) = mset m"
  shows "EndBlock order us =
    Inr (map (\<lambda>k. \<lparr>am_PubKey = k, am_PubKeyType = CometBLSType,
           am_Power = sint (upd_EffectiveBalance (last_update us k))\<rparr>)
         (sorted_list_of_set (upd_Pubkey ` set us)))"
proof -
  define m where "m = fold (\<lambda>update. AList.update (upd_Pubkey update) update) us []"
  note M = updates_map [OF m_def]
  define ds where "ds = sort_key upd_Pubkey (map snd (order m))"
  have perm: "mset (order m) = mset m" by (rule assms)
  then have set: "set (order m) = set m" by (metis set_mset_mset)
  have keys: "map upd_Pubkey (map snd (order m)) = map fst (order m)"
    using M(4) set by auto
  have "map upd_Pubkey ds = sort (map fst (order m))"
    unfolding ds_def keys [symmetric] by (rule properties_for_sort [symmetric]) (simp_all add: multiset.map_comp)
  moreover have "distinct (map fst (order m))"
    using M(1) perm mset_eq_imp_distinct_iff [of "map fst (order m)" "map fst m"] by simp
  ultimately have keys': "map upd_Pubkey ds = sorted_list_of_set (upd_Pubkey ` set us)"
    using M(2) set sorted_list_of_set_sort_remdups [of "map fst (order m)"] by (simp add: distinct_remdups_id)
  have last: "last_update us (upd_Pubkey u) = u" if "u \<in> set ds" for u
  proof -
    from that set obtain k where "(k, u) \<in> set m" by (auto simp: ds_def)
    with M(1,3,4) show ?thesis by (force simp: last_update_def dest: map_of_is_SomeI)
  qed
  let ?g = "\<lambda>u k. \<lparr>am_PubKey = k, am_PubKeyType = CometBLSType, am_Power = sint (upd_EffectiveBalance u)\<rparr>"
  have "EndBlock order us = Inr (map (\<lambda>u. ?g (the u) (upd_Pubkey (the u))) (map Some ds))"
    unfolding EndBlock_def Let_def m_def [symmetric] ds_def [symmetric]
    by (rule iter_MapErr_total) (auto simp: convertValidatorUpdate_def)
  also have "map (\<lambda>u. ?g (the u) (upd_Pubkey (the u))) (map Some ds) =
      map (\<lambda>k. ?g (last_update us k) k) (map upd_Pubkey ds)"
    using last by simp
  finally show ?thesis unfolding keys' .
qed

theorem EndBlock_deterministic_witness:
  "EndBlock rev [\<lparr>upd_Pubkey = [7], upd_EffectiveBalance = 5\<rparr>, \<lparr>upd_Pubkey = [3], upd_EffectiveBalance = 1\<rparr>,
     \<lparr>upd_Pubkey = [7], upd_EffectiveBalance = 6\<rparr>] =
   Inr [\<lparr>am_PubKey = [3], am_PubKeyType = CometBLSType, am_Power = 1\<rparr>,
        \<lparr>am_PubKey = [7], am_PubKeyType = CometBLSType, am_Power = 6\<rparr>]"
  by (subst EndBlock_deterministic) (simp_all add: last_update_def insert_Diff_if)

subsection \<open>From the proposer to the validator\<close>

lemma decode_published:
  assumes "fastssz_laws F" and "Block_wf b" and "BeaconBlockDeneb_SizeSSZ b < 2 ^ 32"
  obtains bz where "Block_Publish F b = Inr bz"
    and "NewFromSSZ F bz Deneb = (DecodedBlock (b\<lparr>blk_Body := with_Eth1Data (blk_Body b)\<rparr>), None)"
proof
  show "Block_Publish F b = Inr (Block_bytes b)"
    using assms(2) by (simp add: Block_Publish_def BeaconBlockDeneb_MarshalSSZ_def fastssz_laws.marshal_with [OF assms(1)]
        fastssz_laws.Block_marshal [OF assms(1)])
  show "NewFromSSZ F (Block_bytes b) Deneb = (DecodedBlock (b\<lparr>blk_Body := with_Eth1Data (blk_Body b)\<rparr>), None)"
    using fastssz_laws.Block_roundtrip [OF assms, of new_BeaconBlockDeneb]
    by (simp add: NewFromSSZ_def new_BeaconBlockDeneb_def new_ExecutableDataDeneb_def)
qed

lemma getEmpty_Deneb:
  "getEmptyBeaconBlockForSlot s kv slot unset c = (Inr blk, c') \<Longrightarrow>
   ActiveForkVersionForSlot (vs_chainSpec s) slot = Inr Deneb"
  by (auto simp: getEmptyBeaconBlockForSlot_def bindM_success NewWithVersion_def split: if_splits)

lemma proposal_shape:
  assumes "RequestBlockForProposal v psch B kv ds unset slot (h, pc, d) = (Inr (blk, scs), st')"
  shows "ActiveForkVersionForSlot (vs_chainSpec v) slot = Inr Deneb \<and> bd_Eth1Data (blk_Body blk) \<noteq> None"
  by (rule RequestBlock_steps [OF assms])
    (auto simp: getEmpty_Deneb computeAndSetStateRoot_def bindM_success Block_SetStateRoot_def assembled_def)

text \<open>
  C2. An honest proposal is accepted, from one handler to the other. Let \<open>PrepareProposal\<close> assemble a block and
  sidecars with sizes within their limits, under the hypotheses on keys, stores, rules and execution
  engine that make the block valid, and let both encodings be written when the response is made. Then the handler's response carries their encodings, and
  \<open>ProcessProposal\<close> on a request with these transactions decodes the same block and sidecars and accepts the
  proposal, provided the sidecars verify. For a proposal without blobs nothing is left to verify.
\<close>

theorem honest_proposal_accepted:
  assumes K: "beacon_store kv view addr B" and K': "beacon_store kv' view' addr B'" and F: "fastssz_laws F"
    and same: "view' (h_ctx h') = view (h_ctx h)" and rules: "same_rules (vs_stateProcessor v) (svc_sp s)"
    and spec: "vs_chainSpec v = cs (vs_stateProcessor v)" "svc_cs s = vs_chainSpec v"
    and R: "RequestBlockForProposal v (pp_proposal sch) B kv ds new_ExecutableDataDeneb slot (h, pc, d) = (Inr (blk, scs), st')"
    and head: "v_latestBlockHeader (view (h_ctx h)) = Some bh"
    and keys: "distinct (map fst (v_validators (view (h_ctx h))))"
    and bls: "\<And>m sig. Sign (vs_signer v) m = Inr sig \<Longrightarrow>
      VerifySignature (signer (svc_sp s)) (PublicKey (vs_signer v)) m sig = Inr ()"
    and payload: "\<And>us w. ProcessSlots (vs_stateProcessor v) (mem_kv addr) slot (view (h_ctx h)) = (Inr us, w) \<Longrightarrow>
      fst (validateExecutionPayload (svc_sp s) (mem_kv addr) blk False w) = Inr ()"
    and sizes: "Block_wf blk" "BeaconBlockDeneb_SizeSSZ blk < 2 ^ 32" "scs = \<lparr>Sidecars = Some (map Some l)\<rparr>"
      "\<forall>b \<in> set l. Sidecar_wf b \<and> sc_BeaconBlockHeader b \<noteq> None" "length l \<le> 6"
    and blobs: "l = [] \<or> \<not> blobs_rejected s (sch_blobs psch) blk (Some scs)"
    and written: "pp_written sch = (True, True)"
  shows "\<exists>txs st tasks. PrepareProposalHandler v F sch B kv ds slot (h, pc, d) = (Inr txs, st') \<and>
    ProcessProposalHandler s F parts undecoded psch B' kv' \<lparr>req_Height = slot, req_Txs = Some txs\<rparr> (synced, h') =
      Inr (PROPOSAL_ACCEPT, st, tasks)"
proof -
  obtain bz where bz: "Block_Publish F blk = Inr bz"
      "NewFromSSZ F bz Deneb = (DecodedBlock (blk\<lparr>blk_Body := with_Eth1Data (blk_Body blk)\<rparr>), None)"
    by (rule decode_published [OF F sizes(1,2)])
  have eth: "blk\<lparr>blk_Body := with_Eth1Data (blk_Body blk)\<rparr> = blk"
    using proposal_shape [OF R] by (auto simp: with_Eth1Data_def or_new_Eth1Data_def)
  have "map (Some \<circ> with_header) l = map Some l"
    using sizes(4) by (auto simp: with_header_def or_new_BeaconBlockHeader_def)
  then obtain sz where sz: "Blob_Publish F scs = Inr sz" "BlobSidecars_UnmarshalSSZ F sz = Inr scs"
    using fastssz_laws.Sidecars_roundtrip [OF F, of l] sizes(3-5) by (auto simp: Blob_Publish_def)
  have prep: "PrepareProposalHandler v F sch B kv ds slot (h, pc, d) = (Inr [Some bz, Some sz], st')"
    using R bz(1) sz(1) written by (simp add: PrepareProposalHandler_def bindM_def published_def)
  obtain e st tasks where rec: "ReceiveBlockAndBlobs s psch B' kv' (Some blk) (Some scs) (synced, h') = (e, st, tasks)"
    by (metis prod_cases3)
  have "fst (VerifyIncomingBlock s (sch_block psch) B' kv' (Some blk) (synced, h')) = None"
    by (rule conjunct2 [OF proposal_accepted [OF K K' same rules R spec(1) head keys]]) (fact bls payload)+
  moreover have "\<not> blobs_rejected s (sch_blobs psch) blk (Some scs)"
    using blobs sizes(3) by (auto simp: blobs_rejected_def BlobSidecars_Len_def sidecar_list_def)
  ultimately have "\<not> IsFatal (Some e)"
    using rec by (auto simp: ReceiveBlockAndBlobs_def JoinFatal_iff VerifyIncomingBlobs_fatal split: prod.splits)
  then have "ProcessProposalHandler s F parts undecoded psch B' kv' \<lparr>req_Height = slot, req_Txs = Some [Some bz, Some sz]\<rparr> (synced, h') =
      Inr (PROPOSAL_ACCEPT, st, tasks)"
    using rec bz(2) sz(2) eth spec(2) proposal_shape [OF R]
    by (simp add: ProcessProposalHandler_def Block_Request_def Blob_Request_def UnmarshalBeaconBlockFromABCIRequest_def
        UnmarshalBlobSidecarsFromABCIRequest_def)
  with prep show ?thesis by blast
qed

definition demo_prepare :: prepare_schedule where
  "demo_prepare = \<lparr>pp_proposal = demo_choices, pp_written = (True, True), pp_failed = None\<rparr>"

lemma demo_proposal_wf:
  "Block_wf (demo_proposal\<lparr>blk_StateRoot := replicate 32 54\<rparr>)"
  "BeaconBlockDeneb_SizeSSZ (demo_proposal\<lparr>blk_StateRoot := replicate 32 54\<rparr>) < 2 ^ 32"
  by (simp_all add: Block_wf_def Body_wf_def Payload_wf_def or_new_Eth1Data_def NewEth1Data_def
      Eth1Data_wf_def Withdrawal_wf_def demo_proposal_def demo_block_def demo_body_def demo_withdrawals_def
      BeaconBlockDeneb_SizeSSZ_def BeaconBlockBodyDeneb_SizeSSZ_def ExecutableDataDeneb_SizeSSZ_def)

theorem honest_proposal_accepted_witness:
  "\<exists>txs st tasks.
     fst (PrepareProposalHandler demo_proposer reference_fastssz demo_prepare mem_branching (mem_kv id) mem_deposits 4
        (\<lparr>h_ctx = demo_view, h_parent = None\<rparr>, demo_payload_ids, Map.empty)) = Inr txs \<and>
     ProcessProposalHandler demo_service reference_fastssz (\<lambda>_. \<lparr>Sidecars = None\<rparr>)
       (\<lambda>_ _ st. (Plain ErrSize, st, [])) demo_schedules mem_branching (mem_kv id)
       \<lparr>req_Height = 4, req_Txs = Some txs\<rparr> (False, \<lparr>h_ctx = demo_view, h_parent = None\<rparr>) =
       Inr (PROPOSAL_ACCEPT, st, tasks)"
proof -
  let ?h = "\<lparr>h_ctx = demo_view, h_parent = None\<rparr>" and ?b = "demo_proposal\<lparr>blk_StateRoot := replicate 32 54\<rparr>"
  have valid: "fst (validateExecutionPayload demo_processor (mem_kv id) ?b False demo_slot4) = Inr ()"
    by (simp add: validateExecutionPayload_def mem_ops ExecutionPayloadHeader_Empty_def SlotToEpoch_def
        Let_def demo_payload_header_def demo_withdrawals_def demo_proposal_def)
  have "\<exists>txs st tasks. PrepareProposalHandler demo_proposer reference_fastssz demo_prepare mem_branching (mem_kv id)
        mem_deposits 4 (?h, demo_payload_ids, Map.empty) =
        (Inr txs, (\<lparr>h_ctx = demo_after, h_parent = None\<rparr>, demo_payload_ids, Map.empty)) \<and>
     ProcessProposalHandler demo_service reference_fastssz (\<lambda>_. \<lparr>Sidecars = None\<rparr>)
       (\<lambda>_ _ st. (Plain ErrSize, st, [])) demo_schedules mem_branching (mem_kv id)
       \<lparr>req_Height = 4, req_Txs = Some txs\<rparr> (False, ?h) = Inr (PROPOSAL_ACCEPT, st, tasks)"
    by (rule honest_proposal_accepted [OF mem_store.beacon_store_axioms mem_store.beacon_store_axioms ref_ssz.fastssz_laws_axioms,
          where h' = ?h and bh = "NewBeaconBlockHeader 3 0 zero32 zero32 zero32" and l = "[]" and blk = ?b
            and scs = "\<lparr>Sidecars = Some []\<rparr>"])
      (use valid demo_slots demo_RequestBlock demo_proposal_wf in
        \<open>auto simp: same_rules_def demo_signer_def demo_service_def demo_prepare_def\<close>)
  then show ?thesis by fastforce
qed

subsection \<open>Proposals without a block\<close>

text \<open>
  A proposal that carries no block is accepted: no transactions, a nil first transaction or a fork that has no block
  type. The context is left as it was.
\<close>

theorem empty_proposal_accepted:
  assumes "Block_Request F (svc_cs s) req = Inr (NilBlock, e)"
  shows "ProcessProposalHandler s F parts undecoded sch B kv req (synced, h) = Inr (PROPOSAL_ACCEPT, (True, h), [])"
proof -
  have "ReceiveBlockAndBlobs s sch B kv None blobs (synced, h) =
      (JoinFatal [Some (WrapNonFatal (Some (Plain ErrNilBlk))), Some (WrapNonFatal (Some (Plain ErrNilBlk)))], (True, h), [])"
    for blobs
    by (auto simp: ReceiveBlockAndBlobs_def VerifyIncomingBlock_def VerifyIncomingBlobs_def forceStartupHead_reads)
  then show ?thesis
    using assms by (simp add: ProcessProposalHandler_def JoinFatal_iff split: prod.splits)
qed

text \<open>
  The updates of a block are returned again when the next request does not decode: \<open>PreBlock\<close> then succeeds
  without a transition and keeps the updates that \<open>EndBlock\<close> reads.
\<close>

lemma PreBlock_stale:
  assumes "ActiveForkVersionForSlot (svc_cs s) (req_Height req) = Inr v"
    and "ExtractBlobsAndBlockFromRequest (svc_ssz s) (Some req) BeaconBlockTxIndex BlobSidecarsTxIndex v = Inl e"
  shows "PreBlock s sch B kv avs req (us, hs) = (None, (us, hs), [])"
  using assms by (simp add: PreBlock_def)

end
