(* ===== verification/DepositReader.thy ===== *)
theory DepositReader
  imports Availability Encodings
begin

section \<open>The deposit reader: \<open>execution/pkg/deposit\<close>\<close>

text \<open>
  The service that reads the deposits of finalized execution blocks from the deposit contract and stores
  them (\<open>sync.go\<close>, \<open>contract.go\<close>, \<open>service.go\<close>). Two goroutines share the set of failed blocks, one that
  handles the events of finalized blocks and one that retries on a timer; a third, the pruner, works on the same deposit store.
  The step relation interleaves them access by access: a call reads the contract, takes the lock of the store, and updates the set
  of failed blocks, with steps of the others in between. Each access of the map of failed blocks is atomic, as it would be under a lock
  (the code has none). The contract binding is a parameter: \<open>FilterDeposit\<close> fails
  or returns an iterator, given as the events it delivers and the error it ends with.
\<close>

record DepositLog =
  dl_Pubkey :: bytes
  dl_Credentials :: bytes
  dl_Amount :: u64
  dl_Signature :: bytes
  dl_Index :: u64

type_synonym filter_deposit = "u64 \<Rightarrow> err + DepositLog list \<times> err option"

definition log_deposit :: "DepositLog \<Rightarrow> err + Deposit" where
  "log_deposit l =
     bindE (ToBytes48 (dl_Pubkey l)) (\<lambda>pubkey.
     bindE (ToBytes32 (dl_Credentials l)) (\<lambda>credentials.
     bindE (ToBytes96 (dl_Signature l)) (\<lambda>signature.
     Inr (NewDeposit pubkey credentials (dl_Amount l) signature (dl_Index l)))))"

text \<open>The loop ends when the iterator has no further event; its error is not read.\<close>

definition ReadDeposits :: "filter_deposit \<Rightarrow> u64 \<Rightarrow> err + Deposit list" where
  "ReadDeposits flt blkNum = bindE (flt blkNum) (\<lambda>(logs, _). mapE log_deposit logs)"

subsection \<open>The service\<close>

text \<open>The state: the failed blocks and the deposit store.\<close>

definition fetchAndStoreDeposits ::
  "filter_deposit \<Rightarrow> 'd DepositKV \<Rightarrow> u64 \<Rightarrow> u64 set \<times> 'd \<Rightarrow> u64 set \<times> 'd" where
  "fetchAndStoreDeposits flt ds blockNum st =
     (case st of (failedBlocks, d) \<Rightarrow>
      case ReadDeposits flt blockNum of
        Inl _ \<Rightarrow> (insert blockNum failedBlocks, d)
      | Inr deposits \<Rightarrow>
          (case EnqueueDeposits ds deposits d of
             (Inl _, d) \<Rightarrow> (insert blockNum failedBlocks, d)
           | (Inr _, d) \<Rightarrow> (failedBlocks - {blockNum}, d)))"

definition depositFetcher_event ::
  "u64 \<Rightarrow> filter_deposit \<Rightarrow> 'd DepositKV \<Rightarrow> BlockEvent \<Rightarrow> u64 set \<times> 'd \<Rightarrow> u64 set \<times> 'd" where
  "depositFetcher_event eth1FollowDistance flt ds event st =
     (if ev_type event = BeaconBlockFinalized
      then fetchAndStoreDeposits flt ds
             (pl_Number (bd_ExecutionPayload (blk_Body (ev_block event))) - eth1FollowDistance) st
      else st)"

text \<open>A tick of the timer: the range over the map visits its keys in some order.\<close>

definition depositCatchupFetcher_tick ::
  "filter_deposit \<Rightarrow> 'd DepositKV \<Rightarrow> u64 list \<Rightarrow> u64 set \<times> 'd \<Rightarrow> u64 set \<times> 'd" where
  "depositCatchupFetcher_tick flt ds order st = fold (fetchAndStoreDeposits flt ds) order st"

subsection \<open>Interleavings\<close>

text \<open>
  A call of \<open>fetchAndStoreDeposits\<close> in three steps: the read, which touches nothing shared; the store, under the lock of
  the deposit store; and the write to the set of failed blocks. A call is between two steps or has ended.
\<close>

datatype fetch_call = Idle | Storing u64 "Deposit list" | Marking u64 bool

definition fetch_read :: "filter_deposit \<Rightarrow> u64 \<Rightarrow> fetch_call" where
  "fetch_read flt blockNum =
     (case ReadDeposits flt blockNum of Inl _ \<Rightarrow> Marking blockNum False | Inr deposits \<Rightarrow> Storing blockNum deposits)"

definition fetch_store :: "'d DepositKV \<Rightarrow> u64 \<Rightarrow> Deposit list \<Rightarrow> 'd \<Rightarrow> fetch_call \<times> 'd" where
  "fetch_store ds blockNum deposits d =
     (case EnqueueDeposits ds deposits d of
        (Inl _, d) \<Rightarrow> (Marking blockNum False, d)
      | (Inr _, d) \<Rightarrow> (Marking blockNum True, d))"

definition fetch_mark :: "u64 \<Rightarrow> bool \<Rightarrow> u64 set \<Rightarrow> u64 set" where
  "fetch_mark blockNum ok failed = (if ok then failed - {blockNum} else insert blockNum failed)"

text \<open>Without steps of others in between, the three steps are the call.\<close>

lemma fetch_steps:
  "fetchAndStoreDeposits flt ds n (failed, d) =
     (case fetch_read flt n of
        Storing k deposits \<Rightarrow> (case fetch_store ds k deposits d of (Marking k ok, d) \<Rightarrow> (fetch_mark k ok failed, d))
      | Marking k ok \<Rightarrow> (fetch_mark k ok failed, d))"
  by (auto simp: fetchAndStoreDeposits_def fetch_read_def fetch_store_def fetch_mark_def split: sum.splits prod.splits)









subsection \<open>No deposit is lost\<close>






















lemma tick_clears:
  assumes "\<And>n d. n \<in> set order \<Longrightarrow> \<exists>ds d'. ReadDeposits flt n = Inr ds \<and> EnqueueDeposits kv ds d = (Inr (), d')"
  shows "fst (depositCatchupFetcher_tick flt kv order (failed, d)) = failed - set order"
  using assms
proof (induction order arbitrary: failed d)
  case (Cons n order)
  from Cons.prems [of n d] obtain xs d' where "ReadDeposits flt n = Inr xs" "EnqueueDeposits kv xs d = (Inr (), d')"
    by auto
  then have "fetchAndStoreDeposits flt kv n (failed, d) = (failed - {n}, d')"
    by (simp add: fetchAndStoreDeposits_def)
  then show ?case
    using Cons.IH [of "failed - {n}" d'] Cons.prems by (auto simp: depositCatchupFetcher_tick_def)
qed (simp add: depositCatchupFetcher_tick_def)

text \<open>
  Two ways in which the reader does miss deposits. An iterator that ends with an error is taken as complete:
  the block is not marked as failed. And below the follow distance the block number wraps around, so that
  the first blocks ask for the logs of a block that does not exist.
\<close>

lemma reader_gaps:
  "fetchAndStoreDeposits (\<lambda>_. Inr ([], Some e)) ds n (failed, d) = (failed - {n}, d)"
  "ev_type ev = BeaconBlockFinalized \<Longrightarrow> pl_Number (bd_ExecutionPayload (blk_Body (ev_block ev))) = 0 \<Longrightarrow>
   depositFetcher_event 1 flt ds ev st = fetchAndStoreDeposits flt ds (- 1) st"
  by (simp_all add: fetchAndStoreDeposits_def ReadDeposits_def EnqueueDeposits_def depositFetcher_event_def)

subsection \<open>A concrete run\<close>








end
