(* ===== verification/ServiceRegistry.thy ===== *)
theory ServiceRegistry
  imports Prelude "HOL-Library.AList"
begin

section \<open>The service registry: \<open>runtime/pkg/service\<close>\<close>

text \<open>
  The registry that starts the services of a node in the order of their registration. A service has a
  name, a \<open>Start\<close> that acts on the world, and a status. The map from names to services is an association
  list without duplicate keys; \<open>FetchService\<close> enumerates it in the order the runtime chooses.
\<close>

record 'w Basic =
  svc_Name :: string
  svc_Start :: "('w, unit) M"
  svc_Status :: "err option"

record 'w service_registry =
  services :: "(string \<times> 'w Basic) list"
  serviceTypes :: "string list"

definition RegisterService :: "'w Basic \<Rightarrow> 'w service_registry \<Rightarrow> err + 'w service_registry" where
  "RegisterService service s =
     (let typeName = svc_Name service in
      if map_of (services s) typeName \<noteq> None then Inl (Newf ''service already exists'')
      else Inr \<lparr>services = AList.update typeName service (services s), serviceTypes = serviceTypes s @ [typeName]\<rparr>)"

definition WithService :: "'w Basic \<Rightarrow> 'w service_registry \<Rightarrow> err + 'w service_registry" where
  "WithService svc r = RegisterService svc r"

fun registry_options ::
  "('w service_registry \<Rightarrow> err + 'w service_registry) list \<Rightarrow> 'w service_registry \<Rightarrow> err + 'w service_registry" where
  "registry_options [] r = Inr r"
| "registry_options (opt # opts) r =
     (case opt r of Inl _ \<Rightarrow> Inl (Panic ''failed to apply option'') | Inr r \<Rightarrow> registry_options opts r)"

definition NewRegistry ::
  "('w service_registry \<Rightarrow> err + 'w service_registry) list \<Rightarrow> err + 'w service_registry" where
  "NewRegistry opts = registry_options opts \<lparr>services = [], serviceTypes = []\<rparr>"

definition StartAll :: "'w service_registry \<Rightarrow> ('w, unit) M" where
  "StartAll s = forM (serviceTypes s) (\<lambda>typeName.
     case map_of (services s) typeName of None \<Rightarrow> ret () | Some svc \<Rightarrow> svc_Start svc)"

definition Statuses :: "'w service_registry \<Rightarrow> string list \<Rightarrow> string \<rightharpoonup> err option" where
  "Statuses s names =
     (let names = (if length names = 0 then serviceTypes s else names) in
      fold (\<lambda>typeName m. case map_of (services s) typeName of
              None \<Rightarrow> m | Some svc \<Rightarrow> m(typeName \<mapsto> svc_Status svc)) names Map.empty)"

text \<open>
  \<open>assignable\<close> is the test of the argument's type by reflection; it is none for an argument that is not
  a pointer to a pointer.
\<close>

definition FetchService ::
  "((string \<times> 'w Basic) list \<Rightarrow> (string \<times> 'w Basic) list) \<Rightarrow> ('w Basic \<Rightarrow> bool) option \<Rightarrow> 'w service_registry \<Rightarrow>
   err + 'w Basic" where
  "FetchService order assignable s =
     (case assignable of
        None \<Rightarrow> Inl (Newf ''input must be of pointer type'')
      | Some ok \<Rightarrow>
          let typeName = (case find (\<lambda>(name, svc). ok svc) (order (services s)) of
                            None \<Rightarrow> '''' | Some (name, svc) \<Rightarrow> name) in
          if typeName = '''' then Inl (Newf ''unknown service'')
          else (case map_of (services s) typeName of
                  Some running \<Rightarrow> Inr running
                | None \<Rightarrow> Inl (Newf ''unknown service'')))"

subsection \<open>Registered services\<close>

definition registry_inv :: "'w service_registry \<Rightarrow> bool" where
  "registry_inv s \<longleftrightarrow> distinct (serviceTypes s) \<and> distinct (map fst (services s)) \<and>
     set (map fst (services s)) = set (serviceTypes s) \<and> (\<forall>(name, svc) \<in> set (services s). svc_Name svc = name)"

lemma RegisterService_inv:
  assumes "registry_inv s"
  shows "RegisterService svc s =
      (if svc_Name svc \<in> set (serviceTypes s) then Inl (Newf ''service already exists'')
       else Inr \<lparr>services = services s @ [(svc_Name svc, svc)], serviceTypes = serviceTypes s @ [svc_Name svc]\<rparr>)"
    and "RegisterService svc s = Inr s' \<Longrightarrow> registry_inv s'"
proof -
  have new: "map_of (services s) (svc_Name svc) = None \<longleftrightarrow> svc_Name svc \<notin> set (serviceTypes s)"
    using assms by (auto simp: registry_inv_def map_of_eq_None_iff)
  have upd: "AList.update k v xs = xs @ [(k, v)]" if "k \<notin> set (map fst xs)" for k v and xs :: "(string \<times> 'a Basic) list"
    using that by (induction xs) auto
  show eq: "RegisterService svc s =
      (if svc_Name svc \<in> set (serviceTypes s) then Inl (Newf ''service already exists'')
       else Inr \<lparr>services = services s @ [(svc_Name svc, svc)], serviceTypes = serviceTypes s @ [svc_Name svc]\<rparr>)"
    using new assms upd [of "svc_Name svc" "services s" svc]
    by (cases "svc_Name svc \<in> set (serviceTypes s)") (auto simp: RegisterService_def Let_def registry_inv_def)
  show "registry_inv s'" if "RegisterService svc s = Inr s'"
    using that assms eq by (simp add: registry_inv_def split: if_splits) force
qed

lemma apply_services:
  assumes "registry_inv s" and "distinct (map svc_Name svcs)" and "set (map svc_Name svcs) \<inter> set (serviceTypes s) = {}"
  shows "registry_options (map WithService svcs) s =
    Inr \<lparr>services = services s @ map (\<lambda>v. (svc_Name v, v)) svcs, serviceTypes = serviceTypes s @ map svc_Name svcs\<rparr>"
  using assms
proof (induction svcs arbitrary: s)
  case (Cons v svcs)
  let ?s = "\<lparr>services = services s @ [(svc_Name v, v)], serviceTypes = serviceTypes s @ [svc_Name v]\<rparr>"
  have reg: "RegisterService v s = Inr ?s" using RegisterService_inv(1) [OF Cons.prems(1), of v] Cons.prems(3) by simp
  have "registry_options (map WithService svcs) ?s =
      Inr \<lparr>services = services ?s @ map (\<lambda>v. (svc_Name v, v)) svcs, serviceTypes = serviceTypes ?s @ map svc_Name svcs\<rparr>"
    using Cons.prems RegisterService_inv(2) [OF Cons.prems(1) reg] by (intro Cons.IH) auto
  then show ?case using reg by (simp add: WithService_def [of v])
qed simp

lemma fold_status:
  "fold (\<lambda>n m. case map_of svcs n of None \<Rightarrow> m | Some v \<Rightarrow> m(n \<mapsto> f v)) names m0 k =
   (if k \<in> set names \<and> map_of svcs k \<noteq> None then Some (f (the (map_of svcs k))) else m0 k)"
  by (induction names arbitrary: m0) (auto split: option.splits)

text \<open>
  A registry made from services with distinct names starts exactly these services, in the order
  of their registration and up to the first error; it reports the status of each, and registering one of the names
  again is refused.
\<close>

theorem registry_starts_in_order:
  assumes "distinct (map svc_Name svcs)"
  shows "\<exists>r. NewRegistry (map WithService svcs) = Inr r \<and> registry_inv r \<and>
    StartAll r = forM svcs svc_Start \<and>
    (\<forall>v \<in> set svcs. Statuses r [] (svc_Name v) = Some (svc_Status v)) \<and>
    (\<forall>v. svc_Name v \<in> svc_Name ` set svcs \<longrightarrow> RegisterService v r = Inl (Newf ''service already exists''))"
proof -
  let ?r = "\<lparr>services = map (\<lambda>v. (svc_Name v, v)) svcs, serviceTypes = map svc_Name svcs\<rparr>"
  have "registry_inv (\<lparr>services = [], serviceTypes = []\<rparr> :: 'a service_registry)" by (simp add: registry_inv_def)
  from apply_services [OF this assms] have r: "NewRegistry (map WithService svcs) = Inr ?r" by (simp add: NewRegistry_def)
  have inv: "registry_inv ?r" using assms by (auto simp: registry_inv_def comp_def)
  have look: "map_of (services ?r) (svc_Name v) = Some v" if "v \<in> set svcs" for v
    using assms that by (simp add: map_of_eq_Some_iff comp_def)
  have "StartAll ?r = forM svcs svc_Start"
  proof -
    have "forM (map svc_Name xs) (\<lambda>n. case map_of (services ?r) n of None \<Rightarrow> ret () | Some svc \<Rightarrow> svc_Start svc) =
        forM xs svc_Start" if "set xs \<subseteq> set svcs" for xs
      using that by (induction xs) (simp_all add: look del: service_registry.simps)
    then show ?thesis by (simp add: StartAll_def)
  qed
  moreover have "Statuses ?r [] (svc_Name v) = Some (svc_Status v)" if "v \<in> set svcs" for v
    using that look [OF that] by (simp add: Statuses_def Let_def fold_status)
  moreover have "RegisterService v ?r = Inl (Newf ''service already exists'')" if "svc_Name v \<in> svc_Name ` set svcs" for v
    using RegisterService_inv(1) [OF inv, of v] that by auto
  ultimately show ?thesis using r inv by blast
qed

theorem registry_starts_in_order_witness:
  "\<exists>r. NewRegistry (map WithService [\<lparr>svc_Name = ''engine'', svc_Start = (\<lambda>w. (Inr (), w @ [1 :: nat])), svc_Status = None\<rparr>,
        \<lparr>svc_Name = ''deposit-handler'', svc_Start = (\<lambda>w. (Inl ErrNotFound, w @ [2])), svc_Status = None\<rparr>,
        \<lparr>svc_Name = ''validator'', svc_Start = (\<lambda>w. (Inr (), w @ [3])), svc_Status = None\<rparr>]) = Inr r \<and>
     StartAll r [] = (Inl ErrNotFound, [1, 2])"
  using registry_starts_in_order [of "[\<lparr>svc_Name = ''engine'', svc_Start = (\<lambda>w. (Inr (), w @ [1 :: nat])), svc_Status = None\<rparr>,
        \<lparr>svc_Name = ''deposit-handler'', svc_Start = (\<lambda>w. (Inl ErrNotFound, w @ [2])), svc_Status = None\<rparr>,
        \<lparr>svc_Name = ''validator'', svc_Start = (\<lambda>w. (Inr (), w @ [3])), svc_Status = None\<rparr>]"]
  by (auto simp: bindM_def)

end
