(* ===== verification/GenIndex.thy ===== *)
theory GenIndex
  imports Merkle
begin

unbundle bit_operations_syntax

section \<open>Generalized indices: \<open>mod/primitives/pkg/ssz/merkle\<close>\<close>

text \<open>
  The tree as an array by generalized index (\<open>merkle.go\<close>), the arithmetic of generalized indices, and single
  and multiple proofs over them (\<open>index.go\<close>). A generalized index is a \<open>uint64\<close>: 1 is the root, the children of
  \<open>g\<close> are \<open>2 * g\<close> and \<open>2 * g + 1\<close>. SHA-256 is the field \<open>Sum256\<close> of the environment of the Merkle trees.

  Single proofs are shown to be the proofs of \<open>mod/primitives/pkg/merkle\<close>, to verify on every node of
  the array and to compose by \<open>Concat\<close>. For multiple proofs the lemmas show that the leaf of an odd
  index is not hashed when its sibling is at hand.
\<close>

subsection \<open>The tree as an array\<close>

fun tree_loop :: "(bytes \<Rightarrow> b32) \<Rightarrow> nat \<Rightarrow> b32 list \<Rightarrow> b32 list" where
  "tree_loop hashFn 0 o' = o'"
| "tree_loop hashFn (Suc i) o' =
     tree_loop hashFn i (o'[Suc i := hashFn (o' ! (Suc i * 2) @ o' ! (Suc i * 2 + 1))])"

definition gindex_Tree :: "b32 list \<Rightarrow> (bytes \<Rightarrow> b32) \<Rightarrow> err + b32 list" where
  "gindex_Tree leaves hashFn =
     bindE (NextPowerOfTwo (of_nat (length leaves))) (\<lambda>bottomLength.
     let o' = replicate (unat (bottomLength * 2)) zero32 in
     if length o' < unat bottomLength then Inl (Panic ''slice bounds out of range'')
     else let o' = write_at o' (unat bottomLength) leaves
          in Inr (tree_loop hashFn (unat (bottomLength - 1)) o'))"

subsection \<open>Indices\<close>

type_synonym GeneralizedIndex = u64

definition NewGeneralizedIndex :: "u8 \<Rightarrow> u64 \<Rightarrow> GeneralizedIndex" where
  "NewGeneralizedIndex d index = push_bit (unat d) 1 + index"

definition gindex_Length :: "GeneralizedIndex \<Rightarrow> u64" where
  "gindex_Length g = ucast (ILog2Floor g)"

definition IndexBit :: "GeneralizedIndex \<Rightarrow> nat \<Rightarrow> bool" where
  "IndexBit g position \<longleftrightarrow> (g AND push_bit position 1) > 0"

definition Sibling :: "GeneralizedIndex \<Rightarrow> GeneralizedIndex" where
  "Sibling g = g XOR 1"

definition LeftChild :: "GeneralizedIndex \<Rightarrow> GeneralizedIndex" where
  "LeftChild g = 2 * g"

definition RightChild :: "GeneralizedIndex \<Rightarrow> GeneralizedIndex" where
  "RightChild g = 2 * g + 1"

definition Parent :: "GeneralizedIndex \<Rightarrow> GeneralizedIndex" where
  "Parent g = g div 2"

text \<open>
  The two loops append to a slice and look at its last element. \<open>branch_from x\<close> and \<open>path_from x\<close> are
  the slice from the element \<open>x\<close> on.
\<close>

lemma unat_half: "unat (x div 2) = unat x div 2" for x :: u64
  by (simp add: unat_div_distrib)

lemma unat_Sibling: "unat (Sibling g) = (if even (unat g) then unat g + 1 else unat g - 1)"
proof -
  have "unat (Sibling g) = unat g XOR 1" by (simp add: Sibling_def unat_xor_one del: xor_one_eq)
  then show ?thesis unfolding xor_one_eq by simp
qed

lemma unat_half_sibling: "1 < x \<Longrightarrow> unat (Sibling (Parent x)) < unat x"
  unfolding word_less_nat_alt unat_Sibling Parent_def unat_half unat_1 by presburger

function branch_from :: "GeneralizedIndex \<Rightarrow> GeneralizedIndex list" where
  "branch_from x = x # (if x > 1 then branch_from (Sibling (Parent x)) else [])"
  by auto
termination
  by (relation "measure unat") (auto intro: unat_half_sibling)

function path_from :: "GeneralizedIndex \<Rightarrow> GeneralizedIndex list" where
  "path_from x = x # (if x > 1 then path_from (Parent x) else [])"
  by auto
termination
  by (relation "measure unat") (auto simp: Parent_def unat_half word_less_nat_alt)

declare branch_from.simps [simp del] path_from.simps [simp del]

definition GetBranchIndices :: "GeneralizedIndex \<Rightarrow> GeneralizedIndex list" where
  "GetBranchIndices g = butlast (branch_from (Sibling g))"

definition GetPathIndices :: "GeneralizedIndex \<Rightarrow> GeneralizedIndex list" where
  "GetPathIndices g = butlast (path_from g)"

definition Concat :: "GeneralizedIndex list \<Rightarrow> GeneralizedIndex" where
  "Concat gs = fold (\<lambda>i o'. let floorPower = PrevPowerOfTwo i in o' * floorPower + (i - floorPower)) gs 1"

subsection \<open>Single proofs\<close>

fun gindex_fold :: "merkle_env \<Rightarrow> GeneralizedIndex \<Rightarrow> nat \<Rightarrow> b32 \<Rightarrow> b32 list \<Rightarrow> b32" where
  "gindex_fold E g i leaf [] = leaf"
| "gindex_fold E g i leaf (h # proof') =
     gindex_fold E g (i + 1) (if IndexBit g i then Sum256 E (h @ leaf) else Sum256 E (leaf @ h)) proof'"

definition CalculateMerkleRoot :: "merkle_env \<Rightarrow> GeneralizedIndex \<Rightarrow> b32 \<Rightarrow> b32 list \<Rightarrow> err + b32" where
  "CalculateMerkleRoot E g leaf proof' =
     (if of_nat (length proof') \<noteq> gindex_Length g then Inl (Newf ''expected proof length'')
      else Inr (gindex_fold E g 0 leaf proof'))"

text \<open>On an error the zero root is compared.\<close>

definition VerifyMerkleProof ::
  "merkle_env \<Rightarrow> GeneralizedIndex \<Rightarrow> b32 \<Rightarrow> b32 list \<Rightarrow> b32 \<Rightarrow> bool \<times> err option" where
  "VerifyMerkleProof E g leaf proof' root =
     (case CalculateMerkleRoot E g leaf proof' of
        Inl e \<Rightarrow> (zero32 = root, Some e)
      | Inr calculated \<Rightarrow> (calculated = root, None))"

subsection \<open>Multiple proofs\<close>

text \<open>
  The keys of a map are enumerated in an unspecified order and then sorted; they are distinct, so
  the result does not depend on the order.
\<close>

definition decreasing :: "GeneralizedIndex list \<Rightarrow> GeneralizedIndex list" where
  "decreasing xs = rev (sort (remdups xs))"

definition GetHelperIndices :: "GeneralizedIndex list \<Rightarrow> GeneralizedIndex list" where
  "GetHelperIndices gs =
     (let allHelperIndices = concat (map GetBranchIndices gs);
          allPathIndices = concat (map GetPathIndices gs)
      in decreasing (filter (\<lambda>i. i \<notin> set allPathIndices) allHelperIndices))"

text \<open>Reading a key that is not in the map gives the zero root.\<close>

definition object_at :: "(GeneralizedIndex \<rightharpoonup> b32) \<Rightarrow> GeneralizedIndex \<Rightarrow> b32" where
  "object_at objects k = (case objects k of None \<Rightarrow> zero32 | Some r \<Rightarrow> r)"

text \<open>
  The loop over \<open>keys\<close> from \<open>pos\<close> on, which appends the parents it has computed. It ends because each
  appended key is new in \<open>objects\<close>.
\<close>

function multi_loop ::
  "merkle_env \<Rightarrow> (GeneralizedIndex \<rightharpoonup> b32) \<Rightarrow> GeneralizedIndex list \<Rightarrow> GeneralizedIndex \<rightharpoonup> b32" where
  "multi_loop E objects [] = objects"
| "multi_loop E objects (k # keys) =
     (if objects k \<noteq> None \<and> objects (k XOR 1) \<noteq> None \<and> objects (k div 2) = None
      then multi_loop E (objects(k div 2 \<mapsto> Sum256 E (object_at objects ((k OR 1) XOR 1) @ object_at objects (k XOR 1))))
             (keys @ [k div 2])
      else multi_loop E objects keys)"
  by pat_completeness auto
termination
proof (relation "measure (\<lambda>(E, objects, keys). 2 * card (- dom objects) + length keys)", goal_cases)
  case (2 E objects k keys)
  then have "k div 2 \<in> - dom objects" by auto
  then have "card (- dom objects - {k div 2}) < card (- dom objects)" by (intro card_Diff1_less) simp_all
  moreover have "- insert (k div 2) (dom objects) = - dom objects - {k div 2}" by auto
  ultimately show ?case by simp
qed auto

definition CalculateMultiMerkleRoot ::
  "merkle_env \<Rightarrow> GeneralizedIndex list \<Rightarrow> b32 list \<Rightarrow> b32 list \<Rightarrow> err + b32" where
  "CalculateMultiMerkleRoot E gs leaves proof' =
     (if length leaves \<noteq> length gs then Inl (Newf ''mismatched leaves and indices length'')
      else let helperIndices = GetHelperIndices gs in
           if length proof' \<noteq> length helperIndices
           then Inl (Newf ''mismatched proof and helper indices length'')
           else let objects = map_of (rev (zip gs leaves @ zip helperIndices proof'));
                    keys = decreasing (gs @ helperIndices)
                in Inr (object_at (multi_loop E objects keys) 1))"

definition VerifyMerkleMultiproof ::
  "merkle_env \<Rightarrow> GeneralizedIndex list \<Rightarrow> b32 list \<Rightarrow> b32 list \<Rightarrow> b32 \<Rightarrow> bool" where
  "VerifyMerkleMultiproof E gs leaves proof' root =
     (case CalculateMultiMerkleRoot E gs leaves proof' of
        Inl _ \<Rightarrow> False
      | Inr calculatedRoot \<Rightarrow> calculatedRoot = root)"

subsection \<open>Branches\<close>

lemma Parent_Sibling: "Parent (Sibling g) = Parent g"
  by (auto simp: word_unat_eq_iff unat_Sibling Parent_def unat_half elim!: evenE oddE)

lemma GetBranchIndices_rec:
  "GetBranchIndices g = (if 2 \<le> unat g then Sibling g # GetBranchIndices (Parent g) else [])"
proof -
  have ne: "branch_from x \<noteq> []" for x by (simp add: branch_from.simps)
  have half: "Parent (Sibling g) = Parent g" by (rule Parent_Sibling)
  have "1 < Sibling g \<longleftrightarrow> 2 \<le> unat g"
    unfolding word_less_nat_alt unat_Sibling unat_1 by presburger
  then show ?thesis
    using ne half by (simp add: GetBranchIndices_def branch_from.simps [of "Sibling g"])
qed

lemma GetPathIndices_rec:
  "GetPathIndices g = (if 2 \<le> unat g then g # GetPathIndices (Parent g) else [])"
proof -
  have "path_from x \<noteq> []" for x by (simp add: path_from.simps)
  moreover have "1 < g \<longleftrightarrow> 2 \<le> unat g" by (simp add: word_less_nat_alt) linarith
  ultimately show ?thesis by (simp add: GetPathIndices_def path_from.simps [of g])
qed

lemma gindex_induct [case_names root step]:
  assumes "\<And>g. unat g < 2 \<Longrightarrow> P g" and "\<And>g. 2 \<le> unat g \<Longrightarrow> P (Parent g) \<Longrightarrow> P g"
  shows "P (g :: GeneralizedIndex)"
proof (induction g rule: measure_induct_rule [where f = unat])
  case (less g)
  then show ?case using assms by (cases "unat g < 2") (auto simp: Parent_def unat_half)
qed

lemma Len64_Parent: "2 \<le> unat g \<Longrightarrow> Len64 g = Suc (Len64 (Parent g))"
  by (simp add: Len64_def Parent_def unat_half bit_length.simps [of "unat g"])

lemma length_GetBranchIndices: "g \<noteq> 0 \<Longrightarrow> length (GetBranchIndices g) = Len64 g - 1"
proof (induction g rule: gindex_induct)
  case (root g)
  then have "unat g = 1" by (metis One_nat_def less_2_cases unat_eq_0)
  then show ?case by (simp add: GetBranchIndices_rec Len64_def bit_length.simps)
next
  case (step g)
  then have "Parent g \<noteq> 0" by (simp add: word_unat_eq_iff Parent_def unat_half)
  with step Len64_bounds(3) [of "Parent g"] show ?case
    by (simp add: GetBranchIndices_rec [of g] Len64_Parent)
qed

lemma gindex_Length: "g \<noteq> 0 \<Longrightarrow> gindex_Length g = of_nat (Len64 g - 1)" and
  gindex_Length_Len64: "g \<noteq> 0 \<Longrightarrow> unat (gindex_Length g) = Len64 g - 1"
proof -
  assume g: "g \<noteq> 0"
  note b = Len64_bounds(3) [OF g]
  have le: "Len64 g \<le> 64" by (rule Len64_le_64)
  have "ILog2Floor g = of_nat (Len64 g - 1)" using g b by (simp add: ILog2Floor_def)
  then show "gindex_Length g = of_nat (Len64 g - 1)"
    using le by (simp add: gindex_Length_def word_unat_eq_iff unsigned_ucast_eq unat_of_nat take_bit_nat_eq_self_iff)
  then show "unat (gindex_Length g) = Len64 g - 1" using le by (simp add: unat_of_nat)
qed

subsection \<open>Single proofs are branches\<close>

lemma gindex_fold_RootFromBranch: "gindex_fold E g i leaf p = RootFromBranch E leaf p i g"
proof (induction p arbitrary: i leaf)
  case (Cons h p)
  have "IndexBit g i \<longleftrightarrow> bit g i"
    by (simp add: IndexBit_def word_gt_0 bit_iff_and_push_bit_not_eq_0)
  moreover have "drop_bit i g AND 1 = 1 \<longleftrightarrow> bit g i"
    by (simp add: and_one_eq mod2_eq_if bit_iff_odd_drop_bit)
  ultimately show ?case using Cons.IH by simp
qed simp

lemma RootFromBranch_Parent: "RootFromBranch E r p (Suc i) g = RootFromBranch E r p i (Parent g)"
proof (induction p arbitrary: i r)
  case (Cons b p)
  have "drop_bit (Suc i) g = drop_bit i (Parent g)" by (simp add: Parent_def drop_bit_Suc)
  with Cons.IH show ?case by simp
qed simp

lemma CalculateMerkleRoot_branch:
  assumes "g \<noteq> 0" and "length p < 2 ^ 64"
  shows "CalculateMerkleRoot E g leaf p =
    (if length p = Len64 g - 1 then Inr (RootFromBranch E leaf p 0 g) else Inl (Newf ''expected proof length''))"
proof -
  have "of_nat (length p) = gindex_Length g \<longleftrightarrow> length p = Len64 g - 1"
    using assms gindex_Length_Len64 [OF assms(1)]
    by (auto simp: word_unat_eq_iff unat_of_nat take_bit_nat_eq_self_iff)
  then show ?thesis by (simp add: CalculateMerkleRoot_def gindex_fold_RootFromBranch)
qed

text \<open>Folding the siblings along the path of an array that holds the hash of the children at each inner node.\<close>

lemma branch_root:
  assumes "\<And>i. 0 < i \<Longrightarrow> 2 * i + 1 < length o' \<Longrightarrow> o' ! i = Sum256 E (o' ! (2 * i) @ o' ! (2 * i + 1))"
    and "even (length o')"
  shows "0 < unat g \<Longrightarrow> unat g < length o' \<Longrightarrow>
    RootFromBranch E (o' ! unat g) (map (\<lambda>i. o' ! unat i) (GetBranchIndices g)) 0 g = o' ! 1"
proof (induction g rule: gindex_induct)
  case (root g)
  then have "unat g = 1" by simp
  then show ?case by (simp add: GetBranchIndices_rec [of g])
next
  case (step g)
  let ?h = "unat g div 2"
  have h: "0 < ?h" using step.hyps by simp
  have h2: "2 * ?h + 1 < length o'" using step.prems assms(2) by presburger
  have odd: "g AND 1 = 1 \<longleftrightarrow> odd (unat g)"
    using bit_unat [of g 0] by (simp add: and_one_eq mod2_eq_if bit_0)
  have "Sum256 E (if odd (unat g) then o' ! unat (Sibling g) @ o' ! unat g else o' ! unat g @ o' ! unat (Sibling g)) =
      o' ! unat (Parent g)"
    unfolding unat_Sibling Parent_def unat_half assms(1) [OF h h2] by (auto elim!: evenE oddE)
  moreover have "RootFromBranch E (o' ! unat (Parent g)) (map (\<lambda>i. o' ! unat i) (GetBranchIndices (Parent g))) 0 (Parent g) =
      o' ! 1"
    using h h2 by (intro step.IH) (simp_all add: Parent_def unat_half)
  ultimately show ?case
    using step.hyps by (simp add: GetBranchIndices_rec [of g] RootFromBranch_Parent odd)
qed

lemma tree_loop_length [simp]: "length (tree_loop h n o') = length o'"
  by (induction n arbitrary: o') simp_all

lemma tree_loop_above: "n < j \<Longrightarrow> tree_loop h n o' ! j = o' ! j"
  by (induction n arbitrary: o') simp_all

lemma tree_loop_inner:
  "2 * n + 1 < length o' \<Longrightarrow> 0 < j \<Longrightarrow> j \<le> n \<Longrightarrow>
     tree_loop h n o' ! j = h (tree_loop h n o' ! (2 * j) @ tree_loop h n o' ! (2 * j + 1))"
proof (induction n arbitrary: o')
  case (Suc n)
  show ?case
  proof (cases "j \<le> n")
    case True
    with Suc.prems show ?thesis by (simp add: Suc.IH)
  next
    case False
    with Suc.prems have "j = Suc n" by simp
    with Suc.prems show ?thesis by (simp add: tree_loop_above mult.commute)
  qed
qed simp

text \<open>The array as the tree of the specification: at height \<open>h\<close> stand the nodes of that height.\<close>

lemma array_nodes:
  assumes "length o' = 2 * 2 ^ d" and "\<And>i. i < 2 ^ d \<Longrightarrow> o' ! (2 ^ d + i) = node E leaves 0 i"
    and "\<And>i. 0 < i \<Longrightarrow> i < 2 ^ d \<Longrightarrow> o' ! i = Sum256 E (o' ! (2 * i) @ o' ! (2 * i + 1))"
  shows "h \<le> d \<Longrightarrow> i < 2 ^ (d - h) \<Longrightarrow> o' ! (2 ^ (d - h) + i) = node E leaves h i"
proof (induction h arbitrary: i)
  case 0
  then show ?case using assms(2) by simp
next
  case (Suc h)
  define m :: nat where "m = 2 ^ (d - Suc h)"
  have m: "2 ^ (d - h) = 2 * m" unfolding m_def power_Suc [symmetric] using Suc.prems(1) by (simp add: Suc_diff_Suc)
  have "2 * m \<le> 2 ^ d" unfolding m [symmetric] by (intro power_increasing) simp_all
  moreover have "i < m" "0 < m" using Suc.prems(2) by (simp_all add: m_def)
  ultimately have "o' ! (m + i) = Sum256 E (o' ! (2 * (m + i)) @ o' ! (2 * (m + i) + 1))"
    by (intro assms(3)) simp_all
  also have "o' ! (2 * (m + i)) = node E leaves h (2 * i)"
    using Suc.IH [of "2 * i"] Suc.prems(1) m \<open>i < m\<close> by (simp add: algebra_simps)
  also have "o' ! (2 * (m + i) + 1) = node E leaves h (2 * i + 1)"
    using Suc.IH [of "2 * i + 1"] Suc.prems(1) m \<open>i < m\<close> by (simp add: algebra_simps)
  finally show ?case by (simp add: m_def)
qed

lemma gindex_Tree_array:
  assumes "length leaves \<le> 2 ^ 62"
  obtains o' d where "gindex_Tree leaves (Sum256 E) = Inr o'" "length o' = 2 * 2 ^ d" "length leaves \<le> 2 ^ d" "d \<le> 62"
    "\<And>m. length leaves \<le> 2 ^ m \<Longrightarrow> d \<le> m"
    "\<And>i. i < 2 ^ d \<Longrightarrow> o' ! (2 ^ d + i) = node E leaves 0 i"
    "\<And>i. 0 < i \<Longrightarrow> i < 2 ^ d \<Longrightarrow> o' ! i = Sum256 E (o' ! (2 * i) @ o' ! (2 * i + 1))"
proof -
  let ?u = "of_nat (length leaves) :: u64"
  have u: "unat ?u = length leaves" using assms by (simp add: unat_of_nat take_bit_nat_eq_self_iff)
  with assms have "unat ?u \<le> 2 ^ 63" by simp
  with NextPowerOfTwo_least [of ?u] obtain d where d: "NextPowerOfTwo ?u = Inr (2 ^ d)"
      "\<And>m. d \<le> m \<longleftrightarrow> length leaves \<le> 2 ^ m" "d < 64"
    using u by auto
  have le: "length leaves \<le> 2 ^ d" "d \<le> 62" using d(2) assms by blast+
  have b: "unat (2 ^ d :: u64) = 2 ^ d" "unat (2 ^ d * 2 :: u64) = 2 * 2 ^ d"
    using le(2) unat_power_two [of d] unat_power_two [of "Suc d"] by (simp_all add: mult.commute)
  have b1: "unat (2 ^ d - 1 :: u64) = 2 ^ d - 1" using b(1) by (simp add: unat_sub word_le_nat_alt)
  define o0 where "o0 = write_at (replicate (2 * 2 ^ d) zero32) (2 ^ d) leaves"
  define o' where "o' = tree_loop (Sum256 E) (2 ^ d - 1) o0"
  have len: "length o0 = 2 * 2 ^ d" using le(1) by (simp add: o0_def write_at_def)
  have "gindex_Tree leaves (Sum256 E) = Inr o'"
    using b b1 by (simp add: gindex_Tree_def d(1) o'_def o0_def Let_def)
  moreover have "length o' = 2 * 2 ^ d" by (simp add: o'_def len)
  moreover have "o' ! (2 ^ d + i) = node E leaves 0 i" if "i < 2 ^ d" for i
  proof -
    have "o' ! (2 ^ d + i) = o0 ! (2 ^ d + i)" unfolding o'_def
      using zero_less_power [of "2 :: nat" d] by (intro tree_loop_above) linarith
    then show ?thesis using that le(1) by (simp add: o0_def write_at_def nth_append)
  qed
  moreover have "o' ! i = Sum256 E (o' ! (2 * i) @ o' ! (2 * i + 1))" if "0 < i" "i < 2 ^ d" for i
    unfolding o'_def by (rule tree_loop_inner) (use that len in auto)
  ultimately show ?thesis using that d(2) le by blast
qed

text \<open>
  C35. The array of a tree and its proofs. For up to \<open>2 ^ 62\<close> leaves \<open>Tree\<close> returns the array by generalized
  index of the smallest full tree over the zero-padded leaves, and for every node of it, leaf or inner
  node, the array's values at \<open>GetBranchIndices\<close> are a proof that \<open>VerifyMerkleProof\<close> accepts against the root.
\<close>

theorem tree_proofs_verify:
  assumes "length leaves \<le> 2 ^ 62"
  shows "\<exists>o' d. gindex_Tree leaves (Sum256 E) = Inr o' \<and> length o' = 2 * 2 ^ d \<and>
    (\<forall>m. length leaves \<le> 2 ^ m \<longleftrightarrow> d \<le> m) \<and>
    (\<forall>h i. h \<le> d \<longrightarrow> i < 2 ^ (d - h) \<longrightarrow> o' ! (2 ^ (d - h) + i) = node E leaves h i) \<and>
    (\<forall>g. 0 < g \<longrightarrow> unat g < length o' \<longrightarrow>
       VerifyMerkleProof E g (o' ! unat g) (map (\<lambda>i. o' ! unat i) (GetBranchIndices g)) (o' ! 1) = (True, None))"
proof -
  obtain o' d where o': "gindex_Tree leaves (Sum256 E) = Inr o'" "length o' = 2 * 2 ^ d" "length leaves \<le> 2 ^ d"
    "\<And>m. length leaves \<le> 2 ^ m \<Longrightarrow> d \<le> m"
    "\<And>i. i < 2 ^ d \<Longrightarrow> o' ! (2 ^ d + i) = node E leaves 0 i"
    "\<And>i. 0 < i \<Longrightarrow> i < 2 ^ d \<Longrightarrow> o' ! i = Sum256 E (o' ! (2 * i) @ o' ! (2 * i + 1))"
    using gindex_Tree_array [OF assms] by metis
  have "VerifyMerkleProof E g (o' ! unat g) (map (\<lambda>i. o' ! unat i) (GetBranchIndices g)) (o' ! 1) = (True, None)"
    if g: "0 < g" "unat g < length o'" for g
  proof -
    have "g \<noteq> 0" "0 < unat g" using g(1) by (simp_all add: word_gt_0 unat_gt_0)
    moreover have "length (GetBranchIndices g) = Len64 g - 1" by (rule length_GetBranchIndices) fact
    moreover have "Len64 g - 1 < 2 ^ 64" using Len64_le_64 [of g] by simp
    moreover have "RootFromBranch E (o' ! unat g) (map (\<lambda>i. o' ! unat i) (GetBranchIndices g)) 0 g = o' ! 1"
      by (rule branch_root) (use o'(2,6) g(2) \<open>0 < unat g\<close> in auto)
    ultimately show ?thesis by (simp add: VerifyMerkleProof_def CalculateMerkleRoot_branch)
  qed
  moreover have "length leaves \<le> 2 ^ m \<longleftrightarrow> d \<le> m" for m
    using o'(3,4) power_increasing [of d m "2 :: nat"] by (meson le_trans one_le_numeral)
  ultimately show ?thesis using o'(1,2) array_nodes [OF o'(2,5,6)] by blast
qed

theorem tree_proofs_verify_witness:
  "\<exists>o' d. gindex_Tree [zero32, zero32, zero32] (Sum256 (reference_env fold_digest 15)) = Inr o' \<and> length o' = 2 * 2 ^ d \<and>
     VerifyMerkleProof (reference_env fold_digest 15) 3 (o' ! 3) (map (\<lambda>i. o' ! unat i) (GetBranchIndices 3)) (o' ! 1) = (True, None)"
proof -
  have "length [zero32, zero32, zero32] \<le> 2 ^ 62" by simp
  from tree_proofs_verify [OF this, of "reference_env fold_digest 15"] obtain o' d where
    o': "gindex_Tree [zero32, zero32, zero32] (Sum256 (reference_env fold_digest 15)) = Inr o'" "length o' = 2 * 2 ^ d"
    and d: "\<forall>m. length [zero32, zero32, zero32] \<le> 2 ^ m \<longleftrightarrow> d \<le> m"
    and g: "\<forall>g. 0 < g \<longrightarrow> unat g < length o' \<longrightarrow> VerifyMerkleProof (reference_env fold_digest 15) g (o' ! unat g)
       (map (\<lambda>i. o' ! unat i) (GetBranchIndices g)) (o' ! 1) = (True, None)"
    by blast
  from d [rule_format, of d] have "3 < 2 * (2 :: nat) ^ d" by simp
  with g [rule_format, of 3] o'(2) have "VerifyMerkleProof (reference_env fold_digest 15) 3 (o' ! 3)
      (map (\<lambda>i. o' ! unat i) (GetBranchIndices 3)) (o' ! 1) = (True, None)" by (simp add: word_gt_0)
  with o' show ?thesis by blast
qed

text \<open>
  A branch looks at the low bits of the index only, and a branch that starts higher up looks at the
  shifted index.
\<close>

lemma RootFromBranch_branch:
  "(\<And>j. j < length p \<Longrightarrow> bit g (i + j) = bit g' (i + j)) \<Longrightarrow> RootFromBranch E r p i g = RootFromBranch E r p i g'"
proof (induction p arbitrary: i r)
  case (Cons b p)
  have "drop_bit i g AND 1 = 1 \<longleftrightarrow> drop_bit i g' AND 1 = 1"
    using Cons.prems [of 0] by (simp add: and_one_eq mod2_eq_if bit_iff_odd_drop_bit)
  moreover have "RootFromBranch E x p (Suc i) g = RootFromBranch E x p (Suc i) g'" for x
    using Cons.prems [of "Suc _"] by (intro Cons.IH) simp
  ultimately show ?case by simp
qed simp

lemma RootFromBranch_drop: "RootFromBranch E r p n g = RootFromBranch E r p 0 (drop_bit n g)"
proof (induction n arbitrary: g)
  case (Suc n)
  have "drop_bit n (Parent g) = drop_bit (Suc n) g" by (simp add: Parent_def drop_bit_Suc)
  with Suc.IH [of "Parent g"] show ?case by (simp add: RootFromBranch_Parent)
qed simp

lemma Len64_unique:
  assumes "2 ^ k \<le> unat u" and "unat u < 2 ^ Suc k"
  shows "Len64 u = Suc k"
proof -
  have "u \<noteq> 0" using assms(1) by (metis le_zero_eq power_not_zero unat_0 zero_neq_numeral)
  note b = Len64_bounds [OF this]
  have two: "1 < (2 :: nat)" by simp
  have "Len64 u - 1 < Suc k"
    using le_less_trans [OF b(1) assms(2)] by (rule power_less_imp_less_exp [OF two])
  moreover have "k < Len64 u"
    using le_less_trans [OF assms(1) b(2)] by (rule power_less_imp_less_exp [OF two])
  ultimately show ?thesis using b(3) by linarith
qed

lemma NewGeneralizedIndex_nat:
  assumes "unat d < 64" and "unat index < 2 ^ unat d"
  shows "unat (NewGeneralizedIndex d index) = 2 ^ unat d + unat index"
proof -
  have "(2 :: nat) ^ Suc (unat d) \<le> 2 ^ 64" using assms(1) by (intro power_increasing) simp_all
  then have "2 ^ unat d + unat index < (2 :: nat) ^ 64" using assms(2) by simp
  then show ?thesis
    using unat_power_two [of "unat d"] assms(1)
    by (simp add: NewGeneralizedIndex_def push_bit_eq_mult unat_word_ariths)
qed

text \<open>
  A generalized index made from the depth of a tree and an index within it stands for the same
  proofs: \<open>VerifyMerkleProof\<close> decides as \<open>merkle.VerifyProof\<close> does when the proof has one hash per
  level, and reports an error for every other length.
\<close>

theorem gindex_proof_agrees:
  assumes "unat d < 64" and "unat index < 2 ^ unat d" and "length p < 2 ^ 64"
  shows "snd (VerifyMerkleProof E (NewGeneralizedIndex d index) leaf p root) = None \<longleftrightarrow> length p = unat d"
    and "length p = unat d \<Longrightarrow>
      fst (VerifyMerkleProof E (NewGeneralizedIndex d index) leaf p root) = VerifyProof E root leaf index p"
proof -
  let ?g = "NewGeneralizedIndex d index"
  note nat = NewGeneralizedIndex_nat [OF assms(1,2)]
  have len: "Len64 ?g = Suc (unat d)" using assms(2) by (intro Len64_unique) (simp_all add: nat)
  have "?g \<noteq> 0" using nat by (metis add_is_0 power_not_zero unat_0 zero_neq_numeral)
  note root = CalculateMerkleRoot_branch [OF this assms(3), of E leaf]
  show "snd (VerifyMerkleProof E ?g leaf p root) = None \<longleftrightarrow> length p = unat d"
    by (simp add: VerifyMerkleProof_def root len)
  assume p: "length p = unat d"
  have "bit ?g j = bit index j" if "j < unat d" for j
  proof -
    have "bit (2 ^ unat d + unat index) j = bit (unat index) j" using that
      by (simp add: bit_iff_odd div_plus_div_distrib_dvd_left le_imp_power_dvd power_diff [symmetric])
    then show ?thesis by (metis bit_unat nat)
  qed
  with p have "RootFromBranch E leaf p 0 ?g = RootFromBranch E leaf p 0 index"
    by (intro RootFromBranch_branch) simp
  then show "fst (VerifyMerkleProof E ?g leaf p root) = VerifyProof E root leaf index p"
    using p by (simp add: VerifyMerkleProof_def root len VerifyProof_iff) (use assms(1) in linarith)
qed

theorem gindex_proof_agrees_witness:
  "fst (VerifyMerkleProof (reference_env fold_digest 15) (NewGeneralizedIndex 2 3) zero32 [zero32, zero32] zero32) =
   VerifyProof (reference_env fold_digest 15) zero32 zero32 3 [zero32, zero32]"
  by (rule gindex_proof_agrees(2)) simp_all

subsection \<open>Concatenation\<close>

lemma Concat_snoc:
  "Concat (gs @ [b]) = Concat gs * PrevPowerOfTwo b + (b - PrevPowerOfTwo b)"
  by (simp add: Concat_def Let_def)

lemma Concat_split:
  assumes "a \<noteq> 0" and "b \<noteq> 0" and "Len64 a + Len64 b \<le> 65" and "n = Len64 b - 1"
  defines "c \<equiv> a * PrevPowerOfTwo b + (b - PrevPowerOfTwo b)"
  shows "unat c = unat a * 2 ^ n + unat b mod 2 ^ n" and "drop_bit n c = a"
    and "j < n \<Longrightarrow> bit c j = bit b j" and "Len64 c = Len64 a + n"
proof -
  note A = Len64_bounds [OF assms(1)] and B = Len64_bounds [OF assms(2)]
  have n: "Len64 b = Suc n" "n < 64" "Len64 a + n \<le> 64" using assms(3,4) A(3) B(3) by linarith+
  have p: "PrevPowerOfTwo b = 2 ^ n" by (simp add: PrevPowerOfTwo_exp [OF assms(2)] n(1))
  have b: "2 ^ n \<le> unat b" "unat b < 2 * 2 ^ n" using B n(1) by simp_all
  have mod: "unat b - 2 ^ n = unat b mod 2 ^ n" using b by (simp add: mod_if)
  have up: "unat a * 2 ^ n + unat b mod 2 ^ n < 2 ^ (Len64 a + n)"
  proof -
    have "unat a * 2 ^ n + unat b mod 2 ^ n < (unat a + 1) * 2 ^ n" by simp
    also have "\<dots> \<le> 2 ^ Len64 a * 2 ^ n" using A(2) by (intro mult_le_mono1) simp
    finally show ?thesis by (simp add: power_add)
  qed
  also have "\<dots> \<le> (2 :: nat) ^ 64" using n(3) by (intro power_increasing) simp_all
  finally have "unat a * 2 ^ n + unat b mod 2 ^ n < 2 ^ 64" .
  moreover have "unat (b - 2 ^ n) = unat b mod 2 ^ n"
    using b(1) n(2) by (simp add: unat_sub word_le_nat_alt unat_power_two mod)
  ultimately show c: "unat c = unat a * 2 ^ n + unat b mod 2 ^ n"
    using n(2) by (simp add: c_def p unat_word_ariths unat_power_two)
  have "unat c div 2 ^ n = unat a" unfolding c by simp
  then have "drop_bit n (unat c) = unat a" by (simp add: drop_bit_eq_div)
  then show "drop_bit n c = a" by (metis unat_drop_bit_eq word_unat_eq_iff)
  show "bit c j = bit b j" if "j < n"
  proof -
    have "bit (unat c mod 2 ^ n) j = bit (unat b mod 2 ^ n) j" unfolding c by simp
    with that show ?thesis
      by (simp add: take_bit_eq_mod [symmetric] bit_take_bit_iff bit_unat)
  qed
  have "2 ^ (Len64 a - 1) * 2 ^ n \<le> unat c" unfolding c using A(1) by (intro trans_le_add1 mult_le_mono1)
  then have "2 ^ (Len64 a - 1 + n) \<le> unat c" by (simp add: power_add)
  moreover have "unat c < 2 ^ Suc (Len64 a - 1 + n)" using up A(3) by (simp add: c)
  ultimately have "Len64 c = Suc (Len64 a - 1 + n)" by (rule Len64_unique)
  then show "Len64 c = Len64 a + n" using A(3) by simp
qed

text \<open>
  \<open>Concat\<close> composes proofs. As long as the bits of the path fit in 64, a proof for the concatenated index is
  a proof for the last index followed by a proof, of the root of that subtree, for the indices before it.
\<close>

theorem Concat_composes:
  assumes "Concat gs \<noteq> 0" and "b \<noteq> 0" and "Len64 (Concat gs) + Len64 b \<le> 65"
    and "of_nat (length q) = gindex_Length b" and "length q < 2 ^ 63" and "length p < 2 ^ 63"
  shows "CalculateMerkleRoot E (Concat (gs @ [b])) leaf (q @ p) =
    bindE (CalculateMerkleRoot E b leaf q) (\<lambda>subroot. CalculateMerkleRoot E (Concat gs) subroot p)"
proof -
  let ?a = "Concat gs" and ?c = "Concat (gs @ [b])"
  define n where "n = Len64 b - 1"
  note c = Concat_split [OF assms(1-3) n_def, folded Concat_snoc]
  have q: "length q = n"
    using arg_cong [OF assms(4), of unat] assms(5)
    by (simp add: gindex_Length_Len64 [OF assms(2)] n_def unat_of_nat take_bit_nat_eq_self_iff)
  have "?c \<noteq> 0" using c(2) assms(1) by auto
  note root = CalculateMerkleRoot_branch [OF this] CalculateMerkleRoot_branch [OF assms(1)]
    CalculateMerkleRoot_branch [OF assms(2)]
  have "RootFromBranch E leaf (q @ p) 0 ?c = RootFromBranch E (RootFromBranch E leaf q 0 b) p 0 ?a"
    using RootFromBranch_branch [of q ?c 0 b E leaf] c(2,3) q
    by (simp add: RootFromBranch_append RootFromBranch_drop [of _ _ _ n])
  moreover have "n + length p = Len64 ?c - 1 \<longleftrightarrow> length p = Len64 ?a - 1"
    using c(4) Len64_bounds(3) [OF assms(1)] by auto
  ultimately show ?thesis using q assms(5,6) by (simp add: root n_def)
qed

theorem Concat_composes_witness:
  "CalculateMerkleRoot (reference_env fold_digest 15) (Concat ([3] @ [2])) zero32 ([zero32] @ [zero32]) =
   bindE (CalculateMerkleRoot (reference_env fold_digest 15) 2 zero32 [zero32])
     (\<lambda>subroot. CalculateMerkleRoot (reference_env fold_digest 15) (Concat [3]) subroot [zero32])"
  by (rule Concat_composes) (simp_all add: Concat_def PrevPowerOfTwo_def smear_def smear_step_def Len64_def
      bit_length.simps gindex_Length_def ILog2Floor_def)

subsection \<open>Multiple proofs\<close>

lemma parent_sibling_less:
  assumes "2 \<le> unat g"
  shows "unat (Sibling (Parent g)) < unat (Sibling g)"
proof -
  have "1 < unat (Sibling g)" using assms unfolding unat_Sibling by presburger
  then show ?thesis
    using unat_half_sibling [of "Sibling g"] by (simp add: Parent_Sibling word_less_nat_alt)
qed

lemma branch_bound: "x \<in> set (GetBranchIndices g) \<Longrightarrow> unat x \<le> unat (Sibling g)"
proof (induction g rule: gindex_induct)
  case (step g)
  note parent_sibling_less [OF step.hyps]
  with step show ?case by (auto simp: GetBranchIndices_rec [of g])
qed (simp add: GetBranchIndices_rec)

lemma path_bound: "x \<in> set (GetPathIndices g) \<Longrightarrow> unat x \<le> unat g \<and> 2 \<le> unat x"
proof (induction g rule: gindex_induct)
  case (step g)
  then show ?case by (auto simp: GetPathIndices_rec [of g] Parent_def unat_half)
qed (simp add: GetPathIndices_rec)

lemma branch_decreasing: "sorted_wrt (>) (GetBranchIndices g)"
proof (induction g rule: gindex_induct)
  case (step g)
  note parent_sibling_less [OF step.hyps]
  with branch_bound [of _ "Parent g"] step show ?case
    by (fastforce simp: GetBranchIndices_rec [of g] word_less_nat_alt)
qed (simp add: GetBranchIndices_rec)

lemma branch_off_path: "x \<in> set (GetBranchIndices g) \<Longrightarrow> x \<notin> set (GetPathIndices g)"
proof (induction g arbitrary: x rule: gindex_induct)
  case (step g)
  have "1 < g" using step.hyps by (simp add: word_less_nat_alt)
  then have "g \<notin> set (GetBranchIndices (Parent g))"
    using unat_half_sibling [of g] branch_bound [of g "Parent g"] by linarith
  moreover have "Sibling g \<notin> set (GetPathIndices (Parent g))"
  proof
    assume "Sibling g \<in> set (GetPathIndices (Parent g))"
    from path_bound [OF this] step.hyps show False
      unfolding unat_Sibling Parent_def unat_half by presburger
  qed
  moreover have "unat (Sibling g) \<noteq> unat g" using step.hyps unfolding unat_Sibling by auto
  ultimately show ?case
    using step by (auto simp: GetBranchIndices_rec [of g] GetPathIndices_rec [of g])
qed (simp add: GetBranchIndices_rec)

lemma decreasing_id:
  assumes "sorted_wrt (>) xs"
  shows "decreasing xs = xs"
proof -
  have "sorted_wrt (<) (rev xs)" using assms by (simp add: sorted_wrt_rev)
  then have xs: "sorted (rev xs)" "distinct (rev xs)" by (simp_all add: strict_sorted_iff)
  then have "sort xs = rev xs" by (intro sorted_distinct_set_unique) simp_all
  then show ?thesis using xs(2) by (simp add: decreasing_def distinct_remdups_id)
qed

text \<open>
  For one index the helper indices are the branch, in the order of a single proof, as the comment at
  \<open>GetHelperIndices\<close> says.
\<close>

theorem helper_indices_single: "GetHelperIndices [g] = GetBranchIndices g"
proof -
  have "filter (\<lambda>i. i \<notin> set (GetPathIndices g)) (GetBranchIndices g) = GetBranchIndices g"
    using branch_off_path by (intro filter_True) blast
  then show ?thesis by (simp add: GetHelperIndices_def decreasing_id [OF branch_decreasing])
qed

lemma Sibling_facts:
  "Sibling (Sibling g) = g" "Sibling g \<noteq> g" "Parent (Sibling g) = Parent g"
  "odd (unat g) \<Longrightarrow> (k OR 1) XOR 1 \<noteq> g" "odd (unat g) \<Longrightarrow> Sibling g < g"
proof -
  show "Sibling (Sibling g) = g" by (simp add: Sibling_def xor.assoc)
  have "unat (Sibling g) \<noteq> unat g" unfolding unat_Sibling by (auto intro: odd_pos elim!: oddE)
  then show "Sibling g \<noteq> g" by auto
  show "Parent (Sibling g) = Parent g" by (rule Parent_Sibling)
  assume odd: "odd (unat g)"
  then have "bit g 0" by (simp add: bit_unat [symmetric] bit_0)
  moreover have "\<not> bit ((k OR 1) XOR 1) 0" unfolding bit_xor_iff bit_or_iff by simp
  ultimately show "(k OR 1) XOR 1 \<noteq> g" by metis
  show "Sibling g < g" using odd by (simp add: word_less_nat_alt unat_Sibling odd_pos)
qed

text \<open>
  While the loop has not passed the odd key \<open>g\<close>, its sibling is at hand and comes later; afterwards the parent of \<open>g\<close>
  is known. In both cases the value of \<open>g\<close> itself is not read.
\<close>

definition unread :: "GeneralizedIndex \<Rightarrow> (GeneralizedIndex \<rightharpoonup> b32) \<Rightarrow> GeneralizedIndex list \<Rightarrow> bool" where
  "unread g objects keys \<longleftrightarrow> objects (Parent g) \<noteq> None \<or>
     objects g \<noteq> None \<and> objects (Sibling g) \<noteq> None \<and> g \<in> set keys \<and> Sibling g \<notin> set (takeWhile (\<lambda>x. x \<noteq> g) keys)"

lemma unread_head:
  assumes "unread g objects (k # keys)"
  shows "k = g \<and> objects g \<noteq> None \<and> objects (Sibling g) \<noteq> None \<or> k \<noteq> Sibling g \<and> unread g objects keys \<or>
    objects (Parent g) \<noteq> None"
  using assms by (auto simp: unread_def split: if_splits)

lemma unread_append:
  assumes "unread g objects keys" and "dom objects \<subseteq> dom objects'"
  shows "unread g objects' (keys @ ks)"
proof -
  have "objects' x \<noteq> None" if "objects x \<noteq> None" for x using assms(2) that by auto
  with assms(1) show ?thesis by (auto simp: unread_def simp del: not_None_eq)
qed

lemma multi_loop_unread:
  assumes "odd (unat g)"
  shows "unread g objects keys \<Longrightarrow> (\<And>x. x \<noteq> g \<Longrightarrow> objects' x = objects x) \<Longrightarrow> dom objects' = dom objects \<Longrightarrow> x \<noteq> g \<Longrightarrow>
    multi_loop E objects' keys x = multi_loop E objects keys x"
proof (induction E objects keys arbitrary: objects' rule: multi_loop.induct)
  case (2 E objects k keys)
  note S = Sibling_facts [of g] and H = unread_head [OF "2.prems"(1)]
  have dom: "objects' x = None \<longleftrightarrow> objects x = None" for x using "2.prems"(3) by (metis domIff)
  show ?case
  proof (cases "objects k \<noteq> None \<and> objects (k XOR 1) \<noteq> None \<and> objects (k div 2) = None")
    case True
    have "k XOR 1 \<noteq> g"
    proof
      assume "k XOR 1 = g"
      then have "k = Sibling g" by (metis Sibling_def Sibling_facts(1))
      with H S(2,3) True show False by (auto simp: Parent_def)
    qed
    then have v: "object_at objects' (k XOR 1) = object_at objects (k XOR 1)"
        "object_at objects' ((k OR 1) XOR 1) = object_at objects ((k OR 1) XOR 1)"
      using "2.prems"(2) S(4) [OF assms] by (simp_all add: object_at_def)
    define new where "new = Sum256 E (object_at objects ((k OR 1) XOR 1) @ object_at objects (k XOR 1))"
    have same: "dom (objects'(k div 2 \<mapsto> new)) = dom (objects(k div 2 \<mapsto> new))" using "2.prems"(3) by simp
    have "unread g (objects(k div 2 \<mapsto> new)) (keys @ [k div 2])"
    proof (cases "k = g")
      case True
      then show ?thesis by (simp add: unread_def Parent_def)
    next
      case False
      with H have "unread g objects keys" by (auto simp: unread_def)
      then show ?thesis by (rule unread_append) auto
    qed
    then have "multi_loop E (objects'(k div 2 \<mapsto> new)) (keys @ [k div 2]) x =
        multi_loop E (objects(k div 2 \<mapsto> new)) (keys @ [k div 2]) x"
      by (rule "2.IH"(1) [OF True, folded new_def, OF _ _ same "2.prems"(4)]) (use "2.prems"(2) in simp)
    with True dom v show ?thesis by (simp add: new_def)
  next
    case False
    have "unread g objects keys"
    proof (cases "k = g")
      case True
      with False H show ?thesis by (auto simp: unread_def Sibling_def Parent_def)
    next
      case False
      with H show ?thesis by (auto simp: unread_def)
    qed
    then have "multi_loop E objects' keys x = multi_loop E objects keys x"
      by (intro "2.IH"(2) False) (use "2.prems" in auto)
    with False dom show ?thesis by auto
  qed
qed simp

lemma set_decreasing [simp]: "set (decreasing xs) = set xs"
  by (simp add: decreasing_def)

lemma decreasing_sorted: "sorted_wrt (>) (decreasing xs)"
  by (simp add: decreasing_def sorted_wrt_rev strict_sorted_iff)

lemma decreasing_order:
  assumes "sorted_wrt (>) xs" and "x \<in> set (takeWhile (\<lambda>y. y \<noteq> g) xs)" and "g \<in> set xs"
  shows "g < (x :: GeneralizedIndex)"
  using assms by (induction xs) (auto split: if_splits)

lemma map_of_update_value:
  assumes "i < length xs"
  shows "x \<noteq> fst (xs ! i) \<Longrightarrow> map_of (xs[i := (fst (xs ! i), v)]) x = map_of xs x"
    and "dom (map_of (xs[i := (fst (xs ! i), v)])) = dom (map_of xs)"
proof -
  show "map_of (xs[i := (fst (xs ! i), v)]) x = map_of xs x" if "x \<noteq> fst (xs ! i)"
    using assms that by (induction xs arbitrary: i) (auto split: nat.splits)
  have "map fst (xs[i := (fst (xs ! i), v)]) = map fst xs"
    by (simp add: map_update) (metis list_update_id assms nth_map)
  then show "dom (map_of (xs[i := (fst (xs ! i), v)])) = dom (map_of xs)"
    by (metis dom_map_of_conv_image_fst list.set_map)
qed

text \<open>
  Multiple proofs do not bind the leaves at odd indices. If the sibling of an odd index is a leaf or a helper,
  the root does not depend on the leaf at that index: \<open>CalculateMultiMerkleRoot\<close> hashes the left child twice,
  so every leaf passes \<open>VerifyMerkleMultiproof\<close> there.
\<close>

theorem multiproof_unbound:
  assumes "i < length gs" and "gs ! i = g" and "odd (unat g)" and "g \<noteq> 1"
    and "Sibling g \<in> set gs \<union> set (GetHelperIndices gs)"
  shows "CalculateMultiMerkleRoot E gs (leaves[i := leaf]) p = CalculateMultiMerkleRoot E gs leaves p"
proof (cases "length leaves = length gs \<and> length p = length (GetHelperIndices gs)")
  case True
  define xs where "xs = zip gs leaves @ zip (GetHelperIndices gs) p"
  define keys where "keys = decreasing (gs @ GetHelperIndices gs)"
  have at: "i < length xs" "xs ! i = (g, leaves ! i)" using True assms(1,2) by (simp_all add: xs_def nth_append)
  have upd: "zip gs (leaves[i := leaf]) @ zip (GetHelperIndices gs) p = xs[i := (g, leaf)]"
    using True assms(1,2) by (auto simp: xs_def list_update_append update_zip)
  let ?j = "length xs - Suc i"
  have j: "?j < length (rev xs)" "rev xs ! ?j = (g, leaves ! i)" "rev (xs[i := (g, leaf)]) = (rev xs)[?j := (g, leaf)]"
    using at by (simp_all add: rev_nth rev_update)
  have keys_dom: "map_of (rev xs) x \<noteq> None" if "x \<in> set gs \<union> set (GetHelperIndices gs)" for x
    using that True by (auto simp: xs_def map_of_eq_None_iff image_Un set_map [symmetric] simp del: set_map)
  have "g \<in> set gs" using assms(1,2) by auto
  have "unread g (map_of (rev xs)) keys"
    using decreasing_order [OF decreasing_sorted, of "Sibling g" g "gs @ GetHelperIndices gs"]
      Sibling_facts(5) [OF assms(3)] keys_dom assms(5) \<open>g \<in> set gs\<close>
    by (auto simp: unread_def keys_def)
  then have "multi_loop E (map_of (rev (xs[i := (g, leaf)]))) keys 1 = multi_loop E (map_of (rev xs)) keys 1"
    by (rule multi_loop_unread [OF assms(3)])
      (use map_of_update_value [OF j(1), where v = leaf] j(2,3) assms(4) in auto)
  then show ?thesis
    using True upd by (simp add: CalculateMultiMerkleRoot_def Let_def object_at_def xs_def [symmetric] keys_def)
next
  case False
  then show ?thesis by (auto simp: CalculateMultiMerkleRoot_def Let_def)
qed

theorem multiproof_unbound_witness:
  "CalculateMultiMerkleRoot (reference_env fold_digest 15) [3] ([zero32][0 := replicate 32 1]) [zero32] =
   CalculateMultiMerkleRoot (reference_env fold_digest 15) [3] [zero32] [zero32]"
  by (rule multiproof_unbound [where g = 3])
    (simp_all add: helper_indices_single GetBranchIndices_rec [of 3])

end
