(* ===== verification/BasicSsz.thy ===== *)
theory BasicSsz
  imports Roots
begin

unbundle bit_operations_syntax

section \<open>Basic values and reflection: \<open>mod/primitives/pkg/ssz\<close>\<close>

text \<open>
  The scalar codecs of \<open>serialization.go\<close>, the packing of basic values (\<open>helpers.go\<close>) and the
  merkleization of basic values, vectors, lists and containers (\<open>merkleize.go\<close>) that go through Go's reflection.

  What reflection shows of a value is data here: a value of the interface \<open>Basic\<close> is the record of what its
  methods return, with its in-memory size; a nil pointer is \<open>None\<close>; a field of a container is one that
  cannot be read, one that is not \<open>Basic\<close>, or a \<open>Basic\<close> value.
\<close>

subsection \<open>Scalars\<close>

definition copy_array :: "nat \<Rightarrow> bytes \<Rightarrow> bytes" where
  "copy_array n src = take n src @ replicate (n - length src) 0"

definition UnmarshalU256L :: "bytes \<Rightarrow> bytes" where
  "UnmarshalU256L src = copy_array 32 src"

definition UnmarshalU128L :: "bytes \<Rightarrow> bytes" where
  "UnmarshalU128L src = copy_array 16 src"

text \<open>The readers of \<open>encoding/binary\<close> and the slice expressions panic on short input.\<close>

definition read_prefix :: "nat \<Rightarrow> bytes \<Rightarrow> err + u64" where
  "read_prefix n src = (if length src < n then Inl (Panic ''slice bounds out of range'') else Inr (le_value (take n src)))"

definition UnmarshalU64 :: "bytes \<Rightarrow> err + u64" where
  "UnmarshalU64 src = read_prefix 8 src"

definition UnmarshalU32 :: "bytes \<Rightarrow> err + 32 word" where
  "UnmarshalU32 src = bindE (read_prefix 4 src) (\<lambda>v. Inr (ucast v))"

definition UnmarshalU16 :: "bytes \<Rightarrow> err + 16 word" where
  "UnmarshalU16 src = bindE (read_prefix 2 src) (\<lambda>v. Inr (ucast v))"

definition UnmarshalU8 :: "bytes \<Rightarrow> err + u8" where
  "UnmarshalU8 src = (case src of [] \<Rightarrow> Inl (Panic ''index out of range'') | b # _ \<Rightarrow> Inr b)"

definition UnmarshalBool :: "bytes \<Rightarrow> err + bool" where
  "UnmarshalBool src = (case src of [] \<Rightarrow> Inl (Panic ''index out of range'') | b # _ \<Rightarrow> Inr (b = 1))"

definition UnmarshalBitVector :: "bytes \<Rightarrow> err + bool list" where
  "UnmarshalBitVector _ = Inl (Panic ''not implemented'')"

definition MarshalU256 :: "bytes \<Rightarrow> bytes" where
  "MarshalU256 u256 = copy_array 32 u256"

definition MarshalU128 :: "bytes \<Rightarrow> bytes" where
  "MarshalU128 u128 = copy_array 16 u128"

definition MarshalU64 :: "u64 \<Rightarrow> bytes" where
  "MarshalU64 v = le_bytes v"

definition MarshalU32 :: "32 word \<Rightarrow> bytes" where
  "MarshalU32 v = take 4 (le_bytes (ucast v))"

definition MarshalU16 :: "16 word \<Rightarrow> bytes" where
  "MarshalU16 v = take 2 (le_bytes (ucast v))"

definition MarshalU8 :: "u8 \<Rightarrow> bytes" where
  "MarshalU8 v = [v]"

definition MarshalBool :: "bool \<Rightarrow> bytes" where
  "MarshalBool b = (if b then [1] else [0])"

definition MarshalNull :: "'a \<Rightarrow> bytes" where
  "MarshalNull _ = []"

subsection \<open>Basic values\<close>

record Basic_value =
  bv_size :: u64
  bv_SizeSSZ :: int
  bv_MarshalSSZ :: "(err + bytes) option"
  bv_HashTreeRoot :: "err + b32"

datatype reflected_field = Unexported | NotBasic | BasicField Basic_value

definition SizeOfBasic :: "Basic_value \<Rightarrow> u64" where
  "SizeOfBasic b = bv_size b"

definition SizeOfComposite :: "Basic_value \<Rightarrow> u64" where
  "SizeOfComposite c = of_int (bv_SizeSSZ c)"

text \<open>\<open>SizeOfContainer\<close> returns -1 at the first field that it cannot size. A nil pointer has no fields to count.\<close>

fun container_size :: "int \<Rightarrow> reflected_field list \<Rightarrow> int" where
  "container_size size' [] = size'"
| "container_size size' (BasicField f # fs) = container_size (size' + bv_SizeSSZ f) fs"
| "container_size size' (_ # fs) = -1"

definition SizeOfContainer :: "reflected_field list option \<Rightarrow> err + int" where
  "SizeOfContainer c =
     (case c of None \<Rightarrow> Inl (Panic ''reflect: NumField of zero Value'')
      | Some fs \<Rightarrow> Inr (container_size 0 fs))"

definition ChunkCountBasic :: "Basic_value \<Rightarrow> u64" where
  "ChunkCountBasic _ = 1"

definition ChunkCountContainer :: "reflected_field list \<Rightarrow> u64" where
  "ChunkCountContainer c = of_nat (length c)"

definition Pack :: "Basic_value option list \<Rightarrow> err + b32 list" where
  "Pack b =
     bindE (mapE (\<lambda>el. case el of
         None \<Rightarrow> Inl (Panic ''reflect: CanInterface of zero Value'')
       | Some v \<Rightarrow> (case bv_MarshalSSZ v of None \<Rightarrow> Inl (Newf ''unsupported type'') | Some r \<Rightarrow> r)) b)
     (\<lambda>bufs. Inr (fst (PartitionBytes (concat bufs))))"

subsection \<open>Merkleization\<close>

definition MerkleizeVecBasic :: "merkle_env \<Rightarrow> Basic_value option list \<Rightarrow> err + b32" where
  "MerkleizeVecBasic E value = bindE (Pack value) (\<lambda>packed. Merkleize E packed None)"

definition MerkleizeBasic :: "merkle_env \<Rightarrow> Basic_value option \<Rightarrow> err + b32" where
  "MerkleizeBasic E value = MerkleizeVecBasic E [value]"

text \<open>The size of the first element, read by \<open>ChunkCountBasicList\<close> from its static type.\<close>

definition element_size :: "Basic_value option list \<Rightarrow> u64" where
  "element_size value = (case value of Some v # _ \<Rightarrow> SizeOfBasic v | _ \<Rightarrow> 8)"

definition MerkleizeListBasic :: "merkle_env \<Rightarrow> Basic_value option list \<Rightarrow> u64 \<Rightarrow> err + b32" where
  "MerkleizeListBasic E value limit =
     bindE (Pack value) (\<lambda>packed.
     bindE (Merkleize E packed (Some (ChunkCountBasicList (element_size value) value limit))) (\<lambda>root.
     Inr (MixinLength E root (of_nat (length value)))))"

definition field_root :: "reflected_field \<Rightarrow> err + b32" where
  "field_root f =
     (case f of
        Unexported \<Rightarrow> Inl (Newf ''cannot interface with field'')
      | NotBasic \<Rightarrow> Inl (Newf ''field does not implement Hashable'')
      | BasicField v \<Rightarrow> bv_HashTreeRoot v)"

definition MerkleizeContainer :: "merkle_env \<Rightarrow> reflected_field list option \<Rightarrow> err + b32" where
  "MerkleizeContainer E value =
     (case value of
        None \<Rightarrow> Inl (Panic ''reflect: NumField of zero Value'')
      | Some fs \<Rightarrow> bindE (mapE field_root fs) (\<lambda>htrs. Merkleize E htrs None))"

subsection \<open>Round trips\<close>

lemma le_value_prefix:
  assumes "n \<le> 8"
  shows "le_value (take n (le_bytes u)) = take_bit (8 * n) u"
proof (rule bit_word_eqI)
  fix i assume "i < LENGTH(64)"
  then have "i div 8 < 8" by simp
  then have "bit (le_value (take n (le_bytes u))) i \<longleftrightarrow> i div 8 < n \<and> bit u (8 * (i div 8) + i mod 8)"
    using assms \<open>i < LENGTH(64)\<close>
    by (cases "i div 8 < n") (simp_all add: bit_le_value le_bytes_nth bit_unsigned_iff bit_drop_bit_eq)
  moreover have "i div 8 < n \<longleftrightarrow> i < 8 * n" by (simp add: div_less_iff_less_mult mult.commute)
  moreover have "8 * (i div 8) + i mod 8 = i" by simp
  ultimately show "bit (le_value (take n (le_bytes u))) i \<longleftrightarrow> bit (take_bit (8 * n) u) i"
    by (simp only: bit_take_bit_iff)
qed

text \<open>
  The scalar codecs invert each other and read nothing beyond the width of their type; the readers of
  64, 32 and 16 bits panic on shorter input.
\<close>

theorem scalars_roundtrip:
  "UnmarshalU64 (MarshalU64 a @ rest) = Inr a \<and> UnmarshalU32 (MarshalU32 b @ rest) = Inr b \<and>
   UnmarshalU16 (MarshalU16 c @ rest) = Inr c \<and> UnmarshalU8 (MarshalU8 d @ rest) = Inr d \<and>
   UnmarshalBool (MarshalBool t @ rest) = Inr t \<and>
   UnmarshalU256L (MarshalU256 x @ rest) = MarshalU256 x \<and> UnmarshalU128L (MarshalU128 y @ rest) = MarshalU128 y \<and>
   (isl (UnmarshalU64 src) \<longleftrightarrow> length src < 8) \<and> (isl (UnmarshalU32 src) \<longleftrightarrow> length src < 4) \<and>
   (isl (UnmarshalU16 src) \<longleftrightarrow> length src < 2)"
proof (intro conjI)
  show "UnmarshalU64 (MarshalU64 a @ rest) = Inr a"
    by (simp add: UnmarshalU64_def MarshalU64_def read_prefix_def le_value_le_bytes)
  have "ucast (take_bit 32 (ucast b :: u64)) = b" by (rule bit_word_eqI) (simp add: bit_simps)
  then show "UnmarshalU32 (MarshalU32 b @ rest) = Inr b"
    by (simp add: UnmarshalU32_def MarshalU32_def read_prefix_def le_value_prefix)
  have "ucast (take_bit 16 (ucast c :: u64)) = c" by (rule bit_word_eqI) (simp add: bit_simps)
  then show "UnmarshalU16 (MarshalU16 c @ rest) = Inr c"
    by (simp add: UnmarshalU16_def MarshalU16_def read_prefix_def le_value_prefix)
qed (simp_all add: UnmarshalU8_def MarshalU8_def UnmarshalBool_def MarshalBool_def UnmarshalU256L_def
      MarshalU256_def UnmarshalU128L_def MarshalU128_def copy_array_def UnmarshalU64_def UnmarshalU32_def
      UnmarshalU16_def read_prefix_def)

subsection \<open>Roots\<close>

definition uint64_value :: "u64 \<Rightarrow> Basic_value" where
  "uint64_value v = \<lparr>bv_size = 8, bv_SizeSSZ = 8, bv_MarshalSSZ = Some (Inr (U64_MarshalSSZ v)),
     bv_HashTreeRoot = Inr (U64_HashTreeRoot v)\<rparr>"

lemma Pack_values:
  assumes "\<And>v. v \<in> set vs \<Longrightarrow> bv_MarshalSSZ (f v) = Some (Inr (enc v))"
  shows "Pack (map Some (map f vs)) = Inr (fst (PartitionBytes (concat (map enc vs))))"
proof -
  have "mapE g (map Some (map f vs)) = Inr (map enc vs)" if "\<And>v. v \<in> set vs \<Longrightarrow> g (Some (f v)) = Inr (enc v)" for g
    using that by (induction vs) simp_all
  then show ?thesis by (simp add: Pack_def assms)
qed

lemma concat_uint64_length: "length (concat (map le_bytes vs)) = 8 * length vs"
  by (induction vs) simp_all

lemma list_limit:
  assumes "0 < unat (limit :: u64)" and "unat limit < 2 ^ 60"
  shows "unat ((limit * 8 + 31) div 32) = (8 * unat limit + 31) div 32" and "(limit * 8 + 31) div 32 \<noteq> 0"
proof -
  have "unat (limit * 8 + 31) = 8 * unat limit + 31" using assms(2) by (simp add: unat_word_ariths)
  then show div: "unat ((limit * 8 + 31) div 32) = (8 * unat limit + 31) div 32" by (simp add: unat_div)
  have "1 \<le> (8 * unat limit + 31) div 32" using assms(1) div_le_mono [of 32 "8 * unat limit + 31" 32] by simp
  then show "(limit * 8 + 31) div 32 \<noteq> 0" using div by (metis not_one_le_zero unat_0)
qed

context layer_hasher
begin

lemma mixin: "MixinLength E r n = Sum256 E (r @ uint64_chunk n)"
  using gohashtree [of "[r, le_bytes n @ replicate 24 0]"] by (simp add: MixinLength_def uint64_chunk_def)

lemma packed_list_root:
  assumes "bz \<noteq> []" and "length bz < 2 ^ 60" and "unat limit \<le> 2 ^ 63"
  shows "Merkleize E (fst (PartitionBytes bz)) (Some limit) =
    (if unat limit < (length bz + 31) div 32 then Inl (Newf ''input exceeds limit'')
     else Inr (node E (byte_chunks bz) (limit_depth limit) 0))"
  using PartitionBytes_chunks [OF assms(1,2) refl] Merkleize_spec [of "byte_chunks bz" "Some limit"] assms(3)
  by simp

lemma empty_list_root: "Merkleize E (fst (PartitionBytes [])) (Some 1) = Inr (node E [] (limit_depth 1) 0)"
  using Merkleize_spec [of "[zero32]" "Some 1"]
  by (simp add: PartitionBytes_def limit_depth_def Len64_def chunk_at_def zero32_def)

lemma container_fields_root:
  assumes "length fs < 2 ^ 63"
  shows "MerkleizeContainer E (Some (map BasicField fs)) =
    bindE (mapE bv_HashTreeRoot fs) (\<lambda>roots. Inr (container_root E roots))"
proof -
  have "mapE field_root (map BasicField xs) = mapE bv_HashTreeRoot xs" for xs
    by (induction xs) (simp_all add: field_root_def)
  moreover have "Merkleize E roots None = Inr (container_root E roots)" if "mapE bv_HashTreeRoot fs = Inr roots" for roots
    using list_all2_lengthD [OF mapE_InrD [OF that]] assms Merkleize_spec [of roots None]
    by (simp add: container_root_def)
  ultimately show ?thesis
    by (cases "mapE bv_HashTreeRoot fs") (simp_all add: MerkleizeContainer_def)
qed

end

text \<open>
  The root of a list of 64-bit numbers. For a list that is not empty \<open>MerkleizeListBasic\<close> gives the root that SSZ
  defines, over the packed chunks padded to the limit, with the length mixed in, and refuses more
  chunks than the limit has. For the empty list it takes a limit of one chunk whatever the limit is.
\<close>

theorem MerkleizeListBasic_uint64:
  assumes "few_goroutines E" and "length vs < 2 ^ 56" and "0 < unat limit" and "unat limit < 2 ^ 60"
  shows "MerkleizeListBasic E (map Some (map uint64_value vs)) limit =
    (if vs = [] then Inr (mixin_root E [] 0 1)
     else if (8 * unat limit + 31) div 32 < (8 * length vs + 31) div 32 then Inl (Newf ''input exceeds limit'')
     else Inr (mixin_root E (byte_chunks (concat (map le_bytes vs))) (of_nat (length vs)) ((limit * 8 + 31) div 32)))"
proof -
  note L = few_goroutines.is_layer_hasher [OF assms(1)]
  have pack: "Pack (map Some (map uint64_value vs)) = Inr (fst (PartitionBytes (concat (map le_bytes vs))))"
    by (rule Pack_values) (simp add: uint64_value_def U64_MarshalSSZ_def)
  show ?thesis
  proof (cases "vs = []")
    case True
    then show ?thesis
      using pack layer_hasher.empty_list_root [OF L] layer_hasher.mixin [OF L]
      by (simp add: MerkleizeListBasic_def ChunkCountBasicList_def mixin_root_def)
  next
    case False
    let ?limit = "(limit * 8 + 31) div 32" and ?bz = "concat (map le_bytes vs)"
    note limit = list_limit [OF assms(3,4)]
    have "length vs \<noteq> 0" "unat (of_nat (length vs) :: u64) = length vs" using False assms(2) by (simp_all add: unat_of_nat)
    then have nz: "(of_nat (length vs) :: u64) \<noteq> 0" by (metis unat_0)
    have count: "ChunkCountBasicList (element_size (map Some (map uint64_value vs))) (map Some (map uint64_value vs)) limit = ?limit"
      using False nz limit(2)
      by (cases vs) (simp_all add: ChunkCountBasicList_def element_size_def SizeOfBasic_def uint64_value_def)
    have "length ?bz < 2 ^ 60" "0 < length ?bz" using False assms(2) concat_uint64_length [of vs] by simp_all
    then have "?bz \<noteq> []" "length ?bz < 2 ^ 60" by (metis length_greater_0_conv)+
    moreover have "unat ?limit \<le> 2 ^ 63" using limit(1) assms(4) by simp
    ultimately have "Merkleize E (fst (PartitionBytes ?bz)) (Some ?limit) =
      (if unat ?limit < (length ?bz + 31) div 32 then Inl (Newf ''input exceeds limit'')
       else Inr (node E (byte_chunks ?bz) (limit_depth ?limit) 0))"
      by (rule layer_hasher.packed_list_root [OF L])
    with False pack count limit(1) layer_hasher.mixin [OF L] show ?thesis
      by (simp add: MerkleizeListBasic_def mixin_root_def concat_uint64_length)
  qed
qed

theorem MerkleizeListBasic_uint64_witness:
  "MerkleizeListBasic (reference_env fold_digest 15) (map Some (map uint64_value [7, 9])) 16 =
     Inr (mixin_root (reference_env fold_digest 15) (byte_chunks (concat (map le_bytes [7, 9]))) 2 4)"
  using MerkleizeListBasic_uint64 [OF reference_few.few_goroutines_axioms, of "[7, 9]" 16] by simp

text \<open>
  The root of a container whose fields are all readable is the root of the tree over the roots of its
  fields, or the error of the first field that has none; a field that cannot be read or does not implement
  \<open>Basic\<close> is an error whatever comes after it, and so is a nil pointer.
\<close>

theorem MerkleizeContainer_fields:
  assumes "few_goroutines E" and "length fs < 2 ^ 63" and "mapE bv_HashTreeRoot fs = Inr roots"
  shows "MerkleizeContainer E (Some (map BasicField fs)) = Inr (container_root E roots) \<and>
    MerkleizeContainer E (Some (map BasicField fs @ Unexported # rest)) = Inl (Newf ''cannot interface with field'') \<and>
    MerkleizeContainer E (Some (map BasicField fs @ NotBasic # rest)) = Inl (Newf ''field does not implement Hashable'') \<and>
    isl (MerkleizeContainer E None) \<and> SizeOfContainer (Some (map BasicField fs)) = Inr (\<Sum>f \<leftarrow> fs. bv_SizeSSZ f) \<and>
    SizeOfContainer (Some (map BasicField fs @ NotBasic # rest)) = Inr (-1)"
proof (intro conjI)
  note L = few_goroutines.is_layer_hasher [OF assms(1)]
  show "MerkleizeContainer E (Some (map BasicField fs)) = Inr (container_root E roots)"
    using layer_hasher.container_fields_root [OF L assms(2)] assms(3) by simp
  have app: "mapE field_root (map BasicField fs @ f # rest) = Inl e" if "field_root f = Inl e" for f e
    using assms(3)
  proof (induction fs arbitrary: roots)
    case (Cons x xs)
    then show ?case by (cases "bv_HashTreeRoot x"; cases "mapE bv_HashTreeRoot xs") (simp_all add: field_root_def)
  qed (simp add: that)
  show "MerkleizeContainer E (Some (map BasicField fs @ Unexported # rest)) = Inl (Newf ''cannot interface with field'')"
    by (simp add: MerkleizeContainer_def app [of Unexported] field_root_def)
  show "MerkleizeContainer E (Some (map BasicField fs @ NotBasic # rest)) = Inl (Newf ''field does not implement Hashable'')"
    by (simp add: MerkleizeContainer_def app [of NotBasic] field_root_def)
  have "container_size n (map BasicField fs) = n + (\<Sum>f \<leftarrow> fs. bv_SizeSSZ f)" for n
    by (induction fs arbitrary: n) simp_all
  then show "SizeOfContainer (Some (map BasicField fs)) = Inr (\<Sum>f \<leftarrow> fs. bv_SizeSSZ f)" by (simp add: SizeOfContainer_def)
  have "container_size n (map BasicField fs @ NotBasic # rest) = -1" for n
    by (induction fs arbitrary: n) simp_all
  then show "SizeOfContainer (Some (map BasicField fs @ NotBasic # rest)) = Inr (-1)" by (simp add: SizeOfContainer_def)
qed (simp add: MerkleizeContainer_def)

end
