(* ===== verification/NodeApi.thy ===== *)
theory NodeApi
  imports FileDB Demo Encodings
begin

section \<open>The node API: \<open>mod/node-api\<close>\<close>

text \<open>
  The backend that answers queries from the beacon state (\<open>backend/beacon.go\<close>, \<open>rewards.go\<close>), the validation
  of request parameters (\<open>server/validations.go\<close>) and the handlers (\<open>server/handlers\<close>).

  The router \<open>echo\<close> and the struct validator \<open>go-playground/validator\<close> are not part of the repository. What binding a
  request gives and what the struct validator answers are arguments of the handlers. \<open>getNewStateDB\<close>, which picks the
  state of an identifier, is a field of the backend.
\<close>

subsection \<open>Types\<close>

definition ascii :: "string \<Rightarrow> bytes" where
  "ascii s = map of_char s"

record ValidatorData =
  vd_Index :: u64
  vd_Balance :: u64
  vd_Status :: bytes
  vd_Validator :: Validator

record ValidatorBalanceData =
  vbd_Index :: u64
  vbd_Balance :: u64

record BlockRewardsData =
  rw_ProposerIndex :: u64
  rw_Total :: u64
  rw_Attestations :: u64
  rw_SyncAggregate :: u64
  rw_ProposerSlashings :: u64
  rw_AttesterSlashings :: u64

record 'c Backend =
  be_store :: "'c KVStore"
  be_getNewStateDB :: "bytes \<Rightarrow> 'c"

subsection \<open>The backend\<close>

text \<open>A query runs on the state that its identifier picks and leaves nothing behind.\<close>

definition query :: "'c Backend \<Rightarrow> bytes \<Rightarrow> ('c KVStore \<Rightarrow> ('c, 'a) M) \<Rightarrow> err + 'a" where
  "query h stateID m = fst (m (be_store h) (be_getNewStateDB h stateID))"

definition Backend_GetGenesis :: "'c Backend \<Rightarrow> err + b32" where
  "Backend_GetGenesis h = query h (ascii ''stateID'') GetGenesisValidatorsRoot"

definition Backend_GetStateRoot :: "'c Backend \<Rightarrow> bytes \<Rightarrow> err + b32" where
  "Backend_GetStateRoot h stateID =
     query h stateID (\<lambda>stateDB. bindM (GetSlot stateDB) (\<lambda>slot. StateRootAtIndex stateDB slot))"

definition Backend_GetStateFork :: "'c Backend \<Rightarrow> bytes \<Rightarrow> err + Fork" where
  "Backend_GetStateFork h stateID = query h stateID GetFork"

definition getValidatorIndex :: "'c KVStore \<Rightarrow> bytes \<Rightarrow> ('c, u64) M" where
  "getValidatorIndex stateDB keyOrIndex =
     (case ParseUint keyOrIndex 10 of
        Inr index \<Rightarrow> ret index
      | Inl _ \<Rightarrow>
          (case B48_UnmarshalText (replicate 48 0) keyOrIndex of
             (Inl e, _) \<Rightarrow> throw e
           | (Inr _, key) \<Rightarrow> ValidatorIndexByPubkey stateDB key))"

definition validator_data :: "'c KVStore \<Rightarrow> bytes \<Rightarrow> ('c, ValidatorData) M" where
  "validator_data stateDB indexOrKey =
     bindM (getValidatorIndex stateDB indexOrKey) (\<lambda>index.
     bindM (ValidatorByIndex stateDB index) (\<lambda>validator.
     bindM (GetBalance stateDB index) (\<lambda>balance.
     ret \<lparr>vd_Index = index, vd_Balance = balance, vd_Status = ascii ''active'', vd_Validator = validator\<rparr>)))"

definition Backend_GetStateValidators :: "'c Backend \<Rightarrow> bytes \<Rightarrow> bytes list \<Rightarrow> bytes list \<Rightarrow> err + ValidatorData list" where
  "Backend_GetStateValidators h stateID ids _ = query h stateID (\<lambda>stateDB. mapM (validator_data stateDB) ids)"

definition Backend_GetStateValidator :: "'c Backend \<Rightarrow> bytes \<Rightarrow> bytes \<Rightarrow> err + ValidatorData" where
  "Backend_GetStateValidator h stateID validatorID = query h stateID (\<lambda>stateDB. validator_data stateDB validatorID)"

definition Backend_GetStateValidatorBalances ::
  "'c Backend \<Rightarrow> bytes \<Rightarrow> bytes list \<Rightarrow> err + ValidatorBalanceData list" where
  "Backend_GetStateValidatorBalances h stateID ids =
     query h stateID (\<lambda>stateDB.
       mapM (\<lambda>indexOrKey.
         bindM (getValidatorIndex stateDB indexOrKey) (\<lambda>index.
         bindM (GetBalance stateDB index) (\<lambda>balance.
         ret \<lparr>vbd_Index = index, vbd_Balance = balance\<rparr>))) ids)"

definition Backend_GetBlockRoot :: "'c Backend \<Rightarrow> bytes \<Rightarrow> err + b32" where
  "Backend_GetBlockRoot h _ =
     query h (ascii ''stateID'') (\<lambda>stateDB. bindM (GetSlot stateDB) (\<lambda>slot. GetBlockRootAtIndex stateDB slot))"

definition Backend_GetBlockRewards :: "'c Backend \<Rightarrow> bytes \<Rightarrow> err + BlockRewardsData" where
  "Backend_GetBlockRewards _ _ =
     Inr \<lparr>rw_ProposerIndex = 1, rw_Total = 1, rw_Attestations = 1, rw_SyncAggregate = 1,
          rw_ProposerSlashings = 1, rw_AttesterSlashings = 1\<rparr>"

subsection \<open>Validation of parameters\<close>

definition validateAllowedStrings :: "bytes \<Rightarrow> bytes list \<Rightarrow> bool" where
  "validateAllowedStrings value allowedValues = (if value = [] then True else value \<in> set allowedValues)"

text \<open>The two patterns are \<open>^0x[0-9a-fA-F]{1,96}$\<close> and \<open>^0x[0-9a-fA-F]+$\<close>: a prefix, a number of digits in a range, the end.\<close>

definition hex_pattern :: "nat option \<Rightarrow> bytes \<Rightarrow> bool" where
  "hex_pattern most s \<longleftrightarrow> take 2 s = ascii ''0x'' \<and> 3 \<le> length s \<and>
     (case most of None \<Rightarrow> True | Some n \<Rightarrow> length s \<le> n + 2) \<and> list_all (\<lambda>c. reverseHexTable c < 16) (drop 2 s)"

definition validateRegex :: "bytes \<Rightarrow> nat option \<Rightarrow> bool" where
  "validateRegex value most = (if value = [] then True else hex_pattern most value)"

definition ValidateUint64 :: "bytes \<Rightarrow> bool" where
  "ValidateUint64 value = (if value = [] then True else case ParseUint value 10 of Inr _ \<Rightarrow> True | Inl _ \<Rightarrow> False)"

definition ValidateHex :: "bytes \<Rightarrow> bool" where
  "ValidateHex value = validateRegex value None"

definition ValidateValidatorID :: "bytes \<Rightarrow> bool" where
  "ValidateValidatorID value = (if validateRegex value (Some 96) then True else ValidateUint64 value)"

definition ValidateValidatorStatus :: "bytes \<Rightarrow> bool" where
  "ValidateValidatorStatus value =
     validateAllowedStrings value
       (map ascii [''pending_initialized'', ''pending_queued'', ''active_ongoing'', ''active_exiting'', ''active_slashed'',
          ''exited_unslashed'', ''exited_slashed'', ''withdrawal_possible'', ''withdrawal_done''])"

definition fieldEmpty :: "bytes \<Rightarrow> bool" where
  "fieldEmpty value = (if value = [] then False else True)"

definition validateStateBlockIDs :: "bytes \<Rightarrow> bytes list \<Rightarrow> bool" where
  "validateStateBlockIDs value allowedValues =
     (if fieldEmpty value then True
      else if validateAllowedStrings value allowedValues then True
      else if ValidateUint64 value then True
      else ValidateHex value)"

definition ValidateStateID :: "bytes \<Rightarrow> bool" where
  "ValidateStateID value =
     validateStateBlockIDs value (map ascii [''head'', ''genesis'', ''finalized'', ''justified''])"

definition ValidateBlockID :: "bytes \<Rightarrow> bool" where
  "ValidateBlockID value = validateStateBlockIDs value (map ascii [''head'', ''genesis'', ''finalized''])"

definition ConstructValidator :: "(string \<times> (bytes \<Rightarrow> bool)) list" where
  "ConstructValidator =
     [(''state_id'', ValidateStateID), (''block_id'', ValidateBlockID), (''validator_id'', ValidateValidatorID),
      (''validator_status'', ValidateValidatorStatus), (''epoch'', ValidateUint64), (''slot'', ValidateUint64),
      (''committee_index'', ValidateUint64), (''hex'', ValidateHex)]"

subsection \<open>Handlers\<close>

text \<open>
  The errors a handler returns: an \<open>echo.HTTPError\<close> with its code and message, one whose message is the text of another
  error, or an error of the backend.
\<close>

datatype http_error = HTTPError nat bytes | Wrapped nat http_error | Backend_error err

datatype validation = Valid | ValidationErrors "(bytes \<times> bytes) list" | InvalidValidation

datatype api_data =
    GenesisInfo bytes b32 bytes
  | RootInfo b32
  | ValidatorsInfo "ValidatorData list"
  | BalancesInfo "ValidatorBalanceData list"
  | RewardsInfo BlockRewardsData
  | DataResponse api_data

record ValidatorResponse =
  vr_ExecutionOptimistic :: bool
  vr_Finalized :: bool
  vr_Data :: api_data

datatype api_response = Plain_data api_data | Stubbed ValidatorResponse

definition ErrBadRequest :: http_error where
  "ErrBadRequest = HTTPError 400 (ascii ''Bad Request'')"

definition ErrNotImplemented :: http_error where
  "ErrNotImplemented = HTTPError 501 (ascii ''Not Implemented'')"

definition CustomValidator_Validate :: "validation \<Rightarrow> http_error option" where
  "CustomValidator_Validate r =
     (case r of
        Valid \<Rightarrow> None
      | ValidationErrors [] \<Rightarrow> None
      | ValidationErrors ((field, value) # _) \<Rightarrow> Some (HTTPError 400 (ascii ''Invalid '' @ field @ ascii '': '' @ value))
      | InvalidValidation \<Rightarrow> None)"

definition BindAndValidate :: "http_error + 'r \<Rightarrow> ('r \<Rightarrow> validation) \<Rightarrow> http_error + 'r" where
  "BindAndValidate bound validate =
     (case bound of
        Inl _ \<Rightarrow> Inl ErrBadRequest
      | Inr t \<Rightarrow> (case CustomValidator_Validate (validate t) of
                    Some e \<Rightarrow> Inl (Wrapped 400 e)
                  | None \<Rightarrow> Inr t))"

definition CustomHTTPErrorHandler :: "http_error \<Rightarrow> nat \<times> http_error option" where
  "CustomHTTPErrorHandler e =
     (case e of
        HTTPError code _ \<Rightarrow> (code, Some e)
      | Wrapped code _ \<Rightarrow> (code, Some e)
      | Backend_error _ \<Rightarrow> (500, None))"

definition WrapData :: "api_data \<Rightarrow> api_data" where
  "WrapData nested = DataResponse nested"

definition stubbed :: "api_data \<Rightarrow> api_response" where
  "stubbed d = Stubbed \<lparr>vr_ExecutionOptimistic = False, vr_Finalized = False, vr_Data = d\<rparr>"

text \<open>Requests, with the tags that the struct validator reads.\<close>

record StateIDRequest =
  rq_StateID :: bytes

record StateValidatorsRequest = StateIDRequest +
  rq_IDs :: "bytes list"
  rq_Statuses :: "bytes list"

record ValidatorBalancesRequest = StateIDRequest +
  rq_BalanceIDs :: "bytes list"

definition respond :: "err + 'a \<Rightarrow> ('a \<Rightarrow> http_error + api_response) \<Rightarrow> http_error + api_response" where
  "respond r f = (case r of Inl e \<Rightarrow> Inl (Backend_error e) | Inr a \<Rightarrow> f a)"

definition with_params ::
  "http_error + 'r \<Rightarrow> ('r \<Rightarrow> validation) \<Rightarrow> ('r \<Rightarrow> http_error + api_response) \<Rightarrow> http_error + api_response" where
  "with_params bound validate f = (case BindAndValidate bound validate of Inl e \<Rightarrow> Inl e | Inr params \<Rightarrow> f params)"

definition GetGenesis :: "'c Backend \<Rightarrow> http_error + api_response" where
  "GetGenesis rh =
     respond (Backend_GetGenesis rh) (\<lambda>genesisRoot.
       if length genesisRoot = 0 then Inl (HTTPError 404 (ascii ''Chain genesis info is not yet known''))
       else Inr (Plain_data (WrapData (GenesisInfo (ascii ''1590832934'') genesisRoot (ascii ''0x00000000'')))))"

definition GetStateRoot ::
  "'c Backend \<Rightarrow> (StateIDRequest \<Rightarrow> validation) \<Rightarrow> http_error + StateIDRequest \<Rightarrow> http_error + api_response" where
  "GetStateRoot rh validate bound =
     with_params bound validate (\<lambda>params.
     respond (Backend_GetStateRoot rh (rq_StateID params)) (\<lambda>stateRoot.
       if length stateRoot = 0 then Inl (HTTPError 404 (ascii ''State not found''))
       else Inr (stubbed (WrapData (RootInfo stateRoot)))))"

definition GetStateValidators ::
  "'c Backend \<Rightarrow> (StateValidatorsRequest \<Rightarrow> validation) \<Rightarrow> http_error + StateValidatorsRequest \<Rightarrow> http_error + api_response" where
  "GetStateValidators rh validate bound =
     with_params bound validate (\<lambda>params.
       if length (rq_Statuses params) > 0 then Inl ErrNotImplemented
       else respond (Backend_GetStateValidators rh (rq_StateID params) (rq_IDs params) (rq_Statuses params)) (\<lambda>validators.
              if length validators = 0 then Inl (HTTPError 404 (ascii ''State not found''))
              else Inr (stubbed (ValidatorsInfo validators))))"

definition PostStateValidators ::
  "'c Backend \<Rightarrow> (StateValidatorsRequest \<Rightarrow> validation) \<Rightarrow> http_error + StateValidatorsRequest \<Rightarrow> http_error + api_response" where
  "PostStateValidators rh validate bound =
     with_params bound validate (\<lambda>params.
       respond (Backend_GetStateValidators rh (rq_StateID params) (rq_IDs params) (rq_Statuses params)) (\<lambda>validators.
         Inr (stubbed (ValidatorsInfo validators))))"

definition GetStateValidatorBalances ::
  "'c Backend \<Rightarrow> (ValidatorBalancesRequest \<Rightarrow> validation) \<Rightarrow> http_error + ValidatorBalancesRequest \<Rightarrow> http_error + api_response" where
  "GetStateValidatorBalances rh validate bound =
     with_params bound validate (\<lambda>params.
       respond (Backend_GetStateValidatorBalances rh (rq_StateID params) (rq_BalanceIDs params)) (\<lambda>balances.
         Inr (stubbed (BalancesInfo balances))))"

text \<open>The identifiers come from the body, the state from the path; the error of the validator is returned as it is.\<close>

definition PostStateValidatorBalances ::
  "'c Backend \<Rightarrow> (ValidatorBalancesRequest \<Rightarrow> validation) \<Rightarrow> http_error + bytes list \<Rightarrow> http_error + bytes \<Rightarrow>
   http_error + api_response" where
  "PostStateValidatorBalances rh validate body path =
     (case body of
        Inl e \<Rightarrow> Inl e
      | Inr ids \<Rightarrow>
          (case path of
             Inl e \<Rightarrow> Inl e
           | Inr stateID \<Rightarrow>
               (let params = \<lparr>rq_StateID = stateID, rq_BalanceIDs = ids\<rparr> in
                case CustomValidator_Validate (validate params) of
                  Some e \<Rightarrow> Inl e
                | None \<Rightarrow>
                    respond (Backend_GetStateValidatorBalances rh stateID ids) (\<lambda>balances.
                      Inr (stubbed (BalancesInfo balances))))))"

definition GetBlockRewards ::
  "'c Backend \<Rightarrow> (bytes \<Rightarrow> validation) \<Rightarrow> http_error + bytes \<Rightarrow> http_error + api_response" where
  "GetBlockRewards rh validate bound =
     with_params bound validate (\<lambda>blockID.
       respond (Backend_GetBlockRewards rh blockID) (\<lambda>rewards. Inr (stubbed (RewardsInfo rewards))))"

subsection \<open>Queries\<close>

lemma key_text:
  assumes "length k = 48"
  shows "\<exists>e. ParseUint (B48_String k) 10 = Inl e" and "B48_UnmarshalText (replicate 48 0) (B48_String k) = (Inr (), k)"
proof -
  have x: "reverseHexTable 48 = 0" "reverseHexTable 120 = 255" by (simp_all add: reverseHexTable_def)
  show "\<exists>e. ParseUint (B48_String k) 10 = Inl e"
    by (simp add: B48_String_def FromBytes_eq ParseUint_def x)
  show "B48_UnmarshalText (replicate 48 0) (B48_String k) = (Inr (), k)"
    using assms hex_bytes_roundtrip [of k]
    by (simp add: B48_UnmarshalText_def UnmarshalTextHelper_def Bytes_UnmarshalText_def B48_String_def)
qed

text \<open>The texts that name a validator: its index in decimal, or its public key in hexadecimal.\<close>

definition names_validator :: "kv_view \<Rightarrow> bytes \<Rightarrow> u64 \<Rightarrow> bool" where
  "names_validator w txt i \<longleftrightarrow> txt = dec i \<or>
     (\<exists>k. length k = 48 \<and> by_pubkey (v_validators w) k = Some i \<and> txt = B48_String k)"

definition data_of :: "kv_view \<Rightarrow> u64 \<Rightarrow> ValidatorData" where
  "data_of w i = \<lparr>vd_Index = i, vd_Balance = the (map_of (v_balances w) i), vd_Status = ascii ''active'',
     vd_Validator = the (map_of (v_validators w) i)\<rparr>"

lemma getValidatorIndex_named:
  "names_validator w txt i \<Longrightarrow> getValidatorIndex (mem_kv addr) txt w = (Inr i, w)"
  unfolding names_validator_def
proof (elim disjE exE conjE)
  fix k assume k: "length k = 48" "by_pubkey (v_validators w) k = Some i" "txt = B48_String k"
  from key_text [OF k(1)] k(2,3) show "getValidatorIndex (mem_kv addr) txt w = (Inr i, w)"
    by (auto simp: getValidatorIndex_def mem_ops)
qed (simp add: getValidatorIndex_def ParseUint_dec)

lemma mapM_named:
  assumes "list_all2 (\<lambda>x y. f x w = (Inr (g y), w)) xs ys"
  shows "mapM f xs w = (Inr (map g ys), w)"
  using assms by (induction xs ys rule: list_all2_induct) simp_all

lemma query_sim:
  assumes "simulates view (m (be_store h)) m'"
  shows "query h stateID m = fst (m' (view (be_getNewStateDB h stateID)))"
  using simulates_fst [OF assms] by (simp add: query_def)

context kv_laws
begin

lemma getValidatorIndex_sim: "simulates view (getValidatorIndex kv txt) (getValidatorIndex (mem_kv addr) txt)"
  unfolding getValidatorIndex_def
  by (auto simp: split_def intro!: simulation store_sims split: sum.splits)

lemma validator_data_sim: "simulates view (validator_data kv txt) (validator_data (mem_kv addr) txt)"
  unfolding validator_data_def by (intro simulation store_sims getValidatorIndex_sim)

end

text \<open>
  C32. Validators are found by index and by key. If every identifier of a request is the index or the public key of
  a registered validator with a balance, the backend returns the data of these validators in the order of the
  request, whichever form each identifier has, and the balances agree with it. \<open>GET\<close> answers with that data unless
  the request asks for a status or names no validator; \<open>POST\<close> ignores the statuses.
\<close>

theorem api_validators:
  assumes "kv_laws (be_store h) view addr" and "w = view (be_getNewStateDB h stateID)"
    and "list_all2 (names_validator w) ids is"
    and "\<forall>i \<in> set is. i \<in> dom (map_of (v_validators w)) \<and> i \<in> dom (map_of (v_balances w))"
    and "validate \<lparr>rq_StateID = stateID, rq_IDs = ids, rq_Statuses = statuses\<rparr> = Valid"
  shows "Backend_GetStateValidators h stateID ids statuses = Inr (map (data_of w) is) \<and>
    Backend_GetStateValidatorBalances h stateID ids =
      Inr (map (\<lambda>i. \<lparr>vbd_Index = i, vbd_Balance = vd_Balance (data_of w i)\<rparr>) is) \<and>
    GetStateValidators h validate (Inr \<lparr>rq_StateID = stateID, rq_IDs = ids, rq_Statuses = statuses\<rparr>) =
      (if statuses \<noteq> [] then Inl ErrNotImplemented
       else if is = [] then Inl (HTTPError 404 (ascii ''State not found''))
       else Inr (stubbed (ValidatorsInfo (map (data_of w) is)))) \<and>
    PostStateValidators h validate (Inr \<lparr>rq_StateID = stateID, rq_IDs = ids, rq_Statuses = statuses\<rparr>) =
      Inr (stubbed (ValidatorsInfo (map (data_of w) is)))"
proof -
  note K = assms(1)
  have data: "validator_data (mem_kv addr) x w = (Inr (data_of w i), w)"
    and bal: "bindM (getValidatorIndex (mem_kv addr) x) (\<lambda>index. bindM (GetBalance (mem_kv addr) index) (\<lambda>balance.
        ret \<lparr>vbd_Index = index, vbd_Balance = balance\<rparr>)) w =
      (Inr \<lparr>vbd_Index = i, vbd_Balance = vd_Balance (data_of w i)\<rparr>, w)"
    if "names_validator w x i" "i \<in> set is" for x i
    using getValidatorIndex_named [OF that(1)] assms(4) that(2)
    by (auto simp: validator_data_def data_of_def mem_ops)
  have all: "list_all2 (\<lambda>x i. names_validator w x i \<and> i \<in> set is) ids is"
    using assms(3) by (simp add: list_all2_conv_all_nth)
  have "mapM (validator_data (mem_kv addr)) ids w = (Inr (map (data_of w) is), w)"
    by (rule mapM_named, rule list_all2_mono [OF all]) (use data in blast)
  moreover have "simulates view (mapM (validator_data (be_store h)) ids) (mapM (validator_data (mem_kv addr)) ids)"
    by (intro simulation kv_laws.validator_data_sim [OF K])
  ultimately have vs: "Backend_GetStateValidators h stateID ids statuses = Inr (map (data_of w) is)"
    by (simp add: Backend_GetStateValidators_def query_sim assms(2) [symmetric])
  have "mapM (\<lambda>x. bindM (getValidatorIndex (mem_kv addr) x) (\<lambda>index. bindM (GetBalance (mem_kv addr) index) (\<lambda>balance.
        ret \<lparr>vbd_Index = index, vbd_Balance = balance\<rparr>))) ids w =
      (Inr (map (\<lambda>i. \<lparr>vbd_Index = i, vbd_Balance = vd_Balance (data_of w i)\<rparr>) is), w)"
    by (rule mapM_named, rule list_all2_mono [OF all]) (use bal in blast)
  moreover have "simulates view (mapM (\<lambda>x. bindM (getValidatorIndex (be_store h) x) (\<lambda>index.
        bindM (GetBalance (be_store h) index) (\<lambda>balance. ret \<lparr>vbd_Index = index, vbd_Balance = balance\<rparr>))) ids)
      (mapM (\<lambda>x. bindM (getValidatorIndex (mem_kv addr) x) (\<lambda>index. bindM (GetBalance (mem_kv addr) index) (\<lambda>balance.
        ret \<lparr>vbd_Index = index, vbd_Balance = balance\<rparr>))) ids)"
    by (intro simulation kv_laws.getValidatorIndex_sim [OF K] kv_laws.store_sims [OF K])
  ultimately have "Backend_GetStateValidatorBalances h stateID ids =
      Inr (map (\<lambda>i. \<lparr>vbd_Index = i, vbd_Balance = vd_Balance (data_of w i)\<rparr>) is)"
    by (simp add: Backend_GetStateValidatorBalances_def query_sim assms(2) [symmetric])
  with vs assms(5) show ?thesis
    by (cases statuses) (simp_all add: GetStateValidators_def PostStateValidators_def with_params_def BindAndValidate_def
        CustomValidator_Validate_def respond_def)
qed

theorem api_validators_witness:
  "PostStateValidators \<lparr>be_store = mem_kv (take 20), be_getNewStateDB = (\<lambda>_. demo_view)\<rparr> (\<lambda>_. Valid)
     (Inr \<lparr>rq_StateID = ascii ''head'', rq_IDs = [dec 1, B48_String (replicate 48 7)], rq_Statuses = []\<rparr>) =
   Inr (stubbed (ValidatorsInfo
     [\<lparr>vd_Index = 1, vd_Balance = 31000000000, vd_Status = ascii ''active'', vd_Validator = demo_validator 8\<rparr>,
      \<lparr>vd_Index = 0, vd_Balance = 32000000005, vd_Status = ascii ''active'', vd_Validator = demo_validator 7\<rparr>]))"
proof -
  let ?h = "\<lparr>be_store = mem_kv (take 20), be_getNewStateDB = (\<lambda>_. demo_view)\<rparr> :: kv_view Backend"
  have "names_validator demo_view (B48_String (replicate 48 7)) 0"
    by (auto simp: names_validator_def by_pubkey_def demo_validator_def intro!: exI [of _ "replicate 48 7"])
  then have "list_all2 (names_validator demo_view) [dec 1, B48_String (replicate 48 7)] [1, 0]"
    by (simp add: names_validator_def)
  with api_validators [of ?h "\<lambda>w. w" "take 20" demo_view "ascii ''head''" "[dec 1, B48_String (replicate 48 7)]" "[1, 0]"
      "\<lambda>_. Valid" "[]"] mem.kv_laws_axioms [of "take 20"]
  show ?thesis by (simp add: data_of_def)
qed

text \<open>
  The checks of state and block identifiers accept every text: the test for an empty field is inverted, so a
  text that is not empty is accepted at once.
\<close>

theorem identifiers_unchecked: "ValidateStateID value \<and> ValidateBlockID value"
  by (simp add: ValidateStateID_def ValidateBlockID_def validateStateBlockIDs_def fieldEmpty_def validateAllowedStrings_def)

text \<open>
  The state root is looked up at the slot and not at the slot modulo the length of the history: once the slot is
  past the entries of the history the query fails.
\<close>

lemma GetStateRoot_past_history:
  assumes "kv_laws (be_store h) view addr" and "w = view (be_getNewStateDB h stateID)"
    and "v_slot w = Some slot" and "map_of (v_stateRoots w) slot = None"
  shows "Backend_GetStateRoot h stateID = Inl ErrNotFound"
proof -
  have "simulates view (bindM (GetSlot (be_store h)) (\<lambda>slot. StateRootAtIndex (be_store h) slot))
      (bindM (GetSlot (mem_kv addr)) (\<lambda>slot. StateRootAtIndex (mem_kv addr) slot))"
    by (intro simulation kv_laws.store_sims [OF assms(1)])
  then show ?thesis
    using assms(3,4) by (simp add: Backend_GetStateRoot_def query_sim assms(2) [symmetric] mem_ops bindM_def)
qed

end
