(* ===== verification/Serializer.thy ===== *)
theory Serializer
  imports BasicSsz Codecs NodeApi
begin

section \<open>The reflective serializer: \<open>mod/primitives/pkg/ssz/v2/lib\<close>\<close>

text \<open>
  The serializer that encodes any Go value by reflection (\<open>serializer.go\<close>), the computation of sizes from types and
  struct tags (\<open>determine_size.go\<close>) and the interleaving of offsets (\<open>helpers.go\<close>).

  Go's types and values are data. A type is told apart by its kind, by the element type and the fields it has, and,
  where the code converts to a basic type, by its name; a field has a name and perhaps the tag \<open>ssz-size\<close>. A value
  carries its type; nil slices and pointers are \<open>None\<close>. \<open>TOther\<close> stands for the kinds without elements that the
  serializer does not know. Structs without embedded fields are represented, so that \<open>reflect.VisibleFields\<close>
  lists the fields in order. Where reflection panics, so does the model.
\<close>

subsection \<open>Types and values\<close>

datatype uint_kind = U8 | U16 | U32 | U64

datatype uint_name = Builtin | MathU64 | OtherName

type_synonym field = "bytes \<times> bytes option"

datatype gotype =
    TBool bool
  | TUint uint_kind uint_name
  | TInt32
  | TString
  | TOther
  | TSlice gotype
  | TArray nat gotype
  | TPtr gotype
  | TStruct "(field \<times> gotype) list"

datatype goval =
    VBool bool bool
  | VUint uint_kind uint_name u64
  | VInt32
  | VString bytes
  | VOther
  | VSlice gotype "goval list option"
  | VArray gotype "goval list"
  | VPtr gotype "goval option"
  | VStruct "(field \<times> goval) list"

text \<open>The flag of a boolean type says whether it is \<open>bool\<close> itself; so do the names of the unsigned types.\<close>

primrec type_of :: "goval \<Rightarrow> gotype" where
  "type_of (VBool builtin b) = TBool builtin"
| "type_of (VUint k name u) = TUint k name"
| "type_of VInt32 = TInt32"
| "type_of (VString s) = TString"
| "type_of VOther = TOther"
| "type_of (VSlice t vs) = TSlice t"
| "type_of (VArray t vs) = TArray (length vs) t"
| "type_of (VPtr t v) = TPtr t"
| "type_of (VStruct fs) = TStruct (map (map_prod id type_of) fs)"

text \<open>The zero value of a type, \<open>reflect.New(t).Elem()\<close>.\<close>

primrec zero_val :: "gotype \<Rightarrow> goval" where
  "zero_val (TBool builtin) = VBool builtin False"
| "zero_val (TUint k name) = VUint k name 0"
| "zero_val TInt32 = VInt32"
| "zero_val TString = VString []"
| "zero_val TOther = VOther"
| "zero_val (TSlice t) = VSlice t None"
| "zero_val (TArray n t) = VArray t (replicate n (zero_val t))"
| "zero_val (TPtr t) = VPtr t None"
| "zero_val (TStruct fs) = VStruct (map (map_prod id zero_val) fs)"

definition elem_type :: "gotype \<Rightarrow> err + gotype" where
  "elem_type t =
     (case t of TSlice e \<Rightarrow> Inr e | TArray _ e \<Rightarrow> Inr e | TPtr e \<Rightarrow> Inr e
      | _ \<Rightarrow> Inl (Panic ''reflect: Elem of invalid type''))"

definition val_elems :: "goval \<Rightarrow> err + goval list" where
  "val_elems v =
     (case v of VSlice _ None \<Rightarrow> Inr [] | VSlice _ (Some vs) \<Rightarrow> Inr vs | VArray _ vs \<Rightarrow> Inr vs
      | _ \<Rightarrow> Inl (Panic ''reflect: call of Index on this kind''))"

definition val_Len :: "goval \<Rightarrow> err + nat" where
  "val_Len v = (case v of VString s \<Rightarrow> Inr (length s) | _ \<Rightarrow> bindE (val_elems v) (\<lambda>vs. Inr (length vs)))"

definition val_fields :: "goval \<Rightarrow> err + (field \<times> goval) list" where
  "val_fields v = (case v of VStruct fs \<Rightarrow> Inr fs | _ \<Rightarrow> Inl (Panic ''reflect: call of Field on this kind''))"

subsection \<open>Struct tags\<close>

fun split_comma :: "bytes \<Rightarrow> bytes list" where
  "split_comma [] = [[]]"
| "split_comma (c # s) =
     (if c = 44 then [] # split_comma s
      else case split_comma s of [] \<Rightarrow> [[c]] | w # ws \<Rightarrow> (c # w) # ws)"

definition UnboundedSSZFieldSizeMarker :: bytes where
  "UnboundedSSZFieldSizeMarker = ascii ''?''"

definition getSSZFieldTags :: "field \<Rightarrow> bytes list" where
  "getSSZFieldTags f = (case snd f of None \<Rightarrow> [] | Some tag \<Rightarrow> split_comma tag)"

text \<open>The second result of the code, that tags were found, is that the list of sizes is not empty.\<close>

definition parseSSZFieldTags :: "field \<Rightarrow> err + u64 list" where
  "parseSSZFieldTags f =
     mapE (\<lambda>item. if item = UnboundedSSZFieldSizeMarker then Inr 0 else ParseUint item 10) (getSSZFieldTags f)"

definition hasUndefinedSizeTag :: "field \<Rightarrow> bool" where
  "hasUndefinedSizeTag f =
     (if UnboundedSSZFieldSizeMarker \<in> set (getSSZFieldTags f) then True
      else case parseSSZFieldTags f of
             Inl _ \<Rightarrow> True
           | Inr sizes \<Rightarrow> if sizes = [] then True else sum_list sizes \<le> 0)"

definition isBasicType :: "gotype \<Rightarrow> bool" where
  "isBasicType t = (case t of TBool _ \<Rightarrow> True | TUint _ _ \<Rightarrow> True | TInt32 \<Rightarrow> True | _ \<Rightarrow> False)"

definition isFixedSizeType :: "gotype \<Rightarrow> bool" where
  "isFixedSizeType t = (case t of TBool _ \<Rightarrow> True | TUint _ _ \<Rightarrow> True | TInt32 \<Rightarrow> True | _ \<Rightarrow> False)"

fun inner_element :: "nat \<Rightarrow> gotype \<Rightarrow> err + gotype" where
  "inner_element 0 t = Inr t"
| "inner_element (Suc n) t = bindE (elem_type t) (inner_element n)"

fun wrap_sizes :: "u64 list \<Rightarrow> gotype \<Rightarrow> err + gotype" where
  "wrap_sizes [] t = Inr t"
| "wrap_sizes (size' # sizes) t =
     bindE (wrap_sizes sizes t) (\<lambda>currentType.
     if size' = 0 then Inr (TSlice currentType)
     else if 2 ^ 63 \<le> size' then Inl (Panic ''reflect: negative length passed to ArrayOf'')
     else Inr (TArray (unat size') currentType))"

definition inferFieldTypeFromSizeTags :: "gotype \<Rightarrow> u64 list \<Rightarrow> err + gotype" where
  "inferFieldTypeFromSizeTags t sizes =
     (if isFixedSizeType t then Inr t
      else bindE (inner_element (length sizes) t) (wrap_sizes sizes))"

text \<open>An error of the tags is an error; a panic of reflection is a panic.\<close>

definition determineFieldType :: "field \<Rightarrow> gotype \<Rightarrow> err + gotype" where
  "determineFieldType f t =
     bindE (parseSSZFieldTags f) (\<lambda>fieldSizeTags.
     if fieldSizeTags \<noteq> [] \<and> \<not> hasUndefinedSizeTag f then inferFieldTypeFromSizeTags t fieldSizeTags else Inr t)"

definition is_panic :: "err \<Rightarrow> bool" where
  "is_panic e = (case e of Panic _ \<Rightarrow> True | _ \<Rightarrow> False)"

definition skipped :: "field \<Rightarrow> bool" where
  "skipped f \<longleftrightarrow> (\<exists>i < length (fst f). take 4 (drop i (fst f)) = ascii ''XXX_'')"

subsection \<open>Depths, for termination\<close>

primrec tdepth :: "gotype \<Rightarrow> nat" where
  "tdepth (TBool b) = 0"
| "tdepth (TUint k name) = 0"
| "tdepth TInt32 = 0"
| "tdepth TString = 0"
| "tdepth TOther = 0"
| "tdepth (TSlice t) = Suc (tdepth t)"
| "tdepth (TArray n t) = Suc (tdepth t)"
| "tdepth (TPtr t) = Suc (tdepth t)"
| "tdepth (TStruct fs) = Suc (Max (insert 0 (set (map snd (map (map_prod id tdepth) fs)))))"

primrec vdepth :: "goval \<Rightarrow> nat" where
  "vdepth (VBool b c) = 0"
| "vdepth (VUint k name u) = 0"
| "vdepth VInt32 = 0"
| "vdepth (VString s) = 0"
| "vdepth VOther = 0"
| "vdepth (VSlice t vs) = Suc (max (tdepth t) (Max (insert 0 (\<Union> (set_option (map_option (\<lambda>ds. set ds) (map_option (map vdepth) vs)))))))"
| "vdepth (VArray t vs) = Suc (max (tdepth t) (Max (insert 0 (set (map vdepth vs)))))"
| "vdepth (VPtr t v) = Suc (max (tdepth t) (Max (insert 0 (set_option (map_option vdepth v)))))"
| "vdepth (VStruct fs) = Suc (Max (insert 0 (set (map snd (map (map_prod id vdepth) fs)))))"

lemma tdepth_field: "(f, t) \<in> set fs \<Longrightarrow> tdepth t < tdepth (TStruct fs)"
  by (force simp: less_Suc_eq_le intro!: Max_ge)

lemma tdepth_determineFieldType:
  assumes "determineFieldType f t = Inr t'"
  shows "tdepth t' = tdepth t"
proof -
  have inner: "inner_element n t = Inr e \<Longrightarrow> tdepth t = n + tdepth e" for n e
  proof (induction n arbitrary: t)
    case (Suc n)
    then obtain u where "elem_type t = Inr u" "inner_element n u = Inr e" by (auto simp: bindE_Inr)
    with Suc.IH [of u] show ?case by (cases t) (simp_all add: elem_type_def)
  qed simp
  have wrap: "wrap_sizes sizes e = Inr t' \<Longrightarrow> tdepth t' = length sizes + tdepth e" for sizes e
    by (induction sizes arbitrary: t') (auto simp: bindE_Inr split: if_splits)
  show ?thesis
    using assms inner wrap
    by (fastforce simp: determineFieldType_def inferFieldTypeFromSizeTags_def bindE_Inr split: if_splits)
qed

lemma tdepth_typed_field:
  "(f, t) \<in> set fs \<Longrightarrow> determineFieldType f t = Inr t' \<Longrightarrow> tdepth t' < tdepth (TStruct fs)"
  using tdepth_field tdepth_determineFieldType by metis

lemma tdepth_type_of: "tdepth (type_of v) \<le> vdepth v"
proof (induction v)
  case (VStruct fs)
  have "tdepth (type_of v) \<le> Max (insert 0 (vdepth ` snd ` set fs))" if "(f, v) \<in> set fs" for f v
    using VStruct [OF that] that by (intro order.trans [OF _ Max_ge]) force+
  then show ?case by (force simp: image_image intro!: Max.boundedI)
qed auto

lemma typed_depth: "max (vdepth v) (tdepth (type_of v)) = vdepth v"
  using tdepth_type_of by (rule max_absorb1)

lemma vdepth_zero: "vdepth (zero_val t) = tdepth t"
proof (induction t)
  case (TArray n t)
  then show ?case by (cases n) (auto simp: Max_insert2)
next
  case (TStruct fs)
  then have "vdepth (zero_val (snd p)) = tdepth (snd p)" if "p \<in> set fs" for p using that by (metis snds.intros surjective_pairing)
  then show ?case by (simp add: image_image cong: image_cong_simp)
qed auto

lemma vdepth_elem:
  "val_elems v = Inr vs \<Longrightarrow> x \<in> set vs \<Longrightarrow> vdepth x < vdepth v"
  by (auto simp: val_elems_def less_Suc_eq_le split: goval.splits option.splits intro!: max.coboundedI2 Max_ge)

lemma vdepth_fields: "(f, x) \<in> set fs \<Longrightarrow> vdepth x < vdepth (VStruct fs)"
  by (force simp: less_Suc_eq_le intro!: Max_ge)

lemma vdepth_deref: "vdepth x < vdepth (VPtr t (Some x))" "tdepth t < vdepth (VPtr t v)"
  by (auto simp: less_Suc_eq_le)

lemma vdepth_deref_trans: "\<not> vdepth x < Suc d \<Longrightarrow> d < vdepth (VPtr t (Some x))"
  using vdepth_deref(1) [of x t] by linarith

lemma elem_depth:
  assumes "val_elems v = Inr vs" and "x \<in> set vs"
  shows "vdepth x < vdepth v" and "tdepth (type_of x) < vdepth v"
  using vdepth_elem [OF assms] tdepth_type_of [of x] by simp_all

lemma fields_depth:
  assumes "val_fields v = Inr vs" and "(f, x) \<in> set vs"
  shows "vdepth x < vdepth v" and "tdepth (type_of x) < vdepth v"
proof -
  show "vdepth x < vdepth v" using assms by (auto simp: val_fields_def vdepth_fields split: goval.splits simp del: vdepth.simps(9))
  then show "tdepth (type_of x) < vdepth v" using tdepth_type_of [of x] by simp
qed

lemma fields_depth_trans:
  assumes "val_fields v = Inr vs" and "(f, t) \<in> set fs" and "determineFieldType f t = Inr u"
    and "(k, x) \<in> set vs" and "\<not> vdepth x < tdepth (TStruct fs)"
  shows "tdepth u < vdepth v"
  using fields_depth(1) [OF assms(1,4)] tdepth_typed_field [OF assms(2,3)] assms(5) by linarith

lemma bindE_cong [fundef_cong]: "r = r' \<Longrightarrow> (\<And>a. r' = Inr a \<Longrightarrow> f a = g a) \<Longrightarrow> bindE r f = bindE r' g"
  by (cases r') simp_all

lemma mapE_cong [fundef_cong]: "xs = ys \<Longrightarrow> (\<And>x. x \<in> set ys \<Longrightarrow> f x = g x) \<Longrightarrow> mapE f xs = mapE g ys"
  by (induction ys arbitrary: xs) simp_all

subsection \<open>Variable-size types\<close>

definition isBasicTypeArray :: "gotype \<Rightarrow> bool" where
  "isBasicTypeArray t = (case t of TArray _ e \<Rightarrow> isBasicType e | _ \<Rightarrow> False)"

definition isBasicTypeSlice :: "gotype \<Rightarrow> bool" where
  "isBasicTypeSlice t = (case t of TSlice e \<Rightarrow> isBasicType e | _ \<Rightarrow> False)"

definition isBasicTypeSliceOrArr :: "gotype \<Rightarrow> bool" where
  "isBasicTypeSliceOrArr t \<longleftrightarrow> isBasicTypeSlice t \<or> isBasicTypeArray t"

text \<open>The loop over the fields of a struct: a field whose tags do not parse ends it with \<open>false\<close>.\<close>

fun any_field :: "(gotype \<Rightarrow> err + bool) \<Rightarrow> (field \<times> gotype) list \<Rightarrow> err + bool" where
  "any_field p [] = Inr False"
| "any_field p ((f, t) # fs) =
     (if skipped f then any_field p fs
      else case determineFieldType f t of
             Inl e \<Rightarrow> if is_panic e then Inl e else Inr False
           | Inr fType \<Rightarrow> bindE (p fType) (\<lambda>b. if b then Inr True else any_field p fs))"

lemma any_field_cong [fundef_cong]:
  assumes "fs = gs" and "\<And>f t u. (f, t) \<in> set gs \<Longrightarrow> determineFieldType f t = Inr u \<Longrightarrow> p u = q u"
  shows "any_field p fs = any_field q gs"
  using assms(2) unfolding assms(1)
proof (induction gs)
  case (Cons a gs)
  obtain f t where a: "a = (f, t)" by fastforce
  have "any_field p gs = any_field q gs" by (rule Cons.IH) (metis Cons.prems list.set_intros(2))
  with Cons.prems [of f t] show ?case by (auto simp: a intro!: bindE_cong split: sum.splits)
qed simp

function isVariableSizeType :: "gotype \<Rightarrow> err + bool" where
  "isVariableSizeType t =
     (if isBasicType t \<or> isBasicTypeArray t then Inr False
      else case t of
             TSlice _ \<Rightarrow> Inr True
           | TString \<Rightarrow> Inr True
           | TArray _ e \<Rightarrow> isVariableSizeType e
           | TStruct fs \<Rightarrow> any_field isVariableSizeType fs
           | TPtr e \<Rightarrow> isVariableSizeType e
           | _ \<Rightarrow> Inr False)"
  by pat_completeness auto
termination
  by (relation "measure tdepth") (simp_all add: tdepth_typed_field del: tdepth.simps(9))

declare isVariableSizeType.simps [simp del]

lemma isVariableSizeType_kinds [simp]:
  "isVariableSizeType (TBool builtin) = Inr False" "isVariableSizeType (TUint k name) = Inr False"
  "isVariableSizeType (TSlice t) = Inr True"
  "isVariableSizeType (TArray n t) = (if isBasicType t then Inr False else isVariableSizeType t)"
  "isVariableSizeType (TPtr t) = isVariableSizeType t"
  "isVariableSizeType (TStruct fs) = any_field isVariableSizeType fs"
  by (subst isVariableSizeType.simps, simp add: isBasicType_def isBasicTypeArray_def)+

subsection \<open>Sizes\<close>

definition uint_size :: "uint_kind \<Rightarrow> u64" where
  "uint_size k = (case k of U8 \<Rightarrow> 1 | U16 \<Rightarrow> 2 | U32 \<Rightarrow> 4 | U64 \<Rightarrow> 8)"

definition is_uint8 :: "gotype \<Rightarrow> bool" where
  "is_uint8 t = (case t of TUint U8 _ \<Rightarrow> True | _ \<Rightarrow> False)"

definition sumE :: "('a \<Rightarrow> err + u64) \<Rightarrow> 'a list \<Rightarrow> err + u64" where
  "sumE f xs = bindE (mapE f xs) (\<lambda>ns. Inr (sum_list ns))"

lemma sumE_cong [fundef_cong]: "xs = ys \<Longrightarrow> (\<And>x. x \<in> set ys \<Longrightarrow> f x = g x) \<Longrightarrow> sumE f xs = sumE g ys"
  by (simp add: sumE_def cong: mapE_cong)

text \<open>
  The loop over the fields of a struct and of its type. A field whose tags do not parse makes the size
  of the whole struct zero; the fields after it are not looked at.
\<close>

fun field_sizes ::
  "(gotype \<Rightarrow> goval \<Rightarrow> err + u64) \<Rightarrow> u64 \<Rightarrow> (field \<times> gotype) list \<Rightarrow> (field \<times> goval) list \<Rightarrow> err + u64" where
  "field_sizes g totalSize [] vs = Inr totalSize"
| "field_sizes g totalSize ((f, t) # fs) [] = Inl (Panic ''reflect: Field index out of range'')"
| "field_sizes g totalSize ((f, t) # fs) ((_, v) # vs) =
     (if skipped f then field_sizes g totalSize fs vs
      else case determineFieldType f t of
             Inl e \<Rightarrow> if is_panic e then Inl e else Inr 0
           | Inr fType \<Rightarrow> bindE (g fType v) (\<lambda>n. field_sizes g (totalSize + n) fs vs))"

lemma field_sizes_cong [fundef_cong]:
  assumes "fs = gs" and "vs = ws" and "n = m"
    and "\<And>f t u k v. (f, t) \<in> set gs \<Longrightarrow> determineFieldType f t = Inr u \<Longrightarrow> (k, v) \<in> set ws \<Longrightarrow> g u v = h u v"
  shows "field_sizes g n fs vs = field_sizes h m gs ws"
  using assms(4) unfolding assms(1-3)
proof (induction gs arbitrary: m ws)
  case (Cons a gs)
  obtain f t where a: "a = (f, t)" by fastforce
  show ?case
  proof (cases ws)
    case (Cons b ws')
    obtain k v where b: "b = (k, v)" by fastforce
    have "field_sizes g n gs ws' = field_sizes h n gs ws'" for n
      by (rule Cons.IH) (metis Cons.prems local.Cons list.set_intros(2))
    with Cons.prems [of f t _ k v] show ?thesis by (auto simp: a b local.Cons intro!: bindE_cong split: sum.splits)
  qed (simp add: a)
qed simp

datatype size_mode = MDetermine | MFixed | MVariable

text \<open>
  \<open>DetermineSize\<close>, \<open>determineFixedSize\<close> and \<open>determineVariableSize\<close> call each other; one function
  with a mode. The type is that of the value, or the one inferred from the tags of a field.
\<close>

function size_of :: "size_mode \<Rightarrow> goval \<Rightarrow> gotype \<Rightarrow> err + u64" where
  "size_of MDetermine val typ =
     (case val of
        VPtr e None \<Rightarrow> size_of MDetermine (zero_val e) e
      | VPtr e (Some x) \<Rightarrow> size_of MDetermine x (type_of x)
      | _ \<Rightarrow> bindE (isVariableSizeType (type_of val)) (\<lambda>b. size_of (if b then MVariable else MFixed) val (type_of val)))"
| "size_of MFixed val typ =
     (case typ of
        TBool _ \<Rightarrow> Inr 1
      | TUint k _ \<Rightarrow> Inr (uint_size k)
      | TInt32 \<Rightarrow> Inr 4
      | TArray _ e \<Rightarrow>
          if is_uint8 e then bindE (val_Len val) (\<lambda>n. Inr (of_nat n))
          else bindE (val_elems val) (\<lambda>vs. sumE (\<lambda>x. size_of MFixed x e) vs)
      | TSlice e \<Rightarrow>
          if is_uint8 e then bindE (val_Len val) (\<lambda>n. Inr (of_nat n))
          else bindE (val_elems val) (\<lambda>vs. sumE (\<lambda>x. size_of MFixed x e) vs)
      | TStruct fs \<Rightarrow> bindE (val_fields val) (\<lambda>vs. field_sizes (\<lambda>t v. size_of MFixed v t) 0 fs vs)
      | TPtr e \<Rightarrow>
          (case val of
             VPtr _ None \<Rightarrow> size_of MVariable (zero_val e) e
           | VPtr _ (Some x) \<Rightarrow> size_of MFixed x e
           | _ \<Rightarrow> Inl (Panic ''reflect: call of IsNil on this kind''))
      | _ \<Rightarrow> Inr 0)"
| "size_of MVariable val typ =
     (case typ of
        TString \<Rightarrow> bindE (val_Len val) (\<lambda>n. Inr (of_nat n))
      | TSlice e \<Rightarrow>
          if is_uint8 e then bindE (val_Len val) (\<lambda>n. Inr (of_nat n))
          else bindE (val_elems val) (\<lambda>vs. sumE (\<lambda>x.
                 bindE (size_of MDetermine x (type_of x)) (\<lambda>n.
                 bindE (isVariableSizeType e) (\<lambda>b. Inr (if b then n + 4 else n)))) vs)
      | TArray _ e \<Rightarrow>
          if is_uint8 e then bindE (val_Len val) (\<lambda>n. Inr (of_nat n))
          else bindE (val_elems val) (\<lambda>vs. sumE (\<lambda>x.
                 bindE (size_of MDetermine x (type_of x)) (\<lambda>n.
                 bindE (isVariableSizeType e) (\<lambda>b. Inr (if b then n + 4 else n)))) vs)
      | TStruct fs \<Rightarrow>
          bindE (val_fields val) (\<lambda>vs. field_sizes (\<lambda>t v.
            bindE (isVariableSizeType t) (\<lambda>b.
            if b then bindE (size_of MVariable v t) (\<lambda>n. Inr (n + 4)) else size_of MFixed v t)) 0 fs vs)
      | TPtr e \<Rightarrow>
          (case val of
             VPtr _ None \<Rightarrow> size_of MVariable (zero_val e) e
           | VPtr _ (Some x) \<Rightarrow> size_of MVariable x (type_of x)
           | _ \<Rightarrow> Inl (Panic ''reflect: call of IsNil on this kind''))
      | _ \<Rightarrow> Inr 0)"
  by pat_completeness auto
termination
proof (relation "measures [\<lambda>(m, v, t). if m = MDetermine then vdepth v else max (vdepth v) (tdepth t),
    \<lambda>(m, v, t). if m = MDetermine then 1 else 0]", goal_cases)
qed (auto simp: vdepth_zero vdepth_deref typed_depth less_max_iff_disj intro: vdepth_deref_trans fields_depth_trans
    dest: tdepth_typed_field elem_depth fields_depth simp del: tdepth.simps(9) type_of.simps vdepth.simps)

declare size_of.simps [simp del]

lemma size_of_kinds [simp]:
  "size_of MDetermine (VBool builtin b) typ = Inr 1"
  "size_of MDetermine (VUint k name u) typ = Inr (uint_size k)"
  "size_of MDetermine (VPtr t (Some v)) typ = size_of MDetermine v (type_of v)"
  "isBasicType t \<Longrightarrow> is_uint8 t \<Longrightarrow> size_of MDetermine (VArray t vs) typ = Inr (of_nat (length vs))"
  by (subst size_of.simps, simp, (subst size_of.simps)?, simp add: val_Len_def val_elems_def)+

definition DetermineSize :: "goval \<Rightarrow> err + u64" where
  "DetermineSize val = size_of MDetermine val (type_of val)"

definition determineFixedSize :: "goval \<Rightarrow> gotype \<Rightarrow> err + u64" where
  "determineFixedSize = size_of MFixed"

definition determineVariableSize :: "goval \<Rightarrow> gotype \<Rightarrow> err + u64" where
  "determineVariableSize = size_of MVariable"

definition is_list_kind :: "goval \<Rightarrow> bool" where
  "is_list_kind v = (case v of VSlice _ _ \<Rightarrow> True | VArray _ _ \<Rightarrow> True | _ \<Rightarrow> False)"

text \<open>Lengths are \<open>int\<close>s; their product wraps around.\<close>

fun GetNestedArrayLength :: "goval \<Rightarrow> err + u64" where
  "GetNestedArrayLength (VSlice t None) = Inr 0"
| "GetNestedArrayLength (VSlice t (Some [])) = Inr 0"
| "GetNestedArrayLength (VSlice t (Some (v # vs))) =
     bindE (GetNestedArrayLength v) (\<lambda>elementLength. Inr (of_nat (length (v # vs)) * elementLength))"
| "GetNestedArrayLength (VArray t []) = Inr 0"
| "GetNestedArrayLength (VArray t (v # vs)) =
     bindE (GetNestedArrayLength v) (\<lambda>elementLength. Inr (of_nat (length (v # vs)) * elementLength))"
| "GetNestedArrayLength val = DetermineSize val"

fun nesting :: "goval \<Rightarrow> err + nat" where
  "nesting (VSlice t None) = Inl (Panic ''reflect: slice index out of range'')"
| "nesting (VSlice t (Some [])) = Inl (Panic ''reflect: slice index out of range'')"
| "nesting (VSlice t (Some (v # vs))) = bindE (nesting v) (\<lambda>n. Inr (Suc n))"
| "nesting (VArray t []) = Inl (Panic ''reflect: array index out of range'')"
| "nesting (VArray t (v # vs)) = bindE (nesting v) (\<lambda>n. Inr (Suc n))"
| "nesting val = Inr 0"

definition GetArrayDimensionality :: "goval \<Rightarrow> err + nat" where
  "GetArrayDimensionality val =
     bindE (val_Len val) (\<lambda>n. if n = 0 \<and> isBasicTypeSliceOrArr (type_of val) then Inr 1 else nesting val)"

definition IsStruct :: "gotype \<Rightarrow> goval \<Rightarrow> err + bool" where
  "IsStruct typ val =
     (case typ of
        TStruct _ \<Rightarrow> Inr True
      | TPtr _ \<Rightarrow>
          (case val of VPtr _ (Some (VStruct _)) \<Rightarrow> Inr True | VPtr _ _ \<Rightarrow> Inr False
           | _ \<Rightarrow> Inl (Panic ''reflect: call of Elem on this kind''))
      | _ \<Rightarrow> Inr False)"

text \<open>
  The fields that \<open>IterStructFields\<close> calls back with. For a value that is not a struct it reads the first entry of
  an empty list.
\<close>

definition IterStructFields :: "goval \<Rightarrow> err + (field \<times> goval) list" where
  "IterStructFields val =
     bindE (IsStruct (type_of val) val) (\<lambda>b.
     if \<not> b then Inl (Panic ''index out of range'')
     else case val of VPtr _ (Some v) \<Rightarrow> val_fields v | _ \<Rightarrow> val_fields val)"

definition CalculateBufferSizeForStruct :: "goval \<Rightarrow> err + u64" where
  "CalculateBufferSizeForStruct val = bindE (IterStructFields val) (sumE (\<lambda>(f, v). DetermineSize v))"

subsection \<open>Interleaving of offsets\<close>

definition BytesPerLengthOffset :: nat where
  "BytesPerLengthOffset = 4"

definition BitsPerByte :: nat where
  "BitsPerByte = 8"

definition IsUintLike :: "gotype \<Rightarrow> bool" where
  "IsUintLike t = (case t of TUint _ _ \<Rightarrow> True | _ \<Rightarrow> False)"

definition RouteUint :: "goval \<Rightarrow> err + bytes" where
  "RouteUint val =
     (case val of
        VUint U8 Builtin u \<Rightarrow> Inr (MarshalU8 (ucast u))
      | VUint U16 Builtin u \<Rightarrow> Inr (MarshalU16 (ucast u))
      | VUint U32 Builtin u \<Rightarrow> Inr (MarshalU32 (ucast u))
      | VUint U64 MathU64 u \<Rightarrow> Inr (U64_MarshalSSZ u)
      | VUint U64 Builtin u \<Rightarrow> Inr (MarshalU64 u)
      | VUint _ _ _ \<Rightarrow> Inl (Panic ''interface conversion'')
      | _ \<Rightarrow> Inr [])"

text \<open>A hole of the fixed parts, nil in the code, is \<open>None\<close>. Lengths are those of slices in memory, whose sum is an \<open>int\<close>.\<close>

fun running_offsets :: "nat \<Rightarrow> nat list \<Rightarrow> bytes list" where
  "running_offsets offsetSum [] = []"
| "running_offsets offsetSum (n # ns) =
     MarshalU32 (of_nat (offsetSum + n)) # running_offsets (offsetSum + n) ns"

definition InterleaveOffsets ::
  "bytes option list \<Rightarrow> nat list \<Rightarrow> bytes list \<Rightarrow> nat list \<Rightarrow> err + bytes" where
  "InterleaveOffsets fixedParts fixedLengths variableParts variableLengths =
     (if 2 ^ (BytesPerLengthOffset * BitsPerByte) \<le> sum_list fixedLengths + sum_list variableLengths
      then Inl (Newf ''total length exceeds allowable limit'')
      else if length variableLengths \<noteq> length variableParts \<or> length variableParts < length fixedParts
      then Inl (Newf ''variableParts & variableLengths must be same length'')
      else
        let variableOffsets = running_offsets (sum_list fixedLengths) variableLengths;
            fixedPartsWithOffsets = map (\<lambda>(part, offset). case part of None \<Rightarrow> offset | Some bz \<Rightarrow> bz)
              (zip fixedParts variableOffsets)
        in Inr (concat (fixedPartsWithOffsets @ variableParts)))"

definition SafeCopyBuffer :: "bytes \<Rightarrow> bytes \<Rightarrow> nat \<Rightarrow> err + bytes" where
  "SafeCopyBuffer res buf startOffset =
     (if length buf < startOffset then Inl (Panic ''slice bounds out of range'')
      else if length res \<noteq> length buf then Inr (take startOffset buf @ res)
      else Inr (take startOffset buf @ take (length buf - startOffset) res))"

subsection \<open>The serializer\<close>

text \<open>
  A call that returns gives bytes and perhaps an error, since some callers use the bytes of a failed call; a call
  that panics gives the panic.
\<close>

type_synonym marshalled = "bytes \<times> err option"

record parts =
  fixedParts :: "bytes option list"
  fixedLengths :: "nat list"
  variableParts :: "bytes list"
  variableLengths :: "nat list"
  errCheck :: "err list"

definition no_parts :: parts where
  "no_parts = \<lparr>fixedParts = [], fixedLengths = [], variableParts = [], variableLengths = [], errCheck = []\<rparr>"

definition MarshalFixedSizeParts :: "marshalled \<Rightarrow> parts \<Rightarrow> parts" where
  "MarshalFixedSizeParts r ps =
     (case snd r of
        Some e \<Rightarrow> ps\<lparr>errCheck := errCheck ps @ [e]\<rparr>
      | None \<Rightarrow> ps\<lparr>fixedParts := fixedParts ps @ [Some (fst r)],
                   fixedLengths := fixedLengths ps @
                     [if 0 < length (fst r) then length (fst r) else BytesPerLengthOffset]\<rparr>)"

definition MarshalVariableSizeParts :: "marshalled \<Rightarrow> parts \<Rightarrow> parts" where
  "MarshalVariableSizeParts r ps =
     (case snd r of
        Some e \<Rightarrow> ps\<lparr>errCheck := errCheck ps @ [e]\<rparr>
      | None \<Rightarrow> ps\<lparr>variableParts := variableParts ps @ [fst r],
                   variableLengths := variableLengths ps @ [length (fst r)]\<rparr>)"

text \<open>
  One field of a struct or one member of a list, with the bytes that serializing it gave. A struct has a hole for a
  variable field, a list has none.
\<close>

definition process_part :: "bool \<Rightarrow> bool \<times> marshalled \<Rightarrow> parts \<Rightarrow> parts" where
  "process_part holes vr ps =
     (let (variable, r) = vr in
      if variable then
        let ps' = MarshalVariableSizeParts r ps
        in ps'\<lparr>fixedParts := fixedParts ps' @ (if holes then [None] else []),
               fixedLengths := fixedLengths ps' @ [BytesPerLengthOffset]\<rparr>
      else
        let ps' = MarshalFixedSizeParts r ps
        in ps'\<lparr>variableParts := variableParts ps' @ [[]], variableLengths := variableLengths ps' @ [0]\<rparr>)"

definition joined :: "parts \<Rightarrow> bytes \<Rightarrow> nat \<Rightarrow> err + marshalled" where
  "joined ps buf startOffset =
     (case errCheck ps of
        e # _ \<Rightarrow> Inr (buf, Some e)
      | [] \<Rightarrow>
          (case InterleaveOffsets (fixedParts ps) (fixedLengths ps) (variableParts ps) (variableLengths ps) of
             Inl e \<Rightarrow> Inr (buf, Some e)
           | Inr res \<Rightarrow> bindE (SafeCopyBuffer res buf startOffset) (\<lambda>b. Inr (b, None))))"

definition field_results :: "(goval \<Rightarrow> err + marshalled) \<Rightarrow> (field \<times> goval) list \<Rightarrow> err + (bool \<times> marshalled) list" where
  "field_results marshal fs =
     mapE (\<lambda>(f, v).
       bindE (if hasUndefinedSizeTag f then isVariableSizeType (type_of v) else Inr False) (\<lambda>variable.
       bindE (marshal v) (\<lambda>r. Inr (variable, r)))) fs"

definition MarshalStruct :: "(goval \<Rightarrow> err + marshalled) \<Rightarrow> goval \<Rightarrow> gotype \<Rightarrow> bytes \<Rightarrow> nat \<Rightarrow> err + marshalled" where
  "MarshalStruct marshal val typ buf startOffset =
     bindE (IsStruct typ val) (\<lambda>b.
     if \<not> b then Inr (buf, Some (Newf ''input is not a struct''))
     else
       bindE (IterStructFields val) (\<lambda>fs.
       bindE (field_results marshal fs) (\<lambda>rs.
       joined (fold (process_part True) rs no_parts) buf startOffset)))"

definition MarshalComposite :: "(goval \<Rightarrow> err + marshalled) \<Rightarrow> goval \<Rightarrow> gotype \<Rightarrow> bytes \<Rightarrow> nat \<Rightarrow> err + marshalled" where
  "MarshalComposite marshal val typ buf startOffset =
     bindE (val_elems val) (\<lambda>vs.
     bindE (mapE (\<lambda>v.
         bindE (isVariableSizeType (type_of v)) (\<lambda>variable.
         bindE (marshal v) (\<lambda>r. Inr (variable, r)))) vs) (\<lambda>rs.
     joined (fold (process_part False) rs no_parts) buf startOffset))"

definition val_uint :: "goval \<Rightarrow> err + u64" where
  "val_uint v = (case v of VUint _ _ u \<Rightarrow> Inr u | _ \<Rightarrow> Inl (Panic ''reflect: call of Uint on this kind''))"

text \<open>A nil slice has no length in its type: \<open>typ.Len()\<close> panics.\<close>

definition MarshalByteArray :: "goval \<Rightarrow> gotype \<Rightarrow> bytes \<Rightarrow> nat \<Rightarrow> err + marshalled" where
  "MarshalByteArray val typ buf startOffset =
     (case val of
        VArray _ vs \<Rightarrow>
          bindE (mapE val_uint vs) (\<lambda>us.
          if us \<noteq> [] \<and> length buf < startOffset + length us then Inl (Panic ''index out of range'')
          else Inr (take startOffset buf @ map ucast us @ drop (startOffset + length us) buf, None))
      | VSlice _ None \<Rightarrow>
          (case typ of
             TArray n _ \<Rightarrow>
               if length buf < startOffset then Inl (Panic ''slice bounds out of range'')
               else Inr (take startOffset buf @ take (length buf - startOffset) (replicate n 0) @ drop (startOffset + n) buf, None)
           | _ \<Rightarrow> Inl (Panic ''reflect: Len of non-array type''))
      | VSlice _ (Some vs) \<Rightarrow>
          bindE (mapE val_uint vs) (\<lambda>us.
          if length buf < startOffset then Inl (Panic ''slice bounds out of range'')
          else Inr (take startOffset buf @ take (length buf - startOffset) (map ucast us) @ drop (startOffset + length us) buf, None))
      | _ \<Rightarrow> Inl (Panic ''reflect: call of IsNil on this kind''))"

text \<open>The elements that \<open>SerializeRecursive\<close> calls back with, from left to right.\<close>

primrec SerializeRecursive :: "goval \<Rightarrow> goval list" where
  "SerializeRecursive (VBool builtin b) = [VBool builtin b]"
| "SerializeRecursive (VUint k name u) = [VUint k name u]"
| "SerializeRecursive VInt32 = [VInt32]"
| "SerializeRecursive (VString s) = [VString s]"
| "SerializeRecursive VOther = [VOther]"
| "SerializeRecursive (VSlice t vs) =
     (case map_option (map SerializeRecursive) vs of None \<Rightarrow> [] | Some ls \<Rightarrow> concat ls)"
| "SerializeRecursive (VArray t vs) = concat (map SerializeRecursive vs)"
| "SerializeRecursive (VPtr t v) = [VPtr t v]"
| "SerializeRecursive (VStruct fs) = [VStruct fs]"

text \<open>The errors of the elements are collected and not looked at; what they returned is kept.\<close>

definition MarshalNDimensionalArray :: "(goval \<Rightarrow> err + marshalled) \<Rightarrow> goval \<Rightarrow> err + marshalled" where
  "MarshalNDimensionalArray marshal val =
     (if \<not> is_list_kind val then Inr ([], Some (Newf ''input is not an array or slice''))
      else
        bindE (GetArrayDimensionality val) (\<lambda>dimensionality.
        if dimensionality = 0 then Inr ([], Some (Newf ''zero-dimensional array provided''))
        else
          bindE (GetNestedArrayLength val) (\<lambda>totalElements.
          if totalElements = 0 then Inr ([], None)
          else
            bindE (mapE marshal (SerializeRecursive val)) (\<lambda>rs.
            let buffer = concat (map fst rs) in
            if 0 < length buffer then Inr (buffer, None)
            else Inr ([], Some (Newf ''got empty buffer in MarshalNDimensionalArray''))))))"

definition make_bytes :: "u64 \<Rightarrow> err + bytes" where
  "make_bytes n = (if 2 ^ 63 \<le> n then Inl (Panic ''makeslice: len out of range'') else Inr (replicate (unat n) 0))"

definition MarshalToDefaultBuffer ::
  "goval \<Rightarrow> gotype \<Rightarrow> (goval \<Rightarrow> gotype \<Rightarrow> bytes \<Rightarrow> nat \<Rightarrow> err + marshalled) \<Rightarrow> err + marshalled" where
  "MarshalToDefaultBuffer val typ cb =
     bindE (IsStruct typ val) (\<lambda>b.
     bindE (if b then CalculateBufferSizeForStruct val
            else if is_list_kind val then GetNestedArrayLength val
            else bindE (val_Len val) (\<lambda>n. Inr (of_nat n))) (\<lambda>aLen.
     bindE (make_bytes aLen) (\<lambda>buf. cb val typ buf 0)))"

definition IsNDimensionalSliceLike :: "gotype \<Rightarrow> bool" where
  "IsNDimensionalSliceLike t = (case t of TSlice (TSlice _) \<Rightarrow> True | _ \<Rightarrow> False)"

definition is_struct_type :: "gotype \<Rightarrow> bool" where
  "is_struct_type t = (case t of TStruct _ \<Rightarrow> True | _ \<Rightarrow> False)"

definition not_serializable :: marshalled where
  "not_serializable = ([], Some (Newf ''type is not serializable''))"

definition marshal_list :: "(goval \<Rightarrow> err + marshalled) \<Rightarrow> goval \<Rightarrow> gotype \<Rightarrow> err + marshalled" where
  "marshal_list marshal val t =
     (if is_uint8 t then MarshalToDefaultBuffer val (type_of val) MarshalByteArray
      else if isBasicType t then MarshalNDimensionalArray marshal val
      else
        bindE (isVariableSizeType (type_of val)) (\<lambda>b.
        bindE (if b then Inr True else isVariableSizeType t) (\<lambda>variable.
        if variable then MarshalToDefaultBuffer val (type_of val) (MarshalComposite marshal)
        else if IsNDimensionalSliceLike (type_of val) then MarshalNDimensionalArray marshal val
        else if is_struct_type t then MarshalToDefaultBuffer val (type_of val) (MarshalStruct marshal)
        else Inr not_serializable)))"

text \<open>One call of \<open>MarshalSSZ\<close>, with the calls it makes for the parts of the value.\<close>

definition marshal_value :: "(goval \<Rightarrow> err + marshalled) \<Rightarrow> goval \<Rightarrow> err + marshalled" where
  "marshal_value marshal c =
     (if IsUintLike (type_of c) then bindE (RouteUint c) (\<lambda>bz. Inr (bz, None))
      else case c of
             VBool builtin b \<Rightarrow> if builtin then Inr (MarshalBool b, None) else Inl (Panic ''interface conversion'')
           | VSlice t _ \<Rightarrow> marshal_list marshal c t
           | VArray t _ \<Rightarrow> marshal_list marshal c t
           | VPtr t _ \<Rightarrow>
               if is_struct_type t then MarshalToDefaultBuffer c (type_of c) (MarshalStruct marshal) else Inr not_serializable
           | VStruct _ \<Rightarrow> MarshalToDefaultBuffer c (type_of c) (MarshalStruct marshal)
           | _ \<Rightarrow> Inr not_serializable)"

lemma leaves_smaller:
  "is_list_kind v \<Longrightarrow> x \<in> set (SerializeRecursive v) \<Longrightarrow> vdepth x < vdepth v"
proof (induction v arbitrary: x)
  case (VSlice t vs)
  then obtain ws w where w: "vs = Some ws" "w \<in> set ws" "x \<in> set (SerializeRecursive w)"
    by (auto split: option.splits)
  then have "vdepth w < vdepth (VSlice t vs)" by (intro vdepth_elem) (auto simp: val_elems_def)
  moreover have "vdepth x \<le> vdepth w"
    using VSlice.IH [of ws w x] w by (cases w) (auto simp: is_list_kind_def)
  ultimately show ?case by simp
next
  case (VArray t vs)
  then obtain w where w: "w \<in> set vs" "x \<in> set (SerializeRecursive w)" by auto
  then have "vdepth w < vdepth (VArray t vs)" by (intro vdepth_elem) (auto simp: val_elems_def)
  moreover have "vdepth x \<le> vdepth w"
    using VArray.IH [of w x] w by (cases w) (auto simp: is_list_kind_def)
  ultimately show ?case by simp
qed (simp_all add: is_list_kind_def)

lemma IterStructFields_smaller:
  assumes "IterStructFields val = Inr fs" and "(f, x) \<in> set fs"
  shows "vdepth x < vdepth val"
proof -
  consider t v where "val = VPtr t (Some v)" "val_fields v = Inr fs" | "val_fields val = Inr fs"
    using assms(1) by (auto simp: IterStructFields_def bindE_Inr split: goval.splits option.splits if_splits)
  then show ?thesis
  proof cases
    case 1
    then show ?thesis using fields_depth(1) [OF 1(2) assms(2)] vdepth_deref(1) [of v t] by simp
  qed (rule fields_depth(1) [OF _ assms(2)])
qed

lemma marshal_value_cong [fundef_cong]:
  assumes "c = c'" and same: "\<And>x. vdepth x < vdepth c' \<Longrightarrow> m x = m' x"
  shows "marshal_value m c = marshal_value m' c'"
proof -
  have nd: "MarshalNDimensionalArray m c' = MarshalNDimensionalArray m' c'"
    using same leaves_smaller by (auto simp: MarshalNDimensionalArray_def intro!: bindE_cong mapE_cong)
  have "MarshalComposite m c' u buf n = MarshalComposite m' c' u buf n" for u buf n
    using same vdepth_elem by (auto simp: MarshalComposite_def intro!: bindE_cong mapE_cong)
  then have composite: "MarshalToDefaultBuffer c' u (MarshalComposite m) = MarshalToDefaultBuffer c' u (MarshalComposite m')" for u
    by (simp add: MarshalToDefaultBuffer_def)
  have "MarshalStruct m c' u buf n = MarshalStruct m' c' u buf n" for u buf n
    using same IterStructFields_smaller by (auto simp: MarshalStruct_def field_results_def intro!: bindE_cong mapE_cong)
  then have struct: "MarshalToDefaultBuffer c' u (MarshalStruct m) = MarshalToDefaultBuffer c' u (MarshalStruct m')" for u
    by (simp add: MarshalToDefaultBuffer_def)
  have "marshal_list m c' t = marshal_list m' c' t" for t unfolding marshal_list_def nd composite struct by (rule refl)
  then show ?thesis by (simp only: assms(1) marshal_value_def struct)
qed

function MarshalSSZ :: "goval \<Rightarrow> err + marshalled" where
  "MarshalSSZ c = marshal_value MarshalSSZ c"
  by pat_completeness auto
termination
  by (relation "measure vdepth") simp_all

declare MarshalSSZ.simps [simp del]

text \<open>
  \<open>Marshal\<close> appends to a slice that it does not hand back. \<open>beyond\<close> is what lies behind the end of \<open>input\<close>, up to its
  capacity: the encoding is written there if it fits, and nowhere that the caller sees otherwise. The result is the
  next offset, the error, and the bytes of \<open>input\<close> and \<open>beyond\<close>.
\<close>

definition Marshal ::
  "goval \<Rightarrow> gotype \<Rightarrow> bytes \<Rightarrow> bytes \<Rightarrow> u64 \<Rightarrow> err + (u64 \<times> err option \<times> bytes \<times> bytes)" where
  "Marshal val typ input beyond startOffset =
     bindE (MarshalSSZ val) (\<lambda>(marshalled, e).
     case e of
       Some e' \<Rightarrow> Inr (startOffset, Some e', input, beyond)
     | None \<Rightarrow>
         bindE (isVariableSizeType typ) (\<lambda>b.
         bindE (if b then determineVariableSize val typ else determineFixedSize val typ) (\<lambda>size'.
         if length input < unat startOffset then Inl (Panic ''slice bounds out of range'')
         else Inr (startOffset + size', None, input,
           if length marshalled \<le> length beyond then marshalled @ drop (length marshalled) beyond else beyond))))"

definition UnmarshalByteArray :: "bytes \<Rightarrow> bytes \<Rightarrow> u64 \<Rightarrow> err + bytes \<times> u64" where
  "UnmarshalByteArray input beyond startOffset =
     (let offset = startOffset + of_nat (length input) in
      if length (input @ beyond) < unat offset \<or> offset < startOffset then Inl (Panic ''slice bounds out of range'')
      else Inr (take (unat (offset - startOffset)) (drop (unat startOffset) (input @ beyond)), offset))"

subsection \<open>What a struct is encoded to\<close>

text \<open>
  A field is given by whether it is of variable size and by its encoding. SSZ puts the offset of a variable field in
  the fixed part: the length of the fixed part and of the variable fields before it. \<open>heads k\<close> adds to the offset \<open>k\<close>
  times the length of the field itself: SSZ has \<open>k = 0\<close>.
\<close>

type_synonym part = "bool \<times> bytes"

fun heads :: "nat \<Rightarrow> nat \<Rightarrow> part list \<Rightarrow> bytes" where
  "heads k offset [] = []"
| "heads k offset ((variable, bz) # ps) =
     (if variable then MarshalU32 (of_nat (offset + k * length bz)) @ heads k (offset + length bz) ps
      else bz @ heads k offset ps)"

definition head_length :: "part list \<Rightarrow> nat" where
  "head_length ps = sum_list (map (\<lambda>(variable, bz). if variable then 4 else length bz) ps)"

definition tails :: "part list \<Rightarrow> bytes" where
  "tails ps = concat (map snd (filter fst ps))"

definition ssz_container :: "part list \<Rightarrow> bytes" where
  "ssz_container ps = heads 0 (head_length ps) ps @ tails ps"

definition serialized_container :: "part list \<Rightarrow> bytes" where
  "serialized_container ps = heads 1 (head_length ps) ps @ tails ps"

definition returned :: "part \<Rightarrow> bool \<times> marshalled" where
  "returned p = (fst p, snd p, None)"

lemma length_MarshalU32 [simp]: "length (MarshalU32 w) = 4"
  by (simp add: MarshalU32_def)

lemma MarshalU32_eq_iff [simp]: "MarshalU32 v = MarshalU32 w \<longleftrightarrow> v = w"
  using scalars_roundtrip by (metis append_Nil2 sum.inject(2))

lemma length_heads: "length (heads k offset ps) = head_length ps"
  by (induction k offset ps rule: heads.induct) (simp_all add: head_length_def)

lemma heads_eq_iff:
  assumes "offset + length (tails ps) < 2 ^ 32"
  shows "heads 1 offset ps = heads 0 offset ps \<longleftrightarrow> tails ps = []"
  using assms
proof (induction ps arbitrary: offset)
  case (Cons p ps)
  obtain variable bz where p: "p = (variable, bz)" by fastforce
  show ?case
  proof (cases variable)
    case True
    then have "offset + length bz + length (tails ps) < 2 ^ 32" using Cons.prems by (simp add: p tails_def)
    then have "(of_nat (offset + length bz) :: 32 word) = of_nat offset \<longleftrightarrow> bz = []"
      by (auto simp: word_unat_eq_iff unat_of_nat take_bit_eq_mod simp del: of_nat_add)
    with True Cons.IH [of "offset + length bz"] Cons.prems show ?thesis by (auto simp: p tails_def)
  next
    case False
    then show ?thesis using Cons.IH [of offset] Cons.prems by (simp add: p tails_def)
  qed
qed (simp add: tails_def)

lemma serialized_container_correct:
  assumes "head_length ps + length (tails ps) < 2 ^ 32"
  shows "serialized_container ps = ssz_container ps \<longleftrightarrow> tails ps = []"
    and "length (serialized_container ps) = length (ssz_container ps)"
  using heads_eq_iff [OF assms] by (simp_all add: serialized_container_def ssz_container_def length_heads)

lemma process_parts:
  "fold (process_part True) (map returned ps) acc =
     acc\<lparr>fixedParts := fixedParts acc @ map (\<lambda>(b, bz). if b then None else Some bz) ps,
         fixedLengths := fixedLengths acc @ map (\<lambda>(b, bz). if b \<or> bz = [] then 4 else length bz) ps,
         variableParts := variableParts acc @ map (\<lambda>(b, bz). if b then bz else []) ps,
         variableLengths := variableLengths acc @ map (\<lambda>(b, bz). if b then length bz else 0) ps\<rparr>"
  by (induction ps arbitrary: acc)
    (auto simp: process_part_def returned_def MarshalFixedSizeParts_def MarshalVariableSizeParts_def BytesPerLengthOffset_def)

lemma offsets_heads:
  "concat (map (\<lambda>(part, offset). case part of None \<Rightarrow> offset | Some bz \<Rightarrow> bz)
     (zip (map (\<lambda>(b, bz). if b then None else Some bz) ps)
        (running_offsets offset (map (\<lambda>(b, bz). if b then length bz else 0) ps)))) = heads 1 offset ps"
  by (induction ps arbitrary: offset) auto

lemma length_running_offsets [simp]: "length (running_offsets n ns) = length ns"
  by (induction ns arbitrary: n) simp_all

definition full_parts :: "part list \<Rightarrow> bool" where
  "full_parts ps \<longleftrightarrow> (\<forall>p \<in> set ps. fst p \<or> snd p \<noteq> [])"

lemma InterleaveOffsets_parts:
  assumes "full_parts ps"
  shows "InterleaveOffsets (map (\<lambda>(b, bz). if b then None else Some bz) ps)
       (map (\<lambda>(b, bz). if b \<or> bz = [] then 4 else length bz) ps)
       (map (\<lambda>(b, bz). if b then bz else []) ps) (map (\<lambda>(b, bz). if b then length bz else 0) ps) =
     (if head_length ps + length (tails ps) < 2 ^ 32 then Inr (serialized_container ps)
      else Inl (Newf ''total length exceeds allowable limit''))"
proof -
  have fixed: "map (\<lambda>(b, bz). if b \<or> bz = [] then 4 else length bz) ps = map (\<lambda>(b, bz). if b then 4 else length bz) ps"
    using assms by (auto simp: full_parts_def)
  have total: "sum_list (map (\<lambda>(b, bz). if b then length bz else 0) ps) = length (tails ps)"
    "concat (map (\<lambda>(b, bz). if b then bz else []) ps) = tails ps"
    by (induction ps) (auto simp: tails_def)
  show ?thesis
    unfolding InterleaveOffsets_def fixed Let_def total concat_append offsets_heads head_length_def [symmetric]
    by (auto simp: BytesPerLengthOffset_def BitsPerByte_def serialized_container_def)
qed

lemma SafeCopyBuffer_start [simp]: "SafeCopyBuffer res buf 0 = Inr res"
  by (simp add: SafeCopyBuffer_def)

definition struct_fields :: "goval \<Rightarrow> (field \<times> goval) list \<Rightarrow> bool" where
  "struct_fields val fs \<longleftrightarrow> val = VStruct fs \<or> (\<exists>gs. val = VPtr (TStruct gs) (Some (VStruct fs)))"

lemma MarshalSSZ_struct:
  assumes val: "struct_fields val fs"
    and fields: "field_results MarshalSSZ fs = Inr (map returned ps)" and full: "full_parts ps"
    and size: "CalculateBufferSizeForStruct val = Inr n" "n < 2 ^ 63"
  shows "MarshalSSZ val =
    (if head_length ps + length (tails ps) < 2 ^ 32 then Inr (serialized_container ps, None)
     else Inr (replicate (unat n) 0, Some (Newf ''total length exceeds allowable limit'')))"
proof -
  have struct: "IsStruct (type_of val) val = Inr True" "IterStructFields val = Inr fs"
    using val by (auto simp: struct_fields_def IsStruct_def IterStructFields_def val_fields_def)
  have "MarshalSSZ val = MarshalToDefaultBuffer val (type_of val) (MarshalStruct MarshalSSZ)"
    using val by (subst MarshalSSZ.simps) (auto simp: struct_fields_def marshal_value_def IsUintLike_def is_struct_type_def)
  also have "make_bytes n = Inr (replicate (unat n) 0)" using size(2) by (auto simp: make_bytes_def)
  then have "MarshalToDefaultBuffer val (type_of val) (MarshalStruct MarshalSSZ) =
      joined (fold (process_part True) (map returned ps) no_parts) (replicate (unat n) 0) 0"
    using struct size(1) by (simp add: MarshalToDefaultBuffer_def MarshalStruct_def fields)
  finally show ?thesis
    by (simp add: process_parts no_parts_def joined_def InterleaveOffsets_parts [OF full])
qed

subsection \<open>Structs of fixed-size fields\<close>

definition byte_value :: "goval \<Rightarrow> u8 option" where
  "byte_value v = (case v of VUint U8 _ u \<Rightarrow> Some (ucast u) | _ \<Rightarrow> None)"

text \<open>The encoding of unsigned integers of 64 bits, of booleans and of byte arrays.\<close>

definition flat_bytes :: "goval \<Rightarrow> bytes option" where
  "flat_bytes v =
     (case v of
        VUint U64 name u \<Rightarrow> if name = OtherName then None else Some (le_bytes u)
      | VBool builtin b \<Rightarrow> if builtin then Some [if b then 1 else 0] else None
      | VArray t vs \<Rightarrow>
          if is_uint8 t \<and> vs \<noteq> [] \<and> list_all (\<lambda>x. byte_value x \<noteq> None) vs then Some (map (the \<circ> byte_value) vs) else None
      | _ \<Rightarrow> None)"

lemma byte_values:
  assumes "list_all (\<lambda>x. byte_value x \<noteq> None) vs"
  obtains us where "mapE val_uint vs = Inr us" "map ucast us = map (the \<circ> byte_value) vs" "length us = length vs"
proof -
  have "\<exists>us. mapE val_uint vs = Inr us \<and> map ucast us = map (the \<circ> byte_value) vs \<and> length us = length vs"
    using assms
    by (induction vs) (auto simp: byte_value_def val_uint_def split: goval.splits uint_kind.splits)
  with that show thesis by blast
qed

lemma byte_DetermineSize: "byte_value v \<noteq> None \<Longrightarrow> GetNestedArrayLength v = Inr 1"
  by (cases v) (auto simp: byte_value_def DetermineSize_def uint_size_def split: uint_kind.splits)

lemma uint8_basic: "is_uint8 t \<Longrightarrow> isBasicType t"
  by (cases t) (simp_all add: is_uint8_def isBasicType_def)

lemma MarshalSSZ_uint: "MarshalSSZ (VUint k name u) = bindE (RouteUint (VUint k name u)) (\<lambda>bz. Inr (bz, None))"
  by (subst MarshalSSZ.simps) (simp add: marshal_value_def IsUintLike_def)

lemma MarshalSSZ_bool: "MarshalSSZ (VBool True b) = Inr ([if b then 1 else 0], None)"
  by (subst MarshalSSZ.simps) (simp add: marshal_value_def IsUintLike_def MarshalBool_def)

lemma make_bytes_small: "n < 2 ^ 63 \<Longrightarrow> make_bytes (of_nat n) = Inr (replicate n 0)"
  by (simp add: make_bytes_def word_le_nat_alt unat_of_nat take_bit_eq_mod)

lemma MarshalSSZ_bytes:
  assumes "is_uint8 t" and "list_all (\<lambda>x. byte_value x \<noteq> None) vs" and "length vs < 2 ^ 63"
  shows "MarshalSSZ (VArray t vs) = Inr (map (the \<circ> byte_value) vs, None)"
    and "MarshalSSZ (VSlice t (Some vs)) = Inr (map (the \<circ> byte_value) vs, None)"
proof -
  have size: "GetNestedArrayLength (VArray t vs) = Inr (of_nat (length vs))"
    "GetNestedArrayLength (VSlice t (Some vs)) = Inr (of_nat (length vs))"
    using assms(2) byte_DetermineSize by (cases vs; auto)+
  obtain us where us: "mapE val_uint vs = Inr us" "map ucast us = map (the \<circ> byte_value) vs" "length us = length vs"
    using byte_values [OF assms(2)] by blast
  show "MarshalSSZ (VArray t vs) = Inr (map (the \<circ> byte_value) vs, None)"
    and "MarshalSSZ (VSlice t (Some vs)) = Inr (map (the \<circ> byte_value) vs, None)"
    using assms(1) by (subst MarshalSSZ.simps, simp add: marshal_value_def IsUintLike_def marshal_list_def
        MarshalToDefaultBuffer_def IsStruct_def is_list_kind_def size make_bytes_small [OF assms(3)] MarshalByteArray_def us)+
qed

text \<open>A nil byte slice is not encoded as the empty one: its type has no length, and asking for it panics.\<close>

lemma MarshalSSZ_nil_bytes: "is_uint8 t \<Longrightarrow> MarshalSSZ (VSlice t None) = Inl (Panic ''reflect: Len of non-array type'')"
  by (subst MarshalSSZ.simps) (simp add: marshal_value_def IsUintLike_def marshal_list_def MarshalToDefaultBuffer_def
      IsStruct_def is_list_kind_def make_bytes_def MarshalByteArray_def)

lemma flat_value:
  assumes "flat_bytes v = Some bz" and "length bz < 2 ^ 63"
  shows "MarshalSSZ v = Inr (bz, None) \<and> isVariableSizeType (type_of v) = Inr False \<and>
    DetermineSize v = Inr (of_nat (length bz)) \<and> bz \<noteq> []"
proof -
  consider (uint) name u where "v = VUint U64 name u" "name \<noteq> OtherName" "bz = le_bytes u"
    | (bool) b where "v = VBool True b" "bz = [if b then 1 else 0]"
    | (bytes) t vs where "v = VArray t vs" "is_uint8 t" "vs \<noteq> []" "list_all (\<lambda>x. byte_value x \<noteq> None) vs"
        "bz = map (the \<circ> byte_value) vs"
    using assms(1) by (auto simp: flat_bytes_def split: goval.splits uint_kind.splits if_splits)
  then show ?thesis
  proof cases
    case uint
    have "le_bytes u \<noteq> []" by (simp add: le_bytes_def)
    with uint show ?thesis
      by (cases name) (simp_all add: MarshalSSZ_uint RouteUint_def U64_MarshalSSZ_def MarshalU64_def DetermineSize_def uint_size_def)
  next
    case bytes
    then show ?thesis using MarshalSSZ_bytes(1) [of t vs] assms(2) by (simp add: uint8_basic DetermineSize_def)
  qed (simp add: MarshalSSZ_bool DetermineSize_def)
qed

lemma flat_fields:
  assumes "list_all2 (\<lambda>(f, v) bz. flat_bytes v = Some bz) fs bzs" and "length (concat bzs) < 2 ^ 32"
  shows "field_results MarshalSSZ fs = Inr (map returned (map (Pair False) bzs))"
    and "full_parts (map (Pair False) bzs)"
    and "sumE (\<lambda>(f, v). DetermineSize v) fs = Inr (of_nat (length (concat bzs)))"
proof -
  have "field_results MarshalSSZ fs = Inr (map returned (map (Pair False) bzs)) \<and> full_parts (map (Pair False) bzs) \<and>
      sumE (\<lambda>(f, v). DetermineSize v) fs = Inr (of_nat (length (concat bzs)))"
    using assms
  proof (induction fs bzs rule: list_all2_induct)
    case (Cons fv fs bz bzs)
    obtain f v where fv: "fv = (f, v)" by fastforce
    have "flat_bytes v = Some bz" "length bz < 2 ^ 63" using Cons by (simp_all add: fv)
    with flat_value [of v bz] Cons show ?case
      by (auto simp: fv field_results_def returned_def full_parts_def sumE_def bindE_Inr)
  qed (simp add: field_results_def full_parts_def sumE_def)
  then show "field_results MarshalSSZ fs = Inr (map returned (map (Pair False) bzs))"
    and "full_parts (map (Pair False) bzs)"
    and "sumE (\<lambda>(f, v). DetermineSize v) fs = Inr (of_nat (length (concat bzs)))" by blast+
qed

lemma fixed_parts: "serialized_container (map (Pair False) bzs) = concat bzs" "tails (map (Pair False) bzs) = []"
    "head_length (map (Pair False) bzs) = length (concat bzs)"
proof -
  show tails: "tails (map (Pair False) bzs) = []" by (simp add: tails_def)
  have "heads 1 n (map (Pair False) bzs) = concat bzs" for n by (induction bzs) simp_all
  with tails show "serialized_container (map (Pair False) bzs) = concat bzs" by (simp add: serialized_container_def)
  show "head_length (map (Pair False) bzs) = length (concat bzs)" by (simp add: head_length_def length_concat o_def)
qed

text \<open>A struct of such fields is encoded as the concatenation of their encodings, whatever the tags.\<close>

lemma MarshalSSZ_flat_struct:
  assumes "struct_fields val fs" and "list_all2 (\<lambda>(f, v) bz. flat_bytes v = Some bz) fs bzs"
    and "length (concat bzs) < 2 ^ 32"
  shows "MarshalSSZ val = Inr (concat bzs, None)"
proof -
  have "CalculateBufferSizeForStruct val = Inr (of_nat (length (concat bzs)))"
    using assms(1) flat_fields(3) [OF assms(2,3)]
    by (auto simp: CalculateBufferSizeForStruct_def struct_fields_def IterStructFields_def IsStruct_def val_fields_def)
  moreover have "(of_nat (length (concat bzs)) :: u64) < 2 ^ 63"
    using assms(3) by (simp add: word_less_nat_alt unat_of_nat take_bit_eq_mod)
  ultimately show ?thesis
    using MarshalSSZ_struct [OF assms(1) flat_fields(1,2) [OF assms(2,3)]] assms(3) by (simp add: fixed_parts)
qed

text \<open>Arrays of arrays and arrays of structs, of fixed size, are not serialized.\<close>

lemma MarshalSSZ_nested_array:
  assumes "isVariableSizeType t = Inr False" and "t = TArray n e \<or> t = TStruct fs"
  shows "\<not> (\<exists>bz. MarshalSSZ (VArray t vs) = Inr (bz, None))"
proof -
  have "isVariableSizeType (TArray (length vs) t) = Inr False" "\<not> is_uint8 t" "\<not> isBasicType t"
    using assms by (auto simp: isBasicType_def is_uint8_def)
  with assms show ?thesis
    by (subst MarshalSSZ.simps) (auto simp: marshal_value_def IsUintLike_def marshal_list_def IsNDimensionalSliceLike_def
        is_struct_type_def not_serializable_def MarshalToDefaultBuffer_def IsStruct_def MarshalStruct_def bindE_Inr)
qed

text \<open>\<open>Marshal\<close> does not write the buffer that it is given.\<close>

lemma Marshal_buffer: "Marshal val typ input beyond off = Inr (next_off, e, input', beyond') \<Longrightarrow> input' = input"
  by (auto simp: Marshal_def bindE_Inr split: option.splits if_splits)

lemma UnmarshalByteArray_start:
  "length input < 2 ^ 64 \<Longrightarrow> UnmarshalByteArray input beyond 0 = Inr (input, of_nat (length input))"
  by (simp add: UnmarshalByteArray_def unat_of_nat take_bit_eq_mod Let_def)

subsection \<open>The containers of the consensus types\<close>

text \<open>What reflection sees of the containers whose fields are all of fixed size.\<close>

definition array_value :: "bytes \<Rightarrow> goval" where
  "array_value bz = VArray (TUint U8 Builtin) (map (\<lambda>b. VUint U8 Builtin (ucast b)) bz)"

definition named :: "string \<Rightarrow> field" where
  "named name = (ascii name, None)"

definition sized :: "string \<Rightarrow> string \<Rightarrow> field" where
  "sized name tag = (ascii name, Some (ascii tag))"

definition ForkData_fields :: "ForkData \<Rightarrow> (field \<times> goval) list" where
  "ForkData_fields f =
     [(sized ''CurrentVersion'' ''4'', array_value (fd_CurrentVersion f)),
      (sized ''GenesisValidatorsRoot'' ''32'', array_value (fd_GenesisValidatorsRoot f))]"

definition SigningData_fields :: "SigningData \<Rightarrow> (field \<times> goval) list" where
  "SigningData_fields s =
     [(sized ''ObjectRoot'' ''32'', array_value (sd_ObjectRoot s)),
      (sized ''Domain'' ''32'', array_value (sd_Domain s))]"

definition Fork_fields :: "Fork \<Rightarrow> (field \<times> goval) list" where
  "Fork_fields f =
     [(named ''PreviousVersion'', array_value (fork_PreviousVersion f)),
      (named ''CurrentVersion'', array_value (fork_CurrentVersion f)),
      (named ''Epoch'', VUint U64 MathU64 (fork_Epoch f))]"

definition Eth1Data_fields :: "Eth1Data \<Rightarrow> (field \<times> goval) list" where
  "Eth1Data_fields e =
     [(sized ''DepositRoot'' ''32'', array_value (eth1_DepositRoot e)),
      (named ''DepositCount'', VUint U64 Builtin (eth1_DepositCount e)),
      (sized ''BlockHash'' ''32'', array_value (eth1_BlockHash e))]"

definition Deposit_fields :: "Deposit \<Rightarrow> (field \<times> goval) list" where
  "Deposit_fields d =
     [(named ''Pubkey'', array_value (dep_Pubkey d)),
      (sized ''Credentials'' ''32'', array_value (dep_Credentials d)),
      (named ''Amount'', VUint U64 MathU64 (dep_Amount d)),
      (named ''Signature'', array_value (dep_Signature d)),
      (named ''Index'', VUint U64 Builtin (dep_Index d))]"

definition Withdrawal_fields :: "Withdrawal \<Rightarrow> (field \<times> goval) list" where
  "Withdrawal_fields w =
     [(named ''Index'', VUint U64 MathU64 (wd_Index w)),
      (named ''Validator'', VUint U64 MathU64 (wd_Validator w)),
      (sized ''Address'' ''20'', array_value (wd_Address w)),
      (named ''Amount'', VUint U64 MathU64 (wd_Amount w))]"

definition Validator_fields :: "Validator \<Rightarrow> (field \<times> goval) list" where
  "Validator_fields v =
     [(sized ''Pubkey'' ''48'', array_value (val_Pubkey v)),
      (sized ''WithdrawalCredentials'' ''32'', array_value (val_WithdrawalCredentials v)),
      (named ''EffectiveBalance'', VUint U64 MathU64 (val_EffectiveBalance v)),
      (named ''Slashed'', VBool True (val_Slashed v)),
      (named ''ActivationEligibilityEpoch'', VUint U64 MathU64 (val_ActivationEligibilityEpoch v)),
      (named ''ActivationEpoch'', VUint U64 MathU64 (val_ActivationEpoch v)),
      (named ''ExitEpoch'', VUint U64 MathU64 (val_ExitEpoch v)),
      (named ''WithdrawableEpoch'', VUint U64 MathU64 (val_WithdrawableEpoch v))]"

lemma flat_array: "bz \<noteq> [] \<Longrightarrow> flat_bytes (array_value bz) = Some bz"
proof -
  have "ucast (ucast b :: u64) = b" for b :: u8 by (rule bit_word_eqI) (simp add: bit_simps)
  then show "bz \<noteq> [] \<Longrightarrow> flat_bytes (array_value bz) = Some bz"
    by (simp add: flat_bytes_def array_value_def is_uint8_def byte_value_def list_all_iff o_def)
qed

lemma flat_scalars: "flat_bytes (VUint U64 MathU64 u) = Some (le_bytes u)"
    "flat_bytes (VUint U64 Builtin u) = Some (le_bytes u)" "flat_bytes (VBool True b) = Some [if b then 1 else 0]"
  by (simp_all add: flat_bytes_def)

lemma ForkData_reflected:
  assumes "ForkData_wf fd" and "struct_fields val (ForkData_fields fd)"
  shows "MarshalSSZ val = Inr (ForkData_bytes fd, None)"
proof -
  have "fd_CurrentVersion fd \<noteq> []" "fd_GenesisValidatorsRoot fd \<noteq> []" using assms(1) by (auto simp: ForkData_wf_def)
  then show ?thesis
    using MarshalSSZ_flat_struct [OF assms(2), of "[fd_CurrentVersion fd, fd_GenesisValidatorsRoot fd]"] assms(1)
    by (simp add: ForkData_fields_def ForkData_wf_def ForkData_bytes_def flat_array flat_scalars)
qed

lemma SigningData_reflected:
  assumes "SigningData_wf sd" and "struct_fields val (SigningData_fields sd)"
  shows "MarshalSSZ val = Inr (SigningData_bytes sd, None)"
proof -
  have "sd_ObjectRoot sd \<noteq> []" "sd_Domain sd \<noteq> []" using assms(1) by (auto simp: SigningData_wf_def)
  then show ?thesis
    using MarshalSSZ_flat_struct [OF assms(2), of "[sd_ObjectRoot sd, sd_Domain sd]"] assms(1)
    by (simp add: SigningData_fields_def SigningData_wf_def SigningData_bytes_def flat_array flat_scalars)
qed

lemma Fork_reflected:
  assumes "Fork_wf f" and "struct_fields val (Fork_fields f)"
  shows "MarshalSSZ val = Inr (Fork_bytes f, None)"
proof -
  have "fork_PreviousVersion f \<noteq> []" "fork_CurrentVersion f \<noteq> []" using assms(1) by (auto simp: Fork_wf_def)
  then show ?thesis
    using MarshalSSZ_flat_struct [OF assms(2), of "[fork_PreviousVersion f, fork_CurrentVersion f, le_bytes (fork_Epoch f)]"] assms(1)
    by (simp add: Fork_fields_def Fork_wf_def Fork_bytes_def flat_array flat_scalars)
qed

lemma Eth1Data_reflected:
  assumes "Eth1Data_wf e" and "struct_fields val (Eth1Data_fields e)"
  shows "MarshalSSZ val = Inr (Eth1Data_bytes e, None)"
proof -
  have "eth1_DepositRoot e \<noteq> []" "eth1_BlockHash e \<noteq> []" using assms(1) by (auto simp: Eth1Data_wf_def)
  then show ?thesis
    using MarshalSSZ_flat_struct [OF assms(2), of "[eth1_DepositRoot e, le_bytes (eth1_DepositCount e), eth1_BlockHash e]"] assms(1)
    by (simp add: Eth1Data_fields_def Eth1Data_wf_def Eth1Data_bytes_def flat_array flat_scalars)
qed

lemma Deposit_reflected:
  assumes "Deposit_wf d" and "struct_fields val (Deposit_fields d)"
  shows "MarshalSSZ val = Inr (Deposit_bytes d, None)"
proof -
  have "dep_Pubkey d \<noteq> []" "dep_Credentials d \<noteq> []" "dep_Signature d \<noteq> []" using assms(1) by (auto simp: Deposit_wf_def)
  then show ?thesis
    using MarshalSSZ_flat_struct [OF assms(2), of "[dep_Pubkey d, dep_Credentials d, le_bytes (dep_Amount d), dep_Signature d, le_bytes (dep_Index d)]"] assms(1)
    by (simp add: Deposit_fields_def Deposit_wf_def Deposit_bytes_def flat_array flat_scalars)
qed

lemma Withdrawal_reflected:
  assumes "Withdrawal_wf w" and "struct_fields val (Withdrawal_fields w)"
  shows "MarshalSSZ val = Inr (Withdrawal_bytes w, None)"
proof -
  have "wd_Address w \<noteq> []" using assms(1) by (auto simp: Withdrawal_wf_def)
  then show ?thesis
    using MarshalSSZ_flat_struct [OF assms(2), of "[le_bytes (wd_Index w), le_bytes (wd_Validator w), wd_Address w, le_bytes (wd_Amount w)]"] assms(1)
    by (simp add: Withdrawal_fields_def Withdrawal_wf_def Withdrawal_bytes_def flat_array flat_scalars)
qed

lemma Validator_reflected:
  assumes "Validator_wf v" and "struct_fields val (Validator_fields v)"
  shows "MarshalSSZ val = Inr (Validator_bytes v, None)"
proof -
  have "val_Pubkey v \<noteq> []" "val_WithdrawalCredentials v \<noteq> []" using assms(1) by (auto simp: Validator_wf_def)
  then show ?thesis
    using MarshalSSZ_flat_struct [OF assms(2), of "[val_Pubkey v, val_WithdrawalCredentials v, le_bytes (val_EffectiveBalance v), [if val_Slashed v then 1 else 0], le_bytes (val_ActivationEligibilityEpoch v), le_bytes (val_ActivationEpoch v), le_bytes (val_ExitEpoch v), le_bytes (val_WithdrawableEpoch v)]"] assms(1)
    by (simp add: Validator_fields_def Validator_wf_def Validator_bytes_def flat_array flat_scalars)
qed

definition same_encoding :: "goval \<Rightarrow> err + bytes \<Rightarrow> bool" where
  "same_encoding val generated \<longleftrightarrow> (\<exists>bz. MarshalSSZ val = Inr (bz, None) \<and> generated = Inr bz)"

text \<open>
  C40. The reflective serializer and the generated encoders agree. For each container of fixed-size fields (fork
  data, signing data, forks, eth1 data, deposits, withdrawals, validators), \<open>MarshalSSZ\<close> of a value of the
  struct, or of a pointer to it, returns without an error or panic exactly the bytes that the generated
  \<open>MarshalSSZTo\<close> appends to an empty buffer.
\<close>

theorem serializer_agrees:
  assumes "fastssz_laws F"
    and "ForkData_wf fd" and "SigningData_wf sd" and "Fork_wf f" and "Eth1Data_wf e" and "Deposit_wf d"
    and "Withdrawal_wf w" and "Validator_wf v"
  shows "(struct_fields val (ForkData_fields fd) \<longrightarrow> same_encoding val (ForkData_MarshalSSZTo F fd [])) \<and>
    (struct_fields val (SigningData_fields sd) \<longrightarrow> same_encoding val (SigningData_MarshalSSZTo F sd [])) \<and>
    (struct_fields val (Fork_fields f) \<longrightarrow> same_encoding val (Fork_MarshalSSZTo F f [])) \<and>
    (struct_fields val (Eth1Data_fields e) \<longrightarrow> same_encoding val (Eth1Data_MarshalSSZTo F e [])) \<and>
    (struct_fields val (Deposit_fields d) \<longrightarrow> same_encoding val (Deposit_MarshalSSZTo F d [])) \<and>
    (struct_fields val (Withdrawal_fields w) \<longrightarrow> same_encoding val (Withdrawal_MarshalSSZTo F w [])) \<and>
    (struct_fields val (Validator_fields v) \<longrightarrow> same_encoding val (Validator_MarshalSSZTo F v []))"
  using fastssz_laws.ForkData_marshal [OF assms(1)] fastssz_laws.SigningData_marshal [OF assms(1)]
    fastssz_laws.Fork_marshal [OF assms(1)] fastssz_laws.Eth1Data_marshal [OF assms(1)]
    fastssz_laws.Deposit_marshal [OF assms(1)] fastssz_laws.Withdrawal_marshal [OF assms(1)]
    fastssz_laws.Validator_marshal [OF assms(1)] assms(2-)
  by (simp add: same_encoding_def ForkData_reflected SigningData_reflected Fork_reflected Eth1Data_reflected
      Deposit_reflected Withdrawal_reflected Validator_reflected)

theorem serializer_agrees_witness:
  "MarshalSSZ (VStruct (Withdrawal_fields \<lparr>wd_Index = 1, wd_Validator = 2, wd_Address = replicate 20 7, wd_Amount = 3\<rparr>)) =
     Inr (le_bytes 1 @ le_bytes 2 @ replicate 20 7 @ le_bytes 3, None)"
proof -
  let ?w = "\<lparr>wd_Index = 1, wd_Validator = 2, wd_Address = replicate 20 7, wd_Amount = 3\<rparr>"
  let ?v = "\<lparr>val_Pubkey = replicate 48 0, val_WithdrawalCredentials = replicate 32 0, val_EffectiveBalance = 0, val_Slashed = False,
      val_ActivationEligibilityEpoch = 0, val_ActivationEpoch = 0, val_ExitEpoch = 0, val_WithdrawableEpoch = 0\<rparr>"
  have "same_encoding (VStruct (Withdrawal_fields ?w)) (Withdrawal_MarshalSSZTo reference_fastssz ?w [])"
    using serializer_agrees [OF ref_ssz.fastssz_laws_axioms,
        of "\<lparr>fd_CurrentVersion = replicate 4 0, fd_GenesisValidatorsRoot = replicate 32 0\<rparr>"
          "\<lparr>sd_ObjectRoot = replicate 32 0, sd_Domain = replicate 32 0\<rparr>"
          "\<lparr>fork_PreviousVersion = replicate 4 0, fork_CurrentVersion = replicate 4 0, fork_Epoch = 0\<rparr>"
          "\<lparr>eth1_DepositRoot = replicate 32 0, eth1_DepositCount = 0, eth1_BlockHash = replicate 32 0\<rparr>"
          "\<lparr>dep_Pubkey = replicate 48 0, dep_Credentials = replicate 32 0, dep_Amount = 0, dep_Signature = replicate 96 0, dep_Index = 0\<rparr>"
          ?w ?v "VStruct (Withdrawal_fields ?w)"]
    by (simp add: ForkData_wf_def SigningData_wf_def Fork_wf_def Eth1Data_wf_def Deposit_wf_def Withdrawal_wf_def Validator_wf_def
        struct_fields_def)
  then show ?thesis by (simp add: same_encoding_def ref_ssz.Withdrawal_marshal Withdrawal_bytes_def)
qed

text \<open>
  Structs with variable-size fields. The encoding has the length that SSZ gives it, and it is the SSZ encoding
  exactly when every variable field is empty: each offset is past its own field by the length of the field. A struct whose
  encoding would reach 4 GiB is refused.
\<close>

theorem serializer_offsets:
  assumes "struct_fields val fs" and "field_results MarshalSSZ fs = Inr (map returned ps)" and "full_parts ps"
    and "CalculateBufferSizeForStruct val = Inr n" and "n < 2 ^ 63"
  shows "if head_length ps + length (tails ps) < 2 ^ 32
    then MarshalSSZ val = Inr (serialized_container ps, None) \<and>
      length (serialized_container ps) = length (ssz_container ps) \<and>
      (serialized_container ps = ssz_container ps \<longleftrightarrow> tails ps = [])
    else MarshalSSZ val = Inr (replicate (unat n) 0, Some (Newf ''total length exceeds allowable limit''))"
  using MarshalSSZ_struct [OF assms] serialized_container_correct [of ps] by auto

definition demo_fields :: "(field \<times> goval) list" where
  "demo_fields =
     [(named ''Slot'', VUint U64 Builtin 5), (named ''Extra'', VSlice (TUint U8 Builtin) (Some [VUint U8 Builtin 7]))]"

lemma serializer_offsets_demo:
  "MarshalSSZ (VStruct demo_fields) = Inr (le_bytes 5 @ MarshalU32 13 @ [7], None) \<and>
   ssz_container [(False, le_bytes 5), (True, [7])] = le_bytes 5 @ MarshalU32 12 @ [7]"
proof -
  let ?ps = "[(False, le_bytes 5), (True, [7])]"
  have undefined_tag: "hasUndefinedSizeTag (named s)" for s
    by (simp add: hasUndefinedSizeTag_def named_def parseSSZFieldTags_def getSSZFieldTags_def)
  have bytes: "MarshalSSZ (VSlice (TUint U8 Builtin) (Some [VUint U8 Builtin 7])) = Inr ([7], None)"
    by (subst MarshalSSZ_bytes) (simp_all add: is_uint8_def byte_value_def)
  have "field_results MarshalSSZ demo_fields = Inr (map returned ?ps)"
    by (simp add: field_results_def demo_fields_def undefined_tag MarshalSSZ_uint RouteUint_def MarshalU64_def bytes returned_def)
  moreover have "CalculateBufferSizeForStruct (VStruct demo_fields) = Inr 9"
    by (simp add: CalculateBufferSizeForStruct_def IterStructFields_def IsStruct_def val_fields_def demo_fields_def sumE_def
        DetermineSize_def uint_size_def size_of.simps is_uint8_def val_Len_def val_elems_def)
  moreover have "full_parts ?ps" by (simp add: full_parts_def le_bytes_def)
  ultimately show ?thesis
    using MarshalSSZ_struct [of "VStruct demo_fields" demo_fields ?ps 9]
    by (simp add: struct_fields_def serialized_container_def ssz_container_def head_length_def tails_def)
qed

end
