(* ===== verification/EngineClient.thy ===== *)
theory EngineClient
  imports HeaderCache Builder NodeApi
begin

section \<open>The connection to the execution client: \<open>mod/execution/pkg/client\<close>\<close>

text \<open>
  Dialing, the startup loop and the refresh of the JWT token (\<open>client.go\<close>, \<open>auth.go\<close>), with the secret
  (\<open>mod/primitives/pkg/net/jwt\<close>) and the URL (\<open>mod/primitives/pkg/net/url\<close>).

  What the network and the token library answer at one attempt is the record \<open>attempt\<close>, an argument of every step; a
  run of the startup loop is a list of events, ticks of the timer with the answers of their attempt or the end of
  the context. A call on the nil client panics; a panic ends the loop and is an outcome of its own.
\<close>

subsection \<open>Configuration\<close>

record ConnectionURL =
  url_Scheme :: string
  url_Rest :: string

definition IsHTTP :: "ConnectionURL \<Rightarrow> bool" where "IsHTTP d \<longleftrightarrow> url_Scheme d = ''http''"
definition IsHTTPS :: "ConnectionURL \<Rightarrow> bool" where "IsHTTPS d \<longleftrightarrow> url_Scheme d = ''https''"
definition IsIPC :: "ConnectionURL \<Rightarrow> bool" where "IsIPC d \<longleftrightarrow> url_Scheme d = ''ipc''"

record client_Config =
  RPCDialURL :: ConnectionURL
  jwtSecret :: "bytes option"
  eth1ChainID :: int

subsection \<open>The JWT secret\<close>

definition EthereumJWTLength :: nat where
  "EthereumJWTLength = 32"

text \<open>The pattern \<open>^(?:0x)?[0-9a-fA-F]*$\<close>.\<close>

definition HexRegexp :: "bytes \<Rightarrow> bool" where
  "HexRegexp s \<longleftrightarrow>
     list_all (\<lambda>c. reverseHexTable c < 16) s \<or>
     take 2 s = ascii ''0x'' \<and> list_all (\<lambda>c. reverseHexTable c < 16) (drop 2 s)"

text \<open>\<open>common.FromHex\<close> of go-ethereum is an argument.\<close>

definition Secret_NewFromHex :: "(bytes \<Rightarrow> bytes option) \<Rightarrow> bytes \<Rightarrow> err + bytes" where
  "Secret_NewFromHex from_hex hexStr =
     (if \<not> HexRegexp hexStr then Inl (Newf ''JWT secret contains illegal character(s)'')
      else case from_hex hexStr of
             None \<Rightarrow> Inl (Newf ''JWT secret length mismatch'')
           | Some bz \<Rightarrow> if length bz \<noteq> EthereumJWTLength then Inl (Newf ''JWT secret length mismatch'') else Inr bz)"

definition Secret_NewRandom :: "(bytes \<Rightarrow> bytes option) \<Rightarrow> err + bytes \<Rightarrow> err + bytes" where
  "Secret_NewRandom from_hex rand_Read = bindE rand_Read (\<lambda>secret. Secret_NewFromHex from_hex (FromBytes secret))"

definition Secret_Hex :: "bytes \<Rightarrow> bytes" where
  "Secret_Hex s = FromBytes s"

definition Secret_String :: "bytes \<Rightarrow> bytes" where
  "Secret_String s = (let secret = FromBytes s in take 8 secret @ replicate (length (drop 8 secret)) 42)"

subsection \<open>The client\<close>

record connection =
  cn_rpc :: eth1_rpc
  cn_ChainID :: "err + int"

record attempt =
  at_SignedString :: "bytes \<Rightarrow> err + string"
  at_DialHTTP :: "string option \<Rightarrow> err + connection"
  at_DialIPC :: "err + connection"

text \<open>\<open>s.Eth1Client.Client\<close> is nil at first; a connection that was closed stays in its place.\<close>

datatype rpc_client = Nil_client | Open connection | Closed connection

record EngineClient =
  ecl_Client :: rpc_client
  ecl_capabilities :: "string set"

definition New_EngineClient :: EngineClient where
  "New_EngineClient = \<lparr>ecl_Client = Nil_client, ecl_capabilities = {}\<rparr>"

definition EngineClient_Status :: "EngineClient \<Rightarrow> err option" where
  "EngineClient_Status s = (if ecl_Client s = Nil_client then Some (Newf ''engine client is not started'') else None)"

definition buildSignedJWT :: "attempt \<Rightarrow> bytes \<Rightarrow> err + string" where
  "buildSignedJWT a secret =
     (case at_SignedString a secret of Inl _ \<Rightarrow> Inl (Newf ''failed to create JWT token'') | Inr str \<Rightarrow> Inr str)"

definition buildJWTHeader :: "attempt \<Rightarrow> bytes \<Rightarrow> err + string" where
  "buildJWTHeader a secret = bindE (buildSignedJWT a secret) (\<lambda>token. Inr (''Bearer '' @ token))"

definition dialExecutionRPCClient :: "client_Config \<Rightarrow> attempt \<Rightarrow> (EngineClient, unit) M" where
  "dialExecutionRPCClient cfg a =
     bindM (liftE
       (if IsHTTP (RPCDialURL cfg) \<or> IsHTTPS (RPCDialURL cfg)
        then (case jwtSecret cfg of
                Some secret \<Rightarrow> bindE (buildJWTHeader a secret) (\<lambda>header. at_DialHTTP a (Some header))
              | None \<Rightarrow> at_DialHTTP a None)
        else if IsIPC (RPCDialURL cfg) then at_DialIPC a
        else Inl (Newf ''no known transport for URL scheme'')))
     (\<lambda>client. \<lambda>s. (Inr (), s\<lparr>ecl_Client := Open client\<rparr>))"

datatype outcome = Returns "err option" | Panics

text \<open>The deferred \<open>s.Client.Close()\<close> after an error.\<close>

definition close_on_error :: "err \<Rightarrow> EngineClient \<Rightarrow> outcome \<times> EngineClient" where
  "close_on_error e s =
     (case ecl_Client s of
        Nil_client \<Rightarrow> (Panics, s)
      | Open c \<Rightarrow> (Returns (Some e), s\<lparr>ecl_Client := Closed c\<rparr>)
      | Closed c \<Rightarrow> (Returns (Some e), s))"

definition initializeConnection :: "client_Config \<Rightarrow> attempt \<Rightarrow> EngineClient \<Rightarrow> outcome \<times> EngineClient" where
  "initializeConnection cfg a s =
     (case dialExecutionRPCClient cfg a s of
        (Inl e, s) \<Rightarrow> close_on_error e s
      | (Inr _, s) \<Rightarrow>
          (case ecl_Client s of
             Open c \<Rightarrow>
               (case cn_ChainID c of
                  Inl e \<Rightarrow> close_on_error e s
                | Inr chainID \<Rightarrow>
                    if big_Uint64 chainID \<noteq> big_Uint64 (eth1ChainID cfg)
                    then close_on_error (Newf ''mismatched chain ID'') s
                    else (case Client_ExchangeCapabilities (cn_rpc c) (ecl_capabilities s) of
                            (Inl e, caps) \<Rightarrow> close_on_error e s
                          | (Inr _, caps) \<Rightarrow> (Returns None, s\<lparr>ecl_capabilities := caps\<rparr>)))
           | _ \<Rightarrow> (Panics, s)))"

datatype start_event = Tick attempt | Done err

text \<open>The loop on the events so far; \<open>None\<close> is a loop that still waits.\<close>

fun startup_loop :: "client_Config \<Rightarrow> start_event list \<Rightarrow> EngineClient \<Rightarrow> outcome option \<times> EngineClient" where
  "startup_loop cfg [] s = (None, s)"
| "startup_loop cfg (Done e # evs) s = (Some (Returns (Some e)), s)"
| "startup_loop cfg (Tick a # evs) s =
     (case initializeConnection cfg a s of
        (Returns None, s) \<Rightarrow> (Some (Returns None), s)
      | (Panics, s) \<Rightarrow> (Some Panics, s)
      | (Returns (Some _), s) \<Rightarrow> startup_loop cfg evs s)"

text \<open>The deferred function starts the refresh of the token when \<open>Start\<close> is left, whatever its result.\<close>

definition refreshes :: "client_Config \<Rightarrow> bool" where
  "refreshes cfg \<longleftrightarrow> (IsHTTP (RPCDialURL cfg) \<or> IsHTTPS (RPCDialURL cfg)) \<and> jwtSecret cfg \<noteq> None"

definition EngineClient_Start ::
  "client_Config \<Rightarrow> attempt \<Rightarrow> start_event list \<Rightarrow> EngineClient \<Rightarrow> (outcome \<times> bool) option \<times> EngineClient" where
  "EngineClient_Start cfg a evs s =
     (case initializeConnection cfg a s of
        (Returns None, s) \<Rightarrow> (Some (Returns None, refreshes cfg), s)
      | (Panics, s) \<Rightarrow> (Some (Panics, refreshes cfg), s)
      | (Returns (Some _), s) \<Rightarrow>
          (case startup_loop cfg evs s of
             (None, s) \<Rightarrow> (None, s)
           | (Some r, s) \<Rightarrow> (Some (r, refreshes cfg), s)))"

text \<open>A tick of the refresh loop: the error of a failed dial is logged.\<close>

definition jwtRefreshLoop_tick :: "client_Config \<Rightarrow> attempt \<Rightarrow> EngineClient \<Rightarrow> EngineClient" where
  "jwtRefreshLoop_tick cfg a s = snd (dialExecutionRPCClient cfg a s)"

subsection \<open>Startup\<close>

text \<open>The result of dialing, and when a connection passes the checks.\<close>

definition dial :: "client_Config \<Rightarrow> attempt \<Rightarrow> err + connection" where
  "dial cfg a =
     (if IsHTTP (RPCDialURL cfg) \<or> IsHTTPS (RPCDialURL cfg)
      then (case jwtSecret cfg of
              Some secret \<Rightarrow> bindE (buildJWTHeader a secret) (\<lambda>header. at_DialHTTP a (Some header))
            | None \<Rightarrow> at_DialHTTP a None)
      else if IsIPC (RPCDialURL cfg) then at_DialIPC a
      else Inl (Newf ''no known transport for URL scheme''))"

definition usable :: "client_Config \<Rightarrow> connection \<Rightarrow> bool" where
  "usable cfg c \<longleftrightarrow>
     (case cn_ChainID c of Inl _ \<Rightarrow> False | Inr chainID \<Rightarrow> big_Uint64 chainID = big_Uint64 (eth1ChainID cfg)) \<and>
     \<not> isl (Eth1_ExchangeCapabilities (cn_rpc c) BeaconKitSupportedCapabilities)"

definition connected :: "client_Config \<Rightarrow> EngineClient \<Rightarrow> bool" where
  "connected cfg s \<longleftrightarrow> (\<exists>c caps. ecl_Client s = Open c \<and> usable cfg c \<and>
     Eth1_ExchangeCapabilities (cn_rpc c) BeaconKitSupportedCapabilities = Inr caps \<and> set caps \<subseteq> ecl_capabilities s)"

lemma dialExecutionRPCClient_dial:
  "dialExecutionRPCClient cfg a s =
     (case dial cfg a of Inl e \<Rightarrow> (Inl e, s) | Inr c \<Rightarrow> (Inr (), s\<lparr>ecl_Client := Open c\<rparr>))"
  by (simp add: dialExecutionRPCClient_def dial_def bindM_liftE split: sum.splits)

lemma initializeConnection_usable:
  "dial cfg a = Inr c \<Longrightarrow> usable cfg c \<Longrightarrow>
     \<exists>s'. initializeConnection cfg a s = (Returns None, s') \<and> connected cfg s'"
  by (auto simp: initializeConnection_def dialExecutionRPCClient_dial usable_def connected_def
      Client_ExchangeCapabilities_def split: sum.splits)

lemma initializeConnection_cases:
  obtains (ok) s' where "initializeConnection cfg a s = (Returns None, s')" "connected cfg s'"
  | (error) e s' where "initializeConnection cfg a s = (Returns (Some e), s')" "ecl_Client s' \<noteq> Nil_client"
  | (panic) e where "initializeConnection cfg a s = (Panics, s)" "ecl_Client s = Nil_client" "dial cfg a = Inl e"
proof (cases "dial cfg a")
  case (Inl e)
  then show ?thesis
    by (cases "ecl_Client s")
      (auto simp: initializeConnection_def dialExecutionRPCClient_dial close_on_error_def intro: that)
next
  case (Inr c)
  show ?thesis
  proof (cases "usable cfg c")
    case True
    then show ?thesis using initializeConnection_usable [OF Inr] ok by blast
  next
    case False
    with Inr have "\<exists>e s'. initializeConnection cfg a s = (Returns (Some e), s') \<and> ecl_Client s' \<noteq> Nil_client"
      by (auto simp: initializeConnection_def dialExecutionRPCClient_dial close_on_error_def usable_def
          Client_ExchangeCapabilities_def split: sum.splits)
    then show ?thesis using error by blast
  qed
qed

lemma startup_loop_safe:
  "startup_loop cfg evs s = (r, s') \<Longrightarrow> ecl_Client s \<noteq> Nil_client \<Longrightarrow>
     r \<noteq> Some Panics \<and> (r = Some (Returns None) \<longrightarrow> connected cfg s')"
proof (induction cfg evs s rule: startup_loop.induct)
  case (3 cfg a evs s)
  show ?case by (rule initializeConnection_cases [of cfg a s]) (use 3 in auto)
qed auto

lemma startup_loop_live:
  assumes "dial cfg good = Inr c" and "usable cfg c"
  shows "ecl_Client s \<noteq> Nil_client \<Longrightarrow>
    \<exists>s'. startup_loop cfg (map Tick attempts @ Tick good # evs) s = (Some (Returns None), s')"
proof (induction attempts arbitrary: s)
  case Nil
  then show ?case using initializeConnection_usable [OF assms, of s] by auto
next
  case (Cons a attempts)
  show ?case by (rule initializeConnection_cases [of cfg a s]) (use Cons in auto)
qed

text \<open>
  C28. Starting the client. If \<open>Start\<close> returns without an error, the client holds an open connection whose chain ID is
  the configured one and knows the capabilities that were exchanged. Once one dial has succeeded, \<open>Start\<close> never
  panics and returns at the first attempt whose connection passes the checks, whatever failed before. If the first
  dial of a new client fails, \<open>Start\<close> panics: it closes the client that does not exist yet.
\<close>

theorem EngineClient_Start_outcome:
  "(EngineClient_Start cfg a evs s = (Some (Returns None, refresh), s') \<longrightarrow>
      connected cfg s' \<and> EngineClient_Status s' = None \<and> (refresh \<longleftrightarrow> refreshes cfg)) \<and>
   (dial cfg a = Inr c \<longrightarrow>
      fst (EngineClient_Start cfg a evs s) \<noteq> Some (Panics, refresh) \<and>
      (dial cfg good = Inr c' \<longrightarrow> usable cfg c' \<longrightarrow>
         fst (EngineClient_Start cfg a (map Tick attempts @ Tick good # evs) s) = Some (Returns None, refreshes cfg))) \<and>
   (dial cfg a = Inl e \<longrightarrow>
      EngineClient_Start cfg a evs New_EngineClient = (Some (Panics, refreshes cfg), New_EngineClient))"
proof (intro conjI impI)
  have status: "EngineClient_Status s = None" if "connected cfg s" for s
    using that by (auto simp: connected_def EngineClient_Status_def)
  assume "EngineClient_Start cfg a evs s = (Some (Returns None, refresh), s')"
  then have "connected cfg s' \<and> (refresh \<longleftrightarrow> refreshes cfg)"
    by (cases rule: initializeConnection_cases [of cfg a s])
      (auto simp: EngineClient_Start_def split: prod.splits option.splits dest: startup_loop_safe)
  then show "connected cfg s'" "EngineClient_Status s' = None" "refresh \<longleftrightarrow> refreshes cfg" using status by auto
next
  assume d: "dial cfg a = Inr c"
  then show "fst (EngineClient_Start cfg a evs s) \<noteq> Some (Panics, refresh)"
    by (cases rule: initializeConnection_cases [of cfg a s])
      (auto simp: EngineClient_Start_def split: prod.splits option.splits dest: startup_loop_safe)
  assume good: "dial cfg good = Inr c'" "usable cfg c'"
  show "fst (EngineClient_Start cfg a (map Tick attempts @ Tick good # evs) s) = Some (Returns None, refreshes cfg)"
  proof (cases rule: initializeConnection_cases [of cfg a s])
    case (error e s1)
    with startup_loop_live [OF good error(2), of attempts evs] show ?thesis by (auto simp: EngineClient_Start_def)
  qed (use d in \<open>auto simp: EngineClient_Start_def\<close>)
next
  assume "dial cfg a = Inl e"
  then show "EngineClient_Start cfg a evs New_EngineClient = (Some (Panics, refreshes cfg), New_EngineClient)"
    by (simp add: EngineClient_Start_def initializeConnection_def dialExecutionRPCClient_dial close_on_error_def
        New_EngineClient_def)
qed

definition demo_config :: client_Config where
  "demo_config = \<lparr>RPCDialURL = \<lparr>url_Scheme = ''ipc'', url_Rest = ''/geth.ipc''\<rparr>, jwtSecret = None, eth1ChainID = 80087\<rparr>"

definition demo_attempt :: "err + int \<Rightarrow> attempt" where
  "demo_attempt chain = \<lparr>at_SignedString = (\<lambda>_. Inr ''token''), at_DialHTTP = (\<lambda>_. Inl (Ext ''refused'')),
     at_DialIPC = (case chain of Inl e \<Rightarrow> Inl e | Inr n \<Rightarrow> Inr \<lparr>cn_rpc = demo_rpc, cn_ChainID = Inr n\<rparr>)\<rparr>"

theorem EngineClient_Start_outcome_witness:
  "fst (EngineClient_Start demo_config (demo_attempt (Inr 1)) (map Tick [demo_attempt (Inl (Ext ''refused''))] @
      Tick (demo_attempt (Inr 80087)) # []) New_EngineClient) = Some (Returns None, False) \<and>
   EngineClient_Start demo_config (demo_attempt (Inl (Ext ''refused''))) [] New_EngineClient =
     (Some (Panics, False), New_EngineClient)"
proof -
  have dial: "dial demo_config (demo_attempt (Inr n)) = Inr \<lparr>cn_rpc = demo_rpc, cn_ChainID = Inr n\<rparr>" for n
    by (simp add: dial_def demo_config_def demo_attempt_def IsHTTP_def IsHTTPS_def IsIPC_def)
  have "dial demo_config (demo_attempt (Inl e)) = Inl e" for e
    by (simp add: dial_def demo_config_def demo_attempt_def IsHTTP_def IsHTTPS_def IsIPC_def)
  moreover have "usable demo_config \<lparr>cn_rpc = demo_rpc, cn_ChainID = Inr 80087\<rparr>"
    by (simp add: usable_def demo_config_def Eth1_ExchangeCapabilities_def demo_rpc_def remote_def)
  moreover have "\<not> refreshes demo_config" by (simp add: refreshes_def demo_config_def)
  ultimately show ?thesis
    using dial EngineClient_Start_outcome [where cfg = demo_config and a = "demo_attempt (Inr 1)" and evs = "[]"
        and s = New_EngineClient and good = "demo_attempt (Inr 80087)" and attempts = "[demo_attempt (Inl (Ext ''refused''))]"]
      EngineClient_Start_outcome [of demo_config "demo_attempt (Inl (Ext ''refused''))" "[]"] by simp
qed

text \<open>A client whose last attempt failed reports that it is started: its status only looks at the pointer.\<close>

lemma Status_after_failure:
  assumes "dial cfg a = Inr c" and "\<not> usable cfg c" and "initializeConnection cfg a s = (r, s')"
  shows "r \<noteq> Returns None \<and> EngineClient_Status s' = None"
  using assms
  by (auto simp: initializeConnection_def dialExecutionRPCClient_dial close_on_error_def usable_def EngineClient_Status_def
      Client_ExchangeCapabilities_def split: sum.splits if_splits)

text \<open>
  A secret survives its hexadecimal text, if \<open>common.FromHex\<close> decodes the texts with the prefix; its printed form shows
  three bytes.
\<close>

lemma hex_Encode_digits: "list_all (\<lambda>c. reverseHexTable c < 16) (hex_Encode b)"
proof -
  have "reverseHexTable (hex_digit (v div 16)) < 16" "reverseHexTable (hex_digit (v mod 16)) < 16" for v :: u8
  proof -
    have d: "unat (v div 16) \<le> 15" "unat (v mod 16) \<le> 15"
      using unsigned_less [of v, where ?'a = nat] by (simp_all add: unat_div unat_mod)
    then have "v div 16 \<le> 15" "v mod 16 \<le> 15" by (simp_all add: word_le_nat_alt)
    with d show "reverseHexTable (hex_digit (v div 16)) < 16" "reverseHexTable (hex_digit (v mod 16)) < 16"
      by (simp_all add: reverseHexTable_digit word_less_nat_alt)
  qed
  then show ?thesis by (induction b) (simp_all add: hex_Encode_def)
qed

lemma secret_roundtrip:
  assumes "length secret = 32" and "from_hex (FromBytes secret) = Some secret"
  shows "Secret_NewFromHex from_hex (Secret_Hex secret) = Inr secret"
    and "Secret_NewRandom from_hex (Inr secret) = Inr secret"
    and "take 8 (Secret_String secret) = take 8 (Secret_Hex secret)"
proof -
  have "ascii ''0x'' = [48, 120]" by (simp add: ascii_def of_char_def)
  then have "HexRegexp (FromBytes secret)"
    using hex_Encode_digits [of secret] by (simp add: HexRegexp_def FromBytes_eq)
  then show "Secret_NewFromHex from_hex (Secret_Hex secret) = Inr secret"
      "Secret_NewRandom from_hex (Inr secret) = Inr secret"
    using assms by (simp_all add: Secret_NewFromHex_def Secret_NewRandom_def Secret_Hex_def EthereumJWTLength_def)
  show "take 8 (Secret_String secret) = take 8 (Secret_Hex secret)"
    using assms(1) by (simp add: Secret_String_def Secret_Hex_def FromBytes_eq)
qed

end
