(* ===== verification/Commands.thy ===== *)
theory Commands
  imports Runtime EngineClient
begin

section \<open>The command line: \<open>mod/cli\<close>\<close>

text \<open>
  The parsers of command line arguments (\<open>utils/parser\<close>), the signers the commands use
  (\<open>mod/node-core/pkg/components/signer\<close>), the commands that create deposits (\<open>commands/deposit\<close>,
  \<open>commands/genesis/deposit.go\<close>), that collect them into the genesis file (\<open>collect.go\<close>), that add the
  execution payload (\<open>payload.go\<close>), the default genesis (\<open>mod/consensus-types/pkg/genesis\<close>) and the commands for the
  JWT secret.

  Files are an association list from paths to contents, listed in the order of their names as \<open>os.ReadDir\<close> does. What
  else can fail in the operating system is the record \<open>os_answers\<close>. The JSON text of deposits and of the genesis, the
  BLS library, the validator key of CometBFT and the conversions of go-ethereum are arguments.
\<close>

subsection \<open>Parsing\<close>

text \<open>\<open>big.Int.SetString\<close> in base 10: an optional sign and at least one digit.\<close>

fun decimal :: "nat \<Rightarrow> bytes \<Rightarrow> nat option" where
  "decimal n [] = Some n"
| "decimal n (c # s) = (if 48 \<le> c \<and> c \<le> 57 then decimal (10 * n + unat (c - 48)) s else None)"

definition big_SetString :: "bytes \<Rightarrow> int option" where
  "big_SetString s =
     (case s of
        [] \<Rightarrow> None
      | c # r \<Rightarrow>
          if c = 45 \<or> c = 43
          then (if r = [] then None
                else map_option (\<lambda>n. if c = 45 then - int n else int n) (decimal 0 r))
          else map_option int (decimal 0 s))"

definition ConvertPubkey :: "bytes \<Rightarrow> err + bytes" where
  "ConvertPubkey pubkey =
     bindE (FromHex pubkey) (\<lambda>pubkeyBytes.
     if length pubkeyBytes \<noteq> 48 then Inl (Newf ''invalid public key length'') else Inr pubkeyBytes)"

definition ConvertWithdrawalCredentials :: "bytes \<Rightarrow> err + bytes" where
  "ConvertWithdrawalCredentials credentials =
     bindE (FromHex credentials) (\<lambda>credentialsBytes.
     if length credentialsBytes \<noteq> 32 then Inl (Newf ''invalid withdrawal credentials length'')
     else Inr credentialsBytes)"

definition ConvertAmount :: "bytes \<Rightarrow> err + u64" where
  "ConvertAmount amount =
     (case big_SetString amount of
        None \<Rightarrow> Inl (Newf ''invalid amount'')
      | Some amountBigInt \<Rightarrow> Inr (big_Uint64 amountBigInt))"

definition ConvertSignature :: "bytes \<Rightarrow> err + bytes" where
  "ConvertSignature signature =
     bindE (FromHex signature) (\<lambda>signatureBytes.
     if length signatureBytes \<noteq> 96 then Inl (Newf ''invalid signature length'') else Inr signatureBytes)"

definition ConvertVersion :: "bytes \<Rightarrow> err + bytes" where
  "ConvertVersion version =
     bindE (FromHex version) (\<lambda>versionBytes.
     if length versionBytes \<noteq> 4 then Inl (Newf ''invalid version'') else Inr versionBytes)"

definition ConvertGenesisValidatorRoot :: "bytes \<Rightarrow> err + bytes" where
  "ConvertGenesisValidatorRoot root =
     bindE (FromHex root) (\<lambda>rootBytes.
     if length rootBytes \<noteq> 32 then Inl (Newf ''invalid root length'') else Inr rootBytes)"

subsection \<open>Signers\<close>

text \<open>The BLS library; its keys and signatures marshal to 48 and 96 bytes.\<close>

record ('sk, 'pk, 'sig) bls_library =
  bls_SecretKeyFromBytes :: "bytes \<Rightarrow> err + 'sk"
  bls_PublicKey :: "'sk \<Rightarrow> bytes"
  bls_Sign :: "'sk \<Rightarrow> bytes \<Rightarrow> bytes"
  bls_PublicKeyFromBytes :: "bytes \<Rightarrow> err + 'pk"
  bls_SignatureFromBytes :: "bytes \<Rightarrow> err + 'sig"
  bls_Verify :: "'sig \<Rightarrow> 'pk \<Rightarrow> bytes \<Rightarrow> bool"

record PrivValidator =
  pv_GetPubKey :: "err + bytes"
  pv_SignBytes :: "bytes \<Rightarrow> err + bytes"

definition signer_VerifySignature :: "('sk, 'pk, 'sig) bls_library \<Rightarrow> verify_fn" where
  "signer_VerifySignature L pubKey msg signature =
     bindE (bls_PublicKeyFromBytes L pubKey) (\<lambda>pk.
     bindE (bls_SignatureFromBytes L signature) (\<lambda>sig.
     if \<not> bls_Verify L sig pk msg then Inl (Newf ''signer returned an invalid signature'') else Inr ()))"

definition NewBLSSigner :: "('sk, 'pk, 'sig) bls_library \<Rightarrow> PrivValidator \<Rightarrow> BLSSigner" where
  "NewBLSSigner L f = \<lparr>
     PublicKey = (case pv_GetPubKey f of Inl _ \<Rightarrow> replicate 48 0 | Inr key \<Rightarrow> key),
     Sign = (\<lambda>msg. bindE (pv_SignBytes f msg) (\<lambda>sig.
       if length sig \<noteq> 96 then Inl (Newf ''signer returned an invalid signature'') else Inr sig)),
     VerifySignature = signer_VerifySignature L\<rparr>"

definition NewLegacySigner :: "('sk, 'pk, 'sig) bls_library \<Rightarrow> bytes \<Rightarrow> err + BLSSigner" where
  "NewLegacySigner L keyBz =
     bindE (bls_SecretKeyFromBytes L keyBz) (\<lambda>secretKey.
     Inr \<lparr>PublicKey = bls_PublicKey L secretKey, Sign = (\<lambda>msg. Inr (bls_Sign L secretKey msg)),
          VerifySignature = signer_VerifySignature L\<rparr>)"

definition LegacyKeyFromString :: "bytes \<Rightarrow> err + bytes" where
  "LegacyKeyFromString privKey =
     bindE (DecodeString privKey) (\<lambda>privKeyBz.
     if length privKeyBz \<noteq> 32 then Inl (Newf ''invalid validator private key length'') else Inr privKeyBz)"

definition ProvideBlsSigner :: "('sk, 'pk, 'sig) bls_library \<Rightarrow> PrivValidator \<Rightarrow> bytes \<Rightarrow> err + BLSSigner" where
  "ProvideBlsSigner L f privKey =
     (if privKey = replicate 32 0 then Inr (NewBLSSigner L f) else NewLegacySigner L privKey)"

text \<open>The signer of the node, or, with the flag, one made from the key on the command line.\<close>

definition getBLSSigner ::
  "('sk, 'pk, 'sig) bls_library \<Rightarrow> PrivValidator \<Rightarrow> bool \<Rightarrow> bytes \<Rightarrow> err + BLSSigner" where
  "getBLSSigner L f overrideFlag validatorPrivKey =
     (if overrideFlag
      then if validatorPrivKey = [] then Inl (Newf ''validator private key required'')
           else bindE (LegacyKeyFromString validatorPrivKey) (ProvideBlsSigner L f)
      else ProvideBlsSigner L f (replicate 32 0))"

subsection \<open>Deposits\<close>

definition createValidatorCmd ::
  "ssz_env \<Rightarrow> SpecData \<Rightarrow> verify_fn \<Rightarrow> err + BLSSigner \<Rightarrow> bytes \<Rightarrow> bytes \<Rightarrow> bytes \<Rightarrow> bytes \<Rightarrow>
   err + DepositMessage \<times> bytes" where
  "createValidatorCmd H chainSpec verify provided arg0 arg1 arg2 arg3 =
     bindE provided (\<lambda>blsSigner.
     bindE (ConvertWithdrawalCredentials arg0) (\<lambda>credentials.
     bindE (ConvertAmount arg1) (\<lambda>amount.
     bindE (ConvertVersion arg2) (\<lambda>currentVersion.
     bindE (ConvertGenesisValidatorRoot arg3) (\<lambda>genesisValidatorRoot.
     bindE (CreateAndSignDepositMessage H (NewForkData currentVersion genesisValidatorRoot)
              (DomainTypeDeposit chainSpec) blsSigner credentials amount) (\<lambda>(depositMsg, signature).
     bindE (VerifyCreateValidator H depositMsg (NewForkData currentVersion genesisValidatorRoot) signature
              (DomainTypeDeposit chainSpec) verify) (\<lambda>_.
     Inr (depositMsg, signature))))))))"

type_synonym files = "(bytes \<times> bytes) list"

record os_answers =
  os_MkdirAll :: "err option"
  os_OpenFile :: "err option"
  os_Write :: "(err \<times> nat) option"
  os_ReadDir :: "err option"
  os_ReadFile :: "bytes \<Rightarrow> err option"

record json_codec =
  js_MarshalDeposit :: "Deposit \<Rightarrow> err + bytes"
  js_UnmarshalDeposit :: "bytes \<Rightarrow> err + Deposit"
  js_MarshalGenesis :: "Genesis \<Rightarrow> err + bytes"
  js_UnmarshalGenesis :: "bytes \<Rightarrow> err + Genesis"
  js_MarshalIndent :: "bytes \<Rightarrow> err + bytes"

definition premined_dir :: "bytes \<Rightarrow> bytes" where
  "premined_dir homeDir = homeDir @ ascii ''/config/premined-deposits''"

definition makeOutputFilepath :: "os_answers \<Rightarrow> bytes \<Rightarrow> bytes \<Rightarrow> err + bytes" where
  "makeOutputFilepath io homeDir pubkey =
     (case os_MkdirAll io of
        Some _ \<Rightarrow> Inl (Newf ''could not create directory'')
      | None \<Rightarrow> Inr (premined_dir homeDir @ ascii ''/premined-deposit-'' @ pubkey @ ascii ''.json''))"

text \<open>The file is created exclusively; it stays when the text or the write fails, empty or cut short.\<close>

definition writeDepositToFile :: "os_answers \<Rightarrow> json_codec \<Rightarrow> bytes \<Rightarrow> Deposit \<Rightarrow> (files, unit) M" where
  "writeDepositToFile io J outputDocument depositMessage fs =
     (case os_OpenFile io of
        Some e \<Rightarrow> (Inl e, fs)
      | None \<Rightarrow>
          if map_of fs outputDocument \<noteq> None then (Inl (Ext ''file exists''), fs)
          else (case js_MarshalDeposit J depositMessage of
                  Inl e \<Rightarrow> (Inl e, fs @ [(outputDocument, [])])
                | Inr bz \<Rightarrow>
                    (case os_Write io of
                       Some (e, n) \<Rightarrow> (Inl e, fs @ [(outputDocument, take n (bz @ [10]))])
                     | None \<Rightarrow> (Inr (), fs @ [(outputDocument, bz @ [10])]))))"

definition premined_deposit ::
  "ssz_env \<Rightarrow> SpecData \<Rightarrow> verify_fn \<Rightarrow> BLSSigner \<Rightarrow> bytes \<Rightarrow> err + Deposit" where
  "premined_deposit H chainSpec verify blsSigner depositAmountString =
     bindE (ConvertAmount depositAmountString) (\<lambda>depositAmount.
     let currentVersion = FromUint32 Deneb in
     bindE (CreateAndSignDepositMessage H (NewForkData currentVersion zero32) (DomainTypeDeposit chainSpec) blsSigner
              (NewCredentialsFromExecutionAddress (replicate 20 0)) depositAmount) (\<lambda>(depositMsg, signature).
     bindE (VerifyCreateValidator H depositMsg (NewForkData currentVersion zero32) signature
              (DomainTypeDeposit chainSpec) verify) (\<lambda>_.
     Inr \<lparr>dep_Pubkey = dm_Pubkey depositMsg, dep_Credentials = dm_Credentials depositMsg,
          dep_Amount = dm_Amount depositMsg, dep_Signature = signature, dep_Index = 0\<rparr>)))"

definition AddGenesisDepositCmd ::
  "ssz_env \<Rightarrow> SpecData \<Rightarrow> verify_fn \<Rightarrow> os_answers \<Rightarrow> json_codec \<Rightarrow> bytes \<Rightarrow> err + bytes \<Rightarrow> err + BLSSigner \<Rightarrow>
   bytes \<Rightarrow> bytes \<Rightarrow> (files, unit) M" where
  "AddGenesisDepositCmd H chainSpec verify io J homeDir nodeKey provided depositAmountString outputDocument =
     bindM (liftE nodeKey) (\<lambda>valPubKey.
     bindM (liftE provided) (\<lambda>blsSigner.
     bindM (liftE (premined_deposit H chainSpec verify blsSigner depositAmountString)) (\<lambda>deposit.
     bindM (liftE (if outputDocument = []
                   then bindE (to_array 48 valPubKey) (\<lambda>k. makeOutputFilepath io homeDir (B48_String k))
                   else Inr outputDocument)) (\<lambda>path.
     writeDepositToFile io J path deposit))))"

subsection \<open>Collection of the deposits\<close>

definition file_in :: "bytes \<Rightarrow> bytes \<Rightarrow> bool" where
  "file_in dir path \<longleftrightarrow> take (length dir + 1) path = dir @ [47] \<and> 47 \<notin> set (drop (length dir + 1) path)"

definition ReadDir :: "bytes \<Rightarrow> files \<Rightarrow> files" where
  "ReadDir dir fs = sort_key fst (filter (\<lambda>e. file_in dir (fst e)) fs)"

definition json_suffix :: "bytes \<Rightarrow> bool" where
  "json_suffix name \<longleftrightarrow> drop (length name - 5) name = ascii ''.json''"

definition CollectValidatorJSONFiles ::
  "os_answers \<Rightarrow> json_codec \<Rightarrow> bytes \<Rightarrow> err + unit \<Rightarrow> files \<Rightarrow> err + Deposit list" where
  "CollectValidatorJSONFiles io J genTxsDir appState fs =
     bindE appState (\<lambda>_.
     case os_ReadDir io of
       Some e \<Rightarrow> Inl e
     | None \<Rightarrow>
         mapE (\<lambda>(path, bz). case os_ReadFile io path of Some e \<Rightarrow> Inl e | None \<Rightarrow> js_UnmarshalDeposit J bz)
           (filter (\<lambda>e. json_suffix (fst e)) (ReadDir genTxsDir fs)))"

definition numbered :: "Deposit list \<Rightarrow> Deposit list" where
  "numbered deposits = map (\<lambda>(i, d). d\<lparr>dep_Index := of_nat i\<rparr>) (enumerate 0 deposits)"

text \<open>
  The commands that change the genesis file: \<open>beacon\<close> is its section for the beacon chain, or the error of reading
  the file; the result is the new section. \<open>json.MarshalIndent\<close> runs over the whole application state; \<open>js_MarshalIndent\<close> is
  what it makes of the section.
\<close>

definition edit_genesis ::
  "json_codec \<Rightarrow> err + bytes \<Rightarrow> (Genesis \<Rightarrow> err + Genesis) \<Rightarrow> err option \<Rightarrow> err + bytes" where
  "edit_genesis J beacon f exported =
     bindE beacon (\<lambda>raw.
     bindE (js_UnmarshalGenesis J raw) (\<lambda>genesisInfo.
     bindE (f genesisInfo) (\<lambda>genesisInfo.
     bindE (js_MarshalGenesis J genesisInfo) (\<lambda>bz.
     bindE (js_MarshalIndent J bz) (\<lambda>bz.
     case exported of Some e \<Rightarrow> Inl e | None \<Rightarrow> Inr bz)))))"

definition CollectGenesisDepositsCmd ::
  "os_answers \<Rightarrow> json_codec \<Rightarrow> bytes \<Rightarrow> err + bytes \<Rightarrow> err + unit \<Rightarrow> err option \<Rightarrow> files \<Rightarrow> err + bytes" where
  "CollectGenesisDepositsCmd io J homeDir beacon appState exported fs =
     bindE beacon (\<lambda>_.
     bindE (CollectValidatorJSONFiles io J (premined_dir homeDir) appState fs) (\<lambda>deposits.
     edit_genesis J beacon
       (\<lambda>genesisInfo. Inr (genesisInfo\<lparr>gen_Deposits := gen_Deposits genesisInfo @ numbered deposits\<rparr>)) exported))"

subsection \<open>The execution payload of genesis\<close>

text \<open>The payload of go-ethereum, \<open>engine.ExecutableData\<close>; its withdrawals have the layout of \<open>Withdrawal\<close>.\<close>

record geth_ExecutableData =
  gx_ParentHash :: b32
  gx_FeeRecipient :: bytes
  gx_StateRoot :: b32
  gx_ReceiptsRoot :: b32
  gx_LogsBloom :: bytes
  gx_Random :: b32
  gx_Number :: u64
  gx_GasLimit :: u64
  gx_GasUsed :: u64
  gx_Timestamp :: u64
  gx_ExtraData :: bytes
  gx_BaseFeePerGas :: "int option"
  gx_BlockHash :: b32
  gx_Transactions :: "bytes list"
  gx_Withdrawals :: "Withdrawal list"
  gx_BlobGasUsed :: "u64 option"
  gx_ExcessBlobGas :: "u64 option"

definition or_zero :: "u64 option \<Rightarrow> u64" where
  "or_zero v = (case v of None \<Rightarrow> 0 | Some n \<Rightarrow> n)"

definition executableDataToExecutionPayloadHeader ::
  "ssz_env \<Rightarrow> bool \<Rightarrow> geth_ExecutableData \<Rightarrow> err + ExecutionPayloadHeaderDeneb" where
  "executableDataToExecutionPayloadHeader H first data =
     (let extraData = (if length (gx_ExtraData data) > ExtraDataSize then take ExtraDataSize (gx_ExtraData data)
                       else gx_ExtraData data) in
      bindE (errgroup2 first (Transactions_HashTreeRoot H (gx_Transactions data))
               (Withdrawals_HashTreeRoot H (gx_Withdrawals data))) (\<lambda>(txsRoot, withdrawalsRoot).
      bindE (MustNewU256LFromBigInt (gx_BaseFeePerGas data)) (\<lambda>baseFeePerGas.
      Inr \<lparr>ph_ParentHash = gx_ParentHash data, ph_FeeRecipient = gx_FeeRecipient data,
        ph_StateRoot = gx_StateRoot data, ph_ReceiptsRoot = gx_ReceiptsRoot data, ph_LogsBloom = gx_LogsBloom data,
        ph_Random = gx_Random data, ph_Number = gx_Number data, ph_GasLimit = gx_GasLimit data,
        ph_GasUsed = gx_GasUsed data, ph_Timestamp = gx_Timestamp data, ph_ExtraData = extraData,
        ph_BaseFeePerGas = baseFeePerGas, ph_BlockHash = gx_BlockHash data, ph_TransactionsRoot = txsRoot,
        ph_WithdrawalsRoot = withdrawalsRoot, ph_BlobGasUsed = or_zero (gx_BlobGasUsed data),
        ph_ExcessBlobGas = or_zero (gx_ExcessBlobGas data)\<rparr>)))"

definition AddExecutionPayloadCmd ::
  "ssz_env \<Rightarrow> bool \<Rightarrow> json_codec \<Rightarrow> err + geth_ExecutableData \<Rightarrow> err + bytes \<Rightarrow> err option \<Rightarrow> err + bytes" where
  "AddExecutionPayloadCmd H first J ethGenesis beacon exported =
     bindE ethGenesis (\<lambda>payload.
     edit_genesis J beacon
       (\<lambda>genesisInfo. bindE (executableDataToExecutionPayloadHeader H first payload) (\<lambda>header.
          Inr (genesisInfo\<lparr>gen_ExecutionPayloadHeader := header\<rparr>))) exported)"

text \<open>The default genesis; \<open>Hex2BytesFixed\<close> and \<open>HexToHash\<close> are those of go-ethereum.\<close>

definition DefaultGenesisExecutionPayloadHeaderDeneb ::
  "ssz_env \<Rightarrow> bool \<Rightarrow> (string \<Rightarrow> nat \<Rightarrow> bytes) \<Rightarrow> (string \<Rightarrow> b32) \<Rightarrow> err + ExecutionPayloadHeaderDeneb" where
  "DefaultGenesisExecutionPayloadHeaderDeneb H first hex2BytesFixed hexToHash =
     bindE (errgroup2 first (Transactions_HashTreeRoot H []) (Withdrawals_HashTreeRoot H []))
       (\<lambda>(emptyTxsRoot, emptyWithdrawalsRoot).
     bindE (to_array 32 (hex2BytesFixed ''0x12965ab9cbe2d2203f61d23636eb7e998f167cb79d02e452f532535641e35bcc'' 32))
       (\<lambda>stateRoot.
     bindE (to_array 32 (hex2BytesFixed ''0x56e81f171bcc55a6ff8345e692c0f86e5b48e01b996cadc001622fb5e363b421'' 32))
       (\<lambda>receiptsRoot.
     bindE (MustNewU256LFromBigInt (Some 3906250)) (\<lambda>baseFeePerGas.
     Inr \<lparr>ph_ParentHash = zero32, ph_FeeRecipient = replicate 20 0, ph_StateRoot = stateRoot,
       ph_ReceiptsRoot = receiptsRoot, ph_LogsBloom = replicate LogsBloomSize 0, ph_Random = zero32, ph_Number = 0,
       ph_GasLimit = 30000000, ph_GasUsed = 0, ph_Timestamp = 0, ph_ExtraData = replicate ExtraDataSize 0,
       ph_BaseFeePerGas = baseFeePerGas,
       ph_BlockHash = hexToHash ''0xcfff92cd918a186029a847b59aca4f83d3941df5946b06bca8de0861fc5d0850'',
       ph_TransactionsRoot = emptyTxsRoot, ph_WithdrawalsRoot = emptyWithdrawalsRoot, ph_BlobGasUsed = 0,
       ph_ExcessBlobGas = 0\<rparr>))))"

definition DefaultGenesisDeneb ::
  "ssz_env \<Rightarrow> bool \<Rightarrow> (string \<Rightarrow> nat \<Rightarrow> bytes) \<Rightarrow> (string \<Rightarrow> b32) \<Rightarrow> err + Genesis" where
  "DefaultGenesisDeneb H first hex2BytesFixed hexToHash =
     (case DefaultGenesisExecutionPayloadHeaderDeneb H first hex2BytesFixed hexToHash of
        Inl _ \<Rightarrow> Inl (Panic ''DefaultGenesisDeneb'')
      | Inr defaultHeader \<Rightarrow>
          Inr \<lparr>gen_ForkVersion = FromUint32 Deneb, gen_Deposits = [], gen_ExecutionPayloadHeader = defaultHeader\<rparr>)"

subsection \<open>The JWT secret\<close>

text \<open>\<open>strings.TrimSpace\<close> on ASCII text.\<close>

definition is_space :: "u8 \<Rightarrow> bool" where
  "is_space c \<longleftrightarrow> c \<in> {9, 10, 11, 12, 13, 32}"

definition TrimSpace :: "bytes \<Rightarrow> bytes" where
  "TrimSpace s = rev (dropWhile is_space (rev (dropWhile is_space s)))"

definition getFilePath :: "bytes \<Rightarrow> bytes option \<Rightarrow> err + bytes" where
  "getFilePath specified homeDir =
     (if specified \<noteq> [] then Inr specified
      else case homeDir of
             None \<Rightarrow> Inl (Newf ''client context not found'')
           | Some dir \<Rightarrow> Inr (dir @ ascii ''/config/jwt.hex''))"

definition put_file :: "bytes \<Rightarrow> bytes \<Rightarrow> files \<Rightarrow> files" where
  "put_file path bz fs = (path, bz) # filter (\<lambda>e. fst e \<noteq> path) fs"

definition generateAuthSecretInFile ::
  "os_answers \<Rightarrow> (bytes \<Rightarrow> bytes option) \<Rightarrow> err + bytes \<Rightarrow> err + bool \<Rightarrow> bytes \<Rightarrow> (files, unit) M" where
  "generateAuthSecretInFile io from_hex rand_Read dirExists fileName fs =
     (case dirExists of
        Inl e \<Rightarrow> (Inl e, fs)
      | Inr exists \<Rightarrow>
          (case if exists then None else os_MkdirAll io of
             Some e \<Rightarrow> (Inl e, fs)
           | None \<Rightarrow>
               (case Secret_NewRandom from_hex rand_Read of
                  Inl e \<Rightarrow> (Inl e, fs)
                | Inr secret \<Rightarrow>
                    (case os_OpenFile io of
                       Some e \<Rightarrow> (Inl e, fs)
                     | None \<Rightarrow>
                         (case os_Write io of
                            Some (e, n) \<Rightarrow> (Inl e, put_file fileName (take n (Secret_Hex secret)) fs)
                          | None \<Rightarrow> (Inr (), put_file fileName (Secret_Hex secret) fs))))))"

definition LoadJWTFromFile :: "os_answers \<Rightarrow> (bytes \<Rightarrow> bytes option) \<Rightarrow> bytes \<Rightarrow> files \<Rightarrow> err + bytes" where
  "LoadJWTFromFile io from_hex path fs =
     (case os_ReadFile io path of
        Some e \<Rightarrow> Inl e
      | None \<Rightarrow>
          (case map_of fs path of
             None \<Rightarrow> Inl (Ext ''file does not exist'')
           | Some bz \<Rightarrow> Secret_NewFromHex from_hex (TrimSpace bz)))"

definition validateJWTSecret :: "os_answers \<Rightarrow> (bytes \<Rightarrow> bytes option) \<Rightarrow> bytes \<Rightarrow> files \<Rightarrow> err + unit" where
  "validateJWTSecret io from_hex path fs = bindE (LoadJWTFromFile io from_hex path fs) (\<lambda>_. Inr ())"

end
