(* ===== verification/Bootstrap.thy ===== *)
theory Bootstrap
  imports Commands Invariants
begin

section \<open>From the command line to genesis\<close>

text \<open>
  The path of a new chain: every validator runs \<open>add-premined-deposit\<close>, the deposits are collected into the
  genesis file, and a node that starts on that file initializes its state.
\<close>

subsection \<open>Deposits that succeed\<close>

lemma mem_addValidatorToRegistry_ok:
  assumes reg: "registry_ok w" and new: "addr (dep_Pubkey dep) \<notin> addr ` pubkeys w"
    and inc: "EffectiveBalanceIncrement (cs sp) \<noteq> 0"
  shows "\<exists>w'. addValidatorToRegistry sp (mem_kv addr) dep w = (Inr (), w')"
proof -
  obtain val where val: "NewValidatorFromDeposit (dep_Pubkey dep) (dep_Credentials dep) (dep_Amount dep)
      (EffectiveBalanceIncrement (cs sp)) (MaxEffectiveBalance (cs sp)) = Inr val"
    using inc by (simp add: NewValidatorFromDeposit_def mod_u64_def)
  then have pk: "val_Pubkey val = dep_Pubkey dep" by (rule NewValidatorFromDeposit_Inr)
  let ?i = "v_validatorIndex w"
  have "\<not> conflicts addr (v_validators w) ?i val"
    using new pk by (force simp: conflicts_def list_ex_iff pubkeys_def image_iff)
  moreover have "by_pubkey (put ?i val (v_validators w)) (dep_Pubkey dep) = Some ?i"
  proof -
    have "put ?i val (v_validators w) = v_validators w @ [(?i, val)]"
      by (rule put_append) (rule registry_keys_less [OF reg])
    moreover have "by_pubkey (v_validators w) (dep_Pubkey dep) = None"
      using new by (auto simp: by_pubkey_None pubkeys_def)
    ultimately show ?thesis using pk by (simp add: by_pubkey_def map_add_def)
  qed
  ultimately show ?thesis
    using val pk by (simp add: addValidatorToRegistry_def bindM_def mem_ops Let_def mem_IncreaseBalance)
qed

lemma mem_processDeposit_ok:
  assumes "registry_ok w" and "v_eth1DepositIndex w \<noteq> None" and "addr (dep_Pubkey dep) \<notin> addr ` pubkeys w"
    and "deposit_fork sp w fd" and "EffectiveBalanceIncrement (cs sp) \<noteq> 0"
    and "Deposit_VerifySignature (sszEnv sp) dep fd (DomainTypeDeposit (cs sp)) (VerifySignature (signer sp)) = Inr ()"
  shows "\<exists>w'. processDeposit sp (mem_kv addr) dep w = (Inr (), w')"
proof -
  from assms(2) obtain n where n: "v_eth1DepositIndex w = Some n" by blast
  let ?w = "w\<lparr>v_eth1DepositIndex := Some (n + 1)\<rparr>"
  have "registry_ok ?w" "pubkeys ?w = pubkeys w" using assms(1) by (simp_all add: registry_ok_def pubkeys_def)
  then obtain w' where add: "addValidatorToRegistry sp (mem_kv addr) dep ?w = (Inr (), w')"
    using mem_addValidatorToRegistry_ok [of ?w addr dep sp] assms(3,5) by auto
  have "by_pubkey (v_validators w) (dep_Pubkey dep) = None"
    using assms(3) by (auto simp: by_pubkey_None pubkeys_def)
  then show ?thesis
    using n add assms(4,6)
    by (auto simp: processDeposit_def applyDeposit_def createValidator_def mem_ops bindM_def deposit_fork_def
        SlotToEpoch_def div_u64_def to_array_def split: option.splits)
qed

lemma deposits_ok:
  assumes "deposits_inv (cs sp) addr w" and "unat (v_validatorIndex w) + length deps < 2 ^ 64"
    and "v_eth1DepositIndex w \<noteq> None" and "deposit_fork sp w fd" and "EffectiveBalanceIncrement (cs sp) \<noteq> 0"
    and "distinct (map (addr \<circ> dep_Pubkey) deps)" and "\<forall>d \<in> set deps. addr (dep_Pubkey d) \<notin> addr ` pubkeys w"
    and "\<forall>d \<in> set deps. Deposit_VerifySignature (sszEnv sp) d fd (DomainTypeDeposit (cs sp))
      (VerifySignature (signer sp)) = Inr ()"
  shows "\<exists>w'. forM deps (processDeposit sp (mem_kv addr)) w = (Inr (), w')"
  using assms
proof (induction deps arbitrary: w)
  case (Cons d deps)
  then obtain w1 where run: "processDeposit sp (mem_kv addr) d w = (Inr (), w1)"
    using mem_processDeposit_ok [of w addr d sp fd] by (auto simp: deposits_inv_def)
  note step = deposit_step [OF Cons.prems(1) _ run] and frame = processDeposit_frame [OF run]
  from frame obtain a b c e where
    "w1 = w\<lparr>v_eth1DepositIndex := a, v_validatorIndex := b, v_validators := c, v_balances := e\<rparr>"
    unfolding deposit_frame_def by blast
  then have "v_slot w1 = v_slot w" "v_genesisValidatorsRoot w1 = v_genesisValidatorsRoot w" by simp_all
  then have "deposit_fork sp w1 fd" using Cons.prems(4) by (simp add: deposit_fork_def)
  then have "\<exists>w'. forM deps (processDeposit sp (mem_kv addr)) w1 = (Inr (), w')"
    using step Cons.prems by (intro Cons.IH) (auto simp: image_iff)
  then show ?case using run by (auto simp: bindM_def)
qed simp

text \<open>The validators that deposits make have the sizes of the containers.\<close>

definition validators_wf :: "kv_view \<Rightarrow> bool" where
  "validators_wf w \<longleftrightarrow> (\<forall>e \<in> set (v_validators w). Validator_wf (snd e))"

lemma deposit_wf_step:
  assumes "registry_ok w" and "validators_wf w" and "Deposit_wf d"
    and "processDeposit sp (mem_kv addr) d w = (Inr (), w')"
  shows "validators_wf w'"
  using assms(1,4)
proof (cases rule: mem_processDeposit)
  case (existing n i v)
  have "Validator_wf v" using assms(2) existing(2) by (force simp: validators_wf_def dest: map_of_SomeD)
  with existing(4) assms(2) set_put [OF registry_ordered(1) [OF assms(1)]] show ?thesis
    by (auto simp: validators_wf_def Validator_wf_def)
next
  case (created n fd val)
  with NewValidatorFromDeposit_Inr [OF created(5)] assms(2,3) show ?thesis
    by (auto simp: validators_wf_def Validator_wf_def Deposit_wf_def with_new_validator_def Let_def)
qed

lemma deposits_wf_steps:
  assumes "deposits_inv (cs sp) addr w" and "unat (v_validatorIndex w) + length deps < 2 ^ 64"
    and "validators_wf w" and "\<forall>d \<in> set deps. Deposit_wf d"
    and "forM deps (processDeposit sp (mem_kv addr)) w = (Inr (), w')"
  shows "validators_wf w'"
  using assms
proof (induction deps arbitrary: w)
  case (Cons d deps)
  then obtain w1 where run: "processDeposit sp (mem_kv addr) d w = (Inr (), w1)"
      "forM deps (processDeposit sp (mem_kv addr)) w1 = (Inr (), w')"
    by (auto simp: bindM_success)
  have "validators_wf w1"
    by (rule deposit_wf_step [OF _ Cons.prems(3) _ run(1)]) (use Cons.prems in \<open>auto simp: deposits_inv_def\<close>)
  then show ?case
    using deposit_step [OF Cons.prems(1) _ run(1)] Cons.prems run(2) by (intro Cons.IH [of w1]) auto
qed simp

subsection \<open>A genesis that succeeds\<close>

definition signed_for_genesis :: "StateProcessor \<Rightarrow> Deposit \<Rightarrow> bool" where
  "signed_for_genesis sp d \<longleftrightarrow> Deposit_wf d \<and>
     Deposit_VerifySignature (sszEnv sp) d (NewForkData (FromUint32 Deneb) zero32) (DomainTypeDeposit (cs sp))
       (VerifySignature (signer sp)) = Inr ()"

text \<open>A signer whose signatures verify, with keys and signatures of the right size.\<close>

definition honest_signer :: "verify_fn \<Rightarrow> BLSSigner \<Rightarrow> bool" where
  "honest_signer verify s \<longleftrightarrow> length (PublicKey s) = 48 \<and>
     (\<forall>msg. length msg = 32 \<longrightarrow>
        (\<exists>sig. Sign s msg = Inr sig \<and> length sig = 96 \<and> verify (PublicKey s) msg sig = Inr ()))"

lemma Deneb_version: "ToUint32 (FromUint32 Deneb) = Deneb" "length (FromUint32 v) = 4"
  by (simp_all add: ToUint32_def FromUint32_def Deneb_def upt_rec)

lemma empty_body_wf: "BeaconBlockBody_Empty Deneb = Inr b \<Longrightarrow> Body_wf b"
  by (auto simp: BeaconBlockBody_Empty_def Body_wf_def Payload_wf_def Eth1Data_wf_def or_new_Eth1Data_def
      empty_Eth1Data_def zero32_def LogsBloomSize_def ExtraDataSize_def)

context hashing
begin

lemma empty_body_root:
  "\<exists>r. bindE (BeaconBlockBody_Empty (ToUint32 (FromUint32 Deneb))) (htr_BeaconBlockBody (generated_env W E)) = Inr r"
proof -
  obtain b where b: "BeaconBlockBody_Empty Deneb = Inr b" by (simp add: BeaconBlockBody_Empty_def)
  from Body_hash [OF empty_body_wf [OF b]] b show ?thesis by (simp add: Deneb_version)
qed

lemma validators_root:
  assumes "\<forall>v \<in> set vs. Validator_wf v" and "length vs \<le> 2 ^ 40"
  shows "\<exists>r. MerkleizeListComposite E (htr_Validator (generated_env W E)) vs (of_nat (length vs)) = Inr r"
  using composite_root [OF mapE_Inr_map [of vs "Validator_HashTreeRoot W" "\<lambda>v. container_root E (Validator_fields E v)"],
      of "length vs"] Validator_hash assms
  by (simp add: generated_env_def)

lemma mem_Initialize_ok:
  assumes sp: "sszEnv sp = generated_env W E" and spec: "SlotsPerEpoch (cs sp) \<noteq> 0" "0 < ElectraForkEpoch (cs sp)"
      "EffectiveBalanceIncrement (cs sp) \<noteq> 0"
    and header: "payload_header_encodable header" and few: "length deposits \<le> 2 ^ 40"
    and signed: "\<forall>d \<in> set deposits. signed_for_genesis sp d"
    and distinct: "distinct (map (addr \<circ> dep_Pubkey) deposits)" and empty: "h_ctx h = empty_view"
  shows "\<exists>us h'. InitializePreminedBeaconStateFromEth1 sp mem_branching (mem_kv addr) deposits header
    (FromUint32 Deneb) h = (Inr us, h')"
proof -
  from empty_body_root sp obtain bodyRoot where body:
    "bindE (BeaconBlockBody_Empty (ToUint32 (FromUint32 Deneb))) (htr_BeaconBlockBody (sszEnv sp)) = Inr bodyRoot"
    by auto
  let ?g = "genesis_view (FromUint32 Deneb) (EpochsPerHistoricalVector (cs sp)) (ph_BlockHash header) bodyRoot"
  have "deposit_fork sp ?g (NewForkData (FromUint32 Deneb) zero32)"
    using spec by (simp add: deposit_fork_def genesis_view_def ActiveForkVersionForEpoch_def zero32_def)
  moreover have "v_eth1DepositIndex ?g \<noteq> None" by (simp add: genesis_view_def)
  ultimately obtain w where w: "forM deposits (processDeposit sp (mem_kv addr)) ?g = (Inr (), w)"
    using deposits_ok [where deps = deposits and sp = sp and w = ?g and addr = addr] few signed spec(3) distinct
    by (auto simp: genesis_view_inv signed_for_genesis_def)
  have steps: "deposits_inv (cs sp) addr w" "pubkeys w = dep_Pubkey ` set deposits"
    using deposits_steps [OF genesis_view_inv(1) _ w] few by (auto simp: genesis_view_inv(3,4))
  have "validators_wf ?g" by (simp add: validators_wf_def genesis_view_def empty_view_def)
  then have wf: "validators_wf w"
    using deposits_wf_steps [OF genesis_view_inv(1) _ _ _ w] few signed
    by (auto simp: genesis_view_inv(3) signed_for_genesis_def)
  have reg: "registry_ok w" using steps by (simp add: deposits_inv_def)
  have "length (v_validators w) \<le> 2 ^ 40"
    using pubkeys_card [OF reg] registry_length(1) [OF reg] steps(2) few
      card_image_le [of "set deposits" dep_Pubkey] card_length [of deposits] by simp
  then obtain root where root: "MerkleizeListComposite (merkle (sszEnv sp)) (htr_Validator (sszEnv sp))
      (map snd (v_validators w)) (of_nat (length (v_validators w))) = Inr root"
    using validators_root [of "map snd (v_validators w)"] wf sp by (auto simp: validators_wf_def)
  let ?fin = "w\<lparr>v_genesisValidatorsRoot := Some root,
      v_latestExecutionPayloadVersion := Some Deneb, v_latestExecutionPayloadHeader := Some header,
      v_blockRoots := fold (\<lambda>i. put i zero32) (range_u64 (HistoricalRootsLimit (cs sp))) (v_blockRoots w),
      v_stateRoots := fold (\<lambda>i. put i zero32) (range_u64 (HistoricalRootsLimit (cs sp))) (v_stateRoots w),
      v_nextWithdrawalIndex := Some 0, v_nextWithdrawalValidatorIndex := Some 0, v_totalSlashing := Some 0\<rparr>"
  have "registry_ok ?fin" using reg by (simp add: registry_ok_def)
  note fin = mem_processSyncCommitteeUpdates [OF this, of addr]
  show ?thesis
    unfolding InitializePreminedBeaconStateFromEth1_def on_handle_def [abs_def] Let_def
    using w fin header empty
    by (simp add: mem_ops fill_randao fill_roots body root genesis_view_def empty_view_def)
qed

lemma premined_deposit_ok:
  assumes "length (DomainTypeDeposit spec) = 4" and "honest_signer verify s" and "ConvertAmount amount = Inr a"
  obtains d where "premined_deposit (generated_env W E) spec verify s amount = Inr d" and "Deposit_wf d"
    and "dep_Pubkey d = PublicKey s" and "dep_Amount d = a"
    and "Deposit_VerifySignature (generated_env W E) d (NewForkData (FromUint32 Deneb) zero32)
      (DomainTypeDeposit spec) verify = Inr ()"
proof -
  let ?H = "generated_env W E" and ?cred = "NewCredentialsFromExecutionAddress (replicate 20 0)"
  let ?fd = "NewForkData (FromUint32 Deneb) zero32"
  let ?m = "\<lparr>dm_Pubkey = PublicKey s, dm_Credentials = ?cred, dm_Amount = a\<rparr>"
  have "ForkData_wf ?fd" by (simp add: ForkData_wf_def NewForkData_def Deneb_version zero32_def)
  from ForkData_hash [OF this] obtain dom where dom: "ComputeDomain ?H ?fd (DomainTypeDeposit spec) = Inr dom" "length dom = 32"
    using assms(1) by (simp add: ComputeDomain_def generated_env_def ForkData_fields_def)
  have cred: "length ?cred = 32" by (simp add: NewCredentialsFromExecutionAddress_def)
  have "DepositMessage_wf ?m" using assms(2) cred by (simp add: DepositMessage_wf_def honest_signer_def)
  note m = DepositMessage_hash [OF this]
  have "SigningData_wf \<lparr>sd_ObjectRoot = container_root E (DepositMessage_fields E ?m), sd_Domain = dom\<rparr>"
    using dom by (simp add: SigningData_wf_def DepositMessage_fields_def)
  from SigningData_hash [OF this] m obtain msg where
    msg: "ComputeSigningRoot ?H (htr_DepositMessage ?H ?m) dom = Inr msg" "length msg = 32"
    by (simp add: ComputeSigningRoot_def generated_env_def SigningData_fields_def)
  obtain sig where sig: "Sign s msg = Inr sig" "length sig = 96" "verify (PublicKey s) msg sig = Inr ()"
    using assms(2) msg(2) by (auto simp: honest_signer_def)
  have verified: "VerifyCreateValidator ?H ?m ?fd sig (DomainTypeDeposit spec) verify = Inr ()"
    using dom msg sig by (simp add: VerifyCreateValidator_def)
  show thesis
    by (rule that [of "\<lparr>dep_Pubkey = PublicKey s, dep_Credentials = ?cred, dep_Amount = a, dep_Signature = sig,
          dep_Index = 0\<rparr>"])
      (use assms(2,3) dom msg sig verified cred in \<open>simp_all add: premined_deposit_def CreateAndSignDepositMessage_def
         Deposit_wf_def honest_signer_def Deposit_VerifySignature_def\<close>)
qed

end

subsection \<open>The files of the deposits\<close>

text \<open>What the commands rely on: the operating system answers without errors, and JSON text is read back, also after it is indented.\<close>

definition io_ok :: "os_answers \<Rightarrow> bool" where
  "io_ok io \<longleftrightarrow> os_MkdirAll io = None \<and> os_OpenFile io = None \<and> os_Write io = None \<and> os_ReadDir io = None \<and>
     (\<forall>path. os_ReadFile io path = None)"

definition Genesis_wf :: "Genesis \<Rightarrow> bool" where
  "Genesis_wf g \<longleftrightarrow> length (gen_ForkVersion g) = 4 \<and> length (gen_Deposits g) \<le> 2 ^ 40 \<and> (\<forall>d \<in> set (gen_Deposits g). Deposit_wf d) \<and>
     PayloadHeader_wf (gen_ExecutionPayloadHeader g)"

definition json_ok :: "json_codec \<Rightarrow> bool" where
  "json_ok J \<longleftrightarrow>
     (\<forall>d. Deposit_wf d \<longrightarrow> (\<exists>bz. js_MarshalDeposit J d = Inr bz \<and> js_UnmarshalDeposit J (bz @ [10]) = Inr d)) \<and>
     (\<forall>g. Genesis_wf g \<longrightarrow> (\<exists>bz bz'. js_MarshalGenesis J g = Inr bz \<and> js_UnmarshalGenesis J bz = Inr g \<and>
        js_MarshalIndent J bz = Inr bz' \<and> js_UnmarshalGenesis J bz' = Inr g))"

definition premine ::
  "ssz_env \<Rightarrow> SpecData \<Rightarrow> verify_fn \<Rightarrow> os_answers \<Rightarrow> json_codec \<Rightarrow> bytes \<Rightarrow> (BLSSigner \<times> bytes) list \<Rightarrow> (files, unit) M" where
  "premine H spec verify io J homeDir vs =
     forM vs (\<lambda>(s, amount). AddGenesisDepositCmd H spec verify io J homeDir (Inr (PublicKey s)) (Inr s) amount [])"

definition deposit_path :: "bytes \<Rightarrow> BLSSigner \<times> bytes \<Rightarrow> bytes" where
  "deposit_path homeDir v =
     premined_dir homeDir @ ascii ''/premined-deposit-'' @ B48_String (PublicKey (fst v)) @ ascii ''.json''"

lemma deposit_path_inj:
  assumes "length (PublicKey (fst v)) = 48" "length (PublicKey (fst v')) = 48"
    and "deposit_path homeDir v = deposit_path homeDir v'"
  shows "PublicKey (fst v) = PublicKey (fst v')"
proof -
  have "B48_String (PublicKey (fst v)) = B48_String (PublicKey (fst v'))" using assms(3) by (simp add: deposit_path_def)
  with key_text(2) [OF assms(1)] key_text(2) [OF assms(2)] show ?thesis by (metis prod.inject)
qed

lemma json_suffix_append: "json_suffix (name @ ascii ''.json'')"
  by (simp add: json_suffix_def ascii_def)

lemma deposit_path_listed: "file_in (premined_dir homeDir) (deposit_path homeDir v)" "json_suffix (deposit_path homeDir v)"
proof -
  have "c \<noteq> 47" if "c \<in> set (hex_Encode k)" for c k
    using hex_Encode_digits [of k] that by (auto simp: list_all_iff reverseHexTable_def)
  then have "47 \<notin> set (B48_String k)" for k by (auto simp: B48_String_def FromBytes_eq)
  then show "file_in (premined_dir homeDir) (deposit_path homeDir v)"
    by (simp add: file_in_def deposit_path_def ascii_def of_char_def)
  show "json_suffix (deposit_path homeDir v)"
    using json_suffix_append [of "premined_dir homeDir @ ascii ''/premined-deposit-'' @ B48_String (PublicKey (fst v))"]
    by (simp add: deposit_path_def)
qed

lemma premine_files:
  assumes "io_ok io" and "distinct (map (PublicKey \<circ> fst) vs)"
    and "\<forall>v \<in> set vs. length (PublicKey (fst v)) = 48 \<and>
      premined_deposit H spec verify (fst v) (snd v) = Inr (f v) \<and> js_MarshalDeposit J (f v) = Inr (t v)"
    and "\<forall>v \<in> set vs. map_of fs (deposit_path homeDir v) = None"
  shows "premine H spec verify io J homeDir vs fs =
    (Inr (), fs @ map (\<lambda>v. (deposit_path homeDir v, t v @ [10])) vs)"
  using assms(2-4)
proof (induction vs arbitrary: fs)
  case (Cons v vs)
  let ?fs = "fs @ [(deposit_path homeDir v, t v @ [10])]"
  have "deposit_path homeDir v' \<noteq> deposit_path homeDir v" if "v' \<in> set vs" for v'
    using Cons.prems(1,2) deposit_path_inj [of v' v homeDir] that by (auto simp: image_iff)
  then have "premine H spec verify io J homeDir vs ?fs =
      (Inr (), ?fs @ map (\<lambda>v. (deposit_path homeDir v, t v @ [10])) vs)"
    using Cons.prems by (intro Cons.IH) (auto simp: map_add_def)
  moreover have "AddGenesisDepositCmd H spec verify io J homeDir (Inr (PublicKey (fst v))) (Inr (fst v)) (snd v) [] fs =
      (Inr (), ?fs)"
    using Cons.prems(2,3) assms(1)
    by (simp add: AddGenesisDepositCmd_def bindM_def makeOutputFilepath_def writeDepositToFile_def io_ok_def
        deposit_path_def)
  ultimately show ?case by (simp add: premine_def split_beta bindM_def)
qed (simp add: premine_def)

lemma collected_deposits:
  assumes "io_ok io" and "\<forall>v \<in> set vs. js_UnmarshalDeposit J (t v @ [10]) = Inr (f v)"
  obtains ds where "CollectValidatorJSONFiles io J (premined_dir homeDir) (Inr ())
      (map (\<lambda>v. (deposit_path homeDir v, t v @ [10])) vs) = Inr ds" and "mset ds = mset (map f vs)"
proof
  let ?fs = "map (\<lambda>v. (deposit_path homeDir v, t v @ [10])) vs"
  let ?g = "\<lambda>e. projr (js_UnmarshalDeposit J (snd e))"
  have "ReadDir (premined_dir homeDir) ?fs = sort_key fst ?fs"
    by (simp add: ReadDir_def filter_map comp_def deposit_path_listed)
  moreover have "filter (\<lambda>e. json_suffix (fst e)) (sort_key fst ?fs) = sort_key fst ?fs"
    by (auto simp: filter_id_conv deposit_path_listed)
  moreover have "mapE (\<lambda>(path, bz). case os_ReadFile io path of Some e \<Rightarrow> Inl e | None \<Rightarrow> js_UnmarshalDeposit J bz)
      (sort_key fst ?fs) = Inr (map ?g (sort_key fst ?fs))"
    using assms by (intro mapE_Inr_map) (auto simp: io_ok_def)
  ultimately show "CollectValidatorJSONFiles io J (premined_dir homeDir) (Inr ()) ?fs = Inr (map ?g (sort_key fst ?fs))"
    using assms(1) by (simp add: CollectValidatorJSONFiles_def io_ok_def)
  have "mset (map ?g (sort_key fst ?fs)) = mset (map ?g ?fs)" by (simp only: mset_map mset_sort)
  also have "map ?g ?fs = map f vs" using assms(2) by simp
  finally show "mset (map ?g (sort_key fst ?fs)) = mset (map f vs)" .
qed

lemma numbered_nth: "length (numbered ds) = length ds"
    "i < length ds \<Longrightarrow> numbered ds ! i = (ds ! i)\<lparr>dep_Index := of_nat i\<rparr>"
  by (simp_all add: numbered_def nth_enumerate_eq)

lemma numbered_props:
  "map dep_Index (numbered ds) = map of_nat [0..<length ds]" "map dep_Pubkey (numbered ds) = map dep_Pubkey ds"
  "d \<in> set (numbered ds) \<Longrightarrow> \<exists>d' \<in> set ds. \<exists>i. d = d'\<lparr>dep_Index := i\<rparr>"
proof -
  show "map dep_Index (numbered ds) = map of_nat [0..<length ds]" "map dep_Pubkey (numbered ds) = map dep_Pubkey ds"
    by (rule nth_equalityI; simp add: numbered_nth)+
  assume "d \<in> set (numbered ds)"
  then obtain i where "i < length ds" "numbered ds ! i = d" by (metis in_set_conv_nth numbered_nth(1))
  then show "\<exists>d' \<in> set ds. \<exists>i. d = d'\<lparr>dep_Index := i\<rparr>" using numbered_nth(2) by (metis nth_mem)
qed

lemma committee_keys: "upd_Pubkey ` set (committee vs) = (\<lambda>e. val_Pubkey (snd e)) ` set vs"
  by (simp add: committee_def by_effective_balance_def image_image)

lemma signed_renumber: "signed_for_genesis sp (d\<lparr>dep_Index := i\<rparr>) = signed_for_genesis sp d"
  by (simp add: signed_for_genesis_def Deposit_wf_def Deposit_VerifySignature_def)

subsection \<open>Genesis from the command line\<close>

lemma genesis_of_deposits:
  assumes "hashing W E" and "beacon_store kv view addr B" and sp: "sszEnv sp = generated_env W E"
    and spec: "0 < ElectraForkEpoch (cs sp)" "EffectiveBalanceIncrement (cs sp) \<noteq> 0"
    and ok: "genesis_ok sp deposits header" "payload_header_encodable header"
    and signed: "\<forall>d \<in> set deposits. signed_for_genesis sp d"
    and distinct: "distinct (map (addr \<circ> dep_Pubkey) deposits)" and empty: "view (h_ctx h) = empty_view"
  shows "\<exists>us h'. InitializePreminedBeaconStateFromEth1 sp B kv deposits header (FromUint32 Deneb) h = (Inr us, h') \<and>
    chain_inv (cs sp) addr (view (h_ctx h')) \<and> pubkeys (view (h_ctx h')) = dep_Pubkey ` set deposits \<and>
    upd_Pubkey ` set us = dep_Pubkey ` set deposits"
proof -
  note env = hashing.axioms [OF assms(1)]
  have "SlotsPerEpoch (cs sp) \<noteq> 0" "length deposits \<le> 2 ^ 40" using ok by (simp_all add: genesis_ok_def spec_ok_def)
  then obtain us h1 where "InitializePreminedBeaconStateFromEth1 sp mem_branching (mem_kv addr) deposits header
      (FromUint32 Deneb) (handle_view view h) = (Inr us, h1)"
    using hashing.mem_Initialize_ok [OF assms(1) sp _ spec ok(2) _ signed distinct, of "handle_view view h"] empty
    by (auto simp: handle_view_def)
  from simulates_success' [OF beacon_store.Initialize_sim [OF assms(2)] this] obtain h' where
    run: "InitializePreminedBeaconStateFromEth1 sp B kv deposits header (FromUint32 Deneb) h = (Inr us, h')" by blast
  have inv: "chain_inv (cs sp) addr (view (h_ctx h')) \<and> pubkeys (view (h_ctx h')) = dep_Pubkey ` set deposits \<and>
      us = committee (v_validators (view (h_ctx h')))"
    using chain_inv_genesis [OF _ _ ok(1) simulates_success [OF beacon_store.Initialize_sim [OF assms(2)] run]] empty env sp
    by (simp add: handle_view_def ssz_walker.digest_length)
  then have "upd_Pubkey ` set us = pubkeys (view (h_ctx h'))"
    by (simp add: committee_keys pubkeys_def)
  with run inv show ?thesis by auto
qed

text \<open>The files that honest signers write, and the deposits that are collected from them.\<close>

lemma premine_collect:
  assumes "hashing W E" and "io_ok io" and "json_ok J" and env: "sszEnv sp = generated_env W E"
    and "length (DomainTypeDeposit (cs sp)) = 4" and distinct: "distinct (map (addr \<circ> PublicKey \<circ> fst) vs)"
    and vs: "\<forall>v \<in> set vs. honest_signer (VerifySignature (signer sp)) (fst v) \<and> \<not> isl (ConvertAmount (snd v))"
  obtains fs ds where
    "premine (generated_env W E) (cs sp) (VerifySignature (signer sp)) io J homeDir vs [] = (Inr (), fs)"
    and "CollectValidatorJSONFiles io J (premined_dir homeDir) (Inr ()) fs = Inr ds"
    and "length ds = length vs" and "\<forall>d \<in> set ds. signed_for_genesis sp d"
    and "mset (map dep_Pubkey ds) = mset (map (PublicKey \<circ> fst) vs)"
proof -
  let ?verify = "VerifySignature (signer sp)" and ?H = "generated_env W E"
  have "\<exists>d bz. premined_deposit ?H (cs sp) ?verify (fst v) (snd v) = Inr d \<and> signed_for_genesis sp d \<and>
      dep_Pubkey d = PublicKey (fst v) \<and> js_MarshalDeposit J d = Inr bz \<and> js_UnmarshalDeposit J (bz @ [10]) = Inr d"
    if "v \<in> set vs" for v
  proof -
    from that vs obtain a where "honest_signer ?verify (fst v)" "ConvertAmount (snd v) = Inr a"
      by (cases "ConvertAmount (snd v)") auto
    from hashing.premined_deposit_ok [OF assms(1,5) this] obtain d where
      d: "premined_deposit ?H (cs sp) ?verify (fst v) (snd v) = Inr d" "signed_for_genesis sp d"
        "dep_Pubkey d = PublicKey (fst v)"
      by (metis env signed_for_genesis_def)
    then have "Deposit_wf d" by (simp add: signed_for_genesis_def)
    with d assms(3) show ?thesis by (auto simp: json_ok_def)
  qed
  then obtain f t where f: "\<And>v. v \<in> set vs \<Longrightarrow>
      premined_deposit ?H (cs sp) ?verify (fst v) (snd v) = Inr (f v) \<and> signed_for_genesis sp (f v) \<and>
      dep_Pubkey (f v) = PublicKey (fst v) \<and> js_MarshalDeposit J (f v) = Inr (t v) \<and>
      js_UnmarshalDeposit J (t v @ [10]) = Inr (f v)"
    by metis
  let ?fs = "map (\<lambda>v. (deposit_path homeDir v, t v @ [10])) vs"
  have "distinct (map (PublicKey \<circ> fst) vs)" using distinct by (auto simp: distinct_map inj_on_def)
  then have files: "premine ?H (cs sp) ?verify io J homeDir vs [] = (Inr (), ?fs)"
    using premine_files [OF assms(2), of vs ?H "cs sp" ?verify f J t "[]" homeDir] f vs
    by (auto simp: honest_signer_def)
  obtain ds where ds: "CollectValidatorJSONFiles io J (premined_dir homeDir) (Inr ()) ?fs = Inr ds"
      "mset ds = mset (map f vs)"
    by (rule collected_deposits [OF assms(2), of vs J t f homeDir]) (use f in blast)
  have "map dep_Pubkey (map f vs) = map (PublicKey \<circ> fst) vs" using f by simp
  then have "mset (map dep_Pubkey ds) = mset (map (PublicKey \<circ> fst) vs)" using ds(2) by (metis mset_map)
  then show thesis
    using that [OF files ds(1)] mset_eq_setD [OF ds(2)] mset_eq_length [OF ds(2)] f by auto
qed

text \<open>
  C8. A network of validators that ran \<open>add-premined-deposit\<close> starts. Let the signers be honest, their addresses
  distinct and the amounts numbers, and let the genesis file hold the Deneb version, a well-formed payload header and
  no deposits. Then every command writes its file, \<open>collect-premined-deposits\<close> puts all deposits into the genesis file,
  numbered from zero, and a node that starts on this file, over any lawful store, initializes its state: the
  invariant of the chain holds, the registry has exactly the keys of the validators, and consensus
  receives one update for each.
\<close>

theorem premined_genesis_starts:
  assumes "hashing W E" and "beacon_store kv view addr B" and "io_ok io" and "json_ok J"
    and env: "sszEnv (svc_sp s) = generated_env W E" and spec: "spec_ok (cs (svc_sp s))"
      "SlotsPerHistoricalRoot (cs (svc_sp s)) \<le> HistoricalRootsLimit (cs (svc_sp s))"
      "0 < ElectraForkEpoch (cs (svc_sp s))" "EffectiveBalanceIncrement (cs (svc_sp s)) \<noteq> 0"
      "length (DomainTypeDeposit (cs (svc_sp s))) = 4"
    and vs: "vs \<noteq> []" "length vs \<le> 2 ^ 40" "distinct (map (addr \<circ> PublicKey \<circ> fst) vs)"
      "\<forall>v \<in> set vs. honest_signer (VerifySignature (signer (svc_sp s))) (fst v) \<and> \<not> isl (ConvertAmount (snd v))"
    and g: "js_UnmarshalGenesis J raw = Inr g" "Genesis_wf g" "gen_Deposits g = []" "gen_ForkVersion g = FromUint32 Deneb"
    and empty: "view (h_ctx h) = empty_view"
  shows "\<exists>fs bz g' us h'.
    premine (generated_env W E) (cs (svc_sp s)) (VerifySignature (signer (svc_sp s))) io J homeDir vs [] = (Inr (), fs) \<and>
    CollectGenesisDepositsCmd io J homeDir (Inr raw) (Inr ()) None fs = Inr bz \<and>
    js_UnmarshalGenesis J bz = Inr g' \<and> map dep_Index (gen_Deposits g') = map of_nat [0..<length vs] \<and>
    InitGenesis s (js_UnmarshalGenesis J) B kv bz h = (Inr us, h') \<and>
    chain_inv (cs (svc_sp s)) addr (view (h_ctx h')) \<and>
    pubkeys (view (h_ctx h')) = (PublicKey \<circ> fst) ` set vs \<and> am_PubKey ` set us = (PublicKey \<circ> fst) ` set vs"
proof -
  let ?sp = "svc_sp s"
  from premine_collect [OF assms(1,3,4) env spec(5) vs(3,4)] obtain fs ds where
    files: "premine (generated_env W E) (cs ?sp) (VerifySignature (signer ?sp)) io J homeDir vs [] = (Inr (), fs)"
    and ds: "CollectValidatorJSONFiles io J (premined_dir homeDir) (Inr ()) fs = Inr ds" "length ds = length vs"
      "\<forall>d \<in> set ds. signed_for_genesis ?sp d" "mset (map dep_Pubkey ds) = mset (map (PublicKey \<circ> fst) vs)"
    by blast
  have "mset (map addr (map dep_Pubkey (numbered ds))) = mset (map addr (map (PublicKey \<circ> fst) vs))"
    using ds(4) unfolding numbered_props(2) by (metis mset_map)
  then have distinct: "distinct (map (addr \<circ> dep_Pubkey) (numbered ds))"
    using vs(3) mset_eq_imp_distinct_iff by (fastforce simp: comp_assoc)
  have signed: "\<forall>d \<in> set (numbered ds). signed_for_genesis ?sp d"
    using numbered_props(3) signed_renumber ds(3) by metis
  have keys: "dep_Pubkey ` set (numbered ds) = (PublicKey \<circ> fst) ` set vs"
    using mset_eq_setD [OF ds(4)] arg_cong [OF numbered_props(2) [of ds], of set] by simp
  let ?g = "g\<lparr>gen_Deposits := numbered ds\<rparr>"
  have "Genesis_wf ?g"
    using g(2) signed vs(2) ds(2) by (simp add: Genesis_wf_def signed_for_genesis_def numbered_nth)
  then obtain bz0 bz where bz: "js_MarshalGenesis J ?g = Inr bz0" "js_MarshalIndent J bz0 = Inr bz"
      "js_UnmarshalGenesis J bz = Inr ?g"
    using assms(4) unfolding json_ok_def by blast
  have collect: "CollectGenesisDepositsCmd io J homeDir (Inr raw) (Inr ()) None fs = Inr bz"
    using ds(1) g(1,3) bz by (simp add: CollectGenesisDepositsCmd_def edit_genesis_def)
  have "genesis_ok ?sp (numbered ds) (gen_ExecutionPayloadHeader g)"
      "payload_header_encodable (gen_ExecutionPayloadHeader g)"
    using spec(1,2) vs(1,2) ds(2) g(2) numbered_nth(1) [of ds]
    by (auto simp: genesis_ok_def Genesis_wf_def PayloadHeader_wf_def payload_header_encodable_def)
  from genesis_of_deposits [OF assms(1,2) env spec(3,4) this signed distinct empty] obtain us h' where
    run: "InitializePreminedBeaconStateFromEth1 ?sp B kv (numbered ds) (gen_ExecutionPayloadHeader g) (FromUint32 Deneb) h =
        (Inr us, h')" "chain_inv (cs ?sp) addr (view (h_ctx h'))"
      "pubkeys (view (h_ctx h')) = dep_Pubkey ` set (numbered ds)" "upd_Pubkey ` set us = dep_Pubkey ` set (numbered ds)"
    by blast
  let ?u = "\<lambda>u. \<lparr>am_PubKey = upd_Pubkey u, am_PubKeyType = CometBLSType, am_Power = sint (upd_EffectiveBalance u)\<rparr>"
  have "iter_MapErr convertValidatorUpdate (map Some us) = Inr (map (?u \<circ> the) (map Some us))"
    by (rule iter_MapErr_total) (auto simp: convertValidatorUpdate_def)
  then have "InitGenesis s (js_UnmarshalGenesis J) B kv bz h = (Inr (map ?u us), h')"
    using bz(3) run(1) g(4) by (simp add: InitGenesis_def ProcessGenesisData_def bindM_def comp_def)
  moreover have "am_PubKey ` set (map ?u us) = (PublicKey \<circ> fst) ` set vs"
    using run(4) keys by (simp add: image_image)
  ultimately show ?thesis
    using files collect bz(3) run(2,3) keys numbered_props(1) [of ds] ds(2) by auto
qed

text \<open>A concrete codec with the round trips of \<open>json_ok\<close>: the containers in their SSZ form.\<close>

fun decode_deposits :: "nat \<Rightarrow> bytes \<Rightarrow> err + Deposit list \<times> bytes" where
  "decode_deposits 0 bz = Inr ([], bz)"
| "decode_deposits (Suc n) bz =
     bindE (Deposit_UnmarshalSSZ reference_fastssz (take 192 bz)) (\<lambda>d.
     bindE (decode_deposits n (drop 192 bz)) (\<lambda>(ds, rest). Inr (d # ds, rest)))"

definition demo_json :: json_codec where
  "demo_json = \<lparr>
     js_MarshalDeposit = (\<lambda>d. Inr (Deposit_bytes d)),
     js_UnmarshalDeposit = (\<lambda>bz. Deposit_UnmarshalSSZ reference_fastssz (butlast bz)),
     js_MarshalGenesis = (\<lambda>g. Inr (gen_ForkVersion g @ le_bytes (of_nat (length (gen_Deposits g))) @
       concat (map Deposit_bytes (gen_Deposits g)) @ PayloadHeader_bytes (gen_ExecutionPayloadHeader g))),
     js_UnmarshalGenesis = (\<lambda>bz.
       bindE (decode_deposits (unat (le_value (take 8 (drop 4 bz)))) (drop 12 bz)) (\<lambda>(ds, rest).
       bindE (ExecutionPayloadHeaderDeneb_UnmarshalSSZ reference_fastssz
                (demo_payload_header\<lparr>ph_LogsBloom := [], ph_ExtraData := []\<rparr>) rest) (\<lambda>header.
       Inr \<lparr>gen_ForkVersion = take 4 bz, gen_Deposits = ds, gen_ExecutionPayloadHeader = header\<rparr>))),
     js_MarshalIndent = Inr\<rparr>"

lemma decode_deposits_bytes:
  "\<forall>d \<in> set ds. Deposit_wf d \<Longrightarrow>
   decode_deposits (length ds) (concat (map Deposit_bytes ds) @ rest) = Inr (ds, rest)"
  by (induction ds) (simp_all add: ref_ssz.Deposit.dec_enc ref_ssz.Deposit.enc_length)

lemma demo_json_ok: "json_ok demo_json"
proof -
  have "js_UnmarshalGenesis demo_json (gen_ForkVersion g @ le_bytes (of_nat (length (gen_Deposits g))) @
      concat (map Deposit_bytes (gen_Deposits g)) @ PayloadHeader_bytes (gen_ExecutionPayloadHeader g)) = Inr g"
    if "Genesis_wf g" for g
    using that
    by (simp add: demo_json_def Genesis_wf_def le_value_le_bytes unat_of_nat decode_deposits_bytes
        ref_ssz.PayloadHeader_roundtrip)
  then show ?thesis by (simp add: json_ok_def demo_json_def ref_ssz.Deposit.dec_enc)
qed

definition demo_io :: os_answers where
  "demo_io = \<lparr>os_MkdirAll = None, os_OpenFile = None, os_Write = None, os_ReadDir = None, os_ReadFile = (\<lambda>_. None)\<rparr>"

definition premine_env :: ssz_env where
  "premine_env = generated_env (reference_walker (reference_env fold_digest 15)) (reference_env fold_digest 15)"

definition premine_service :: Service where
  "premine_service = demo_service\<lparr>svc_sp := demo_processor\<lparr>sszEnv := premine_env\<rparr>\<rparr>"

definition premine_genesis :: Genesis where
  "premine_genesis = \<lparr>gen_ForkVersion = FromUint32 Deneb, gen_Deposits = [],
     gen_ExecutionPayloadHeader = demo_payload_header\<rparr>"

definition premine_validators :: "(BLSSigner \<times> bytes) list" where
  "premine_validators = [(demo_signer, ascii ''32000000000''), (demo_signer\<lparr>PublicKey := replicate 48 8,
     Sign := (\<lambda>m. Inr (m @ replicate 48 8 @ replicate 16 0))\<rparr>, ascii ''1000000000'')]"

lemma premine_validators_ok:
  "\<forall>v \<in> set premine_validators. honest_signer (VerifySignature demo_signer) (fst v) \<and> \<not> isl (ConvertAmount (snd v))"
  by (simp add: premine_validators_def honest_signer_def demo_signer_def ConvertAmount_def big_SetString_def
      ascii_def of_char_def)

theorem premined_genesis_starts_witness:
  "\<exists>fs bz us h'.
    premine premine_env BaseSpec (VerifySignature demo_signer) demo_io demo_json (ascii ''home'') premine_validators [] =
      (Inr (), fs) \<and>
    CollectGenesisDepositsCmd demo_io demo_json (ascii ''home'')
      (js_MarshalGenesis demo_json premine_genesis) (Inr ()) None fs = Inr bz \<and>
    InitGenesis premine_service (js_UnmarshalGenesis demo_json) mem_branching (mem_kv id) bz
      \<lparr>h_ctx = empty_view, h_parent = None\<rparr> = (Inr us, h') \<and>
    pubkeys (h_ctx h') = {replicate 48 7, replicate 48 8}"
proof -
  have g: "Genesis_wf premine_genesis"
    by (simp add: Genesis_wf_def premine_genesis_def PayloadHeader_wf_def demo_payload_header_def zero32_def Deneb_version)
  then obtain raw where raw: "js_MarshalGenesis demo_json premine_genesis = Inr raw"
      "js_UnmarshalGenesis demo_json raw = Inr premine_genesis"
    using demo_json_ok by (auto simp: json_ok_def)
  have io: "io_ok demo_io" by (simp add: io_ok_def demo_io_def)
  have vs: "distinct (map (id \<circ> PublicKey \<circ> fst) premine_validators)"
    "(PublicKey \<circ> fst) ` set premine_validators = {replicate 48 7, replicate 48 8}"
    by (simp_all add: premine_validators_def demo_signer_def)
  have sp: "svc_sp premine_service = demo_processor\<lparr>sszEnv := premine_env\<rparr>" "cs demo_processor = BaseSpec"
      "signer demo_processor = demo_signer"
    by (simp_all add: premine_service_def demo_processor_def NewStateProcessor_def)
  have spec: "SlotsPerHistoricalRoot BaseSpec \<le> HistoricalRootsLimit BaseSpec" "0 < ElectraForkEpoch BaseSpec"
      "EffectiveBalanceIncrement BaseSpec \<noteq> 0" "length (DomainTypeDeposit BaseSpec) = 4"
    by simp_all
  show ?thesis
    using premined_genesis_starts [OF fold_hash.hashing_axioms mem_store.beacon_store_axioms [where addr = id] io demo_json_ok, where
        s = premine_service and vs = premine_validators and raw = raw and g = premine_genesis and homeDir = "ascii ''home''"
        and h = "\<lparr>h_ctx = empty_view, h_parent = None\<rparr>"] g raw vs sp spec demo_spec_ok premine_validators_ok
    by (auto simp: premine_env_def premine_genesis_def premine_validators_def)
qed

subsection \<open>Deposits of a running chain\<close>

text \<open>
  A deposit made by \<open>create-validator\<close> with the version and the genesis root of the chain is accepted by
  the state processor of every node, if the key and its address are new.
\<close>

theorem created_deposit_accepted:
  assumes "kv_laws kv view addr" and "registry_ok (view c)" and "v_eth1DepositIndex (view c) \<noteq> None"
    and "createValidatorCmd (sszEnv sp) (cs sp) (VerifySignature (signer sp)) (Inr s) cred amount version root =
      Inr (msg, sig)"
    and "ConvertVersion version = Inr ver" "ConvertGenesisValidatorRoot root = Inr r"
    and "deposit_fork sp (view c) (NewForkData ver r)" and "EffectiveBalanceIncrement (cs sp) \<noteq> 0"
    and "addr (PublicKey s) \<notin> addr ` pubkeys (view c)"
  shows "\<exists>c'. processDeposit sp kv (NewDeposit (dm_Pubkey msg) (dm_Credentials msg) (dm_Amount msg) sig i) c = (Inr (), c') \<and>
    pubkeys (view c') = insert (PublicKey s) (pubkeys (view c))"
proof -
  let ?d = "NewDeposit (dm_Pubkey msg) (dm_Credentials msg) (dm_Amount msg) sig i"
  have msg: "dm_Pubkey msg = PublicKey s"
      "VerifyCreateValidator (sszEnv sp) msg (NewForkData ver r) sig (DomainTypeDeposit (cs sp)) (VerifySignature (signer sp)) =
        Inr ()"
    using assms(4-6) by (auto simp: createValidatorCmd_def bindE_Inr CreateAndSignDepositMessage_def Let_def)
  then have "Deposit_VerifySignature (sszEnv sp) ?d (NewForkData ver r) (DomainTypeDeposit (cs sp))
      (VerifySignature (signer sp)) = Inr ()"
    by (cases msg) (simp add: Deposit_VerifySignature_def NewDeposit_def)
  then obtain w' where w': "processDeposit sp (mem_kv addr) ?d (view c) = (Inr (), w')"
    using mem_processDeposit_ok [OF assms(2,3) _ assms(7,8), of addr ?d] assms(9) msg(1) by (auto simp: NewDeposit_def)
  from simulates_success' [OF kv_laws.processDeposit_sim [OF assms(1)] this] obtain c' where
    run: "processDeposit sp kv ?d c = (Inr (), c')" "view c' = w'" by blast
  have "pubkeys w' = insert (PublicKey s) (pubkeys (view c))"
    using assms(2) w'
  proof (cases rule: mem_processDeposit)
    case (existing n j v)
    then have "PublicKey s \<in> pubkeys (view c)" using msg(1) by (force simp: pubkeys_def NewDeposit_def dest: map_of_SomeD)
    with assms(9) show ?thesis by blast
  next
    case (created n fd val)
    with NewValidatorFromDeposit_Inr [OF created(5)] msg(1) show ?thesis
      by (simp add: with_new_validator_def Let_def pubkeys_def NewDeposit_def)
  qed
  with run show ?thesis by blast
qed

subsection \<open>Further commands\<close>

text \<open>A secret that \<open>jwt generate\<close> wrote is the one that the node loads, and passes \<open>jwt validate\<close>.\<close>

lemma TrimSpace_hex: "TrimSpace (Secret_Hex secret) = Secret_Hex secret"
proof -
  have "\<not> is_space c" if "c \<in> set (hex_Encode k)" for c k
    using hex_Encode_digits [of k] that by (auto simp: list_all_iff is_space_def reverseHexTable_def)
  then have "\<not> is_space c" if "c \<in> set (Secret_Hex secret)" for c
    using that by (auto simp: Secret_Hex_def FromBytes_eq is_space_def)
  then have "dropWhile is_space (Secret_Hex secret) = Secret_Hex secret"
      "dropWhile is_space (rev (Secret_Hex secret)) = rev (Secret_Hex secret)"
    by (auto simp: dropWhile_eq_self_iff hd_rev)
  then show ?thesis by (simp add: TrimSpace_def)
qed

lemma generated_secret_loads:
  assumes "io_ok io" and "length secret = 32" and "from_hex (FromBytes secret) = Some secret"
  shows "\<exists>fs'. generateAuthSecretInFile io from_hex (Inr secret) (Inr b) path fs = (Inr (), fs') \<and>
    LoadJWTFromFile io from_hex path fs' = Inr secret \<and> validateJWTSecret io from_hex path fs' = Inr ()"
  using assms(1) secret_roundtrip [of secret from_hex] assms(2,3)
  by (simp add: generateAuthSecretInFile_def LoadJWTFromFile_def validateJWTSecret_def io_ok_def put_file_def TrimSpace_hex)

text \<open>The header the command puts into the genesis file is the one the node derives from the payload.\<close>

definition as_executable :: "ExecutableDataDeneb \<Rightarrow> geth_ExecutableData" where
  "as_executable e = \<lparr>gx_ParentHash = pl_ParentHash e, gx_FeeRecipient = pl_FeeRecipient e,
     gx_StateRoot = pl_StateRoot e, gx_ReceiptsRoot = pl_ReceiptsRoot e, gx_LogsBloom = pl_LogsBloom e,
     gx_Random = pl_Random e, gx_Number = pl_Number e, gx_GasLimit = pl_GasLimit e, gx_GasUsed = pl_GasUsed e,
     gx_Timestamp = pl_Timestamp e, gx_ExtraData = pl_ExtraData e, gx_BaseFeePerGas = Some (UnwrapBig (pl_BaseFeePerGas e)),
     gx_BlockHash = pl_BlockHash e, gx_Transactions = pl_Transactions e, gx_Withdrawals = pl_Withdrawals e,
     gx_BlobGasUsed = Some (pl_BlobGasUsed e), gx_ExcessBlobGas = Some (pl_ExcessBlobGas e)\<rparr>"

lemma genesis_header_of_payload:
  assumes "length (pl_ExtraData e) \<le> 32" and "MustNewU256LFromBigInt (Some (UnwrapBig (pl_BaseFeePerGas e))) = Inr (pl_BaseFeePerGas e)"
  shows "executableDataToExecutionPayloadHeader H first (as_executable e) =
    fst (ToHeader H first \<lparr>ep_inner = e, ep_header = None, ep_root = None\<rparr>)"
  using assms
  by (simp add: executableDataToExecutionPayloadHeader_def as_executable_def ToHeader_def header_with_roots_def or_zero_def
      ExtraDataSize_def Let_def split: sum.splits prod.splits)

text \<open>Amounts with a minus sign or beyond 64 bits are accepted: the sign is dropped, the number wraps around.\<close>

lemma ConvertAmount_wraps:
  "ConvertAmount (ascii ''-5'') = Inr 5" "ConvertAmount (ascii ''18446744073709551617'') = Inr 1"
  by (simp_all add: ConvertAmount_def big_SetString_def big_Uint64_def ascii_def of_char_def)

text \<open>Collecting a second time appends every deposit again, with the same indices.\<close>

lemma collected_twice:
  assumes "CollectValidatorJSONFiles io J (premined_dir homeDir) appState fs = Inr ds"
    and "js_UnmarshalGenesis J raw = Inr g" and "gen_Deposits g = numbered ds"
    and "js_MarshalGenesis J (g\<lparr>gen_Deposits := numbered ds @ numbered ds\<rparr>) = Inr bz0" and "js_MarshalIndent J bz0 = Inr bz"
  shows "CollectGenesisDepositsCmd io J homeDir (Inr raw) appState None fs = Inr bz"
  using assms by (simp add: CollectGenesisDepositsCmd_def edit_genesis_def)

end
