(* ===== verification/Spec2Isabelle.thy ===== *)
theory Spec2Isabelle
  imports Prelude U64 Merkle Ssz ChainSpec Types BeaconDB StateDB Registry Processor Demo
    Withdrawals Deposits Epochs Slots Blocks Chain Invariants
    Hex Encodings FileDB Blobs Availability Engine HeaderCache Builder FastSsz Codecs VarCodecs
    StateCodec SidecarCodec CodecProps SszHash Roots RootProps
    Blockchain Proposer Runtime DepositReader ServiceRegistry
    GenIndex BasicSsz Serializer NodeApi EngineClient Commands Bootstrap
begin

text \<open>
  \<^bold>\<open>BeaconKit in Isabelle/HOL\<close>

  BeaconKit is a consensus client for Ethereum execution clients, built on CometBFT and the Cosmos SDK. CometBFT
  asks a node to prepare a proposal, to check one and to finalize one. A proposal carries a beacon block and its blob
  sidecars. The node runs the state transition of the beacon chain on the block, lets the execution client check the
  execution payload, keeps the blobs available, reads deposits from the deposit contract, and tells the
  execution client which block is the head.

  The development follows the code from the bottom up. Every definition keeps the name of the function it
  translates, with the receiver as a prefix where names clash (\<open>RangeDB_Set\<close>, \<open>ForkData_UnmarshalSSZ\<close>).

  \<^bold>\<open>Conventions\<close>

  \<^item> Go's \<open>uint64\<close>, \<open>uint32\<close> and \<open>byte\<close> are words of that width, so sums and products wrap around as in Go; byte
    arrays, slices and strings are lists of bytes, with well-formedness predicates (\<open>_wf\<close>) for the lengths that
    Go's array types fix.
  \<^item> A function that may fail returns a value of \<open>err + 'a\<close>. A Go panic is the error \<open>Panic\<close>. A function over the
    store is a program of the monad of \<open>Prelude\<close>, which returns the state reached also when it fails.
  \<^item> Loops are recursive functions, all of them with a termination proof. No definition has fuel: a loop that waits on a timer or on a
    channel is a function of the list of events that it sees (\<open>EngineClient\<close>), or a step relation
    (\<open>DepositReader\<close>).
  \<^item> Goroutines that a function waits for are given with the order in which they end as an argument, and the
    theorems hold for every order. A goroutine that is not waited for is a value that the function returns
    (\<open>Blockchain\<close>). An iteration over a Go map takes the order as an argument.
  \<^item> Logging, metrics and telemetry have no effect on results and are left out.

  \<^bold>\<open>Theories and sources\<close> (paths below \<open>mod/\<close>)

  \<^item> \<open>Prelude\<close>: types, errors, the monad, Hoare triples for success (\<open>on_success\<close>) and simulations between
    stores (\<open>simulates\<close>).
  \<^item> \<open>U64\<close>, \<open>Encodings\<close>, \<open>Hex\<close>: \<open>primitives/pkg/math\<close>, \<open>bytes\<close>, \<open>hex\<close>. Powers of two, logarithms and the text,
    JSON and SSZ forms of numbers and byte strings, with their round trips; the hand-written decoders accept what
    the standard library accepts.
  \<^item> \<open>Merkle\<close>, \<open>GenIndex\<close>: \<open>primitives/pkg/merkle\<close> and \<open>primitives/pkg/ssz/merkle\<close>. Sequential and parallel layer
    hashing, the insertable tree, proofs by leaf index and by generalized index. The specification is the padded binary
    tree \<open>node\<close>; every algorithm computes its nodes, proofs are complete, and two proofs of different leaves give
    a collision.
  \<^item> \<open>Ssz\<close>, \<open>BasicSsz\<close>, \<open>Serializer\<close>: \<open>primitives/pkg/ssz\<close>. Chunking, merkleization, bit lists, basic values and
    containers read by reflection, and the reflective serializer of \<open>ssz/v2/lib\<close>.
  \<^item> \<open>ChainSpec\<close>: \<open>primitives/pkg/chain\<close>, \<open>version\<close> and \<open>config/pkg/spec\<close>. Slots, epochs and fork versions.
  \<^item> \<open>Types\<close>: \<open>consensus-types/pkg/types\<close>, \<open>engine-primitives\<close>, \<open>primitives/pkg/eip4844\<close>. The containers.
  \<^item> \<open>FastSsz\<close>, \<open>Codecs\<close>, \<open>VarCodecs\<close>, \<open>StateCodec\<close>, \<open>SidecarCodec\<close>, \<open>CodecProps\<close>: the generated encoders and decoders
    (\<open>*.ssz.go\<close>) of every container, with round trips and the set of accepted byte strings.
  \<^item> \<open>SszHash\<close>, \<open>Roots\<close>, \<open>RootProps\<close>: the generated \<open>HashTreeRootWith\<close> methods, shown to compute the roots that SSZ defines,
    and how the hand-written roots relate to them.
  \<^item> \<open>BeaconDB\<close>, \<open>StateDB\<close>, \<open>Registry\<close>: \<open>storage/pkg/beacondb\<close> and \<open>state-transition/pkg/core/state\<close>. The store of the beacon state,
    the operations on it and their exact effect.
  \<^item> \<open>Processor\<close>, \<open>Withdrawals\<close>, \<open>Deposits\<close>, \<open>Epochs\<close>, \<open>Slots\<close>, \<open>Blocks\<close>, \<open>Chain\<close>, \<open>Invariants\<close>: \<open>state-transition/pkg/core\<close>. The
    state transition, its effect step by step, atomicity, linkage of blocks, and the invariant of all reachable
    states, from genesis on. \<open>Demo\<close> is a concrete instance on which the witnesses run.
  \<^item> \<open>Engine\<close>, \<open>HeaderCache\<close>, \<open>EngineClient\<close>: \<open>execution/pkg/client\<close>, \<open>execution/pkg/engine\<close>. Calls of the execution
    client and the classification of its answers, the header caches, the startup loop and the JWT secret.
  \<^item> \<open>Builder\<close>: \<open>payload/pkg\<close>. The payload id cache and the builder.
  \<^item> \<open>Blobs\<close>, \<open>FileDB\<close>, \<open>Availability\<close>: \<open>da/pkg\<close>, \<open>storage/pkg/filedb\<close>, \<open>deposit\<close>, \<open>pruner\<close>, \<open>manager\<close>. Sidecars and their
    proofs, the range database over a file system, retention and pruning.
  \<^item> \<open>DepositReader\<close>: \<open>execution/pkg/deposit\<close>. Reading the deposit contract: the fetcher, the retries and the
    pruner as a step relation that interleaves their accesses.
  \<^item> \<open>Blockchain\<close>, \<open>Proposer\<close>: \<open>beacon/blockchain\<close>, \<open>beacon/validator\<close>. Verification and processing of blocks,
    assembly of proposals.
  \<^item> \<open>Runtime\<close>, \<open>ServiceRegistry\<close>: \<open>runtime/pkg\<close>. The ABCI handlers and the start of services.
  \<^item> \<open>NodeApi\<close>: \<open>node-api\<close>. Queries, validation of parameters, handlers.
  \<^item> \<open>Commands\<close>, \<open>Bootstrap\<close>: \<open>cli/pkg\<close>, \<open>node-core/pkg/components/signer\<close>, \<open>consensus-types/pkg/genesis\<close>. The commands
    that make deposits, the genesis file and the secret, up to the start of a chain.

  \<^bold>\<open>How the components meet\<close>

  An interface is a locale; its provider interprets it, and the properties hold for every provider. The state processor
  works on any store with the laws \<open>kv_laws\<close> and \<open>branching\<close> (together \<open>beacon_store\<close>): each of its operations
  is simulated by its run over the store \<open>mem_kv\<close>, on which the proofs are done. The availability store
  relies on \<open>index_db\<close>, which the range database of \<open>FileDB\<close> provides (a sublocale) over any \<open>file_system\<close>. The
  transition takes its hash tree roots as the record \<open>ssz_env\<close>; \<open>generated_env\<close> of \<open>RootProps\<close> fills it with the
  generated methods, which have the laws \<open>hash_roots\<close> over every \<open>ssz_walker\<close> (a sublocale, in \<open>Blockchain\<close>).
  The properties across components are \<open>honest_proposal_accepted\<close> (assembly, encoding, gossip, verification), \<open>attributes_accepted\<close> (builder, engine, processor), \<open>Persist_available\<close> (availability
  store, range database, file system, pruner), \<open>sidecars_of_generated_block\<close> (factory, generated roots, proofs) and
  \<open>premined_genesis_starts\<close> (commands, genesis file, ABCI, processor).

  \<^bold>\<open>What is assumed of code outside the repository\<close>

  Each is an argument of the definitions, and its laws are the assumptions of a locale or the premises of a property.
  Each is instantiated by functions that can be evaluated, and the witnesses use these instances.

  \<^item> Hashing: \<open>pair_hasher\<close> (\<open>gohashtree\<close> hashes pairs with SHA-256), \<open>few_goroutines\<close> (at most 50, so that
    the parallel layer hasher leaves no remainder behind), \<open>ssz_walker\<close> (the hasher of fastssz), \<open>hashing\<close> (both); no
    collision resistance is assumed.
  \<^item> Encoding: \<open>fastssz_laws\<close>, JSON of deposits and of the genesis file (what is written is read back, indented or not),
    \<open>common.FromHex\<close>, the text of deposits.
  \<^item> Storage: \<open>kv_laws\<close> (collections of the Cosmos SDK), \<open>branching\<close> (\<open>CacheContext\<close>), \<open>deposit_map\<close>,
    \<open>file_system\<close> (\<open>afero\<close>; its writes may fail, its reads answer what is there), \<open>lru\<close> (entries may vanish at any time).
  \<^item> Cryptography: \<open>xor_library\<close>, the BLS signer, the KZG verifier, the key of CometBFT.
  \<^item> The execution client (\<open>eth1_rpc\<close>), go-ethereum's transactions, tries and block hashes (\<open>geth\<close>), the binding of
    the deposit contract, the answers to dialing (\<open>attempt\<close>).
  \<^item> The operating system (\<open>os_answers\<close>), the router and the struct validator of the API.

  \<^bold>\<open>Bounds\<close>

  SSZ offsets have four bytes, so the round trips of containers with variable fields are for encodings below 4 GiB;
  the Merkle results are for trees of at most \<open>2 ^ 62\<close> or \<open>2 ^ 63\<close> leaves, as depths and counts have to fit in 64 bits; the registry has at most
  \<open>2 ^ 40\<close> validators, the limit of the container. Where a sum of amounts or indices could wrap around, the property says so or has the
  bound as a premise.

  \<^bold>\<open>Not modelled\<close>

  \<^item> Dependency injection, configuration files, logging and the node builder (\<open>node-core/pkg/components\<close> apart from the
    signers): wiring without logic of its own. The event feeds wrap go-ethereum's.
  \<^item> The tables of commands, flags and routes; the interfaces and type constraints, which have no behaviour.
  \<^item> Generated code without a specification in the repository: mocks, protobuf and contract bindings, JSON
    methods of go-ethereum's generator, and \<open>bellatrix.ssz.go\<close>, a fixture of the serializer's tests.
  \<^item> The decimal printing of 256-bit numbers and \<open>CometValues\<close>, which third-party code owns.
\<close>

end
